(* ===== verification/Prelude.thy ===== *)
theory Prelude
  imports
    Main
    "HOL-Library.AList"
    "HOL-Library.Multiset"
    "HOL-Library.List_Lexorder"
    "HOL-Library.Char_ord"
    "HOL-Library.Product_Lexorder"
begin

text \<open>
  Shared vocabulary of the development: the collections of JavaScript the gateway is written
  with, and the generic facts the component theories use.

  \<^item> \<open>Map\<close> keeps its keys in insertion order; \<open>set\<close> on a present key keeps its place and on an
    absent key appends. That is an association list under \<open>AList.update\<close> and
    \<open>AList.delete\<close>; its well-formedness is that the keys are distinct.
  \<^item> \<open>Set\<close> keeps its elements in insertion order: a distinct list under \<open>js_add\<close> and
    \<open>removeAll\<close>.
  \<^item> An optional bound whose default is \<open>Infinity\<close> is a \<open>jslimit\<close>.
  \<^item> \<open>Date.now()\<close> is an argument \<open>now\<close> of the operation that reads it, in milliseconds.
  \<^item> Numbers that count (sequence numbers, sizes, timestamps) are exact integers.
\<close>

named_theorems map_wf \<open>operations keep the keys of a map distinct\<close>
named_theorems inv_intros \<open>operations keep the invariant of their component\<close>

type_synonym ('k, 'v) jsmap = "('k \<times> 'v) list"
type_synonym 'a jsset = "'a list"
type_synonym clientId = string
type_synonym roomId = string
type_synonym time = int

abbreviation js_get :: "('k, 'v) jsmap \<Rightarrow> 'k \<Rightarrow> 'v option" where
  "js_get m k \<equiv> map_of m k"

abbreviation js_set :: "'k \<Rightarrow> 'v \<Rightarrow> ('k, 'v) jsmap \<Rightarrow> ('k, 'v) jsmap" where
  "js_set k v m \<equiv> AList.update k v m"

abbreviation js_delete :: "'k \<Rightarrow> ('k, 'v) jsmap \<Rightarrow> ('k, 'v) jsmap" where
  "js_delete k m \<equiv> AList.delete k m"

abbreviation js_has :: "('k, 'v) jsmap \<Rightarrow> 'k \<Rightarrow> bool" where
  "js_has m k \<equiv> map_of m k \<noteq> None"

abbreviation js_keys :: "('k, 'v) jsmap \<Rightarrow> 'k list" where
  "js_keys m \<equiv> map fst m"

abbreviation wf_map :: "('k, 'v) jsmap \<Rightarrow> bool" where
  "wf_map m \<equiv> distinct (map fst m)"

definition js_add :: "'a \<Rightarrow> 'a jsset \<Rightarrow> 'a jsset" where
  "js_add x xs = (if x \<in> set xs then xs else xs @ [x])"

datatype jslimit = Infinity | Limit int

fun reaches :: "int \<Rightarrow> jslimit \<Rightarrow> bool" where
  "reaches n Infinity = False"
| "reaches n (Limit l) = (n \<ge> l)"

text \<open>The loop \<open>while (m.size > cap) m.delete(m.keys().next().value)\<close>.\<close>

function evict_oldest :: "nat \<Rightarrow> ('k, 'v) jsmap \<Rightarrow> ('k, 'v) jsmap" where
  "evict_oldest cap m =
     (if length m > cap
      then (case m of [] \<Rightarrow> [] | (k, v) # r \<Rightarrow> evict_oldest cap (js_delete k m))
      else m)"
  by pat_completeness auto
termination
  by (relation "measure (\<lambda>(cap, m). length m)") (auto simp: le_imp_less_Suc AList.length_delete_le)

declare evict_oldest.simps [simp del]

section \<open>Maps\<close>

lemma js_get_set [simp]: "js_get (js_set k v m) k' = (if k' = k then Some v else js_get m k')"
  by (simp add: AList.update_conv')

lemma js_get_delete [simp]: "js_get (js_delete k m) k' = (if k' = k then None else js_get m k')"
  by (simp add: AList.delete_conv')

lemma wf_js_set [simp, map_wf]: "wf_map m \<Longrightarrow> wf_map (js_set k v m)"
  by (rule AList.distinct_update)

lemma wf_js_delete [simp, map_wf]: "wf_map m \<Longrightarrow> wf_map (js_delete k m)"
  by (rule AList.distinct_delete)

lemma length_js_set: "length (js_set k v m) = (if js_has m k then length m else Suc (length m))"
  by (induction m) auto

lemma js_set_absent: "js_get m k = None \<Longrightarrow> js_set k v m = m @ [(k, v)]"
  by (induction m) (auto split: if_splits)

lemma js_delete_absent: "js_get m k = None \<Longrightarrow> js_delete k m = m"
  by (induction m) (auto split: if_splits)

lemma length_js_delete:
  "wf_map m \<Longrightarrow> length (js_delete k m) = (if js_has m k then length m - 1 else length m)"
proof (induction m)
  case (Cons p m)
  obtain a b where p: "p = (a, b)" by fastforce
  show ?case
  proof (cases "a = k")
    case True
    with Cons.prems p have "js_get m k = None" by (simp add: map_of_eq_None_iff)
    with True p show ?thesis by (simp add: js_delete_absent)
  next
    case False
    moreover from this Cons p have "js_has m k \<Longrightarrow> 0 < length m" by (cases m) auto
    ultimately show ?thesis using Cons p by auto
  qed
qed simp

lemma int_length_js_delete:
  "wf_map m \<Longrightarrow> int (length (js_delete k m)) = int (length m) - (if js_has m k then 1 else 0)"
proof (cases "js_has m k")
  case True
  then obtain n where "length m = Suc n" by (cases m) auto
  moreover assume "wf_map m"
  ultimately show ?thesis using True by (simp add: length_js_delete)
qed (simp add: length_js_delete)

lemma js_set_set [simp]: "js_set k v (js_set k v' m) = js_set k v m"
  by (induction m) auto

lemma js_delete_set_same [simp]: "js_delete k (js_set k v m) = js_delete k m"
  by (induction m) auto

lemma js_delete_head [simp]: "wf_map ((k, v) # r) \<Longrightarrow> js_delete k ((k, v) # r) = r"
  by (simp add: js_delete_absent map_of_eq_None_iff)

lemma js_keys_set [simp]: "set (js_keys (js_set k v m)) = insert k (set (js_keys m))"
  by (simp add: AList.dom_update)

lemma js_keys_delete [simp]: "set (js_keys (js_delete k m)) = set (js_keys m) - {k}"
  by (auto simp: AList.delete_eq)

lemma js_get_dom: "js_get m k = Some v \<Longrightarrow> k \<in> set (js_keys m)"
  by (metis domI dom_map_of_conv_image_fst set_map)

lemma js_get_SomeI: "wf_map m \<Longrightarrow> (k, v) \<in> set m \<Longrightarrow> js_get m k = Some v"
  by simp

lemma evict_oldest_drop: "wf_map m \<Longrightarrow> evict_oldest cap m = drop (length m - cap) m"
proof (induction "length m" arbitrary: m)
  case 0
  then show ?case by (simp add: evict_oldest.simps)
next
  case (Suc n)
  then obtain k v r where m: "m = (k, v) # r" by (cases m) auto
  show ?case
  proof (cases "length m > cap")
    case True
    with m have "evict_oldest cap m = evict_oldest cap (js_delete k ((k, v) # r))"
      by (subst evict_oldest.simps) simp
    also have "\<dots> = evict_oldest cap r" using m Suc.prems by simp
    also have "\<dots> = drop (length r - cap) r" using Suc m by simp
    finally show ?thesis using True m by (simp add: Suc_diff_le)
  next
    case False
    then show ?thesis by (simp add: evict_oldest.simps [of cap m])
  qed
qed

lemma length_evict_oldest: "wf_map m \<Longrightarrow> length (evict_oldest cap m) = min cap (length m)"
  by (simp add: evict_oldest_drop)

lemma wf_evict_oldest [simp, map_wf]: "wf_map m \<Longrightarrow> wf_map (evict_oldest cap m)"
  by (simp add: evict_oldest_drop drop_map [symmetric])

lemma js_set_split:
  assumes "k \<noteq> key"
  shows "\<exists>xs' ys'. js_set k v (xs @ (key, t) # ys) = xs' @ (key, t) # ys' \<and> length ys' \<le> Suc (length ys)"
proof (induction xs)
  case Nil
  have "js_set k v ([] @ (key, t) # ys) = [] @ (key, t) # js_set k v ys" using assms by simp
  moreover have "length (js_set k v ys) \<le> Suc (length ys)" by (simp add: length_js_set)
  ultimately show ?case by blast
next
  case (Cons p xs)
  then obtain xs' ys' where ih: "js_set k v (xs @ (key, t) # ys) = xs' @ (key, t) # ys'"
    "length ys' \<le> Suc (length ys)" by blast
  obtain a b where "p = (a, b)" by fastforce
  then have "js_set k v ((p # xs) @ (key, t) # ys) \<in>
      {((k, v) # xs) @ (key, t) # ys, (p # xs') @ (key, t) # ys'}" using ih by simp
  with ih(2) show ?case by (metis insert_iff le_SucI order_refl singletonD)
qed

lemma evict_oldest_keeps:
  assumes "wf_map m" "m = xs @ (key, v) # ys" "length ys < cap"
  shows "\<exists>xs'. evict_oldest cap m = xs' @ (key, v) # ys"
proof -
  have "length m - cap \<le> length xs" using assms(2,3) by simp
  then have "drop (length m - cap) m = drop (length m - cap) xs @ (key, v) # ys" using assms(2) by simp
  then show ?thesis using evict_oldest_drop [OF assms(1)] by metis
qed

section \<open>Sets\<close>

lemma set_js_add [simp]: "set (js_add x xs) = insert x (set xs)"
  by (auto simp: js_add_def)

lemma distinct_js_add [simp]: "distinct xs \<Longrightarrow> distinct (js_add x xs)"
  by (simp add: js_add_def)

lemma js_add_not_Nil [simp]: "js_add x xs \<noteq> []"
  by (auto simp: js_add_def)

lemma js_add_idem [simp]: "js_add x (js_add x xs) = js_add x xs"
  by (simp add: js_add_def)

section \<open>Lists\<close>

lemma length_filter_mono:
  "(\<And>x. x \<in> set xs \<Longrightarrow> P x \<Longrightarrow> Q x) \<Longrightarrow> length (filter P xs) \<le> length (filter Q xs)"
  by (induction xs) auto

lemma insort_key_map: "map f (insort_key (\<lambda>x. k (f x)) x xs) = insort_key k (f x) (map f xs)"
  by (induction xs) auto

lemma sort_key_map: "map f (sort_key (\<lambda>x. k (f x)) xs) = sort_key k (map f xs)"
  by (induction xs) (auto simp: insort_key_map)

lemma filter_implied:
  "(\<And>x. x \<in> set xs \<Longrightarrow> P x \<Longrightarrow> Q x) \<Longrightarrow> filter P (filter Q xs) = filter P xs"
  by (induction xs) auto

lemma sorted_hd_filter_id: "sorted xs \<Longrightarrow> \<not> (xs \<noteq> [] \<and> hd xs \<le> c) \<Longrightarrow> filter (\<lambda>x. c < x) xs = xs"
  for c :: "'a::linorder"
  by (cases xs) (auto simp: filter_id_conv)

section \<open>Limits\<close>

lemma reaches_mono: "reaches m l \<Longrightarrow> m \<le> n \<Longrightarrow> reaches n l"
  by (cases l) auto

end
