(* ===== verification/Json.thy ===== *)
theory Json
  imports Prelude
begin

text \<open>
  The JSON values the gateway exchanges, and the parts of the language's string and JSON
  library the components use: decimal printing of integers, \<open>padStart\<close>, template-string
  conversion, truthiness, property access and \<open>JSON.stringify\<close>.

  A string is the sequence of its UTF-8 bytes, so \<open>Buffer.byteLength\<close> is \<open>length\<close>. A JSON number
  is identified with the text the language prints for it. An object is an insertion-ordered map.
\<close>

datatype json =
    JNull
  | JBool bool
  | JNum string
  | JStr string
  | JArr "json list"
  | JObj "(string \<times> json) list"

section \<open>Decimal numbers\<close>

definition digit_char :: "nat \<Rightarrow> char" where
  "digit_char d = char_of (48 + d mod 10)"

fun nat_str :: "nat \<Rightarrow> string" where
  "nat_str n = (if n < 10 then [digit_char n] else nat_str (n div 10) @ [digit_char n])"

declare nat_str.simps [simp del]

definition int_str :: "int \<Rightarrow> string" where
  "int_str i = (if i < 0 then CHR ''-'' # nat_str (nat (- i)) else nat_str (nat i))"

definition pad_start :: "nat \<Rightarrow> char \<Rightarrow> string \<Rightarrow> string" where
  "pad_start w c s = replicate (w - length s) c @ s"

section \<open>Values\<close>

fun truthy :: "json \<Rightarrow> bool" where
  "truthy JNull = False"
| "truthy (JBool b) = b"
| "truthy (JNum s) = (s \<noteq> ''0'')"
| "truthy (JStr s) = (s \<noteq> [])"
| "truthy (JArr _) = True"
| "truthy (JObj _) = True"

text \<open>Property access \<open>v.k\<close>; \<open>None\<close> is \<open>undefined\<close> (also for a property of a primitive).\<close>

fun get_prop :: "json \<Rightarrow> string \<Rightarrow> json option" where
  "get_prop (JObj m) k = js_get m k"
| "get_prop _ k = None"

fun join_with :: "string \<Rightarrow> string list \<Rightarrow> string" where
  "join_with sep [] = []"
| "join_with sep [s] = s"
| "join_with sep (s # ss) = s @ sep @ join_with sep ss"

text \<open>The conversion a template string applies to a value.\<close>

fun to_text :: "json \<Rightarrow> string" where
  "to_text JNull = ''null''"
| "to_text (JBool b) = (if b then ''true'' else ''false'')"
| "to_text (JNum s) = s"
| "to_text (JStr s) = s"
| "to_text (JArr vs) = join_with '','' (map (\<lambda>v. case v of JNull \<Rightarrow> [] | _ \<Rightarrow> to_text v) vs)"
| "to_text (JObj _) = ''[object Object]''"

section \<open>JSON.stringify\<close>

definition hex_digit :: "nat \<Rightarrow> char" where
  "hex_digit d = (if d < 10 then char_of (48 + d) else char_of (87 + d))"

definition escape_char :: "char \<Rightarrow> string" where
  "escape_char c =
     (let n = of_char c :: nat; bs = char_of (92::nat) in
      if n = 34 then [bs, c]
      else if n = 92 then [bs, bs]
      else if n = 8 then [bs, CHR ''b'']
      else if n = 12 then [bs, CHR ''f'']
      else if n = 10 then [bs, CHR ''n'']
      else if n = 13 then [bs, CHR ''r'']
      else if n = 9 then [bs, CHR ''t'']
      else if n < 32 then [bs, CHR ''u'', CHR ''0'', CHR ''0'', hex_digit (n div 16), hex_digit (n mod 16)]
      else [c])"

definition quote :: "string \<Rightarrow> string" where
  "quote s = (let q = char_of (34::nat) in q # concat (map escape_char s) @ [q])"

fun stringify :: "json \<Rightarrow> string" where
  "stringify JNull = ''null''"
| "stringify (JBool b) = (if b then ''true'' else ''false'')"
| "stringify (JNum s) = s"
| "stringify (JStr s) = quote s"
| "stringify (JArr vs) = ''['' @ join_with '','' (map stringify vs) @ '']''"
| "stringify (JObj m) =
     ''{'' @ join_with '','' (map (\<lambda>(k, v). quote k @ '':'' @ stringify v) m) @ ''}''"

section \<open>Facts\<close>

lemma length_digit [simp]: "length (nat_str n) \<ge> 1"
  by (subst nat_str.simps) simp

lemma of_char_digit: "of_char (digit_char d) = (48 + d mod 10 :: nat)"
proof -
  have "48 + d mod 10 < (256::nat)" by (simp add: trans_less_add1 mod_less_divisor less_le_trans)
  then show ?thesis by (simp add: digit_char_def)
qed

lemma digit_char_less: "a < 10 \<Longrightarrow> b < 10 \<Longrightarrow> digit_char a < digit_char b \<longleftrightarrow> a < b"
  by (simp add: less_char_def of_char_digit)

lemma digit_char_eq: "a < 10 \<Longrightarrow> b < 10 \<Longrightarrow> digit_char a = digit_char b \<longleftrightarrow> a = b"
  using of_char_digit [of a] of_char_digit [of b] by (metis add_left_cancel mod_less)

lemma nat_str_length: "n < 10 ^ Suc w \<Longrightarrow> length (nat_str n) \<le> Suc w"
proof (induction w arbitrary: n)
  case 0
  then show ?case by (simp add: nat_str.simps)
next
  case (Suc w)
  then have "n div 10 < 10 ^ Suc w" by (simp add: less_mult_imp_div_less mult.commute)
  from Suc.IH [OF this] show ?case by (simp add: nat_str.simps [of n])
qed

end
