(* ===== verification/RoomManager.thy ===== *)
theory RoomManager
  imports Json
begin

text \<open>
  \<open>src/room-manager.js\<close>: room membership with its reverse index, the DoS limits and the
  circuit breaker, sequence-numbered broadcasting into a per-room ring buffer with
  deduplication, acknowledgement windows, replay on reconnect, identity change on token
  refresh, and the backpressure path. This theory holds the data and the operations; the
  theories \<open>RoomMembership\<close> and \<open>RoomDelivery\<close> hold what they guarantee.

  A socket is a number; \<open>ready\<close> and \<open>buffered\<close> give its \<open>readyState === OPEN\<close> and
  \<open>bufferedAmount\<close> at the time of the call. What an operation sends or closes is the list of
  actions it returns; a \<open>send\<close> that throws is ignored by the code, so it has no other effect.
  The per-client state objects of the backpressure path are shared between the map, the timer
  closures and a renamed client, so they live in a store and are passed by reference.
  \<open>JSON.parse\<close>, the UUID of a message, \<open>Date.now()\<close> and \<open>heapUsed\<close> are arguments.
\<close>

section \<open>Data\<close>

type_synonym sock = nat
type_synonym room = "(clientId, sock) jsmap"

record rm_config =
  maxRoomSize :: jslimit
  maxRoomsPerClient :: jslimit
  maxMembersPerRoom :: jslimit
  maxRooms :: jslimit
  ringBufferSize :: int
  maxBufferBytes :: int
  deduplicationWindowMs :: int
  maxDedupEntries :: int
  bpEnabled :: bool
  highWaterMark :: int
  slowConsumerTimeout :: int
  batchSize :: nat
  cbEnabled :: bool
  memoryThresholdBytes :: int
  recoveryThresholdBytes :: int
  ackWindowSize :: jslimit

definition default_config :: rm_config where
  "default_config =
     \<lparr>maxRoomSize = Infinity, maxRoomsPerClient = Infinity, maxMembersPerRoom = Infinity,
      maxRooms = Infinity, ringBufferSize = 1000, maxBufferBytes = 10 * 1024 * 1024,
      deduplicationWindowMs = 5000, maxDedupEntries = 10000, bpEnabled = False,
      highWaterMark = 1048576, slowConsumerTimeout = 30000, batchSize = 100,
      cbEnabled = False, memoryThresholdBytes = 500 * 1024 * 1024,
      recoveryThresholdBytes = 300 * 1024 * 1024, ackWindowSize = Infinity\<rparr>"

definition useNewJoinFormat :: "rm_config \<Rightarrow> bool" where
  "useNewJoinFormat cfg \<longleftrightarrow> maxRoomsPerClient cfg \<noteq> Infinity \<or> maxMembersPerRoom cfg \<noteq> Infinity
     \<or> maxRooms cfg \<noteq> Infinity \<or> cbEnabled cfg"

datatype breaker = CLOSED | OPEN

record entry =
  e_seq :: int
  e_messageId :: string
  e_payload :: json
  e_timestamp :: int

datatype message = MText string | MJson json

record ack_state =
  highestAckedSeq :: int
  unackedCount :: int
  paused :: bool

record client_state =
  cs_ws :: sock
  slowSince :: "int option"
  coalescedMessage :: "message option"
  timeoutId :: "nat option"

record rm =
  rm_rooms :: "(roomId, room) jsmap"
  rm_clientRooms :: "(clientId, roomId jsset) jsmap"
  rm_roomSeq :: "(roomId, int) jsmap"
  rm_roomBuffers :: "(roomId, entry list) jsmap"
  rm_roomBufferBytes :: "(roomId, int) jsmap"
  rm_dedupCache :: "(string, int) jsmap"
  rm_clientState :: "(clientId, nat) jsmap"
  rm_totalMembers :: int
  rm_breaker :: breaker
  rm_ackState :: "(clientId, (roomId, ack_state) jsmap) jsmap"
  rm_store :: "nat \<Rightarrow> client_state"
  rm_nextRef :: nat
  rm_timers :: "(nat, clientId \<times> nat) jsmap"
  rm_nextTimer :: nat

definition no_client_state :: client_state where
  "no_client_state = \<lparr>cs_ws = 0, slowSince = None, coalescedMessage = None, timeoutId = None\<rparr>"

definition rm_init :: rm where
  "rm_init = \<lparr>rm_rooms = [], rm_clientRooms = [], rm_roomSeq = [], rm_roomBuffers = [],
     rm_roomBufferBytes = [], rm_dedupCache = [], rm_clientState = [], rm_totalMembers = 0,
     rm_breaker = CLOSED, rm_ackState = [], rm_store = (\<lambda>_. no_client_state), rm_nextRef = 0,
     rm_timers = [], rm_nextTimer = 0\<rparr>"

datatype job = Job roomId "(clientId \<times> sock) list" message "clientId option"
datatype action = Send sock string | Close sock int string | Immediate job

datatype rm_error = TypeError string

datatype join_result = JoinError string string | JoinRefused string | JoinOk | JoinUndefined

section \<open>Private helpers\<close>

definition room_of :: "rm \<Rightarrow> roomId \<Rightarrow> room" where
  "room_of s r = (case js_get (rm_rooms s) r of None \<Rightarrow> [] | Some m \<Rightarrow> m)"

definition rooms_of :: "rm \<Rightarrow> clientId \<Rightarrow> roomId jsset" where
  "rooms_of s c = (case js_get (rm_clientRooms s) c of None \<Rightarrow> [] | Some rs \<Rightarrow> rs)"

definition ensureRoom :: "roomId \<Rightarrow> rm \<Rightarrow> rm" where
  "ensureRoom r s =
     (if js_has (rm_rooms s) r then s else s\<lparr>rm_rooms := js_set r [] (rm_rooms s)\<rparr>)"

definition ensureClientRooms :: "clientId \<Rightarrow> rm \<Rightarrow> rm" where
  "ensureClientRooms c s =
     (if js_has (rm_clientRooms s) c then s
      else s\<lparr>rm_clientRooms := js_set c [] (rm_clientRooms s)\<rparr>)"

definition ensureClientState :: "clientId \<Rightarrow> sock \<Rightarrow> rm \<Rightarrow> rm" where
  "ensureClientState c ws s =
     (if js_has (rm_clientState s) c then s
      else s\<lparr>rm_store := (rm_store s)(rm_nextRef s := no_client_state\<lparr>cs_ws := ws\<rparr>),
             rm_clientState := js_set c (rm_nextRef s) (rm_clientState s),
             rm_nextRef := rm_nextRef s + 1\<rparr>)"

definition cleanupRoom :: "roomId \<Rightarrow> rm \<Rightarrow> rm" where
  "cleanupRoom r s =
     (if js_get (rm_rooms s) r = Some [] then s\<lparr>rm_rooms := js_delete r (rm_rooms s)\<rparr> else s)"

definition cleanupClient :: "clientId \<Rightarrow> rm \<Rightarrow> rm" where
  "cleanupClient c s =
     (if js_get (rm_clientRooms s) c = Some []
      then s\<lparr>rm_clientRooms := js_delete c (rm_clientRooms s)\<rparr> else s)"

definition clearTimer :: "nat option \<Rightarrow> rm \<Rightarrow> rm" where
  "clearTimer t s =
     (case t of None \<Rightarrow> s | Some i \<Rightarrow> s\<lparr>rm_timers := js_delete i (rm_timers s)\<rparr>)"

definition cleanupClientState :: "clientId \<Rightarrow> rm \<Rightarrow> rm" where
  "cleanupClientState c s =
     (case js_get (rm_clientState s) c of
        None \<Rightarrow> s
      | Some ref \<Rightarrow>
          (clearTimer (timeoutId (rm_store s ref)) s)
            \<lparr>rm_clientState := js_delete c (rm_clientState s)\<rparr>)"

definition cleanupAckState :: "clientId \<Rightarrow> rm \<Rightarrow> rm" where
  "cleanupAckState c s = s\<lparr>rm_ackState := js_delete c (rm_ackState s)\<rparr>"

definition checkCircuitBreaker :: "rm_config \<Rightarrow> int \<Rightarrow> rm \<Rightarrow> rm" where
  "checkCircuitBreaker cfg heapUsed s =
     (if \<not> cbEnabled cfg then s
      else if rm_breaker s = CLOSED \<and> heapUsed \<ge> memoryThresholdBytes cfg
      then s\<lparr>rm_breaker := OPEN\<rparr>
      else if rm_breaker s = OPEN \<and> heapUsed \<le> recoveryThresholdBytes cfg
      then s\<lparr>rm_breaker := CLOSED\<rparr>
      else s)"

definition fresh_ack :: ack_state where
  "fresh_ack = \<lparr>highestAckedSeq = 0, unackedCount = 0, paused = False\<rparr>"

definition ack_of :: "rm \<Rightarrow> clientId \<Rightarrow> roomId \<Rightarrow> ack_state" where
  "ack_of s c r =
     (case js_get (rm_ackState s) c of
        None \<Rightarrow> fresh_ack
      | Some m \<Rightarrow> (case js_get m r of None \<Rightarrow> fresh_ack | Some a \<Rightarrow> a))"

text \<open>
  \<open>_getAckState\<close> returns the (possibly fresh) object that the caller then mutates in place;
  here the mutated object is written back.
\<close>

definition setAckState :: "clientId \<Rightarrow> roomId \<Rightarrow> ack_state \<Rightarrow> rm \<Rightarrow> rm" where
  "setAckState c r a s =
     (let m = (case js_get (rm_ackState s) c of None \<Rightarrow> [] | Some m \<Rightarrow> m)
      in s\<lparr>rm_ackState := js_set c (js_set r a m) (rm_ackState s)\<rparr>)"

section \<open>join, leave, disconnect, updateClientId\<close>

definition limit_str :: "jslimit \<Rightarrow> string" where
  "limit_str l = (case l of Infinity \<Rightarrow> ''Infinity'' | Limit n \<Rightarrow> int_str n)"

text \<open>The checks \<open>join\<close> makes before it touches the room, in the order of the code.\<close>

definition join_rejection :: "rm_config \<Rightarrow> clientId \<Rightarrow> roomId \<Rightarrow> rm \<Rightarrow> join_result option" where
  "join_rejection cfg c r s =
     (if cbEnabled cfg \<and> rm_breaker s = OPEN
      then Some (JoinError ''CIRCUIT_BREAKER_OPEN''
                   ''Circuit breaker is open due to high resource pressure'')
      else if maxRoomsPerClient cfg \<noteq> Infinity \<and> r \<notin> set (rooms_of s c)
        \<and> reaches (int (length (rooms_of s c))) (maxRoomsPerClient cfg)
      then Some (JoinError ''ROOM_LIMIT_EXCEEDED''
                   (''Client room limit exceeded ('' @ limit_str (maxRoomsPerClient cfg) @ '')''))
      else if maxMembersPerRoom cfg \<noteq> Infinity \<and> \<not> js_has (room_of s r) c
        \<and> reaches (int (length (room_of s r))) (maxMembersPerRoom cfg)
      then Some (JoinError ''ROOM_FULL''
                   (''Room member limit reached ('' @ limit_str (maxMembersPerRoom cfg) @ '')''))
      else if maxRooms cfg \<noteq> Infinity \<and> \<not> js_has (rm_rooms s) r
        \<and> reaches (int (length (rm_rooms s))) (maxRooms cfg)
      then Some (JoinError ''MAX_ROOMS_REACHED''
                   (''Maximum room count ceiling reached ('' @ limit_str (maxRooms cfg) @ '')''))
      else None)"

definition add_member :: "clientId \<Rightarrow> roomId \<Rightarrow> sock \<Rightarrow> rm \<Rightarrow> rm" where
  "add_member c r ws s =
     (let isNew = \<not> js_has (room_of s r) c;
          s1 = s\<lparr>rm_rooms := js_set r (js_set c ws (room_of s r)) (rm_rooms s)\<rparr>;
          s2 = ensureClientRooms c s1;
          s3 = s2\<lparr>rm_clientRooms := js_set c (js_add r (rooms_of s2 c)) (rm_clientRooms s2)\<rparr>
      in if isNew then s3\<lparr>rm_totalMembers := rm_totalMembers s3 + 1\<rparr> else s3)"

definition join_member :: "rm_config \<Rightarrow> int \<Rightarrow> clientId \<Rightarrow> roomId \<Rightarrow> sock \<Rightarrow> rm \<Rightarrow> join_result \<times> rm" where
  "join_member cfg heapUsed c r ws s =
     (let s0 = (if cbEnabled cfg then checkCircuitBreaker cfg heapUsed s else s)
      in case join_rejection cfg c r s0 of
           Some e \<Rightarrow> (e, s0)
         | None \<Rightarrow>
             (let s1 = ensureRoom r s0;
                  room = room_of s1 r
              in if \<not> js_has room c \<and> reaches (int (length room)) (maxRoomSize cfg)
                 then (if useNewJoinFormat cfg
                       then JoinError ''ROOM_FULL''
                              (''Room member limit reached ('' @ limit_str (maxRoomSize cfg) @ '')'')
                       else JoinRefused ''ROOM_FULL'', s1)
                 else
                   (let s2 = add_member c r ws s1;
                        s3 = (if bpEnabled cfg then ensureClientState c ws s2 else s2)
                    in (if useNewJoinFormat cfg then JoinUndefined else JoinOk, s3))))"

definition join :: "rm_config \<Rightarrow> int \<Rightarrow> clientId option \<Rightarrow> roomId option \<Rightarrow> sock option \<Rightarrow> rm \<Rightarrow>
    rm_error + join_result \<times> rm" where
  "join cfg heapUsed clientId roomId ws s =
     (case clientId of None \<Rightarrow> Inl (TypeError ''clientId is required'')
      | Some c \<Rightarrow> (case roomId of None \<Rightarrow> Inl (TypeError ''roomId is required'')
      | Some r \<Rightarrow> (case ws of None \<Rightarrow> Inl (TypeError ''ws is required'')
      | Some w \<Rightarrow> Inr (join_member cfg heapUsed c r w s))))"

definition leave_room :: "clientId \<Rightarrow> roomId \<Rightarrow> rm \<Rightarrow> rm" where
  "leave_room c r s =
     (if js_has (room_of s r) c
      then cleanupRoom r
             (s\<lparr>rm_rooms := js_set r (js_delete c (room_of s r)) (rm_rooms s),
                rm_totalMembers := rm_totalMembers s - 1\<rparr>)
      else s)"

definition leave_index :: "clientId \<Rightarrow> roomId \<Rightarrow> rm \<Rightarrow> rm" where
  "leave_index c r s =
     (if js_has (rm_clientRooms s) c
      then cleanupClient c
             (s\<lparr>rm_clientRooms := js_set c (removeAll r (rooms_of s c)) (rm_clientRooms s)\<rparr>)
      else s)"

definition leave_ack :: "clientId \<Rightarrow> roomId \<Rightarrow> rm \<Rightarrow> rm" where
  "leave_ack c r s =
     (case js_get (rm_ackState s) c of
        None \<Rightarrow> s
      | Some m \<Rightarrow>
          (let m' = js_delete r m
           in if m' = [] then s\<lparr>rm_ackState := js_delete c (rm_ackState s)\<rparr>
              else s\<lparr>rm_ackState := js_set c m' (rm_ackState s)\<rparr>))"

definition leave_member :: "rm_config \<Rightarrow> clientId \<Rightarrow> roomId \<Rightarrow> rm \<Rightarrow> rm" where
  "leave_member cfg c r s =
     (let s1 = leave_room c r s;
          s2 = leave_index c r s1;
          s3 = (if bpEnabled cfg \<and> rooms_of s2 c = [] then cleanupClientState c s2 else s2)
      in if ackWindowSize cfg \<noteq> Infinity then leave_ack c r s3 else s3)"

definition leave :: "rm_config \<Rightarrow> clientId option \<Rightarrow> roomId option \<Rightarrow> rm \<Rightarrow> rm_error + rm" where
  "leave cfg clientId roomId s =
     (case clientId of None \<Rightarrow> Inl (TypeError ''clientId is required'')
      | Some c \<Rightarrow> (case roomId of None \<Rightarrow> Inl (TypeError ''roomId is required'')
      | Some r \<Rightarrow> Inr (leave_member cfg c r s)))"

definition drop_from_room :: "clientId \<Rightarrow> roomId \<Rightarrow> rm \<Rightarrow> rm" where
  "drop_from_room c r s =
     (if js_has (rm_rooms s) r
      then cleanupRoom r (s\<lparr>rm_rooms := js_set r (js_delete c (room_of s r)) (rm_rooms s)\<rparr>)
      else s)"

definition disconnect_member :: "rm_config \<Rightarrow> clientId \<Rightarrow> rm \<Rightarrow> rm" where
  "disconnect_member cfg c s =
     (let s1 = (case js_get (rm_clientRooms s) c of
                  None \<Rightarrow> s
                | Some rs \<Rightarrow>
                    (let s' = fold (drop_from_room c) rs
                                (s\<lparr>rm_totalMembers := rm_totalMembers s - int (length rs)\<rparr>)
                     in s'\<lparr>rm_clientRooms := js_delete c (rm_clientRooms s')\<rparr>));
          s2 = (if bpEnabled cfg then cleanupClientState c s1 else s1)
      in cleanupAckState c s2)"

definition disconnect :: "rm_config \<Rightarrow> clientId option \<Rightarrow> rm \<Rightarrow> rm_error + rm" where
  "disconnect cfg clientId s =
     (case clientId of None \<Rightarrow> Inl (TypeError ''clientId is required'')
      | Some c \<Rightarrow> Inr (disconnect_member cfg c s))"

definition move_room :: "clientId \<Rightarrow> clientId \<Rightarrow> roomId \<Rightarrow> rm \<Rightarrow> rm" where
  "move_room old new r s =
     (let s1 = (case js_get (rm_rooms s) r of
                  None \<Rightarrow> s
                | Some room \<Rightarrow>
                    (case js_get room old of
                       None \<Rightarrow> s
                     | Some ws \<Rightarrow>
                         s\<lparr>rm_rooms := js_set r (js_set new ws (js_delete old room)) (rm_rooms s)\<rparr>))
      in s1\<lparr>rm_clientRooms := js_set new (js_add r (rooms_of s1 new)) (rm_clientRooms s1)\<rparr>)"

definition rename_member :: "rm_config \<Rightarrow> clientId \<Rightarrow> clientId \<Rightarrow> rm \<Rightarrow> rm" where
  "rename_member cfg old new s =
     (if old = new then s
      else case js_get (rm_clientRooms s) old of
        None \<Rightarrow> s
      | Some oldRooms \<Rightarrow>
          (let s1 = fold (move_room old new) oldRooms (ensureClientRooms new s);
               s2 = s1\<lparr>rm_clientRooms := js_delete old (rm_clientRooms s1)\<rparr>
           in if bpEnabled cfg
              then (case js_get (rm_clientState s2) old of
                      None \<Rightarrow> s2
                    | Some ref \<Rightarrow>
                        s2\<lparr>rm_clientState := js_delete old (js_set new ref (rm_clientState s2))\<rparr>)
              else s2))"

definition updateClientId :: "rm_config \<Rightarrow> clientId option \<Rightarrow> clientId option \<Rightarrow> rm \<Rightarrow> rm_error + rm" where
  "updateClientId cfg oldClientId newClientId s =
     (case oldClientId of None \<Rightarrow> Inl (TypeError ''oldClientId is required'')
      | Some old \<Rightarrow> (case newClientId of None \<Rightarrow> Inl (TypeError ''newClientId is required'')
      | Some new \<Rightarrow> Inr (rename_member cfg old new s)))"

section \<open>Queries\<close>

definition getRoomSize :: "rm \<Rightarrow> roomId \<Rightarrow> nat" where
  "getRoomSize s r = length (room_of s r)"

definition getClientRooms :: "rm \<Rightarrow> clientId \<Rightarrow> roomId jsset" where
  "getClientRooms s c = rooms_of s c"

definition getRoomSeq :: "rm \<Rightarrow> roomId \<Rightarrow> int" where
  "getRoomSeq s r = (case js_get (rm_roomSeq s) r of None \<Rightarrow> 0 | Some n \<Rightarrow> n)"

definition getRingBuffer :: "rm \<Rightarrow> roomId \<Rightarrow> entry list" where
  "getRingBuffer s r = (case js_get (rm_roomBuffers s) r of None \<Rightarrow> [] | Some b \<Rightarrow> b)"

record rm_stats =
  roomCount :: nat
  clientCount :: nat
  totalMembers :: int
  circuitBreakerState :: breaker

definition stats :: "rm \<Rightarrow> rm_stats" where
  "stats s = \<lparr>roomCount = length (rm_rooms s), clientCount = length (rm_clientRooms s),
     totalMembers = rm_totalMembers s, circuitBreakerState = rm_breaker s\<rparr>"

record room_stats =
  memberCount :: nat
  sendQueueDepths :: "(clientId, int) jsmap"
  slowConsumers :: "clientId list"

definition getRoomStats :: "rm_config \<Rightarrow> (sock \<Rightarrow> bool) \<Rightarrow> (sock \<Rightarrow> int) \<Rightarrow> rm \<Rightarrow> roomId \<Rightarrow> room_stats" where
  "getRoomStats cfg ready buffered s r =
     (case js_get (rm_rooms s) r of
        None \<Rightarrow> \<lparr>memberCount = 0, sendQueueDepths = [], slowConsumers = []\<rparr>
      | Some room \<Rightarrow>
          \<lparr>memberCount = length room,
           sendQueueDepths =
             (if bpEnabled cfg then map (\<lambda>(c, ws). (c, if ready ws then buffered ws else 0)) room else []),
           slowConsumers =
             (if bpEnabled cfg
              then map fst (filter (\<lambda>(c, ws). case js_get (rm_clientState s) c of
                     None \<Rightarrow> False | Some ref \<Rightarrow> slowSince (rm_store s ref) \<noteq> None) room)
              else [])\<rparr>)"

end
