(* ===== verification/RoomBroadcast.thy ===== *)
theory RoomBroadcast
  imports RoomManager
begin

text \<open>
  The delivery half of \<open>src/room-manager.js\<close>: deduplication, sequence numbers and the ring
  buffer, the plain and the backpressure-aware fan-out, replay on reconnect, acknowledgements
  and the slow-consumer timer. Definitions only; \<open>RoomDelivery\<close> holds their properties.
\<close>

section \<open>Deduplication\<close>

definition message_json :: "(string \<Rightarrow> json option) \<Rightarrow> message \<Rightarrow> json option" where
  "message_json parse m = (case m of MText t \<Rightarrow> parse t | MJson j \<Rightarrow> Some j)"

definition dedup_client :: "json \<Rightarrow> clientId option \<Rightarrow> string option" where
  "dedup_client j excludeClientId =
     (case Option.bind (get_prop j ''payload'') (\<lambda>p. get_prop p ''clientId'') of
        Some v \<Rightarrow> if truthy v then Some (to_text v) else excludeClientId
      | None \<Rightarrow> excludeClientId)"

definition dedup_key :: "(string \<Rightarrow> json option) \<Rightarrow> roomId \<Rightarrow> message \<Rightarrow> clientId option \<Rightarrow> string option" where
  "dedup_key parse r m excludeClientId =
     (case message_json parse m of
        None \<Rightarrow> None
      | Some j \<Rightarrow>
          if get_prop j ''type'' = Some (JStr ''location_update'')
          then (case dedup_client j excludeClientId of
                  None \<Rightarrow> None
                | Some c \<Rightarrow>
                    if c = [] then None
                    else (case Option.bind (get_prop j ''payload'') (\<lambda>p. get_prop p ''timestamp'') of
                            None \<Rightarrow> None
                          | Some t \<Rightarrow> if truthy t then Some (r @ '':'' @ c @ '':'' @ to_text t) else None))
          else None)"

definition remember_key :: "int \<Rightarrow> string \<Rightarrow> int \<Rightarrow> (string, int) jsmap \<Rightarrow> (string, int) jsmap" where
  "remember_key cap key now cache =
     (let cache' = js_set key now cache
      in if int (length cache') > cap
         then (case cache' of [] \<Rightarrow> [] | (k, _) # _ \<Rightarrow> js_delete k cache')
         else cache')"

definition isDuplicate :: "rm_config \<Rightarrow> int \<Rightarrow> (string \<Rightarrow> json option) \<Rightarrow> roomId \<Rightarrow> message \<Rightarrow>
    clientId option \<Rightarrow> rm \<Rightarrow> bool \<times> rm" where
  "isDuplicate cfg now parse r m excludeClientId s =
     (case dedup_key parse r m excludeClientId of
        None \<Rightarrow> (False, s)
      | Some key \<Rightarrow>
          (case js_get (rm_dedupCache s) key of
             Some recorded \<Rightarrow>
               if now - recorded \<le> deduplicationWindowMs cfg then (True, s)
               else (False, s\<lparr>rm_dedupCache := remember_key (maxDedupEntries cfg) key now (rm_dedupCache s)\<rparr>)
           | None \<Rightarrow>
               (False, s\<lparr>rm_dedupCache := remember_key (maxDedupEntries cfg) key now (rm_dedupCache s)\<rparr>)))"

section \<open>Sequence numbers and the ring buffer\<close>

definition entry_json :: "entry \<Rightarrow> json" where
  "entry_json e = JObj [(''seq'', JNum (int_str (e_seq e))), (''messageId'', JStr (e_messageId e)),
     (''payload'', e_payload e), (''timestamp'', JNum (int_str (e_timestamp e)))]"

definition entry_bytes :: "entry \<Rightarrow> int" where
  "entry_bytes e = int (length (stringify (entry_json e)))"

fun evict_ring :: "int \<Rightarrow> int \<Rightarrow> entry list \<Rightarrow> int \<Rightarrow> entry list \<times> int" where
  "evict_ring ringSize maxBytes [] bytes = ([], bytes)"
| "evict_ring ringSize maxBytes (e # b) bytes =
     (if int (length (e # b)) > ringSize \<or> bytes > maxBytes
      then evict_ring ringSize maxBytes b (bytes - entry_bytes e)
      else (e # b, bytes))"

definition wire_payload :: "(string \<Rightarrow> json option) \<Rightarrow> message \<Rightarrow> json" where
  "wire_payload parse m =
     (case m of MText t \<Rightarrow> (case parse t of Some j \<Rightarrow> j | None \<Rightarrow> JStr t) | MJson j \<Rightarrow> j)"

definition record_entry :: "rm_config \<Rightarrow> int \<Rightarrow> string \<Rightarrow> (string \<Rightarrow> json option) \<Rightarrow> roomId \<Rightarrow>
    message \<Rightarrow> rm \<Rightarrow> rm" where
  "record_entry cfg now msgId parse r m s =
     (let currentSeq = getRoomSeq s r + 1;
          e = \<lparr>e_seq = currentSeq, e_messageId = msgId, e_payload = wire_payload parse m,
               e_timestamp = now\<rparr>;
          bytes0 = (if js_has (rm_roomBuffers s) r
                    then (case js_get (rm_roomBufferBytes s) r of None \<Rightarrow> 0 | Some b \<Rightarrow> b) else 0);
          (buffer, bytes) = evict_ring (ringBufferSize cfg) (maxBufferBytes cfg)
                              (getRingBuffer s r @ [e]) (bytes0 + entry_bytes e)
      in s\<lparr>rm_roomSeq := js_set r currentSeq (rm_roomSeq s),
           rm_roomBuffers := js_set r buffer (rm_roomBuffers s),
           rm_roomBufferBytes := js_set r (max 0 bytes) (rm_roomBufferBytes s)\<rparr>)"

section \<open>Fan-out without backpressure\<close>

definition wire_data :: "message \<Rightarrow> string" where
  "wire_data m = (case m of MText t \<Rightarrow> t | MJson j \<Rightarrow> stringify j)"

text \<open>The flow-control gate both fan-outs apply: \<open>None\<close> when the client is held back.\<close>

definition ack_gate :: "rm_config \<Rightarrow> clientId \<Rightarrow> roomId \<Rightarrow> rm \<Rightarrow> bool \<times> rm" where
  "ack_gate cfg c r s =
     (if ackWindowSize cfg = Infinity then (True, s)
      else (let a = ack_of s c r
            in if paused a \<or> reaches (unackedCount a) (ackWindowSize cfg)
               then (False, setAckState c r (a\<lparr>paused := True\<rparr>) s)
               else (True, setAckState c r (a\<lparr>unackedCount := unackedCount a + 1\<rparr>) s)))"

fun deliver_plain :: "rm_config \<Rightarrow> (sock \<Rightarrow> bool) \<Rightarrow> roomId \<Rightarrow> string \<Rightarrow> clientId option \<Rightarrow>
    (clientId \<times> sock) list \<Rightarrow> rm \<Rightarrow> action list \<times> rm" where
  "deliver_plain cfg ready r wire exclude [] s = ([], s)"
| "deliver_plain cfg ready r wire exclude ((c, ws) # room) s =
     (if exclude = Some c \<or> \<not> ready ws then deliver_plain cfg ready r wire exclude room s
      else (let (ok, s1) = ack_gate cfg c r s;
                (acts, s2) = deliver_plain cfg ready r wire exclude room s1
            in (if ok then Send ws wire # acts else acts, s2)))"

definition broadcast_room :: "rm_config \<Rightarrow> int \<Rightarrow> string \<Rightarrow> (string \<Rightarrow> json option) \<Rightarrow> (sock \<Rightarrow> bool) \<Rightarrow>
    roomId \<Rightarrow> message \<Rightarrow> clientId option \<Rightarrow> rm \<Rightarrow> action list \<times> rm" where
  "broadcast_room cfg now msgId parse ready r m exclude s =
     (let (dup, s1) = isDuplicate cfg now parse r m exclude s
      in if dup then ([], s1)
         else (let s2 = record_entry cfg now msgId parse r m s1
               in case js_get (rm_rooms s2) r of
                    None \<Rightarrow> ([], s2)
                  | Some room \<Rightarrow>
                      if bpEnabled cfg then ([Immediate (Job r room m exclude)], s2)
                      else deliver_plain cfg ready r (wire_data m) exclude room s2))"

definition broadcast :: "rm_config \<Rightarrow> int \<Rightarrow> string \<Rightarrow> (string \<Rightarrow> json option) \<Rightarrow> (sock \<Rightarrow> bool) \<Rightarrow>
    roomId option \<Rightarrow> message \<Rightarrow> clientId option \<Rightarrow> rm \<Rightarrow> rm_error + action list \<times> rm" where
  "broadcast cfg now msgId parse ready roomId m exclude s =
     (case roomId of None \<Rightarrow> Inl (TypeError ''roomId is required'')
      | Some r \<Rightarrow> Inr (broadcast_room cfg now msgId parse ready r m exclude s))"

section \<open>Fan-out with backpressure\<close>

definition startSlowConsumerTimeout :: "clientId \<Rightarrow> nat \<Rightarrow> rm \<Rightarrow> rm" where
  "startSlowConsumerTimeout c ref s =
     (let s1 = clearTimer (timeoutId (rm_store s ref)) s;
          tid = rm_nextTimer s1
      in s1\<lparr>rm_timers := js_set tid (c, ref) (rm_timers s1), rm_nextTimer := tid + 1,
            rm_store := (rm_store s1)(ref := (rm_store s1 ref)\<lparr>timeoutId := Some tid\<rparr>)\<rparr>)"

text \<open>What the timer does when it fires; \<open>c\<close> and \<open>ref\<close> are captured by its closure.\<close>

definition slow_timeout_fires :: "(sock \<Rightarrow> bool) \<Rightarrow> nat \<Rightarrow> rm \<Rightarrow> action list \<times> rm" where
  "slow_timeout_fires ready tid s =
     (case js_get (rm_timers s) tid of
        None \<Rightarrow> ([], s)
      | Some (c, ref) \<Rightarrow>
          (let s1 = s\<lparr>rm_timers := js_delete tid (rm_timers s)\<rparr>;
               st = rm_store s1 ref
           in if slowSince st \<noteq> None
              then (if ready (cs_ws st) then [Close (cs_ws st) 4000 ''Slow consumer''] else [],
                    cleanupClientState c s1)
              else ([], s1)))"

definition is_location :: "message \<Rightarrow> bool" where
  "is_location m = (case m of MText _ \<Rightarrow> False
     | MJson j \<Rightarrow> get_prop j ''type'' = Some (JStr ''location_update''))"

definition bp_send :: "rm_config \<Rightarrow> (sock \<Rightarrow> int) \<Rightarrow> int \<Rightarrow> message \<Rightarrow> clientId \<Rightarrow> sock \<Rightarrow> rm \<Rightarrow>
    action list \<times> rm" where
  "bp_send cfg buffered now m c ws s =
     (let state = js_get (rm_clientState s) c;
          isSlow = (case state of None \<Rightarrow> False | Some ref \<Rightarrow> slowSince (rm_store s ref) \<noteq> None);
          exceeds = buffered ws > highWaterMark cfg;
          s1 = (case state of
                  Some ref \<Rightarrow>
                    if exceeds \<and> slowSince (rm_store s ref) = None
                    then startSlowConsumerTimeout c ref
                           (s\<lparr>rm_store := (rm_store s)(ref := (rm_store s ref)\<lparr>slowSince := Some now\<rparr>)\<rparr>)
                    else s
                | None \<Rightarrow> s)
      in if (isSlow \<or> exceeds) \<and> is_location m
         then ([], case state of
                     Some ref \<Rightarrow> s1\<lparr>rm_store := (rm_store s1)(ref := (rm_store s1 ref)\<lparr>coalescedMessage := Some m\<rparr>)\<rparr>
                   | None \<Rightarrow> s1)
         else ([Send ws (wire_data m)], s1))"

fun bp_entries :: "rm_config \<Rightarrow> (sock \<Rightarrow> bool) \<Rightarrow> (sock \<Rightarrow> int) \<Rightarrow> int \<Rightarrow> roomId \<Rightarrow> message \<Rightarrow>
    clientId option \<Rightarrow> (clientId \<times> sock) list \<Rightarrow> rm \<Rightarrow> action list \<times> rm" where
  "bp_entries cfg ready buffered now r m exclude [] s = ([], s)"
| "bp_entries cfg ready buffered now r m exclude ((c, ws) # es) s =
     (if exclude = Some c \<or> \<not> ready ws then bp_entries cfg ready buffered now r m exclude es s
      else (let (ok, s1) = ack_gate cfg c r s;
                (acts, s2) = (if ok then bp_send cfg buffered now m c ws s1 else ([], s1));
                (acts', s3) = bp_entries cfg ready buffered now r m exclude es s2
            in (acts @ acts', s3)))"

fun drainCoalescedMessages :: "(sock \<Rightarrow> bool) \<Rightarrow> room \<Rightarrow> rm \<Rightarrow> action list \<times> rm" where
  "drainCoalescedMessages ready [] s = ([], s)"
| "drainCoalescedMessages ready ((c, ws) # room) s =
     (case (if ready ws then js_get (rm_clientState s) c else None) of
        None \<Rightarrow> drainCoalescedMessages ready room s
      | Some ref \<Rightarrow>
          (case coalescedMessage (rm_store s ref) of
             None \<Rightarrow> drainCoalescedMessages ready room s
           | Some m \<Rightarrow>
               (let s1 = s\<lparr>rm_store := (rm_store s)(ref := (rm_store s ref)\<lparr>coalescedMessage := None\<rparr>)\<rparr>;
                    (acts, s2) = drainCoalescedMessages ready room s1
                in (Send ws (wire_data m) # acts, s2))))"

text \<open>
  One \<open>processBatch\<close> tick: the next \<open>batchSize\<close> entries, then either the rest is deferred to
  another tick or the coalesced messages are drained over \<open>room\<close>, the contents of the room object
  at that time.
\<close>

definition processBatch :: "rm_config \<Rightarrow> (sock \<Rightarrow> bool) \<Rightarrow> (sock \<Rightarrow> int) \<Rightarrow> int \<Rightarrow> room \<Rightarrow> job \<Rightarrow> rm \<Rightarrow>
    action list \<times> rm" where
  "processBatch cfg ready buffered now room jb s =
     (case jb of Job r entries m exclude \<Rightarrow>
        (let (acts, s1) = bp_entries cfg ready buffered now r m exclude (take (batchSize cfg) entries) s;
             rest = drop (batchSize cfg) entries
         in if rest \<noteq> [] then (acts @ [Immediate (Job r rest m exclude)], s1)
            else (let (acts', s2) = drainCoalescedMessages ready room s1 in (acts @ acts', s2))))"

section \<open>Reconnect, ack, nack\<close>

datatype replay =
    Replay_complete roomId
  | Replay roomId "entry list" int
  | Replay_gap roomId int int

definition handleReconnect :: "rm \<Rightarrow> roomId \<Rightarrow> int \<Rightarrow> int option \<Rightarrow> replay" where
  "handleReconnect s r lastSeq highestAcked =
     (let currentSeq = getRoomSeq s r;
          buffer = getRingBuffer s r;
          replayFrom = (case highestAcked of Some h \<Rightarrow> if h \<ge> 0 then h else lastSeq | None \<Rightarrow> lastSeq)
      in if replayFrom = currentSeq then Replay_complete r
         else (case buffer of
                 e # _ \<Rightarrow>
                   if replayFrom \<ge> e_seq e - 1 \<and> replayFrom < currentSeq
                   then Replay r (filter (\<lambda>x. e_seq x > replayFrom) buffer) currentSeq
                   else Replay_gap r (e_seq e) currentSeq
               | [] \<Rightarrow> Replay_gap r currentSeq currentSeq))"

definition reconnect :: "rm \<Rightarrow> roomId option \<Rightarrow> int option \<Rightarrow> int option \<Rightarrow> rm_error + replay" where
  "reconnect s roomId lastSeq highestAcked =
     (case roomId of None \<Rightarrow> Inl (TypeError ''roomId is required'')
      | Some r \<Rightarrow> (case lastSeq of None \<Rightarrow> Inl (TypeError ''lastSeq is required'')
      | Some l \<Rightarrow> Inr (handleReconnect s r l highestAcked)))"

definition ack_update :: "jslimit \<Rightarrow> int \<Rightarrow> ack_state \<Rightarrow> ack_state" where
  "ack_update window seq a =
     (let a1 = (if seq > highestAckedSeq a
                then a\<lparr>highestAckedSeq := seq,
                       unackedCount := max 0 (unackedCount a - (seq - highestAckedSeq a))\<rparr>
                else a)
      in if paused a1 \<and> \<not> reaches (unackedCount a1) window then a1\<lparr>paused := False\<rparr> else a1)"

definition ack_member :: "rm_config \<Rightarrow> clientId \<Rightarrow> roomId \<Rightarrow> int \<Rightarrow> rm \<Rightarrow> rm" where
  "ack_member cfg c r seq s =
     setAckState c r (ack_update (ackWindowSize cfg) seq (ack_of s c r)) s"

definition ack :: "rm_config \<Rightarrow> clientId option \<Rightarrow> roomId option \<Rightarrow> int option \<Rightarrow> rm \<Rightarrow> rm_error + rm" where
  "ack cfg clientId roomId seq s =
     (case clientId of None \<Rightarrow> Inl (TypeError ''clientId is required'')
      | Some c \<Rightarrow> (case roomId of None \<Rightarrow> Inl (TypeError ''roomId is required'')
      | Some r \<Rightarrow> (case seq of None \<Rightarrow> Inl (TypeError ''seq is required'')
      | Some n \<Rightarrow> Inr (ack_member cfg c r n s))))"

definition sendToClientById :: "(sock \<Rightarrow> bool) \<Rightarrow> clientId \<Rightarrow> roomId \<Rightarrow> entry \<Rightarrow> rm \<Rightarrow> action list" where
  "sendToClientById ready c r e s =
     (case js_get (room_of s r) c of
        None \<Rightarrow> []
      | Some ws \<Rightarrow> if ready ws then [Send ws (stringify (entry_json e))] else [])"

definition nack_member :: "(sock \<Rightarrow> bool) \<Rightarrow> clientId \<Rightarrow> roomId \<Rightarrow> int \<Rightarrow> rm \<Rightarrow> action list" where
  "nack_member ready c r seq s =
     (case find (\<lambda>e. e_seq e = seq) (getRingBuffer s r) of
        None \<Rightarrow> []
      | Some e \<Rightarrow> sendToClientById ready c r e s)"

definition nack :: "(sock \<Rightarrow> bool) \<Rightarrow> clientId option \<Rightarrow> roomId option \<Rightarrow> int option \<Rightarrow> rm \<Rightarrow>
    rm_error + action list" where
  "nack ready clientId roomId seq s =
     (case clientId of None \<Rightarrow> Inl (TypeError ''clientId is required'')
      | Some c \<Rightarrow> (case roomId of None \<Rightarrow> Inl (TypeError ''roomId is required'')
      | Some r \<Rightarrow> (case seq of None \<Rightarrow> Inl (TypeError ''seq is required'')
      | Some n \<Rightarrow> Inr (nack_member ready c r n s))))"

end
