(* ===== verification/RoomMembership.thy ===== *)
theory RoomMembership
  imports RoomManager
begin

text \<open>
  What \<open>join\<close>, \<open>leave\<close>, \<open>disconnect\<close> and \<open>updateClientId\<close> of \<open>src/room-manager.js\<close> guarantee:
  the room map and the reverse index always describe the same membership relation, no empty
  room or client entry is kept, \<open>totalMembers\<close> counts the memberships, the configured limits
  hold, and a disconnected client leaves nothing behind. The locale \<open>membership\<close> is the
  contract the server relies on; the manager's operations are its instance.
\<close>

section \<open>Invariant\<close>

definition size_sum :: "(roomId, room) jsmap \<Rightarrow> int" where
  "size_sum ms = (\<Sum>(r, m)\<leftarrow>ms. int (length m))"

definition good_rooms :: "(roomId, room) jsmap \<Rightarrow> bool" where
  "good_rooms ms \<longleftrightarrow> wf_map ms \<and> (\<forall>r m. js_get ms r = Some m \<longrightarrow> wf_map m \<and> m \<noteq> [])"

definition good_index :: "(clientId, roomId jsset) jsmap \<Rightarrow> bool" where
  "good_index cs \<longleftrightarrow> wf_map cs \<and> (\<forall>c rs. js_get cs c = Some rs \<longrightarrow> distinct rs \<and> rs \<noteq> [])"

definition wf_rm :: "rm \<Rightarrow> bool" where
  "wf_rm s \<longleftrightarrow> good_rooms (rm_rooms s) \<and> good_index (rm_clientRooms s)"

definition indexed :: "rm \<Rightarrow> bool" where
  "indexed s \<longleftrightarrow> (\<forall>c r. js_has (room_of s r) c \<longleftrightarrow> r \<in> set (rooms_of s c))"

definition member_inv :: "rm \<Rightarrow> bool" where
  "member_inv s \<longleftrightarrow> wf_rm s \<and> indexed s"

definition counted :: "rm \<Rightarrow> bool" where
  "counted s \<longleftrightarrow> rm_totalMembers s = size_sum (rm_rooms s)"

text \<open>The abstract state: which client is in which room, and with which socket.\<close>

definition membership_of :: "rm \<Rightarrow> clientId \<Rightarrow> roomId \<Rightarrow> sock option" where
  "membership_of s c r = js_get (room_of s r) c"

section \<open>Sums of room sizes\<close>

lemma size_sum_simps [simp]:
  "size_sum [] = 0"
  "size_sum ((r, m) # ms) = int (length m) + size_sum ms"
  by (simp_all add: size_sum_def)

lemma size_sum_set:
  "size_sum (js_set r m ms) =
     size_sum ms - (case js_get ms r of None \<Rightarrow> 0 | Some m0 \<Rightarrow> int (length m0)) + int (length m)"
  by (induction ms) auto

lemma size_sum_delete:
  "wf_map ms \<Longrightarrow> size_sum (js_delete r ms) =
     size_sum ms - (case js_get ms r of None \<Rightarrow> 0 | Some m0 \<Rightarrow> int (length m0))"
proof (induction ms)
  case (Cons p ms)
  obtain a m where p: "p = (a, m)" by fastforce
  show ?case
  proof (cases "a = r")
    case True
    with Cons.prems p have "js_delete r ms = ms" by (simp add: js_delete_absent map_of_eq_None_iff)
    with True p show ?thesis by simp
  qed (use Cons p in auto)
qed simp

lemma good_rooms_set: "good_rooms ms \<Longrightarrow> wf_map m \<Longrightarrow> m \<noteq> [] \<Longrightarrow> good_rooms (js_set r m ms)"
  by (auto simp: good_rooms_def split: if_splits)

lemma good_rooms_delete: "good_rooms ms \<Longrightarrow> good_rooms (js_delete r ms)"
  by (auto simp: good_rooms_def split: if_splits)

lemma good_index_set: "good_index cs \<Longrightarrow> distinct rs \<Longrightarrow> rs \<noteq> [] \<Longrightarrow> good_index (js_set c rs cs)"
  by (auto simp: good_index_def split: if_splits)

lemma good_index_delete: "good_index cs \<Longrightarrow> good_index (js_delete c cs)"
  by (auto simp: good_index_def split: if_splits)

lemmas good_intros = good_rooms_set good_rooms_delete good_index_set good_index_delete

section \<open>The two views of the primitive steps\<close>

lemma room_of_empty: "wf_rm s \<Longrightarrow> js_get (rm_rooms s) r = None \<longleftrightarrow> room_of s r = []"
  by (auto simp: room_of_def wf_rm_def good_rooms_def split: option.splits)

lemma rooms_of_empty: "wf_rm s \<Longrightarrow> js_get (rm_clientRooms s) c = None \<longleftrightarrow> rooms_of s c = []"
  by (auto simp: rooms_of_def wf_rm_def good_index_def split: option.splits)

lemma wf_room_of [simp]: "wf_rm s \<Longrightarrow> wf_map (room_of s r)"
  by (auto simp: room_of_def wf_rm_def good_rooms_def split: option.splits)

lemma distinct_rooms_of [simp]: "wf_rm s \<Longrightarrow> distinct (rooms_of s c)"
  by (auto simp: rooms_of_def wf_rm_def good_index_def split: option.splits)

lemma indexed_absent: "indexed s \<Longrightarrow> r \<notin> set (rooms_of s c) \<Longrightarrow> js_get (room_of s r) c = None"
  by (metis indexed_def)

definition same_membership :: "rm \<Rightarrow> rm \<Rightarrow> bool" where
  "same_membership s s' \<longleftrightarrow> rm_rooms s = rm_rooms s' \<and> rm_clientRooms s = rm_clientRooms s'
     \<and> rm_totalMembers s = rm_totalMembers s'"

lemma same_membershipD:
  assumes "same_membership s s'"
  shows "member_inv s = member_inv s'" and "counted s = counted s'"
    and "room_of s = room_of s'" and "rooms_of s = rooms_of s'"
    and "membership_of s = membership_of s'"
  using assms
  by (simp_all add: same_membership_def counted_def membership_of_def fun_eq_iff room_of_def
      rooms_of_def member_inv_def wf_rm_def indexed_def)

lemma side_steps_same_membership [simp]:
  "same_membership (cleanupClientState c s) s"
  "same_membership (cleanupAckState c s) s"
  "same_membership (ensureClientState c ws s) s"
  "same_membership (leave_ack c r s) s"
  "same_membership (checkCircuitBreaker cfg h s) s"
  "same_membership s s"
  by (auto simp: same_membership_def cleanupClientState_def cleanupAckState_def
      ensureClientState_def leave_ack_def checkCircuitBreaker_def clearTimer_def Let_def
      split: option.splits)

lemma same_membership_trans:
  "same_membership s s' \<Longrightarrow> same_membership s' s'' \<Longrightarrow> same_membership s s''"
  by (simp add: same_membership_def)

subsection \<open>Adding a member\<close>

lemma add_member_views:
  shows "room_of (add_member c r ws s) = (room_of s)(r := js_set c ws (room_of s r))"
    and "rooms_of (add_member c r ws s) = (rooms_of s)(c := js_add r (rooms_of s c))"
  by (auto simp: add_member_def ensureClientRooms_def room_of_def rooms_of_def Let_def fun_eq_iff
      split: option.splits)

lemma add_member_fields:
  "rm_rooms (add_member c r ws s) = js_set r (js_set c ws (room_of s r)) (rm_rooms s)"
  "rm_clientRooms (add_member c r ws s) = js_set c (js_add r (rooms_of s c)) (rm_clientRooms s)"
  "rm_totalMembers (add_member c r ws s) = rm_totalMembers s + (if js_has (room_of s r) c then 0 else 1)"
  by (simp_all add: add_member_def ensureClientRooms_def rooms_of_def Let_def)

lemma add_member_ensureRoom [simp]: "add_member c r ws (ensureRoom r s) = add_member c r ws s"
proof (cases "js_has (rm_rooms s) r")
  case False
  then have "js_get (rm_rooms s) r = None" by simp
  then show ?thesis
    by (simp add: add_member_def ensureRoom_def room_of_def ensureClientRooms_def rooms_of_def)
qed (simp add: ensureRoom_def)

lemma ensureRoom_views [simp]: "room_of (ensureRoom r s) = room_of s" "rooms_of (ensureRoom r s) = rooms_of s"
  by (auto simp: ensureRoom_def room_of_def rooms_of_def fun_eq_iff split: option.splits)

lemma js_set_not_Nil [simp]: "js_set k v m \<noteq> []"
  by (cases m) auto

lemma add_member_inv [inv_intros]:
  assumes "member_inv s"
  shows "member_inv (add_member c r ws s)"
proof -
  have wf: "wf_rm s" and ix: "indexed s" using assms by (auto simp: member_inv_def)
  have "wf_map (js_set c ws (room_of s r))" and "distinct (js_add r (rooms_of s c))"
    using wf by simp_all
  then have "wf_rm (add_member c r ws s)"
    using wf by (simp add: wf_rm_def add_member_fields good_intros)
  moreover have "indexed (add_member c r ws s)"
    using ix by (auto simp: indexed_def add_member_views)
  ultimately show ?thesis by (simp add: member_inv_def)
qed

lemma add_member_counted: "counted s \<Longrightarrow> counted (add_member c r ws s)"
  by (cases "js_get (rm_rooms s) r")
    (auto simp: counted_def add_member_fields size_sum_set length_js_set room_of_def)

subsection \<open>Removing a member\<close>

lemma drop_from_room_rooms:
  "rm_rooms (drop_from_room c r s) =
     (if js_get (rm_rooms s) r = None then rm_rooms s
      else if js_delete c (room_of s r) = [] then js_delete r (rm_rooms s)
      else js_set r (js_delete c (room_of s r)) (rm_rooms s))"
  by (simp add: drop_from_room_def cleanupRoom_def)

lemma drop_from_room_other:
  "rm_clientRooms (drop_from_room c r s) = rm_clientRooms s"
  "rm_totalMembers (drop_from_room c r s) = rm_totalMembers s"
  by (simp_all add: drop_from_room_def cleanupRoom_def)

lemma drop_from_room_views:
  "room_of (drop_from_room c r s) = (room_of s)(r := js_delete c (room_of s r))"
  "rooms_of (drop_from_room c r s) = rooms_of s"
  by (auto simp: room_of_def [of "drop_from_room c r s"] rooms_of_def drop_from_room_rooms
      drop_from_room_other fun_eq_iff room_of_def [of s])

lemma wf_drop_from_room: "wf_rm s \<Longrightarrow> wf_rm (drop_from_room c r s)"
  unfolding wf_rm_def drop_from_room_other drop_from_room_rooms
  by (auto intro!: good_intros simp: wf_rm_def)

lemma size_sum_drop_from_room:
  assumes "wf_rm s"
  shows "size_sum (rm_rooms (drop_from_room c r s)) =
    size_sum (rm_rooms s) - (if js_has (room_of s r) c then 1 else 0)"
proof (cases "js_get (rm_rooms s) r")
  case None
  then show ?thesis by (simp add: drop_from_room_rooms room_of_def)
next
  case (Some m)
  then have r: "room_of s r = m" by (simp add: room_of_def)
  have wr: "wf_map (rm_rooms s)" using assms by (simp add: wf_rm_def good_rooms_def)
  have len: "int (length (js_delete c m)) = int (length m) - (if js_has m c then 1 else 0)"
    using wf_room_of [OF assms, of r] r by (intro int_length_js_delete) simp
  show ?thesis
  proof (cases "js_delete c m = []")
    case True
    then show ?thesis using Some r len wr by (simp add: drop_from_room_rooms size_sum_delete)
  next
    case False
    then show ?thesis using Some r len by (simp add: drop_from_room_rooms size_sum_set)
  qed
qed

lemma fold_drop_views:
  "room_of (fold (drop_from_room c) rs s) =
     (\<lambda>r. if r \<in> set rs then js_delete c (room_of s r) else room_of s r)"
  "rooms_of (fold (drop_from_room c) rs s) = rooms_of s"
  "rm_clientRooms (fold (drop_from_room c) rs s) = rm_clientRooms s"
  "rm_totalMembers (fold (drop_from_room c) rs s) = rm_totalMembers s"
  by (induction rs arbitrary: s)
    (auto simp: drop_from_room_views drop_from_room_other fun_eq_iff AList.delete_idem)

lemma wf_fold_drop: "wf_rm s \<Longrightarrow> wf_rm (fold (drop_from_room c) rs s)"
  by (induction rs arbitrary: s) (auto simp: wf_drop_from_room)

lemma size_sum_fold_drop:
  "wf_rm s \<Longrightarrow> distinct rs \<Longrightarrow> \<forall>r\<in>set rs. js_has (room_of s r) c \<Longrightarrow>
   size_sum (rm_rooms (fold (drop_from_room c) rs s)) = size_sum (rm_rooms s) - int (length rs)"
proof (induction rs arbitrary: s)
  case (Cons r rs)
  have "\<forall>q\<in>set rs. js_has (room_of (drop_from_room c r s) q) c"
    using Cons.prems by (auto simp: drop_from_room_views)
  with Cons show ?case by (simp add: wf_drop_from_room size_sum_drop_from_room)
qed simp

lemma leave_room_fields:
  "rm_rooms (leave_room c r s) =
     (if js_has (room_of s r) c then rm_rooms (drop_from_room c r s) else rm_rooms s)"
  "rm_clientRooms (leave_room c r s) = rm_clientRooms s"
  "rm_totalMembers (leave_room c r s) = rm_totalMembers s - (if js_has (room_of s r) c then 1 else 0)"
  by (auto simp: leave_room_def drop_from_room_def cleanupRoom_def room_of_def)

lemma leave_room_views:
  "room_of (leave_room c r s) = (room_of s)(r := js_delete c (room_of s r))"
  "rooms_of (leave_room c r s) = rooms_of s"
proof -
  have "room_of (leave_room c r s) =
      (if js_has (room_of s r) c then room_of (drop_from_room c r s) else room_of s)"
    by (simp add: room_of_def leave_room_fields fun_eq_iff)
  then show "room_of (leave_room c r s) = (room_of s)(r := js_delete c (room_of s r))"
    by (auto simp: drop_from_room_views js_delete_absent)
qed (simp add: rooms_of_def leave_room_fields fun_eq_iff)

lemma leave_index_fields:
  "rm_clientRooms (leave_index c r s) =
     (if js_get (rm_clientRooms s) c = None then rm_clientRooms s
      else if removeAll r (rooms_of s c) = [] then js_delete c (rm_clientRooms s)
      else js_set c (removeAll r (rooms_of s c)) (rm_clientRooms s))"
  "rm_rooms (leave_index c r s) = rm_rooms s"
  "rm_totalMembers (leave_index c r s) = rm_totalMembers s"
  by (simp_all add: leave_index_def cleanupClient_def)

lemma leave_index_views:
  "rooms_of (leave_index c r s) = (rooms_of s)(c := removeAll r (rooms_of s c))"
  "room_of (leave_index c r s) = room_of s"
  by (auto simp: rooms_of_def [of "leave_index c r s"] room_of_def leave_index_fields
      fun_eq_iff rooms_of_def [of s])

subsection \<open>leave\<close>

lemma leave_member_same:
  "same_membership (leave_member cfg c r s) (leave_index c r (leave_room c r s))"
  by (auto simp: leave_member_def Let_def
      intro: same_membership_trans [OF side_steps_same_membership(4)])

lemma leave_core_inv:
  assumes "member_inv s"
  shows "member_inv (leave_index c r (leave_room c r s))"
proof -
  have wf: "wf_rm s" and ix: "indexed s" using assms by (auto simp: member_inv_def)
  have w1: "wf_rm (leave_room c r s)"
    using wf wf_drop_from_room [OF wf, of c r] by (simp add: wf_rm_def leave_room_fields)
  have "wf_rm (leave_index c r (leave_room c r s))"
    using w1 distinct_rooms_of [OF w1, of c]
    by (simp add: wf_rm_def leave_index_fields good_intros distinct_removeAll)
  moreover have "indexed (leave_index c r (leave_room c r s))"
    using ix by (auto simp: indexed_def leave_room_views leave_index_views)
  ultimately show ?thesis by (simp add: member_inv_def)
qed

lemma leave_member_inv [inv_intros]: "member_inv s \<Longrightarrow> member_inv (leave_member cfg c r s)"
  using leave_core_inv same_membershipD(1) [OF leave_member_same] by blast

lemma leave_member_counted:
  assumes "member_inv s" and "counted s"
  shows "counted (leave_member cfg c r s)"
  using assms same_membershipD(2) [OF leave_member_same, of cfg c r s]
  by (simp add: counted_def leave_index_fields leave_room_fields size_sum_drop_from_room
      member_inv_def)

lemma leave_member_views:
  "room_of (leave_member cfg c r s) = (room_of s)(r := js_delete c (room_of s r))"
  "rooms_of (leave_member cfg c r s) = (rooms_of s)(c := removeAll r (rooms_of s c))"
  by (simp_all add: same_membershipD(3,4) [OF leave_member_same] leave_index_views leave_room_views)

subsection \<open>disconnect\<close>

definition disconnect_core :: "clientId \<Rightarrow> rm \<Rightarrow> rm" where
  "disconnect_core c s =
     (let s' = fold (drop_from_room c) (rooms_of s c)
                 (s\<lparr>rm_totalMembers := rm_totalMembers s - int (length (rooms_of s c))\<rparr>)
      in s'\<lparr>rm_clientRooms := js_delete c (rm_clientRooms s')\<rparr>)"

lemma disconnect_member_same: "same_membership (disconnect_member cfg c s) (disconnect_core c s)"
proof -
  let ?s1 = "case js_get (rm_clientRooms s) c of None \<Rightarrow> s
    | Some rs \<Rightarrow> (let s' = fold (drop_from_room c) rs
                        (s\<lparr>rm_totalMembers := rm_totalMembers s - int (length rs)\<rparr>)
                   in s'\<lparr>rm_clientRooms := js_delete c (rm_clientRooms s')\<rparr>)"
  have "same_membership ?s1 (disconnect_core c s)"
    by (cases "js_get (rm_clientRooms s) c")
      (simp_all add: same_membership_def disconnect_core_def rooms_of_def js_delete_absent)
  then show ?thesis
    by (auto simp: disconnect_member_def Let_def
        intro: same_membership_trans [OF side_steps_same_membership(1)]
          same_membership_trans [OF side_steps_same_membership(2)])
qed

lemma total_update_views [simp]:
  "room_of (s\<lparr>rm_totalMembers := n\<rparr>) = room_of s" "rooms_of (s\<lparr>rm_totalMembers := n\<rparr>) = rooms_of s"
  "wf_rm (s\<lparr>rm_totalMembers := n\<rparr>) = wf_rm s"
  by (simp_all add: room_of_def rooms_of_def wf_rm_def fun_eq_iff)

lemma disconnect_core_views:
  "rooms_of (disconnect_core c s) = (rooms_of s)(c := [])"
  "room_of (disconnect_core c s) =
     (\<lambda>r. if r \<in> set (rooms_of s c) then js_delete c (room_of s r) else room_of s r)"
proof -
  let ?t = "fold (drop_from_room c) (rooms_of s c)
      (s\<lparr>rm_totalMembers := rm_totalMembers s - int (length (rooms_of s c))\<rparr>)"
  have "rooms_of (disconnect_core c s) = (\<lambda>c'. if c' = c then [] else rooms_of ?t c')"
    by (simp add: disconnect_core_def rooms_of_def Let_def fun_eq_iff)
  then show "rooms_of (disconnect_core c s) = (rooms_of s)(c := [])"
    by (simp add: fold_drop_views fun_eq_iff)
  have "room_of (disconnect_core c s) = room_of ?t"
    by (simp add: disconnect_core_def room_of_def Let_def fun_eq_iff)
  then show "room_of (disconnect_core c s) =
      (\<lambda>r. if r \<in> set (rooms_of s c) then js_delete c (room_of s r) else room_of s r)"
    by (simp add: fold_drop_views fun_eq_iff)
qed

lemma disconnect_core_fields:
  "rm_rooms (disconnect_core c s) = rm_rooms (fold (drop_from_room c) (rooms_of s c)
      (s\<lparr>rm_totalMembers := rm_totalMembers s - int (length (rooms_of s c))\<rparr>))"
  "rm_clientRooms (disconnect_core c s) = js_delete c (rm_clientRooms s)"
  "rm_totalMembers (disconnect_core c s) = rm_totalMembers s - int (length (rooms_of s c))"
  by (simp_all add: disconnect_core_def Let_def fold_drop_views)

lemma disconnect_member_inv [inv_intros]:
  assumes "member_inv s"
  shows "member_inv (disconnect_member cfg c s)"
proof -
  have wf: "wf_rm s" and ix: "indexed s" using assms by (auto simp: member_inv_def)
  have "wf_rm (disconnect_core c s)"
    using wf_fold_drop [of "s\<lparr>rm_totalMembers := rm_totalMembers s - int (length (rooms_of s c))\<rparr>"
        c "rooms_of s c"] wf
    by (simp add: wf_rm_def disconnect_core_fields good_intros)
  moreover have "indexed (disconnect_core c s)"
    using ix indexed_absent [OF ix] unfolding indexed_def disconnect_core_views by auto
  ultimately show ?thesis
    using same_membershipD(1) [OF disconnect_member_same] by (auto simp: member_inv_def)
qed

lemma disconnect_member_counted:
  assumes "member_inv s" and "counted s"
  shows "counted (disconnect_member cfg c s)"
proof -
  have "wf_rm s" and "\<forall>r\<in>set (rooms_of s c). js_has (room_of s r) c"
    using assms(1) by (auto simp: member_inv_def indexed_def)
  then have "size_sum (rm_rooms (disconnect_core c s)) =
      size_sum (rm_rooms s) - int (length (rooms_of s c))"
    unfolding disconnect_core_fields by (subst size_sum_fold_drop) simp_all
  then show ?thesis
    using assms(2) same_membershipD(2) [OF disconnect_member_same, of cfg c s]
    by (simp add: counted_def disconnect_core_fields)
qed

lemma disconnect_member_views:
  assumes "indexed s"
  shows "room_of (disconnect_member cfg c s) = (\<lambda>r. js_delete c (room_of s r))"
    and "rooms_of (disconnect_member cfg c s) = (rooms_of s)(c := [])"
proof -
  have "js_delete c (room_of s r) = room_of s r" if "r \<notin> set (rooms_of s c)" for r
    using indexed_absent [OF assms that] by (rule js_delete_absent)
  then show "room_of (disconnect_member cfg c s) = (\<lambda>r. js_delete c (room_of s r))"
    by (auto simp: same_membershipD(3) [OF disconnect_member_same] disconnect_core_views)
qed (simp add: same_membershipD(4) [OF disconnect_member_same] disconnect_core_views)

subsection \<open>updateClientId\<close>

definition rename_in :: "clientId \<Rightarrow> clientId \<Rightarrow> room \<Rightarrow> room" where
  "rename_in old new room =
     (case js_get room old of None \<Rightarrow> room | Some ws \<Rightarrow> js_set new ws (js_delete old room))"

lemma js_get_rename_in:
  "old \<noteq> new \<Longrightarrow> js_get (rename_in old new room) c =
     (if c = old then None
      else if c = new \<and> js_has room old then js_get room old else js_get room c)"
  by (auto simp: rename_in_def split: option.splits)

lemma wf_rename_in [simp]: "wf_map room \<Longrightarrow> wf_map (rename_in old new room)"
  by (auto simp: rename_in_def split: option.splits)

lemma rename_in_Nil_iff [simp]: "rename_in old new room = [] \<longleftrightarrow> room = []"
  by (cases room) (auto simp: rename_in_def split: option.splits)

lemma length_rename_in:
  "wf_map room \<Longrightarrow> old \<noteq> new \<Longrightarrow> int (length (rename_in old new room)) =
     int (length room) - (if js_has room old \<and> js_has room new then 1 else 0)"
  using int_length_js_delete [of room old]
  by (auto simp: rename_in_def length_js_set split: option.splits if_splits)

lemma move_room_fields:
  "rm_clientRooms (move_room old new r s) = js_set new (js_add r (rooms_of s new)) (rm_clientRooms s)"
  "rm_totalMembers (move_room old new r s) = rm_totalMembers s"
  "rm_rooms (move_room old new r s) =
     (if js_has (room_of s r) old then js_set r (rename_in old new (room_of s r)) (rm_rooms s)
      else rm_rooms s)"
  by (auto simp: move_room_def rooms_of_def room_of_def rename_in_def Let_def split: option.splits)

lemma move_room_views:
  "room_of (move_room old new r s) = (room_of s)(r := rename_in old new (room_of s r))"
  "rooms_of (move_room old new r s) = (rooms_of s)(new := js_add r (rooms_of s new))"
  by (auto simp: room_of_def [of "move_room old new r s"] rooms_of_def [of "move_room old new r s"]
      move_room_fields fun_eq_iff room_of_def [of s] rooms_of_def [of s] rename_in_def
      split: option.splits)

lemma wf_move_room: "wf_rm s \<Longrightarrow> wf_rm (move_room old new r s)"
proof -
  assume wf: "wf_rm s"
  then have "wf_map (rename_in old new (room_of s r))" and "distinct (js_add r (rooms_of s new))"
    by simp_all
  moreover have "js_has (room_of s r) old \<Longrightarrow> rename_in old new (room_of s r) \<noteq> []"
    by auto
  ultimately show ?thesis using wf by (simp add: wf_rm_def move_room_fields good_intros)
qed

lemma fold_move_views:
  assumes "old \<noteq> new"
  shows "room_of (fold (move_room old new) rs s) =
     (\<lambda>r. if r \<in> set rs then rename_in old new (room_of s r) else room_of s r)"
    and "rooms_of (fold (move_room old new) rs s) = (rooms_of s)(new := fold js_add rs (rooms_of s new))"
    and "rm_totalMembers (fold (move_room old new) rs s) = rm_totalMembers s"
  using assms
  by (induction rs arbitrary: s)
    (auto simp: move_room_views move_room_fields fun_eq_iff js_get_rename_in
      rename_in_def [of old new "rename_in old new _"])

lemma set_fold_js_add [simp]: "set (fold js_add rs xs) = set rs \<union> set xs"
  by (induction rs arbitrary: xs) auto

lemma wf_fold_move: "wf_rm s \<Longrightarrow> wf_rm (fold (move_room old new) rs s)"
  by (induction rs arbitrary: s) (auto simp: wf_move_room)

lemma move_room_ensure [simp]:
  "move_room old new r (ensureClientRooms new s) = move_room old new r s"
proof (cases "js_get (rm_clientRooms s) new")
  case None
  then show ?thesis
    by (auto simp: move_room_def ensureClientRooms_def rooms_of_def Let_def split: option.splits)
qed (simp add: ensureClientRooms_def)

definition rename_core :: "clientId \<Rightarrow> clientId \<Rightarrow> rm \<Rightarrow> rm" where
  "rename_core old new s =
     (let t = fold (move_room old new) (rooms_of s old) s
      in t\<lparr>rm_clientRooms := js_delete old (rm_clientRooms t)\<rparr>)"

lemma rename_member_same:
  assumes "wf_rm s" and "old \<noteq> new"
  shows "same_membership (rename_member cfg old new s) (rename_core old new s)"
proof (cases "js_get (rm_clientRooms s) old")
  case None
  then show ?thesis using assms(2)
    by (simp add: rename_member_def rename_core_def rooms_of_def js_delete_absent same_membership_def)
next
  case (Some rs)
  then have "rs \<noteq> []" using assms(1) unfolding wf_rm_def good_index_def by blast
  then obtain r rs' where rs: "rs = r # rs'" by (cases rs) auto
  have "fold (move_room old new) rs (ensureClientRooms new s) = fold (move_room old new) rs s"
    by (simp add: rs)
  then show ?thesis using assms(2) Some
    by (auto simp: rename_member_def rename_core_def rooms_of_def same_membership_def Let_def
        split: option.splits)
qed

lemma rename_core_views:
  assumes "old \<noteq> new"
  shows "room_of (rename_core old new s) =
      (\<lambda>r. if r \<in> set (rooms_of s old) then rename_in old new (room_of s r) else room_of s r)"
    and "rooms_of (rename_core old new s) =
      (rooms_of s)(new := fold js_add (rooms_of s old) (rooms_of s new), old := [])"
proof -
  let ?t = "fold (move_room old new) (rooms_of s old) s"
  have "room_of (rename_core old new s) = room_of ?t"
    by (simp add: rename_core_def room_of_def Let_def fun_eq_iff)
  then show "room_of (rename_core old new s) =
      (\<lambda>r. if r \<in> set (rooms_of s old) then rename_in old new (room_of s r) else room_of s r)"
    by (simp add: fold_move_views [OF assms])
  have "rooms_of (rename_core old new s) = (\<lambda>c. if c = old then [] else rooms_of ?t c)"
    by (simp add: rename_core_def rooms_of_def Let_def fun_eq_iff)
  then show "rooms_of (rename_core old new s) =
      (rooms_of s)(new := fold js_add (rooms_of s old) (rooms_of s new), old := [])"
    by (auto simp: fold_move_views [OF assms] fun_eq_iff)
qed

lemma rename_member_inv [inv_intros]:
  assumes "member_inv s"
  shows "member_inv (rename_member cfg old new s)"
proof (cases "old = new")
  case True
  then show ?thesis using assms by (simp add: rename_member_def)
next
  case False
  have wf: "wf_rm s" and ix: "indexed s" using assms by (auto simp: member_inv_def)
  have "wf_rm (rename_core old new s)"
    using wf_fold_move [OF wf] by (simp add: rename_core_def wf_rm_def Let_def good_intros)
  moreover have "indexed (rename_core old new s)"
    unfolding indexed_def
  proof (intro allI)
    fix c r
    have ix': "js_has (room_of s r) c' \<longleftrightarrow> r \<in> set (rooms_of s c')" for c'
      using ix by (simp add: indexed_def)
    show "js_has (room_of (rename_core old new s) r) c \<longleftrightarrow> r \<in> set (rooms_of (rename_core old new s) c)"
    proof (cases "r \<in> set (rooms_of s old)")
      case True
      with ix' [of old] ix' [of c] False show ?thesis
        by (simp add: rename_core_views [OF False] js_get_rename_in)
    next
      case absent: False
      with ix' [of old] ix' [of c] False show ?thesis
        by (cases "c = old"; cases "c = new") (simp_all add: rename_core_views [OF False])
    qed
  qed
  ultimately show ?thesis
    using same_membershipD(1) [OF rename_member_same [OF wf False]] by (auto simp: member_inv_def)
qed

lemma rename_member_views:
  assumes "member_inv s" and "old \<noteq> new"
  shows "room_of (rename_member cfg old new s) = (\<lambda>r. rename_in old new (room_of s r))"
    and "set (rooms_of (rename_member cfg old new s) c) =
      (if c = old then {} else if c = new then set (rooms_of s old) \<union> set (rooms_of s new)
       else set (rooms_of s c))"
proof -
  have wf: "wf_rm s" and ix: "indexed s" using assms(1) by (auto simp: member_inv_def)
  note same = rename_member_same [OF wf assms(2)]
  have "rename_in old new (room_of s r) = room_of s r" if "r \<notin> set (rooms_of s old)" for r
    using indexed_absent [OF ix that] by (simp add: rename_in_def)
  then show "room_of (rename_member cfg old new s) = (\<lambda>r. rename_in old new (room_of s r))"
    by (auto simp: same_membershipD(3) [OF same] rename_core_views [OF assms(2)])
  show "set (rooms_of (rename_member cfg old new s) c) =
      (if c = old then {} else if c = new then set (rooms_of s old) \<union> set (rooms_of s new)
       else set (rooms_of s c))"
    by (simp add: same_membershipD(4) [OF same] rename_core_views [OF assms(2)])
qed

lemma size_sum_move_room:
  assumes "wf_rm s" and "old \<noteq> new" and "js_has (room_of s r) old"
  shows "size_sum (rm_rooms (move_room old new r s)) =
    size_sum (rm_rooms s) - (if js_has (room_of s r) new then 1 else 0)"
proof -
  have "js_get (rm_rooms s) r = Some (room_of s r)"
    using assms(3) by (auto simp: room_of_def split: option.splits)
  with assms show ?thesis by (simp add: move_room_fields size_sum_set length_rename_in)
qed

lemma size_sum_fold_move:
  "wf_rm s \<Longrightarrow> old \<noteq> new \<Longrightarrow> distinct rs \<Longrightarrow> \<forall>r\<in>set rs. js_has (room_of s r) old \<Longrightarrow>
   size_sum (rm_rooms (fold (move_room old new) rs s)) =
     size_sum (rm_rooms s) - int (length (filter (\<lambda>r. js_has (room_of s r) new) rs))"
proof (induction rs arbitrary: s)
  case (Cons r rs)
  have "\<forall>q\<in>set rs. room_of (move_room old new r s) q = room_of s q"
    using Cons.prems by (auto simp: move_room_views)
  moreover from this have "filter (\<lambda>q. js_has (room_of (move_room old new r s) q) new) rs =
      filter (\<lambda>q. js_has (room_of s q) new) rs" by (intro filter_cong) auto
  ultimately show ?case
    using Cons by (simp add: wf_move_room size_sum_move_room)
qed simp

lemma rename_member_total:
  assumes "member_inv s" and "counted s" and "old \<noteq> new"
  shows "rm_totalMembers (rename_member cfg old new s) = size_sum (rm_rooms (rename_member cfg old new s))
    + int (length (filter (\<lambda>r. r \<in> set (rooms_of s new)) (rooms_of s old)))"
proof -
  have wf: "wf_rm s" and ix: "indexed s" using assms(1) by (auto simp: member_inv_def)
  have "size_sum (rm_rooms (rename_core old new s)) = size_sum (rm_rooms s)
      - int (length (filter (\<lambda>r. js_has (room_of s r) new) (rooms_of s old)))"
    using ix wf assms(3) unfolding rename_core_def Let_def
    by (subst size_sum_fold_move [symmetric]) (auto simp: indexed_def)
  moreover have "rm_totalMembers (rename_core old new s) = rm_totalMembers s"
    by (simp add: rename_core_def Let_def fold_move_views [OF assms(3)])
  ultimately show ?thesis
    using rename_member_same [OF wf assms(3), of cfg] assms(2) ix
    by (simp add: same_membership_def counted_def indexed_def)
qed

subsection \<open>join\<close>

definition sane :: "rm_config \<Rightarrow> bool" where
  "sane cfg \<longleftrightarrow> \<not> reaches 0 (maxRoomSize cfg)"

definition accepted :: "join_result \<Rightarrow> bool" where
  "accepted r \<longleftrightarrow> r = JoinOk \<or> r = JoinUndefined"

lemma join_rejection_not_accepted: "join_rejection cfg c r s = Some e \<Longrightarrow> \<not> accepted e"
  by (auto simp: join_rejection_def accepted_def split: if_splits)

lemma join_member_result:
  assumes "wf_rm s" and "sane cfg"
  shows "same_membership (snd (join_member cfg h c r ws s))
     (if accepted (fst (join_member cfg h c r ws s)) then add_member c r ws s else s)"
proof -
  let ?s0 = "if cbEnabled cfg then checkCircuitBreaker cfg h s else s"
  have same: "same_membership ?s0 s" by simp
  have add: "same_membership (add_member c r ws ?s0) (add_member c r ws s)"
    using same same_membershipD(3,4) [OF same]
    by (simp add: same_membership_def add_member_fields)
  show ?thesis
  proof (cases "join_rejection cfg c r ?s0")
    case (Some e)
    then show ?thesis using same join_rejection_not_accepted [OF Some] by (simp add: join_member_def)
  next
    case None
    have "same_membership (ensureRoom r ?s0) s"
      if "\<not> js_has (room_of ?s0 r) c" and full: "reaches (int (length (room_of ?s0 r))) (maxRoomSize cfg)"
    proof -
      have "room_of s r \<noteq> []" using full assms(2) same_membershipD(3) [OF same] by (auto simp: sane_def)
      then have "js_has (rm_rooms s) r" using room_of_empty [OF assms(1)] by auto
      then show ?thesis using same by (simp add: ensureRoom_def same_membership_def)
    qed
    with None add show ?thesis
      by (auto simp: join_member_def accepted_def Let_def
          intro: same_membership_trans [OF side_steps_same_membership(3)])
  qed
qed

lemma join_member_inv [inv_intros]:
  assumes "member_inv s" and "sane cfg"
  shows "member_inv (snd (join_member cfg h c r ws s))"
proof -
  have "wf_rm s" using assms(1) by (simp add: member_inv_def)
  from same_membershipD(1) [OF join_member_result [OF this assms(2)], of h c r ws]
  show ?thesis using assms(1) add_member_inv by (auto split: if_splits)
qed

lemma join_member_counted:
  assumes "member_inv s" and "counted s" and "sane cfg"
  shows "counted (snd (join_member cfg h c r ws s))"
proof -
  have "wf_rm s" using assms(1) by (simp add: member_inv_def)
  from same_membershipD(2) [OF join_member_result [OF this assms(3)], of h c r ws]
  show ?thesis using assms(2) add_member_counted by (auto split: if_splits)
qed

section \<open>The configured limits\<close>

fun within :: "int \<Rightarrow> jslimit \<Rightarrow> bool" where
  "within n Infinity = True"
| "within n (Limit l) = (n \<le> l)"

lemma within_mono: "within n l \<Longrightarrow> m \<le> n \<Longrightarrow> within m l"
  by (cases l) auto

lemma within_Suc: "\<not> reaches n l \<Longrightarrow> within (n + 1) l"
  by (cases l) auto

definition rooms_limited :: "rm_config \<Rightarrow> rm \<Rightarrow> bool" where
  "rooms_limited cfg s \<longleftrightarrow> within (int (length (rm_rooms s))) (maxRooms cfg) \<and>
     (\<forall>r. within (int (length (room_of s r))) (maxRoomSize cfg) \<and>
          within (int (length (room_of s r))) (maxMembersPerRoom cfg))"

definition clients_limited :: "rm_config \<Rightarrow> rm \<Rightarrow> bool" where
  "clients_limited cfg s \<longleftrightarrow> (\<forall>c. within (int (length (rooms_of s c))) (maxRoomsPerClient cfg))"

lemma same_membership_limited:
  assumes "same_membership s s'"
  shows "rooms_limited cfg s = rooms_limited cfg s'" and "clients_limited cfg s = clients_limited cfg s'"
  using assms same_membershipD(3,4) [OF assms]
  by (simp_all add: rooms_limited_def clients_limited_def same_membership_def)

lemma rooms_limited_mono:
  assumes "rooms_limited cfg s" and "length (rm_rooms s') \<le> length (rm_rooms s)"
    and "\<And>r. length (room_of s' r) \<le> length (room_of s r)"
  shows "rooms_limited cfg s'"
  using assms unfolding rooms_limited_def by (meson of_nat_mono within_mono)

lemma clients_limited_mono:
  assumes "clients_limited cfg s" and "\<And>c. length (rooms_of s' c) \<le> length (rooms_of s c)"
  shows "clients_limited cfg s'"
  using assms unfolding clients_limited_def by (meson of_nat_mono within_mono)

lemma join_rejection_None:
  assumes "join_rejection cfg c r s = None"
  shows "r \<notin> set (rooms_of s c) \<Longrightarrow> within (int (length (rooms_of s c)) + 1) (maxRoomsPerClient cfg)"
    and "\<not> js_has (room_of s r) c \<Longrightarrow> within (int (length (room_of s r)) + 1) (maxMembersPerRoom cfg)"
    and "\<not> js_has (rm_rooms s) r \<Longrightarrow> within (int (length (rm_rooms s)) + 1) (maxRooms cfg)"
  using assms by (force simp: join_rejection_def split: if_splits intro: within_Suc)+

lemma join_member_accepted:
  assumes "accepted (fst (join_member cfg h c r ws s))"
  shows "join_rejection cfg c r (if cbEnabled cfg then checkCircuitBreaker cfg h s else s) = None"
    and "\<not> js_has (room_of s r) c \<Longrightarrow> \<not> reaches (int (length (room_of s r))) (maxRoomSize cfg)"
proof -
  let ?s0 = "if cbEnabled cfg then checkCircuitBreaker cfg h s else s"
  have same: "same_membership ?s0 s" by simp
  show "join_rejection cfg c r ?s0 = None"
    using assms join_rejection_not_accepted
    by (cases "join_rejection cfg c r ?s0") (auto simp: join_member_def Let_def)
  with assms show "\<not> js_has (room_of s r) c \<Longrightarrow> \<not> reaches (int (length (room_of s r))) (maxRoomSize cfg)"
    using same_membershipD(3) [OF same]
    by (auto simp: join_member_def Let_def accepted_def split: if_splits)
qed

lemma add_member_limited:
  assumes "join_rejection cfg c r s0 = None" and same: "same_membership s0 s"
    and "rooms_limited cfg s"
    and "\<not> js_has (room_of s r) c \<Longrightarrow> \<not> reaches (int (length (room_of s r))) (maxRoomSize cfg)"
  shows "rooms_limited cfg (add_member c r ws s)"
    and "clients_limited cfg s \<Longrightarrow> clients_limited cfg (add_member c r ws s)"
proof -
  have rooms: "rm_rooms s0 = rm_rooms s" using same by (simp add: same_membership_def)
  note new = join_rejection_None [OF assms(1), unfolded same_membershipD(3,4) [OF same] rooms]
  show "rooms_limited cfg (add_member c r ws s)"
    using assms(3,4) new(2,3) within_Suc [of "int (length (room_of s r))" "maxRoomSize cfg"]
    by (auto simp: rooms_limited_def add_member_fields add_member_views length_js_set algebra_simps)
  show "clients_limited cfg s \<Longrightarrow> clients_limited cfg (add_member c r ws s)"
    using new(1) by (auto simp: clients_limited_def add_member_views js_add_def algebra_simps)
qed

lemma join_member_limited:
  assumes "wf_rm s" and "sane cfg" and "rooms_limited cfg s"
  shows "rooms_limited cfg (snd (join_member cfg h c r ws s))"
    and "clients_limited cfg s \<Longrightarrow> clients_limited cfg (snd (join_member cfg h c r ws s))"
proof -
  let ?s0 = "if cbEnabled cfg then checkCircuitBreaker cfg h s else s"
  let ?t = "if accepted (fst (join_member cfg h c r ws s)) then add_member c r ws s else s"
  have same0: "same_membership ?s0 s" by simp
  have same: "same_membership (snd (join_member cfg h c r ws s)) ?t"
    by (rule join_member_result [OF assms(1,2)])
  have "rooms_limited cfg ?t \<and> (clients_limited cfg s \<longrightarrow> clients_limited cfg ?t)"
  proof (cases "accepted (fst (join_member cfg h c r ws s))")
    case True
    note acc = join_member_accepted [OF True]
    from add_member_limited [OF acc(1) same0 assms(3) acc(2)] True show ?thesis by simp
  qed (use assms in simp)
  then show "rooms_limited cfg (snd (join_member cfg h c r ws s))"
    and "clients_limited cfg s \<Longrightarrow> clients_limited cfg (snd (join_member cfg h c r ws s))"
    using same_membership_limited [OF same] by blast+
qed

lemma length_drop_from_room: "length (rm_rooms (drop_from_room c r s)) \<le> length (rm_rooms s)"
  by (auto simp: drop_from_room_rooms AList.length_delete_le length_js_set)

lemma length_fold_drop: "length (rm_rooms (fold (drop_from_room c) rs s)) \<le> length (rm_rooms s)"
  by (induction rs arbitrary: s) (auto intro: order_trans length_drop_from_room)

lemma length_fold_move: "length (rm_rooms (fold (move_room old new) rs s)) \<le> length (rm_rooms s)"
proof (induction rs arbitrary: s)
  case (Cons r rs)
  have "length (rm_rooms (move_room old new r s)) \<le> length (rm_rooms s)"
    by (auto simp: move_room_fields length_js_set room_of_def split: option.splits)
  with Cons [of "move_room old new r s"] show ?case by simp
qed simp

lemma leave_member_limited:
  assumes "rooms_limited cfg s"
  shows "rooms_limited cfg (leave_member cfg' c r s)"
    and "clients_limited cfg s \<Longrightarrow> clients_limited cfg (leave_member cfg' c r s)"
proof -
  have "length (rm_rooms (leave_member cfg' c r s)) \<le> length (rm_rooms s)"
    using leave_member_same [of cfg' c r s] length_drop_from_room [of c r s]
    by (simp add: same_membership_def leave_index_fields leave_room_fields)
  then show "rooms_limited cfg (leave_member cfg' c r s)"
    by (rule rooms_limited_mono [OF assms]) (simp add: leave_member_views AList.length_delete_le)
  show "clients_limited cfg s \<Longrightarrow> clients_limited cfg (leave_member cfg' c r s)"
    by (erule clients_limited_mono) (simp add: leave_member_views length_removeAll_less_eq)
qed

lemma disconnect_member_limited:
  assumes "indexed s" and "rooms_limited cfg s"
  shows "rooms_limited cfg (disconnect_member cfg' c s)"
    and "clients_limited cfg s \<Longrightarrow> clients_limited cfg (disconnect_member cfg' c s)"
proof -
  have "length (rm_rooms (disconnect_member cfg' c s)) \<le> length (rm_rooms s)"
    using disconnect_member_same [of cfg' c s]
      length_fold_drop [of c "rooms_of s c" "s\<lparr>rm_totalMembers := rm_totalMembers s - int (length (rooms_of s c))\<rparr>"]
    by (simp add: same_membership_def disconnect_core_fields)
  then show "rooms_limited cfg (disconnect_member cfg' c s)"
    by (rule rooms_limited_mono [OF assms(2)])
      (simp add: disconnect_member_views [OF assms(1)] AList.length_delete_le)
  show "clients_limited cfg s \<Longrightarrow> clients_limited cfg (disconnect_member cfg' c s)"
    by (erule clients_limited_mono) (simp add: disconnect_member_views [OF assms(1)])
qed

lemma rename_member_limited:
  assumes "member_inv s" and "rooms_limited cfg s"
  shows "rooms_limited cfg (rename_member cfg' old new s)"
proof (cases "old = new")
  case False
  have wf: "wf_rm s" using assms(1) by (simp add: member_inv_def)
  have "length (rm_rooms (rename_member cfg' old new s)) \<le> length (rm_rooms s)"
    using rename_member_same [OF wf False, of cfg'] length_fold_move [of old new "rooms_of s old" s]
    by (simp add: same_membership_def rename_core_def Let_def)
  then show ?thesis
  proof (rule rooms_limited_mono [OF assms(2)])
    fix r
    have "int (length (rename_in old new (room_of s r))) \<le> int (length (room_of s r))"
      using wf False by (subst length_rename_in) auto
    then show "length (room_of (rename_member cfg' old new s) r) \<le> length (room_of s r)"
      by (simp add: rename_member_views [OF assms(1) False])
  qed
qed (simp add: rename_member_def assms)

section \<open>The membership contract\<close>

text \<open>
  What the connection handlers rely on: a relation from clients and rooms to sockets, its
  index by client, and the two ways of leaving. The client lemmas hold for every provider.
\<close>

locale membership =
  fixes inv :: "'s \<Rightarrow> bool"
    and member :: "'s \<Rightarrow> 'c \<Rightarrow> 'r \<Rightarrow> 'v option"
    and rooms :: "'s \<Rightarrow> 'c \<Rightarrow> 'r list"
    and leave_op :: "'c \<Rightarrow> 'r \<Rightarrow> 's \<Rightarrow> 's"
    and drop_op :: "'c \<Rightarrow> 's \<Rightarrow> 's"
  assumes rooms_iff: "inv s \<Longrightarrow> r \<in> set (rooms s c) \<longleftrightarrow> member s c r \<noteq> None"
    and leave_inv: "inv s \<Longrightarrow> inv (leave_op c r s)"
    and drop_inv: "inv s \<Longrightarrow> inv (drop_op c s)"
    and member_leave: "inv s \<Longrightarrow> member (leave_op c r s) c' r' =
      (if c' = c \<and> r' = r then None else member s c' r')"
    and member_drop: "inv s \<Longrightarrow> member (drop_op c s) c' r' = (if c' = c then None else member s c' r')"
begin

lemma rooms_drop: "inv s \<Longrightarrow> rooms (drop_op c s) c = []"
  using rooms_iff [OF drop_inv, of s _ c c] member_drop [of s c c] by (metis list.set_intros(1) list.exhaust)

lemma leave_list:
  "inv s \<Longrightarrow> inv (fold (leave_op c) rs s) \<and>
     member (fold (leave_op c) rs s) c' r' = (if c' = c \<and> r' \<in> set rs then None else member s c' r')"
  by (induction rs arbitrary: s) (auto simp: leave_inv member_leave)

lemma leave_all_is_drop:
  assumes "inv s"
  shows "member (fold (leave_op c) (rooms s c) s) = member (drop_op c s)"
  using leave_list [OF assms, of c "rooms s c"] member_drop [OF assms, of c] rooms_iff [OF assms, of _ c]
  by (intro ext) (auto simp del: not_None_eq)

lemma leave_commute:
  "inv s \<Longrightarrow> member (leave_op c r (leave_op c' r' s)) = member (leave_op c' r' (leave_op c r s))"
  by (intro ext) (simp add: member_leave leave_inv)

end

lemma member_inv_rooms_iff:
  "member_inv s \<Longrightarrow> r \<in> set (rooms_of s c) \<longleftrightarrow> membership_of s c r \<noteq> None"
  by (simp only: member_inv_def indexed_def membership_of_def)

lemma membership_leave:
  "membership_of (leave_member cfg c r s) c' r' =
     (if c' = c \<and> r' = r then None else membership_of s c' r')"
  by (simp add: membership_of_def leave_member_views)

lemma membership_disconnect:
  "member_inv s \<Longrightarrow> membership_of (disconnect_member cfg c s) c' r' =
     (if c' = c then None else membership_of s c' r')"
  by (simp add: membership_of_def disconnect_member_views member_inv_def)

lemma membership_rename:
  "member_inv s \<Longrightarrow> old \<noteq> new \<Longrightarrow> membership_of (rename_member cfg old new s) c r =
     (if c = old then None
      else if c = new \<and> membership_of s old r \<noteq> None then membership_of s old r
      else membership_of s c r)"
  by (auto simp: membership_of_def rename_member_views js_get_rename_in)

lemma membership_join:
  assumes "member_inv s" and "sane cfg"
  shows "membership_of (snd (join_member cfg h c r ws s)) =
     (if accepted (fst (join_member cfg h c r ws s))
      then (membership_of s)(c := (membership_of s c)(r := Some ws)) else membership_of s)"
proof -
  have "wf_rm s" using assms(1) by (simp add: member_inv_def)
  from same_membershipD(5) [OF join_member_result [OF this assms(2)], of h c r ws]
  show ?thesis by (auto simp: membership_of_def add_member_views fun_eq_iff)
qed

interpretation rooms: membership member_inv membership_of rooms_of "leave_member cfg" "disconnect_member cfg" for cfg
  by unfold_locales
    (simp_all add: member_inv_rooms_iff leave_member_inv disconnect_member_inv membership_leave
      membership_disconnect)

end
