(* ===== verification/RoomDelivery.thy ===== *)
theory RoomDelivery
  imports RoomBroadcast RoomMembership
begin

text \<open>
  What the delivery half of \<open>src/room-manager.js\<close> guarantees: the ring buffer always holds the
  contiguous run of the latest messages that fits the two bounds, a reconnecting client is sent
  exactly the messages it missed or told that there is a gap, a location update that is repeated
  inside the deduplication window is dropped, the flow-control window bounds the unacknowledged
  messages of every client, and the batched fan-out sends what one pass over the room would.
\<close>

section \<open>Ring buffer\<close>

abbreviation bytes_sum :: "entry list \<Rightarrow> int" where
  "bytes_sum b \<equiv> sum_list (map entry_bytes b)"

definition fits :: "rm_config \<Rightarrow> entry list \<Rightarrow> bool" where
  "fits cfg b \<longleftrightarrow> b = [] \<or> int (length b) \<le> ringBufferSize cfg \<and> bytes_sum b \<le> maxBufferBytes cfg"

definition room_bytes :: "rm \<Rightarrow> roomId \<Rightarrow> int" where
  "room_bytes s r = (case js_get (rm_roomBufferBytes s) r of None \<Rightarrow> 0 | Some b \<Rightarrow> b)"

definition ring_ok :: "rm_config \<Rightarrow> rm \<Rightarrow> roomId \<Rightarrow> bool" where
  "ring_ok cfg s r \<longleftrightarrow>
     map e_seq (getRingBuffer s r) = [getRoomSeq s r - int (length (getRingBuffer s r)) + 1..getRoomSeq s r]
     \<and> int (length (getRingBuffer s r)) \<le> getRoomSeq s r
     \<and> room_bytes s r = bytes_sum (getRingBuffer s r)
     \<and> fits cfg (getRingBuffer s r)"

text \<open>The reference: the longest suffix that fits.\<close>

fun longest_fitting :: "rm_config \<Rightarrow> entry list \<Rightarrow> entry list" where
  "longest_fitting cfg [] = []"
| "longest_fitting cfg (e # b) = (if fits cfg (e # b) then e # b else longest_fitting cfg b)"

lemma entry_bytes_nonneg [simp]: "0 \<le> entry_bytes e"
  by (simp add: entry_bytes_def)

lemma bytes_sum_nonneg [simp]: "0 \<le> bytes_sum b"
  by (induction b) (auto intro: add_nonneg_nonneg)

lemma evict_ring_longest:
  "bytes = bytes_sum b \<Longrightarrow> evict_ring (ringBufferSize cfg) (maxBufferBytes cfg) b bytes =
     (longest_fitting cfg b, bytes_sum (longest_fitting cfg b))"
  by (induction b arbitrary: bytes) (auto simp: fits_def)

lemma longest_fitting_fits [simp]: "fits cfg (longest_fitting cfg b)"
  by (induction b) (auto simp: fits_def)

lemma longest_fitting_suffix: "\<exists>k\<le>length b. longest_fitting cfg b = drop k b"
proof (induction b)
  case (Cons e b)
  then obtain k where "k \<le> length b" "longest_fitting cfg b = drop k b" by blast
  then show ?case
    by (cases "fits cfg (e # b)") (auto intro: exI [of _ 0] exI [of _ "Suc k"])
qed simp

lemma longest_fitting_maximal:
  "fits cfg (drop k b) \<Longrightarrow> length (drop k b) \<le> length (longest_fitting cfg b)"
proof (induction b arbitrary: k)
  case (Cons e b)
  show ?case
  proof (cases k)
    case (Suc j)
    with Cons.prems Cons.IH [of j] show ?thesis by auto
  qed (use Cons.prems in simp)
qed simp

definition new_entry :: "int \<Rightarrow> string \<Rightarrow> (string \<Rightarrow> json option) \<Rightarrow> roomId \<Rightarrow> message \<Rightarrow> rm \<Rightarrow> entry" where
  "new_entry now msgId parse r m s =
     \<lparr>e_seq = getRoomSeq s r + 1, e_messageId = msgId, e_payload = wire_payload parse m, e_timestamp = now\<rparr>"

lemma js_has_Some: "js_get m k = Some v \<Longrightarrow> js_has m k"
  by simp

lemma record_entry_views:
  assumes "room_bytes s r = bytes_sum (getRingBuffer s r)"
  shows "getRoomSeq (record_entry cfg now msgId parse r m s) = (getRoomSeq s)(r := getRoomSeq s r + 1)"
    and "getRingBuffer (record_entry cfg now msgId parse r m s) = (getRingBuffer s)
      (r := longest_fitting cfg (getRingBuffer s r @ [new_entry now msgId parse r m s]))"
    and "room_bytes (record_entry cfg now msgId parse r m s) = (room_bytes s)
      (r := bytes_sum (longest_fitting cfg (getRingBuffer s r @ [new_entry now msgId parse r m s])))"
proof -
  let ?e = "new_entry now msgId parse r m s"
  let ?b0 = "if js_has (rm_roomBuffers s) r then room_bytes s r else 0"
  have b0: "?b0 = bytes_sum (getRingBuffer s r)"
    using assms by (auto simp: getRingBuffer_def split: option.splits)
  have ev: "evict_ring (ringBufferSize cfg) (maxBufferBytes cfg) (getRingBuffer s r @ [?e]) (?b0 + entry_bytes ?e)
      = (longest_fitting cfg (getRingBuffer s r @ [?e]), bytes_sum (longest_fitting cfg (getRingBuffer s r @ [?e])))"
    by (rule evict_ring_longest) (simp only: b0 map_append sum_list_append list.map sum_list_simps)
  have "record_entry cfg now msgId parse r m s =
      s\<lparr>rm_roomSeq := js_set r (getRoomSeq s r + 1) (rm_roomSeq s),
        rm_roomBuffers := js_set r (longest_fitting cfg (getRingBuffer s r @ [?e])) (rm_roomBuffers s),
        rm_roomBufferBytes := js_set r (bytes_sum (longest_fitting cfg (getRingBuffer s r @ [?e])))
          (rm_roomBufferBytes s)\<rparr>"
    using ev unfolding record_entry_def Let_def new_entry_def room_bytes_def by simp
  then show "getRoomSeq (record_entry cfg now msgId parse r m s) = (getRoomSeq s)(r := getRoomSeq s r + 1)"
    and "getRingBuffer (record_entry cfg now msgId parse r m s) = (getRingBuffer s)
      (r := longest_fitting cfg (getRingBuffer s r @ [?e]))"
    and "room_bytes (record_entry cfg now msgId parse r m s) = (room_bytes s)
      (r := bytes_sum (longest_fitting cfg (getRingBuffer s r @ [?e])))"
    by (simp_all add: getRoomSeq_def getRingBuffer_def room_bytes_def fun_eq_iff)
qed

lemma drop_upto: "drop k [i..j] = [i + int k..j]"
proof (induction k arbitrary: i)
  case (Suc k)
  show ?case
  proof (cases "i \<le> j")
    case True
    then have "drop (Suc k) [i..j] = drop k [i + 1..j]" by (simp add: upto_rec1)
    then show ?thesis using Suc by (simp add: algebra_simps)
  qed simp
qed simp

lemma suffix_seqs:
  assumes "map e_seq b = [n - int (length b) + 1..n]" and "int (length b) \<le> n"
  shows "map e_seq (longest_fitting cfg b) = [n - int (length (longest_fitting cfg b)) + 1..n]"
    and "int (length (longest_fitting cfg b)) \<le> n"
proof -
  obtain k where k: "k \<le> length b" "longest_fitting cfg b = drop k b"
    using longest_fitting_suffix by blast
  have "map e_seq (drop k b) = drop k [n - int (length b) + 1..n]"
    using assms(1) by (metis drop_map)
  then show "map e_seq (longest_fitting cfg b) = [n - int (length (longest_fitting cfg b)) + 1..n]"
    using k by (simp add: drop_upto of_nat_diff algebra_simps)
  show "int (length (longest_fitting cfg b)) \<le> n" using k assms(2) by simp
qed

lemma record_entry_ring:
  assumes "ring_ok cfg s r'" and "ring_ok cfg s r"
  shows "ring_ok cfg (record_entry cfg now msgId parse r m s) r'"
proof -
  have bytes: "room_bytes s r = bytes_sum (getRingBuffer s r)"
    using assms(2) by (simp add: ring_ok_def)
  show ?thesis
  proof (cases "r' = r")
    case True
    define b where "b = getRingBuffer s r @ [new_entry now msgId parse r m s]"
    have "map e_seq b = [getRoomSeq s r + 1 - int (length b) + 1..getRoomSeq s r + 1]"
      and "int (length b) \<le> getRoomSeq s r + 1"
      using assms(2) by (simp_all add: b_def ring_ok_def new_entry_def upto_rec2)
    from suffix_seqs [OF this, of cfg] True show ?thesis
      by (simp add: ring_ok_def record_entry_views [OF bytes] b_def [symmetric])
  next
    case False
    with assms(1) show ?thesis by (simp add: ring_ok_def record_entry_views [OF bytes])
  qed
qed

section \<open>Reconnect\<close>

definition replay_from :: "int \<Rightarrow> int option \<Rightarrow> int" where
  "replay_from lastSeq highestAcked =
     (case highestAcked of Some h \<Rightarrow> if h \<ge> 0 then h else lastSeq | None \<Rightarrow> lastSeq)"

lemma ring_head:
  assumes "ring_ok cfg s r" and "getRingBuffer s r = e # b"
  shows "e_seq e = getRoomSeq s r - int (length b)" and "e_seq e \<le> getRoomSeq s r"
proof -
  have "e_seq e # map e_seq b = [getRoomSeq s r - int (length b)..getRoomSeq s r]"
    using assms by (simp add: ring_ok_def)
  moreover have "\<dots> = (getRoomSeq s r - int (length b)) # [getRoomSeq s r - int (length b) + 1..getRoomSeq s r]"
    by (rule upto_rec1) simp
  ultimately show "e_seq e = getRoomSeq s r - int (length b)" by simp
  then show "e_seq e \<le> getRoomSeq s r" by simp
qed

lemma filter_upto_greater: "i - 1 \<le> f \<Longrightarrow> filter (\<lambda>x. f < x) [i..j] = [f + 1..j]" for f :: int
proof (induction "nat (j - i + 1)" arbitrary: i)
  case (Suc n)
  then have le: "i \<le> j" by simp
  show ?case
  proof (cases "f < i")
    case True
    then have "i = f + 1" using Suc.prems by simp
    then show ?thesis by (auto simp: filter_id_conv)
  next
    case False
    then have "filter (\<lambda>x. f < x) [i + 1..j] = [f + 1..j]" using Suc by (intro Suc.hyps) auto
    then show ?thesis using le False by (simp add: upto_rec1 [of i j])
  qed
qed simp

lemma handleReconnect_cases:
  fixes s :: rm and r :: roomId and lastSeq :: int and hi :: "int option"
  assumes ring: "ring_ok cfg s r"
  defines "f \<equiv> replay_from lastSeq hi" and "cur \<equiv> getRoomSeq s r" and "b \<equiv> getRingBuffer s r"
  shows "handleReconnect s r lastSeq hi =
     (if f = cur then Replay_complete r
      else if f + 1 \<in> e_seq ` set b then Replay r (filter (\<lambda>e. f < e_seq e) b) cur
      else Replay_gap r (if b = [] then cur else e_seq (hd b)) cur)"
proof (cases b)
  case Nil
  then show ?thesis
    by (simp add: handleReconnect_def Let_def replay_from_def f_def cur_def b_def)
next
  case (Cons e b')
  have "e_seq ` set b = set (map e_seq b)" by simp
  also have "\<dots> = {e_seq e..cur}"
    using ring ring_head [OF ring, of e b'] Cons by (simp add: ring_ok_def b_def cur_def)
  finally show ?thesis
    using Cons by (auto simp: handleReconnect_def Let_def replay_from_def f_def cur_def b_def)
qed

lemma replayed_seqs:
  assumes "ring_ok cfg s r" and "f + 1 \<in> e_seq ` set (getRingBuffer s r)"
  shows "map e_seq (filter (\<lambda>e. f < e_seq e) (getRingBuffer s r)) = [f + 1..getRoomSeq s r]"
proof -
  let ?b = "getRingBuffer s r"
  have b: "map e_seq ?b = [getRoomSeq s r - int (length ?b) + 1..getRoomSeq s r]"
    using assms(1) by (simp add: ring_ok_def)
  have "f + 1 \<in> set (map e_seq ?b)" using assms(2) by simp
  then have "getRoomSeq s r - int (length ?b) + 1 \<le> f + 1" unfolding b by simp
  moreover have "map e_seq (filter (\<lambda>e. f < e_seq e) ?b) = filter (\<lambda>x. f < x) (map e_seq ?b)"
    by (simp add: filter_map o_def)
  ultimately show ?thesis by (simp only: b filter_upto_greater)
qed

section \<open>Deduplication\<close>

definition dedup_ok :: "rm_config \<Rightarrow> rm \<Rightarrow> bool" where
  "dedup_ok cfg s \<longleftrightarrow> wf_map (rm_dedupCache s) \<and>
     int (length (rm_dedupCache s)) \<le> max 0 (maxDedupEntries cfg)"

lemma remember_key_bound:
  assumes "wf_map cache"
  shows "wf_map (remember_key cap key now cache)"
    and "int (length cache) \<le> max 0 cap \<Longrightarrow> int (length (remember_key cap key now cache)) \<le> max 0 cap"
proof -
  have wf: "wf_map (js_set key now cache)" using assms(1) by simp
  then show "wf_map (remember_key cap key now cache)"
    by (auto simp: remember_key_def Let_def split: list.splits)
  assume "int (length cache) \<le> max 0 cap"
  then have len: "int (length (js_set key now cache)) \<le> max 0 cap + 1"
    by (simp add: length_js_set)
  show "int (length (remember_key cap key now cache)) \<le> max 0 cap"
  proof (cases "js_set key now cache")
    case (Cons p c)
    then obtain k v where "p = (k, v)" by fastforce
    with Cons wf len show ?thesis by (simp add: remember_key_def Let_def js_delete_absent map_of_eq_None_iff)
  qed simp
qed

lemma isDuplicate_state:
  "snd (isDuplicate cfg now parse r m ex s) = s \<or>
   (\<exists>key. snd (isDuplicate cfg now parse r m ex s) =
       s\<lparr>rm_dedupCache := remember_key (maxDedupEntries cfg) key now (rm_dedupCache s)\<rparr>)"
  by (auto simp: isDuplicate_def split: option.split)

lemma isDuplicate_dedup_ok [inv_intros]:
  "dedup_ok cfg s \<Longrightarrow> dedup_ok cfg (snd (isDuplicate cfg now parse r m ex s))"
  using isDuplicate_state [of cfg now parse r m ex s] by (auto simp: dedup_ok_def remember_key_bound)

lemma remember_key_get:
  assumes "wf_map cache"
  shows "js_get (remember_key cap key now cache) k =
     (if int (length (js_set key now cache)) > cap \<and> k = fst (hd (js_set key now cache)) then None
      else if k = key then Some now else js_get cache k)"
proof -
  obtain p c where c: "js_set key now cache = p # c" by (cases "js_set key now cache") auto
  have "js_get (p # c) k = (if k = key then Some now else js_get cache k)"
    by (simp only: c [symmetric] js_get_set)
  then show ?thesis by (auto simp: remember_key_def Let_def c split: prod.splits)
qed

lemma remember_key_survives:
  assumes "wf_map cache" and "cache = xs @ (key, t) # ys" and "k \<noteq> key" and "int (length ys) + 1 < cap"
  shows "\<exists>xs' ys'. remember_key cap k now cache = xs' @ (key, t) # ys' \<and> length ys' \<le> Suc (length ys)"
proof -
  obtain xs' ys' where set: "js_set k now cache = xs' @ (key, t) # ys'" and len: "length ys' \<le> Suc (length ys)"
    using js_set_split [OF assms(3), of now xs t ys] assms(2) by blast
  show ?thesis
  proof (cases xs')
    case Nil
    then have "remember_key cap k now cache = xs' @ (key, t) # ys'"
      using set len assms(4) by (simp add: remember_key_def)
    with len show ?thesis by blast
  next
    case (Cons p xs'')
    obtain a b where p: "p = (a, b)" by fastforce
    have "wf_map (js_set k now cache)" using assms(1) by simp
    then have "js_delete a (js_set k now cache) = xs'' @ (key, t) # ys'"
      using set Cons p by (auto simp: js_delete_absent map_of_eq_None_iff)
    then have "remember_key cap k now cache \<in> {xs' @ (key, t) # ys', xs'' @ (key, t) # ys'}"
      using set Cons p by (simp add: remember_key_def Let_def)
    with len show ?thesis by blast
  qed
qed

text \<open>A sequence of broadcasts and what it does to the cache.\<close>

type_synonym call = "int \<times> string \<times> roomId \<times> message \<times> clientId option"

definition bcast :: "rm_config \<Rightarrow> (string \<Rightarrow> json option) \<Rightarrow> (sock \<Rightarrow> bool) \<Rightarrow> call \<Rightarrow> rm \<Rightarrow> rm" where
  "bcast cfg parse ready = (\<lambda>(now, msgId, r, m, ex) s. snd (broadcast_room cfg now msgId parse ready r m ex s))"

definition delivery_only :: "rm \<Rightarrow> rm \<Rightarrow> bool" where
  "delivery_only s s' \<longleftrightarrow> rm_roomSeq s = rm_roomSeq s' \<and> rm_roomBuffers s = rm_roomBuffers s'
     \<and> rm_roomBufferBytes s = rm_roomBufferBytes s' \<and> rm_dedupCache s = rm_dedupCache s'
     \<and> same_membership s s'"

lemma delivery_only_refl [simp]: "delivery_only s s"
  by (simp add: delivery_only_def)

lemma delivery_only_trans: "delivery_only s s' \<Longrightarrow> delivery_only s' s'' \<Longrightarrow> delivery_only s s''"
  by (simp add: delivery_only_def same_membership_def)

lemma ack_gate_delivery_only [simp]: "delivery_only (snd (ack_gate cfg c r s)) s"
  by (simp add: ack_gate_def setAckState_def delivery_only_def same_membership_def Let_def)

lemma deliver_plain_delivery_only: "delivery_only (snd (deliver_plain cfg ready r wire ex room s)) s"
proof (induction room arbitrary: s)
  case (Cons p room)
  obtain c ws where p: "p = (c, ws)" by fastforce
  have "delivery_only (snd (deliver_plain cfg ready r wire ex room (snd (ack_gate cfg c r s)))) s"
    using Cons ack_gate_delivery_only delivery_only_trans by blast
  with Cons p show ?case by (simp add: case_prod_beta Let_def)
qed simp

lemma broadcast_room_cases:
  "broadcast_room cfg now msgId parse ready r m ex s =
     (if fst (isDuplicate cfg now parse r m ex s) then ([], s)
      else let s2 = record_entry cfg now msgId parse r m (snd (isDuplicate cfg now parse r m ex s))
           in case js_get (rm_rooms s2) r of
                None \<Rightarrow> ([], s2)
              | Some room \<Rightarrow> if bpEnabled cfg then ([Immediate (Job r room m ex)], s2)
                             else deliver_plain cfg ready r (wire_data m) ex room s2)"
  by (auto simp: broadcast_room_def isDuplicate_def case_prod_beta Let_def split: option.splits)

lemma broadcast_room_state:
  "if fst (isDuplicate cfg now parse r m ex s)
   then broadcast_room cfg now msgId parse ready r m ex s = ([], s)
   else delivery_only (snd (broadcast_room cfg now msgId parse ready r m ex s))
     (record_entry cfg now msgId parse r m (snd (isDuplicate cfg now parse r m ex s)))"
  by (auto simp: broadcast_room_cases Let_def deliver_plain_delivery_only split: option.split)

lemma record_entry_other:
  "rm_dedupCache (record_entry cfg now msgId parse r m s) = rm_dedupCache s"
  "same_membership (record_entry cfg now msgId parse r m s) s"
  by (simp_all add: record_entry_def Let_def case_prod_beta same_membership_def)

lemma isDuplicate_views:
  "getRoomSeq (snd (isDuplicate cfg now parse r m ex s)) = getRoomSeq s"
  "getRingBuffer (snd (isDuplicate cfg now parse r m ex s)) = getRingBuffer s"
  "room_bytes (snd (isDuplicate cfg now parse r m ex s)) = room_bytes s"
  "same_membership (snd (isDuplicate cfg now parse r m ex s)) s"
  using isDuplicate_state [of cfg now parse r m ex s]
  by (auto simp: getRoomSeq_def getRingBuffer_def room_bytes_def same_membership_def fun_eq_iff)

lemma broadcast_room_dedup:
  "rm_dedupCache (snd (broadcast_room cfg now msgId parse ready r m ex s)) =
     (if fst (isDuplicate cfg now parse r m ex s) then rm_dedupCache s
      else rm_dedupCache (snd (isDuplicate cfg now parse r m ex s)))"
  using broadcast_room_state [of cfg now parse r m ex s msgId ready]
  by (auto simp: delivery_only_def record_entry_other split: if_splits)

lemma isDuplicate_cached:
  assumes "dedup_key parse r m ex = Some key" and "js_get (rm_dedupCache s) key = Some t"
    and "now - t \<le> deduplicationWindowMs cfg"
  shows "isDuplicate cfg now parse r m ex s = (True, s)"
  using assms by (simp add: isDuplicate_def)

lemma bcast_keeps_cached:
  assumes "wf_map (rm_dedupCache s)" and split: "rm_dedupCache s = xs @ (key, t) # ys"
    and "int (length ys) + 1 < maxDedupEntries cfg" and "fst call \<le> t + deduplicationWindowMs cfg"
  shows "\<exists>xs' ys'. rm_dedupCache (bcast cfg parse ready call s) = xs' @ (key, t) # ys' \<and>
    length ys' \<le> Suc (length ys) \<and> wf_map (rm_dedupCache (bcast cfg parse ready call s))"
proof -
  obtain now msgId r m ex where call: "call = (now, msgId, r, m, ex)" by (metis prod_cases5)
  let ?d = "isDuplicate cfg now parse r m ex s"
  have after: "rm_dedupCache (bcast cfg parse ready call s) =
      (if fst ?d then rm_dedupCache s else rm_dedupCache (snd ?d))"
    by (simp add: bcast_def call broadcast_room_dedup)
  show ?thesis
  proof (cases "snd ?d = s")
    case True
    with after have "rm_dedupCache (bcast cfg parse ready call s) = xs @ (key, t) # ys" by (simp add: split)
    with assms(1) split show ?thesis by (metis le_SucI order_refl)
  next
    case False
    then obtain k where k: "dedup_key parse r m ex = Some k"
      and d: "rm_dedupCache (snd ?d) = remember_key (maxDedupEntries cfg) k now (rm_dedupCache s)" "\<not> fst ?d"
      by (auto simp: isDuplicate_def split: option.splits if_splits)
    have "js_get (rm_dedupCache s) key = Some t" using assms(1) split by (intro js_get_SomeI) auto
    then have "k \<noteq> key" using k d(2) assms(4) isDuplicate_cached [of parse r m ex key s t now cfg] call by auto
    from remember_key_survives [OF assms(1) split this assms(3)] show ?thesis
      using after d remember_key_bound(1) [OF assms(1)] by simp
  qed
qed

lemma bcasts_keep_cached:
  assumes "wf_map (rm_dedupCache s)" and "rm_dedupCache s = xs @ (key, t) # ys"
    and "int (length ys + length calls) < maxDedupEntries cfg"
    and "\<forall>call\<in>set calls. fst call \<le> t + deduplicationWindowMs cfg"
  shows "js_get (rm_dedupCache (fold (bcast cfg parse ready) calls s)) key = Some t"
  using assms
proof (induction calls arbitrary: s xs ys)
  case Nil
  then have "(key, t) \<in> set (rm_dedupCache s)" by simp
  with Nil.prems(1) show ?case by (simp only: js_get_SomeI fold_simps id_apply)
next
  case (Cons call calls)
  have "int (length ys) + 1 < maxDedupEntries cfg" and "fst call \<le> t + deduplicationWindowMs cfg"
    using Cons.prems(3,4) by simp_all
  from bcast_keeps_cached [OF Cons.prems(1,2) this] obtain xs' ys'
    where "rm_dedupCache (bcast cfg parse ready call s) = xs' @ (key, t) # ys'"
      and "length ys' \<le> Suc (length ys)" and "wf_map (rm_dedupCache (bcast cfg parse ready call s))" by blast
  with Cons.IH [of "bcast cfg parse ready call s" xs' ys'] Cons.prems(3,4) show ?case by simp
qed

lemma remember_fresh_key:
  assumes "wf_map cache" and "js_get cache key = None" and "cap \<ge> 2" and "int (length cache) \<le> cap"
  shows "\<exists>xs. remember_key cap key now cache = xs @ [(key, now)]"
proof (cases cache)
  case (Cons p c)
  obtain k v where p: "p = (k, v)" by fastforce
  have "js_set key now cache = cache @ [(key, now)]" using assms(2) by (rule js_set_absent)
  moreover have "js_delete k (cache @ [(key, now)]) = c @ [(key, now)]"
    using assms(1,2) Cons p by (auto simp: js_delete_absent map_of_eq_None_iff split: if_splits)
  ultimately have "remember_key cap key now cache \<in> {cache @ [(key, now)], c @ [(key, now)]}"
    by (simp add: remember_key_def Let_def Cons p)
  then show ?thesis by blast
qed (use assms in \<open>auto simp: remember_key_def\<close>)

section \<open>Flow control\<close>

definition ack_bounded :: "rm_config \<Rightarrow> ack_state \<Rightarrow> bool" where
  "ack_bounded cfg a \<longleftrightarrow> 0 \<le> unackedCount a \<and>
     (case ackWindowSize cfg of Infinity \<Rightarrow> True | Limit w \<Rightarrow> unackedCount a \<le> max 0 w)"

definition ack_ok :: "rm_config \<Rightarrow> rm \<Rightarrow> bool" where
  "ack_ok cfg s \<longleftrightarrow> (\<forall>c r. ack_bounded cfg (ack_of s c r))"

definition gate_open :: "rm_config \<Rightarrow> ack_state \<Rightarrow> bool" where
  "gate_open cfg a \<longleftrightarrow> ackWindowSize cfg = Infinity \<or> \<not> paused a \<and> \<not> reaches (unackedCount a) (ackWindowSize cfg)"

definition gate_after :: "rm_config \<Rightarrow> ack_state \<Rightarrow> ack_state" where
  "gate_after cfg a =
     (if ackWindowSize cfg = Infinity then a
      else if gate_open cfg a then a\<lparr>unackedCount := unackedCount a + 1\<rparr> else a\<lparr>paused := True\<rparr>)"

lemma ack_of_set [simp]:
  "ack_of (setAckState c r a s) c' r' = (if c' = c \<and> r' = r then a else ack_of s c' r')"
  by (auto simp: ack_of_def setAckState_def split: option.splits)

lemma ack_gate_views:
  "fst (ack_gate cfg c r s) = gate_open cfg (ack_of s c r)"
  "ack_of (snd (ack_gate cfg c r s)) c' r' =
     (if c' = c \<and> r' = r then gate_after cfg (ack_of s c r) else ack_of s c' r')"
  by (simp_all add: ack_gate_def gate_open_def gate_after_def Let_def)

lemma setAckState_ok: "ack_ok cfg s \<Longrightarrow> ack_bounded cfg a \<Longrightarrow> ack_ok cfg (setAckState c r a s)"
  by (simp add: ack_ok_def)

lemma ack_okD: "ack_ok cfg s \<Longrightarrow> ack_bounded cfg (ack_of s c r)"
  by (simp add: ack_ok_def)

lemma fresh_ack_bounded [simp]: "ack_bounded cfg fresh_ack"
  by (simp add: ack_bounded_def fresh_ack_def split: jslimit.split)

lemma ack_gate_ok [inv_intros]:
  assumes "ack_ok cfg s" shows "ack_ok cfg (snd (ack_gate cfg c r s))"
  using ack_okD [OF assms, of c r] assms
  by (cases "ackWindowSize cfg") (auto simp: ack_gate_def Let_def ack_bounded_def intro!: setAckState_ok)

lemma ack_update_bounds:
  assumes "0 \<le> unackedCount a"
  shows "0 \<le> unackedCount (ack_update w seq a)" and "unackedCount (ack_update w seq a) \<le> unackedCount a"
    and "highestAckedSeq (ack_update w seq a) = max (highestAckedSeq a) seq"
  using assms by (auto simp: ack_update_def Let_def)

lemma ack_member_ok [inv_intros]:
  assumes "ack_ok cfg s" shows "ack_ok cfg (ack_member cfg c r seq s)"
  unfolding ack_member_def
proof (rule setAckState_ok [OF assms])
  have a: "ack_bounded cfg (ack_of s c r)" by (rule ack_okD [OF assms])
  then have "0 \<le> unackedCount (ack_of s c r)" by (simp add: ack_bounded_def)
  from ack_update_bounds(1,2) [OF this, of "ackWindowSize cfg" seq] a
  show "ack_bounded cfg (ack_update (ackWindowSize cfg) seq (ack_of s c r))"
    by (auto simp: ack_bounded_def split: jslimit.splits)
qed

text \<open>Who receives a broadcast: the open members, except the sender, that flow control lets through.\<close>

definition receives :: "rm_config \<Rightarrow> (sock \<Rightarrow> bool) \<Rightarrow> roomId \<Rightarrow> clientId option \<Rightarrow> rm \<Rightarrow> clientId \<times> sock \<Rightarrow> bool" where
  "receives cfg ready r ex s = (\<lambda>(c, ws). ex \<noteq> Some c \<and> ready ws \<and> gate_open cfg (ack_of s c r))"

lemma receives_iff [simp]:
  "receives cfg ready r ex s (c, ws) \<longleftrightarrow> ex \<noteq> Some c \<and> ready ws \<and> gate_open cfg (ack_of s c r)"
  by (simp add: receives_def)

lemma deliver_plain_sends:
  "wf_map room \<Longrightarrow> fst (deliver_plain cfg ready r wire ex room s) =
     map (\<lambda>(c, ws). Send ws wire) (filter (receives cfg ready r ex s) room)"
proof (induction room arbitrary: s)
  case (Cons p room)
  obtain c ws where p: "p = (c, ws)" by fastforce
  have "filter (receives cfg ready r ex (snd (ack_gate cfg c r s))) room = filter (receives cfg ready r ex s) room"
    using Cons.prems p by (intro filter_cong) (force simp: receives_def ack_gate_views)+
  moreover have "fst (deliver_plain cfg ready r wire ex room (snd (ack_gate cfg c r s))) =
      map (\<lambda>(c, ws). Send ws wire) (filter (receives cfg ready r ex (snd (ack_gate cfg c r s))) room)"
    using Cons by simp
  ultimately show ?case
    using Cons p by (simp add: case_prod_beta Let_def ack_gate_views)
qed simp

lemma deliver_plain_ok [inv_intros]:
  "ack_ok cfg s \<Longrightarrow> ack_ok cfg (snd (deliver_plain cfg ready r wire ex room s))"
proof (induction room arbitrary: s)
  case (Cons p room)
  obtain c ws where "p = (c, ws)" by fastforce
  with Cons ack_gate_ok [OF Cons.prems] show ?case by (simp add: case_prod_beta Let_def)
qed simp

lemma deliver_plain_acks:
  "wf_map room \<Longrightarrow> ack_of (snd (deliver_plain cfg ready r wire ex room s)) c r' =
     (case js_get room c of
        Some ws \<Rightarrow> if r' = r \<and> ex \<noteq> Some c \<and> ready ws then gate_after cfg (ack_of s c r) else ack_of s c r'
      | None \<Rightarrow> ack_of s c r')"
proof (induction room arbitrary: s)
  case (Cons p room)
  obtain c' ws where p: "p = (c', ws)" by fastforce
  with Cons.prems have "wf_map room" and "js_get room c' = None" by (auto simp: map_of_eq_None_iff)
  with Cons.IH p show ?case
    by (auto simp: case_prod_beta Let_def ack_gate_views split: option.split)
qed simp

end
