(* ===== verification/RoomMachine.thy ===== *)
theory RoomMachine
  imports RoomDelivery
begin

text \<open>
  The room manager as a state machine: every public operation, every timer and every deferred
  fan-out batch of \<open>src/room-manager.js\<close> is a step, in any order and with any clock, memory
  reading and socket state. The invariants of \<open>RoomMembership\<close> and \<open>RoomDelivery\<close> hold in every
  reachable state.
\<close>

section \<open>Batches\<close>

fun is_immediate :: "action \<Rightarrow> bool" where
  "is_immediate (Immediate _) = True"
| "is_immediate _ = False"

definition next_job :: "action list \<Rightarrow> job option" where
  "next_job acts = (case filter is_immediate acts of [Immediate j] \<Rightarrow> Some j | _ \<Rightarrow> None)"

definition sends :: "action list \<Rightarrow> action list" where
  "sends = filter (\<lambda>a. \<not> is_immediate a)"

text \<open>The event loop running one fan-out to its end, \<open>fuel\<close> ticks at most.\<close>

fun run_job :: "nat \<Rightarrow> rm_config \<Rightarrow> (sock \<Rightarrow> bool) \<Rightarrow> (sock \<Rightarrow> int) \<Rightarrow> int \<Rightarrow> room \<Rightarrow> job \<Rightarrow> rm \<Rightarrow>
    (action list \<times> rm) option" where
  "run_job 0 cfg ready buffered now room jb s = None"
| "run_job (Suc n) cfg ready buffered now room jb s =
     (let (acts, s1) = processBatch cfg ready buffered now room jb s
      in case next_job acts of
           None \<Rightarrow> Some (acts, s1)
         | Some j \<Rightarrow> map_option (\<lambda>(acts', s2). (sends acts @ acts', s2))
                       (run_job n cfg ready buffered now room j s1))"

lemma bp_entries_append:
  "bp_entries cfg ready buffered now r m ex (es @ es') s =
     (let (acts, s1) = bp_entries cfg ready buffered now r m ex es s;
          (acts', s2) = bp_entries cfg ready buffered now r m ex es' s1
      in (acts @ acts', s2))"
proof (induction es arbitrary: s)
  case (Cons p es)
  obtain c ws where "p = (c, ws)" by fastforce
  with Cons show ?case by (simp add: case_prod_beta Let_def)
qed simp

lemma bp_entries_no_immediate:
  "filter is_immediate (fst (bp_entries cfg ready buffered now r m ex es s)) = []"
proof (induction es arbitrary: s)
  case (Cons p es)
  obtain c ws where "p = (c, ws)" by fastforce
  with Cons show ?case by (simp add: case_prod_beta Let_def bp_send_def)
qed simp

lemma drain_no_immediate:
  "filter is_immediate (fst (drainCoalescedMessages ready room s)) = []"
proof (induction room arbitrary: s)
  case (Cons p room)
  obtain c ws where "p = (c, ws)" by fastforce
  with Cons show ?case by (simp add: case_prod_beta Let_def split: option.split)
qed simp

lemma sends_no_immediate: "filter is_immediate acts = [] \<Longrightarrow> sends acts = acts"
  by (auto simp: sends_def filter_empty_conv intro!: filter_True)

lemma processBatch_next:
  assumes "drop (batchSize cfg) es \<noteq> []"
  shows "next_job (fst (processBatch cfg ready buffered now room (Job r es m ex) s)) =
      Some (Job r (drop (batchSize cfg) es) m ex)"
    and "sends (fst (processBatch cfg ready buffered now room (Job r es m ex) s)) =
      fst (bp_entries cfg ready buffered now r m ex (take (batchSize cfg) es) s)"
    and "snd (processBatch cfg ready buffered now room (Job r es m ex) s) =
      snd (bp_entries cfg ready buffered now r m ex (take (batchSize cfg) es) s)"
  using assms bp_entries_no_immediate [of cfg ready buffered now r m ex "take (batchSize cfg) es" s]
  by (simp_all add: processBatch_def next_job_def case_prod_beta Let_def sends_no_immediate)
    (simp add: sends_def filter_empty_conv)

lemma run_job_one_pass:
  assumes "0 < batchSize cfg" and "length es \<le> n * batchSize cfg" and "0 < n"
  shows "run_job n cfg ready buffered now room (Job r es m ex) s =
    Some (let (acts, s1) = bp_entries cfg ready buffered now r m ex es s;
              (acts', s2) = drainCoalescedMessages ready room s1
          in (acts @ acts', s2))"
  using assms(2,3)
proof (induction n arbitrary: es s)
  case (Suc n)
  let ?k = "batchSize cfg"
  show ?case
  proof (cases "drop ?k es = []")
    case True
    have "next_job (fst (bp_entries cfg ready buffered now r m ex es s) @
        fst (drainCoalescedMessages ready room s')) = None" for s'
      by (simp add: next_job_def bp_entries_no_immediate drain_no_immediate)
    with True show ?thesis by (simp add: processBatch_def case_prod_beta Let_def)
  next
    case False
    then have n: "0 < n" "length (drop ?k es) \<le> n * ?k" using Suc.prems(1) by (cases n; auto)+
    have "run_job (Suc n) cfg ready buffered now room (Job r es m ex) s =
        map_option (\<lambda>(acts', s2). (fst (bp_entries cfg ready buffered now r m ex (take ?k es) s) @ acts', s2))
          (run_job n cfg ready buffered now room (Job r (drop ?k es) m ex)
            (snd (bp_entries cfg ready buffered now r m ex (take ?k es) s)))"
      using processBatch_next [OF False] by (simp add: case_prod_beta)
    then show ?thesis
      using Suc.IH [OF n(2,1)] bp_entries_append [of cfg ready buffered now r m ex "take ?k es" "drop ?k es" s]
      by (simp add: case_prod_beta Let_def)
  qed
qed simp

section \<open>Steps of the backpressure path leave the other state alone\<close>

definition quiet :: "rm \<Rightarrow> rm \<Rightarrow> bool" where
  "quiet s s' \<longleftrightarrow> delivery_only s s' \<and> rm_ackState s = rm_ackState s'"

lemma quiet_refl [simp]: "quiet s s"
  by (simp add: quiet_def)

lemma quiet_trans: "quiet s s' \<Longrightarrow> quiet s' s'' \<Longrightarrow> quiet s s''"
  by (auto simp: quiet_def intro: delivery_only_trans)

lemma quiet_ack_ok:
  assumes "quiet s s'" shows "ack_ok cfg s = ack_ok cfg s'"
proof -
  have "ack_of s = ack_of s'" using assms by (simp add: quiet_def ack_of_def fun_eq_iff)
  then show ?thesis by (simp add: ack_ok_def)
qed

lemma bp_send_quiet: "quiet (snd (bp_send cfg buffered now m c ws s)) s"
  by (auto simp: quiet_def delivery_only_def same_membership_def bp_send_def Let_def
      startSlowConsumerTimeout_def clearTimer_def split: option.splits if_splits)

lemma drain_quiet: "quiet (snd (drainCoalescedMessages ready room s)) s"
proof (induction room arbitrary: s)
  case (Cons p room)
  obtain c ws where p: "p = (c, ws)" by fastforce
  let ?upd = "\<lambda>ref. s\<lparr>rm_store := (rm_store s)(ref := (rm_store s ref)\<lparr>coalescedMessage := None\<rparr>)\<rparr>"
  have "quiet (?upd ref) s" for ref
    by (simp add: quiet_def delivery_only_def same_membership_def)
  with Cons have "quiet (snd (drainCoalescedMessages ready room (?upd ref))) s" for ref
    using quiet_trans by blast
  with Cons p show ?case by (simp add: case_prod_beta Let_def split: option.split)
qed simp

lemma timeout_quiet: "quiet (snd (slow_timeout_fires ready tid s)) s"
  by (auto simp: quiet_def delivery_only_def same_membership_def slow_timeout_fires_def Let_def
      cleanupClientState_def clearTimer_def split: option.splits)

lemma bp_entries_steps:
  "delivery_only (snd (bp_entries cfg ready buffered now r m ex es s)) s \<and>
   (ack_ok cfg s \<longrightarrow> ack_ok cfg (snd (bp_entries cfg ready buffered now r m ex es s)))"
proof (induction es arbitrary: s)
  case (Cons p es)
  obtain c ws where p: "p = (c, ws)" by fastforce
  let ?s1 = "snd (ack_gate cfg c r s)"
  define s2 where "s2 = (if ex = Some c \<or> \<not> ready ws then s
    else if fst (ack_gate cfg c r s) then snd (bp_send cfg buffered now m c ws ?s1) else ?s1)"
  have step: "snd (bp_entries cfg ready buffered now r m ex (p # es) s) =
      snd (bp_entries cfg ready buffered now r m ex es s2)"
    by (simp add: p s2_def case_prod_beta Let_def)
  have q: "s2 = s \<or> quiet s2 ?s1" using bp_send_quiet by (simp add: s2_def)
  then have "delivery_only s2 s"
    using delivery_only_trans [OF _ ack_gate_delivery_only] unfolding quiet_def by auto
  moreover have "ack_ok cfg s \<longrightarrow> ack_ok cfg s2" using q quiet_ack_ok ack_gate_ok by blast
  ultimately show ?case unfolding step using Cons delivery_only_trans by blast
qed simp

lemma processBatch_steps:
  "delivery_only (snd (processBatch cfg ready buffered now room jb s)) s"
  "ack_ok cfg s \<Longrightarrow> ack_ok cfg (snd (processBatch cfg ready buffered now room jb s))"
proof -
  obtain r es m ex where jb: "jb = Job r es m ex" by (cases jb)
  let ?s1 = "snd (bp_entries cfg ready buffered now r m ex (take (batchSize cfg) es) s)"
  have q: "quiet (snd (processBatch cfg ready buffered now room jb s)) ?s1"
    using drain_quiet by (simp add: jb processBatch_def case_prod_beta Let_def)
  then show "delivery_only (snd (processBatch cfg ready buffered now room jb s)) s"
    using bp_entries_steps delivery_only_trans unfolding quiet_def by blast
  show "ack_ok cfg s \<Longrightarrow> ack_ok cfg (snd (processBatch cfg ready buffered now room jb s))"
    using q bp_entries_steps quiet_ack_ok by blast
qed

section \<open>The invariant\<close>

definition rm_inv :: "rm_config \<Rightarrow> rm \<Rightarrow> bool" where
  "rm_inv cfg s \<longleftrightarrow> member_inv s \<and> rooms_limited cfg s \<and> (\<forall>r. ring_ok cfg s r) \<and> dedup_ok cfg s
     \<and> ack_ok cfg s"

definition valid_config :: "rm_config \<Rightarrow> bool" where
  "valid_config cfg \<longleftrightarrow> sane cfg \<and> within 0 (maxRooms cfg) \<and> within 0 (maxMembersPerRoom cfg)"

definition same_delivery :: "rm \<Rightarrow> rm \<Rightarrow> bool" where
  "same_delivery s s' \<longleftrightarrow> rm_roomSeq s = rm_roomSeq s' \<and> rm_roomBuffers s = rm_roomBuffers s'
     \<and> rm_roomBufferBytes s = rm_roomBufferBytes s' \<and> rm_dedupCache s = rm_dedupCache s'"

lemma same_deliveryD:
  assumes "same_delivery s s'"
  shows "ring_ok cfg s r = ring_ok cfg s' r" and "dedup_ok cfg s = dedup_ok cfg s'"
  using assms
  by (simp_all add: same_delivery_def ring_ok_def dedup_ok_def getRingBuffer_def getRoomSeq_def room_bytes_def)

lemma same_delivery_trans: "same_delivery s s' \<Longrightarrow> same_delivery s' s'' \<Longrightarrow> same_delivery s s''"
  by (simp add: same_delivery_def)

definition acks_from :: "rm \<Rightarrow> rm \<Rightarrow> bool" where
  "acks_from s s' \<longleftrightarrow> (\<forall>c r. ack_of s c r \<in> {ack_of s' c r, fresh_ack})"

lemma acks_from_ok: "acks_from s s' \<Longrightarrow> ack_ok cfg s' \<Longrightarrow> ack_ok cfg s"
  unfolding acks_from_def ack_ok_def using fresh_ack_bounded by (metis insertE singletonD)

lemma acks_from_trans:
  assumes "acks_from s s'" and "acks_from s' s''" shows "acks_from s s''"
  unfolding acks_from_def
proof (intro allI)
  fix c r
  have "ack_of s c r \<in> {ack_of s' c r, fresh_ack}" and "ack_of s' c r \<in> {ack_of s'' c r, fresh_ack}"
    using assms by (auto simp: acks_from_def)
  then show "ack_of s c r \<in> {ack_of s'' c r, fresh_ack}" by auto
qed

lemma rm_init_inv: "valid_config cfg \<Longrightarrow> rm_inv cfg rm_init"
  by (simp add: rm_inv_def rm_init_def valid_config_def sane_def member_inv_def wf_rm_def good_rooms_def
      good_index_def indexed_def room_of_def rooms_of_def rooms_limited_def ring_ok_def getRingBuffer_def
      getRoomSeq_def room_bytes_def fits_def dedup_ok_def ack_ok_def ack_of_def
      split: jslimit.splits) (cases "maxRoomSize cfg"; simp)

section \<open>Every operation keeps the invariant\<close>

definition side_same :: "rm \<Rightarrow> rm \<Rightarrow> bool" where
  "side_same s s' \<longleftrightarrow> same_delivery s s' \<and> rm_ackState s = rm_ackState s'"

lemma side_same_trans: "side_same s s' \<Longrightarrow> side_same s' s'' \<Longrightarrow> side_same s s''"
  by (simp add: side_same_def same_delivery_def)

lemma side_same_steps [simp]:
  "side_same s s"
  "side_same (ensureRoom r s) s"
  "side_same (add_member c r ws s) s"
  "side_same (ensureClientState c ws s) s"
  "side_same (checkCircuitBreaker cfg h s) s"
  "side_same (cleanupClientState c s) s"
  "side_same (leave_room c r s) s"
  "side_same (leave_index c r s) s"
  "side_same (drop_from_room c r s) s"
  "side_same (move_room old new r s) s"
  by (simp_all add: side_same_def same_delivery_def ensureRoom_def add_member_def ensureClientRooms_def
      ensureClientState_def checkCircuitBreaker_def cleanupClientState_def clearTimer_def leave_room_def
      cleanupRoom_def leave_index_def cleanupClient_def drop_from_room_def move_room_def Let_def
      split: option.split)

lemma side_same_fold: "(\<And>x s. side_same (f x s) s) \<Longrightarrow> side_same (fold f xs s) s"
  by (induction xs arbitrary: s) (auto intro: side_same_trans)

lemma join_member_side: "side_same (snd (join_member cfg h c r ws s)) s"
proof -
  let ?s0 = "if cbEnabled cfg then checkCircuitBreaker cfg h s else s"
  have "side_same ?s0 s" by simp
  moreover have "side_same (snd (join_member cfg h c r ws s)) ?s0"
    by (auto simp: join_member_def Let_def split: option.split intro: side_same_trans [OF side_same_steps(4)])
  ultimately show ?thesis by (rule side_same_trans [rotated])
qed

lemma side_sameD: "side_same s s' \<Longrightarrow> same_delivery s s' \<and> acks_from s s'"
  by (simp add: side_same_def acks_from_def ack_of_def)

lemma leave_member_side:
  "same_delivery (leave_member cfg c r s) s" "acks_from (leave_member cfg c r s) s"
proof -
  define t where "t = (let s2 = leave_index c r (leave_room c r s)
    in if bpEnabled cfg \<and> rooms_of s2 c = [] then cleanupClientState c s2 else s2)"
  have "side_same (leave_index c r (leave_room c r s)) s"
    using side_same_trans side_same_steps(7,8) by blast
  then have "side_same t s"
    using side_same_trans [OF side_same_steps(6)] unfolding t_def Let_def by (auto split: if_split)
  moreover have "leave_member cfg c r s = (if ackWindowSize cfg \<noteq> Infinity then leave_ack c r t else t)"
    by (simp add: leave_member_def t_def Let_def)
  moreover have "same_delivery (leave_ack c r t) t" "acks_from (leave_ack c r t) t"
    by (auto simp: leave_ack_def same_delivery_def acks_from_def ack_of_def Let_def split: option.splits)
  ultimately show "same_delivery (leave_member cfg c r s) s" "acks_from (leave_member cfg c r s) s"
    using side_sameD [of t s] same_delivery_trans [of _ t s] acks_from_trans [of _ t s] by simp_all
qed

lemma disconnect_member_side:
  "same_delivery (disconnect_member cfg c s) s" "acks_from (disconnect_member cfg c s) s"
proof -
  have "side_same (fold (drop_from_room c) rs (s\<lparr>rm_totalMembers := n\<rparr>)) (s\<lparr>rm_totalMembers := n\<rparr>)" for rs n
    by (rule side_same_fold) simp
  then have base: "side_same (fold (drop_from_room c) rs (s\<lparr>rm_totalMembers := n\<rparr>)) s" for rs n
    by (simp add: side_same_def same_delivery_def)
  define t where "t = (case js_get (rm_clientRooms s) c of None \<Rightarrow> s
      | Some rs \<Rightarrow> (let s' = fold (drop_from_room c) rs
                          (s\<lparr>rm_totalMembers := rm_totalMembers s - int (length rs)\<rparr>)
                     in s'\<lparr>rm_clientRooms := js_delete c (rm_clientRooms s')\<rparr>))"
  have "side_same t s"
    using base by (simp add: t_def Let_def side_same_def same_delivery_def split: option.split)
  then have "side_same (if bpEnabled cfg then cleanupClientState c t else t) s"
    using side_same_trans [OF side_same_steps(6)] by auto
  moreover have "disconnect_member cfg c s =
      cleanupAckState c (if bpEnabled cfg then cleanupClientState c t else t)"
    by (simp add: disconnect_member_def t_def Let_def)
  ultimately show "same_delivery (disconnect_member cfg c s) s" "acks_from (disconnect_member cfg c s) s"
    by (simp_all only: side_same_def) (simp_all add: cleanupAckState_def same_delivery_def acks_from_def ack_of_def)
qed

lemma rename_member_side: "side_same (rename_member cfg old new s) s"
proof -
  have "side_same (fold (move_room old new) rs (ensureClientRooms new s)) (ensureClientRooms new s)" for rs
    by (rule side_same_fold) simp
  then have "side_same (fold (move_room old new) rs (ensureClientRooms new s)) s" for rs
    by (simp add: side_same_def same_delivery_def ensureClientRooms_def)
  then show ?thesis
    by (auto simp: rename_member_def Let_def side_same_def same_delivery_def split: option.split)
qed

lemma rm_inv_intro:
  assumes "rm_inv cfg s" and "member_inv s'" and "rooms_limited cfg s'" and "same_delivery s' s" and "acks_from s' s"
  shows "rm_inv cfg s'"
  using assms same_deliveryD [OF assms(4)] acks_from_ok [OF assms(5)] by (auto simp: rm_inv_def)

lemma rm_inv_delivery:
  assumes "rm_inv cfg s" and "delivery_only s' s" and "ack_ok cfg s'"
  shows "rm_inv cfg s'"
proof -
  have same: "same_membership s' s" and "same_delivery s' s"
    using assms(2) by (auto simp: delivery_only_def same_delivery_def)
  then show ?thesis
    using assms(1,3) same_deliveryD [of s' s] same_membershipD(1) [OF same] same_membership_limited(1) [OF same]
    by (auto simp: rm_inv_def)
qed

lemma broadcast_room_inv:
  assumes "rm_inv cfg s"
  shows "rm_inv cfg (snd (broadcast_room cfg now msgId parse ready r m ex s))"
proof (cases "fst (isDuplicate cfg now parse r m ex s)")
  case True
  then show ?thesis using assms by (simp add: broadcast_room_cases)
next
  case False
  let ?s1 = "snd (isDuplicate cfg now parse r m ex s)"
  let ?s2 = "record_entry cfg now msgId parse r m ?s1"
  have acks: "rm_ackState ?s2 = rm_ackState s"
    using isDuplicate_state [of cfg now parse r m ex s]
    by (auto simp: record_entry_def Let_def case_prod_beta)
  have same: "same_membership ?s2 s"
    using record_entry_other(2) isDuplicate_views(4) same_membership_trans by blast
  have "ring_ok cfg ?s1 q" for q
    using assms by (simp add: rm_inv_def ring_ok_def isDuplicate_views)
  then have ring: "ring_ok cfg ?s2 q" for q by (intro record_entry_ring)
  have ok: "ack_ok cfg ?s2" using assms acks by (simp add: rm_inv_def ack_ok_def ack_of_def)
  have inv: "rm_inv cfg ?s2"
    using assms same_membershipD(1) [OF same] same_membership_limited(1) [OF same] ring ok
      isDuplicate_dedup_ok [of cfg s now parse r m ex]
    by (simp add: rm_inv_def dedup_ok_def record_entry_other)
  have "ack_ok cfg (snd (broadcast_room cfg now msgId parse ready r m ex s))"
    using False ok by (simp add: broadcast_room_cases Let_def deliver_plain_ok split: option.split)
  with inv False broadcast_room_state [of cfg now parse r m ex s msgId ready] show ?thesis
    using rm_inv_delivery by presburger
qed

lemma op_invs:
  assumes "valid_config cfg" and inv: "rm_inv cfg s"
  shows "rm_inv cfg (snd (join_member cfg h c r ws s))" and "rm_inv cfg (leave_member cfg c r s)"
    and "rm_inv cfg (disconnect_member cfg c s)" and "rm_inv cfg (rename_member cfg old new s)"
    and "rm_inv cfg (snd (processBatch cfg ready buffered now room jb s))"
    and "rm_inv cfg (snd (slow_timeout_fires ready tid s))" and "rm_inv cfg (ack_member cfg c r seq s)"
proof -
  have sane: "sane cfg" and mem: "member_inv s" and lim: "rooms_limited cfg s" and wf: "wf_rm s"
    and ix: "indexed s" and ok: "ack_ok cfg s"
    using assms by (auto simp: valid_config_def rm_inv_def member_inv_def)
  show "rm_inv cfg (snd (join_member cfg h c r ws s))"
    using rm_inv_intro [OF inv join_member_inv [OF mem sane] join_member_limited(1) [OF wf sane lim]]
      side_sameD [OF join_member_side] by blast
  show "rm_inv cfg (leave_member cfg c r s)"
    by (rule rm_inv_intro [OF inv leave_member_inv [OF mem] leave_member_limited(1) [OF lim] leave_member_side])
  show "rm_inv cfg (disconnect_member cfg c s)"
    by (rule rm_inv_intro [OF inv disconnect_member_inv [OF mem] disconnect_member_limited(1) [OF ix lim]
          disconnect_member_side])
  show "rm_inv cfg (rename_member cfg old new s)"
    using rm_inv_intro [OF inv rename_member_inv [OF mem] rename_member_limited [OF mem lim]]
      side_sameD [OF rename_member_side] by blast
  show "rm_inv cfg (snd (processBatch cfg ready buffered now room jb s))"
    by (rule rm_inv_delivery [OF inv processBatch_steps(1) processBatch_steps(2) [OF ok]])
  have "quiet (snd (slow_timeout_fires ready tid s)) s" by (rule timeout_quiet)
  then show "rm_inv cfg (snd (slow_timeout_fires ready tid s))"
    using rm_inv_delivery [OF inv] quiet_ack_ok ok unfolding quiet_def by blast
  have "delivery_only (ack_member cfg c r seq s) s"
    by (simp add: ack_member_def setAckState_def delivery_only_def same_membership_def Let_def)
  then show "rm_inv cfg (ack_member cfg c r seq s)"
    by (rule rm_inv_delivery [OF inv _ ack_member_ok [OF ok]])
qed

section \<open>The state machine\<close>

inductive rm_step :: "rm_config \<Rightarrow> rm \<Rightarrow> rm \<Rightarrow> bool" for cfg where
  s_join: "join cfg heapUsed (Some c) (Some r) (Some ws) s = Inr (res, s') \<Longrightarrow> rm_step cfg s s'"
| s_leave: "leave cfg (Some c) (Some r) s = Inr s' \<Longrightarrow> rm_step cfg s s'"
| s_disconnect: "disconnect cfg (Some c) s = Inr s' \<Longrightarrow> rm_step cfg s s'"
| s_update: "updateClientId cfg (Some old) (Some new) s = Inr s' \<Longrightarrow> rm_step cfg s s'"
| s_broadcast: "broadcast cfg now msgId parse ready (Some r) m ex s = Inr (acts, s') \<Longrightarrow> rm_step cfg s s'"
| s_batch: "processBatch cfg ready buffered now room jb s = (acts, s') \<Longrightarrow> rm_step cfg s s'"
| s_timeout: "slow_timeout_fires ready tid s = (acts, s') \<Longrightarrow> rm_step cfg s s'"
| s_ack: "ack cfg (Some c) (Some r) (Some seq) s = Inr s' \<Longrightarrow> rm_step cfg s s'"

inductive_cases rm_stepE: "rm_step cfg s s'"

definition rm_reachable :: "rm_config \<Rightarrow> rm \<Rightarrow> bool" where
  "rm_reachable cfg s \<longleftrightarrow> (rm_step cfg)\<^sup>*\<^sup>* rm_init s"

lemma rm_step_inv:
  assumes "rm_step cfg s s'" and "valid_config cfg" and inv: "rm_inv cfg s"
  shows "rm_inv cfg s'"
  using assms(1)
proof cases
  case (s_join h c r ws res)
  then show ?thesis using op_invs(1) [OF assms(2) inv, of h c r ws] by (simp add: join_def)
next
  case (s_broadcast now msgId parse ready r m ex acts)
  then show ?thesis
    using broadcast_room_inv [OF inv, of now msgId parse ready r m ex] by (simp add: broadcast_def)
next
  case (s_batch ready buffered now room jb acts)
  then show ?thesis using op_invs(5) [OF assms(2) inv, of ready buffered now room jb] by simp
next
  case (s_timeout ready tid acts)
  then show ?thesis using op_invs(6) [OF assms(2) inv, of ready tid] by simp
qed (use op_invs(2-4,7) [OF assms(2) inv] in
  \<open>auto simp: leave_def disconnect_def updateClientId_def ack_def\<close>)

lemma rm_reachable_inv: "rm_reachable cfg s \<Longrightarrow> valid_config cfg \<Longrightarrow> rm_inv cfg s"
  unfolding rm_reachable_def
  by (induction rule: rtranclp_induct) (auto intro: rm_init_inv rm_step_inv)

end
