(* ===== verification/RoomProperties.thy ===== *)
theory RoomProperties
  imports RoomMachine
begin

text \<open>
  The guarantees of \<open>src/room-manager.js\<close>, stated over the reachable states of the machine of
  \<open>RoomMachine\<close> and over its operations, each with a concrete run that satisfies its hypotheses.
\<close>

section \<open>Runs\<close>

lemma reachable_init [simp]: "rm_reachable cfg rm_init"
  by (simp add: rm_reachable_def)

lemma reachable_step: "rm_reachable cfg s \<Longrightarrow> rm_step cfg s s' \<Longrightarrow> rm_reachable cfg s'"
  unfolding rm_reachable_def by (rule rtranclp.rtrancl_into_rtrancl)

lemma reachable_join [intro]:
  "rm_reachable cfg s \<Longrightarrow> rm_reachable cfg (snd (join_member cfg h c r ws s))"
  by (erule reachable_step, rule s_join [of _ h c r ws _ "fst (join_member cfg h c r ws s)"])
    (simp add: join_def)

lemma reachable_broadcast [intro]:
  "rm_reachable cfg s \<Longrightarrow> rm_reachable cfg (snd (broadcast_room cfg now msgId parse ready r m ex s))"
  by (erule reachable_step, rule s_broadcast [of _ now msgId parse ready r m ex _
        "fst (broadcast_room cfg now msgId parse ready r m ex s)"]) (simp add: broadcast_def)

text \<open>Two clients in one room, and one message sent by the first.\<close>

definition two_in_room :: rm where
  "two_in_room = snd (join_member default_config 0 ''b'' ''x'' 2
     (snd (join_member default_config 0 ''a'' ''x'' 1 rm_init)))"

definition after_hello :: rm where
  "after_hello = snd (broadcast_room default_config 7 ''id'' (\<lambda>_. None) (\<lambda>_. True) ''x''
     (MText ''hello'') (Some ''a'') two_in_room)"

lemma default_valid [simp]: "valid_config default_config"
  by (simp add: valid_config_def default_config_def sane_def)

lemma two_in_room_reachable [simp]: "rm_reachable default_config two_in_room"
  unfolding two_in_room_def by (intro reachable_join reachable_init)

lemma after_hello_reachable [simp]: "rm_reachable default_config after_hello"
  unfolding after_hello_def by (intro reachable_broadcast two_in_room_reachable)

lemma two_in_room_eval:
  "rm_rooms two_in_room = [(''x'', [(''a'', 1), (''b'', 2)])]"
  "rm_clientRooms two_in_room = [(''a'', [''x'']), (''b'', [''x''])]"
  "rm_totalMembers two_in_room = 2"
  "rm_dedupCache two_in_room = []"
  by (code_simp)+

section \<open>Membership\<close>

text \<open>
  C1. In every reachable state the reverse index lists exactly the rooms a client is a member of,
  no empty room and no client without rooms is kept, and the configured ceilings on the number of
  rooms and on the size of a room hold, whatever sequence of joins, leaves, disconnects, identity
  changes, broadcasts, timers and acknowledgements led there.
\<close>

theorem rooms_consistent:
  assumes "rm_reachable cfg s" and "valid_config cfg"
  shows "(r \<in> set (getClientRooms s c) \<longleftrightarrow> membership_of s c r \<noteq> None)
    \<and> js_get (rm_rooms s) r \<noteq> Some [] \<and> js_get (rm_clientRooms s) c \<noteq> Some []
    \<and> within (int (getRoomSize s r)) (maxRoomSize cfg)
    \<and> within (int (getRoomSize s r)) (maxMembersPerRoom cfg)
    \<and> within (int (roomCount (stats s))) (maxRooms cfg)"
proof (intro conjI)
  have mem: "member_inv s" and lim: "rooms_limited cfg s"
    using rm_reachable_inv [OF assms] by (auto simp: rm_inv_def)
  show "r \<in> set (getClientRooms s c) \<longleftrightarrow> membership_of s c r \<noteq> None"
    using member_inv_rooms_iff [OF mem] by (simp only: getClientRooms_def)
  have "wf_rm s" using mem by (simp add: member_inv_def)
  then show "js_get (rm_rooms s) r \<noteq> Some []" "js_get (rm_clientRooms s) c \<noteq> Some []"
    unfolding wf_rm_def good_rooms_def good_index_def by blast+
  show "within (int (getRoomSize s r)) (maxRoomSize cfg)"
    and "within (int (getRoomSize s r)) (maxMembersPerRoom cfg)"
    and "within (int (roomCount (stats s))) (maxRooms cfg)"
    using lim by (simp_all add: rooms_limited_def getRoomSize_def stats_def)
qed

theorem rooms_consistent_witness:
  "rm_reachable default_config two_in_room \<and> valid_config default_config \<and>
   (''x'' \<in> set (getClientRooms two_in_room ''b'') \<longleftrightarrow> membership_of two_in_room ''b'' ''x'' \<noteq> None)
   \<and> membership_of two_in_room ''b'' ''x'' = Some 2"
  using rooms_consistent [OF two_in_room_reachable default_valid, of "''x''" "''b''"]
  by (simp add: membership_of_def room_of_def two_in_room_eval)

text \<open>
  C39. \<open>join\<close> refines the abstract membership: it registers exactly the pair it was given when it
  reports success and changes no membership otherwise; it succeeds exactly when the breaker is not
  open after reading the heap and none of the four ceilings stops a client that is not yet a member.
\<close>

theorem join_refines:
  assumes "rm_reachable cfg s" and "valid_config cfg"
    and s0: "s0 = (if cbEnabled cfg then checkCircuitBreaker cfg h s else s)"
  shows "membership_of (snd (join_member cfg h c r ws s)) =
     (if accepted (fst (join_member cfg h c r ws s))
      then (membership_of s)(c := (membership_of s c)(r := Some ws)) else membership_of s) \<and>
    (accepted (fst (join_member cfg h c r ws s)) \<longleftrightarrow>
      \<not> (cbEnabled cfg \<and> rm_breaker s0 = OPEN) \<and>
      (membership_of s c r \<noteq> None \<or>
        \<not> reaches (int (length (getClientRooms s c))) (maxRoomsPerClient cfg) \<and>
        \<not> reaches (int (getRoomSize s r)) (maxMembersPerRoom cfg) \<and>
        \<not> reaches (int (getRoomSize s r)) (maxRoomSize cfg) \<and>
        (getRoomSize s r = 0 \<longrightarrow> \<not> reaches (int (roomCount (stats s))) (maxRooms cfg))))"
proof (rule conjI)
  have mem: "member_inv s" and sane: "sane cfg"
    using rm_reachable_inv [OF assms(1,2)] assms(2) by (auto simp: rm_inv_def valid_config_def)
  show "membership_of (snd (join_member cfg h c r ws s)) =
     (if accepted (fst (join_member cfg h c r ws s))
      then (membership_of s)(c := (membership_of s c)(r := Some ws)) else membership_of s)"
    by (rule membership_join [OF mem sane])
  have same: "same_membership s0 s" by (simp add: s0)
  have rooms: "rm_rooms s0 = rm_rooms s" using same by (simp add: same_membership_def)
  have idx: "r \<in> set (rooms_of s c) \<longleftrightarrow> js_get (room_of s r) c \<noteq> None"
    using mem by (simp only: member_inv_def indexed_def)
  have empty: "js_get (rm_rooms s) r = None \<longleftrightarrow> room_of s r = []"
    using mem by (simp add: room_of_empty member_inv_def)
  have acc: "accepted (fst (join_member cfg h c r ws s)) \<longleftrightarrow> join_rejection cfg c r s0 = None \<and>
      \<not> (js_get (room_of s r) c = None \<and> reaches (int (length (room_of s r))) (maxRoomSize cfg))"
    using join_rejection_not_accepted [of cfg c r s0] same_membershipD(3) [OF same]
    by (auto simp: join_member_def s0 [symmetric] Let_def accepted_def split: option.split)
  show "accepted (fst (join_member cfg h c r ws s)) \<longleftrightarrow>
      \<not> (cbEnabled cfg \<and> rm_breaker s0 = OPEN) \<and>
      (membership_of s c r \<noteq> None \<or>
        \<not> reaches (int (length (getClientRooms s c))) (maxRoomsPerClient cfg) \<and>
        \<not> reaches (int (getRoomSize s r)) (maxMembersPerRoom cfg) \<and>
        \<not> reaches (int (getRoomSize s r)) (maxRoomSize cfg) \<and>
        (getRoomSize s r = 0 \<longrightarrow> \<not> reaches (int (roomCount (stats s))) (maxRooms cfg)))"
    unfolding acc join_rejection_def same_membershipD(3,4) [OF same] rooms empty idx
      membership_of_def getClientRooms_def getRoomSize_def stats_def
    by (cases "js_get (room_of s r) c"; cases "maxRoomsPerClient cfg"; cases "maxMembersPerRoom cfg";
        cases "maxRooms cfg"; auto)
qed

theorem join_refines_witness:
  "accepted (fst (join_member default_config 0 ''c'' ''x'' 3 two_in_room)) \<and>
   membership_of (snd (join_member default_config 0 ''c'' ''x'' 3 two_in_room)) ''c'' ''x'' = Some 3"
proof -
  have "two_in_room = (if cbEnabled default_config then checkCircuitBreaker default_config 0 two_in_room
      else two_in_room)" by (simp add: default_config_def)
  from join_refines [OF two_in_room_reachable default_valid this, of "''c''" "''x''" 3]
  show ?thesis by (simp add: default_config_def)
qed

text \<open>
  \<open>totalMembers\<close> counts the memberships exactly as long as clients join, leave and disconnect.
  An identity change (\<open>updateClientId\<close>) keeps the counter although it merges two members of a
  room into one, so the counter then exceeds the memberships by the number of rooms the two
  identities shared.
\<close>

theorem total_members:
  assumes "rm_reachable cfg s" and "valid_config cfg" and "rm_totalMembers s = size_sum (rm_rooms s)"
  shows "rm_totalMembers (snd (join_member cfg h c r ws s)) = size_sum (rm_rooms (snd (join_member cfg h c r ws s)))
    \<and> rm_totalMembers (leave_member cfg c r s) = size_sum (rm_rooms (leave_member cfg c r s))
    \<and> rm_totalMembers (disconnect_member cfg c s) = size_sum (rm_rooms (disconnect_member cfg c s))
    \<and> (c \<noteq> c' \<longrightarrow> rm_totalMembers (rename_member cfg c c' s) = size_sum (rm_rooms (rename_member cfg c c' s))
        + int (length (filter (\<lambda>r. r \<in> set (getClientRooms s c')) (getClientRooms s c))))"
proof -
  have "member_inv s" and "sane cfg" and "counted s"
    using rm_reachable_inv [OF assms(1,2)] assms(2,3) by (auto simp: rm_inv_def valid_config_def counted_def)
  then show ?thesis
    using join_member_counted leave_member_counted disconnect_member_counted rename_member_total
    by (simp add: counted_def getClientRooms_def)
qed

theorem total_members_witness:
  "rm_totalMembers (rename_member default_config ''a'' ''b'' two_in_room) = 2
   \<and> size_sum (rm_rooms (rename_member default_config ''a'' ''b'' two_in_room)) = 1"
proof -
  have count: "rm_totalMembers two_in_room = size_sum (rm_rooms two_in_room)"
    by (simp add: two_in_room_eval)
  have "rm_rooms (rename_member default_config ''a'' ''b'' two_in_room) = [(''x'', [(''b'', 1)])]"
    by code_simp
  then show ?thesis
    using total_members [OF two_in_room_reachable default_valid count, of 0 "''a''" _ 0 "''b''"]
    by (simp add: getClientRooms_def rooms_of_def two_in_room_eval)
qed

text \<open>
  Disconnecting a client is the same, for every observer of the membership, as leaving each of
  its rooms in turn; afterwards it has no room and no acknowledgement state, and no other client is
  affected.
\<close>

theorem disconnect_forgets:
  assumes "rm_reachable cfg s" and "valid_config cfg"
  shows "membership_of (fold (leave_member cfg c) (getClientRooms s c) s) = membership_of (disconnect_member cfg c s)
    \<and> getClientRooms (disconnect_member cfg c s) c = []
    \<and> js_get (rm_ackState (disconnect_member cfg c s)) c = None
    \<and> (c' \<noteq> c \<longrightarrow> membership_of (disconnect_member cfg c s) c' = membership_of s c')"
proof -
  have inv: "member_inv s" using rm_reachable_inv [OF assms] by (simp add: rm_inv_def)
  have "js_get (rm_ackState (disconnect_member cfg c s)) c = None"
    by (simp add: disconnect_member_def cleanupAckState_def Let_def)
  moreover have "c' \<noteq> c \<longrightarrow> membership_of (disconnect_member cfg c s) c' = membership_of s c'"
    by (simp add: membership_disconnect [OF inv] fun_eq_iff)
  ultimately show ?thesis
    using rooms.leave_all_is_drop [OF inv] rooms.rooms_drop [OF inv] by (simp add: getClientRooms_def)
qed

theorem disconnect_forgets_witness:
  "membership_of (disconnect_member default_config ''a'' two_in_room) ''b'' ''x'' = Some 2
   \<and> getClientRooms (disconnect_member default_config ''a'' two_in_room) ''a'' = []"
  using disconnect_forgets [OF two_in_room_reachable default_valid, of "''a''" "''b''"]
  by (simp add: membership_of_def room_of_def two_in_room_eval)

text \<open>
  An identity change moves every membership of the old identity, with its socket, to the new
  one, leaves the old identity without rooms, keeps the memberships the new identity already had
  in other rooms, and does not touch anyone else.
\<close>

theorem update_client_id_moves:
  assumes "rm_reachable cfg s" and "valid_config cfg" and "old \<noteq> new"
  shows "membership_of (rename_member cfg old new s) c r =
     (if c = old then None
      else if c = new \<and> membership_of s old r \<noteq> None then membership_of s old r
      else membership_of s c r)
    \<and> set (getClientRooms (rename_member cfg old new s) new) =
       set (getClientRooms s old) \<union> set (getClientRooms s new)"
proof -
  have inv: "member_inv s" using rm_reachable_inv [OF assms(1,2)] by (simp add: rm_inv_def)
  then show ?thesis
    using membership_rename [OF inv assms(3)] rename_member_views(2) [OF inv assms(3)] assms(3)
    by (simp add: getClientRooms_def)
qed

theorem update_client_id_moves_witness:
  "membership_of (rename_member default_config ''a'' ''c'' two_in_room) ''c'' ''x'' = Some 1"
  using update_client_id_moves [OF two_in_room_reachable default_valid, of "''a''" "''c''" "''c''" "''x''"]
  by (simp add: membership_of_def room_of_def two_in_room_eval)

section \<open>Delivery\<close>

text \<open>
  C38. The ring buffer of a room always holds the latest messages without a hole: their sequence
  numbers are consecutive and end with the room's counter, there are at most \<open>ringBufferSize\<close> of
  them, they take at most \<open>maxBufferBytes\<close>, and the recorded size is the real one.
\<close>

theorem ring_buffer_contiguous:
  assumes "rm_reachable cfg s" and "valid_config cfg"
  shows "let b = getRingBuffer s r; n = getRoomSeq s r
    in map e_seq b = [n - int (length b) + 1..n]
       \<and> (b \<noteq> [] \<longrightarrow> int (length b) \<le> ringBufferSize cfg \<and> bytes_sum b \<le> maxBufferBytes cfg)
       \<and> (case js_get (rm_roomBufferBytes s) r of None \<Rightarrow> 0 | Some k \<Rightarrow> k) = bytes_sum b"
proof -
  have "ring_ok cfg s r" using rm_reachable_inv [OF assms] by (simp add: rm_inv_def)
  then show ?thesis by (auto simp: ring_ok_def fits_def room_bytes_def Let_def)
qed

lemma after_hello_eval:
  "map e_seq (getRingBuffer after_hello ''x'') = [1]" "getRoomSeq after_hello ''x'' = 1"
  by code_simp+

theorem ring_buffer_contiguous_witness:
  "rm_reachable default_config after_hello \<and> valid_config default_config \<and>
   map e_seq (getRingBuffer after_hello ''x'') = [1..1]"
proof -
  have "length (map e_seq (getRingBuffer after_hello ''x'')) = 1" by (simp only: after_hello_eval) simp
  then show ?thesis
    using ring_buffer_contiguous [OF after_hello_reachable default_valid, of "''x''"]
    by (simp add: Let_def after_hello_eval)
qed

text \<open>
  A broadcast appends one message with the next sequence number and keeps the longest run of
  latest messages that fits both bounds (the eviction loop is equal to that reference); the
  buffers of other rooms do not change. A duplicate changes nothing.
\<close>

theorem broadcast_records:
  assumes "rm_reachable cfg s" and "valid_config cfg"
  shows "let s' = snd (broadcast_room cfg now msgId parse ready r m ex s);
             b = getRingBuffer s r @ [new_entry now msgId parse r m s]
    in if fst (isDuplicate cfg now parse r m ex s) then s' = s
       else getRoomSeq s' = (getRoomSeq s)(r := getRoomSeq s r + 1)
         \<and> getRingBuffer s' = (getRingBuffer s)(r := longest_fitting cfg b)
         \<and> fits cfg (longest_fitting cfg b)
         \<and> (\<forall>k. fits cfg (drop k b) \<longrightarrow> length (drop k b) \<le> length (getRingBuffer s' r))"
proof -
  have "ring_ok cfg s r" using rm_reachable_inv [OF assms] by (simp add: rm_inv_def)
  then have bytes: "room_bytes (snd (isDuplicate cfg now parse r m ex s)) r =
      bytes_sum (getRingBuffer (snd (isDuplicate cfg now parse r m ex s)) r)"
    by (simp add: ring_ok_def isDuplicate_views)
  let ?s' = "snd (broadcast_room cfg now msgId parse ready r m ex s)"
  let ?s2 = "record_entry cfg now msgId parse r m (snd (isDuplicate cfg now parse r m ex s))"
  have "getRoomSeq ?s' = getRoomSeq ?s2 \<and> getRingBuffer ?s' = getRingBuffer ?s2"
    if "\<not> fst (isDuplicate cfg now parse r m ex s)"
    using broadcast_room_state [of cfg now parse r m ex s msgId ready] that
    by (simp add: delivery_only_def getRoomSeq_def getRingBuffer_def fun_eq_iff)
  moreover have "new_entry now msgId parse r m (snd (isDuplicate cfg now parse r m ex s)) =
      new_entry now msgId parse r m s" by (simp add: new_entry_def isDuplicate_views)
  ultimately show ?thesis
    using broadcast_room_state [of cfg now parse r m ex s msgId ready] longest_fitting_maximal
    by (simp add: Let_def record_entry_views [OF bytes] isDuplicate_views del: drop_append length_append length_drop)
qed

theorem broadcast_records_witness:
  "getRoomSeq (snd (broadcast_room default_config 8 ''id2'' (\<lambda>_. None) (\<lambda>_. True) ''x''
     (MText ''again'') None after_hello)) ''x'' = 2"
proof -
  have "\<not> fst (isDuplicate default_config 8 (\<lambda>_. None) ''x'' (MText ''again'') None after_hello)"
    by (simp add: isDuplicate_def dedup_key_def message_json_def)
  then show ?thesis
    using broadcast_records [OF after_hello_reachable default_valid,
        of 8 "''id2''" "\<lambda>_. None" "\<lambda>_. True" "''x''" "MText ''again''" None]
    by (simp add: Let_def after_hello_eval)
qed

text \<open>
  C6. \<open>handleReconnect\<close> is exact. It answers \<open>replay_complete\<close> when the client has everything; it
  replays when the first missing message is still buffered, and then the messages sent are the
  consecutive run from the first missing one to the current one; in every other case (the first
  missing message was evicted, or the client claims a future sequence number) it reports a gap.
\<close>

theorem reconnect_exact:
  assumes "rm_reachable cfg s" and "valid_config cfg" and f: "f = replay_from lastSeq hi"
  shows "case handleReconnect s r lastSeq hi of
      Replay_complete r' \<Rightarrow> r' = r \<and> f = getRoomSeq s r
    | Replay r' msgs cur \<Rightarrow> r' = r \<and> cur = getRoomSeq s r \<and> map e_seq msgs = [f + 1..cur]
        \<and> set msgs \<subseteq> set (getRingBuffer s r)
    | Replay_gap r' oldest cur \<Rightarrow> r' = r \<and> cur = getRoomSeq s r \<and> f \<noteq> cur
        \<and> (\<forall>e\<in>set (getRingBuffer s r). e_seq e \<noteq> f + 1)"
proof -
  have ring: "ring_ok cfg s r" using rm_reachable_inv [OF assms(1,2)] by (simp add: rm_inv_def)
  show ?thesis
    unfolding handleReconnect_cases [OF ring, of lastSeq hi] f [symmetric]
    using replayed_seqs [OF ring, of f] by (auto simp: image_iff)
qed

theorem reconnect_exact_witness:
  "map e_seq (case handleReconnect after_hello ''x'' 0 None of Replay _ msgs _ \<Rightarrow> msgs | _ \<Rightarrow> []) = [0 + 1..1]"
proof -
  obtain e where e: "getRingBuffer after_hello ''x'' = [e]" "e_seq e = 1"
    using after_hello_eval(1) by auto
  have "handleReconnect after_hello ''x'' 0 None = Replay ''x'' [e] 1"
    by (simp add: handleReconnect_def e after_hello_eval)
  then show ?thesis
    using reconnect_exact [OF after_hello_reachable default_valid, of 0 0 None "''x''"]
    by (simp add: replay_from_def after_hello_eval)
qed

text \<open>
  Exactly-once within the window: once a location update was broadcast at time \<open>t\<close> under a
  key that was not cached, a second broadcast with the same key (room, client, timestamp) no later
  than \<open>deduplicationWindowMs\<close> after it has no effect at all, whatever other broadcasts happened
  in between, as long as they are fewer than \<open>maxDedupEntries\<close> and inside the same window.
\<close>

theorem repeated_update_dropped:
  assumes "rm_reachable cfg s" and "valid_config cfg" and "maxDedupEntries cfg \<ge> 2"
    and "dedup_key parse r m ex = Some key" and "js_get (rm_dedupCache s) key = None"
    and "int (length calls) < maxDedupEntries cfg"
    and "\<forall>call\<in>set calls. fst call \<le> t + deduplicationWindowMs cfg"
    and "dedup_key parse r' m' ex' = Some key" and "t' \<le> t + deduplicationWindowMs cfg"
  shows "let s' = fold (bcast cfg parse ready) ((t, msgId, r, m, ex) # calls) s
    in broadcast_room cfg t' msgId' parse ready r' m' ex' s' = ([], s')"
proof -
  have ok: "wf_map (rm_dedupCache s)" "int (length (rm_dedupCache s)) \<le> maxDedupEntries cfg"
    using rm_reachable_inv [OF assms(1,2)] assms(3) by (auto simp: rm_inv_def dedup_ok_def)
  let ?s1 = "bcast cfg parse ready (t, msgId, r, m, ex) s"
  have c1: "rm_dedupCache ?s1 = remember_key (maxDedupEntries cfg) key t (rm_dedupCache s)"
    using assms(4,5) by (simp add: bcast_def broadcast_room_dedup isDuplicate_def)
  obtain xs where "rm_dedupCache ?s1 = xs @ [(key, t)]"
    using remember_fresh_key [OF ok(1) assms(5,3) ok(2)] c1 by auto
  moreover have "wf_map (rm_dedupCache ?s1)" unfolding c1 by (rule remember_key_bound(1) [OF ok(1)])
  ultimately have "js_get (rm_dedupCache (fold (bcast cfg parse ready) calls ?s1)) key = Some t"
    using assms(6,7) by (intro bcasts_keep_cached [of _ xs _ _ "[]"]) simp_all
  then have "isDuplicate cfg t' parse r' m' ex' (fold (bcast cfg parse ready) calls ?s1) =
      (True, fold (bcast cfg parse ready) calls ?s1)"
    using assms(8,9) by (intro isDuplicate_cached) auto
  then show ?thesis by (simp add: Let_def broadcast_room_cases)
qed

definition a_location :: message where
  "a_location = MJson (JObj [(''type'', JStr ''location_update''),
     (''payload'', JObj [(''clientId'', JStr ''a''), (''timestamp'', JNum ''42'')])])"

lemma a_location_key: "dedup_key (\<lambda>_. None) ''x'' a_location None = Some ''x:a:42''"
  by code_simp

theorem repeated_update_dropped_witness:
  "let s' = fold (bcast default_config (\<lambda>_. None) (\<lambda>_. True)) [(10, ''i'', ''x'', a_location, None)] two_in_room
   in broadcast_room default_config 4000 ''j'' (\<lambda>_. None) (\<lambda>_. True) ''x'' a_location None s' = ([], s')"
  using repeated_update_dropped [OF two_in_room_reachable default_valid _ a_location_key, of "[]" 10
      "''x''" a_location None 4000 "\<lambda>_. True" "''i''" "''j''"] a_location_key
  by (simp add: two_in_room_eval default_config_def)

lemma broadcast_plain_sends:
  assumes "rm_inv cfg s" and "\<not> bpEnabled cfg"
    and "\<not> fst (isDuplicate cfg now parse r m ex s)"
  shows "fst (broadcast_room cfg now msgId parse ready r m ex s) =
    map (\<lambda>(c, ws). Send ws (wire_data m)) (filter (receives cfg ready r ex s) (room_of s r))"
proof -
  let ?s1 = "snd (isDuplicate cfg now parse r m ex s)"
  let ?s2 = "record_entry cfg now msgId parse r m ?s1"
  have wf: "wf_map (room_of s r)"
    using assms(1) by (simp add: rm_inv_def member_inv_def)
  have same: "rm_rooms ?s2 = rm_rooms s"
    using record_entry_other(2) isDuplicate_views(4) by (simp add: same_membership_def)
  have "rm_ackState ?s2 = rm_ackState s"
    using isDuplicate_state [of cfg now parse r m ex s] by (auto simp: record_entry_def Let_def case_prod_beta)
  then have recv: "receives cfg ready r ex ?s2 = receives cfg ready r ex s"
    by (simp add: receives_def ack_of_def fun_eq_iff)
  show ?thesis
  proof (cases "js_get (rm_rooms s) r")
    case None
    then show ?thesis using assms(2,3) same by (simp add: broadcast_room_cases Let_def room_of_def)
  next
    case (Some room)
    then have "room_of s r = room" by (simp add: room_of_def)
    with Some wf deliver_plain_sends [of room cfg ready r "wire_data m" ex ?s2] show ?thesis
      using assms(2,3) same recv by (simp add: broadcast_room_cases Let_def)
  qed
qed

text \<open>
  Without backpressure a broadcast that is not a duplicate is sent, with the bytes of the
  message, to exactly the open members of the room other than the excluded sender whose flow
  control gate is open, once each and in the order of the room.
\<close>

theorem broadcast_reaches:
  assumes "rm_reachable cfg s" and "valid_config cfg" and "\<not> bpEnabled cfg"
    and "\<not> fst (isDuplicate cfg now parse r m ex s)"
  shows "fst (broadcast_room cfg now msgId parse ready r m ex s) =
    map (\<lambda>(c, ws). Send ws (wire_data m)) (filter (receives cfg ready r ex s) (room_of s r))"
  using broadcast_plain_sends [OF rm_reachable_inv [OF assms(1,2)] assms(3,4)] .

theorem broadcast_reaches_witness:
  "fst (broadcast_room default_config 7 ''id'' (\<lambda>_. None) (\<lambda>_. True) ''x'' (MText ''hello'') (Some ''a'')
     two_in_room) = [Send 2 ''hello'']"
proof -
  have "\<not> fst (isDuplicate default_config 7 (\<lambda>_. None) ''x'' (MText ''hello'') (Some ''a'') two_in_room)"
    by (simp add: isDuplicate_def dedup_key_def message_json_def)
  from broadcast_reaches [OF two_in_room_reachable default_valid _ this, of "''id''" "\<lambda>_. True"]
  show ?thesis
    by (simp add: room_of_def two_in_room_eval wire_data_def gate_open_def default_config_def)
qed

text \<open>
  Flow control with a positive window \<open>w\<close>: no client ever has more than \<open>w\<close> messages
  unacknowledged in a room, one that has \<open>w\<close> or is paused is not sent anything, and an
  acknowledgement of a new sequence number always reopens the gate.
\<close>

theorem flow_control:
  assumes "rm_reachable cfg s" and "valid_config cfg" and "ackWindowSize cfg = Limit w" and "0 < w"
  shows "0 \<le> unackedCount (ack_of s c r) \<and> unackedCount (ack_of s c r) \<le> w
    \<and> (paused (ack_of s c r) \<or> unackedCount (ack_of s c r) = w \<longrightarrow> \<not> receives cfg ready r ex s (c, ws))
    \<and> (seq > highestAckedSeq (ack_of s c r) \<longrightarrow>
        gate_open cfg (ack_of (ack_member cfg c r seq s) c r)
        \<and> highestAckedSeq (ack_of (ack_member cfg c r seq s) c r) = seq)"
proof -
  have "ack_bounded cfg (ack_of s c r)"
    using rm_reachable_inv [OF assms(1,2)] by (simp add: rm_inv_def ack_ok_def)
  then show ?thesis
    using assms(3,4) by (auto simp: ack_bounded_def gate_open_def ack_member_def ack_update_def Let_def)
qed

definition windowed :: rm_config where
  "windowed = default_config\<lparr>ackWindowSize := Limit 1\<rparr>"

lemma windowed_valid [simp]: "valid_config windowed"
  by (simp add: valid_config_def windowed_def default_config_def sane_def)

definition windowed_run :: rm where
  "windowed_run = snd (broadcast_room windowed 7 ''id'' (\<lambda>_. None) (\<lambda>_. True) ''x'' (MText ''hello'') None
     (snd (join_member windowed 0 ''a'' ''x'' 1 rm_init)))"

lemma windowed_run_reachable: "rm_reachable windowed windowed_run"
  unfolding windowed_run_def by (intro reachable_broadcast reachable_join reachable_init)

theorem flow_control_witness:
  "\<not> receives windowed (\<lambda>_. True) ''x'' None windowed_run (''a'', 1) \<and>
   gate_open windowed (ack_of (ack_member windowed ''a'' ''x'' 1 windowed_run) ''a'' ''x'')"
proof -
  have "unackedCount (ack_of windowed_run ''a'' ''x'') = 1" "highestAckedSeq (ack_of windowed_run ''a'' ''x'') = 0"
    by code_simp+
  moreover have "ackWindowSize windowed = Limit 1" by (simp add: windowed_def)
  ultimately show ?thesis
    using flow_control [OF windowed_run_reachable windowed_valid, of 1 "''a''" "''x''" "\<lambda>_. True" None 1 1]
    by simp
qed

text \<open>
  The backpressure fan-out, spread over event-loop ticks of \<open>batchSize\<close> sends, ends after
  at most \<open>n\<close> ticks when the room has at most \<open>n * batchSize\<close> entries, and sends and records what
  one pass over the whole snapshot followed by one drain of the coalesced messages would.
\<close>

theorem batches_are_one_pass:
  assumes "0 < batchSize cfg" and "length entries \<le> n * batchSize cfg" and "0 < n"
  shows "run_job n cfg ready buffered now room (Job r entries m ex) s =
    Some (let (acts, s1) = bp_entries cfg ready buffered now r m ex entries s;
              (acts', s2) = drainCoalescedMessages ready room s1
          in (acts @ acts', s2))"
  using assms by (rule run_job_one_pass)

definition bp_config :: rm_config where
  "bp_config = default_config\<lparr>bpEnabled := True, batchSize := 1\<rparr>"

theorem batches_are_one_pass_witness:
  "map_option fst (run_job 2 bp_config (\<lambda>_. True) (\<lambda>_. 0) 0 [(''a'', 1), (''b'', 2)]
     (Job ''x'' [(''a'', 1), (''b'', 2)] (MText ''hi'') None) rm_init) = Some [Send 1 ''hi'', Send 2 ''hi'']"
  using batches_are_one_pass [of bp_config "[(''a'', 1), (''b'', 2)]" 2 "\<lambda>_. True" "\<lambda>_. 0" 0
      "[(''a'', 1), (''b'', 2)]" "''x''" "MText ''hi''" None rm_init]
  by (simp add: bp_config_def default_config_def ack_gate_def bp_send_def rm_init_def wire_data_def)

end
