(* ===== verification/Clocks.thy ===== *)
theory Clocks
  imports Json
begin

text \<open>
  The clocks of \<open>src/multi-region.js\<close>: the hybrid logical clock (\<open>HLC\<close>) and the vector clocks
  (\<open>vcIncrement\<close>, \<open>vcMerge\<close>, \<open>vcCompare\<close>), with the order each of them defines. The wall-clock
  reading of \<open>Date.now()\<close> is the argument \<open>wall\<close>; nothing is assumed about it, so a wall clock
  that jumps backwards is included.
\<close>

section \<open>Hybrid logical clock\<close>

record hlc =
  hl :: int
  hc :: int

definition hlc_init :: "int \<Rightarrow> hlc" where
  "hlc_init initialWallMs = \<lparr>hl = initialWallMs, hc = 0\<rparr>"

definition hlc_now :: "int \<Rightarrow> hlc \<Rightarrow> hlc" where
  "hlc_now wall h = (if wall > hl h then \<lparr>hl = wall, hc = 0\<rparr> else h\<lparr>hc := hc h + 1\<rparr>)"

definition hlc_receive :: "int \<Rightarrow> hlc \<Rightarrow> hlc \<Rightarrow> hlc" where
  "hlc_receive wall remote h =
     (if hl remote > hl h \<and> hl remote > wall then \<lparr>hl = hl remote, hc = hc remote + 1\<rparr>
      else if wall > hl h then \<lparr>hl = wall, hc = 0\<rparr>
      else if hl h > hl remote then h\<lparr>hc := hc h + 1\<rparr>
      else h\<lparr>hc := max (hc h) (hc remote) + 1\<rparr>)"

definition hlc_compare :: "hlc \<Rightarrow> hlc \<Rightarrow> int" where
  "hlc_compare a b = (if hl a \<noteq> hl b then hl a - hl b else hc a - hc b)"

lemma hlc_compare_less: "hlc_compare a b < 0 \<longleftrightarrow> (hl a, hc a) < (hl b, hc b)"
  by (auto simp: hlc_compare_def)

lemma hlc_compare_greater: "hlc_compare a b > 0 \<longleftrightarrow> (hl b, hc b) < (hl a, hc a)"
  by (auto simp: hlc_compare_def)

lemma hlc_compare_0: "hlc_compare a b = 0 \<longleftrightarrow> a = b" for a b :: hlc
  by (auto simp: hlc_compare_def)

lemma hlc_compare_swap: "hlc_compare b a = - hlc_compare a b"
  by (simp add: hlc_compare_def)

lemma hlc_compare_trans: "hlc_compare a b < 0 \<Longrightarrow> hlc_compare b c < 0 \<Longrightarrow> hlc_compare a c < 0"
  by (auto simp: hlc_compare_def split: if_splits)

lemma hlc_now_advances: "hlc_compare h (hlc_now wall h) < 0"
  by (simp add: hlc_compare_def hlc_now_def)

lemma hlc_receive_advances: "hlc_compare h (hlc_receive wall remote h) < 0"
  by (auto simp: hlc_compare_def hlc_receive_def)

lemma hlc_receive_after_remote:
  "0 \<le> hc remote \<Longrightarrow> hlc_compare remote (hlc_receive wall remote h) < 0 \<longleftrightarrow>
     \<not> (hl remote = wall \<and> hl h < wall)"
  by (auto simp: hlc_compare_def hlc_receive_def)

datatype hlc_event = Local int | Receive int hlc

fun hlc_step :: "hlc_event \<Rightarrow> hlc \<Rightarrow> hlc" where
  "hlc_step (Local wall) h = hlc_now wall h"
| "hlc_step (Receive wall remote) h = hlc_receive wall remote h"

fun hlc_run :: "hlc_event list \<Rightarrow> hlc \<Rightarrow> hlc list" where
  "hlc_run [] h = []"
| "hlc_run (e # es) h = hlc_step e h # hlc_run es (hlc_step e h)"

lemma hlc_step_advances: "hlc_compare h (hlc_step e h) < 0"
  by (cases e) (simp_all add: hlc_now_advances hlc_receive_advances)

lemma hlc_run_after: "h' \<in> set (hlc_run es h) \<Longrightarrow> hlc_compare h h' < 0"
proof (induction es arbitrary: h)
  case (Cons e es)
  then show ?case
    using hlc_step_advances [of h e] hlc_compare_trans [of h "hlc_step e h" h'] by auto
qed simp

lemma hlc_run_sorted: "sorted_wrt (\<lambda>a b. hlc_compare a b < 0) (hlc_run es h)"
  by (induction es arbitrary: h) (auto simp: hlc_run_after)

text \<open>
  The readings of a hybrid logical clock strictly increase over any sequence of local events
  and receipts, whatever the wall clock and the peers say, and \<open>compare\<close> is a strict total order
  on them. A receipt is moreover strictly after the remote reading, with one exception: when the
  remote millisecond equals the wall clock and the local clock is behind it, the logical counter
  restarts at zero.
\<close>

theorem hlc_monotone:
  "sorted_wrt (\<lambda>a b. hlc_compare a b < 0) (h # hlc_run es h)
   \<and> (\<forall>remote wall. 0 \<le> hc remote \<longrightarrow>
        (hlc_compare remote (hlc_receive wall remote h) < 0 \<longleftrightarrow> \<not> (hl remote = wall \<and> hl h < wall)))"
  using hlc_run_sorted hlc_run_after hlc_receive_after_remote by simp

theorem hlc_monotone_witness:
  "(0::int) \<le> hc \<lparr>hl = 5, hc = 3\<rparr> \<and>
   \<not> hlc_compare \<lparr>hl = 5, hc = 3\<rparr> (hlc_receive 5 \<lparr>hl = 5, hc = 3\<rparr> (hlc_init 0)) < 0"
  using hlc_monotone [of "hlc_init 0" "[]"] by (auto simp: hlc_init_def)

section \<open>Vector clocks\<close>

text \<open>
  A vector clock is a plain object from region ids to counters; a missing region reads as 0.
\<close>

type_synonym vclock = "(string, int) jsmap"

definition vc_get :: "vclock \<Rightarrow> string \<Rightarrow> int" where
  "vc_get v r = (case js_get v r of None \<Rightarrow> 0 | Some n \<Rightarrow> n)"

definition vcIncrement :: "vclock \<Rightarrow> string \<Rightarrow> vclock" where
  "vcIncrement clock regionId = js_set regionId (vc_get clock regionId + 1) clock"

definition vcMerge :: "vclock \<Rightarrow> vclock \<Rightarrow> vclock" where
  "vcMerge a b = fold (\<lambda>(region, counter) out. js_set region (max (vc_get out region) counter) out) b a"

datatype vc_order = Vc_equal | Vc_before | Vc_after | Vc_concurrent

definition vcCompare :: "vclock \<Rightarrow> vclock \<Rightarrow> vc_order" where
  "vcCompare a b =
     (let regions = fold js_add (js_keys a @ js_keys b) [];
          aGreater = (\<exists>r\<in>set regions. vc_get a r > vc_get b r);
          bGreater = (\<exists>r\<in>set regions. vc_get b r > vc_get a r)
      in if aGreater \<and> bGreater then Vc_concurrent
         else if aGreater then Vc_after
         else if bGreater then Vc_before
         else Vc_equal)"

definition vc_le :: "vclock \<Rightarrow> vclock \<Rightarrow> bool" where
  "vc_le a b \<longleftrightarrow> (\<forall>r. vc_get a r \<le> vc_get b r)"

definition vc_ok :: "vclock \<Rightarrow> bool" where
  "vc_ok v \<longleftrightarrow> wf_map v \<and> (\<forall>r. 0 \<le> vc_get v r)"

lemma vc_get_set [simp]: "vc_get (js_set r n v) r' = (if r' = r then n else vc_get v r')"
  by (simp add: vc_get_def)

lemma vc_get_Cons: "vc_get ((r, n) # v) r' = (if r' = r then n else vc_get v r')"
  by (simp add: vc_get_def)

lemma vc_get_absent: "r \<notin> set (js_keys v) \<Longrightarrow> vc_get v r = 0"
  by (simp add: vc_get_def map_of_eq_None_iff [THEN iffD2])

lemma fold_js_add_set [simp]: "set (fold js_add xs ys) = set xs \<union> set ys"
  by (induction xs arbitrary: ys) auto

lemma vc_greater_region:
  assumes "set (js_keys a) \<union> set (js_keys b) \<subseteq> R"
  shows "(\<exists>r\<in>R. vc_get b r < vc_get a r) \<longleftrightarrow> \<not> vc_le a b"
    and "(\<exists>r\<in>R. vc_get a r < vc_get b r) \<longleftrightarrow> \<not> vc_le b a"
proof -
  have "r \<in> R" if "vc_get a r \<noteq> vc_get b r" for r
    using that assms vc_get_absent [of r a] vc_get_absent [of r b] by (metis UnCI subsetD)
  then show "(\<exists>r\<in>R. vc_get b r < vc_get a r) \<longleftrightarrow> \<not> vc_le a b"
    and "(\<exists>r\<in>R. vc_get a r < vc_get b r) \<longleftrightarrow> \<not> vc_le b a"
    unfolding vc_le_def not_all not_le by (metis less_irrefl)+
qed

lemma vcCompare_spec:
  "vcCompare a b =
     (if vc_le a b then (if vc_le b a then Vc_equal else Vc_before)
      else if vc_le b a then Vc_after else Vc_concurrent)"
proof -
  let ?R = "set (fold js_add (js_keys a @ js_keys b) [])"
  have "set (js_keys a) \<union> set (js_keys b) \<subseteq> ?R" by auto
  from vc_greater_region [OF this] show ?thesis
    unfolding vcCompare_def Let_def by (simp only: simp_thms) simp
qed

lemma vc_get_fold_merge:
  "wf_map b \<Longrightarrow> vc_get (vcMerge a b) r = (if js_has b r then max (vc_get a r) (vc_get b r) else vc_get a r)"
proof (induction b arbitrary: a)
  case (Cons p b)
  obtain q n where p: "p = (q, n)" by fastforce
  have "js_get b q = None" using Cons.prems p by (simp add: map_of_eq_None_iff)
  then show ?case using Cons p by (auto simp: vcMerge_def vc_get_Cons)
qed (simp add: vcMerge_def)

lemma vcMerge_max: "vc_ok a \<Longrightarrow> vc_ok b \<Longrightarrow> vc_get (vcMerge a b) r = max (vc_get a r) (vc_get b r)"
  using vc_get_fold_merge [of b a r] unfolding vc_ok_def
  by (cases "js_get b r") (simp_all add: vc_get_def [of b] max.absorb1)

lemma wf_vcMerge [simp, map_wf]: "wf_map a \<Longrightarrow> wf_map (vcMerge a b)"
  unfolding vcMerge_def by (induction b arbitrary: a) auto

lemma vc_ok_merge [inv_intros]: "vc_ok a \<Longrightarrow> vc_ok b \<Longrightarrow> vc_ok (vcMerge a b)"
  using vcMerge_max by (simp add: vc_ok_def le_max_iff_disj)

lemma vc_ok_increment [inv_intros]: "vc_ok v \<Longrightarrow> vc_ok (vcIncrement v r)"
  by (simp add: vc_ok_def vcIncrement_def add_nonneg_nonneg)

text \<open>
  Vector clocks: \<open>vcCompare\<close> decides the pointwise order, \<open>vcIncrement\<close> gives a strictly later
  clock, and \<open>vcMerge\<close> is the least clock after both of its arguments, whatever the order of their
  fields.
\<close>

theorem vector_clock_lattice:
  assumes "vc_ok a" and "vc_ok b" and "vc_ok c"
  shows "(vcCompare a b = Vc_before \<longleftrightarrow> vc_le a b \<and> \<not> vc_le b a)
    \<and> (vcCompare a b = Vc_concurrent \<longleftrightarrow> \<not> vc_le a b \<and> \<not> vc_le b a)
    \<and> (vcCompare a b = Vc_equal \<longleftrightarrow> vc_get a = vc_get b)
    \<and> vcCompare a (vcIncrement a r) = Vc_before
    \<and> vc_le a (vcMerge a b) \<and> vc_le b (vcMerge a b)
    \<and> (vc_le a c \<and> vc_le b c \<longrightarrow> vc_le (vcMerge a b) c)"
proof -
  have "vc_le a b \<and> vc_le b a \<longleftrightarrow> vc_get a = vc_get b"
    by (auto simp: vc_le_def fun_eq_iff intro: antisym)
  moreover have "vc_le a (vcIncrement a r)" "\<not> vc_le (vcIncrement a r) a"
    by (auto simp: vc_le_def vcIncrement_def)
  moreover have "vc_le a (vcMerge a b)" "vc_le b (vcMerge a b)"
    "vc_le a c \<and> vc_le b c \<longrightarrow> vc_le (vcMerge a b) c"
    using vcMerge_max [OF assms(1,2)] by (auto simp: vc_le_def)
  ultimately show ?thesis by (auto simp: vcCompare_spec)
qed

theorem vector_clock_lattice_witness:
  "vcCompare [(''eu'', 1)] [(''us'', 2)] = Vc_concurrent \<and>
   vc_le [(''us'', 2)] (vcMerge [(''eu'', 1)] [(''us'', 2)])"
proof -
  have "vc_ok [(''eu'', 1)]" "vc_ok [(''us'', 2)]" by (auto simp: vc_ok_def vc_get_def)
  from vector_clock_lattice [OF this this(2), of "''eu''"] show ?thesis
    by (simp add: vcCompare_def vc_get_def js_add_def)
qed

end
