(* ===== verification/Crdt.thy ===== *)
theory Crdt
  imports Clocks
begin

text \<open>
  The set and map CRDTs of \<open>src/multi-region.js\<close>: \<open>ORSet\<close> (room membership), \<open>LWWMap\<close> (sessions
  and global configuration) and \<open>LWWElementSet\<close> (geofences). The locale \<open>replica\<close> is what
  anti-entropy relies on: a merge that is the join of a semilattice of abstract states. \<open>ORSet\<close> and
  \<open>LWWElementSet\<close> are instances; \<open>LWWMap\<close> is not, because its winner rule is not transitive.
\<close>

section \<open>The contract of a mergeable replica\<close>

text \<open>Merging the states pulled from several peers, one after the other.\<close>

definition pull_all :: "('s \<Rightarrow> 's \<Rightarrow> 's) \<Rightarrow> 's list \<Rightarrow> 's \<Rightarrow> 's" where
  "pull_all merge ts s = fold (\<lambda>t s. merge s t) ts s"

locale replica =
  fixes inv :: "'s \<Rightarrow> bool"
    and merge :: "'s \<Rightarrow> 's \<Rightarrow> 's"
    and abs :: "'s \<Rightarrow> 'a"
    and jn :: "'a \<Rightarrow> 'a \<Rightarrow> 'a"
  assumes jn_assoc: "jn (jn a b) c = jn a (jn b c)"
    and jn_comm: "jn a b = jn b a"
    and jn_idem: "jn a a = a"
    and merge_inv: "inv s \<Longrightarrow> inv t \<Longrightarrow> inv (merge s t)"
    and abs_merge: "inv s \<Longrightarrow> inv t \<Longrightarrow> abs (merge s t) = jn (abs s) (abs t)"
begin

lemma merge_commutes: "inv s \<Longrightarrow> inv t \<Longrightarrow> abs (merge s t) = abs (merge t s)"
  by (simp add: abs_merge jn_comm)

lemma merge_repeated: "inv s \<Longrightarrow> inv t \<Longrightarrow> abs (merge (merge s t) t) = abs (merge s t)"
  by (simp add: abs_merge merge_inv jn_assoc jn_idem)

lemma pull_inv: "inv s \<Longrightarrow> \<forall>t\<in>set ts. inv t \<Longrightarrow> inv (pull_all merge ts s)"
  unfolding pull_all_def by (induction ts arbitrary: s) (auto simp: merge_inv)

lemma abs_pull: "inv s \<Longrightarrow> \<forall>t\<in>set ts. inv t \<Longrightarrow> abs (pull_all merge ts s) = fold jn (map abs ts) (abs s)"
  unfolding pull_all_def by (induction ts arbitrary: s) (auto simp: merge_inv abs_merge jn_comm)

lemma jn_left_comm: "jn a (jn b c) = jn b (jn a c)"
  by (metis jn_assoc jn_comm)

lemma jn_left_idem: "jn a (jn a b) = jn a b"
  by (metis jn_assoc jn_idem)

lemma fold_jn_set: "set xs = set ys \<Longrightarrow> fold jn xs a = fold jn ys a"
proof -
  have "comp_fun_idem_on UNIV jn"
    by unfold_locales (simp_all add: fun_eq_iff jn_left_comm jn_left_idem)
  from comp_fun_idem_on.fold_set_fold [OF this] show "set xs = set ys \<Longrightarrow> fold jn xs a = fold jn ys a"
    by (metis subset_UNIV)
qed

lemma pull_converges:
  assumes "inv s" and "\<forall>t\<in>set ts. inv t" and "set ts = set us"
  shows "abs (pull_all merge ts s) = abs (pull_all merge us s)"
proof -
  have "\<forall>t\<in>set us. inv t" using assms(2,3) by simp
  with assms show ?thesis by (simp add: abs_pull fold_jn_set [of "map abs ts" "map abs us"])
qed

lemma exchange_converges:
  "inv s \<Longrightarrow> inv t \<Longrightarrow> abs (merge s t) = abs (merge t s) \<and> abs (merge (merge s t) (merge t s)) = abs (merge s t)"
  by (simp add: abs_merge merge_inv jn_comm [of "abs t"] jn_idem)

end

section \<open>ORSet\<close>

record orset =
  or_adds :: "(string, string jsset) jsmap"
  or_removes :: "string jsset"

definition orset_new :: orset where
  "orset_new = \<lparr>or_adds = [], or_removes = []\<rparr>"

definition orset_tags :: "orset \<Rightarrow> string \<Rightarrow> string list" where
  "orset_tags s elem = (case js_get (or_adds s) elem of None \<Rightarrow> [] | Some tags \<Rightarrow> tags)"

definition orset_add :: "string \<Rightarrow> string \<Rightarrow> orset \<Rightarrow> orset" where
  "orset_add elem tag s = s\<lparr>or_adds := js_set elem (js_add tag (orset_tags s elem)) (or_adds s)\<rparr>"

definition orset_applyRemove :: "string list \<Rightarrow> orset \<Rightarrow> orset" where
  "orset_applyRemove tags s = s\<lparr>or_removes := fold js_add tags (or_removes s)\<rparr>"

definition orset_remove :: "string \<Rightarrow> orset \<Rightarrow> string list \<times> orset" where
  "orset_remove elem s =
     (case js_get (or_adds s) elem of
        None \<Rightarrow> ([], s)
      | Some tags \<Rightarrow> (tags, s\<lparr>or_removes := fold js_add tags (or_removes s)\<rparr>))"

definition orset_has :: "orset \<Rightarrow> string \<Rightarrow> bool" where
  "orset_has s elem =
     (case js_get (or_adds s) elem of
        None \<Rightarrow> False
      | Some tags \<Rightarrow> list_ex (\<lambda>tag. tag \<notin> set (or_removes s)) tags)"

definition orset_applyAdd :: "string \<Rightarrow> string \<Rightarrow> orset \<Rightarrow> orset" where
  "orset_applyAdd elem tag s = orset_add elem tag s"

definition orset_members :: "orset \<Rightarrow> string list" where
  "orset_members s =
     map fst (filter (\<lambda>(elem, tags). list_ex (\<lambda>tag. tag \<notin> set (or_removes s)) tags) (or_adds s))"

definition orset_merge :: "orset \<Rightarrow> orset \<Rightarrow> orset" where
  "orset_merge s other =
     (let s1 = fold (\<lambda>(elem, tags) s. fold (orset_applyAdd elem) tags s) (or_adds other) s
      in s1\<lparr>or_removes := fold js_add (or_removes other) (or_removes s1)\<rparr>)"

definition orset_toJSON :: "orset \<Rightarrow> json" where
  "orset_toJSON s = JObj
     [(''adds'', JObj (map (\<lambda>(elem, tags). (elem, JArr (map JStr tags))) (or_adds s))),
      (''removes'', JArr (map JStr (or_removes s)))]"

definition orset_fromJSON :: "(string, string list) jsmap \<Rightarrow> string list \<Rightarrow> orset" where
  "orset_fromJSON adds removes =
     orset_applyRemove removes (fold (\<lambda>(elem, tags) s. fold (orset_add elem) tags s) adds orset_new)"

text \<open>The abstract state: which tags back which element, and which tags are retired.\<close>

definition orset_abs :: "orset \<Rightarrow> (string \<times> string) set \<times> string set" where
  "orset_abs s = ({(e, t). t \<in> set (orset_tags s e)}, set (or_removes s))"

definition pair_union :: "'a set \<times> 'b set \<Rightarrow> 'a set \<times> 'b set \<Rightarrow> 'a set \<times> 'b set" where
  "pair_union a b = (fst a \<union> fst b, snd a \<union> snd b)"

definition orset_inv :: "orset \<Rightarrow> bool" where
  "orset_inv s \<longleftrightarrow> wf_map (or_adds s) \<and> (\<forall>e. distinct (orset_tags s e)) \<and> distinct (or_removes s)"

lemma distinct_fold_js_add [simp]: "distinct xs \<Longrightarrow> distinct (fold js_add ts xs)"
  by (induction ts arbitrary: xs) auto

lemma orset_applyAdd_add: "orset_applyAdd = orset_add"
  by (simp add: orset_applyAdd_def fun_eq_iff)

lemma orset_tags_add [simp]:
  "orset_tags (orset_add e t s) e' = (if e' = e then js_add t (orset_tags s e) else orset_tags s e')"
  by (simp add: orset_tags_def orset_add_def)

lemma orset_tags_new [simp]: "orset_tags orset_new e = []"
  by (simp add: orset_tags_def orset_new_def)

lemma orset_add_removes [simp]: "or_removes (orset_add e t s) = or_removes s"
  by (simp add: orset_add_def)

lemma orset_add_inv [inv_intros]: "orset_inv s \<Longrightarrow> orset_inv (orset_add e t s)"
  by (simp add: orset_inv_def) (simp add: orset_add_def)

lemma orset_abs_add: "orset_abs (orset_add e t s) = pair_union (orset_abs s) ({(e, t)}, {})"
  by (auto simp: orset_abs_def pair_union_def split: if_splits)

lemma orset_abs_adds:
  "orset_abs (fold (orset_add e) tags s) = pair_union (orset_abs s) ({e} \<times> set tags, {})"
  by (induction tags arbitrary: s) (auto simp: orset_abs_add pair_union_def)

lemma orset_adds_inv: "orset_inv s \<Longrightarrow> orset_inv (fold (orset_add e) tags s)"
  by (induction tags arbitrary: s) (auto simp: orset_add_inv)

lemma orset_fold_add:
  "orset_abs (fold (\<lambda>(elem, tags) s. fold (orset_add elem) tags s) adds s) =
     pair_union (orset_abs s) ({(e, t). \<exists>tags. (e, tags) \<in> set adds \<and> t \<in> set tags}, {})
   \<and> (orset_inv s \<longrightarrow> orset_inv (fold (\<lambda>(elem, tags) s. fold (orset_add elem) tags s) adds s))"
proof (induction adds arbitrary: s)
  case (Cons p adds)
  obtain e tags where p: "p = (e, tags)" by fastforce
  show ?case
    using Cons [of "fold (orset_add e) tags s"] orset_adds_inv [of s e tags]
    by (auto simp: p orset_abs_adds pair_union_def)
qed (simp add: pair_union_def)

lemma orset_tags_pairs:
  assumes "wf_map (or_adds s)"
  shows "{(e, t). \<exists>tags. (e, tags) \<in> set (or_adds s) \<and> t \<in> set tags} = fst (orset_abs s)"
proof -
  have "(\<exists>tags. (e, tags) \<in> set (or_adds s) \<and> t \<in> set tags) \<longleftrightarrow>
      (\<exists>tags. js_get (or_adds s) e = Some tags \<and> t \<in> set tags)" for e t
    using assms by (metis js_get_SomeI map_of_SomeD)
  moreover have "(\<exists>tags. js_get (or_adds s) e = Some tags \<and> t \<in> set tags) \<longleftrightarrow> t \<in> set (orset_tags s e)" for e t
    by (cases "js_get (or_adds s) e") (simp_all add: orset_tags_def)
  ultimately have "(\<exists>tags. (e, tags) \<in> set (or_adds s) \<and> t \<in> set tags) \<longleftrightarrow> t \<in> set (orset_tags s e)" for e t
    by simp
  then show ?thesis by (simp add: orset_abs_def)
qed

lemma orset_removes_update:
  "orset_abs (s\<lparr>or_removes := fold js_add ts (or_removes s)\<rparr>) = pair_union (orset_abs s) ({}, set ts)"
  "orset_inv s \<Longrightarrow> orset_inv (s\<lparr>or_removes := fold js_add ts (or_removes s)\<rparr>)"
  by (auto simp: orset_abs_def pair_union_def orset_inv_def orset_tags_def)

lemma orset_merge_inv [inv_intros]: "orset_inv s \<Longrightarrow> orset_inv (orset_merge s t)"
  using orset_fold_add [of "or_adds t" s]
  by (simp add: orset_merge_def Let_def orset_applyAdd_add orset_removes_update)

lemma orset_abs_merge:
  assumes "orset_inv t"
  shows "orset_abs (orset_merge s t) = pair_union (orset_abs s) (orset_abs t)"
proof -
  have "wf_map (or_adds t)" using assms by (simp add: orset_inv_def)
  from orset_tags_pairs [OF this] show ?thesis
    using orset_fold_add [of "or_adds t" s]
    by (simp add: orset_merge_def Let_def orset_applyAdd_add orset_removes_update pair_union_def)
      (simp add: orset_abs_def)
qed

interpretation orset: replica orset_inv orset_merge orset_abs pair_union
  by unfold_locales (auto simp: pair_union_def orset_merge_inv orset_abs_merge)

lemma orset_has_abs: "orset_has s e \<longleftrightarrow> (\<exists>t. (e, t) \<in> fst (orset_abs s) \<and> t \<notin> snd (orset_abs s))"
  by (auto simp: orset_has_def orset_abs_def orset_tags_def list_ex_iff split: option.splits)

lemma orset_members_has:
  assumes "wf_map (or_adds s)"
  shows "e \<in> set (orset_members s) \<longleftrightarrow> orset_has s e"
proof -
  have "e \<in> set (orset_members s) \<longleftrightarrow>
      (\<exists>tags. (e, tags) \<in> set (or_adds s) \<and> list_ex (\<lambda>tag. tag \<notin> set (or_removes s)) tags)"
    by (force simp: orset_members_def)
  also have "\<dots> \<longleftrightarrow> (\<exists>tags. js_get (or_adds s) e = Some tags \<and> list_ex (\<lambda>tag. tag \<notin> set (or_removes s)) tags)"
    using assms by (metis js_get_SomeI map_of_SomeD)
  finally show ?thesis by (auto simp: orset_has_def split: option.splits)
qed

lemma orset_abs_remove:
  "orset_abs (snd (orset_remove e s)) = pair_union (orset_abs s) ({}, set (orset_tags s e))"
  by (auto simp: orset_remove_def orset_removes_update orset_tags_def pair_union_def split: option.split)

lemma orset_remove_inv [inv_intros]: "orset_inv s \<Longrightarrow> orset_inv (snd (orset_remove e s))"
  by (simp add: orset_remove_def orset_removes_update split: option.split)

lemma orset_has_cong:
  "orset_abs s = orset_abs t \<Longrightarrow> orset_has s = orset_has t"
  by (simp add: orset_has_abs fun_eq_iff)

text \<open>
  Membership converges: a region that merges the OR-Sets of the same peers, in any order and
  any number of times, ends with the same members; two regions that exchange their sets agree.
\<close>

theorem orset_converges:
  assumes "orset_inv s" and "\<forall>t\<in>set ts. orset_inv t" and "set ts = set us"
  shows "set (orset_members (pull_all orset_merge ts s)) = set (orset_members (pull_all orset_merge us s))
    \<and> (\<forall>t\<in>set ts. set (orset_members (orset_merge s t)) = set (orset_members (orset_merge t s)))"
proof -
  have mem: "set (orset_members x) = set (orset_members y)"
    if "orset_inv x" "orset_inv y" "orset_abs x = orset_abs y" for x y
    using that orset_has_cong [OF that(3)] by (auto simp: orset_members_has orset_inv_def)
  have us: "\<forall>t\<in>set us. orset_inv t" using assms by simp
  have "set (orset_members (pull_all orset_merge ts s)) = set (orset_members (pull_all orset_merge us s))"
    by (rule mem [OF orset.pull_inv [OF assms(1,2)] orset.pull_inv [OF assms(1) us] orset.pull_converges [OF assms]])
  moreover have "set (orset_members (orset_merge s t)) = set (orset_members (orset_merge t s))" if "t \<in> set ts" for t
    using that assms by (intro mem orset_merge_inv orset.merge_commutes) auto
  ultimately show ?thesis by blast
qed

theorem orset_converges_witness:
  "set (orset_members (pull_all orset_merge [orset_add ''a'' ''t1'' orset_new, orset_add ''b'' ''t2'' orset_new] orset_new))
   = set (orset_members (pull_all orset_merge [orset_add ''b'' ''t2'' orset_new, orset_add ''a'' ''t1'' orset_new] orset_new))"
proof -
  have new: "orset_inv orset_new" by (simp add: orset_inv_def orset_new_def orset_tags_def)
  have "\<forall>t\<in>set [orset_add ''a'' ''t1'' orset_new, orset_add ''b'' ''t2'' orset_new]. orset_inv t"
    using new by (simp add: orset_add_inv)
  from orset_converges [OF new this, of "[orset_add ''b'' ''t2'' orset_new, orset_add ''a'' ''t1'' orset_new]"]
  show ?thesis by auto
qed

text \<open>
  Add wins: a leave retires exactly the joins its region has observed, so after a leave the
  client is absent there, and a join made elsewhere under a tag the leaving region has not seen
  survives the merge in either direction.
\<close>

theorem orset_add_wins:
  assumes "orset_inv s" and "orset_inv s'"
    and "\<forall>t. tag \<notin> set (orset_tags s t)" and "tag \<notin> set (or_removes s)" and "tag \<notin> set (or_removes s')"
  shows "\<not> orset_has (snd (orset_remove e s)) e
    \<and> orset_has (orset_merge (snd (orset_remove e s)) (orset_add e tag s')) e
    \<and> orset_has (orset_merge (orset_add e tag s') (snd (orset_remove e s))) e"
proof -
  note inv = orset_remove_inv [OF assms(1), of e] orset_add_inv [OF assms(2), of e tag]
  have "\<not> orset_has (snd (orset_remove e s)) e"
    unfolding orset_has_abs orset_abs_remove by (auto simp: pair_union_def orset_abs_def)
  moreover have "orset_has (orset_merge (snd (orset_remove e s)) (orset_add e tag s')) e"
    unfolding orset_has_abs orset_abs_merge [OF inv(2)] orset_abs_remove orset_abs_add
    using assms(3-5) by (auto simp: pair_union_def orset_abs_def)
  ultimately show ?thesis
    using orset_has_cong [OF orset.merge_commutes [OF inv]] by simp
qed

theorem orset_add_wins_witness:
  "orset_has (orset_merge (snd (orset_remove ''a'' (orset_add ''a'' ''t1'' orset_new))) (orset_add ''a'' ''t2'' orset_new)) ''a''"
proof -
  have new: "orset_inv orset_new" by (simp add: orset_inv_def orset_new_def orset_tags_def)
  have fresh: "\<forall>t. ''t2'' \<notin> set (orset_tags (orset_add ''a'' ''t1'' orset_new) t)" by simp
  have live: "''t2'' \<notin> set (or_removes (orset_add ''a'' ''t1'' orset_new))" "''t2'' \<notin> set (or_removes orset_new)"
    by (simp_all add: orset_new_def)
  show ?thesis
    using orset_add_wins [OF orset_add_inv [OF new, of "''a''" "''t1''"] new fresh live, of "''a''"] by simp
qed

lemma orset_restore:
  assumes "orset_inv s"
  shows "orset_abs (orset_fromJSON (or_adds s) (or_removes s)) = orset_abs s
    \<and> orset_inv (orset_fromJSON (or_adds s) (or_removes s))"
proof -
  have wf: "wf_map (or_adds s)" using assms by (simp add: orset_inv_def)
  have new: "orset_inv orset_new" "orset_abs orset_new = ({}, {})"
    by (simp_all add: orset_inv_def orset_abs_def orset_new_def orset_tags_def)
  show ?thesis
    using orset_fold_add [of "or_adds s" orset_new] new orset_tags_pairs [OF wf]
    by (simp add: orset_fromJSON_def orset_applyRemove_def orset_removes_update)
      (simp add: orset_abs_def pair_union_def)
qed

text \<open>
  A snapshot is faithful: restoring what \<open>toJSON\<close> wrote gives a set with the same tags and
  tombstones, hence the same members.
\<close>

theorem orset_json_roundtrip:
  assumes "orset_inv s"
  shows "orset_abs (orset_fromJSON (or_adds s) (or_removes s)) = orset_abs s
    \<and> orset_inv (orset_fromJSON (or_adds s) (or_removes s))"
  using assms by (rule orset_restore)

theorem orset_json_roundtrip_witness:
  "orset_abs (orset_fromJSON [(''a'', [''t1''])] [''t0'']) = ({(''a'', ''t1'')}, {''t0''})"
proof -
  let ?s = "\<lparr>or_adds = [(''a'', [''t1''])], or_removes = [''t0'']\<rparr>"
  have inv: "orset_inv ?s" by (auto simp: orset_inv_def orset_tags_def)
  have "orset_tags ?s e = (if e = ''a'' then [''t1''] else [])" for e by (simp add: orset_tags_def)
  then have "orset_abs ?s = ({(''a'', ''t1'')}, {''t0''})" by (auto simp: orset_abs_def split: if_splits)
  then show ?thesis using orset_json_roundtrip [OF inv] by simp
qed

end
