(* ===== verification/Lww.thy ===== *)
theory Lww
  imports Crdt
begin

text \<open>
  The last-writer-wins CRDTs of \<open>src/multi-region.js\<close>. \<open>LWWElementSet\<close> (geofences) orders writes
  by stamp and is a replica in the sense of \<open>Crdt\<close>, given that a stamp is used for one definition
  only. \<open>LWWMap\<close> (sessions, global configuration) orders writes by vector clock with a tie-break on
  the writer; two replicas agree on a key, but three writes can beat each other in a cycle, and
  then the result depends on the order of merging.
\<close>

section \<open>LWWElementSet\<close>

record stamp =
  st_hlc :: hlc
  st_regionId :: string
  st_value :: "json option"

definition str_compare :: "string \<Rightarrow> string \<Rightarrow> int" where
  "str_compare a b = (if a < b then -1 else if a > b then 1 else 0)"

definition compareStamps :: "stamp \<Rightarrow> stamp \<Rightarrow> int" where
  "compareStamps a b =
     (let byHlc = hlc_compare (st_hlc a) (st_hlc b)
      in if byHlc \<noteq> 0 then byHlc else str_compare (st_regionId a) (st_regionId b))"

record lwwset =
  ls_adds :: "(string, stamp) jsmap"
  ls_removes :: "(string, stamp) jsmap"

definition lwwset_new :: lwwset where
  "lwwset_new = \<lparr>ls_adds = [], ls_removes = []\<rparr>"

definition put_stamp :: "string \<Rightarrow> stamp \<Rightarrow> (string, stamp) jsmap \<Rightarrow> (string, stamp) jsmap" where
  "put_stamp elem stamp m =
     (case js_get m elem of
        None \<Rightarrow> js_set elem stamp m
      | Some current \<Rightarrow> if compareStamps stamp current > 0 then js_set elem stamp m else m)"

definition lwwset_add :: "string \<Rightarrow> stamp \<Rightarrow> lwwset \<Rightarrow> lwwset" where
  "lwwset_add elem stamp s = s\<lparr>ls_adds := put_stamp elem stamp (ls_adds s)\<rparr>"

definition lwwset_remove :: "string \<Rightarrow> stamp \<Rightarrow> lwwset \<Rightarrow> lwwset" where
  "lwwset_remove elem stamp s = s\<lparr>ls_removes := put_stamp elem stamp (ls_removes s)\<rparr>"

definition lwwset_has :: "lwwset \<Rightarrow> string \<Rightarrow> bool" where
  "lwwset_has s elem =
     (case js_get (ls_adds s) elem of
        None \<Rightarrow> False
      | Some addStamp \<Rightarrow>
          (case js_get (ls_removes s) elem of
             None \<Rightarrow> True
           | Some removeStamp \<Rightarrow> compareStamps addStamp removeStamp > 0))"

definition lwwset_get :: "lwwset \<Rightarrow> string \<Rightarrow> json option" where
  "lwwset_get s elem = Option.bind (js_get (ls_adds s) elem) st_value"

definition lwwset_merge :: "lwwset \<Rightarrow> lwwset \<Rightarrow> lwwset" where
  "lwwset_merge s other =
     (let s1 = fold (\<lambda>(elem, stamp). lwwset_add elem stamp) (ls_adds other) s
      in fold (\<lambda>(elem, stamp). lwwset_remove elem stamp) (ls_removes other) s1)"

definition lwwset_fromJSON :: "(string \<times> stamp) list \<Rightarrow> (string \<times> stamp) list \<Rightarrow> lwwset" where
  "lwwset_fromJSON adds removes =
     (let s1 = fold (\<lambda>(elem, stamp). lwwset_add elem stamp) adds lwwset_new
      in fold (\<lambda>(elem, stamp). lwwset_remove elem stamp) removes s1)"

subsection \<open>Stamps are ordered by their key\<close>

type_synonym stamp_key = "int \<times> int \<times> string"

definition stamp_key :: "stamp \<Rightarrow> stamp_key" where
  "stamp_key s = (hl (st_hlc s), hc (st_hlc s), st_regionId s)"

lemma compareStamps_greater: "compareStamps a b > 0 \<longleftrightarrow> stamp_key b < stamp_key a"
  by (auto simp: compareStamps_def stamp_key_def hlc_compare_def str_compare_def Let_def)

definition omax :: "'a::linorder option \<Rightarrow> 'a option \<Rightarrow> 'a option" where
  "omax a b = (case a of None \<Rightarrow> b | Some x \<Rightarrow> (case b of None \<Rightarrow> a | Some y \<Rightarrow> Some (max x y)))"

lemma omax_laws: "omax (omax a b) c = omax a (omax b c)" "omax a b = omax b a" "omax a a = a"
  by (auto simp: omax_def max.assoc max.commute max.left_commute split: option.splits)

definition best :: "(string, stamp) jsmap \<Rightarrow> string \<Rightarrow> stamp_key option" where
  "best m elem = map_option stamp_key (js_get m elem)"

lemma best_put: "best (put_stamp e st m) = (\<lambda>e'. if e' = e then omax (best m e) (Some (stamp_key st)) else best m e')"
  by (auto simp: best_def put_stamp_def omax_def compareStamps_greater fun_eq_iff max_def split: option.splits)

lemma wf_put_stamp [simp, map_wf]: "wf_map m \<Longrightarrow> wf_map (put_stamp e st m)"
  by (simp add: put_stamp_def split: option.split)

lemma best_puts:
  "wf_map n \<Longrightarrow> best (fold (\<lambda>(e, st). put_stamp e st) n m) = (\<lambda>e. omax (best m e) (best n e))"
proof (induction n arbitrary: m)
  case (Cons p n)
  obtain e st where p: "p = (e, st)" by fastforce
  then have "best n e = None" using Cons.prems by (simp add: best_def map_of_eq_None_iff)
  moreover have "best (p # n) = (\<lambda>e'. if e' = e then Some (stamp_key st) else best n e')"
    by (simp add: p best_def fun_eq_iff)
  ultimately show ?case using Cons p by (auto simp: best_put fun_eq_iff omax_def split: option.splits)
qed (auto simp: best_def omax_def fun_eq_iff split: option.splits)

lemma wf_puts [simp]: "wf_map m \<Longrightarrow> wf_map (fold (\<lambda>(e, st). put_stamp e st) n m)"
  by (induction n arbitrary: m) auto

lemma fold_lwwset:
  "fold (\<lambda>(e, st). lwwset_add e st) n s = s\<lparr>ls_adds := fold (\<lambda>(e, st). put_stamp e st) n (ls_adds s)\<rparr>"
  "fold (\<lambda>(e, st). lwwset_remove e st) n s = s\<lparr>ls_removes := fold (\<lambda>(e, st). put_stamp e st) n (ls_removes s)\<rparr>"
  by (induction n arbitrary: s) (auto simp: lwwset_add_def lwwset_remove_def)

lemma lwwset_merge_fields:
  "ls_adds (lwwset_merge s t) = fold (\<lambda>(e, st). put_stamp e st) (ls_adds t) (ls_adds s)"
  "ls_removes (lwwset_merge s t) = fold (\<lambda>(e, st). put_stamp e st) (ls_removes t) (ls_removes s)"
  by (simp_all add: lwwset_merge_def fold_lwwset Let_def)

text \<open>
  A stamp is issued once: the definition it carries is a function \<open>g\<close> of the fence and the stamp.
\<close>

definition issued :: "(string \<Rightarrow> stamp_key \<Rightarrow> json option) \<Rightarrow> (string, stamp) jsmap \<Rightarrow> bool" where
  "issued g m \<longleftrightarrow> (\<forall>e st. js_get m e = Some st \<longrightarrow> st_value st = g e (stamp_key st))"

definition lwwset_inv :: "(string \<Rightarrow> stamp_key \<Rightarrow> json option) \<Rightarrow> lwwset \<Rightarrow> bool" where
  "lwwset_inv g s \<longleftrightarrow> wf_map (ls_adds s) \<and> wf_map (ls_removes s) \<and> issued g (ls_adds s)"

definition lwwset_abs :: "lwwset \<Rightarrow> (string \<Rightarrow> stamp_key option) \<times> (string \<Rightarrow> stamp_key option)" where
  "lwwset_abs s = (best (ls_adds s), best (ls_removes s))"

definition pair_omax :: "('a \<Rightarrow> 'b::linorder option) \<times> ('a \<Rightarrow> 'b option) \<Rightarrow> ('a \<Rightarrow> 'b option) \<times> ('a \<Rightarrow> 'b option) \<Rightarrow>
    ('a \<Rightarrow> 'b option) \<times> ('a \<Rightarrow> 'b option)" where
  "pair_omax a b = (\<lambda>e. omax (fst a e) (fst b e), \<lambda>e. omax (snd a e) (snd b e))"

lemma issued_put: "issued g m \<Longrightarrow> st_value st = g e (stamp_key st) \<Longrightarrow> issued g (put_stamp e st m)"
  by (auto simp: issued_def put_stamp_def split: option.splits if_splits)

lemma issued_puts:
  "wf_map n \<Longrightarrow> issued g n \<Longrightarrow> issued g m \<Longrightarrow> issued g (fold (\<lambda>(e, st). put_stamp e st) n m)"
proof (induction n arbitrary: m)
  case (Cons p n)
  obtain e st where p: "p = (e, st)" by fastforce
  have "st_value st = g e (stamp_key st)" using Cons.prems(2) by (simp add: issued_def p)
  moreover have "issued g n"
    unfolding issued_def
  proof (intro allI impI)
    fix e' st' assume n: "js_get n e' = Some st'"
    then have "e' \<noteq> e" using Cons.prems(1) js_get_dom [OF n] by (auto simp: p)
    then have "js_get (p # n) e' = Some st'" using n by (simp add: p)
    then show "st_value st' = g e' (stamp_key st')" using Cons.prems(2) unfolding issued_def by blast
  qed
  ultimately show ?case using Cons p by (simp add: issued_put)
qed simp

lemma lwwset_merge_inv [inv_intros]: "lwwset_inv g s \<Longrightarrow> lwwset_inv g t \<Longrightarrow> lwwset_inv g (lwwset_merge s t)"
  by (simp add: lwwset_inv_def lwwset_merge_fields issued_puts)

interpretation lwwset: replica "lwwset_inv g" lwwset_merge lwwset_abs pair_omax for g
proof unfold_locales
  show "lwwset_inv g s \<Longrightarrow> lwwset_inv g t \<Longrightarrow> lwwset_inv g (lwwset_merge s t)" for s t
    by (rule lwwset_merge_inv)
  show "lwwset_inv g s \<Longrightarrow> lwwset_inv g t \<Longrightarrow>
      lwwset_abs (lwwset_merge s t) = pair_omax (lwwset_abs s) (lwwset_abs t)" for s t
    by (simp add: lwwset_abs_def lwwset_merge_fields lwwset_inv_def best_puts pair_omax_def)
qed (simp_all add: pair_omax_def omax_laws(1) omax_laws(3), simp add: omax_laws(2))

lemma lwwset_restore:
  assumes "lwwset_inv g s"
  shows "lwwset_abs (lwwset_fromJSON (ls_adds s) (ls_removes s)) = lwwset_abs s"
    and "lwwset_inv g (lwwset_fromJSON (ls_adds s) (ls_removes s))"
proof -
  have "lwwset_fromJSON (ls_adds s) (ls_removes s) = lwwset_merge lwwset_new s"
    by (simp add: lwwset_fromJSON_def lwwset_merge_def)
  moreover have "lwwset_inv g lwwset_new" by (simp add: lwwset_inv_def lwwset_new_def issued_def)
  moreover have "lwwset_abs lwwset_new = (\<lambda>_. None, \<lambda>_. None)"
    by (simp add: lwwset_abs_def lwwset_new_def best_def fun_eq_iff)
  ultimately show "lwwset_abs (lwwset_fromJSON (ls_adds s) (ls_removes s)) = lwwset_abs s"
    and "lwwset_inv g (lwwset_fromJSON (ls_adds s) (ls_removes s))"
    using assms by (simp_all add: lwwset.abs_merge lwwset_merge_inv pair_omax_def omax_def split: option.split)
qed

lemma lwwset_has_abs:
  "lwwset_has s e \<longleftrightarrow> (case fst (lwwset_abs s) e of None \<Rightarrow> False
     | Some a \<Rightarrow> (case snd (lwwset_abs s) e of None \<Rightarrow> True | Some r \<Rightarrow> r < a))"
  by (simp add: lwwset_has_def lwwset_abs_def best_def compareStamps_greater split: option.split)

lemma lwwset_get_abs:
  "lwwset_inv g s \<Longrightarrow> lwwset_get s e = Option.bind (fst (lwwset_abs s) e) (g e)"
  by (cases "js_get (ls_adds s) e") (auto simp: lwwset_get_def lwwset_abs_def best_def lwwset_inv_def issued_def)

text \<open>
  Geofences converge: regions that merged the same peers in any order agree on which fences
  exist and on their definitions, provided no stamp was issued for two different definitions.
\<close>

theorem geofences_converge:
  assumes "lwwset_inv g s" and "\<forall>t\<in>set ts. lwwset_inv g t" and "set ts = set us"
  shows "lwwset_has (pull_all lwwset_merge ts s) e = lwwset_has (pull_all lwwset_merge us s) e
    \<and> lwwset_get (pull_all lwwset_merge ts s) e = lwwset_get (pull_all lwwset_merge us s) e"
proof -
  have us: "\<forall>t\<in>set us. lwwset_inv g t" using assms by simp
  note same = lwwset.pull_converges [OF assms]
  show ?thesis
    unfolding lwwset_has_abs same lwwset_get_abs [OF lwwset.pull_inv [OF assms(1,2)]]
      lwwset_get_abs [OF lwwset.pull_inv [OF assms(1) us]] by simp
qed

theorem geofences_converge_witness:
  "let st = (\<lambda>n v. \<lparr>st_hlc = \<lparr>hl = n, hc = 0\<rparr>, st_regionId = ''eu'', st_value = Some (JStr v)\<rparr>);
       a = lwwset_add ''f'' (st 1 ''old'') lwwset_new;
       b = lwwset_add ''f'' (st 2 ''new'') lwwset_new
   in lwwset_get (pull_all lwwset_merge [a, b] lwwset_new) ''f'' =
      lwwset_get (pull_all lwwset_merge [b, a] lwwset_new) ''f''"
proof -
  let ?st = "\<lambda>n v. \<lparr>st_hlc = \<lparr>hl = n, hc = 0\<rparr>, st_regionId = ''eu'', st_value = Some (JStr v)\<rparr>"
  let ?a = "lwwset_add ''f'' (?st 1 ''old'') lwwset_new" and ?b = "lwwset_add ''f'' (?st 2 ''new'') lwwset_new"
  let ?g = "\<lambda>e k. if fst k = 1 then Some (JStr ''old'') else Some (JStr ''new'')"
  have "lwwset_inv ?g lwwset_new" "\<forall>t\<in>set [?a, ?b]. lwwset_inv ?g t"
    by (auto simp: lwwset_inv_def lwwset_new_def issued_def lwwset_add_def put_stamp_def stamp_key_def
        split: if_splits)
  from geofences_converge [OF this, of "[?b, ?a]" "''f''"] show ?thesis by (auto simp: Let_def)
qed

section \<open>LWWMap\<close>

record lww_entry =
  le_value :: "json option"
  le_clock :: vclock
  le_writer :: string
  le_deleted :: bool

type_synonym lwwmap = "(string, lww_entry) jsmap"

definition winsOver :: "lww_entry \<Rightarrow> lww_entry \<Rightarrow> bool" where
  "winsOver a b =
     (case vcCompare (le_clock a) (le_clock b) of
        Vc_after \<Rightarrow> True
      | Vc_before \<Rightarrow> False
      | Vc_equal \<Rightarrow> False
      | Vc_concurrent \<Rightarrow> le_writer a > le_writer b)"

definition lwwmap_apply :: "string \<Rightarrow> lww_entry \<Rightarrow> lwwmap \<Rightarrow> bool \<times> lwwmap" where
  "lwwmap_apply key incoming m =
     (case js_get m key of
        None \<Rightarrow> (True, js_set key incoming m)
      | Some current \<Rightarrow> if winsOver incoming current then (True, js_set key incoming m) else (False, m))"

definition lwwmap_set :: "string \<Rightarrow> json \<Rightarrow> vclock \<Rightarrow> string \<Rightarrow> lwwmap \<Rightarrow> lwwmap" where
  "lwwmap_set key v clock writer m =
     snd (lwwmap_apply key \<lparr>le_value = Some v, le_clock = clock, le_writer = writer, le_deleted = False\<rparr> m)"

definition lwwmap_delete :: "string \<Rightarrow> vclock \<Rightarrow> string \<Rightarrow> lwwmap \<Rightarrow> lwwmap" where
  "lwwmap_delete key clock writer m =
     snd (lwwmap_apply key \<lparr>le_value = None, le_clock = clock, le_writer = writer, le_deleted = True\<rparr> m)"

definition lwwmap_get :: "lwwmap \<Rightarrow> string \<Rightarrow> json option" where
  "lwwmap_get m key = (case js_get m key of None \<Rightarrow> None | Some e \<Rightarrow> if le_deleted e then None else le_value e)"

definition lwwmap_has :: "lwwmap \<Rightarrow> string \<Rightarrow> bool" where
  "lwwmap_has m key = (case js_get m key of None \<Rightarrow> False | Some e \<Rightarrow> \<not> le_deleted e)"

definition conflicts_with :: "lww_entry \<Rightarrow> lwwmap \<Rightarrow> string \<Rightarrow> bool" where
  "conflicts_with e m key =
     (case js_get m key of None \<Rightarrow> False | Some current \<Rightarrow> vcCompare (le_clock e) (le_clock current) = Vc_concurrent)"

text \<open>\<open>merge\<close> with the conflict counter of its \<open>statsOut\<close> argument.\<close>

definition lwwmap_merge :: "lwwmap \<Rightarrow> lwwmap \<Rightarrow> int \<Rightarrow> lwwmap \<times> int" where
  "lwwmap_merge m other conflicts =
     fold (\<lambda>(key, e) (m, n). (snd (lwwmap_apply key e m), if conflicts_with e m key then n + 1 else n))
       other (m, conflicts)"

definition lwwmap_fromJSON :: "(string, lww_entry) jsmap \<Rightarrow> lwwmap" where
  "lwwmap_fromJSON entries = fold (\<lambda>(key, e) m. snd (lwwmap_apply key e m)) entries []"

definition better :: "lww_entry option \<Rightarrow> lww_entry option \<Rightarrow> lww_entry option" where
  "better a b = (case a of None \<Rightarrow> b | Some x \<Rightarrow> (case b of None \<Rightarrow> a | Some y \<Rightarrow> if winsOver y x then b else a))"

lemma lwwmap_get_apply:
  "js_get (snd (lwwmap_apply key e m)) k = (if k = key then better (js_get m key) (Some e) else js_get m k)"
  by (auto simp: lwwmap_apply_def better_def split: option.splits)

lemma lwwmap_merge_get:
  "wf_map other \<Longrightarrow> js_get (fst (lwwmap_merge m other n)) k = better (js_get m k) (js_get other k)"
proof (induction other arbitrary: m n)
  case Nil
  then show ?case by (simp add: lwwmap_merge_def better_def split: option.split)
next
  case (Cons p other)
  obtain key e where p: "p = (key, e)" by fastforce
  have step: "lwwmap_merge m (p # other) n =
      lwwmap_merge (snd (lwwmap_apply key e m)) other (if conflicts_with e m key then n + 1 else n)"
    by (simp add: lwwmap_merge_def p)
  have "js_get other key = None" using Cons.prems p by (simp add: map_of_eq_None_iff)
  then show ?case
    unfolding step using Cons p by (auto simp: lwwmap_get_apply better_def split: option.splits)
qed

lemma wf_lwwmap_apply [simp, map_wf]: "wf_map m \<Longrightarrow> wf_map (snd (lwwmap_apply key e m))"
  by (simp add: lwwmap_apply_def split: option.split)

lemma lwwmap_fold_apply:
  "wf_map es \<Longrightarrow> wf_map m \<Longrightarrow> wf_map (fold (\<lambda>(key, e) m. snd (lwwmap_apply key e m)) es m) \<and>
     js_get (fold (\<lambda>(key, e) m. snd (lwwmap_apply key e m)) es m) k = better (js_get m k) (js_get es k)"
proof (induction es arbitrary: m)
  case Nil
  then show ?case by (simp add: better_def split: option.split)
next
  case (Cons p es)
  obtain key e where p: "p = (key, e)" by fastforce
  have "js_get es key = None" using Cons.prems p by (simp add: map_of_eq_None_iff)
  then show ?case
    using Cons.IH [of "snd (lwwmap_apply key e m)"] Cons.prems p
    by (auto simp: lwwmap_get_apply better_def split: option.splits)
qed

lemma lwwmap_restore:
  "wf_map es \<Longrightarrow> wf_map (lwwmap_fromJSON es) \<and> js_get (lwwmap_fromJSON es) k = js_get es k"
  using lwwmap_fold_apply [of es "[]"] by (simp add: lwwmap_fromJSON_def better_def)

text \<open>
  Two writes to a key are \<open>distinguishable\<close> when equal clocks mean the same write and concurrent
  ones come from different regions, which holds for the writes the coordinator issues.
\<close>

definition distinguishable :: "lww_entry \<Rightarrow> lww_entry \<Rightarrow> bool" where
  "distinguishable a b \<longleftrightarrow>
     (vcCompare (le_clock a) (le_clock b) = Vc_equal \<longrightarrow> a = b) \<and>
     (vcCompare (le_clock a) (le_clock b) = Vc_concurrent \<longrightarrow> le_writer a \<noteq> le_writer b)"

lemma winsOver_total:
  assumes "distinguishable a b" and "a \<noteq> b"
  shows "winsOver a b \<longleftrightarrow> \<not> winsOver b a"
  using assms by (auto simp: distinguishable_def winsOver_def vcCompare_spec split: if_splits)

lemma winsOver_irrefl: "\<not> winsOver a a"
  by (simp add: winsOver_def vcCompare_spec)

text \<open>
  Sessions after an exchange between two regions: both end with the same entry for every key,
  and it is the causally later one when the clocks are ordered.
\<close>

theorem lww_map_pairwise:
  assumes "wf_map m" and "wf_map m'"
    and "\<forall>k a b. js_get m k = Some a \<and> js_get m' k = Some b \<longrightarrow> distinguishable a b"
  shows "js_get (fst (lwwmap_merge m m' n)) k = js_get (fst (lwwmap_merge m' m n')) k
    \<and> (\<forall>a b. js_get m k = Some a \<and> js_get m' k = Some b \<and> vcCompare (le_clock a) (le_clock b) = Vc_before \<longrightarrow>
         js_get (fst (lwwmap_merge m m' n)) k = Some b)"
proof -
  have "better (js_get m k) (js_get m' k) = better (js_get m' k) (js_get m k)"
    using assms(3) winsOver_total winsOver_irrefl
    by (cases "js_get m k"; cases "js_get m' k") (auto simp: better_def; metis)+
  moreover have "winsOver b a" if "vcCompare (le_clock a) (le_clock b) = Vc_before" for a b
    using that by (auto simp: winsOver_def vcCompare_spec split: if_splits)
  ultimately show ?thesis
    by (auto simp: lwwmap_merge_get [OF assms(1)] lwwmap_merge_get [OF assms(2)] better_def)
qed

definition region_write :: "string \<Rightarrow> vclock \<Rightarrow> lww_entry" where
  "region_write region clock = \<lparr>le_value = Some (JStr region), le_clock = clock, le_writer = region, le_deleted = False\<rparr>"

theorem lww_map_pairwise_witness:
  "js_get (fst (lwwmap_merge [(''k'', region_write ''eu'' [(''eu'', 1)])] [(''k'', region_write ''us'' [(''us'', 1)])] 0)) ''k'' =
   js_get (fst (lwwmap_merge [(''k'', region_write ''us'' [(''us'', 1)])] [(''k'', region_write ''eu'' [(''eu'', 1)])] 0)) ''k''"
proof -
  let ?m = "[(''k'', region_write ''eu'' [(''eu'', 1)])]" and ?m' = "[(''k'', region_write ''us'' [(''us'', 1)])]"
  have "vcCompare [(''eu'', 1)] [(''us'', 1)] = Vc_concurrent" by code_simp
  then have "\<forall>k a b. js_get ?m k = Some a \<and> js_get ?m' k = Some b \<longrightarrow> distinguishable a b"
    by (auto simp: distinguishable_def region_write_def split: if_splits)
  from lww_map_pairwise [OF _ _ this] show ?thesis by simp
qed

text \<open>
  Three regions need not converge: with one write each, where \<open>ap\<close> saw the write of \<open>us\<close> and
  \<open>eu\<close> saw neither, \<open>ap\<close> beats \<open>us\<close> by its clock, \<open>us\<close> beats \<open>eu\<close> and \<open>eu\<close> beats \<open>ap\<close> by the
  region name, and two orders of merging the same three maps end with different values.
\<close>

theorem lww_map_three_way_diverges:
  "let us = [(''k'', region_write ''us'' [(''us'', 1)])];
       ap = [(''k'', region_write ''ap'' [(''us'', 1), (''ap'', 1)])];
       eu = [(''k'', region_write ''eu'' [(''eu'', 1)])];
       mrg = (\<lambda>a b. fst (lwwmap_merge a b 0))
   in lwwmap_get (mrg (mrg ap us) eu) ''k'' = Some (JStr ''eu'')
    \<and> lwwmap_get (mrg (mrg eu us) ap) ''k'' = Some (JStr ''ap'')
    \<and> lwwmap_get (mrg (mrg ap eu) us) ''k'' = Some (JStr ''us'')"
  by code_simp

end
