(* ===== verification/Rga.thy ===== *)
theory Rga
  imports Crdt
begin

text \<open>
  The message order of \<open>src/multi-region.js\<close>: \<open>makeMessageId\<close>, \<open>compareMessageIds\<close> and the
  replicated growable array \<open>RGASequence\<close>. The depth-first traversal is a loop over a stack; it is
  modelled with fuel, and as many steps as there are nodes are enough unless a node carries the
  reserved id of the virtual head.
\<close>

declare map_of_eq_Some_iff [simp del] Some_eq_map_of_iff [simp del]

section \<open>Message identifiers\<close>

definition compareMessageIds :: "string \<Rightarrow> string \<Rightarrow> int" where
  "compareMessageIds a b = (if a < b then -1 else if a > b then 1 else 0)"

definition makeMessageId :: "hlc \<Rightarrow> string \<Rightarrow> int \<Rightarrow> string" where
  "makeMessageId stamp regionId localSeq =
     pad_start 15 (CHR ''0'') (int_str (hl stamp)) @ '':'' @
     pad_start 6 (CHR ''0'') (int_str (hc stamp)) @ '':'' @ regionId @ '':'' @
     pad_start 12 (CHR ''0'') (int_str localSeq)"

section \<open>RGASequence\<close>

record rga_node =
  rn_id :: string
  rn_originLeft :: "string option"
  rn_value :: json
  rn_tombstoned :: bool

type_synonym rga = "(string, rga_node) jsmap"

definition rga_insert :: "string \<Rightarrow> string option \<Rightarrow> json \<Rightarrow> bool \<Rightarrow> rga \<Rightarrow> rga" where
  "rga_insert i originLeft v tombstoned s =
     (case js_get s i of
        Some existing \<Rightarrow> js_set i (existing\<lparr>rn_tombstoned := rn_tombstoned existing \<or> tombstoned\<rparr>) s
      | None \<Rightarrow> js_set i \<lparr>rn_id = i, rn_originLeft = originLeft, rn_value = v, rn_tombstoned = tombstoned\<rparr> s)"

definition rga_remove :: "string \<Rightarrow> rga \<Rightarrow> bool \<times> rga" where
  "rga_remove i s =
     (case js_get s i of
        None \<Rightarrow> (False, s)
      | Some node \<Rightarrow> (True, js_set i (node\<lparr>rn_tombstoned := True\<rparr>) s))"

definition rga_has :: "rga \<Rightarrow> string \<Rightarrow> bool" where
  "rga_has s i = (case js_get s i of None \<Rightarrow> False | Some node \<Rightarrow> \<not> rn_tombstoned node)"

definition rga_get :: "rga \<Rightarrow> string \<Rightarrow> json option" where
  "rga_get s i = map_option rn_value (js_get s i)"

definition head_key :: string where
  "head_key = CHR 0x00 # ''head''"

definition child_key :: "rga_node \<Rightarrow> string" where
  "child_key node = (case rn_originLeft node of None \<Rightarrow> head_key | Some o' \<Rightarrow> o')"

definition rga_nodes :: "rga \<Rightarrow> rga_node list" where
  "rga_nodes s = map snd s"

definition bucket :: "rga_node list \<Rightarrow> string \<Rightarrow> rga_node list" where
  "bucket nodes key = sort_key rn_id (filter (\<lambda>node. child_key node = key) nodes)"

text \<open>The loop of \<open>traverse\<close>; the top of the stack is the head of the list.\<close>

fun traverse_loop :: "nat \<Rightarrow> rga_node list \<Rightarrow> rga_node list \<Rightarrow> rga_node list option" where
  "traverse_loop n nodes [] = Some []"
| "traverse_loop 0 nodes (node # stack) = None"
| "traverse_loop (Suc n) nodes (node # stack) =
     map_option (Cons node) (traverse_loop n nodes (bucket nodes (rn_id node) @ stack))"

definition traverse :: "rga \<Rightarrow> rga_node list option" where
  "traverse s = traverse_loop (length s) (rga_nodes s) (bucket (rga_nodes s) head_key)"

definition rga_toArray :: "rga \<Rightarrow> (string \<times> json \<times> nat) list option" where
  "rga_toArray s =
     map_option (\<lambda>ns. let vs = filter (\<lambda>node. \<not> rn_tombstoned node) ns
                      in map (\<lambda>(node, i). (rn_id node, rn_value node, i)) (zip vs [0..<length vs]))
       (traverse s)"

fun index_from :: "rga_node list \<Rightarrow> string \<Rightarrow> int \<Rightarrow> int" where
  "index_from [] i n = -1"
| "index_from (node # ns) i n =
     (if rn_tombstoned node then index_from ns i n
      else if rn_id node = i then n else index_from ns i (n + 1))"

definition rga_indexOf :: "rga \<Rightarrow> string \<Rightarrow> int option" where
  "rga_indexOf s i = map_option (\<lambda>ns. index_from ns i 0) (traverse s)"

definition lastVisibleId :: "rga \<Rightarrow> string option option" where
  "lastVisibleId s = map_option (\<lambda>items. if items = [] then None else Some (fst (last items))) (rga_toArray s)"

definition rga_merge :: "rga \<Rightarrow> rga \<Rightarrow> rga" where
  "rga_merge s other =
     fold (\<lambda>node. rga_insert (rn_id node) (rn_originLeft node) (rn_value node) (rn_tombstoned node))
       (rga_nodes other) s"

definition rga_fromJSON :: "rga_node list \<Rightarrow> rga" where
  "rga_fromJSON ns =
     fold (\<lambda>node. rga_insert (rn_id node) (rn_originLeft node) (rn_value node) (rn_tombstoned node)) ns []"

section \<open>Well-formed sequences\<close>

definition rga_wf :: "rga \<Rightarrow> bool" where
  "rga_wf s \<longleftrightarrow> wf_map s \<and> (\<forall>i node. js_get s i = Some node \<longrightarrow> rn_id node = i)"

lemma rga_wf_insert [inv_intros]: "rga_wf s \<Longrightarrow> rga_wf (rga_insert i p v t s)"
  by (auto simp: rga_wf_def rga_insert_def split: option.splits if_splits)

lemma rga_wf_remove [inv_intros]: "rga_wf s \<Longrightarrow> rga_wf (snd (rga_remove i s))"
  by (auto simp: rga_wf_def rga_remove_def split: option.splits if_splits)

lemma rga_wf_fold:
  "rga_wf s \<Longrightarrow> rga_wf (fold (\<lambda>node. rga_insert (rn_id node) (rn_originLeft node) (rn_value node) (rn_tombstoned node)) ns s)"
  by (induction ns arbitrary: s) (auto simp: rga_wf_insert)

lemma rga_wf_merge [inv_intros]: "rga_wf s \<Longrightarrow> rga_wf (rga_merge s t)"
  unfolding rga_merge_def by (rule rga_wf_fold)

lemma rga_node_iff:
  assumes "rga_wf s" shows "node \<in> set (rga_nodes s) \<longleftrightarrow> js_get s (rn_id node) = Some node"
proof
  assume "node \<in> set (rga_nodes s)"
  then obtain i where "(i, node) \<in> set s" by (auto simp: rga_nodes_def)
  then have "js_get s i = Some node" using assms by (simp add: rga_wf_def js_get_SomeI)
  then show "js_get s (rn_id node) = Some node" using assms unfolding rga_wf_def by metis
next
  assume "js_get s (rn_id node) = Some node"
  then show "node \<in> set (rga_nodes s)" by (force simp: rga_nodes_def dest: map_of_SomeD)
qed

lemma rga_nodes_ids:
  assumes "rga_wf s" shows "map rn_id (rga_nodes s) = js_keys s"
proof -
  have "rn_id (snd p) = fst p" if "p \<in> set s" for p
    using that assms js_get_SomeI [of s "fst p" "snd p"] unfolding rga_wf_def by simp
  then show ?thesis by (simp add: rga_nodes_def)
qed

lemma rga_nodes_distinct: "rga_wf s \<Longrightarrow> distinct (map rn_id (rga_nodes s))"
  by (simp only: rga_nodes_ids) (simp add: rga_wf_def)

section \<open>The traversal ends, is complete and puts parents first\<close>

lemma set_bucket [simp]: "set (bucket nodes k) = {n \<in> set nodes. child_key n = k}"
  by (auto simp: bucket_def)

lemma distinct_bucket: "distinct nodes \<Longrightarrow> distinct (bucket nodes k)"
  by (simp add: bucket_def)

definition visiting :: "rga_node list \<Rightarrow> rga_node list \<Rightarrow> rga_node list \<Rightarrow> bool" where
  "visiting nodes vis stack \<longleftrightarrow> distinct (vis @ stack) \<and> set (vis @ stack) \<subseteq> set nodes \<and>
     (\<forall>n\<in>set nodes. n \<in> set (vis @ stack) \<longleftrightarrow> child_key n = head_key \<or> child_key n \<in> rn_id ` set vis)"

lemma visiting_start: "distinct nodes \<Longrightarrow> visiting nodes [] (bucket nodes head_key)"
  by (auto simp: visiting_def distinct_bucket)

lemma visiting_step:
  assumes "visiting nodes vis (node # stack)" and ids: "distinct (map rn_id nodes)"
    and head: "head_key \<notin> rn_id ` set nodes"
  shows "visiting nodes (vis @ [node]) (bucket nodes (rn_id node) @ stack)"
proof -
  have dist: "distinct (vis @ node # stack)" and sub: "set (vis @ node # stack) \<subseteq> set nodes"
    and iff: "\<And>n. n \<in> set nodes \<Longrightarrow> n \<in> set (vis @ node # stack) \<longleftrightarrow>
      child_key n = head_key \<or> child_key n \<in> rn_id ` set vis"
    using assms(1) by (auto simp: visiting_def)
  have inj: "inj_on rn_id (set nodes)" using ids by (simp add: distinct_map)
  have "node \<in> set nodes" using sub by simp
  then have "rn_id node \<noteq> head_key" using head by (metis imageI)
  moreover have "rn_id node \<notin> rn_id ` set vis"
    using inj dist sub by (auto simp: inj_on_def)
  ultimately have fresh: "n \<notin> set (vis @ node # stack)" if "n \<in> set nodes" "child_key n = rn_id node" for n
    using iff [OF that(1)] that(2) by simp
  have "distinct (bucket nodes (rn_id node))" using ids by (simp add: distinct_map distinct_bucket)
  then have "distinct ((vis @ [node]) @ bucket nodes (rn_id node) @ stack)"
    using dist fresh by auto
  then show ?thesis using sub iff fresh by (auto simp: visiting_def)
qed

lemma visiting_length: "visiting nodes vis stack \<Longrightarrow> length vis + length stack \<le> length nodes"
  unfolding visiting_def by (metis card_length card_mono distinct_card finite_set length_append order_trans)

definition parents_first :: "rga_node list \<Rightarrow> rga_node list \<Rightarrow> bool" where
  "parents_first vis out \<longleftrightarrow> (\<forall>xs n ys. out = xs @ n # ys \<longrightarrow>
     child_key n = head_key \<or> child_key n \<in> rn_id ` set (vis @ xs))"

lemma parents_first_Cons:
  assumes "child_key node = head_key \<or> child_key node \<in> rn_id ` set vis" and "parents_first (vis @ [node]) out"
  shows "parents_first vis (node # out)"
  unfolding parents_first_def
proof (intro allI impI)
  fix xs n ys assume split: "node # out = xs @ n # ys"
  show "child_key n = head_key \<or> child_key n \<in> rn_id ` set (vis @ xs)"
  proof (cases xs)
    case (Cons x xs')
    then have "out = xs' @ n # ys" and "x = node" using split by auto
    with assms(2) Cons show ?thesis unfolding parents_first_def by fastforce
  qed (use split assms(1) in auto)
qed

lemma traverse_loop_total:
  assumes ids: "distinct (map rn_id nodes)" and head: "head_key \<notin> rn_id ` set nodes"
    and "visiting nodes vis stack" and "length nodes - length vis \<le> fuel"
  shows "\<exists>out. traverse_loop fuel nodes stack = Some out \<and> visiting nodes (vis @ out) [] \<and> parents_first vis out"
  using assms(3,4)
proof (induction fuel arbitrary: vis stack)
  case 0
  then have "length stack = 0" using visiting_length [OF 0(1)] by linarith
  then have "stack = []" by simp
  with 0 show ?case by (simp add: parents_first_def)
next
  case (Suc fuel)
  show ?case
  proof (cases stack)
    case Nil
    with Suc.prems show ?thesis by (simp add: parents_first_def)
  next
    case (Cons node st)
    note step = visiting_step [OF Suc.prems(1) [unfolded Cons] ids head]
    have "length nodes - length (vis @ [node]) \<le> fuel" using Suc.prems(2) by simp
    from Suc.IH [OF step this] obtain out where
      out: "traverse_loop fuel nodes (bucket nodes (rn_id node) @ st) = Some out"
      "visiting nodes ((vis @ [node]) @ out) []" "parents_first (vis @ [node]) out" by blast
    have "child_key node = head_key \<or> child_key node \<in> rn_id ` set vis"
      using Suc.prems(1) Cons by (auto simp: visiting_def)
    from parents_first_Cons [OF this out(3)] out(1,2) Cons show ?thesis by simp
  qed
qed

lemma traverse_total:
  assumes "rga_wf s" and "js_get s head_key = None"
  shows "\<exists>out. traverse s = Some out \<and> visiting (rga_nodes s) out [] \<and> parents_first [] out"
proof -
  note ids = rga_nodes_distinct [OF assms(1)]
  have head: "head_key \<notin> rn_id ` set (rga_nodes s)"
    using rga_nodes_ids [OF assms(1)] assms(2) by (metis map_of_eq_None_iff image_set set_map)
  have "visiting (rga_nodes s) [] (bucket (rga_nodes s) head_key)"
    using ids by (intro visiting_start) (simp add: distinct_map)
  from traverse_loop_total [OF ids head this, of "length s"] show ?thesis
    by (simp add: traverse_def rga_nodes_def)
qed

section \<open>The traversal depends only on the set of nodes\<close>

lemma bucket_cong:
  assumes "set ns = set ms" and "distinct (map rn_id ns)" and "distinct (map rn_id ms)"
  shows "bucket ns k = bucket ms k"
proof (rule map_sorted_distinct_set_unique [where f = rn_id])
  have inj: "inj_on rn_id (set ns)" using assms(2) by (simp add: distinct_map)
  show "inj_on rn_id (set (bucket ns k) \<union> set (bucket ms k))"
    by (rule inj_on_subset [OF inj]) (use assms(1) in auto)
  show "sorted (map rn_id (bucket ns k))" "sorted (map rn_id (bucket ms k))" by (simp_all add: bucket_def)
  have "distinct (map rn_id (bucket xs k))" if "distinct (map rn_id xs)" for xs
    using that by (auto simp: distinct_map distinct_bucket intro: inj_on_subset)
  then show "distinct (map rn_id (bucket ns k))" "distinct (map rn_id (bucket ms k))" using assms(2,3) by auto
  show "set (bucket ns k) = set (bucket ms k)" using assms(1) by simp
qed

lemma traverse_loop_cong:
  assumes "\<And>k. bucket ns k = bucket ms k"
  shows "traverse_loop fuel ns stack = traverse_loop fuel ms stack"
  using assms
proof (induction fuel arbitrary: stack)
  case 0
  then show ?case by (cases stack) simp_all
next
  case (Suc fuel)
  then show ?case by (cases stack) (simp_all add: Suc.prems)
qed

lemma traverse_cong:
  assumes "rga_wf s" and "rga_wf t" and "set (rga_nodes s) = set (rga_nodes t)"
  shows "traverse s = traverse t"
proof -
  note ids = rga_nodes_distinct [OF assms(1)] rga_nodes_distinct [OF assms(2)]
  note b = bucket_cong [OF assms(3) ids]
  have "length (rga_nodes s) = length (rga_nodes t)"
    using assms(3) ids by (metis distinct_card distinct_map)
  then have len: "length s = length t" by (simp add: rga_nodes_def)
  show ?thesis unfolding traverse_def len b [of head_key] by (rule traverse_loop_cong) (rule b)
qed

section \<open>Convergence\<close>

text \<open>
  Ids are unique: the predecessor and the payload of a node are a function \<open>g\<close> of its id. The
  abstract state is the set of known ids and the set of tombstoned ids.
\<close>

definition rga_inv :: "(string \<Rightarrow> string option \<times> json) \<Rightarrow> rga \<Rightarrow> bool" where
  "rga_inv g s \<longleftrightarrow> rga_wf s \<and> (\<forall>i n. js_get s i = Some n \<longrightarrow> (rn_originLeft n, rn_value n) = g i)"

definition rga_abs :: "rga \<Rightarrow> string set \<times> string set" where
  "rga_abs s = ({i. js_has s i}, {i. \<exists>n. js_get s i = Some n \<and> rn_tombstoned n})"

lemma rga_abs_insert:
  "rga_abs (rga_insert i p v t s) = pair_union (rga_abs s) ({i}, if t then {i} else {})"
  by (auto simp: rga_abs_def pair_union_def rga_insert_def split: option.splits if_splits)

lemma rga_inv_insert: "rga_inv g s \<Longrightarrow> (p, v) = g i \<Longrightarrow> rga_inv g (rga_insert i p v t s)"
  using rga_wf_insert [of s i p v t]
  by (auto simp: rga_inv_def rga_insert_def split: option.splits if_splits)

lemma rga_fold_insert:
  assumes "\<forall>n\<in>set ns. (rn_originLeft n, rn_value n) = g (rn_id n)" and "rga_inv g s"
  shows "rga_abs (fold (\<lambda>n. rga_insert (rn_id n) (rn_originLeft n) (rn_value n) (rn_tombstoned n)) ns s) =
      pair_union (rga_abs s) (rn_id ` set ns, rn_id ` {n \<in> set ns. rn_tombstoned n})
    \<and> rga_inv g (fold (\<lambda>n. rga_insert (rn_id n) (rn_originLeft n) (rn_value n) (rn_tombstoned n)) ns s)"
  using assms
proof (induction ns arbitrary: s)
  case (Cons n ns)
  then show ?case
    using Cons.IH [of "rga_insert (rn_id n) (rn_originLeft n) (rn_value n) (rn_tombstoned n) s"]
    by (auto simp: rga_inv_insert rga_abs_insert pair_union_def)
qed (simp add: pair_union_def)

lemma rga_ids_where:
  assumes "rga_wf t"
  shows "i \<in> rn_id ` {n \<in> set (rga_nodes t). P n} \<longleftrightarrow> (\<exists>n. js_get t i = Some n \<and> P n)"
proof
  assume "i \<in> rn_id ` {n \<in> set (rga_nodes t). P n}"
  then obtain n where "n \<in> set (rga_nodes t)" "P n" "i = rn_id n" by blast
  then show "\<exists>n. js_get t i = Some n \<and> P n" using rga_node_iff [OF assms] by blast
next
  assume "\<exists>n. js_get t i = Some n \<and> P n"
  then obtain n where n: "js_get t i = Some n" "P n" by blast
  then have "rn_id n = i" using assms unfolding rga_wf_def by blast
  with n have "n \<in> set (rga_nodes t)" using rga_node_iff [OF assms] by blast
  with n \<open>rn_id n = i\<close> show "i \<in> rn_id ` {n \<in> set (rga_nodes t). P n}" by blast
qed

lemma rga_abs_nodes:
  assumes "rga_wf t"
  shows "(rn_id ` set (rga_nodes t), rn_id ` {n \<in> set (rga_nodes t). rn_tombstoned n}) = rga_abs t"
proof -
  have "rn_id ` set (rga_nodes t) = {i. js_has t i}"
    using rga_ids_where [OF assms, where P = "\<lambda>_. True"] by (auto simp del: set_map)
  moreover have "rn_id ` {n \<in> set (rga_nodes t). rn_tombstoned n} = {i. \<exists>n. js_get t i = Some n \<and> rn_tombstoned n}"
    using rga_ids_where [OF assms, where P = rn_tombstoned] by blast
  ultimately show ?thesis by (simp add: rga_abs_def)
qed

lemma rga_merge_abs:
  assumes "rga_inv g s" and "rga_inv g t"
  shows "rga_abs (rga_merge s t) = pair_union (rga_abs s) (rga_abs t)" and "rga_inv g (rga_merge s t)"
proof -
  have wf: "rga_wf t" using assms(2) by (simp add: rga_inv_def)
  have "\<forall>n\<in>set (rga_nodes t). (rn_originLeft n, rn_value n) = g (rn_id n)"
    using assms(2) rga_node_iff [OF wf] by (auto simp: rga_inv_def)
  from rga_fold_insert [OF this assms(1)] rga_abs_nodes [OF wf]
  show "rga_abs (rga_merge s t) = pair_union (rga_abs s) (rga_abs t)" and "rga_inv g (rga_merge s t)"
    by (simp_all add: rga_merge_def)
qed

lemma rga_restore:
  assumes "rga_inv g t"
  shows "rga_abs (rga_fromJSON (rga_nodes t)) = rga_abs t" and "rga_inv g (rga_fromJSON (rga_nodes t))"
proof -
  have wf: "rga_wf t" using assms by (simp add: rga_inv_def)
  have "\<forall>n\<in>set (rga_nodes t). (rn_originLeft n, rn_value n) = g (rn_id n)"
    using assms rga_node_iff [OF wf] by (auto simp: rga_inv_def)
  moreover have "rga_inv g []" and "rga_abs [] = ({}, {})" by (simp_all add: rga_inv_def rga_wf_def rga_abs_def)
  ultimately show "rga_abs (rga_fromJSON (rga_nodes t)) = rga_abs t" and "rga_inv g (rga_fromJSON (rga_nodes t))"
    using rga_fold_insert [of "rga_nodes t" g "[]"] rga_abs_nodes [OF wf]
    by (simp_all add: rga_fromJSON_def pair_union_def)
qed

interpretation rga: replica "rga_inv g" rga_merge rga_abs pair_union for g
  by unfold_locales (auto simp: pair_union_def rga_merge_abs)

lemma rga_get_abs:
  assumes "rga_inv g s"
  shows "js_get s i = (if i \<in> fst (rga_abs s)
    then Some \<lparr>rn_id = i, rn_originLeft = fst (g i), rn_value = snd (g i), rn_tombstoned = i \<in> snd (rga_abs s)\<rparr>
    else None)"
proof (cases "js_get s i")
  case (Some n)
  then have "rn_id n = i" "g i = (rn_originLeft n, rn_value n)"
    using assms unfolding rga_inv_def rga_wf_def by metis+
  with Some show ?thesis by (cases n) (auto simp: rga_abs_def)
qed (simp add: rga_abs_def)

lemma rga_traverse_abs:
  assumes "rga_inv g s" and "rga_inv g t" and "rga_abs s = rga_abs t"
  shows "traverse s = traverse t"
proof (rule traverse_cong)
  show wf: "rga_wf s" "rga_wf t" using assms(1,2) by (auto simp: rga_inv_def)
  have "js_get s = js_get t"
    using rga_get_abs [OF assms(1)] rga_get_abs [OF assms(2)] assms(3) by (simp add: fun_eq_iff)
  then show "set (rga_nodes s) = set (rga_nodes t)"
    using rga_node_iff [OF wf(1)] rga_node_iff [OF wf(2)] by (metis subsetI subset_antisym)
qed

section \<open>Order of message identifiers\<close>

lemma append_less_append:
  "length xs = length ys \<Longrightarrow> xs @ as < ys @ bs \<longleftrightarrow> xs < ys \<or> xs = ys \<and> as < bs"
  for xs ys as bs :: "'a::linorder list"
  by (induction xs ys rule: list_induct2) auto

fun fixed_digits :: "nat \<Rightarrow> nat \<Rightarrow> string" where
  "fixed_digits 0 n = []"
| "fixed_digits (Suc w) n = fixed_digits w (n div 10) @ [digit_char (n mod 10)]"

lemma length_fixed_digits [simp]: "length (fixed_digits w n) = w"
  by (induction w n rule: fixed_digits.induct) simp_all

lemma digit_char_0 [simp]: "digit_char 0 = CHR ''0''"
  by code_simp

lemma digit_char_mod [simp]: "digit_char (n mod 10) = digit_char n"
  by (simp add: digit_char_def)

lemma fixed_digits_0: "fixed_digits w 0 = replicate w (CHR ''0'')"
  by (induction w) (simp_all add: replicate_append_same)

lemma pad_start_Suc_snoc: "pad_start (Suc w) c (xs @ [x]) = pad_start w c xs @ [x]"
  by (simp add: pad_start_def)

lemma pad_nat_str: "n < 10 ^ w \<Longrightarrow> 0 < w \<Longrightarrow> pad_start w (CHR ''0'') (nat_str n) = fixed_digits w n"
proof (induction w arbitrary: n)
  case (Suc w)
  show ?case
  proof (cases "n < 10")
    case True
    then show ?thesis by (subst nat_str.simps) (simp add: pad_start_def fixed_digits_0)
  next
    case False
    then have "w \<noteq> 0" using Suc.prems by (cases w) auto
    moreover have "n div 10 < 10 ^ w" using Suc.prems by (simp add: less_mult_imp_div_less)
    ultimately have "pad_start w (CHR ''0'') (nat_str (n div 10)) = fixed_digits w (n div 10)"
      using Suc.IH by simp
    with False show ?thesis by (subst nat_str.simps) (simp add: pad_start_Suc_snoc)
  qed
qed simp

lemma fixed_digits_less:
  "m < 10 ^ w \<Longrightarrow> n < 10 ^ w \<Longrightarrow> fixed_digits w m < fixed_digits w n \<longleftrightarrow> m < n"
proof (induction w arbitrary: m n)
  case (Suc w)
  have "m div 10 < 10 ^ w" "n div 10 < 10 ^ w" using Suc.prems by (simp_all add: less_mult_imp_div_less)
  note IH = Suc.IH [OF this] Suc.IH [OF this(2,1)]
  have eq: "fixed_digits w (m div 10) = fixed_digits w (n div 10) \<longleftrightarrow> m div 10 = n div 10"
    using IH by (metis less_irrefl linorder_neqE_nat)
  have "m = 10 * (m div 10) + m mod 10" "n = 10 * (n div 10) + n mod 10" by simp_all
  moreover have "m mod 10 < 10" "n mod 10 < 10" by simp_all
  ultimately have "m < n \<longleftrightarrow> m div 10 < n div 10 \<or> m div 10 = n div 10 \<and> m mod 10 < n mod 10" by linarith
  moreover have "digit_char m < digit_char n \<longleftrightarrow> m mod 10 < n mod 10"
    using digit_char_less [of "m mod 10" "n mod 10"] by simp
  ultimately show ?case using IH(1) eq by (simp add: append_less_append)
qed simp

lemma fixed_digits_eq: "m < 10 ^ w \<Longrightarrow> n < 10 ^ w \<Longrightarrow> fixed_digits w m = fixed_digits w n \<longleftrightarrow> m = n"
  by (metis fixed_digits_less less_irrefl linorder_neqE_nat)

definition in_width :: "int \<Rightarrow> nat \<Rightarrow> bool" where
  "in_width n w \<longleftrightarrow> 0 \<le> n \<and> n < 10 ^ w"

lemma pad_int_str:
  "in_width n w \<Longrightarrow> 0 < w \<Longrightarrow> pad_start w (CHR ''0'') (int_str n) = fixed_digits w (nat n)"
  by (simp add: in_width_def int_str_def pad_nat_str nat_less_iff)

text \<open>
  Message ids sort like the events they name: as long as the fields fit their fixed widths,
  the lexicographic order of two ids is the order of the clock readings, and of the sequence
  numbers for the same reading and region; and different events never share an id.
\<close>

theorem message_id_order:
  assumes "in_width (hl a) 15" "in_width (hc a) 6" "in_width n 12"
    and "in_width (hl b) 15" "in_width (hc b) 6" "in_width m 12"
  shows "(hlc_compare a b < 0 \<longrightarrow> compareMessageIds (makeMessageId a r n) (makeMessageId b q m) < 0)
    \<and> (a = b \<and> r = q \<longrightarrow> (compareMessageIds (makeMessageId a r n) (makeMessageId b q m) < 0 \<longleftrightarrow> n < m))
    \<and> (makeMessageId a r n = makeMessageId b q m \<longrightarrow> a = b \<and> r = q \<and> n = m)"
proof -
  note pads = assms [THEN pad_int_str, simplified]
  have nats: "nat (hl a) < 10 ^ 15" "nat (hc a) < 10 ^ 6" "nat n < 10 ^ 12"
    "nat (hl b) < 10 ^ 15" "nat (hc b) < 10 ^ 6" "nat m < 10 ^ 12"
    using assms by (simp_all add: in_width_def nat_less_iff)
  have ids: "makeMessageId a r n = fixed_digits 15 (nat (hl a)) @ '':'' @ fixed_digits 6 (nat (hc a)) @ '':'' @ r @ '':'' @ fixed_digits 12 (nat n)"
    "makeMessageId b q m = fixed_digits 15 (nat (hl b)) @ '':'' @ fixed_digits 6 (nat (hc b)) @ '':'' @ q @ '':'' @ fixed_digits 12 (nat m)"
    by (simp_all add: makeMessageId_def pads)
  note digits = fixed_digits_less [OF nats(1,4)] fixed_digits_less [OF nats(2,5)] fixed_digits_less [OF nats(3,6)]
    fixed_digits_eq [OF nats(1,4)] fixed_digits_eq [OF nats(2,5)] fixed_digits_eq [OF nats(3,6)]
  have less: "makeMessageId a r n < makeMessageId b q m" if "hlc_compare a b < 0"
    unfolding ids using that assms
    by (auto simp: append_less_append digits hlc_compare_less in_width_def nat_less_eq_zless)
  have same: "makeMessageId a r n < makeMessageId b q m \<longleftrightarrow> n < m" if "a = b" "r = q"
    unfolding ids using that assms by (auto simp: append_less_append digits in_width_def nat_less_eq_zless)
  have inj: "a = b \<and> r = q \<and> n = m" if "makeMessageId a r n = makeMessageId b q m"
    using that assms unfolding ids
    by (auto simp: append_eq_append_conv digits in_width_def eq_nat_nat_iff)
  show ?thesis using less same inj by (auto simp: compareMessageIds_def)
qed

theorem message_id_order_witness:
  "compareMessageIds (makeMessageId \<lparr>hl = 9, hc = 7\<rparr> ''us'' 1) (makeMessageId \<lparr>hl = 10, hc = 0\<rparr> ''eu'' 1) < 0"
  using message_id_order [of "\<lparr>hl = 9, hc = 7\<rparr>" 1 "\<lparr>hl = 10, hc = 0\<rparr>" 1 "''us''" "''eu''"]
  by (simp add: in_width_def hlc_compare_def)

section \<open>Properties of the sequence\<close>

text \<open>
  C36. The traversal of a room's sequence terminates and yields every node that hangs off the
  virtual head, directly or through other nodes, exactly once and after its predecessor, whatever
  the predecessors claimed by the replicated operations (cycles and missing anchors included).
\<close>

theorem rga_traverse_total:
  assumes "rga_wf s" and "js_get s head_key = None"
  shows "\<exists>out. traverse s = Some out \<and> distinct out \<and> set out \<subseteq> set (rga_nodes s)
    \<and> (\<forall>n\<in>set (rga_nodes s). n \<in> set out \<longleftrightarrow> child_key n = head_key \<or> child_key n \<in> rn_id ` set out)
    \<and> (\<forall>xs n ys. out = xs @ n # ys \<longrightarrow> child_key n = head_key \<or> child_key n \<in> rn_id ` set xs)"
proof -
  from traverse_total [OF assms] obtain out where
    out: "traverse s = Some out" "visiting (rga_nodes s) out []" "parents_first [] out" by blast
  from out(2) have "distinct out" "set out \<subseteq> set (rga_nodes s)"
    "\<forall>n\<in>set (rga_nodes s). n \<in> set out \<longleftrightarrow> child_key n = head_key \<or> child_key n \<in> rn_id ` set out"
    by (simp_all add: visiting_def)
  with out(1,3) show ?thesis by (auto simp: parents_first_def)
qed

definition two_messages :: rga where
  "two_messages = rga_insert ''m2'' (Some ''m1'') JNull False (rga_insert ''m1'' None JNull False [])"

lemma two_messages_wf: "rga_wf two_messages"
  unfolding two_messages_def by (intro rga_wf_insert) (simp add: rga_wf_def)

theorem rga_traverse_total_witness: "\<exists>out. traverse two_messages = Some out \<and> distinct out"
proof -
  have "js_get two_messages head_key = None" by code_simp
  from rga_traverse_total [OF two_messages_wf this] show ?thesis by blast
qed

text \<open>
  The global order converges: regions that merged the same peers, in any order and any number
  of times, list the same visible messages at the same positions, provided message ids are unique.
\<close>

theorem rga_converges:
  assumes "rga_inv g s" and "\<forall>t\<in>set ts. rga_inv g t" and "set ts = set us"
  shows "rga_toArray (pull_all rga_merge ts s) = rga_toArray (pull_all rga_merge us s)
    \<and> rga_indexOf (pull_all rga_merge ts s) i = rga_indexOf (pull_all rga_merge us s) i"
proof -
  have us: "\<forall>t\<in>set us. rga_inv g t" using assms by simp
  have "traverse (pull_all rga_merge ts s) = traverse (pull_all rga_merge us s)"
    by (rule rga_traverse_abs [OF rga.pull_inv [OF assms(1,2)] rga.pull_inv [OF assms(1) us]
          rga.pull_converges [OF assms]])
  then show ?thesis by (simp add: rga_toArray_def rga_indexOf_def)
qed

theorem rga_converges_witness:
  "let a = rga_insert ''m1'' None JNull False []; b = rga_insert ''m2'' None JNull True []
   in rga_toArray (pull_all rga_merge [a, b] []) = rga_toArray (pull_all rga_merge [b, a] [])"
proof -
  let ?a = "rga_insert ''m1'' None JNull False []" and ?b = "rga_insert ''m2'' None JNull True []"
  have inv: "rga_inv (\<lambda>_. (None, JNull)) []" by (simp add: rga_inv_def rga_wf_def)
  then have "\<forall>t\<in>set [?a, ?b]. rga_inv (\<lambda>_. (None, JNull)) t" by (simp add: rga_inv_insert)
  from rga_converges [OF inv this, of "[?b, ?a]"] show ?thesis by (auto simp: Let_def)
qed

end
