(* ===== verification/MultiRegion.thy ===== *)
theory MultiRegion
  imports Lww Rga
begin

text \<open>
  \<open>MultiRegionCoordinator\<close> of \<open>src/multi-region.js\<close> with the Merkle tree and the canonical JSON it
  uses. SHA-256 (\<open>node:crypto\<close>) is the parameter \<open>H\<close>; the transport is what it answers: \<open>ack peer\<close>
  for a quorum send, a probe and a snapshot for anti-entropy. \<open>Date.now()\<close> and the random tag of a
  join are arguments. An operation that replicates returns the list of the messages it sends.
  Timing metrics of merges are reduced to their count.
\<close>

declare map_of_eq_Some_iff [simp del] Some_eq_map_of_iff [simp del]

section \<open>Merkle tree and canonical JSON\<close>

fun pair_hashes :: "(string \<Rightarrow> string) \<Rightarrow> string list \<Rightarrow> string list" where
  "pair_hashes H [] = []"
| "pair_hashes H [left] = [H (left @ left)]"
| "pair_hashes H (left # right # rest) = H (left @ right) # pair_hashes H rest"

lemma length_pair_hashes: "length (pair_hashes H ls) = (length ls + 1) div 2"
  by (induction H ls rule: pair_hashes.induct) simp_all

function merkle_levels :: "(string \<Rightarrow> string) \<Rightarrow> string list \<Rightarrow> string list" where
  "merkle_levels H level = (if length level > 1 then merkle_levels H (pair_hashes H level) else level)"
  by pat_completeness auto
termination
  by (relation "measure (\<lambda>(H, level). length level)") (auto simp: length_pair_hashes)

declare merkle_levels.simps [simp del]

definition merkleRoot :: "(string \<Rightarrow> string) \<Rightarrow> string list \<Rightarrow> string" where
  "merkleRoot H leaves = (if leaves = [] then H [] else hd (merkle_levels H leaves))"

fun stableStringify :: "json \<Rightarrow> string" where
  "stableStringify (JArr vs) = ''['' @ join_with '','' (map stableStringify vs) @ '']''"
| "stableStringify (JObj m) =
     ''{'' @ join_with '','' (map (\<lambda>(k, t). quote k @ '':'' @ t)
       (sort_key fst (map (\<lambda>(k, v). (k, stableStringify v)) m))) @ ''}''"
| "stableStringify v = stringify v"

section \<open>State\<close>

record mr_config =
  dataResidency :: "(string, string list) jsmap"
  roomResidency :: "(string, string) jsmap"
  cfgQuorumSize :: "int option"
  cfgLagAlertMs :: "int option"
  selfDisabled :: bool

record mr_room =
  membership :: orset
  sequence :: rga

record mr =
  regionId :: string
  peerRegions :: "string list"
  hasTransport :: bool
  mr_cfg :: mr_config
  hlcInstance :: hlc
  vectorClock :: vclock
  localSeq :: int
  mr_rooms :: "(string, mr_room) jsmap"
  sessions :: lwwmap
  geofences :: lwwset
  failedRegions :: "string jsset"
  replicationLagMs :: "(string, int) jsmap"
  replicationConflictsTotal :: int
  mergeCount :: int
  opsReplicated :: int
  opsReceived :: int
  opsFilteredResidency :: int
  quorumWritesTotal :: int
  quorumWriteFailuresTotal :: int
  aeRuns :: int
  aeDivergences :: int
  aeRepaired :: int
  regionHealth :: "(string, bool) jsmap"

datatype payload =
    Membership_add roomId clientId string
  | Membership_remove roomId clientId "string list"
  | Message_append roomId string "string option" json
  | Message_remove roomId string
  | Session_update string json
  | Session_delete string
  | Geofence_upsert string json stamp
  | Geofence_remove string stamp
  | Global_config string json
  | Unknown_type string

record rep_op =
  op_payload :: payload
  op_vectorClock :: "vclock option"
  op_regionId :: string
  op_timestamp :: "int option"
  op_hlc :: "hlc option"
  op_residency :: "string option"

datatype mr_error = EmptyRegionId

definition new_room :: mr_room where
  "new_room = \<lparr>membership = orset_new, sequence = []\<rparr>"

definition mr_init :: "string \<Rightarrow> string list \<Rightarrow> bool \<Rightarrow> mr_config \<Rightarrow> mr_error + mr" where
  "mr_init rid peers transport cfg =
     (if rid = [] then Inl EmptyRegionId
      else Inr \<lparr>regionId = rid, peerRegions = peers, hasTransport = transport, mr_cfg = cfg,
        hlcInstance = hlc_init 0, vectorClock = [], localSeq = 0, mr_rooms = [], sessions = [],
        geofences = lwwset_new, failedRegions = [], replicationLagMs = [],
        replicationConflictsTotal = 0, mergeCount = 0, opsReplicated = 0, opsReceived = 0,
        opsFilteredResidency = 0, quorumWritesTotal = 0, quorumWriteFailuresTotal = 0, aeRuns = 0,
        aeDivergences = 0, aeRepaired = 0, regionHealth = []\<rparr>)"

section \<open>Replication plumbing\<close>

definition RESIDENCY_GLOBAL :: string where
  "RESIDENCY_GLOBAL = ''global''"

definition bumpVectorClock :: "mr \<Rightarrow> mr" where
  "bumpVectorClock s = s\<lparr>vectorClock := vcIncrement (vectorClock s) (regionId s)\<rparr>"

definition roomResidencyZone :: "mr \<Rightarrow> roomId \<Rightarrow> string" where
  "roomResidencyZone s r = (case js_get (roomResidency (mr_cfg s)) r of None \<Rightarrow> RESIDENCY_GLOBAL | Some z \<Rightarrow> z)"

definition canReplicateTo :: "mr \<Rightarrow> string \<Rightarrow> string \<Rightarrow> bool" where
  "canReplicateTo s region zone =
     (case js_get (dataResidency (mr_cfg s)) zone of None \<Rightarrow> True | Some policy \<Rightarrow> region \<in> set policy)"

definition make_op :: "int \<Rightarrow> payload \<Rightarrow> hlc option \<Rightarrow> string option \<Rightarrow> mr \<Rightarrow> rep_op" where
  "make_op now p h residency s = \<lparr>op_payload = p, op_vectorClock = Some (vectorClock s),
     op_regionId = regionId s, op_timestamp = Some now, op_hlc = h, op_residency = residency\<rparr>"

fun send_to_peers :: "string list \<Rightarrow> rep_op \<Rightarrow> mr \<Rightarrow> (string \<times> rep_op) list \<times> mr" where
  "send_to_peers [] op s = ([], s)"
| "send_to_peers (peer # peers) op s =
     (if peer \<in> set (failedRegions s) then send_to_peers peers op s
      else if \<not> canReplicateTo s peer (case op_residency op of None \<Rightarrow> RESIDENCY_GLOBAL | Some z \<Rightarrow> z)
      then send_to_peers peers op (s\<lparr>opsFilteredResidency := opsFilteredResidency s + 1\<rparr>)
      else (let (sent, s') = send_to_peers peers op (s\<lparr>opsReplicated := opsReplicated s + 1\<rparr>)
            in ((peer, op) # sent, s')))"

definition replicate_op :: "int \<Rightarrow> payload \<Rightarrow> hlc option \<Rightarrow> string option \<Rightarrow> mr \<Rightarrow> (string \<times> rep_op) list \<times> mr" where
  "replicate_op now p h residency s =
     (if \<not> hasTransport s then ([], s) else send_to_peers (peerRegions s) (make_op now p h residency s) s)"

definition quorumSize :: "mr \<Rightarrow> int" where
  "quorumSize s =
     (case cfgQuorumSize (mr_cfg s) of
        Some q \<Rightarrow> if q \<noteq> 0 then q else (int (length (peerRegions s)) + 1) div 2 + 1
      | None \<Rightarrow> (int (length (peerRegions s)) + 1) div 2 + 1)"

record quorum_result =
  committed :: bool
  acks :: int
  quorum :: int

text \<open>
  \<open>ack peer\<close> tells whether the send to \<open>peer\<close> resolves with \<open>ack: true\<close>; a rejected send, and
  every send without a transport, is no acknowledgement.
\<close>

definition quorumReplicate :: "int \<Rightarrow> (string \<Rightarrow> bool) \<Rightarrow> payload \<Rightarrow> hlc option \<Rightarrow> mr \<Rightarrow>
    quorum_result \<times> (string \<times> rep_op) list \<times> mr" where
  "quorumReplicate now ack p h s =
     (let s1 = s\<lparr>quorumWritesTotal := quorumWritesTotal s + 1\<rparr>;
          q = quorumSize s1;
          op = make_op now p h (Some RESIDENCY_GLOBAL) s1;
          targets = filter (\<lambda>peer. peer \<notin> set (failedRegions s1)) (peerRegions s1);
          n = 1 + int (length (filter (\<lambda>peer. hasTransport s1 \<and> ack peer) targets));
          done' = (n \<ge> q)
      in (\<lparr>committed = done', acks = n, quorum = q\<rparr>,
          if hasTransport s1 then map (\<lambda>peer. (peer, op)) targets else [],
          if done' then s1 else s1\<lparr>quorumWriteFailuresTotal := quorumWriteFailuresTotal s1 + 1\<rparr>))"

section \<open>Rooms, membership and messages\<close>

definition mr_ensureRoom :: "roomId \<Rightarrow> mr \<Rightarrow> mr" where
  "mr_ensureRoom r s = (if js_has (mr_rooms s) r then s else s\<lparr>mr_rooms := js_set r new_room (mr_rooms s)\<rparr>)"

definition mr_room_of :: "mr \<Rightarrow> roomId \<Rightarrow> mr_room" where
  "mr_room_of s r = (case js_get (mr_rooms s) r of None \<Rightarrow> new_room | Some room \<Rightarrow> room)"

definition set_room :: "roomId \<Rightarrow> mr_room \<Rightarrow> mr \<Rightarrow> mr" where
  "set_room r room s = s\<lparr>mr_rooms := js_set r room (mr_rooms s)\<rparr>"

definition on_membership :: "roomId \<Rightarrow> (orset \<Rightarrow> orset) \<Rightarrow> mr \<Rightarrow> mr" where
  "on_membership r f s =
     (let room = mr_room_of s r in set_room r (room\<lparr>membership := f (membership room)\<rparr>) (mr_ensureRoom r s))"

definition on_sequence :: "roomId \<Rightarrow> (rga \<Rightarrow> rga) \<Rightarrow> mr \<Rightarrow> mr" where
  "on_sequence r f s =
     (let room = mr_room_of s r in set_room r (room\<lparr>sequence := f (sequence room)\<rparr>) (mr_ensureRoom r s))"

definition joinRoom :: "int \<Rightarrow> string \<Rightarrow> clientId \<Rightarrow> roomId \<Rightarrow> string option \<Rightarrow> mr \<Rightarrow>
    string \<times> (string \<times> rep_op) list \<times> mr" where
  "joinRoom now random clientId r residency s =
     (let tag = regionId s @ '':'' @ random;
          s1 = on_membership r (orset_add clientId tag) s;
          zone = (case residency of None \<Rightarrow> roomResidencyZone s1 r | Some z \<Rightarrow> z)
      in (tag, replicate_op now (Membership_add r clientId tag) None (Some zone) s1))"

definition leaveRoom :: "int \<Rightarrow> clientId \<Rightarrow> roomId \<Rightarrow> string option \<Rightarrow> mr \<Rightarrow>
    bool \<times> string list \<times> (string \<times> rep_op) list \<times> mr" where
  "leaveRoom now clientId r residency s =
     (let tags = fst (orset_remove clientId (membership (mr_room_of s r)));
          s1 = on_membership r (\<lambda>m. snd (orset_remove clientId m)) s;
          zone = (case residency of None \<Rightarrow> roomResidencyZone s1 r | Some z \<Rightarrow> z)
      in (tags \<noteq> [], tags,
          if tags \<noteq> [] then replicate_op now (Membership_remove r clientId tags) None (Some zone) s1 else ([], s1)))"

definition getRoomMembers :: "mr \<Rightarrow> roomId \<Rightarrow> clientId list" where
  "getRoomMembers s r = orset_members (membership (mr_room_of s r))"

text \<open>
  \<open>originLeft\<close> is \<open>None\<close> when the option was not given. \<open>None\<close> as a result stands for a traversal
  that does not end.
\<close>

definition mr_broadcast :: "int \<Rightarrow> roomId \<Rightarrow> json \<Rightarrow> string option \<Rightarrow> string option option \<Rightarrow> mr \<Rightarrow>
    (string \<times> hlc \<times> int \<times> string option \<times> (string \<times> rep_op) list \<times> mr) option" where
  "mr_broadcast now r message residency originLeft s =
     (let room = mr_room_of s r;
          stamp = hlc_now now (hlcInstance s);
          seq = localSeq s + 1;
          i = makeMessageId stamp (regionId s) seq
      in case (case originLeft of Some p \<Rightarrow> Some p | None \<Rightarrow> lastVisibleId (sequence room)) of
           None \<Rightarrow> None
         | Some left \<Rightarrow>
             (let s1 = on_sequence r (rga_insert i left message False)
                         (s\<lparr>hlcInstance := stamp, localSeq := seq\<rparr>);
                  s2 = bumpVectorClock s1;
                  zone = (case residency of None \<Rightarrow> roomResidencyZone s2 r | Some z \<Rightarrow> z);
                  (sent, s3) = replicate_op now (Message_append r i left message) (Some stamp) (Some zone) s2
              in Some (i, stamp, seq, left, sent, s3)))"

section \<open>Sessions, geofences and global configuration\<close>

definition saveSession :: "int \<Rightarrow> clientId \<Rightarrow> json \<Rightarrow> string option \<Rightarrow> mr \<Rightarrow> string \<times> vclock \<times> (string \<times> rep_op) list \<times> mr" where
  "saveSession now clientId state residency s =
     (let s1 = bumpVectorClock s;
          key = ''session:'' @ clientId;
          s2 = s1\<lparr>sessions := lwwmap_set key state (vectorClock s1) (regionId s1) (sessions s1)\<rparr>;
          zone = (case residency of None \<Rightarrow> RESIDENCY_GLOBAL | Some z \<Rightarrow> z)
      in (key, vectorClock s1, replicate_op now (Session_update key state) None (Some zone) s2))"

record restored =
  r_clientId :: clientId
  r_session :: "json option"
  r_memberships :: "roomId list"
  r_restoredAt :: int

definition restoreSession :: "int \<Rightarrow> mr \<Rightarrow> clientId \<Rightarrow> restored" where
  "restoreSession now s clientId =
     \<lparr>r_clientId = clientId, r_session = lwwmap_get (sessions s) (''session:'' @ clientId),
      r_memberships = map fst (filter (\<lambda>(r, room). orset_has (membership room) clientId) (mr_rooms s)),
      r_restoredAt = now\<rparr>"

definition syncGeofence :: "int \<Rightarrow> (string \<Rightarrow> bool) \<Rightarrow> string \<Rightarrow> json \<Rightarrow> mr \<Rightarrow>
    quorum_result \<times> (string \<times> rep_op) list \<times> mr" where
  "syncGeofence now ack fenceId fence s =
     (let h = hlc_now now (hlcInstance s);
          stamp = \<lparr>st_hlc = h, st_regionId = regionId s, st_value = None\<rparr>;
          s1 = s\<lparr>hlcInstance := h,
                 geofences := lwwset_add fenceId (stamp\<lparr>st_value := Some fence\<rparr>) (geofences s)\<rparr>
      in quorumReplicate now ack (Geofence_upsert fenceId fence stamp) (Some h) (bumpVectorClock s1))"

definition removeGeofence :: "int \<Rightarrow> (string \<Rightarrow> bool) \<Rightarrow> string \<Rightarrow> mr \<Rightarrow>
    quorum_result \<times> (string \<times> rep_op) list \<times> mr" where
  "removeGeofence now ack fenceId s =
     (let h = hlc_now now (hlcInstance s);
          stamp = \<lparr>st_hlc = h, st_regionId = regionId s, st_value = None\<rparr>;
          s1 = s\<lparr>hlcInstance := h, geofences := lwwset_remove fenceId stamp (geofences s)\<rparr>
      in quorumReplicate now ack (Geofence_remove fenceId stamp) (Some h) (bumpVectorClock s1))"

definition setGlobalConfig :: "int \<Rightarrow> (string \<Rightarrow> bool) \<Rightarrow> string \<Rightarrow> json \<Rightarrow> mr \<Rightarrow>
    quorum_result \<times> (string \<times> rep_op) list \<times> mr" where
  "setGlobalConfig now ack key v s =
     (let s1 = bumpVectorClock s;
          storageKey = ''global-config:'' @ key;
          s2 = s1\<lparr>sessions := lwwmap_set storageKey v (vectorClock s1) (regionId s1) (sessions s1)\<rparr>
      in quorumReplicate now ack (Global_config storageKey v) None s2)"

definition getGlobalConfig :: "mr \<Rightarrow> string \<Rightarrow> json option" where
  "getGlobalConfig s key = lwwmap_get (sessions s) (''global-config:'' @ key)"

definition listGeofences :: "mr \<Rightarrow> (string \<times> json option) list" where
  "listGeofences s =
     map (\<lambda>fenceId. (fenceId, lwwset_get (geofences s) fenceId))
       (filter (lwwset_has (geofences s)) (map fst (ls_adds (geofences s))))"

section \<open>Remote operations\<close>

definition recordMergeDuration :: "mr \<Rightarrow> mr" where
  "recordMergeDuration s = s\<lparr>mergeCount := mergeCount s + 1\<rparr>"

definition lag_key :: "string \<Rightarrow> mr \<Rightarrow> string" where
  "lag_key region s = region @ ''->'' @ regionId s"

definition note_lag :: "int \<Rightarrow> rep_op \<Rightarrow> mr \<Rightarrow> mr" where
  "note_lag now op s =
     (case op_timestamp op of
        Some t \<Rightarrow>
          if op_regionId op \<noteq> []
          then (let key = lag_key (op_regionId op) s;
                    old = (case js_get (replicationLagMs s) key of None \<Rightarrow> 0 | Some n \<Rightarrow> n)
                in s\<lparr>replicationLagMs := js_set key (max old (now - t)) (replicationLagMs s)\<rparr>)
          else s
      | None \<Rightarrow> s)"

definition note_clocks :: "int \<Rightarrow> rep_op \<Rightarrow> mr \<Rightarrow> mr" where
  "note_clocks now op s =
     (let s1 = (case op_hlc op of None \<Rightarrow> s | Some h \<Rightarrow> s\<lparr>hlcInstance := hlc_receive now h (hlcInstance s)\<rparr>)
      in case op_vectorClock op of None \<Rightarrow> s1 | Some v \<Rightarrow> s1\<lparr>vectorClock := vcMerge (vectorClock s1) v\<rparr>)"

definition op_clock :: "rep_op \<Rightarrow> vclock" where
  "op_clock op = (case op_vectorClock op of None \<Rightarrow> [] | Some v \<Rightarrow> v)"

fun apply_payload :: "rep_op \<Rightarrow> payload \<Rightarrow> mr \<Rightarrow> mr option" where
  "apply_payload op (Membership_add r clientId tag) s = Some (on_membership r (orset_applyAdd clientId tag) s)"
| "apply_payload op (Membership_remove r clientId tags) s = Some (on_membership r (orset_applyRemove tags) s)"
| "apply_payload op (Message_append r i originLeft v) s = Some (on_sequence r (rga_insert i originLeft v False) s)"
| "apply_payload op (Message_remove r i) s = Some (on_sequence r (\<lambda>q. snd (rga_remove i q)) s)"
| "apply_payload op (Session_update key v) s =
     Some (s\<lparr>sessions := lwwmap_set key v (op_clock op) (op_regionId op) (sessions s)\<rparr>)"
| "apply_payload op (Session_delete key) s =
     Some (s\<lparr>sessions := lwwmap_delete key (op_clock op) (op_regionId op) (sessions s)\<rparr>)"
| "apply_payload op (Geofence_upsert fenceId defn st) s =
     Some (s\<lparr>geofences := lwwset_add fenceId (st\<lparr>st_value := Some defn\<rparr>) (geofences s)\<rparr>)"
| "apply_payload op (Geofence_remove fenceId st) s =
     Some (s\<lparr>geofences := lwwset_remove fenceId st (geofences s)\<rparr>)"
| "apply_payload op (Global_config key v) s =
     Some (s\<lparr>sessions := lwwmap_set key v (op_clock op) (op_regionId op) (sessions s)\<rparr>)"
| "apply_payload op (Unknown_type t) s = None"

text \<open>The flag is the \<open>applied\<close> field of the answer; an unknown type is refused after the clocks were noted.\<close>

definition handlePeerOperation :: "int \<Rightarrow> rep_op \<Rightarrow> mr \<Rightarrow> bool \<times> mr" where
  "handlePeerOperation now op s =
     (let s1 = note_clocks now op (note_lag now op s)
      in case apply_payload op (op_payload op) s1 of
           None \<Rightarrow> (False, s1)
         | Some s2 \<Rightarrow> (True, (recordMergeDuration s2)\<lparr>opsReceived := opsReceived s2 + 1\<rparr>))"

section \<open>Snapshots and anti-entropy\<close>

definition opt_str :: "string option \<Rightarrow> json" where
  "opt_str x = (case x of None \<Rightarrow> JNull | Some t \<Rightarrow> JStr t)"

definition node_json :: "rga_node \<Rightarrow> json" where
  "node_json n = JObj [(''id'', JStr (rn_id n)), (''originLeft'', opt_str (rn_originLeft n)),
     (''value'', rn_value n), (''tombstoned'', JBool (rn_tombstoned n))]"

definition rga_toJSON :: "rga \<Rightarrow> json" where
  "rga_toJSON s = JObj [(''nodes'', JArr (map node_json (rga_nodes s)))]"

definition hlc_json :: "hlc \<Rightarrow> json" where
  "hlc_json h = JObj [(''l'', JNum (int_str (hl h))), (''c'', JNum (int_str (hc h)))]"

definition stamp_json :: "stamp \<Rightarrow> json" where
  "stamp_json st = JObj ([(''hlc'', hlc_json (st_hlc st)), (''regionId'', JStr (st_regionId st))] @
     (case st_value st of None \<Rightarrow> [] | Some v \<Rightarrow> [(''value'', v)]))"

definition lwwset_toJSON :: "lwwset \<Rightarrow> json" where
  "lwwset_toJSON s = JObj
     [(''adds'', JArr (map (\<lambda>(e, st). JArr [JStr e, stamp_json st]) (ls_adds s))),
      (''removes'', JArr (map (\<lambda>(e, st). JArr [JStr e, stamp_json st]) (ls_removes s)))]"

definition vc_json :: "vclock \<Rightarrow> json" where
  "vc_json v = JObj (map (\<lambda>(r, n). (r, JNum (int_str n))) v)"

text \<open>The canonical form prints an \<open>undefined\<close> value (a deleted entry) as \<open>null\<close>.\<close>

definition lwwmap_toJSON :: "lwwmap \<Rightarrow> json" where
  "lwwmap_toJSON m = JObj [(''entries'', JObj (map (\<lambda>(k, e). (k, JObj
     [(''value'', case le_value e of None \<Rightarrow> JNull | Some v \<Rightarrow> v), (''clock'', vc_json (le_clock e)),
      (''writer'', JStr (le_writer e)), (''deleted'', JBool (le_deleted e))])) m))]"

definition room_json :: "mr_room \<Rightarrow> json" where
  "room_json room = JObj [(''membership'', orset_toJSON (membership room)), (''sequence'', rga_toJSON (sequence room))]"

definition merkleRootForRooms :: "(string \<Rightarrow> string) \<Rightarrow> mr \<Rightarrow> string" where
  "merkleRootForRooms H s =
     merkleRoot H (map (\<lambda>r. H (stableStringify (room_json (mr_room_of s r)))) (sort (js_keys (mr_rooms s))))"

definition serializeState :: "mr \<Rightarrow> json" where
  "serializeState s = JObj
     [(''regionId'', JStr (regionId s)),
      (''rooms'', JObj (map (\<lambda>(r, room). (r, room_json room)) (mr_rooms s))),
      (''sessions'', lwwmap_toJSON (sessions s)), (''geofences'', lwwset_toJSON (geofences s)),
      (''vectorClock'', vc_json (vectorClock s))]"

text \<open>A snapshot as \<open>mergeRemoteState\<close> reads it: the fields it decodes with the \<open>fromJSON\<close> functions.\<close>

record room_snap =
  rs_adds :: "(string, string list) jsmap"
  rs_removes :: "string list"
  rs_nodes :: "rga_node list"

record snapshot =
  sn_rooms :: "(roomId, room_snap) jsmap"
  sn_sessions :: "(string, lww_entry) jsmap"
  sn_geoAdds :: "(string \<times> stamp) list"
  sn_geoRemoves :: "(string \<times> stamp) list"
  sn_vectorClock :: "vclock option"

definition snapshot_of :: "mr \<Rightarrow> snapshot" where
  "snapshot_of s =
     \<lparr>sn_rooms = map (\<lambda>(r, room). (r, \<lparr>rs_adds = or_adds (membership room),
          rs_removes = or_removes (membership room), rs_nodes = rga_nodes (sequence room)\<rparr>)) (mr_rooms s),
      sn_sessions = sessions s, sn_geoAdds = ls_adds (geofences s), sn_geoRemoves = ls_removes (geofences s),
      sn_vectorClock = Some (vectorClock s)\<rparr>"

definition merge_room :: "roomId \<Rightarrow> room_snap \<Rightarrow> mr \<Rightarrow> mr" where
  "merge_room r snap s =
     (let room = mr_room_of s r
      in set_room r \<lparr>membership = orset_merge (membership room) (orset_fromJSON (rs_adds snap) (rs_removes snap)),
           sequence = rga_merge (sequence room) (rga_fromJSON (rs_nodes snap))\<rparr> (mr_ensureRoom r s))"

definition room_changed :: "mr_room \<Rightarrow> mr_room \<Rightarrow> bool" where
  "room_changed old new \<longleftrightarrow>
     stableStringify (orset_toJSON (membership new)) \<noteq> stableStringify (orset_toJSON (membership old)) \<or>
     stableStringify (rga_toJSON (sequence new)) \<noteq> stableStringify (rga_toJSON (sequence old))"

fun merge_rooms :: "(roomId \<times> room_snap) list \<Rightarrow> bool \<times> mr \<Rightarrow> bool \<times> mr" where
  "merge_rooms [] acc = acc"
| "merge_rooms ((r, snap) # rest) (changed, s) =
     (let s' = merge_room r snap s
      in merge_rooms rest (changed \<or> room_changed (mr_room_of s r) (mr_room_of s' r), s'))"

definition mergeRemoteState :: "snapshot \<Rightarrow> mr \<Rightarrow> bool \<times> mr" where
  "mergeRemoteState snap s =
     (let before = stableStringify (serializeState s);
          (changed, s1) = merge_rooms (sn_rooms snap) (False, s);
          (sess, conflicts) = lwwmap_merge (sessions s1) (lwwmap_fromJSON (sn_sessions snap)) 0;
          s2 = s1\<lparr>sessions := sess,
                  geofences := lwwset_merge (geofences s1) (lwwset_fromJSON (sn_geoAdds snap) (sn_geoRemoves snap))\<rparr>;
          s3 = (if conflicts > 0
                then s2\<lparr>replicationConflictsTotal := replicationConflictsTotal s2 + conflicts\<rparr> else s2);
          s4 = (case sn_vectorClock snap of None \<Rightarrow> s3 | Some v \<Rightarrow> s3\<lparr>vectorClock := vcMerge (vectorClock s3) v\<rparr>)
      in (changed \<or> stableStringify (serializeState s4) \<noteq> before, recordMergeDuration s4))"

section \<open>Region health\<close>

definition markRegionFailed :: "string \<Rightarrow> mr \<Rightarrow> mr" where
  "markRegionFailed region s =
     s\<lparr>failedRegions := js_add region (failedRegions s), regionHealth := js_set region False (regionHealth s)\<rparr>"

definition markRegionHealthy :: "string \<Rightarrow> mr \<Rightarrow> mr" where
  "markRegionHealthy region s =
     s\<lparr>failedRegions := removeAll region (failedRegions s), regionHealth := js_set region True (regionHealth s)\<rparr>"

definition lagAlertMs :: "mr \<Rightarrow> int" where
  "lagAlertMs s = (case cfgLagAlertMs (mr_cfg s) of None \<Rightarrow> 5000 | Some n \<Rightarrow> n)"

definition knownLagFrom :: "mr \<Rightarrow> string \<Rightarrow> int" where
  "knownLagFrom s region = (case js_get (replicationLagMs s) (lag_key region s) of None \<Rightarrow> 0 | Some n \<Rightarrow> n)"

definition isRegionHealthy :: "mr \<Rightarrow> string \<Rightarrow> bool" where
  "isRegionHealthy s region =
     (if region = regionId s then \<not> selfDisabled (mr_cfg s)
      else if region \<in> set (failedRegions s) then False
      else if knownLagFrom s region > lagAlertMs s then False
      else js_get (regionHealth s) region \<noteq> Some False)"

definition failoverTargets :: "mr \<Rightarrow> string list" where
  "failoverTargets s = sort_key (knownLagFrom s) (filter (isRegionHealthy s) (peerRegions s))"

definition isLagAlertActive :: "mr \<Rightarrow> bool" where
  "isLagAlertActive s = list_ex (\<lambda>(k, lag). lag > lagAlertMs s) (replicationLagMs s)"

text \<open>
  One anti-entropy round. For each peer, \<open>probe\<close> is the answer of \<open>fetchMerkleRoot\<close> (\<open>Probe_failed\<close>
  when it rejects, \<open>No_root\<close> when the transport has no such method or answers null) and \<open>fetch\<close> the
  snapshot of \<open>fetchState\<close> (\<open>None\<close> when it rejects or is empty).
\<close>

datatype probe = Probe_failed | No_root | Root string

fun antiEntropy_peers :: "(string \<Rightarrow> string) \<Rightarrow> (string \<Rightarrow> probe) \<Rightarrow> (string \<Rightarrow> snapshot option) \<Rightarrow>
    string list \<Rightarrow> nat \<times> nat \<Rightarrow> mr \<Rightarrow> (nat \<times> nat) \<times> mr" where
  "antiEntropy_peers H probe fetch [] counts s = (counts, s)"
| "antiEntropy_peers H probe fetch (peer # peers) (checked, repaired) s =
     (if peer \<in> set (failedRegions s) then antiEntropy_peers H probe fetch peers (checked, repaired) s
      else (case probe peer of
              Probe_failed \<Rightarrow> antiEntropy_peers H probe fetch peers (checked, repaired) (markRegionFailed peer s)
            | p \<Rightarrow>
                (let diverged = (case p of Root root \<Rightarrow> root \<noteq> merkleRootForRooms H s | _ \<Rightarrow> True)
                 in if \<not> diverged then antiEntropy_peers H probe fetch peers (checked + 1, repaired) s
                    else (let s1 = s\<lparr>aeDivergences := aeDivergences s + 1\<rparr>
                          in case fetch peer of
                               None \<Rightarrow> antiEntropy_peers H probe fetch peers (checked + 1, repaired) s1
                             | Some snap \<Rightarrow>
                                 (let (changed, s2) = mergeRemoteState snap s1
                                  in if changed
                                     then antiEntropy_peers H probe fetch peers (checked + 1, repaired + 1)
                                            (s2\<lparr>aeRepaired := aeRepaired s2 + 1\<rparr>)
                                     else antiEntropy_peers H probe fetch peers (checked + 1, repaired) s2)))))"

definition antiEntropy :: "(string \<Rightarrow> string) \<Rightarrow> (string \<Rightarrow> probe) \<Rightarrow> (string \<Rightarrow> snapshot option) \<Rightarrow> mr \<Rightarrow>
    (nat \<times> nat) \<times> mr" where
  "antiEntropy H probe fetch s =
     (let s1 = s\<lparr>aeRuns := aeRuns s + 1\<rparr>
      in if \<not> hasTransport s1 then ((0, 0), s1)
         else antiEntropy_peers H probe fetch (peerRegions s1) (0, 0) s1)"

section \<open>The anti-entropy timer\<close>

text \<open>A coordinator with its timer: the interval while the timer runs.\<close>

record timed_region =
  tr_region :: mr
  tr_timer :: "int option"

definition start_timer :: "int option \<Rightarrow> mr \<Rightarrow> timed_region" where
  "start_timer antiEntropyIntervalMs s =
     (let interval = (case antiEntropyIntervalMs of Some n \<Rightarrow> n | None \<Rightarrow> 15000)
      in \<lparr>tr_region = s, tr_timer = (if interval > 0 then Some interval else None)\<rparr>)"

definition timer_fires :: "(string \<Rightarrow> string) \<Rightarrow> (string \<Rightarrow> probe) \<Rightarrow> (string \<Rightarrow> snapshot option) \<Rightarrow> timed_region \<Rightarrow> timed_region" where
  "timer_fires H probe fetch t =
     (if tr_timer t = None then t else t\<lparr>tr_region := snd (antiEntropy H probe fetch (tr_region t))\<rparr>)"

definition close_region :: "timed_region \<Rightarrow> timed_region" where
  "close_region t = t\<lparr>tr_timer := None\<rparr>"

lemma closed_timer: "timer_fires H probe fetch (close_region t) = close_region t"
  by (simp add: timer_fires_def close_region_def)

end
