(* ===== verification/RegionProperties.thy ===== *)
theory RegionProperties
  imports MultiRegion
begin

text \<open>
  What the multi-region coordinator guarantees: replication respects the residency policy, quorum
  writes need a majority, replicated room operations commute, an exchange of snapshots makes two
  regions agree on members and message order, and a region always reads its own last session write.
  The limits of the design are stated too: a removal that overtakes its message is lost, an
  uncommitted write stays applied, and the Merkle root does not see room ids.
\<close>

declare map_of_eq_Some_iff [simp del] Some_eq_map_of_iff [simp del]

section \<open>Replication targets\<close>

definition zone_of :: "string option \<Rightarrow> string" where
  "zone_of residency = (case residency of None \<Rightarrow> RESIDENCY_GLOBAL | Some z \<Rightarrow> z)"

definition allowed_peers :: "mr \<Rightarrow> string option \<Rightarrow> string list" where
  "allowed_peers s residency =
     filter (\<lambda>peer. peer \<notin> set (failedRegions s) \<and> canReplicateTo s peer (zone_of residency)) (peerRegions s)"

definition same_data :: "mr \<Rightarrow> mr \<Rightarrow> bool" where
  "same_data s t \<longleftrightarrow> mr_rooms s = mr_rooms t \<and> sessions s = sessions t \<and> geofences s = geofences t
     \<and> vectorClock s = vectorClock t \<and> hlcInstance s = hlcInstance t \<and> localSeq s = localSeq t
     \<and> failedRegions s = failedRegions t \<and> mr_cfg s = mr_cfg t \<and> regionId s = regionId t"

lemma same_data_refl [simp]: "same_data s s"
  by (simp add: same_data_def)

lemma same_data_canReplicate: "same_data s t \<Longrightarrow> canReplicateTo s = canReplicateTo t"
  by (simp add: same_data_def canReplicateTo_def fun_eq_iff)

lemma send_to_peers_spec:
  "map fst (fst (send_to_peers peers op s)) =
     filter (\<lambda>peer. peer \<notin> set (failedRegions s) \<and> canReplicateTo s peer (zone_of (op_residency op))) peers
   \<and> (\<forall>p\<in>set (fst (send_to_peers peers op s)). snd p = op)
   \<and> same_data (snd (send_to_peers peers op s)) s
   \<and> opsReplicated (snd (send_to_peers peers op s)) = opsReplicated s + int (length (fst (send_to_peers peers op s)))"
proof (induction peers arbitrary: s)
  case (Cons peer peers)
  have upd: "same_data (s\<lparr>opsFilteredResidency := a\<rparr>) s" "same_data (s\<lparr>opsReplicated := b\<rparr>) s" for a b
    by (simp_all add: same_data_def)
  note can = upd [THEN same_data_canReplicate]
  show ?case
    using Cons [of s] Cons [of "s\<lparr>opsFilteredResidency := opsFilteredResidency s + 1\<rparr>"]
      Cons [of "s\<lparr>opsReplicated := opsReplicated s + 1\<rparr>"]
    by (simp add: zone_of_def [symmetric] can case_prod_beta Let_def) (simp add: same_data_def)
qed simp

text \<open>
  A replicated operation is sent once to exactly the peers that are healthy and allowed by the
  residency policy of its zone, in the configured order; nothing but the counters changes.
\<close>

theorem replication_respects_residency:
  "map fst (fst (replicate_op now p h residency s)) = (if hasTransport s then allowed_peers s residency else [])
   \<and> (\<forall>m\<in>set (fst (replicate_op now p h residency s)).
        op_payload (snd m) = p \<and> canReplicateTo s (fst m) (zone_of residency) \<and> fst m \<notin> set (failedRegions s))
   \<and> same_data (snd (replicate_op now p h residency s)) s"
proof -
  let ?op = "make_op now p h residency s"
  let ?sent = "fst (send_to_peers (peerRegions s) ?op s)"
  have op: "op_payload ?op = p" "op_residency ?op = residency" by (simp_all add: make_op_def)
  note spec = send_to_peers_spec [of "peerRegions s" ?op s, unfolded op(2)]
  have sent: "set (map fst ?sent) = set (allowed_peers s residency)"
    unfolding allowed_peers_def using spec by metis
  have "canReplicateTo s (fst m) (zone_of residency) \<and> fst m \<notin> set (failedRegions s)" if "m \<in> set ?sent" for m
  proof -
    have "fst m \<in> set (allowed_peers s residency)" unfolding sent [symmetric] using that by simp
    then show ?thesis by (simp add: allowed_peers_def)
  qed
  with spec op show ?thesis by (simp add: replicate_op_def allowed_peers_def)
qed

definition fleet :: "string \<Rightarrow> mr" where
  "fleet r = \<lparr>regionId = r, peerRegions = filter (\<lambda>q. q \<noteq> r) [''ap'', ''eu'', ''us''], hasTransport = True,
     mr_cfg = \<lparr>dataResidency = [], roomResidency = [], cfgQuorumSize = None, cfgLagAlertMs = None,
       selfDisabled = False\<rparr>,
     hlcInstance = hlc_init 0, vectorClock = [], localSeq = 0, mr_rooms = [], sessions = [],
     geofences = lwwset_new, failedRegions = [], replicationLagMs = [], replicationConflictsTotal = 0,
     mergeCount = 0, opsReplicated = 0, opsReceived = 0, opsFilteredResidency = 0, quorumWritesTotal = 0,
     quorumWriteFailuresTotal = 0, aeRuns = 0, aeDivergences = 0, aeRepaired = 0, regionHealth = []\<rparr>"

definition eu_only :: mr where
  "eu_only = (fleet ''eu'')\<lparr>mr_cfg := \<lparr>dataResidency = [(''eu'', [''eu'', ''us''])], roomResidency = [],
     cfgQuorumSize = None, cfgLagAlertMs = None, selfDisabled = False\<rparr>\<rparr>"

theorem replication_respects_residency_witness:
  "map fst (fst (replicate_op 0 (Message_remove ''r'' ''m'') None (Some ''eu'') eu_only)) = [''us'']"
  using replication_respects_residency [of 0 "Message_remove ''r'' ''m''" None "Some ''eu''" eu_only]
  by (simp add: allowed_peers_def canReplicateTo_def zone_of_def eu_only_def fleet_def)

section \<open>Quorum writes\<close>

definition ack_set :: "mr \<Rightarrow> (string \<Rightarrow> bool) \<Rightarrow> string set" where
  "ack_set s ack = insert (regionId s)
     {p \<in> set (peerRegions s). p \<notin> set (failedRegions s) \<and> hasTransport s \<and> ack p}"

definition regions :: "mr \<Rightarrow> string set" where
  "regions s = insert (regionId s) (set (peerRegions s))"

definition proper :: "mr \<Rightarrow> bool" where
  "proper s \<longleftrightarrow> distinct (regionId s # peerRegions s) \<and> cfgQuorumSize (mr_cfg s) \<in> {None, Some 0}"

lemma quorum_acks:
  assumes "proper s"
  shows "acks (fst (quorumReplicate now ack p h s)) = int (card (ack_set s ack))"
    and "quorum (fst (quorumReplicate now ack p h s)) = int (card (regions s)) div 2 + 1"
    and "committed (fst (quorumReplicate now ack p h s)) \<longleftrightarrow>
      acks (fst (quorumReplicate now ack p h s)) \<ge> quorum (fst (quorumReplicate now ack p h s))"
proof -
  have d: "distinct (peerRegions s)" "regionId s \<notin> set (peerRegions s)" using assms by (auto simp: proper_def)
  let ?f = "filter (\<lambda>p. (hasTransport s \<and> ack p) \<and> p \<notin> set (failedRegions s)) (peerRegions s)"
  have "ack_set s ack = insert (regionId s) (set ?f)" by (auto simp: ack_set_def)
  moreover have "card (set ?f) = length ?f" using d(1) by (intro distinct_card) simp
  ultimately have "card (ack_set s ack) = Suc (length ?f)" using d(2) by simp
  then show "acks (fst (quorumReplicate now ack p h s)) = int (card (ack_set s ack))"
    by (simp add: quorumReplicate_def Let_def conj_commute conj_left_commute)
  have "card (regions s) = Suc (length (peerRegions s))" using d by (simp add: regions_def distinct_card)
  then show "quorum (fst (quorumReplicate now ack p h s)) = int (card (regions s)) div 2 + 1"
    using assms by (auto simp: quorumReplicate_def Let_def quorumSize_def proper_def)
qed (simp add: quorumReplicate_def Let_def)

text \<open>
  C5. No split brain: with the default quorum, two committed writes of regions of the same fleet
  were acknowledged by a common region, so two sides of a partition never both commit.
\<close>

theorem quorum_writes_intersect:
  assumes "proper s" and "proper t" and "regions s = regions t"
    and "committed (fst (quorumReplicate now ack p h s))"
    and "committed (fst (quorumReplicate now' ack' p' h' t))"
  shows "ack_set s ack \<inter> ack_set t ack' \<noteq> {}"
proof
  assume disjoint: "ack_set s ack \<inter> ack_set t ack' = {}"
  have fin: "finite (regions s)" "finite (ack_set s ack)" "finite (ack_set t ack')"
    by (simp_all add: regions_def ack_set_def)
  have "ack_set s ack \<union> ack_set t ack' \<subseteq> regions s"
    using assms(3) by (auto simp: ack_set_def regions_def)
  then have "card (ack_set s ack) + card (ack_set t ack') \<le> card (regions s)"
    using card_Un_disjoint [OF fin(2,3) disjoint] card_mono [OF fin(1)] by metis
  moreover have "int (card (ack_set s ack)) \<ge> int (card (regions s)) div 2 + 1"
    and "int (card (ack_set t ack')) \<ge> int (card (regions s)) div 2 + 1"
    using assms quorum_acks [OF assms(1)] quorum_acks [OF assms(2)] by metis+
  ultimately show False by linarith
qed

theorem quorum_writes_intersect_witness:
  "ack_set (fleet ''eu'') (\<lambda>p. p = ''us'') \<inter> ack_set (fleet ''ap'') (\<lambda>p. p = ''us'') \<noteq> {}"
proof (rule quorum_writes_intersect)
  show "proper (fleet ''eu'')" "proper (fleet ''ap'')" by (simp_all add: proper_def fleet_def)
  show "regions (fleet ''eu'') = regions (fleet ''ap'')" by (auto simp: regions_def fleet_def)
  show "committed (fst (quorumReplicate 0 (\<lambda>p. p = ''us'') (Session_delete ''k'') None (fleet ''eu'')))"
    "committed (fst (quorumReplicate 0 (\<lambda>p. p = ''us'') (Session_delete ''k'') None (fleet ''ap'')))"
    by (simp_all add: quorumReplicate_def quorumSize_def fleet_def Let_def)
qed

section \<open>Remote operations on rooms\<close>

lemma room_of_on:
  "mr_room_of (on_membership r f s) q =
     (if q = r then (mr_room_of s r)\<lparr>membership := f (membership (mr_room_of s r))\<rparr> else mr_room_of s q)"
  "mr_room_of (on_sequence r g s) q =
     (if q = r then (mr_room_of s r)\<lparr>sequence := g (sequence (mr_room_of s r))\<rparr> else mr_room_of s q)"
  by (auto simp: on_membership_def on_sequence_def set_room_def mr_ensureRoom_def mr_room_of_def Let_def
      split: option.split)

lemma room_of_same: "mr_rooms s = mr_rooms t \<Longrightarrow> mr_room_of s = mr_room_of t"
  by (simp add: mr_room_of_def fun_eq_iff)

lemma note_rooms [simp]: "mr_rooms (note_clocks now op (note_lag now op s)) = mr_rooms s"
  by (simp add: note_clocks_def note_lag_def Let_def split: option.split)

fun room_effect :: "payload \<Rightarrow> roomId \<Rightarrow> mr_room \<Rightarrow> mr_room" where
  "room_effect (Membership_add r c t) q room =
     (if q = r then room\<lparr>membership := orset_add c t (membership room)\<rparr> else room)"
| "room_effect (Membership_remove r c ts) q room =
     (if q = r then room\<lparr>membership := orset_applyRemove ts (membership room)\<rparr> else room)"
| "room_effect (Message_append r i p v) q room =
     (if q = r then room\<lparr>sequence := rga_insert i p v False (sequence room)\<rparr> else room)"
| "room_effect (Message_remove r i) q room =
     (if q = r then room\<lparr>sequence := snd (rga_remove i (sequence room))\<rparr> else room)"
| "room_effect _ q room = room"

lemma handle_room:
  "mr_room_of (snd (handlePeerOperation now op s)) q = room_effect (op_payload op) q (mr_room_of s q)"
proof -
  let ?s1 = "note_clocks now op (note_lag now op s)"
  have s1: "mr_room_of ?s1 = mr_room_of s" by (rule room_of_same) simp
  have upd: "mr_room_of (s'\<lparr>sessions := a\<rparr>) = mr_room_of s'" "mr_room_of (s'\<lparr>geofences := b\<rparr>) = mr_room_of s'"
    "mr_room_of ((recordMergeDuration s')\<lparr>opsReceived := n\<rparr>) = mr_room_of s'" for s' a b n
    by (simp_all add: mr_room_of_def recordMergeDuration_def fun_eq_iff)
  show ?thesis
    by (cases "op_payload op")
      (simp_all add: handlePeerOperation_def Let_def room_of_on s1 upd orset_applyAdd_def)
qed

definition rooms_inv :: "(roomId \<Rightarrow> string \<Rightarrow> string option \<times> json) \<Rightarrow> mr \<Rightarrow> bool" where
  "rooms_inv g s \<longleftrightarrow> (\<forall>r. orset_inv (membership (mr_room_of s r)) \<and> rga_inv (g r) (sequence (mr_room_of s r)))"

text \<open>What the commuting operations add to the abstract state of a room.\<close>

fun op_adds :: "roomId \<Rightarrow> payload \<Rightarrow> (string \<times> string) set" where
  "op_adds q (Membership_add r c t) = (if q = r then {(c, t)} else {})"
| "op_adds q _ = {}"

fun op_rems :: "roomId \<Rightarrow> payload \<Rightarrow> string set" where
  "op_rems q (Membership_remove r c ts) = (if q = r then set ts else {})"
| "op_rems q _ = {}"

fun op_ids :: "roomId \<Rightarrow> payload \<Rightarrow> string set" where
  "op_ids q (Message_append r i p v) = (if q = r then {i} else {})"
| "op_ids q _ = {}"

fun op_ok :: "(roomId \<Rightarrow> string \<Rightarrow> string option \<times> json) \<Rightarrow> payload \<Rightarrow> bool" where
  "op_ok g (Message_append r i p v) = (g r i = (p, v))"
| "op_ok g (Message_remove r i) = False"
| "op_ok g _ = True"

lemma pair_union_empty [simp]: "pair_union a ({}, {}) = a"
  by (simp add: pair_union_def)

lemma effect_abs:
  assumes "op_ok g p" and "orset_inv (membership room)" and "rga_inv (g q) (sequence room)"
  shows "orset_inv (membership (room_effect p q room)) \<and> rga_inv (g q) (sequence (room_effect p q room))
    \<and> orset_abs (membership (room_effect p q room)) = pair_union (orset_abs (membership room)) (op_adds q p, op_rems q p)
    \<and> rga_abs (sequence (room_effect p q room)) = pair_union (rga_abs (sequence room)) (op_ids q p, {})"
  using assms
  by (cases p) (auto simp: orset_add_inv orset_abs_add orset_applyRemove_def orset_removes_update
      rga_abs_insert rga_inv_insert)

definition run_ops :: "(int \<times> rep_op) list \<Rightarrow> mr \<Rightarrow> mr" where
  "run_ops ops s = fold (\<lambda>(now, op) s. snd (handlePeerOperation now op s)) ops s"

lemma run_ops_abs:
  assumes "\<forall>p\<in>op_payload ` snd ` set ops. op_ok g p" and "rooms_inv g s"
  shows "rooms_inv g (run_ops ops s)
    \<and> orset_abs (membership (mr_room_of (run_ops ops s) q)) = pair_union (orset_abs (membership (mr_room_of s q)))
        (\<Union> (op_adds q ` op_payload ` snd ` set ops), \<Union> (op_rems q ` op_payload ` snd ` set ops))
    \<and> rga_abs (sequence (mr_room_of (run_ops ops s) q)) = pair_union (rga_abs (sequence (mr_room_of s q)))
        (\<Union> (op_ids q ` op_payload ` snd ` set ops), {})"
  using assms
proof (induction ops arbitrary: s)
  case Nil
  then show ?case by (simp add: run_ops_def)
next
  case (Cons a ops)
  obtain now op where a: "a = (now, op)" by fastforce
  let ?s1 = "snd (handlePeerOperation now op s)"
  have ok: "op_ok g (op_payload op)" using Cons.prems(1) a by simp
  have eff: "orset_inv (membership (mr_room_of ?s1 r)) \<and> rga_inv (g r) (sequence (mr_room_of ?s1 r))
    \<and> orset_abs (membership (mr_room_of ?s1 r)) = pair_union (orset_abs (membership (mr_room_of s r)))
        (op_adds r (op_payload op), op_rems r (op_payload op))
    \<and> rga_abs (sequence (mr_room_of ?s1 r)) = pair_union (rga_abs (sequence (mr_room_of s r))) (op_ids r (op_payload op), {})" for r
    unfolding handle_room using Cons.prems(2) by (intro effect_abs [OF ok]) (auto simp: rooms_inv_def)
  have "rooms_inv g ?s1" using eff by (simp add: rooms_inv_def)
  with Cons.IH [of ?s1] Cons.prems(1) eff [of q] show ?case
    by (simp add: run_ops_def a pair_union_def Un_assoc)
qed

text \<open>
  C37. Replicated joins, leaves and messages commute and are idempotent: two regions that start from
  the same rooms and receive the same set of these operations, in any order, any number of times
  and at any wall-clock time, have the same members and the same message order in every room.
\<close>

theorem peer_operations_commute:
  assumes "rooms_inv g s" and "\<forall>p\<in>op_payload ` snd ` set xs. op_ok g p"
    and "op_payload ` snd ` set xs = op_payload ` snd ` set ys"
  shows "set (getRoomMembers (run_ops xs s) r) = set (getRoomMembers (run_ops ys s) r)
    \<and> rga_toArray (sequence (mr_room_of (run_ops xs s) r)) = rga_toArray (sequence (mr_room_of (run_ops ys s) r))"
proof -
  note x = run_ops_abs [OF assms(2,1), of r]
  note y = run_ops_abs [OF assms(2) [unfolded assms(3)] assms(1), of r]
  let ?a = "mr_room_of (run_ops xs s) r" and ?b = "mr_room_of (run_ops ys s) r"
  have abs: "orset_abs (membership ?a) = orset_abs (membership ?b)" "rga_abs (sequence ?a) = rga_abs (sequence ?b)"
    using x y by (auto simp: assms(3))
  have inv: "orset_inv (membership ?a)" "orset_inv (membership ?b)" "rga_inv (g r) (sequence ?a)" "rga_inv (g r) (sequence ?b)"
    using x y by (auto simp: rooms_inv_def)
  have "traverse (sequence ?a) = traverse (sequence ?b)" by (rule rga_traverse_abs [OF inv(3,4) abs(2)])
  moreover have "set (orset_members (membership ?a)) = set (orset_members (membership ?b))"
    using inv(1,2) orset_has_cong [OF abs(1)] by (auto simp: orset_members_has orset_inv_def)
  ultimately show ?thesis by (simp add: getRoomMembers_def rga_toArray_def)
qed

definition peer_op :: "payload \<Rightarrow> rep_op" where
  "peer_op p = \<lparr>op_payload = p, op_vectorClock = None, op_regionId = ''us'', op_timestamp = None,
     op_hlc = None, op_residency = None\<rparr>"

lemma fleet_room [simp]: "mr_room_of (fleet r) q = new_room"
  by (simp add: mr_room_of_def fleet_def)

lemma fleet_rooms_inv: "rooms_inv g (fleet r)"
  by (simp add: rooms_inv_def new_room_def orset_inv_def orset_new_def orset_tags_def
      rga_inv_def rga_wf_def)

theorem peer_operations_commute_witness:
  "let j = (0, peer_op (Membership_add ''r'' ''c'' ''t'')); l = (0, peer_op (Membership_remove ''r'' ''c'' [''t'']))
   in set (getRoomMembers (run_ops [j, l] (fleet ''eu'')) ''r'') = set (getRoomMembers (run_ops [l, j, l] (fleet ''eu'')) ''r'')"
proof -
  let ?j = "(0, peer_op (Membership_add ''r'' ''c'' ''t''))" and ?l = "(0, peer_op (Membership_remove ''r'' ''c'' [''t'']))"
  have ok: "\<forall>p\<in>op_payload ` snd ` set [?j, ?l]. op_ok (\<lambda>_ _. (None, JNull)) p" by (simp add: peer_op_def)
  from peer_operations_commute [OF fleet_rooms_inv ok, of "[?l, ?j, ?l]"] show ?thesis
    by (auto simp: Let_def)
qed

text \<open>
  A message removal does not commute: when it overtakes the message it removes it has no
  effect, so a region that receives them in that order shows a message the other one hides.
\<close>

theorem message_remove_overtaken:
  "let app = (0, peer_op (Message_append ''r'' ''m'' None JNull)); rm = (0, peer_op (Message_remove ''r'' ''m''))
   in \<not> rga_has (sequence (mr_room_of (run_ops [app, rm] (fleet ''eu'')) ''r'')) ''m''
    \<and> rga_has (sequence (mr_room_of (run_ops [rm, app] (fleet ''eu'')) ''r'')) ''m''"
  by (simp add: run_ops_def handle_room peer_op_def Let_def fleet_room new_room_def
      rga_insert_def rga_remove_def rga_has_def)

section \<open>Exchange of snapshots\<close>

definition merged_room :: "mr_room \<Rightarrow> room_snap \<Rightarrow> mr_room" where
  "merged_room room sn =
     \<lparr>membership = orset_merge (membership room) (orset_fromJSON (rs_adds sn) (rs_removes sn)),
      sequence = rga_merge (sequence room) (rga_fromJSON (rs_nodes sn))\<rparr>"

lemma room_of_merge_room:
  "mr_room_of (merge_room r sn s) q = (if q = r then merged_room (mr_room_of s r) sn else mr_room_of s q)"
  by (auto simp: merge_room_def set_room_def mr_ensureRoom_def mr_room_of_def merged_room_def Let_def
      split: option.split)

lemma room_of_merge_rooms:
  "wf_map rs \<Longrightarrow> mr_room_of (snd (merge_rooms rs (b, s))) q =
     (case js_get rs q of None \<Rightarrow> mr_room_of s q | Some sn \<Rightarrow> merged_room (mr_room_of s q) sn)"
proof (induction rs arbitrary: b s)
  case (Cons p rs)
  obtain r sn where p: "p = (r, sn)" by fastforce
  have "js_get rs r = None" using Cons.prems p by (simp add: map_of_eq_None_iff)
  then show ?case using Cons p by (auto simp: Let_def room_of_merge_room split: option.split)
qed simp

lemma room_of_mergeRemoteState:
  "mr_room_of (snd (mergeRemoteState snap s)) = mr_room_of (snd (merge_rooms (sn_rooms snap) (False, s)))"
  by (rule room_of_same)
    (simp add: mergeRemoteState_def Let_def case_prod_beta recordMergeDuration_def split: option.split)

definition room_snap_of :: "mr_room \<Rightarrow> room_snap" where
  "room_snap_of room = \<lparr>rs_adds = or_adds (membership room), rs_removes = or_removes (membership room),
     rs_nodes = rga_nodes (sequence room)\<rparr>"

lemma snapshot_rooms:
  "js_get (sn_rooms (snapshot_of t)) r = map_option room_snap_of (js_get (mr_rooms t) r)"
  "js_keys (sn_rooms (snapshot_of t)) = js_keys (mr_rooms t)"
proof -
  have "sn_rooms (snapshot_of t) = map (\<lambda>(r, room). (r, room_snap_of room)) (mr_rooms t)"
    by (simp add: snapshot_of_def room_snap_of_def)
  then show "js_get (sn_rooms (snapshot_of t)) r = map_option room_snap_of (js_get (mr_rooms t) r)"
    "js_keys (sn_rooms (snapshot_of t)) = js_keys (mr_rooms t)"
    by (simp_all add: map_of_map) (simp add: comp_def case_prod_beta)
qed

lemma merged_room_abs:
  assumes "orset_inv (membership a)" "rga_inv g (sequence a)" "orset_inv (membership b)" "rga_inv g (sequence b)"
  shows "orset_abs (membership (merged_room a (room_snap_of b))) = pair_union (orset_abs (membership a)) (orset_abs (membership b))"
    and "rga_abs (sequence (merged_room a (room_snap_of b))) = pair_union (rga_abs (sequence a)) (rga_abs (sequence b))"
    and "orset_inv (membership (merged_room a (room_snap_of b)))" and "rga_inv g (sequence (merged_room a (room_snap_of b)))"
  using assms orset_restore [OF assms(3)] rga_restore [OF assms(4)]
  by (simp_all add: merged_room_def room_snap_of_def orset_abs_merge orset_merge_inv rga_merge_abs)

definition rooms_wf :: "(roomId \<Rightarrow> string \<Rightarrow> string option \<times> json) \<Rightarrow> mr \<Rightarrow> bool" where
  "rooms_wf g s \<longleftrightarrow> wf_map (mr_rooms s) \<and> rooms_inv g s"

lemma new_room_abs: "orset_abs (membership new_room) = ({}, {})" "rga_abs (sequence new_room) = ({}, {})"
  by (simp_all add: new_room_def orset_abs_def rga_abs_def) (simp add: orset_new_def)

lemma merge_state_abs:
  assumes "rooms_wf g s" and "rooms_wf g t"
  shows "let s' = snd (mergeRemoteState (snapshot_of t) s)
    in rooms_inv g s'
     \<and> orset_abs (membership (mr_room_of s' r)) =
         pair_union (orset_abs (membership (mr_room_of s r))) (orset_abs (membership (mr_room_of t r)))
     \<and> rga_abs (sequence (mr_room_of s' r)) =
         pair_union (rga_abs (sequence (mr_room_of s r))) (rga_abs (sequence (mr_room_of t r)))"
proof -
  let ?s' = "snd (mergeRemoteState (snapshot_of t) s)"
  have wf: "wf_map (sn_rooms (snapshot_of t))"
    using assms(2) snapshot_rooms(2) by (simp add: rooms_wf_def)
  have room: "mr_room_of ?s' q = (case js_get (mr_rooms t) q of None \<Rightarrow> mr_room_of s q
      | Some room \<Rightarrow> merged_room (mr_room_of s q) (room_snap_of room))" for q
    unfolding room_of_mergeRemoteState room_of_merge_rooms [OF wf] snapshot_rooms(1) by (simp split: option.split)
  have inv: "orset_inv (membership (mr_room_of x q))" "rga_inv (g q) (sequence (mr_room_of x q))" if "x \<in> {s, t}" for x q
    using assms that by (auto simp: rooms_wf_def rooms_inv_def)
  have all: "orset_inv (membership (mr_room_of ?s' q)) \<and> rga_inv (g q) (sequence (mr_room_of ?s' q))
     \<and> orset_abs (membership (mr_room_of ?s' q)) =
         pair_union (orset_abs (membership (mr_room_of s q))) (orset_abs (membership (mr_room_of t q)))
     \<and> rga_abs (sequence (mr_room_of ?s' q)) =
         pair_union (rga_abs (sequence (mr_room_of s q))) (rga_abs (sequence (mr_room_of t q)))" for q
  proof (cases "js_get (mr_rooms t) q")
    case None
    then have "mr_room_of t q = new_room" by (simp add: mr_room_of_def)
    with None inv [of s q] show ?thesis by (simp add: room new_room_abs)
  next
    case (Some b)
    then have "mr_room_of t q = b" by (simp add: mr_room_of_def)
    with Some inv [of s q] inv [of t q] show ?thesis
      using merged_room_abs [of "mr_room_of s q" "g q" b] by (simp add: room)
  qed
  then show ?thesis by (simp add: Let_def rooms_inv_def)
qed

lemma pair_union_comm: "pair_union a b = pair_union b a"
  by (auto simp: pair_union_def)

text \<open>
  One exchange of snapshots makes two regions agree: after each merged the other's serialized
  state, every room has the same members and the same message order in both.
\<close>

theorem snapshot_exchange_agrees:
  assumes "rooms_wf g s" and "rooms_wf g t"
    and "s' = snd (mergeRemoteState (snapshot_of t) s)" and "t' = snd (mergeRemoteState (snapshot_of s) t)"
  shows "set (getRoomMembers s' r) = set (getRoomMembers t' r)
    \<and> rga_toArray (sequence (mr_room_of s' r)) = rga_toArray (sequence (mr_room_of t' r))"
proof -
  note x = merge_state_abs [OF assms(1,2), unfolded Let_def, folded assms(3), of r]
  note y = merge_state_abs [OF assms(2,1), unfolded Let_def, folded assms(4), of r]
  let ?a = "mr_room_of s' r" and ?b = "mr_room_of t' r"
  have abs: "orset_abs (membership ?a) = orset_abs (membership ?b)" "rga_abs (sequence ?a) = rga_abs (sequence ?b)"
    using x y pair_union_comm by metis+
  have inv: "orset_inv (membership ?a)" "orset_inv (membership ?b)" "rga_inv (g r) (sequence ?a)" "rga_inv (g r) (sequence ?b)"
    using x y by (auto simp: rooms_inv_def)
  have "traverse (sequence ?a) = traverse (sequence ?b)" by (rule rga_traverse_abs [OF inv(3,4) abs(2)])
  moreover have "set (orset_members (membership ?a)) = set (orset_members (membership ?b))"
    using inv(1,2) orset_has_cong [OF abs(1)] by (auto simp: orset_members_has orset_inv_def)
  ultimately show ?thesis by (simp add: getRoomMembers_def rga_toArray_def)
qed

definition one_member :: mr where
  "one_member = on_membership ''r'' (orset_add ''c'' ''t'') (fleet ''us'')"

lemma one_member_wf: "rooms_wf g one_member"
  using fleet_rooms_inv [of g "''us''"]
  by (auto simp: rooms_wf_def rooms_inv_def one_member_def room_of_on orset_add_inv)
    (simp add: on_membership_def set_room_def mr_ensureRoom_def fleet_def Let_def)

lemma fleet_wf: "rooms_wf g (fleet r)"
  using fleet_rooms_inv by (simp add: rooms_wf_def) (simp add: fleet_def)

theorem snapshot_exchange_agrees_witness:
  "set (getRoomMembers (snd (mergeRemoteState (snapshot_of one_member) (fleet ''eu''))) ''r'') =
   set (getRoomMembers (snd (mergeRemoteState (snapshot_of (fleet ''eu'')) one_member)) ''r'')"
  using snapshot_exchange_agrees [OF fleet_wf [of "\<lambda>_ _. (None, JNull)"] one_member_wf refl refl] by simp

text \<open>
  Failover: once a region has merged the snapshot of a peer, a client that was in a room there
  is restored into that room, unless every join the peer knew had been retired here.
\<close>

theorem failover_restores_membership:
  assumes "rooms_wf g s" and "rooms_wf g t"
    and "tag \<in> set (orset_tags (membership (mr_room_of t r)) c)"
    and "tag \<notin> set (or_removes (membership (mr_room_of t r)))" and "tag \<notin> set (or_removes (membership (mr_room_of s r)))"
  shows "r \<in> set (r_memberships (restoreSession now (snd (mergeRemoteState (snapshot_of t) s)) c))"
proof -
  let ?s' = "snd (mergeRemoteState (snapshot_of t) s)"
  have abs: "orset_abs (membership (mr_room_of ?s' r)) =
      pair_union (orset_abs (membership (mr_room_of s r))) (orset_abs (membership (mr_room_of t r)))"
    using merge_state_abs [OF assms(1,2), of r] by (simp add: Let_def)
  have has: "orset_has (membership (mr_room_of ?s' r)) c"
    unfolding orset_has_abs abs using assms(3-5) by (auto simp: pair_union_def orset_abs_def)
  then obtain room where room: "js_get (mr_rooms ?s') r = Some room" "mr_room_of ?s' r = room"
    by (cases "js_get (mr_rooms ?s') r")
      (auto simp: mr_room_of_def new_room_def orset_new_def orset_has_def)
  from map_of_SomeD [OF room(1)] has room(2) show ?thesis by (force simp: restoreSession_def)
qed

theorem failover_restores_membership_witness:
  "''r'' \<in> set (r_memberships (restoreSession 0 (snd (mergeRemoteState (snapshot_of one_member) (fleet ''eu''))) ''c''))"
proof -
  have "mr_room_of one_member ''r'' = new_room\<lparr>membership := orset_add ''c'' ''t'' orset_new\<rparr>"
    by (simp add: one_member_def room_of_on) (simp add: new_room_def)
  then show ?thesis
    using failover_restores_membership [OF fleet_wf [of "\<lambda>_ _. (None, JNull)" "''eu''"] one_member_wf, of "''t''" "''r''" "''c''" 0]
    by (simp add: new_room_def) (simp add: orset_new_def)
qed

section \<open>Sessions\<close>

text \<open>
  Every session entry is causally covered by the region's vector clock: that is what makes a local
  write win over everything the region has seen.
\<close>

definition covered :: "mr \<Rightarrow> bool" where
  "covered s \<longleftrightarrow> vc_ok (vectorClock s) \<and> (\<forall>k e. js_get (sessions s) k = Some e \<longrightarrow> vc_le (le_clock e) (vectorClock s))"

definition covered_snapshot :: "snapshot \<Rightarrow> bool" where
  "covered_snapshot sn \<longleftrightarrow> wf_map (sn_sessions sn) \<and>
     (\<exists>v. sn_vectorClock sn = Some v \<and> vc_ok v \<and> (\<forall>k e. js_get (sn_sessions sn) k = Some e \<longrightarrow> vc_le (le_clock e) v))"

lemma vc_le_trans: "vc_le a b \<Longrightarrow> vc_le b c \<Longrightarrow> vc_le a c"
  unfolding vc_le_def by (meson order_trans)

lemma vc_le_refl: "vc_le a a"
  by (simp add: vc_le_def)

lemma vc_le_empty: "vc_ok v \<Longrightarrow> vc_le [] v"
  by (simp add: vc_le_def vc_ok_def vc_get_def [of "[]"])

lemma vc_le_bump: "vc_le a v \<Longrightarrow> vc_le a (vcIncrement v r)" "vc_le a v \<Longrightarrow> \<not> vc_le (vcIncrement v r) a"
proof -
  assume le: "vc_le a v"
  have "vc_le v (vcIncrement v r)" by (simp add: vc_le_def vcIncrement_def)
  with le show "vc_le a (vcIncrement v r)" by (rule vc_le_trans)
  have "vc_get a r < vc_get (vcIncrement v r) r" using le by (simp add: vc_le_def vcIncrement_def le_less_trans)
  then show "\<not> vc_le (vcIncrement v r) a" by (auto simp: vc_le_def not_le)
qed

lemma vc_le_merge: "vc_ok a \<Longrightarrow> vc_ok b \<Longrightarrow> vc_le a (vcMerge a b) \<and> vc_le b (vcMerge a b)"
  by (simp add: vc_le_def vcMerge_max)

lemma covered_mono:
  assumes "covered s" and "sessions s' = sessions s" and "vc_le (vectorClock s) (vectorClock s')" and "vc_ok (vectorClock s')"
  shows "covered s'"
  using assms vc_le_trans unfolding covered_def by metis

lemma covered_bump: "covered s \<Longrightarrow> covered (bumpVectorClock s)"
proof (rule covered_mono)
  assume "covered s"
  then have "vc_ok (vectorClock s)" by (simp add: covered_def)
  then show "vc_ok (vectorClock (bumpVectorClock s))" by (simp add: bumpVectorClock_def vc_ok_increment)
  show "vc_le (vectorClock s) (vectorClock (bumpVectorClock s))"
    by (simp add: bumpVectorClock_def vc_le_bump(1) vc_le_refl)
qed (simp_all add: bumpVectorClock_def)

lemma better_cases: "better a b = Some e \<Longrightarrow> a = Some e \<or> b = Some e"
  by (auto simp: better_def split: option.splits if_splits)

lemma covered_write:
  assumes "covered s" and "vc_le clock (vectorClock s)"
  shows "covered (s\<lparr>sessions := lwwmap_set k v clock w (sessions s)\<rparr>)"
    and "covered (s\<lparr>sessions := lwwmap_delete k clock w (sessions s)\<rparr>)"
  using assms better_cases unfolding covered_def lwwmap_set_def lwwmap_delete_def
  by (auto simp: lwwmap_get_apply split: if_splits) fastforce+

lemma own_write_wins:
  assumes "covered s"
  shows "js_get (lwwmap_set k v (vcIncrement (vectorClock s) r) w (sessions s)) k =
    Some \<lparr>le_value = Some v, le_clock = vcIncrement (vectorClock s) r, le_writer = w, le_deleted = False\<rparr>"
proof -
  have "winsOver \<lparr>le_value = Some v, le_clock = vcIncrement (vectorClock s) r, le_writer = w, le_deleted = False\<rparr> e"
    if "js_get (sessions s) k = Some e" for e
    using assms that vc_le_bump [of "le_clock e" "vectorClock s" r]
    by (auto simp: covered_def winsOver_def vcCompare_spec)
  then show ?thesis by (auto simp: lwwmap_set_def lwwmap_get_apply better_def split: option.split)
qed

lemma replicate_data: "same_data (snd (replicate_op now p h residency s)) s"
  using send_to_peers_spec [of "peerRegions s" "make_op now p h residency s" s] by (simp add: replicate_op_def)

lemma same_data_covered: "same_data s t \<Longrightarrow> covered s = covered t"
  by (simp add: same_data_def covered_def)

lemma quorum_data: "same_data (snd (snd (quorumReplicate now ack p h s))) s"
  by (simp add: quorumReplicate_def same_data_def Let_def)

lemma on_room_covered: "covered (on_membership r f s) = covered s" "covered (on_sequence r g s) = covered s"
  by (simp_all add: covered_def on_membership_def on_sequence_def set_room_def mr_ensureRoom_def Let_def)

lemma covered_upd [simp]:
  "covered (s\<lparr>hlcInstance := h\<rparr>) = covered s" "covered (s\<lparr>geofences := g\<rparr>) = covered s"
  "covered (s\<lparr>localSeq := n\<rparr>) = covered s" "covered (s\<lparr>failedRegions := f\<rparr>) = covered s"
  "covered (s\<lparr>regionHealth := rh\<rparr>) = covered s" "covered (s\<lparr>opsReceived := n\<rparr>) = covered s"
  "covered (s\<lparr>replicationLagMs := l\<rparr>) = covered s" "covered (recordMergeDuration s) = covered s"
  by (simp_all add: covered_def recordMergeDuration_def)

lemma covered_handle:
  assumes "covered s" and "vc_ok (op_clock op)"
  shows "covered (snd (handlePeerOperation now op s))"
proof -
  let ?s1 = "note_clocks now op (note_lag now op s)"
  have same: "vectorClock (note_lag now op s) = vectorClock s" "sessions (note_lag now op s) = sessions s"
    by (simp_all add: note_lag_def Let_def split: option.split)
  have vc: "vectorClock ?s1 = (case op_vectorClock op of None \<Rightarrow> vectorClock s | Some v \<Rightarrow> vcMerge (vectorClock s) v)"
    and se: "sessions ?s1 = sessions s"
    by (simp_all add: note_clocks_def Let_def same split: option.split)
  have ok: "vc_ok (vectorClock s)" using assms(1) by (simp add: covered_def)
  have le: "vc_le (vectorClock s) (vectorClock ?s1)" "vc_ok (vectorClock ?s1)" "vc_le (op_clock op) (vectorClock ?s1)"
    using vc_le_merge [OF ok] vc_ok_merge [OF ok] assms(2) ok unfolding vc op_clock_def
    by (cases "op_vectorClock op"; simp add: vc_le_empty vc_le_refl)+
  have "covered ?s1" by (rule covered_mono [OF assms(1) se le(1,2)])
  with le(3) show ?thesis
    by (cases "op_payload op")
      (simp_all add: handlePeerOperation_def Let_def on_room_covered covered_write)
qed

lemma covered_merge:
  assumes "covered s" and "covered_snapshot sn"
  shows "covered (snd (mergeRemoteState sn s))"
proof -
  let ?s' = "snd (mergeRemoteState sn s)" and ?s1 = "snd (merge_rooms (sn_rooms sn) (False, s))"
  have keep: "sessions (snd (merge_rooms rs (b, s))) = sessions s \<and> vectorClock (snd (merge_rooms rs (b, s))) = vectorClock s" for rs b
    by (induction rs arbitrary: b s) (auto simp: merge_room_def set_room_def mr_ensureRoom_def Let_def)
  obtain v where v: "sn_vectorClock sn = Some v" "vc_ok v" "wf_map (sn_sessions sn)"
    "\<And>k e. js_get (sn_sessions sn) k = Some e \<Longrightarrow> vc_le (le_clock e) v"
    using assms(2) by (auto simp: covered_snapshot_def)
  have ok: "vc_ok (vectorClock s)" using assms(1) by (simp add: covered_def)
  have vc: "vectorClock ?s' = vcMerge (vectorClock s) v"
    and se: "sessions ?s' = fst (lwwmap_merge (sessions s) (lwwmap_fromJSON (sn_sessions sn)) 0)"
    by (simp_all add: mergeRemoteState_def Let_def case_prod_beta keep v(1) recordMergeDuration_def)
  have "vc_le (le_clock e) (vectorClock ?s')" if "js_get (sessions ?s') k = Some e" for k e
  proof -
    have "js_get (sessions s) k = Some e \<or> js_get (sn_sessions sn) k = Some e"
      using that better_cases lwwmap_restore [OF v(3)] by (simp add: se lwwmap_merge_get)
    then show ?thesis
      using assms(1) v(4) vc_le_merge [OF ok v(2)] vc_le_trans unfolding covered_def vc by metis
  qed
  then show ?thesis using vc_ok_merge [OF ok v(2)] by (simp add: covered_def vc)
qed

text \<open>The coordinator as a state machine; operations and snapshots come from peers with sound clocks.\<close>

inductive mr_step :: "mr \<Rightarrow> mr \<Rightarrow> bool" where
  m_join: "joinRoom now rnd c r z s = (tag, sent, s') \<Longrightarrow> mr_step s s'"
| m_leave: "leaveRoom now c r z s = (removed, tags, sent, s') \<Longrightarrow> mr_step s s'"
| m_broadcast: "mr_broadcast now r m z left s = Some (i, h, n, l, sent, s') \<Longrightarrow> mr_step s s'"
| m_save: "saveSession now c st z s = (key, clock, sent, s') \<Longrightarrow> mr_step s s'"
| m_fence: "syncGeofence now ack f d s = (res, sent, s') \<Longrightarrow> mr_step s s'"
| m_unfence: "removeGeofence now ack f s = (res, sent, s') \<Longrightarrow> mr_step s s'"
| m_config: "setGlobalConfig now ack k v s = (res, sent, s') \<Longrightarrow> mr_step s s'"
| m_peer: "vc_ok (op_clock op) \<Longrightarrow> handlePeerOperation now op s = (applied, s') \<Longrightarrow> mr_step s s'"
| m_merge: "covered_snapshot sn \<Longrightarrow> mergeRemoteState sn s = (changed, s') \<Longrightarrow> mr_step s s'"
| m_failed: "mr_step s (markRegionFailed r s)"
| m_healthy: "mr_step s (markRegionHealthy r s)"

lemma covered_replicate:
  "covered s \<Longrightarrow> covered (snd (replicate_op now p h z s))"
  using same_data_covered [OF replicate_data] by blast

lemma covered_quorum: "covered s \<Longrightarrow> covered (snd (snd (quorumReplicate now ack p h s)))"
  using same_data_covered [OF quorum_data] by blast

lemma covered_local_write:
  "covered s \<Longrightarrow> covered ((bumpVectorClock s)\<lparr>sessions := lwwmap_set k v (vectorClock (bumpVectorClock s)) w (sessions (bumpVectorClock s))\<rparr>)"
  by (intro covered_write covered_bump) (simp_all add: vc_le_refl)

lemma mr_step_covered:
  assumes "mr_step s s'" and "covered s" shows "covered s'"
  using assms
proof cases
  case (m_join now rnd c r z tag sent)
  then have "s' = snd (snd (joinRoom now rnd c r z s))" by simp
  then show ?thesis using assms(2) by (simp add: joinRoom_def Let_def covered_replicate on_room_covered)
next
  case (m_leave now c r z removed tags sent)
  then have "s' = snd (snd (snd (leaveRoom now c r z s)))" by simp
  then show ?thesis using assms(2) by (simp add: leaveRoom_def Let_def covered_replicate on_room_covered)
next
  case (m_broadcast now r m z left i h n l sent)
  then show ?thesis using assms(2)
    by (auto simp: mr_broadcast_def Let_def on_room_covered split: option.splits prod.splits
        dest!: arg_cong [where f = snd] intro!: covered_replicate covered_bump)
next
  case (m_save now c st z key clock sent)
  then have "s' = snd (snd (snd (saveSession now c st z s)))" by simp
  then show ?thesis using covered_local_write [OF assms(2)] by (simp add: saveSession_def Let_def covered_replicate)
next
  case (m_fence now ack f d res sent)
  then have "s' = snd (snd (syncGeofence now ack f d s))" by simp
  then show ?thesis using assms(2) by (simp add: syncGeofence_def Let_def covered_quorum covered_bump)
next
  case (m_unfence now ack f res sent)
  then have "s' = snd (snd (removeGeofence now ack f s))" by simp
  then show ?thesis using assms(2) by (simp add: removeGeofence_def Let_def covered_quorum covered_bump)
next
  case (m_config now ack k v res sent)
  then have "s' = snd (snd (setGlobalConfig now ack k v s))" by simp
  then show ?thesis using covered_local_write [OF assms(2)] by (simp add: setGlobalConfig_def Let_def covered_quorum)
next
  case (m_peer op now applied)
  then show ?thesis using covered_handle [OF assms(2), of op now] by simp
next
  case (m_merge sn changed)
  then show ?thesis using covered_merge [OF assms(2), of sn] by simp
qed (use assms(2) in \<open>simp_all add: markRegionFailed_def markRegionHealthy_def\<close>)

definition mr_reachable :: "mr \<Rightarrow> bool" where
  "mr_reachable s \<longleftrightarrow> (\<exists>rid peers transport cfg s0. mr_init rid peers transport cfg = Inr s0 \<and> mr_step\<^sup>*\<^sup>* s0 s)"

lemma mr_reachable_covered: "mr_reachable s \<Longrightarrow> covered s"
proof -
  assume "mr_reachable s"
  then obtain rid peers transport cfg s0 where
    s0: "mr_init rid peers transport cfg = Inr s0" and steps: "mr_step\<^sup>*\<^sup>* s0 s"
    by (auto simp: mr_reachable_def)
  from s0 have "covered s0"
    by (auto simp: mr_init_def covered_def vc_ok_def vc_get_def split: if_splits)
  with steps show "covered s" by (induction rule: rtranclp_induct) (auto intro: mr_step_covered)
qed

text \<open>
  A region reads its own last write: in every reachable state, right after \<open>saveSession\<close> the
  failover read returns the state just saved, whatever concurrent writes were merged before; the
  same holds for global configuration.
\<close>

theorem session_write_wins:
  assumes "mr_reachable s"
  shows "r_session (restoreSession now' (snd (snd (snd (saveSession now c st z s)))) c) = Some st
    \<and> getGlobalConfig (snd (snd (setGlobalConfig now ack k v s))) k = Some v"
proof -
  note cov = mr_reachable_covered [OF assms]
  have rep: "sessions (snd (replicate_op now p h z s1)) = sessions s1" for p h z s1
    using replicate_data [of now p h z s1] by (simp add: same_data_def)
  have quo: "sessions (snd (snd (quorumReplicate now ack p h s1))) = sessions s1" for p h s1
    using quorum_data [of now ack p h s1] by (simp add: same_data_def)
  show ?thesis
    using own_write_wins [OF cov]
    by (simp add: saveSession_def setGlobalConfig_def restoreSession_def getGlobalConfig_def Let_def rep quo
        lwwmap_get_def bumpVectorClock_def)
qed

lemma fleet_reachable: "mr_reachable (fleet ''eu'')"
proof -
  have "mr_init ''eu'' [''ap'', ''us''] True (mr_cfg (fleet ''eu'')) = Inr (fleet ''eu'')"
    by (simp add: mr_init_def fleet_def)
  then show ?thesis unfolding mr_reachable_def by blast
qed

theorem session_write_wins_witness:
  "r_session (restoreSession 5 (snd (snd (snd (saveSession 4 ''c'' (JStr ''s'') None (fleet ''eu''))))) ''c'') = Some (JStr ''s'')"
  using session_write_wins [OF fleet_reachable, of 5 4 "''c''" "JStr ''s''" None] by blast

text \<open>
  A geofence edit that does not reach its quorum is reported as not committed but stays applied
  in the region that made it: the definition is readable there right away.
\<close>

theorem uncommitted_fence_is_applied:
  assumes "js_get (ls_adds (geofences s)) f = None" and "js_get (ls_removes (geofences s)) f = None"
    and "\<forall>peer. \<not> ack peer" and "quorumSize s > 1"
  shows "let (res, sent, s') = syncGeofence now ack f d s
    in \<not> committed res \<and> lwwset_has (geofences s') f \<and> lwwset_get (geofences s') f = Some d"
proof -
  have geo: "geofences (snd (snd (quorumReplicate now ack p h s1))) = geofences s1" for p h s1
    using quorum_data [of now ack p h s1] by (simp add: same_data_def)
  have q: "quorumSize (bumpVectorClock (s\<lparr>hlcInstance := a, geofences := b\<rparr>)) = quorumSize s" for a b
    by (simp add: quorumSize_def bumpVectorClock_def split: option.split)
  have "quorumSize (s1\<lparr>quorumWritesTotal := n\<rparr>) = quorumSize s1" for s1 n
    by (simp add: quorumSize_def split: option.split)
  then have "\<not> committed (fst (syncGeofence now ack f d s))"
    using assms(3,4) q by (simp add: syncGeofence_def quorumReplicate_def Let_def)
  then show ?thesis
    using assms(1,2) geo
    by (simp add: case_prod_beta syncGeofence_def Let_def bumpVectorClock_def lwwset_add_def put_stamp_def
        lwwset_has_def lwwset_get_def)
qed

theorem uncommitted_fence_is_applied_witness:
  "lwwset_get (geofences (snd (snd (syncGeofence 1 (\<lambda>_. False) ''f'' (JStr ''d'') (fleet ''eu''))))) ''f'' = Some (JStr ''d'')"
  using uncommitted_fence_is_applied [of "fleet ''eu''" "''f''" "\<lambda>_. False" 1 "JStr ''d''"]
  by (simp add: fleet_def lwwset_new_def quorumSize_def case_prod_beta)

section \<open>Merkle roots\<close>

text \<open>
  The canonical form of an object does not depend on the order of its fields.
\<close>

theorem canonical_json:
  assumes "mset m = mset m'" and "wf_map m"
  shows "stableStringify (JObj m) = stableStringify (JObj m')"
proof -
  let ?f = "map (\<lambda>(k, v). (k, stableStringify v))"
  have keys: "map fst (?f m) = map fst m" by (simp add: comp_def case_prod_beta)
  have "mset (?f m) = mset (?f m')" using assms(1) by (simp only: mset_map)
  moreover have "inj_on fst (set (?f m))" using assms(2) keys by (metis distinct_map)
  ultimately have "sort_key fst (?f m) = sort_key fst (?f m')"
    by (intro sort_key_inj_key_eq) simp_all
  then show ?thesis by simp
qed

theorem canonical_json_witness:
  "stableStringify (JObj [(''a'', JNull), (''b'', JBool True)]) = stableStringify (JObj [(''b'', JBool True), (''a'', JNull)])"
  using canonical_json [of "[(''a'', JNull), (''b'', JBool True)]" "[(''b'', JBool True), (''a'', JNull)]"] by simp

lemma merkle_duplicate_leaf: "merkleRoot H [x, y, z] = merkleRoot H [x, y, z, z]"
  by (simp add: merkleRoot_def merkle_levels.simps)

text \<open>
  What the Merkle root misses, for every hash function: the ids of the rooms are not hashed, so
  two regions that hold the same state under different room ids have equal roots; and because the
  last leaf is paired with itself, so do a region with three rooms and one with a fourth room equal
  to the third.
\<close>

theorem merkle_root_blind:
  assumes "mr_rooms s = [(a, room)]" and "mr_rooms t = [(b, room)]"
  shows "merkleRootForRooms H s = merkleRootForRooms H t \<and> merkleRoot H [x, y, z] = merkleRoot H [x, y, z, z]"
  using assms by (simp add: merkleRootForRooms_def mr_room_of_def merkle_duplicate_leaf)

theorem merkle_root_blind_witness:
  "merkleRootForRooms (\<lambda>x. x) ((fleet ''eu'')\<lparr>mr_rooms := [(''a'', new_room)]\<rparr>) =
   merkleRootForRooms (\<lambda>x. x) ((fleet ''us'')\<lparr>mr_rooms := [(''b'', new_room)]\<rparr>)"
  using merkle_root_blind [of "(fleet ''eu'')\<lparr>mr_rooms := [(''a'', new_room)]\<rparr>" "''a''" new_room
      "(fleet ''us'')\<lparr>mr_rooms := [(''b'', new_room)]\<rparr>" "''b''" "\<lambda>x. x"] by simp

end
