(* ===== verification/RateLimit.thy ===== *)
theory RateLimit
  imports Prelude
begin

text \<open>
  The two sliding-window limiters: \<open>src/rate-limiter.js\<close> (messages per client and second) and
  \<open>src/conn-rate-limiter.js\<close> (new connections per IP address and minute). Both keep one
  array of accepted timestamps per key and evict it in batches, only when its first element
  left the window. The locale \<open>window_limiter\<close> states what a caller may rely on; the limiters
  are its two instances, and the bound over a whole run is proved once inside it.
\<close>

type_synonym windows = "(string, int list) jsmap"

definition stamps :: "windows \<Rightarrow> string \<Rightarrow> int list" where
  "stamps w k = (case js_get w k of None \<Rightarrow> [] | Some ts \<Rightarrow> ts)"

section \<open>src/rate-limiter.js\<close>

definition rate_check :: "int \<Rightarrow> int \<Rightarrow> windows \<Rightarrow> string \<Rightarrow> bool \<times> windows" where
  "rate_check limit now w clientId =
     (let cutoff = now - 1000;
          w1 = (if js_has w clientId then w else js_set clientId [] w);
          ts = stamps w1 clientId;
          evict = (ts \<noteq> [] \<and> hd ts \<le> cutoff);
          ts' = (if evict then filter (\<lambda>t. t > cutoff) ts else ts);
          w2 = (if evict then js_set clientId ts' w1 else w1)
      in if int (length ts') \<ge> limit then (False, w2)
         else (True, js_set clientId (ts' @ [now]) w2))"

definition rate_remove :: "string \<Rightarrow> windows \<Rightarrow> windows" where
  "rate_remove clientId w = js_delete clientId w"

fun rate_cleanup :: "int \<Rightarrow> windows \<Rightarrow> windows" where
  "rate_cleanup now [] = []"
| "rate_cleanup now ((clientId, ts) # w) =
     (let filtered = filter (\<lambda>t. t > now - 1000) ts
      in if filtered = [] then rate_cleanup now w
         else (clientId, filtered) # rate_cleanup now w)"

definition rate_size :: "windows \<Rightarrow> nat" where
  "rate_size w = length w"

section \<open>src/conn-rate-limiter.js\<close>

definition conn_check :: "int \<Rightarrow> int \<Rightarrow> windows \<Rightarrow> string \<Rightarrow> bool \<times> windows" where
  "conn_check limit now w ip =
     (let cutoff = now - 60000;
          w1 = (if js_has w ip then w else js_set ip [] w);
          ts = stamps w1 ip;
          evict = (ts \<noteq> [] \<and> hd ts \<le> cutoff);
          ts' = (if evict then filter (\<lambda>t. t > cutoff) ts else ts);
          w2 = (if evict then js_set ip ts' w1 else w1)
      in if int (length ts') \<ge> limit then (False, w2)
         else (True, js_set ip (ts' @ [now]) w2))"

definition conn_cleanup :: "string \<Rightarrow> windows \<Rightarrow> windows" where
  "conn_cleanup ip w = js_delete ip w"

section \<open>Runs\<close>

text \<open>A run is a list of calls \<open>(now, key)\<close>; it yields the calls that were accepted.\<close>

fun run_checks :: "(int \<Rightarrow> windows \<Rightarrow> string \<Rightarrow> bool \<times> windows) \<Rightarrow> windows \<Rightarrow>
    (int \<times> string) list \<Rightarrow> (int \<times> string) list \<times> windows" where
  "run_checks chk w [] = ([], w)"
| "run_checks chk w ((now, k) # calls) =
     (let (ok, w') = chk now w k;
          (acc, w'') = run_checks chk w' calls
      in (if ok then (now, k) # acc else acc, w''))"

definition times_of :: "string \<Rightarrow> (int \<times> string) list \<Rightarrow> int list" where
  "times_of k calls = map fst (filter (\<lambda>(t, k'). k' = k) calls)"

definition in_window :: "int \<Rightarrow> int \<Rightarrow> int list \<Rightarrow> int list" where
  "in_window span t ts = filter (\<lambda>s. t - span < s \<and> s \<le> t) ts"

text \<open>
  The specification a run is compared with: remember every accepted call for ever, and accept
  while fewer than \<open>limit\<close> of the key's calls lie in the window that ends now.
\<close>

fun spec_run :: "int \<Rightarrow> int \<Rightarrow> (int \<times> string) list \<Rightarrow> (int \<times> string) list \<Rightarrow> (int \<times> string) list" where
  "spec_run span limit hist [] = []"
| "spec_run span limit hist ((now, k) # calls) =
     (if int (length (filter (\<lambda>t. now - span < t) (times_of k hist))) < limit
      then (now, k) # spec_run span limit (hist @ [(now, k)]) calls
      else spec_run span limit hist calls)"

section \<open>The contract of a sliding-window limiter\<close>

locale window_limiter =
  fixes chk :: "int \<Rightarrow> windows \<Rightarrow> string \<Rightarrow> bool \<times> windows"
    and span :: int
    and limit :: int
  assumes span_pos: "0 < span"
    and accepts: "sorted (stamps w k) \<Longrightarrow>
      fst (chk now w k) \<longleftrightarrow> int (length (filter (\<lambda>t. now - span < t) (stamps w k))) < limit"
    and stamps_own: "sorted (stamps w k) \<Longrightarrow>
      stamps (snd (chk now w k)) k =
        filter (\<lambda>t. now - span < t) (stamps w k) @ (if fst (chk now w k) then [now] else [])"
    and stamps_other: "k' \<noteq> k \<Longrightarrow> stamps (snd (chk now w k)) k' = stamps w k'"
begin

text \<open>
  The array of a key is sorted, holds nothing newer than the last call, and agrees with the
  key's whole accepted history on every window that can still matter.
\<close>

definition tracks :: "windows \<Rightarrow> (string \<Rightarrow> int list) \<Rightarrow> int \<Rightarrow> bool" where
  "tracks w hist t0 \<longleftrightarrow>
     (\<forall>k. sorted (stamps w k) \<and> (\<forall>t\<in>set (stamps w k). t \<le> t0)
        \<and> (\<forall>c\<ge>t0 - span. filter (\<lambda>t. c < t) (hist k) = filter (\<lambda>t. c < t) (stamps w k))
        \<and> (\<forall>t. int (length (in_window span t (hist k))) \<le> max 0 limit))"

lemma tracks_start: "stamps w = (\<lambda>_. []) \<Longrightarrow> tracks w (\<lambda>_. []) t0"
  by (simp add: tracks_def in_window_def)

lemma tracks_check:
  assumes tr: "tracks w hist t0" and le: "t0 \<le> now"
  shows "tracks (snd (chk now w k))
           (hist(k := hist k @ (if fst (chk now w k) then [now] else []))) now"
proof -
  let ?ok = "fst (chk now w k)" and ?w = "snd (chk now w k)"
  let ?new = "if ?ok then [now] else []"
  let ?live = "filter (\<lambda>t. now - span < t) (stamps w k)"
  from tr have s: "sorted (stamps w k)" and b: "\<forall>t\<in>set (stamps w k). t \<le> t0"
    and eq: "\<And>c. t0 - span \<le> c \<Longrightarrow>
        filter (\<lambda>t. c < t) (hist k) = filter (\<lambda>t. c < t) (stamps w k)"
    and bnd: "\<And>t. int (length (in_window span t (hist k))) \<le> max 0 limit"
    by (auto simp: tracks_def)
  have own: "stamps ?w k = ?live @ ?new" by (rule stamps_own [OF s])
  have live: "filter (\<lambda>t. now - span < t) (hist k) = ?live" using eq [of "now - span"] le by simp
  have window: "int (length (in_window span t (hist k @ ?new))) \<le> max 0 limit" for t
  proof (cases "?ok \<and> now \<le> t \<and> t - span < now")
    case True
    have "length (in_window span t (hist k)) \<le> length (filter (\<lambda>t. now - span < t) (hist k))"
      using True unfolding in_window_def by (intro length_filter_mono) auto
    with True live accepts [OF s, of now] show ?thesis by (simp add: in_window_def)
  next
    case False
    with bnd [of t] show ?thesis by (auto simp: in_window_def)
  qed
  have hist: "filter (\<lambda>t. c < t) (hist k @ ?new) = filter (\<lambda>t. c < t) (?live @ ?new)"
    if "now - span \<le> c" for c
    using that le eq [of c] filter_implied [of "stamps w k" "\<lambda>t. c < t" "\<lambda>t. now - span < t"]
    by auto
  have srt: "sorted (?live @ ?new)" using s b le by (auto simp: sorted_append sorted_wrt_filter)
  show ?thesis
    unfolding tracks_def
  proof (intro allI conjI ballI)
    fix k'
    show "sorted (stamps ?w k')"
      using tr srt own by (cases "k' = k") (auto simp: stamps_other tracks_def)
    show "t \<le> now" if "t \<in> set (stamps ?w k')" for t
      using that tr le own b
      by (cases "k' = k") (fastforce simp: stamps_other tracks_def split: if_splits)+
    show "int (length (in_window span t ((hist(k := hist k @ ?new)) k'))) \<le> max 0 limit" for t
      using window [of t] tr by (auto simp: tracks_def)
    show "now - span \<le> c \<longrightarrow> filter (\<lambda>t. c < t) ((hist(k := hist k @ ?new)) k') =
        filter (\<lambda>t. c < t) (stamps ?w k')" for c
      using hist [of c] own tr le by (cases "k' = k") (auto simp: stamps_other tracks_def)
  qed
qed

lemma tracks_run:
  assumes "tracks w hist t0" and "sorted (t0 # map fst calls)"
  shows "\<exists>t1. tracks (snd (run_checks chk w calls))
           (\<lambda>k. hist k @ times_of k (fst (run_checks chk w calls))) t1"
  using assms
proof (induction calls arbitrary: w hist t0)
  case Nil
  then show ?case by (auto simp: times_of_def)
next
  case (Cons c calls)
  obtain now k where c: "c = (now, k)" by fastforce
  let ?hist = "hist(k := hist k @ (if fst (chk now w k) then [now] else []))"
  have "tracks (snd (chk now w k)) ?hist now" using Cons.prems c by (intro tracks_check) auto
  from Cons.IH [OF this] Cons.prems c obtain t1 where
    "tracks (snd (run_checks chk (snd (chk now w k)) calls))
       (\<lambda>k'. ?hist k' @ times_of k' (fst (run_checks chk (snd (chk now w k)) calls))) t1" by auto
  moreover have "(\<lambda>k'. ?hist k' @ times_of k' (fst (run_checks chk (snd (chk now w k)) calls))) =
      (\<lambda>k'. hist k' @ times_of k' (fst (run_checks chk w (c # calls))))"
    using c by (auto simp: times_of_def fun_eq_iff split: prod.splits)
  ultimately show ?case using c by (auto split: prod.splits)
qed

lemma run_refines_from:
  assumes "tracks w (\<lambda>k. times_of k hist) t0" and "sorted (t0 # map fst calls)"
  shows "fst (run_checks chk w calls) = spec_run span limit hist calls"
  using assms
proof (induction calls arbitrary: w hist t0)
  case (Cons c calls)
  obtain now k where c: "c = (now, k)" by fastforce
  let ?ok = "fst (chk now w k)"
  let ?hist = "hist @ (if ?ok then [(now, k)] else [])"
  have s: "sorted (stamps w k)" and le: "t0 \<le> now" and srt: "sorted (now # map fst calls)"
    using Cons.prems c by (auto simp: tracks_def)
  have "filter (\<lambda>t. now - span < t) (times_of k hist) = filter (\<lambda>t. now - span < t) (stamps w k)"
    using Cons.prems(1) le by (simp add: tracks_def)
  then have ok: "?ok \<longleftrightarrow> int (length (filter (\<lambda>t. now - span < t) (times_of k hist))) < limit"
    using accepts [OF s, of now] by simp
  have "(\<lambda>k'. times_of k' ?hist) =
      (\<lambda>k. times_of k hist)(k := times_of k hist @ (if ?ok then [now] else []))"
    by (auto simp: times_of_def fun_eq_iff)
  with tracks_check [OF Cons.prems(1) le, of k]
  have "tracks (snd (chk now w k)) (\<lambda>k'. times_of k' ?hist) now" by simp
  from Cons.IH [OF this srt] ok show ?case
    using c by (auto split: prod.splits)
qed simp

theorem window_bound:
  assumes "stamps w = (\<lambda>_. [])" and "sorted (map fst calls)"
  shows "int (length (in_window span t (times_of k (fst (run_checks chk w calls))))) \<le> max 0 limit"
proof (cases calls)
  case Nil
  then show ?thesis by (simp add: times_of_def in_window_def)
next
  case (Cons c cs)
  then have "sorted (fst c # map fst calls)" using assms(2) by auto
  from tracks_run [OF tracks_start [OF assms(1)] this]
  show ?thesis by (auto simp: tracks_def)
qed

theorem run_refines:
  assumes "stamps w = (\<lambda>_. [])" and "sorted (map fst calls)"
  shows "fst (run_checks chk w calls) = spec_run span limit [] calls"
proof (cases calls)
  case (Cons c cs)
  then have "sorted (fst c # map fst calls)" using assms(2) by auto
  with tracks_start [OF assms(1)] show ?thesis
    by (intro run_refines_from [of w "[]" "fst c" calls]) (simp_all add: times_of_def)
qed simp

end

text \<open>A limiter that can also drop stale arrays from a timer: the sweep is unobservable.\<close>

locale swept_limiter = window_limiter +
  fixes sweep :: "int \<Rightarrow> windows \<Rightarrow> windows"
  assumes stamps_sweep: "wf_map w \<Longrightarrow> stamps (sweep now w) k = filter (\<lambda>t. now - span < t) (stamps w k)"
begin

theorem sweep_transparent:
  assumes "wf_map w" and "sorted (stamps w k)" and "now \<le> later"
  shows "fst (chk later (sweep now w) k) = fst (chk later w k)"
    and "stamps (snd (chk later (sweep now w) k)) k = stamps (snd (chk later w k)) k"
proof -
  have s: "sorted (stamps (sweep now w) k)"
    using assms by (simp add: stamps_sweep sorted_wrt_filter)
  have eq: "filter (\<lambda>t. later - span < t) (stamps (sweep now w) k) =
      filter (\<lambda>t. later - span < t) (stamps w k)"
    unfolding stamps_sweep [OF assms(1)] using assms(3) by (intro filter_implied) auto
  show ok: "fst (chk later (sweep now w) k) = fst (chk later w k)"
    using accepts [OF s, of later] accepts [OF assms(2), of later] eq by simp
  show "stamps (snd (chk later (sweep now w) k)) k = stamps (snd (chk later w k)) k"
    using stamps_own [OF s, of later] stamps_own [OF assms(2), of later] eq ok by simp
qed

end

section \<open>Both limiters implement it\<close>

lemma stamps_set [simp]: "stamps (js_set k ts w) k' = (if k' = k then ts else stamps w k')"
  by (simp add: stamps_def)

lemma stamps_absent: "js_get w k = None \<Longrightarrow> stamps w k = []"
  by (simp add: stamps_def)

lemma rate_check_stamps:
  assumes "sorted (stamps w k)"
  shows "fst (rate_check limit now w k) \<longleftrightarrow>
      int (length (filter (\<lambda>t. now - 1000 < t) (stamps w k))) < limit"
    and "stamps (snd (rate_check limit now w k)) k =
      filter (\<lambda>t. now - 1000 < t) (stamps w k) @ (if fst (rate_check limit now w k) then [now] else [])"
  using sorted_hd_filter_id [OF assms, of "now - 1000"]
  by (auto simp: rate_check_def Let_def stamps_absent)

lemma conn_check_stamps:
  assumes "sorted (stamps w k)"
  shows "fst (conn_check limit now w k) \<longleftrightarrow>
      int (length (filter (\<lambda>t. now - 60000 < t) (stamps w k))) < limit"
    and "stamps (snd (conn_check limit now w k)) k =
      filter (\<lambda>t. now - 60000 < t) (stamps w k) @ (if fst (conn_check limit now w k) then [now] else [])"
  using sorted_hd_filter_id [OF assms, of "now - 60000"]
  by (auto simp: conn_check_def Let_def stamps_absent)

lemma check_stamps_other:
  "k' \<noteq> k \<Longrightarrow> stamps (snd (rate_check limit now w k)) k' = stamps w k'"
  "k' \<noteq> k \<Longrightarrow> stamps (snd (conn_check limit now w k)) k' = stamps w k'"
  by (auto simp: rate_check_def conn_check_def Let_def)

lemma stamps_Cons: "stamps ((c, ts) # w) k = (if k = c then ts else stamps w k)"
  by (simp add: stamps_def)

lemma rate_cleanup_keys: "set (js_keys (rate_cleanup now w)) \<subseteq> set (js_keys w)"
proof (induction w)
  case (Cons p w)
  obtain c ts where "p = (c, ts)" by fastforce
  with Cons show ?case by (simp add: Let_def) blast
qed simp

lemma stamps_rate_cleanup:
  "wf_map w \<Longrightarrow> stamps (rate_cleanup now w) k = filter (\<lambda>t. now - 1000 < t) (stamps w k)"
proof (induction w)
  case (Cons p w)
  obtain c ts where p: "p = (c, ts)" by fastforce
  have "js_get (rate_cleanup now w) c = None"
    using Cons.prems p rate_cleanup_keys [of now w] by (auto simp: map_of_eq_None_iff)
  with Cons p show ?case by (cases "k = c") (simp_all add: stamps_Cons stamps_absent Let_def)
qed (simp add: stamps_def)

interpretation rate_limiter: swept_limiter "rate_check limit" 1000 limit rate_cleanup for limit
  by unfold_locales (simp_all add: rate_check_stamps check_stamps_other stamps_rate_cleanup)

interpretation conn_limiter: window_limiter "conn_check limit" 60000 limit for limit
  by unfold_locales (simp_all add: conn_check_stamps check_stamps_other)

lemma stamps_Nil: "stamps [] = (\<lambda>_. [])"
  by (simp add: stamps_def fun_eq_iff)

section \<open>Properties\<close>

text \<open>
  Whatever clients call the message limiter and however often, as long as the clock does
  not run backwards: no client ever has more than \<open>limit\<close> messages accepted in any window of one
  second, although \<open>check\<close> stores only a suffix of the history and evicts it lazily.
\<close>

theorem rate_limit_bound:
  assumes "sorted (map fst calls)"
  shows "int (length (in_window 1000 t
           (times_of k (fst (run_checks (rate_check limit) [] calls))))) \<le> max 0 limit"
  using rate_limiter.window_bound [OF stamps_Nil assms] .

theorem rate_limit_bound_witness:
  "int (length (in_window 1000 1200 (times_of ''a''
     (fst (run_checks (rate_check 2) [] [(0, ''a''), (10, ''a''), (20, ''a''), (1005, ''a'')]))))) \<le> 2
   \<and> fst (run_checks (rate_check 2) [] [(0, ''a''), (10, ''a''), (20, ''a''), (1005, ''a'')]) =
     [(0, ''a''), (10, ''a''), (1005, ''a'')]"
  using rate_limit_bound [of "[(0, ''a''), (10, ''a''), (20, ''a''), (1005, ''a'')]" 1200 "''a''" 2]
  by (simp add: rate_check_def Let_def stamps_def)

text \<open>
  C40. The connection limiter decides exactly as the specification that remembers every accepted
  connection: it admits a connection if and only if fewer than \<open>limit\<close> of the address's
  admitted connections lie in the last minute.
\<close>

theorem conn_limiter_refines_spec:
  assumes "sorted (map fst calls)"
  shows "fst (run_checks (conn_check limit) [] calls) = spec_run 60000 limit [] calls"
  using conn_limiter.run_refines [OF stamps_Nil assms] .

theorem conn_limiter_refines_spec_witness:
  "fst (run_checks (conn_check 1) [] [(0, ''ip''), (5, ''ip''), (60000, ''ip'')]) =
     spec_run 60000 1 [] [(0, ''ip''), (5, ''ip''), (60000, ''ip'')]
   \<and> spec_run 60000 1 [] [(0, ''ip''), (5, ''ip''), (60000, ''ip'')] = [(0, ''ip''), (60000, ''ip'')]"
  using conn_limiter_refines_spec [of "[(0, ''ip''), (5, ''ip''), (60000, ''ip'')]" 1]
  by (simp add: times_of_def)

text \<open>
  The periodic \<open>cleanup()\<close> of the message limiter is invisible to its clients: a later
  \<open>check\<close> decides the same and leaves the same timestamps as if the sweep had not run.
\<close>

theorem rate_cleanup_transparent:
  assumes "wf_map w" and "sorted (stamps w k)" and "now \<le> later"
  shows "fst (rate_check limit later (rate_cleanup now w) k) = fst (rate_check limit later w k)
    \<and> stamps (snd (rate_check limit later (rate_cleanup now w) k)) k =
      stamps (snd (rate_check limit later w k)) k"
  using rate_limiter.sweep_transparent [OF assms] by blast

theorem rate_cleanup_transparent_witness:
  "fst (rate_check 2 1500 (rate_cleanup 1200 [(''a'', [100, 900]), (''b'', [50])]) ''a'') =
     fst (rate_check 2 1500 [(''a'', [100, 900]), (''b'', [50])] ''a'')
   \<and> rate_cleanup 1200 [(''a'', [100, 900]), (''b'', [50])] = [(''a'', [900])]"
  using rate_cleanup_transparent [of "[(''a'', [100, 900]), (''b'', [50])]" "''a''" 1200 1500 2]
  by (simp add: stamps_def)

text \<open>
  \<open>cleanup(ip)\<close> forgets the address: with a positive limit the next connection from it is
  admitted, however many were admitted before. The server calls it whenever one connection of
  the address closes.
\<close>

theorem conn_cleanup_forgets:
  assumes "0 < limit"
  shows "fst (conn_check limit now (conn_cleanup ip w) ip)"
  using assms by (simp add: conn_check_def conn_cleanup_def Let_def stamps_def)

theorem conn_cleanup_forgets_witness:
  "\<not> fst (conn_check 1 7 [(''ip'', [5])] ''ip'')
   \<and> fst (conn_check 1 7 (conn_cleanup ''ip'' [(''ip'', [5])]) ''ip'')"
  using conn_cleanup_forgets [of 1 7 "''ip''" "[(''ip'', [5])]"]
  by (simp add: conn_check_def Let_def stamps_def)

end
