(* ===== verification/EventStore.thy ===== *)
theory EventStore
  imports Json Complex_Main
begin

text \<open>
  The event envelope and the in-memory event store of \<open>src/event-sourcing.js\<close>.

  \<^item> An event carries its versioned type as the string the code compares, and a payload record with
    one optional field per property some consumer reads (\<open>None\<close> is \<open>undefined\<close> or \<open>null\<close>, which
    every consumer treats alike); properties nobody reads are kept in \<open>p_rest\<close>.
  \<^item> Timestamps are milliseconds: the ISO strings of the code are only ever produced by
    \<open>toISOString\<close> and read back by \<open>Date.parse\<close>, which are inverse to each other.
  \<^item> \<open>uuidv7()\<close> and \<open>Date.now()\<close> are arguments. Coordinates and distances are real numbers.
  \<^item> \<open>event_store_append_duration_ms\<close> (a measured time) is not part of the state, and the
    \<open>catch\<close> branch of \<open>append\<close> has no counterpart: none of the calls it guards can throw.

  The locale \<open>event_log\<close> is the contract the repositories rely on: ordered streams that only grow,
  guarded by the expected version.
\<close>

section \<open>Event types\<close>

definition EventTypes_LocationUpdated :: string where "EventTypes_LocationUpdated = ''location_update.v2''"
definition EventTypes_RoomJoined :: string where "EventTypes_RoomJoined = ''room_joined.v1''"
definition EventTypes_RoomLeft :: string where "EventTypes_RoomLeft = ''room_left.v1''"
definition EventTypes_GeofenceEntered :: string where "EventTypes_GeofenceEntered = ''geofence_entered.v1''"
definition EventTypes_GeofenceExited :: string where "EventTypes_GeofenceExited = ''geofence_exited.v1''"
definition EventTypes_GeofenceUpdated :: string where "EventTypes_GeofenceUpdated = ''geofence_updated.v1''"
definition EventTypes_SessionResumed :: string where "EventTypes_SessionResumed = ''session_resumed.v1''"
definition EventTypes_MessageAcknowledged :: string where "EventTypes_MessageAcknowledged = ''message_ack.v1''"
definition EventTypes_MessageNacked :: string where "EventTypes_MessageNacked = ''message_nack.v1''"

lemmas EventTypes_defs =
  EventTypes_LocationUpdated_def EventTypes_RoomJoined_def EventTypes_RoomLeft_def
  EventTypes_GeofenceEntered_def EventTypes_GeofenceExited_def EventTypes_GeofenceUpdated_def
  EventTypes_SessionResumed_def EventTypes_MessageAcknowledged_def EventTypes_MessageNacked_def

fun lastIndexOf :: "string \<Rightarrow> string \<Rightarrow> nat option" where
  "lastIndexOf p [] = (if p = [] then Some 0 else None)"
| "lastIndexOf p (c # s) =
     (case lastIndexOf p s of
        Some i \<Rightarrow> Some (Suc i)
      | None \<Rightarrow> if take (length p) (c # s) = p then Some 0 else None)"

definition is_digit :: "char \<Rightarrow> bool" where
  "is_digit c \<longleftrightarrow> 48 \<le> (of_char c :: nat) \<and> (of_char c :: nat) \<le> 57"

definition baseEventType :: "string \<Rightarrow> string" where
  "baseEventType eventType =
     (case lastIndexOf ''.v'' eventType of
        None \<Rightarrow> eventType
      | Some dot \<Rightarrow>
          let suffix = drop (dot + 2) eventType
          in if suffix \<noteq> [] \<and> list_all is_digit suffix then take dot eventType else eventType)"

definition AggregateTypes_Vehicle :: string where "AggregateTypes_Vehicle = ''vehicle''"
definition AggregateTypes_Room :: string where "AggregateTypes_Room = ''room''"
definition AggregateTypes_Fleet :: string where "AggregateTypes_Fleet = ''fleet''"

lemmas AggregateTypes_defs =
  AggregateTypes_Vehicle_def AggregateTypes_Room_def AggregateTypes_Fleet_def

section \<open>Events\<close>

record fence =
  fenceId :: string
  fenceRoom :: "string option"
  fenceLat :: real
  fenceLon :: real
  radiusM :: real

record resumed =
  resumedRoom :: "string option"
  highestAckedSeq :: "int option"

record payload =
  p_roomId :: "string option"
  p_clientId :: "string option"
  p_latitude :: "real option"
  p_longitude :: "real option"
  p_altitude :: "real option"
  p_accuracy :: "real option"
  p_speed :: "real option"
  p_fences :: "fence list option"
  p_fenceId :: "string option"
  p_location :: "(real \<times> real) option"
  p_rooms :: "resumed list option"
  p_seq :: "int option"
  p_reason :: "string option"
  p_rest :: "(string \<times> json) list"

definition no_payload :: payload where
  "no_payload = \<lparr>p_roomId = None, p_clientId = None, p_latitude = None, p_longitude = None,
     p_altitude = None, p_accuracy = None, p_speed = None, p_fences = None, p_fenceId = None,
     p_location = None, p_rooms = None, p_seq = None, p_reason = None, p_rest = []\<rparr>"

record event =
  eventId :: string
  eventType :: string
  aggregateId :: string
  aggregateType :: string
  sequenceNo :: "int option"
  body :: payload
  metadata :: json
  timestamp :: time
  causationId :: "string option"
  correlationId :: "string option"

datatype es_error = EsTypeError string | EsRangeError string | EsError string

text \<open>
  A timestamp argument: absent, a number or a valid \<open>Date\<close>, an invalid \<open>Date\<close>, or a string, which is
  parsed by \<open>dateParse\<close>.
\<close>

datatype ts_arg = TsAbsent | TsMillis int | TsInvalidDate | TsText string

fun normalizeTimestamp :: "(string \<Rightarrow> int option) \<Rightarrow> time \<Rightarrow> ts_arg \<Rightarrow> es_error + time" where
  "normalizeTimestamp dateParse now TsAbsent = Inr now"
| "normalizeTimestamp dateParse now (TsMillis t) = Inr t"
| "normalizeTimestamp dateParse now TsInvalidDate = Inl (EsRangeError ''Invalid time value'')"
| "normalizeTimestamp dateParse now (TsText s) =
     (if s = [] then Inr now
      else case dateParse s of Some t \<Rightarrow> Inr t | None \<Rightarrow> Inr now)"

record opts =
  o_metadata :: "json option"
  o_causationId :: "string option"
  o_correlationId :: "string option"
  o_eventId :: "string option"
  o_timestamp :: ts_arg

text \<open>The parameters of the run that \<open>createEvent\<close> reads: a fresh id, the clock, the date parser.\<close>

record fresh =
  uuidv7 :: string
  date_now :: time
  date_parse :: "string \<Rightarrow> int option"

definition createEvent :: "fresh \<Rightarrow> string \<Rightarrow> string \<Rightarrow> string \<Rightarrow> payload \<Rightarrow> opts \<Rightarrow> es_error + event" where
  "createEvent fr evType aggId aggType pl op =
     (if evType = [] then Inl (EsTypeError ''eventType is required'')
      else if aggId = [] then Inl (EsTypeError ''aggregateId is required'')
      else case normalizeTimestamp (date_parse fr) (date_now fr) (o_timestamp op) of
        Inl err \<Rightarrow> Inl err
      | Inr t \<Rightarrow> Inr
          \<lparr>eventId = (case o_eventId op of Some i \<Rightarrow> i | None \<Rightarrow> uuidv7 fr),
           eventType = evType, aggregateId = aggId, aggregateType = aggType,
           sequenceNo = None, body = pl,
           metadata = (case o_metadata op of Some m \<Rightarrow> m | None \<Rightarrow> JObj []),
           timestamp = t,
           causationId = o_causationId op, correlationId = o_correlationId op\<rparr>)"

definition LocationUpdatedEvent :: "fresh \<Rightarrow> string \<Rightarrow> payload \<Rightarrow> opts \<Rightarrow> es_error + event" where
  "LocationUpdatedEvent fr aggId pl op =
     createEvent fr EventTypes_LocationUpdated aggId AggregateTypes_Vehicle pl op"

definition RoomJoinedEvent :: "fresh \<Rightarrow> string \<Rightarrow> string \<Rightarrow> opts \<Rightarrow> es_error + event" where
  "RoomJoinedEvent fr client room op =
     createEvent fr EventTypes_RoomJoined client AggregateTypes_Vehicle
       (no_payload\<lparr>p_roomId := Some room\<rparr>) op"

definition RoomLeftEvent :: "fresh \<Rightarrow> string \<Rightarrow> string \<Rightarrow> opts \<Rightarrow> es_error + event" where
  "RoomLeftEvent fr client room op =
     createEvent fr EventTypes_RoomLeft client AggregateTypes_Vehicle
       (no_payload\<lparr>p_roomId := Some room\<rparr>) op"

definition GeofenceUpdatedEvent ::
    "fresh \<Rightarrow> string \<Rightarrow> string \<Rightarrow> fence list option \<Rightarrow> opts \<Rightarrow> es_error + event" where
  "GeofenceUpdatedEvent fr client room fences op =
     createEvent fr EventTypes_GeofenceUpdated client AggregateTypes_Vehicle
       (no_payload\<lparr>p_roomId := Some room, p_fences := fences\<rparr>) op"

definition GeofenceEnteredEvent ::
    "fresh \<Rightarrow> string \<Rightarrow> fence \<Rightarrow> real \<times> real \<Rightarrow> opts \<Rightarrow> es_error + event" where
  "GeofenceEnteredEvent fr client fence location op =
     createEvent fr EventTypes_GeofenceEntered client AggregateTypes_Vehicle
       (no_payload\<lparr>p_fenceId := Some (fenceId fence), p_roomId := fenceRoom fence,
          p_location := Some location\<rparr>) op"

definition GeofenceExitedEvent ::
    "fresh \<Rightarrow> string \<Rightarrow> fence \<Rightarrow> real \<times> real \<Rightarrow> opts \<Rightarrow> es_error + event" where
  "GeofenceExitedEvent fr client fence location op =
     createEvent fr EventTypes_GeofenceExited client AggregateTypes_Vehicle
       (no_payload\<lparr>p_fenceId := Some (fenceId fence), p_roomId := fenceRoom fence,
          p_location := Some location\<rparr>) op"

definition SessionResumedEvent ::
    "fresh \<Rightarrow> string \<Rightarrow> resumed list \<Rightarrow> opts \<Rightarrow> es_error + event" where
  "SessionResumedEvent fr client rooms op =
     createEvent fr EventTypes_SessionResumed client AggregateTypes_Vehicle
       (no_payload\<lparr>p_rooms := Some rooms\<rparr>) op"

definition MessageAcknowledgedEvent ::
    "fresh \<Rightarrow> string \<Rightarrow> string \<Rightarrow> int option \<Rightarrow> opts \<Rightarrow> es_error + event" where
  "MessageAcknowledgedEvent fr client room seq op =
     createEvent fr EventTypes_MessageAcknowledged client AggregateTypes_Vehicle
       (no_payload\<lparr>p_roomId := Some room, p_seq := seq\<rparr>) op"

definition MessageNackedEvent ::
    "fresh \<Rightarrow> string \<Rightarrow> string \<Rightarrow> int option \<Rightarrow> string option \<Rightarrow> opts \<Rightarrow> es_error + event" where
  "MessageNackedEvent fr client room seq reason op =
     createEvent fr EventTypes_MessageNacked client AggregateTypes_Vehicle
       (no_payload\<lparr>p_roomId := Some room, p_seq := seq, p_reason := reason\<rparr>) op"

lemmas typed_events =
  LocationUpdatedEvent_def RoomJoinedEvent_def RoomLeftEvent_def GeofenceUpdatedEvent_def
  GeofenceEnteredEvent_def GeofenceExitedEvent_def SessionResumedEvent_def
  MessageAcknowledgedEvent_def MessageNackedEvent_def

section \<open>The in-memory store\<close>

text \<open>
  Snapshot states are opaque to the store; \<open>'saved\<close> is the type of what \<open>serializeState\<close> returns.
\<close>

record 'saved snapshot =
  snapAggregateId :: string
  snapAggregateType :: string
  snapSequence :: int
  snapState :: 'saved
  snapTimestamp :: time

record 'saved store =
  byAggregate :: "(string, event list) jsmap"
  allEvents :: "event list"
  storeIds :: "string jsset"
  snapshots :: "(string, 'saved snapshot) jsmap"
  appends_total :: int

definition store_init :: "'saved store" where
  "store_init = \<lparr>byAggregate = [], allEvents = [], storeIds = [], snapshots = [], appends_total = 0\<rparr>"

definition assertAppendable :: "event list \<Rightarrow> es_error option" where
  "assertAppendable events =
     (if events = [] then Some (EsTypeError ''append(events) requires a non-empty array'')
      else case find (\<lambda>e. sequenceNo e = None) events of
        Some e \<Rightarrow> Some (EsTypeError (''Event '' @ eventId e @ '' has no finite sequence number''))
      | None \<Rightarrow>
          if length (remdups (map aggregateId events)) \<noteq> 1
          then Some (EsTypeError ''append(events) requires events for one aggregate'')
          else None)"

definition stream_of :: "'saved store \<Rightarrow> string \<Rightarrow> event list" where
  "stream_of s aggId = (case js_get (byAggregate s) aggId of None \<Rightarrow> [] | Some es \<Rightarrow> es)"

definition seq_of :: "event \<Rightarrow> int" where
  "seq_of e = (case sequenceNo e of Some n \<Rightarrow> n | None \<Rightarrow> 0)"

definition currentSeq :: "'saved store \<Rightarrow> string \<Rightarrow> int" where
  "currentSeq s aggId = (let es = stream_of s aggId in if es = [] then 0 else seq_of (last es))"

definition push_event :: "event \<Rightarrow> 'saved store \<Rightarrow> 'saved store" where
  "push_event e s =
     s\<lparr>storeIds := js_add (eventId e) (storeIds s),
       byAggregate := js_set (aggregateId e) (stream_of s (aggregateId e) @ [e]) (byAggregate s),
       allEvents := allEvents s @ [e]\<rparr>"

definition append_events ::
    "event list \<Rightarrow> int option \<Rightarrow> 'saved store \<Rightarrow> es_error + (event list \<times> 'saved store)" where
  "append_events events expectedSequence s =
     (case assertAppendable events of
        Some err \<Rightarrow> Inl err
      | None \<Rightarrow>
          case find (\<lambda>e. eventId e \<in> set (storeIds s)) events of
            Some e \<Rightarrow> Inl (EsError (''Duplicate eventId '' @ eventId e))
          | None \<Rightarrow>
              let aggId = aggregateId (hd events); current = currentSeq s aggId
              in if expectedSequence \<noteq> None \<and> expectedSequence \<noteq> Some current
                 then Inl (EsError (''Concurrency conflict on aggregate '' @ aggId
                        @ '': expected sequence '' @ int_str (the expectedSequence)
                        @ '', actual '' @ int_str current))
                 else let s' = fold push_event events s
                      in Inr (events, s'\<lparr>appends_total := appends_total s' + 1\<rparr>))"

definition getEvents :: "string \<Rightarrow> int option \<Rightarrow> int option \<Rightarrow> 'saved store \<Rightarrow> event list" where
  "getEvents aggId fromSequence toSequence s =
     (let from = (case fromSequence of Some n \<Rightarrow> n | None \<Rightarrow> 1)
      in filter (\<lambda>e. from \<le> seq_of e \<and> (case toSequence of Some n \<Rightarrow> seq_of e \<le> n | None \<Rightarrow> True))
           (stream_of s aggId))"

text \<open>\<open>compareByTime\<close> orders by timestamp and then by event id.\<close>

definition time_key :: "event \<Rightarrow> time \<times> string" where
  "time_key e = (timestamp e, eventId e)"

definition getEventsByCorrelation :: "string \<Rightarrow> 'saved store \<Rightarrow> event list" where
  "getEventsByCorrelation corr s =
     (if corr = [] then []
      else sort_key time_key (filter (\<lambda>e. correlationId e = Some corr) (allEvents s)))"

definition getEventsAfter :: "string option \<Rightarrow> nat \<Rightarrow> 'saved store \<Rightarrow> event list" where
  "getEventsAfter afterEventId limit s =
     (let sorted = sort_key time_key (allEvents s)
      in case afterEventId of
           None \<Rightarrow> take limit sorted
         | Some i \<Rightarrow>
             if i = [] then take limit sorted
             else if i \<in> eventId ` set sorted
             then take limit (tl (dropWhile (\<lambda>e. eventId e \<noteq> i) sorted))
             else take limit sorted)"

definition getSnapshot :: "string \<Rightarrow> 'saved store \<Rightarrow> 'saved snapshot option" where
  "getSnapshot aggId s = js_get (snapshots s) aggId"

definition saveSnapshot :: "'saved snapshot \<Rightarrow> 'saved store \<Rightarrow> 'saved store" where
  "saveSnapshot snap s = s\<lparr>snapshots := js_set (snapAggregateId snap) snap (snapshots s)\<rparr>"

definition close_store :: "'saved store \<Rightarrow> 'saved store" where
  "close_store s = s\<lparr>byAggregate := [], allEvents := [], storeIds := [], snapshots := []\<rparr>"

definition replayEvents :: "string \<Rightarrow> int \<Rightarrow> int option \<Rightarrow> 'saved store \<Rightarrow> event list" where
  "replayEvents aggId fromSequence toSequence s =
     getEvents aggId (Some fromSequence)
       (Some (case toSequence of None \<Rightarrow> 9007199254740991 | Some n \<Rightarrow> n)) s"

section \<open>Facts\<close>

declare map_of_eq_Some_iff [simp del] Some_eq_map_of_iff [simp del]

definition one_aggregate :: "event list \<Rightarrow> bool" where
  "one_aggregate es \<longleftrightarrow> (\<forall>e\<in>set es. aggregateId e = aggregateId (hd es))"

lemma assertAppendable_None:
  "assertAppendable es = None \<longleftrightarrow>
     es \<noteq> [] \<and> (\<forall>e\<in>set es. sequenceNo e \<noteq> None) \<and> one_aggregate es"
proof (cases es)
  case (Cons e r)
  have "length (remdups (map aggregateId es)) = card (aggregateId ` set es)"
    by (simp add: length_remdups_card_conv)
  also have "\<dots> = 1 \<longleftrightarrow> one_aggregate es"
    using Cons by (auto simp: one_aggregate_def card_1_singleton_iff)
  finally have len: "length (remdups (map aggregateId es)) = 1 \<longleftrightarrow> one_aggregate es" .
  have "find (\<lambda>e. sequenceNo e = None) es = None \<longleftrightarrow> (\<forall>e\<in>set es. sequenceNo e \<noteq> None)"
    by (auto simp: find_None_iff)
  then show ?thesis
    unfolding assertAppendable_def len using Cons
    by (cases "find (\<lambda>e. sequenceNo e = None) es") auto
qed (simp add: assertAppendable_def)

lemma push_event_fields [simp]:
  "stream_of (push_event e s) i = (if i = aggregateId e then stream_of s i @ [e] else stream_of s i)"
  "allEvents (push_event e s) = allEvents s @ [e]"
  "set (storeIds (push_event e s)) = insert (eventId e) (set (storeIds s))"
  "snapshots (push_event e s) = snapshots s"
  "appends_total (push_event e s) = appends_total s"
  by (auto simp: push_event_def stream_of_def)

lemma fold_push_fields [simp]:
  "stream_of (fold push_event es s) i = stream_of s i @ filter (\<lambda>e. aggregateId e = i) es"
  "allEvents (fold push_event es s) = allEvents s @ es"
  "set (storeIds (fold push_event es s)) = set (storeIds s) \<union> eventId ` set es"
  "snapshots (fold push_event es s) = snapshots s"
  "appends_total (fold push_event es s) = appends_total s"
  by (induction es arbitrary: s) auto

lemma stream_of_metric [simp]: "stream_of (s\<lparr>appends_total := n\<rparr>) = stream_of s"
  by (simp add: fun_eq_iff stream_of_def)

lemma append_events_Inr:
  "append_events es x s = Inr (r, s') \<longleftrightarrow>
     assertAppendable es = None \<and> (\<forall>e\<in>set es. eventId e \<notin> set (storeIds s))
     \<and> (x = None \<or> x = Some (currentSeq s (aggregateId (hd es)))) \<and> r = es
     \<and> s' = (fold push_event es s)\<lparr>appends_total := appends_total s + 1\<rparr>"
proof (cases "assertAppendable es")
  case None
  show ?thesis
  proof (cases "find (\<lambda>e. eventId e \<in> set (storeIds s)) es")
    case fresh: None
    then have "\<forall>e\<in>set es. eventId e \<notin> set (storeIds s)" by (auto simp: find_None_iff)
    with None fresh show ?thesis by (auto simp: append_events_def Let_def)
  next
    case (Some e)
    then have "\<exists>e\<in>set es. eventId e \<in> set (storeIds s)" by (auto simp: find_Some_iff)
    with None Some show ?thesis by (auto simp: append_events_def)
  qed
qed (simp add: append_events_def)

text \<open>The consequences of a successful append, as the rest of the development uses them.\<close>

lemma append_eventsD:
  assumes "append_events es x s = Inr (r, s')"
  shows "r = es" "es \<noteq> []" "\<forall>e\<in>set es. sequenceNo e \<noteq> None"
    "one_aggregate es"
    "stream_of s' = (stream_of s)(aggregateId (hd es) := stream_of s (aggregateId (hd es)) @ es)"
    "allEvents s' = allEvents s @ es"
    "set (storeIds s') = set (storeIds s) \<union> eventId ` set es"
    "snapshots s' = snapshots s" "appends_total s' = appends_total s + 1"
proof -
  note * = assms [unfolded append_events_Inr assertAppendable_None]
  show "r = es" "es \<noteq> []" "\<forall>e\<in>set es. sequenceNo e \<noteq> None"
    and one: "one_aggregate es" using * by auto
  have "filter (\<lambda>e. aggregateId e = i) es = (if i = aggregateId (hd es) then es else [])" for i
    using one unfolding one_aggregate_def by (cases "i = aggregateId (hd es)") (simp_all cong: filter_cong)
  then show "stream_of s' = (stream_of s)(aggregateId (hd es) := stream_of s (aggregateId (hd es)) @ es)"
    using * by (simp add: fun_eq_iff)
  show "allEvents s' = allEvents s @ es" "set (storeIds s') = set (storeIds s) \<union> eventId ` set es"
    "snapshots s' = snapshots s" "appends_total s' = appends_total s + 1"
    using * by simp_all
qed

section \<open>The contract of an event log\<close>

definition top_seq :: "event list \<Rightarrow> int" where
  "top_seq es = (if es = [] then 0 else seq_of (last es))"

definition numbered :: "int \<Rightarrow> event list \<Rightarrow> bool" where
  "numbered n es \<longleftrightarrow> map seq_of es = [n + 1..n + int (length es)]"

lemma currentSeq_top: "currentSeq s i = top_seq (stream_of s i)"
  by (simp add: currentSeq_def top_seq_def Let_def)

lemma numbered_Nil [simp]: "numbered n []"
  by (simp add: numbered_def)

lemma numbered_append:
  "numbered n (es @ fs) \<longleftrightarrow> numbered n es \<and> numbered (n + int (length es)) fs"
proof -
  have "[n + 1..n + int k + int l] = [n + 1..n + int k] @ [n + int k + 1..n + int k + int l]" for k l
    by (induction l) (simp_all add: upto_rec2 add.assoc [symmetric])
  from this [of "length es" "length fs"] show ?thesis
    by (simp add: numbered_def add.assoc [symmetric])
qed

lemma numbered_top: "numbered n es \<Longrightarrow> es \<noteq> [] \<Longrightarrow> top_seq es = n + int (length es)"
proof (cases es rule: rev_cases)
  case (snoc r e)
  moreover assume "numbered n es"
  ultimately have "numbered (n + int (length r)) [e]" by (simp add: numbered_append)
  then show ?thesis using snoc by (simp add: numbered_def top_seq_def)
qed simp

lemma numbered_top0: "numbered 0 es \<Longrightarrow> top_seq es = int (length es)"
  by (cases "es = []") (auto simp: numbered_top top_seq_def [of "[]"])

locale event_log =
  fixes app :: "event list \<Rightarrow> int option \<Rightarrow> 's \<Rightarrow> es_error + (event list \<times> 's)"
    and stream :: "'s \<Rightarrow> string \<Rightarrow> event list"
  assumes appended: "app es x s = Inr (r, s') \<Longrightarrow>
      r = es \<and> es \<noteq> [] \<and> one_aggregate es
      \<and> stream s' = (stream s)(aggregateId (hd es) := stream s (aggregateId (hd es)) @ es)"
    and expected: "app es (Some n) s = Inr (r, s') \<Longrightarrow> n = top_seq (stream s (aggregateId (hd es)))"
begin

text \<open>A writer presents a batch and the version it has read; a rejected batch changes nothing.\<close>

fun run_appends :: "(event list \<times> int) list \<Rightarrow> 's \<Rightarrow> 's" where
  "run_appends [] s = s"
| "run_appends ((es, n) # ws) s =
     (case app es (Some n) s of Inl err \<Rightarrow> run_appends ws s | Inr (r, s') \<Rightarrow> run_appends ws s')"

lemma streams_grow: "\<exists>fs. stream (run_appends ws s) i = stream s i @ fs"
proof (induction ws s rule: run_appends.induct)
  case (2 es n ws s)
  show ?case
  proof (cases "app es (Some n) s")
    case (Inl err)
    then show ?thesis using 2 by simp
  next
    case (Inr p)
    then obtain r s' where *: "app es (Some n) s = Inr (r, s')" by (cases p) auto
    from 2(2) [OF *] obtain fs where "stream (run_appends ws s') i = stream s' i @ fs" by auto
    then show ?thesis using * appended [OF *] by (auto simp: fun_upd_def split: if_splits)
  qed
qed simp

text \<open>Of two writers that have read the same version of an aggregate, at most one is accepted.\<close>

lemma second_writer_rejected:
  assumes first: "app es (Some n) s = Inr (r, s')" and num: "numbered n es"
    and same: "aggregateId (hd fs) = aggregateId (hd es)"
  shows "\<exists>err. app fs (Some n) s' = Inl err"
proof (cases "app fs (Some n) s'")
  case (Inr p)
  then obtain r' s'' where "app fs (Some n) s' = Inr (r', s'')" by (cases p) auto
  then have "n = top_seq (stream s' (aggregateId (hd fs)))" by (rule expected)
  also have "\<dots> = n + int (length es)"
    using appended [OF first] num numbered_top [OF num] by (simp add: same top_seq_def)
  finally show ?thesis using appended [OF first] by simp
qed auto

lemma numbered_run:
  assumes "numbered 0 (stream s i)" and "\<And>es n. (es, n) \<in> set ws \<Longrightarrow> numbered n es"
  shows "numbered 0 (stream (run_appends ws s) i)"
  using assms
proof (induction ws s rule: run_appends.induct)
  case (2 es n ws s)
  show ?case
  proof (cases "app es (Some n) s")
    case (Inl err)
    then show ?thesis using 2 by simp
  next
    case (Inr p)
    then obtain r s' where *: "app es (Some n) s = Inr (r, s')" by (cases p) auto
    have "numbered 0 (stream s' i)"
    proof (cases "i = aggregateId (hd es)")
      case True
      then have "n = int (length (stream s i))"
        using expected [OF *] 2(3) by (simp add: numbered_top0)
      then show ?thesis using True appended [OF *] 2(3,4) by (simp add: numbered_append)
    qed (use appended [OF *] 2(3) in simp)
    then show ?thesis using 2(2) [OF *] 2(4) * by simp
  qed
qed simp

end

interpretation mem: event_log append_events stream_of
proof
  fix es x and s :: "'a store" and r s'
  assume "append_events es x s = Inr (r, s')"
  from append_eventsD [OF this]
  show "r = es \<and> es \<noteq> [] \<and> one_aggregate es
      \<and> stream_of s' = (stream_of s)(aggregateId (hd es) := stream_of s (aggregateId (hd es)) @ es)"
    by blast
next
  fix es n and s :: "'a store" and r s'
  assume "append_events es (Some n) s = Inr (r, s')"
  then show "n = top_seq (stream_of s (aggregateId (hd es)))"
    by (simp add: append_events_Inr currentSeq_top)
qed

end
