(* ===== verification/Aggregates.thy ===== *)
theory Aggregates
  imports EventStore
begin

text \<open>
  The aggregates and their repository (\<open>src/event-sourcing.js\<close>): \<open>AggregateBase\<close> with its three
  subclasses and \<open>AggregateRepository\<close> over the in-memory store.

  \<^item> A class is the record of the methods \<open>AggregateBase\<close> dispatches to (\<open>mutate\<close>,
    \<open>serializeState\<close>, \<open>deserializeState\<close>); an instance is an \<open>agg\<close> whose \<open>ag_state\<close> holds the
    fields of the subclass.
  \<^item> The three repositories of the gateway share one store, so the states they save are a sum.
    Deserialising the state of another class finds none of its own fields and takes every default.
  \<^item> A key read from a payload may be \<open>undefined\<close>: the sets and maps of the aggregates are keyed by
    \<open>string option\<close>.
  \<^item> A snapshot is written by a timer callback: \<open>scheduleSnapshot\<close> queues it, \<open>snapshot_write\<close> is the
    callback and \<open>snapshot_settle\<close> the continuation that clears the in-flight mark.

  The locale \<open>aggregate_class\<close> states what a subclass owes the repository; inside it the loading and
  saving of aggregates is proved correct for every subclass at once.
\<close>

section \<open>AggregateBase\<close>

record 's agg =
  ag_id :: string
  ag_type :: string
  ag_seq :: int
  ag_next :: int
  uncommitted :: "event list"
  history :: "event list"
  ag_state :: 's

record ('s, 'saved) agg_class =
  cls_type :: string
  cls_init :: 's
  cls_mutate :: "event \<Rightarrow> 's \<Rightarrow> 's"
  cls_serialize :: "int \<Rightarrow> 's \<Rightarrow> 'saved"
  cls_deserialize :: "'saved \<Rightarrow> 's"

definition new_agg :: "('s, 'saved) agg_class \<Rightarrow> string \<Rightarrow> 's agg" where
  "new_agg cls i = \<lparr>ag_id = i, ag_type = cls_type cls, ag_seq = 0, ag_next = 0,
     uncommitted = [], history = [], ag_state = cls_init cls\<rparr>"

definition apply_event :: "('s, 'saved) agg_class \<Rightarrow> event \<Rightarrow> 's agg \<Rightarrow> 's agg" where
  "apply_event cls e ag =
     (let ag1 = (case sequenceNo e of
                   Some n \<Rightarrow> ag\<lparr>ag_seq := max (ag_seq ag) n, ag_next := max (ag_next ag) n\<rparr>
                 | None \<Rightarrow> ag)
      in ag1\<lparr>history := history ag1 @ [e], ag_state := cls_mutate cls e (ag_state ag1)\<rparr>)"

definition loadFromHistory :: "('s, 'saved) agg_class \<Rightarrow> event list \<Rightarrow> 's agg \<Rightarrow> 's agg" where
  "loadFromHistory cls events ag = fold (apply_event cls) events ag"

definition record_event :: "('s, 'saved) agg_class \<Rightarrow> event \<Rightarrow> 's agg \<Rightarrow> 's agg" where
  "record_event cls e ag =
     (let ag1 = (if sequenceNo e = None then ag\<lparr>ag_next := ag_next ag + 1\<rparr> else ag);
          e1 = (if sequenceNo e = None then e\<lparr>sequenceNo := Some (ag_next ag1)\<rparr> else e);
          ag2 = ag1\<lparr>ag_seq := max (ag_seq ag1) (seq_of e1), uncommitted := uncommitted ag1 @ [e1]\<rparr>
      in apply_event cls e1 ag2)"

definition getUncommittedEvents :: "'s agg \<Rightarrow> event list" where
  "getUncommittedEvents ag = uncommitted ag"

definition markCommitted :: "'s agg \<Rightarrow> 's agg" where
  "markCommitted ag = ag\<lparr>uncommitted := []\<rparr>"

definition takeSnapshot :: "('s, 'saved) agg_class \<Rightarrow> time \<Rightarrow> 's agg \<Rightarrow> 'saved snapshot" where
  "takeSnapshot cls now ag =
     \<lparr>snapAggregateId = ag_id ag, snapAggregateType = ag_type ag, snapSequence = ag_seq ag,
      snapState = cls_serialize cls (ag_seq ag) (ag_state ag), snapTimestamp = now\<rparr>"

definition restoreFromSnapshot ::
    "('s, 'saved) agg_class \<Rightarrow> 'saved snapshot \<Rightarrow> 's agg \<Rightarrow> 's agg" where
  "restoreFromSnapshot cls snap ag =
     ag\<lparr>ag_seq := snapSequence snap, ag_next := snapSequence snap,
        ag_state := cls_deserialize cls (snapState snap)\<rparr>"

definition agg_at :: "('s, 'saved) agg_class \<Rightarrow> time \<Rightarrow> 's agg \<Rightarrow> 's agg" where
  "agg_at cls cutoff ag =
     loadFromHistory cls (filter (\<lambda>e. timestamp e \<le> cutoff) (history ag)) (new_agg cls (ag_id ag))"

section \<open>VehicleAggregate\<close>

record vehicle =
  v_location :: "(payload \<times> time) option"
  v_rooms :: "string option jsset"
  v_ackedSeq :: "(string option, int option) jsmap"
  v_insideGeofences :: "string option jsset"
  v_geofences :: "(string option, fence list) jsmap"
  v_roomSeqs :: "(string option, int) jsmap"
  v_locationUpdateCount :: int
  v_geofenceEntryCount :: int
  v_geofenceExitCount :: int

definition vehicle_init :: vehicle where
  "vehicle_init = \<lparr>v_location = None, v_rooms = [], v_ackedSeq = [], v_insideGeofences = [],
     v_geofences = [], v_roomSeqs = [], v_locationUpdateCount = 0, v_geofenceEntryCount = 0,
     v_geofenceExitCount = 0\<rparr>"

definition resume_room :: "resumed \<Rightarrow> vehicle \<Rightarrow> vehicle" where
  "resume_room room v =
     (if resumedRoom room = None then v
      else let v1 = v\<lparr>v_rooms := js_add (resumedRoom room) (v_rooms v)\<rparr>
           in case highestAckedSeq room of
                None \<Rightarrow> v1
              | Some n \<Rightarrow> v1\<lparr>v_ackedSeq := js_set (resumedRoom room) (Some n) (v_ackedSeq v1)\<rparr>)"

definition vehicle_mutate :: "event \<Rightarrow> vehicle \<Rightarrow> vehicle" where
  "vehicle_mutate e v =
     (let base = baseEventType (eventType e); p = body e in
      if base = ''location_update'' then
        v\<lparr>v_location := Some (p, timestamp e), v_locationUpdateCount := v_locationUpdateCount v + 1\<rparr>
      else if base = ''room_joined'' then
        let v1 = v\<lparr>v_rooms := js_add (p_roomId p) (v_rooms v)\<rparr>
        in if js_has (v_roomSeqs v1) (p_roomId p) then v1
           else v1\<lparr>v_roomSeqs := js_set (p_roomId p) 0 (v_roomSeqs v1)\<rparr>
      else if base = ''room_left'' then
        v\<lparr>v_rooms := removeAll (p_roomId p) (v_rooms v),
          v_ackedSeq := js_delete (p_roomId p) (v_ackedSeq v)\<rparr>
      else if base = ''geofence_updated'' then
        (case p_fences p of
           Some (f # fs) \<Rightarrow> v\<lparr>v_geofences := js_set (p_roomId p) (f # fs) (v_geofences v)\<rparr>
         | _ \<Rightarrow> v\<lparr>v_geofences := js_delete (p_roomId p) (v_geofences v)\<rparr>)
      else if base = ''geofence_entered'' then
        v\<lparr>v_insideGeofences := js_add (p_fenceId p) (v_insideGeofences v),
          v_geofenceEntryCount := v_geofenceEntryCount v + 1\<rparr>
      else if base = ''geofence_exited'' then
        v\<lparr>v_insideGeofences := removeAll (p_fenceId p) (v_insideGeofences v),
          v_geofenceExitCount := v_geofenceExitCount v + 1\<rparr>
      else if base = ''session_resumed'' then
        (case p_rooms p of Some rooms \<Rightarrow> fold resume_room rooms v | None \<Rightarrow> v)
      else if base = ''message_ack'' then
        v\<lparr>v_ackedSeq := js_set (p_roomId p) (p_seq p) (v_ackedSeq v)\<rparr>
      else v)"

record saved_vehicle =
  sv_location :: "(payload \<times> time) option"
  sv_rooms :: "string option list"
  sv_ackedSeq :: "(string option \<times> int option) list"
  sv_insideGeofences :: "string option list"
  sv_geofences :: "(string option \<times> fence list) list"
  sv_roomSeqs :: "(string option \<times> int) list"
  sv_locationUpdateCount :: int
  sv_geofenceEntryCount :: int
  sv_geofenceExitCount :: int
  sv_sequence :: int

section \<open>RoomAggregate\<close>

record room_agg =
  ra_members :: "string jsset"
  ra_messageCount :: int
  ra_messageRatePerSec :: real

definition room_init :: room_agg where
  "room_init = \<lparr>ra_members = [], ra_messageCount = 0, ra_messageRatePerSec = 0\<rparr>"

definition event_client :: "event \<Rightarrow> string" where
  "event_client e = (case p_clientId (body e) of Some c \<Rightarrow> c | None \<Rightarrow> aggregateId e)"

definition room_mutate :: "event \<Rightarrow> room_agg \<Rightarrow> room_agg" where
  "room_mutate e r =
     (let base = baseEventType (eventType e) in
      if base = ''room_joined'' then r\<lparr>ra_members := js_add (event_client e) (ra_members r)\<rparr>
      else if base = ''room_left'' then r\<lparr>ra_members := removeAll (event_client e) (ra_members r)\<rparr>
      else if base = ''location_update'' then r\<lparr>ra_messageCount := ra_messageCount r + 1\<rparr>
      else r)"

record saved_room =
  sr_members :: "string list"
  sr_messageCount :: int
  sr_messageRatePerSec :: real
  sr_sequence :: int

section \<open>FleetAggregate\<close>

record alert_counts =
  ac_entered :: int
  ac_exited :: int
  ac_nack :: int

record fleet_agg =
  fl_vehicles :: "(string, payload \<times> time) jsmap"
  fl_alertCounts :: alert_counts

definition no_alerts :: alert_counts where
  "no_alerts = \<lparr>ac_entered = 0, ac_exited = 0, ac_nack = 0\<rparr>"

definition fleet_init :: fleet_agg where
  "fleet_init = \<lparr>fl_vehicles = [], fl_alertCounts = no_alerts\<rparr>"

definition fleet_mutate :: "event \<Rightarrow> fleet_agg \<Rightarrow> fleet_agg" where
  "fleet_mutate e f =
     (let base = baseEventType (eventType e); c = fl_alertCounts f in
      if base = ''location_update'' then
        f\<lparr>fl_vehicles := js_set (event_client e) (body e, timestamp e) (fl_vehicles f)\<rparr>
      else if base = ''geofence_entered'' then
        f\<lparr>fl_alertCounts := c\<lparr>ac_entered := ac_entered c + 1\<rparr>\<rparr>
      else if base = ''geofence_exited'' then
        f\<lparr>fl_alertCounts := c\<lparr>ac_exited := ac_exited c + 1\<rparr>\<rparr>
      else if base = ''message_nack'' then
        f\<lparr>fl_alertCounts := c\<lparr>ac_nack := ac_nack c + 1\<rparr>\<rparr>
      else f)"

record saved_fleet =
  sf_vehicles :: "(string \<times> (payload \<times> time)) list"
  sf_alertCounts :: alert_counts
  sf_sequence :: int

section \<open>Saved states\<close>

datatype saved = SavedVehicle saved_vehicle | SavedRoom saved_room | SavedFleet saved_fleet

text \<open>\<open>new Set(xs)\<close> and \<open>new Map(entries)\<close>.\<close>

definition set_from :: "'a list \<Rightarrow> 'a jsset" where
  "set_from xs = fold js_add xs []"

definition map_from :: "('k \<times> 'v) list \<Rightarrow> ('k, 'v) jsmap" where
  "map_from kvs = fold (\<lambda>(k, v). js_set k v) kvs []"

definition vehicle_serialize :: "int \<Rightarrow> vehicle \<Rightarrow> saved" where
  "vehicle_serialize n v = SavedVehicle
     \<lparr>sv_location = v_location v, sv_rooms = v_rooms v, sv_ackedSeq = v_ackedSeq v,
      sv_insideGeofences = v_insideGeofences v, sv_geofences = v_geofences v,
      sv_roomSeqs = v_roomSeqs v, sv_locationUpdateCount = v_locationUpdateCount v,
      sv_geofenceEntryCount = v_geofenceEntryCount v, sv_geofenceExitCount = v_geofenceExitCount v,
      sv_sequence = n\<rparr>"

fun vehicle_deserialize :: "saved \<Rightarrow> vehicle" where
  "vehicle_deserialize (SavedVehicle s) =
     \<lparr>v_location = sv_location s, v_rooms = set_from (sv_rooms s),
      v_ackedSeq = map_from (sv_ackedSeq s), v_insideGeofences = set_from (sv_insideGeofences s),
      v_geofences = map_from (sv_geofences s), v_roomSeqs = map_from (sv_roomSeqs s),
      v_locationUpdateCount = sv_locationUpdateCount s,
      v_geofenceEntryCount = sv_geofenceEntryCount s, v_geofenceExitCount = sv_geofenceExitCount s\<rparr>"
| "vehicle_deserialize _ = vehicle_init"

definition room_serialize :: "int \<Rightarrow> room_agg \<Rightarrow> saved" where
  "room_serialize n r = SavedRoom
     \<lparr>sr_members = ra_members r, sr_messageCount = ra_messageCount r,
      sr_messageRatePerSec = ra_messageRatePerSec r, sr_sequence = n\<rparr>"

fun room_deserialize :: "saved \<Rightarrow> room_agg" where
  "room_deserialize (SavedRoom s) =
     \<lparr>ra_members = set_from (sr_members s), ra_messageCount = sr_messageCount s,
      ra_messageRatePerSec = sr_messageRatePerSec s\<rparr>"
| "room_deserialize _ = room_init"

definition fleet_serialize :: "int \<Rightarrow> fleet_agg \<Rightarrow> saved" where
  "fleet_serialize n f = SavedFleet
     \<lparr>sf_vehicles = fl_vehicles f, sf_alertCounts = fl_alertCounts f, sf_sequence = n\<rparr>"

fun fleet_deserialize :: "saved \<Rightarrow> fleet_agg" where
  "fleet_deserialize (SavedFleet s) =
     \<lparr>fl_vehicles = map_from (sf_vehicles s), fl_alertCounts = sf_alertCounts s\<rparr>"
| "fleet_deserialize _ = fleet_init"

definition VehicleAggregate :: "(vehicle, saved) agg_class" where
  "VehicleAggregate = \<lparr>cls_type = AggregateTypes_Vehicle, cls_init = vehicle_init,
     cls_mutate = vehicle_mutate, cls_serialize = vehicle_serialize,
     cls_deserialize = vehicle_deserialize\<rparr>"

definition RoomAggregate :: "(room_agg, saved) agg_class" where
  "RoomAggregate = \<lparr>cls_type = AggregateTypes_Room, cls_init = room_init,
     cls_mutate = room_mutate, cls_serialize = room_serialize, cls_deserialize = room_deserialize\<rparr>"

definition FleetAggregate :: "(fleet_agg, saved) agg_class" where
  "FleetAggregate = \<lparr>cls_type = AggregateTypes_Fleet, cls_init = fleet_init,
     cls_mutate = fleet_mutate, cls_serialize = fleet_serialize, cls_deserialize = fleet_deserialize\<rparr>"

section \<open>AggregateRepository\<close>

record repo_config =
  cfg_snapshotEvery :: int
  snapshotsEnabled :: bool

record 'saved repo =
  snapshot_count :: int
  pendingSnapshots :: "string jsset"
  snapshotTimers :: "'saved snapshot list"
  settling :: "string list"

definition repo_init :: "'saved repo" where
  "repo_init = \<lparr>snapshot_count = 0, pendingSnapshots = [], snapshotTimers = [], settling = []\<rparr>"

definition snapshotEvery :: "repo_config \<Rightarrow> int" where
  "snapshotEvery cfg = max 1 (cfg_snapshotEvery cfg)"

definition repo_get :: "('s, 'saved) agg_class \<Rightarrow> repo_config \<Rightarrow> string \<Rightarrow> 'saved store \<Rightarrow> 's agg" where
  "repo_get cls cfg i s =
     (let ag = new_agg cls i;
          snap = (if snapshotsEnabled cfg then getSnapshot i s else None)
      in case snap of
           Some sn \<Rightarrow>
             loadFromHistory cls (getEvents i (Some (snapSequence sn + 1)) None s)
               (restoreFromSnapshot cls sn ag)
         | None \<Rightarrow> loadFromHistory cls (getEvents i None None s) ag)"

definition scheduleSnapshot ::
    "('s, 'saved) agg_class \<Rightarrow> time \<Rightarrow> 's agg \<Rightarrow> 'saved repo \<Rightarrow> 'saved repo" where
  "scheduleSnapshot cls now ag rp =
     rp\<lparr>pendingSnapshots := js_add (ag_id ag) (pendingSnapshots rp),
        snapshotTimers := snapshotTimers rp @ [takeSnapshot cls now ag]\<rparr>"

definition repo_save ::
    "('s, 'saved) agg_class \<Rightarrow> repo_config \<Rightarrow> time \<Rightarrow> 's agg \<Rightarrow> 'saved repo \<Rightarrow> 'saved store \<Rightarrow>
       es_error + (event list \<times> 's agg \<times> 'saved repo \<times> 'saved store)" where
  "repo_save cls cfg now ag rp s =
     (let events = getUncommittedEvents ag in
      if events = [] then Inr ([], ag, rp, s)
      else case append_events events (Some (ag_seq ag - int (length events))) s of
        Inl err \<Rightarrow> Inl err
      | Inr (_, s') \<Rightarrow>
          let ag' = markCommitted ag;
              due = snapshotsEnabled cfg \<and> ag_seq ag' > 0
                \<and> ag_seq ag' mod snapshotEvery cfg = 0 \<and> ag_id ag' \<notin> set (pendingSnapshots rp)
          in Inr (events, ag', if due then scheduleSnapshot cls now ag' rp else rp, s'))"

text \<open>The timer callback of the \<open>k\<close>-th scheduled snapshot, and its continuation.\<close>

definition snapshot_write :: "nat \<Rightarrow> 'saved repo \<Rightarrow> 'saved store \<Rightarrow> 'saved repo \<times> 'saved store" where
  "snapshot_write k rp s =
     (if k < length (snapshotTimers rp)
      then let sn = snapshotTimers rp ! k
           in (rp\<lparr>snapshotTimers := take k (snapshotTimers rp) @ drop (Suc k) (snapshotTimers rp),
                  settling := settling rp @ [snapAggregateId sn]\<rparr>,
               saveSnapshot sn s)
      else (rp, s))"

definition snapshot_settle :: "'saved repo \<Rightarrow> 'saved repo" where
  "snapshot_settle rp =
     (case settling rp of
        [] \<Rightarrow> rp
      | i # is \<Rightarrow> rp\<lparr>settling := is, snapshot_count := snapshot_count rp + 1,
                     pendingSnapshots := removeAll i (pendingSnapshots rp)\<rparr>)"

section \<open>Loading events\<close>

declare map_of_eq_Some_iff [simp del] Some_eq_map_of_iff [simp del]

definition replay :: "('s, 'saved) agg_class \<Rightarrow> event list \<Rightarrow> 's" where
  "replay cls es = fold (cls_mutate cls) es (cls_init cls)"

lemma replay_append: "replay cls (es @ fs) = fold (cls_mutate cls) fs (replay cls es)"
  by (simp add: replay_def)

lemma numbered_mem:
  assumes "numbered n es" "e \<in> set es"
  shows "n < seq_of e" "seq_of e \<le> n + int (length es)"
proof -
  have "seq_of e \<in> set (map seq_of es)" using assms by simp
  also have "\<dots> = {n + 1..n + int (length es)}" using assms by (simp add: numbered_def del: set_map)
  finally show "n < seq_of e" "seq_of e \<le> n + int (length es)" by auto
qed

lemma numbered_filter:
  assumes "numbered 0 es" "n \<le> length es"
  shows "filter (\<lambda>e. int n + 1 \<le> seq_of e) es = drop n es"
proof -
  have split: "numbered 0 (take n es)" "numbered (int n) (drop n es)"
    using numbered_append [of 0 "take n es" "drop n es"] assms by auto
  have "filter (\<lambda>e. int n + 1 \<le> seq_of e) (take n es) = []"
    using numbered_mem(2) [OF split(1)] assms by (fastforce simp: filter_empty_conv)
  moreover have "filter (\<lambda>e. int n + 1 \<le> seq_of e) (drop n es) = drop n es"
    using numbered_mem(1) [OF split(2)] by (fastforce simp: filter_id_conv)
  ultimately have "filter (\<lambda>e. int n + 1 \<le> seq_of e) (take n es @ drop n es) = drop n es"
    by (simp only: filter_append append_Nil)
  then show ?thesis by (simp only: append_take_drop_id)
qed

lemma getEvents_from:
  "numbered 0 (stream_of s i) \<Longrightarrow> n \<le> length (stream_of s i) \<Longrightarrow>
     getEvents i (Some (int n + 1)) None s = drop n (stream_of s i)"
  by (simp add: getEvents_def numbered_filter)

lemma getEvents_whole: "numbered 0 (stream_of s i) \<Longrightarrow> getEvents i None None s = stream_of s i"
  using numbered_filter [of "stream_of s i" 0] by (simp add: getEvents_def)

lemma apply_event_fields [simp]:
  "ag_id (apply_event cls e ag) = ag_id ag"
  "ag_type (apply_event cls e ag) = ag_type ag"
  "uncommitted (apply_event cls e ag) = uncommitted ag"
  "history (apply_event cls e ag) = history ag @ [e]"
  "ag_state (apply_event cls e ag) = cls_mutate cls e (ag_state ag)"
  by (cases "sequenceNo e"; simp add: apply_event_def Let_def)+

lemma load_fields [simp]:
  "ag_id (loadFromHistory cls es ag) = ag_id ag"
  "ag_type (loadFromHistory cls es ag) = ag_type ag"
  "uncommitted (loadFromHistory cls es ag) = uncommitted ag"
  "history (loadFromHistory cls es ag) = history ag @ es"
  "ag_state (loadFromHistory cls es ag) = fold (cls_mutate cls) es (ag_state ag)"
  by (induction es arbitrary: ag; simp add: loadFromHistory_def)+

lemma apply_event_numbered:
  assumes "sequenceNo e = Some (ag_seq ag + 1)" "ag_next ag = ag_seq ag"
  shows "ag_seq (apply_event cls e ag) = ag_seq ag + 1" "ag_next (apply_event cls e ag) = ag_seq ag + 1"
  using assms by (simp_all add: apply_event_def)

lemma seq_of_pos: "0 < seq_of e \<Longrightarrow> sequenceNo e = Some (seq_of e)"
  by (simp add: seq_of_def split: option.splits)

lemma load_numbered:
  assumes "numbered (ag_seq ag) es" "ag_next ag = ag_seq ag" "0 \<le> ag_seq ag"
  shows "ag_seq (loadFromHistory cls es ag) = ag_seq ag + int (length es)
    \<and> ag_next (loadFromHistory cls es ag) = ag_seq ag + int (length es)"
  using assms
proof (induction es arbitrary: ag)
  case (Cons e es)
  from Cons.prems have *: "numbered (ag_seq ag) [e]" "numbered (ag_seq ag + 1) es"
    using numbered_append [of "ag_seq ag" "[e]" es] by auto
  then have "sequenceNo e = Some (ag_seq ag + 1)"
    using Cons.prems(3) seq_of_pos [of e] by (simp add: numbered_def)
  note f = apply_event_numbered [OF this Cons.prems(2), of cls]
  from Cons.IH [of "apply_event cls e ag", unfolded f] * Cons.prems(3)
  show ?case by (simp add: loadFromHistory_def)
qed (simp add: loadFromHistory_def)

lemma new_agg_fields [simp]:
  "ag_id (new_agg cls i) = i" "ag_type (new_agg cls i) = cls_type cls"
  "ag_seq (new_agg cls i) = 0" "ag_next (new_agg cls i) = 0"
  "uncommitted (new_agg cls i) = []" "history (new_agg cls i) = []"
  "ag_state (new_agg cls i) = cls_init cls"
  by (simp_all add: new_agg_def)

lemma restore_fields [simp]:
  "ag_id (restoreFromSnapshot cls sn ag) = ag_id ag"
  "ag_type (restoreFromSnapshot cls sn ag) = ag_type ag"
  "ag_seq (restoreFromSnapshot cls sn ag) = snapSequence sn"
  "ag_next (restoreFromSnapshot cls sn ag) = snapSequence sn"
  "uncommitted (restoreFromSnapshot cls sn ag) = uncommitted ag"
  "ag_state (restoreFromSnapshot cls sn ag) = cls_deserialize cls (snapState sn)"
  by (simp_all add: restoreFromSnapshot_def)

lemma record_event_fields:
  assumes "sequenceNo e = None" "ag_next ag = ag_seq ag"
  shows "ag_id (record_event cls e ag) = ag_id ag"
    "ag_type (record_event cls e ag) = ag_type ag"
    "ag_seq (record_event cls e ag) = ag_seq ag + 1"
    "ag_next (record_event cls e ag) = ag_seq ag + 1"
    "uncommitted (record_event cls e ag) = uncommitted ag @ [e\<lparr>sequenceNo := Some (ag_seq ag + 1)\<rparr>]"
    "ag_state (record_event cls e ag) =
       cls_mutate cls (e\<lparr>sequenceNo := Some (ag_seq ag + 1)\<rparr>) (ag_state ag)"
  using assms by (simp_all add: record_event_def Let_def apply_event_def seq_of_def)

section \<open>What the store and an aggregate in memory must satisfy\<close>

text \<open>
  A stream is numbered without gaps, and every snapshot written or about to be written is the
  state of a prefix of the stream. An aggregate in memory has read a prefix of the stream, which
  may have grown since, and continues its numbering.
\<close>

definition snap_of :: "('s, 'saved) agg_class \<Rightarrow> event list \<Rightarrow> 'saved snapshot \<Rightarrow> bool" where
  "snap_of cls es sn \<longleftrightarrow>
     (\<exists>n\<le>length es. snapSequence sn = int n
        \<and> snapState sn = cls_serialize cls (int n) (replay cls (take n es)))"

definition stream_inv :: "('s, 'saved) agg_class \<Rightarrow> string \<Rightarrow> 'saved repo \<Rightarrow> 'saved store \<Rightarrow> bool" where
  "stream_inv cls i rp s \<longleftrightarrow>
     numbered 0 (stream_of s i)
     \<and> (\<forall>sn. getSnapshot i s = Some sn \<longrightarrow> snap_of cls (stream_of s i) sn)
     \<and> (\<forall>sn\<in>set (snapshotTimers rp). snapAggregateId sn = i \<longrightarrow> snap_of cls (stream_of s i) sn)"

definition agg_inv :: "('s, 'saved) agg_class \<Rightarrow> 'saved store \<Rightarrow> 's agg \<Rightarrow> bool" where
  "agg_inv cls s ag \<longleftrightarrow>
     (\<exists>n\<le>length (stream_of s (ag_id ag)).
        numbered (int n) (uncommitted ag) \<and> (\<forall>e\<in>set (uncommitted ag). aggregateId e = ag_id ag)
        \<and> ag_seq ag = int n + int (length (uncommitted ag)) \<and> ag_next ag = ag_seq ag
        \<and> ag_state ag = replay cls (take n (stream_of s (ag_id ag)) @ uncommitted ag))"

lemma snap_of_append: "snap_of cls es sn \<Longrightarrow> snap_of cls (es @ fs) sn"
proof -
  assume "snap_of cls es sn"
  then obtain n where "n \<le> length es" "snapSequence sn = int n"
      "snapState sn = cls_serialize cls (int n) (replay cls (take n es))"
    by (auto simp: snap_of_def)
  then show ?thesis unfolding snap_of_def by (intro exI [of _ n]) simp
qed

lemma agg_inv_append:
  assumes "agg_inv cls s ag" "stream_of s' (ag_id ag) = stream_of s (ag_id ag) @ fs"
  shows "agg_inv cls s' ag"
proof -
  from assms(1) obtain n where "n \<le> length (stream_of s (ag_id ag))"
      "numbered (int n) (uncommitted ag)" "\<forall>e\<in>set (uncommitted ag). aggregateId e = ag_id ag"
      "ag_seq ag = int n + int (length (uncommitted ag))" "ag_next ag = ag_seq ag"
      "ag_state ag = replay cls (take n (stream_of s (ag_id ag)) @ uncommitted ag)"
    by (auto simp: agg_inv_def)
  then show ?thesis unfolding agg_inv_def assms(2) by (intro exI [of _ n]) simp
qed

locale aggregate_class =
  fixes cls :: "('s, 'saved) agg_class" and wf :: "'s \<Rightarrow> bool"
  assumes wf_init: "wf (cls_init cls)"
    and wf_mutate: "wf s \<Longrightarrow> wf (cls_mutate cls e s)"
    and restored: "wf s \<Longrightarrow> cls_deserialize cls (cls_serialize cls n s) = s"
begin

lemma wf_replay: "wf (replay cls es)"
proof -
  have "wf s \<Longrightarrow> wf (fold (cls_mutate cls) es s)" for s
    by (induction es arbitrary: s) (simp_all add: wf_mutate)
  then show ?thesis by (simp add: replay_def wf_init)
qed

text \<open>Loading, with or without a snapshot, is the replay of the whole stream.\<close>

lemma get_replays:
  assumes "stream_inv cls i rp s"
  shows "ag_state (repo_get cls cfg i s) = replay cls (stream_of s i)"
    "ag_seq (repo_get cls cfg i s) = int (length (stream_of s i))"
    "ag_next (repo_get cls cfg i s) = int (length (stream_of s i))"
    "ag_id (repo_get cls cfg i s) = i" "uncommitted (repo_get cls cfg i s) = []"
proof -
  let ?es = "stream_of s i"
  have num: "numbered 0 ?es" using assms by (simp add: stream_inv_def)
  have "ag_state (repo_get cls cfg i s) = replay cls ?es
      \<and> ag_seq (repo_get cls cfg i s) = int (length ?es)
      \<and> ag_next (repo_get cls cfg i s) = int (length ?es)
      \<and> ag_id (repo_get cls cfg i s) = i \<and> uncommitted (repo_get cls cfg i s) = []"
  proof (cases "if snapshotsEnabled cfg then getSnapshot i s else None")
    case None
    then have "repo_get cls cfg i s = loadFromHistory cls ?es (new_agg cls i)"
      by (simp add: repo_get_def getEvents_whole [OF num])
    then show ?thesis
      using load_numbered [of "new_agg cls i" ?es cls] num by (simp add: replay_def)
  next
    case (Some sn)
    then have "getSnapshot i s = Some sn" by (simp split: if_splits)
    with assms obtain n where n: "n \<le> length ?es" "snapSequence sn = int n"
        "snapState sn = cls_serialize cls (int n) (replay cls (take n ?es))"
      by (auto simp: stream_inv_def snap_of_def)
    let ?ag = "restoreFromSnapshot cls sn (new_agg cls i)"
    have "repo_get cls cfg i s = loadFromHistory cls (drop n ?es) ?ag"
      using Some n by (simp add: repo_get_def getEvents_from [OF num])
    moreover have "numbered (int n) (drop n ?es)"
      using num numbered_append [of 0 "take n ?es" "drop n ?es"] n(1) by simp
    moreover have "fold (cls_mutate cls) (drop n ?es) (replay cls (take n ?es)) = replay cls ?es"
      by (metis append_take_drop_id replay_append)
    ultimately show ?thesis
      using load_numbered [of ?ag "drop n ?es" cls] n
      by (simp add: restored wf_replay)
  qed
  then show "ag_state (repo_get cls cfg i s) = replay cls ?es"
    "ag_seq (repo_get cls cfg i s) = int (length ?es)"
    "ag_next (repo_get cls cfg i s) = int (length ?es)"
    "ag_id (repo_get cls cfg i s) = i" "uncommitted (repo_get cls cfg i s) = []" by auto
qed

lemma get_agg_inv: "stream_inv cls i rp s \<Longrightarrow> agg_inv cls s (repo_get cls cfg i s)"
  unfolding agg_inv_def by (rule exI [of _ "length (stream_of s i)"]) (simp add: get_replays)

end

lemma record_agg_inv:
  assumes "agg_inv cls s ag" "sequenceNo e = None" "aggregateId e = ag_id ag"
  shows "agg_inv cls s (record_event cls e ag)"
proof -
  from assms(1) obtain n where n: "n \<le> length (stream_of s (ag_id ag))"
      "numbered (int n) (uncommitted ag)" "\<forall>e\<in>set (uncommitted ag). aggregateId e = ag_id ag"
      "ag_seq ag = int n + int (length (uncommitted ag))" "ag_next ag = ag_seq ag"
      "ag_state ag = replay cls (take n (stream_of s (ag_id ag)) @ uncommitted ag)"
    by (auto simp: agg_inv_def)
  note f = record_event_fields [OF assms(2) n(5), of cls]
  have "numbered (ag_seq ag) [e\<lparr>sequenceNo := Some (ag_seq ag + 1)\<rparr>]"
    by (simp add: numbered_def seq_of_def)
  then show ?thesis
    unfolding agg_inv_def f using n assms(3)
    by (intro exI [of _ n]) (simp add: f numbered_append replay_append)
qed

section \<open>Saving\<close>

definition batch_seen :: "event list \<Rightarrow> 'saved store \<Rightarrow> bool" where
  "batch_seen es s \<longleftrightarrow> (\<exists>e\<in>set es. eventId e \<in> set (storeIds s))"

text \<open>An aggregate is fresh when it has read the whole stream as it is now.\<close>

definition agg_fresh :: "'saved store \<Rightarrow> 's agg \<Rightarrow> bool" where
  "agg_fresh s ag \<longleftrightarrow>
     ag_seq ag - int (length (uncommitted ag)) = int (length (stream_of s (ag_id ag)))"

lemma agg_inv_batch:
  assumes "agg_inv cls s ag" "uncommitted ag \<noteq> []"
  shows "assertAppendable (uncommitted ag) = None" "aggregateId (hd (uncommitted ag)) = ag_id ag"
proof -
  from assms(1) obtain n where n: "numbered (int n) (uncommitted ag)"
      "\<forall>e\<in>set (uncommitted ag). aggregateId e = ag_id ag" by (auto simp: agg_inv_def)
  show hd: "aggregateId (hd (uncommitted ag)) = ag_id ag" using n(2) assms(2) by simp
  have "sequenceNo e \<noteq> None" if "e \<in> set (uncommitted ag)" for e
    using seq_of_pos [of e] numbered_mem(1) [OF n(1) that] by force
  then show "assertAppendable (uncommitted ag) = None"
    unfolding assertAppendable_None one_aggregate_def hd using assms(2) n(2) by blast
qed

text \<open>A save succeeds exactly when the aggregate is fresh and none of its ids was used before.\<close>

lemma save_accepted_iff:
  assumes "agg_inv cls s ag" "numbered 0 (stream_of s (ag_id ag))" "uncommitted ag \<noteq> []"
  shows "(\<exists>y. repo_save cls cfg now ag rp s = Inr y) \<longleftrightarrow>
    agg_fresh s ag \<and> \<not> batch_seen (uncommitted ag) s"
proof -
  note b = agg_inv_batch [OF assms(1,3)]
  let ?x = "Some (ag_seq ag - int (length (uncommitted ag)))"
  have "(\<exists>y. repo_save cls cfg now ag rp s = Inr y) \<longleftrightarrow>
      (\<exists>r s'. append_events (uncommitted ag) ?x s = Inr (r, s'))"
    using assms(3)
    by (cases "append_events (uncommitted ag) ?x s")
       (auto simp: repo_save_def getUncommittedEvents_def Let_def)
  also have "\<dots> \<longleftrightarrow> ?x = Some (currentSeq s (ag_id ag)) \<and> \<not> batch_seen (uncommitted ag) s"
    using b by (auto simp: append_events_Inr batch_seen_def)
  also have "\<dots> \<longleftrightarrow> agg_fresh s ag \<and> \<not> batch_seen (uncommitted ag) s"
    by (simp add: currentSeq_top numbered_top0 [OF assms(2)] agg_fresh_def)
  finally show ?thesis .
qed

text \<open>What an accepted save does to the store and the aggregate.\<close>

lemma save_effect:
  assumes inv: "agg_inv cls s ag" and ne: "uncommitted ag \<noteq> []"
    and save: "repo_save cls cfg now ag rp s = Inr (r, ag', rp', s')"
  shows "r = uncommitted ag" "ag' = markCommitted ag"
    "stream_of s' = (stream_of s)(ag_id ag := stream_of s (ag_id ag) @ uncommitted ag)"
    "allEvents s' = allEvents s @ uncommitted ag"
    "set (storeIds s') = set (storeIds s) \<union> eventId ` set (uncommitted ag)"
    "snapshots s' = snapshots s"
    "rp' = rp \<or> rp' = scheduleSnapshot cls now ag' rp"
proof -
  from save ne obtain r' where a: "append_events (uncommitted ag)
        (Some (ag_seq ag - int (length (uncommitted ag)))) s = Inr (r', s')"
      and b: "r = uncommitted ag" "ag' = markCommitted ag" "rp' = rp \<or> rp' = scheduleSnapshot cls now ag' rp"
    by (auto simp: repo_save_def getUncommittedEvents_def Let_def split: sum.splits prod.splits if_splits)
  note f = append_eventsD [OF a, unfolded agg_inv_batch(2) [OF inv ne]]
  show "r = uncommitted ag" "ag' = markCommitted ag" "rp' = rp \<or> rp' = scheduleSnapshot cls now ag' rp"
    by (fact b)+
  show "stream_of s' = (stream_of s)(ag_id ag := stream_of s (ag_id ag) @ uncommitted ag)"
    "allEvents s' = allEvents s @ uncommitted ag"
    "set (storeIds s') = set (storeIds s) \<union> eventId ` set (uncommitted ag)"
    "snapshots s' = snapshots s"
    using f by simp_all
qed

lemma save_nothing: "uncommitted ag = [] \<Longrightarrow> repo_save cls cfg now ag rp s = Inr ([], ag, rp, s)"
  by (simp add: repo_save_def getUncommittedEvents_def)

lemma agg_inv_fresh:
  assumes "agg_inv cls s ag" "agg_fresh s ag"
  shows "numbered (int (length (stream_of s (ag_id ag)))) (uncommitted ag)"
    "ag_state ag = replay cls (stream_of s (ag_id ag) @ uncommitted ag)"
    "ag_next ag = ag_seq ag" "\<forall>e\<in>set (uncommitted ag). aggregateId e = ag_id ag"
proof -
  from assms obtain n where n: "n \<le> length (stream_of s (ag_id ag))"
      "numbered (int n) (uncommitted ag)" "\<forall>e\<in>set (uncommitted ag). aggregateId e = ag_id ag"
      "ag_seq ag = int n + int (length (uncommitted ag))" "ag_next ag = ag_seq ag"
      "ag_state ag = replay cls (take n (stream_of s (ag_id ag)) @ uncommitted ag)"
    by (auto simp: agg_inv_def)
  then have "n = length (stream_of s (ag_id ag))" using assms(2) by (simp add: agg_fresh_def)
  with n show "numbered (int (length (stream_of s (ag_id ag)))) (uncommitted ag)"
    "ag_state ag = replay cls (stream_of s (ag_id ag) @ uncommitted ag)"
    "ag_next ag = ag_seq ag" "\<forall>e\<in>set (uncommitted ag). aggregateId e = ag_id ag" by simp_all
qed

section \<open>The three classes\<close>

lemma set_from_distinct: "distinct xs \<Longrightarrow> set_from xs = xs"
proof -
  have "distinct (ys @ xs) \<Longrightarrow> fold js_add xs ys = ys @ xs" for ys
    by (induction xs arbitrary: ys) (auto simp: js_add_def)
  from this [of "[]"] show "distinct xs \<Longrightarrow> set_from xs = xs" by (simp add: set_from_def)
qed

lemma map_from_wf: "wf_map kvs \<Longrightarrow> map_from kvs = kvs"
proof -
  have "wf_map (m @ kvs) \<Longrightarrow> fold (\<lambda>(k, v). js_set k v) kvs m = m @ kvs" for m
  proof (induction kvs arbitrary: m)
    case (Cons p kvs)
    obtain k v where p: "p = (k, v)" by fastforce
    from Cons.prems p have "js_get m k = None" by (auto simp: map_of_eq_None_iff)
    with Cons.IH [of "m @ [(k, v)]"] Cons.prems p show ?case by (simp add: js_set_absent)
  qed simp
  from this [of "[]"] show "wf_map kvs \<Longrightarrow> map_from kvs = kvs" by (simp add: map_from_def)
qed

definition vehicle_wf :: "vehicle \<Rightarrow> bool" where
  "vehicle_wf v \<longleftrightarrow> distinct (v_rooms v) \<and> wf_map (v_ackedSeq v) \<and> distinct (v_insideGeofences v)
     \<and> wf_map (v_geofences v) \<and> wf_map (v_roomSeqs v)"

definition room_wf :: "room_agg \<Rightarrow> bool" where
  "room_wf r \<longleftrightarrow> distinct (ra_members r)"

definition fleet_wf :: "fleet_agg \<Rightarrow> bool" where
  "fleet_wf f \<longleftrightarrow> wf_map (fl_vehicles f)"

lemma resume_rooms_wf: "vehicle_wf v \<Longrightarrow> vehicle_wf (fold resume_room rooms v)"
  by (induction rooms arbitrary: v)
     (auto simp: resume_room_def vehicle_wf_def Let_def split: option.splits)

lemma vehicle_mutate_wf: "vehicle_wf v \<Longrightarrow> vehicle_wf (vehicle_mutate e v)"
  unfolding vehicle_mutate_def Let_def
  using resume_rooms_wf [unfolded vehicle_wf_def, of v]
  by (auto simp: vehicle_wf_def distinct_removeAll split: option.splits list.splits)

interpretation vehicles: aggregate_class VehicleAggregate vehicle_wf
  by unfold_locales
     (simp_all add: VehicleAggregate_def vehicle_mutate_wf,
      simp_all add: vehicle_wf_def vehicle_init_def vehicle_serialize_def set_from_distinct map_from_wf)

interpretation rooms_repo: aggregate_class RoomAggregate room_wf
  by unfold_locales
     (auto simp: RoomAggregate_def room_wf_def room_init_def room_mutate_def room_serialize_def Let_def
        set_from_distinct distinct_removeAll)

interpretation fleets: aggregate_class FleetAggregate fleet_wf
  by unfold_locales
     (auto simp: FleetAggregate_def fleet_wf_def fleet_init_def fleet_mutate_def fleet_serialize_def
        Let_def map_from_wf)

end
