(* ===== verification/Commands.thy ===== *)
theory Commands
  imports Aggregates
begin

text \<open>
  The write side of \<open>src/event-sourcing.js\<close>: the command envelopes, one handler per command type and
  the idempotent dispatch of \<open>CommandHandler\<close>.

  \<^item> \<open>world\<close> is what the handlers share: the two repositories they use and the store below them.
  \<^item> A handler returns a result and the world it leaves, also when it throws: the join and leave
    handlers save the vehicle before they touch the room.
  \<^item> The \<open>k\<close>-th event a handler creates takes its id and time from \<open>env k\<close>.
  \<^item> \<open>dispatch\<close> awaits the handler between its check of the command id and the caching of the result;
    the two halves are \<open>dispatch_begin\<close> and \<open>dispatch_commit\<close>.
  \<^item> Subscribers are named by numbers; a dispatch yields the batches they are called with.
  \<^item> Coordinates are real numbers, so the distance is the exact haversine formula.
\<close>

section \<open>Command envelopes\<close>

definition CommandTypes_PublishLocation :: string where "CommandTypes_PublishLocation = ''publish_location''"
definition CommandTypes_JoinRoom :: string where "CommandTypes_JoinRoom = ''join_room''"
definition CommandTypes_LeaveRoom :: string where "CommandTypes_LeaveRoom = ''leave_room''"
definition CommandTypes_Acknowledge :: string where "CommandTypes_Acknowledge = ''acknowledge''"
definition CommandTypes_NegativeAcknowledge :: string where
  "CommandTypes_NegativeAcknowledge = ''negative_acknowledge''"
definition CommandTypes_UpdateGeofence :: string where "CommandTypes_UpdateGeofence = ''update_geofence''"
definition CommandTypes_ResumeSession :: string where "CommandTypes_ResumeSession = ''resume_session''"

lemmas CommandTypes_defs =
  CommandTypes_PublishLocation_def CommandTypes_JoinRoom_def CommandTypes_LeaveRoom_def
  CommandTypes_Acknowledge_def CommandTypes_NegativeAcknowledge_def CommandTypes_UpdateGeofence_def
  CommandTypes_ResumeSession_def

record command =
  commandId :: string
  cmdType :: string
  cmdClient :: string
  cmdRoom :: string
  cmdPayload :: payload
  cmdSeq :: "int option"
  cmdNegative :: bool
  cmdReason :: "string option"
  cmdFences :: "fence list option"
  cmdRooms :: "resumed list"
  cmdCorrelation :: "string option"
  cmdMetadata :: json

definition requireCommand :: "string \<Rightarrow> es_error option" where
  "requireCommand cid = (if cid = [] then Some (EsTypeError ''command.commandId is required'') else None)"

definition command_base :: "string \<Rightarrow> string \<Rightarrow> string \<Rightarrow> string option \<Rightarrow> json option \<Rightarrow> command" where
  "command_base ty cid client corr meta =
     \<lparr>commandId = cid, cmdType = ty, cmdClient = client, cmdRoom = [], cmdPayload = no_payload,
      cmdSeq = None, cmdNegative = False, cmdReason = None, cmdFences = None, cmdRooms = [],
      cmdCorrelation = Some (case corr of Some c \<Rightarrow> c | None \<Rightarrow> cid),
      cmdMetadata = (case meta of Some m \<Rightarrow> m | None \<Rightarrow> JObj [])\<rparr>"

definition checked :: "string \<Rightarrow> command \<Rightarrow> es_error + command" where
  "checked cid cmd = (case requireCommand cid of Some err \<Rightarrow> Inl err | None \<Rightarrow> Inr cmd)"

definition PublishLocationCommand ::
    "string \<Rightarrow> string \<Rightarrow> payload \<Rightarrow> string option \<Rightarrow> json option \<Rightarrow> es_error + command" where
  "PublishLocationCommand cid client pl corr meta = checked cid
     ((command_base CommandTypes_PublishLocation cid client corr meta)\<lparr>cmdPayload := pl\<rparr>)"

definition JoinRoomCommand ::
    "string \<Rightarrow> string \<Rightarrow> string \<Rightarrow> string option \<Rightarrow> json option \<Rightarrow> es_error + command" where
  "JoinRoomCommand cid client room corr meta = checked cid
     ((command_base CommandTypes_JoinRoom cid client corr meta)\<lparr>cmdRoom := room\<rparr>)"

definition LeaveRoomCommand ::
    "string \<Rightarrow> string \<Rightarrow> string \<Rightarrow> string option \<Rightarrow> json option \<Rightarrow> es_error + command" where
  "LeaveRoomCommand cid client room corr meta = checked cid
     ((command_base CommandTypes_LeaveRoom cid client corr meta)\<lparr>cmdRoom := room\<rparr>)"

definition AcknowledgeCommand :: "string \<Rightarrow> string \<Rightarrow> string \<Rightarrow> int option \<Rightarrow> string option \<Rightarrow>
    string option \<Rightarrow> json option \<Rightarrow> es_error + command" where
  "AcknowledgeCommand cid client room seq reason corr meta = checked cid
     ((command_base CommandTypes_Acknowledge cid client corr meta)
        \<lparr>cmdRoom := room, cmdSeq := seq, cmdNegative := False, cmdReason := reason\<rparr>)"

definition NegativeAcknowledgeCommand :: "string \<Rightarrow> string \<Rightarrow> string \<Rightarrow> int option \<Rightarrow> string option \<Rightarrow>
    string option \<Rightarrow> json option \<Rightarrow> es_error + command" where
  "NegativeAcknowledgeCommand cid client room seq reason corr meta = checked cid
     ((command_base CommandTypes_NegativeAcknowledge cid client corr meta)
        \<lparr>cmdRoom := room, cmdSeq := seq, cmdNegative := True, cmdReason := reason\<rparr>)"

definition UpdateGeofenceCommand :: "string \<Rightarrow> string \<Rightarrow> string \<Rightarrow> fence list option \<Rightarrow>
    string option \<Rightarrow> json option \<Rightarrow> es_error + command" where
  "UpdateGeofenceCommand cid client room fences corr meta = checked cid
     ((command_base CommandTypes_UpdateGeofence cid client corr meta)
        \<lparr>cmdRoom := room, cmdFences := fences\<rparr>)"

definition ResumeSessionCommand :: "string \<Rightarrow> string \<Rightarrow> resumed list option \<Rightarrow>
    string option \<Rightarrow> json option \<Rightarrow> es_error + command" where
  "ResumeSessionCommand cid client rooms corr meta = checked cid
     ((command_base CommandTypes_ResumeSession cid client corr meta)
        \<lparr>cmdRooms := (case rooms of Some rs \<Rightarrow> rs | None \<Rightarrow> [])\<rparr>)"

section \<open>Handlers\<close>

record world =
  w_vehicles :: "saved repo"
  w_rooms :: "saved repo"
  w_store :: "saved store"

definition world_init :: world where
  "world_init = \<lparr>w_vehicles = repo_init, w_rooms = repo_init, w_store = store_init\<rparr>"

type_synonym env = "nat \<Rightarrow> fresh"

definition toRad :: "real \<Rightarrow> real" where
  "toRad d = d * pi / 180"

definition haversineM :: "real \<Rightarrow> real \<Rightarrow> real \<Rightarrow> real \<Rightarrow> real" where
  "haversineM lat1 lon1 lat2 lon2 =
     (let dLat = toRad (lat2 - lat1); dLon = toRad (lon2 - lon1);
          a = sin (dLat / 2) ^ 2 + cos (toRad lat1) * cos (toRad lat2) * sin (dLon / 2) ^ 2
      in 6371000 * 2 * arcsin (sqrt a))"

definition cmd_opts :: "command \<Rightarrow> opts" where
  "cmd_opts cmd =
     \<lparr>o_metadata = Some (cmdMetadata cmd), o_causationId = Some (commandId cmd),
      o_correlationId = Some (case cmdCorrelation cmd of Some c \<Rightarrow> c | None \<Rightarrow> commandId cmd),
      o_eventId = None, o_timestamp = TsAbsent\<rparr>"

definition record_new ::
    "('s, 'saved) agg_class \<Rightarrow> es_error + event \<Rightarrow> 's agg \<Rightarrow> es_error + 's agg" where
  "record_new cls ev ag = (case ev of Inl err \<Rightarrow> Inl err | Inr e \<Rightarrow> Inr (record_event cls e ag))"

definition save_vehicle ::
    "repo_config \<Rightarrow> time \<Rightarrow> vehicle agg \<Rightarrow> world \<Rightarrow> (es_error + event list) \<times> world" where
  "save_vehicle cfg now v w =
     (case repo_save VehicleAggregate cfg now v (w_vehicles w) (w_store w) of
        Inl err \<Rightarrow> (Inl err, w)
      | Inr (evs, _, rp, s) \<Rightarrow> (Inr evs, w\<lparr>w_vehicles := rp, w_store := s\<rparr>))"

definition save_room ::
    "repo_config \<Rightarrow> time \<Rightarrow> room_agg agg \<Rightarrow> world \<Rightarrow> (es_error + event list) \<times> world" where
  "save_room cfg now r w =
     (case repo_save RoomAggregate cfg now r (w_rooms w) (w_store w) of
        Inl err \<Rightarrow> (Inl err, w)
      | Inr (evs, _, rp, s) \<Rightarrow> (Inr evs, w\<lparr>w_rooms := rp, w_store := s\<rparr>))"

definition fence_inside :: "real \<Rightarrow> real \<Rightarrow> fence \<Rightarrow> bool" where
  "fence_inside lat lon f \<longleftrightarrow> haversineM lat lon (fenceLat f) (fenceLon f) \<le> radiusM f"

definition cross_fence ::
    "env \<Rightarrow> command \<Rightarrow> real \<Rightarrow> real \<Rightarrow> fence \<Rightarrow> vehicle agg \<Rightarrow> es_error + vehicle agg" where
  "cross_fence env cmd lat lon f v =
     (let inside = fence_inside lat lon f;
          wasInside = Some (fenceId f) \<in> set (v_insideGeofences (ag_state v));
          fr = env (length (uncommitted v))
      in if inside \<and> \<not> wasInside
         then record_new VehicleAggregate (GeofenceEnteredEvent fr (cmdClient cmd) f (lat, lon) (cmd_opts cmd)) v
         else if \<not> inside \<and> wasInside
         then record_new VehicleAggregate (GeofenceExitedEvent fr (cmdClient cmd) f (lat, lon) (cmd_opts cmd)) v
         else Inr v)"

fun cross_fences ::
    "env \<Rightarrow> command \<Rightarrow> real \<Rightarrow> real \<Rightarrow> fence list \<Rightarrow> vehicle agg \<Rightarrow> es_error + vehicle agg" where
  "cross_fences env cmd lat lon [] v = Inr v"
| "cross_fences env cmd lat lon (f # fs) v =
     (case cross_fence env cmd lat lon f v of
        Inl err \<Rightarrow> Inl err
      | Inr v' \<Rightarrow> cross_fences env cmd lat lon fs v')"

definition handlePublishLocation ::
    "repo_config \<Rightarrow> env \<Rightarrow> command \<Rightarrow> world \<Rightarrow> (es_error + event list) \<times> world" where
  "handlePublishLocation cfg env cmd w =
     (let v0 = repo_get VehicleAggregate cfg (cmdClient cmd) (w_store w);
          p = cmdPayload cmd
      in case record_new VehicleAggregate
                (LocationUpdatedEvent (env 0) (cmdClient cmd) p (cmd_opts cmd)) v0 of
           Inl err \<Rightarrow> (Inl err, w)
         | Inr v1 \<Rightarrow>
             (case (case (p_latitude p, p_longitude p) of
                      (Some lat, Some lon) \<Rightarrow>
                        cross_fences env cmd lat lon (concat (map snd (v_geofences (ag_state v1)))) v1
                    | _ \<Rightarrow> Inr v1) of
                Inl err \<Rightarrow> (Inl err, w)
              | Inr v2 \<Rightarrow> save_vehicle cfg (date_now (env (length (uncommitted v2)))) v2 w))"

text \<open>The second half of the join and leave handlers: the mirrored event on the room aggregate.\<close>

definition mirror_on_room ::
    "repo_config \<Rightarrow> fresh \<Rightarrow> string \<Rightarrow> command \<Rightarrow> event list \<Rightarrow> world \<Rightarrow> (es_error + event list) \<times> world" where
  "mirror_on_room cfg fr evType cmd events w =
     (let r0 = repo_get RoomAggregate cfg (cmdRoom cmd) (w_store w);
          pl = no_payload\<lparr>p_clientId := Some (cmdClient cmd), p_roomId := Some (cmdRoom cmd)\<rparr>
      in case record_new RoomAggregate
                (createEvent fr evType (cmdRoom cmd) AggregateTypes_Room pl (cmd_opts cmd)) r0 of
           Inl err \<Rightarrow> (Inl err, w)
         | Inr r1 \<Rightarrow>
             (case save_room cfg (date_now fr) r1 w of
                (Inl err, w') \<Rightarrow> (Inl err, w')
              | (Inr evs, w') \<Rightarrow> (Inr (events @ evs), w')))"

definition handleJoinRoom ::
    "bool \<Rightarrow> repo_config \<Rightarrow> env \<Rightarrow> command \<Rightarrow> world \<Rightarrow> (es_error + event list) \<times> world" where
  "handleJoinRoom roomsRepo cfg env cmd w =
     (let v = repo_get VehicleAggregate cfg (cmdClient cmd) (w_store w);
          first =
            (if Some (cmdRoom cmd) \<in> set (v_rooms (ag_state v)) then (Inr [], w)
             else case record_new VehicleAggregate
                         (RoomJoinedEvent (env 0) (cmdClient cmd) (cmdRoom cmd) (cmd_opts cmd)) v of
                    Inl err \<Rightarrow> (Inl err, w)
                  | Inr v1 \<Rightarrow> save_vehicle cfg (date_now (env 0)) v1 w)
      in case first of
           (Inl err, w') \<Rightarrow> (Inl err, w')
         | (Inr events, w') \<Rightarrow>
             if roomsRepo then mirror_on_room cfg (env 1) EventTypes_RoomJoined cmd events w'
             else (Inr events, w'))"

definition handleLeaveRoom ::
    "bool \<Rightarrow> repo_config \<Rightarrow> env \<Rightarrow> command \<Rightarrow> world \<Rightarrow> (es_error + event list) \<times> world" where
  "handleLeaveRoom roomsRepo cfg env cmd w =
     (let v = repo_get VehicleAggregate cfg (cmdClient cmd) (w_store w);
          first =
            (if Some (cmdRoom cmd) \<notin> set (v_rooms (ag_state v)) then (Inr [], w)
             else case record_new VehicleAggregate
                         (RoomLeftEvent (env 0) (cmdClient cmd) (cmdRoom cmd) (cmd_opts cmd)) v of
                    Inl err \<Rightarrow> (Inl err, w)
                  | Inr v1 \<Rightarrow> save_vehicle cfg (date_now (env 0)) v1 w)
      in case first of
           (Inl err, w') \<Rightarrow> (Inl err, w')
         | (Inr events, w') \<Rightarrow>
             if roomsRepo then mirror_on_room cfg (env 1) EventTypes_RoomLeft cmd events w'
             else (Inr events, w'))"

definition acked_of :: "vehicle \<Rightarrow> string \<Rightarrow> int" where
  "acked_of v room = (case js_get (v_ackedSeq v) (Some room) of Some (Some n) \<Rightarrow> n | _ \<Rightarrow> 0)"

definition record_and_save ::
    "repo_config \<Rightarrow> env \<Rightarrow> es_error + event \<Rightarrow> vehicle agg \<Rightarrow> world \<Rightarrow> (es_error + event list) \<times> world" where
  "record_and_save cfg env ev v w =
     (case record_new VehicleAggregate ev v of
        Inl err \<Rightarrow> (Inl err, w)
      | Inr v1 \<Rightarrow> save_vehicle cfg (date_now (env 0)) v1 w)"

definition handleAcknowledge ::
    "repo_config \<Rightarrow> env \<Rightarrow> command \<Rightarrow> world \<Rightarrow> (es_error + event list) \<times> world" where
  "handleAcknowledge cfg env cmd w =
     (let v = repo_get VehicleAggregate cfg (cmdClient cmd) (w_store w)
      in if \<not> cmdNegative cmd \<and>
            (case cmdSeq cmd of Some n \<Rightarrow> n \<le> acked_of (ag_state v) (cmdRoom cmd) | None \<Rightarrow> False)
         then (Inr [], w)
         else record_and_save cfg env
                (if cmdNegative cmd
                 then MessageNackedEvent (env 0) (cmdClient cmd) (cmdRoom cmd) (cmdSeq cmd) (cmdReason cmd) (cmd_opts cmd)
                 else MessageAcknowledgedEvent (env 0) (cmdClient cmd) (cmdRoom cmd) (cmdSeq cmd) (cmd_opts cmd))
                v w)"

definition handleUpdateGeofence ::
    "repo_config \<Rightarrow> env \<Rightarrow> command \<Rightarrow> world \<Rightarrow> (es_error + event list) \<times> world" where
  "handleUpdateGeofence cfg env cmd w =
     record_and_save cfg env
       (GeofenceUpdatedEvent (env 0) (cmdClient cmd) (cmdRoom cmd) (cmdFences cmd) (cmd_opts cmd))
       (repo_get VehicleAggregate cfg (cmdClient cmd) (w_store w)) w"

definition handleResumeSession ::
    "repo_config \<Rightarrow> env \<Rightarrow> command \<Rightarrow> world \<Rightarrow> (es_error + event list) \<times> world" where
  "handleResumeSession cfg env cmd w =
     record_and_save cfg env
       (SessionResumedEvent (env 0) (cmdClient cmd) (cmdRooms cmd) (cmd_opts cmd))
       (repo_get VehicleAggregate cfg (cmdClient cmd) (w_store w)) w"

section \<open>CommandHandler\<close>

type_synonym 'w handler = "env \<Rightarrow> command \<Rightarrow> 'w \<Rightarrow> (es_error + event list) \<times> 'w"

record 'w command_handler =
  handlers :: "(string, 'w handler) jsmap"
  dedup :: "(string, event list) jsmap"
  dedupCacheSize :: nat
  subscribers :: "nat jsset"
  commands_total :: int
  commands_deduplicated_total :: int

definition command_handler_init :: "nat \<Rightarrow> 'w command_handler" where
  "command_handler_init cap =
     \<lparr>handlers = [], dedup = [], dedupCacheSize = cap, subscribers = [], commands_total = 0,
      commands_deduplicated_total = 0\<rparr>"

definition register :: "string \<Rightarrow> 'w handler \<Rightarrow> 'w command_handler \<Rightarrow> 'w command_handler" where
  "register ty h ch = ch\<lparr>handlers := js_set ty h (handlers ch)\<rparr>"

definition subscribe :: "nat \<Rightarrow> 'w command_handler \<Rightarrow> 'w command_handler" where
  "subscribe fn ch = ch\<lparr>subscribers := js_add fn (subscribers ch)\<rparr>"

definition unsubscribe :: "nat \<Rightarrow> 'w command_handler \<Rightarrow> 'w command_handler" where
  "unsubscribe fn ch = ch\<lparr>subscribers := removeAll fn (subscribers ch)\<rparr>"

datatype 'w begun = Cached "event list" | Rejected es_error | Run "'w handler"

definition dispatch_begin :: "command \<Rightarrow> 'w command_handler \<Rightarrow> 'w begun \<times> 'w command_handler" where
  "dispatch_begin cmd ch =
     (case js_get (dedup ch) (commandId cmd) of
        Some events \<Rightarrow>
          (Cached events, ch\<lparr>commands_deduplicated_total := commands_deduplicated_total ch + 1\<rparr>)
      | None \<Rightarrow>
          (case js_get (handlers ch) (cmdType cmd) of
             None \<Rightarrow> (Rejected (EsError (''No handler registered for command type ''
                        @ [CHR 0x22] @ cmdType cmd @ [CHR 0x22])), ch)
           | Some h \<Rightarrow> (Run h, ch)))"

definition dispatch_commit ::
    "command \<Rightarrow> event list \<Rightarrow> 'w command_handler \<Rightarrow> 'w command_handler \<times> (nat \<times> event list) list" where
  "dispatch_commit cmd events ch =
     (ch\<lparr>commands_total := commands_total ch + 1,
         dedup := evict_oldest (dedupCacheSize ch) (js_set (commandId cmd) events (dedup ch))\<rparr>,
      if events \<noteq> [] then map (\<lambda>fn. (fn, events)) (subscribers ch) else [])"

definition dispatch ::
    "env \<Rightarrow> command \<Rightarrow> 'w command_handler \<Rightarrow> 'w \<Rightarrow>
       (es_error + event list) \<times> 'w command_handler \<times> 'w \<times> (nat \<times> event list) list" where
  "dispatch env cmd ch w =
     (case dispatch_begin cmd ch of
        (Cached events, ch') \<Rightarrow> (Inr events, ch', w, [])
      | (Rejected err, ch') \<Rightarrow> (Inl err, ch', w, [])
      | (Run h, ch') \<Rightarrow>
          (case h env cmd w of
             (Inl err, w') \<Rightarrow> (Inl err, ch', w', [])
           | (Inr events, w') \<Rightarrow>
               let (ch'', notes) = dispatch_commit cmd events ch'
               in (Inr events, ch'', w', notes)))"

definition createEventSourcing :: "repo_config \<Rightarrow> world command_handler \<times> world" where
  "createEventSourcing cfg =
     (subscribe 0
       (register CommandTypes_ResumeSession (handleResumeSession cfg)
       (register CommandTypes_UpdateGeofence (handleUpdateGeofence cfg)
       (register CommandTypes_NegativeAcknowledge (handleAcknowledge cfg)
       (register CommandTypes_Acknowledge (handleAcknowledge cfg)
       (register CommandTypes_LeaveRoom (handleLeaveRoom True cfg)
       (register CommandTypes_JoinRoom (handleJoinRoom True cfg)
       (register CommandTypes_PublishLocation (handlePublishLocation cfg)
          (command_handler_init 10000)))))))), world_init)"

end
