(* ===== verification/EventMachine.thy ===== *)
theory EventMachine
  imports Commands
begin

text \<open>
  The write side as a transition system. Between loading an aggregate and saving it a handler
  awaits the store, so handlers interleave: a state holds the shared world and the aggregates
  some handler has in memory, and each load, record, save, snapshot write and continuation is one
  step. \<open>is_room\<close> says which identifiers name rooms: the vehicle and room repositories share one
  store, and nothing keeps their streams apart but the identifiers.

  \<open>side_inv\<close> is the invariant of one repository; it is preserved by the steps of its own
  repository and not touched by those of the other.
\<close>

declare map_of_eq_Some_iff [simp del] Some_eq_map_of_iff [simp del]

record es =
  es_world :: world
  vloaded :: "vehicle agg list"
  rloaded :: "room_agg agg list"

definition es_init :: es where
  "es_init = \<lparr>es_world = world_init, vloaded = [], rloaded = []\<rparr>"

inductive es_step :: "repo_config \<Rightarrow> (string \<Rightarrow> bool) \<Rightarrow> es \<Rightarrow> es \<Rightarrow> bool" for cfg is_room where
  v_load: "\<not> is_room i \<Longrightarrow>
    es_step cfg is_room st
      (st\<lparr>vloaded := vloaded st @ [repo_get VehicleAggregate cfg i (w_store (es_world st))]\<rparr>)"
| r_load: "is_room i \<Longrightarrow>
    es_step cfg is_room st
      (st\<lparr>rloaded := rloaded st @ [repo_get RoomAggregate cfg i (w_store (es_world st))]\<rparr>)"
| v_record: "k < length (vloaded st) \<Longrightarrow> sequenceNo e = None \<Longrightarrow> aggregateId e = ag_id (vloaded st ! k) \<Longrightarrow>
    es_step cfg is_room st
      (st\<lparr>vloaded := (vloaded st)[k := record_event VehicleAggregate e (vloaded st ! k)]\<rparr>)"
| r_record: "k < length (rloaded st) \<Longrightarrow> sequenceNo e = None \<Longrightarrow> aggregateId e = ag_id (rloaded st ! k) \<Longrightarrow>
    es_step cfg is_room st
      (st\<lparr>rloaded := (rloaded st)[k := record_event RoomAggregate e (rloaded st ! k)]\<rparr>)"
| v_save: "k < length (vloaded st) \<Longrightarrow>
    repo_save VehicleAggregate cfg now (vloaded st ! k) (w_vehicles (es_world st)) (w_store (es_world st))
      = Inr (r, ag, rp, s) \<Longrightarrow>
    es_step cfg is_room st
      (st\<lparr>vloaded := (vloaded st)[k := ag], es_world := (es_world st)\<lparr>w_vehicles := rp, w_store := s\<rparr>\<rparr>)"
| r_save: "k < length (rloaded st) \<Longrightarrow>
    repo_save RoomAggregate cfg now (rloaded st ! k) (w_rooms (es_world st)) (w_store (es_world st))
      = Inr (r, ag, rp, s) \<Longrightarrow>
    es_step cfg is_room st
      (st\<lparr>rloaded := (rloaded st)[k := ag], es_world := (es_world st)\<lparr>w_rooms := rp, w_store := s\<rparr>\<rparr>)"
| v_write: "snapshot_write k (w_vehicles (es_world st)) (w_store (es_world st)) = (rp, s) \<Longrightarrow>
    es_step cfg is_room st (st\<lparr>es_world := (es_world st)\<lparr>w_vehicles := rp, w_store := s\<rparr>\<rparr>)"
| r_write: "snapshot_write k (w_rooms (es_world st)) (w_store (es_world st)) = (rp, s) \<Longrightarrow>
    es_step cfg is_room st (st\<lparr>es_world := (es_world st)\<lparr>w_rooms := rp, w_store := s\<rparr>\<rparr>)"
| v_settle: "es_step cfg is_room st
    (st\<lparr>es_world := (es_world st)\<lparr>w_vehicles := snapshot_settle (w_vehicles (es_world st))\<rparr>\<rparr>)"
| r_settle: "es_step cfg is_room st
    (st\<lparr>es_world := (es_world st)\<lparr>w_rooms := snapshot_settle (w_rooms (es_world st))\<rparr>\<rparr>)"

definition es_reachable :: "repo_config \<Rightarrow> (string \<Rightarrow> bool) \<Rightarrow> es \<Rightarrow> bool" where
  "es_reachable cfg is_room st \<longleftrightarrow> (es_step cfg is_room)\<^sup>*\<^sup>* es_init st"

section \<open>The invariant of one repository\<close>

definition side_inv :: "('s, 'saved) agg_class \<Rightarrow> (string \<Rightarrow> bool) \<Rightarrow> 'saved repo \<Rightarrow> 's agg list \<Rightarrow>
    'saved store \<Rightarrow> bool" where
  "side_inv cls P rp ags s \<longleftrightarrow>
     (\<forall>i. P i \<longrightarrow> stream_inv cls i rp s)
     \<and> (\<forall>ag\<in>set ags. P (ag_id ag) \<and> agg_inv cls s ag)
     \<and> (\<forall>sn\<in>set (snapshotTimers rp). P (snapAggregateId sn))"

lemma side_invD:
  assumes "side_inv cls P rp ags s"
  shows "P i \<Longrightarrow> stream_inv cls i rp s" "ag \<in> set ags \<Longrightarrow> P (ag_id ag)" "ag \<in> set ags \<Longrightarrow> agg_inv cls s ag"
    "sn \<in> set (snapshotTimers rp) \<Longrightarrow> P (snapAggregateId sn)"
  using assms by (auto simp: side_inv_def)

lemma side_inv_update:
  "side_inv cls P rp ags s \<Longrightarrow> P (ag_id ag) \<Longrightarrow> agg_inv cls s ag \<Longrightarrow> side_inv cls P rp (ags[k := ag]) s"
  using set_update_subset_insert [of ags k ag] by (auto simp: side_inv_def)


context aggregate_class
begin

lemma side_inv_load:
  assumes "side_inv cls P rp ags s" "P i"
  shows "side_inv cls P rp (ags @ [repo_get cls cfg i s]) s"
proof -
  note inv = side_invD(1) [OF assms]
  from get_agg_inv [OF inv] get_replays(4) [OF inv] assms show ?thesis by (simp add: side_inv_def)
qed

end

lemma side_inv_record:
  assumes "side_inv cls P rp ags s" "k < length ags" "sequenceNo e = None" "aggregateId e = ag_id (ags ! k)"
  shows "side_inv cls P rp (ags[k := record_event cls e (ags ! k)]) s"
proof (rule side_inv_update [OF assms(1)])
  have inv: "agg_inv cls s (ags ! k)" "P (ag_id (ags ! k))"
    using side_invD(2,3) [OF assms(1)] assms(2) by simp_all
  then have "ag_next (ags ! k) = ag_seq (ags ! k)" by (auto simp: agg_inv_def)
  with record_event_fields(1) [OF assms(3) this, of cls] inv(2)
  show "P (ag_id (record_event cls e (ags ! k)))" by simp
  show "agg_inv cls s (record_event cls e (ags ! k))" by (rule record_agg_inv [OF inv(1) assms(3,4)])
qed

text \<open>A step that only extends streams and leaves the snapshots alone.\<close>

definition grows :: "'saved store \<Rightarrow> 'saved store \<Rightarrow> bool" where
  "grows s s' \<longleftrightarrow> (\<forall>i. \<exists>fs. stream_of s' i = stream_of s i @ fs) \<and> snapshots s' = snapshots s"

lemma grows_snap_of: "grows s s' \<Longrightarrow> snap_of cls (stream_of s i) sn \<Longrightarrow> snap_of cls (stream_of s' i) sn"
  unfolding grows_def using snap_of_append by metis

lemma grows_agg_inv: "grows s s' \<Longrightarrow> agg_inv cls s ag \<Longrightarrow> agg_inv cls s' ag"
  unfolding grows_def using agg_inv_append by metis

lemma save_grows:
  assumes "agg_inv cls s ag" "repo_save cls cfg now ag rp s = Inr (r, ag', rp', s')"
  shows "grows s s'"
proof (cases "uncommitted ag = []")
  case True
  then show ?thesis using assms(2) by (simp add: save_nothing grows_def)
next
  case False
  from save_effect(3,6) [OF assms(1) False assms(2)] show ?thesis by (simp add: grows_def)
qed

lemma save_own:
  assumes inv: "agg_inv cls s ag" "stream_inv cls (ag_id ag) rp s"
    and save: "repo_save cls cfg now ag rp s = Inr (r, ag', rp', s')"
  shows "numbered 0 (stream_of s' (ag_id ag))" "agg_inv cls s' ag'" "ag_id ag' = ag_id ag"
    "set (snapshotTimers rp') \<subseteq> insert (takeSnapshot cls now ag') (set (snapshotTimers rp))"
    "takeSnapshot cls now ag' \<in> set (snapshotTimers rp') - set (snapshotTimers rp) \<Longrightarrow>
      snap_of cls (stream_of s' (ag_id ag)) (takeSnapshot cls now ag')"
    "i \<noteq> ag_id ag \<Longrightarrow> stream_of s' i = stream_of s i"
proof -
  have num: "numbered 0 (stream_of s (ag_id ag))" using inv(2) by (simp add: stream_inv_def)
  have "numbered 0 (stream_of s' (ag_id ag)) \<and> agg_inv cls s' ag' \<and> ag_id ag' = ag_id ag
    \<and> set (snapshotTimers rp') \<subseteq> insert (takeSnapshot cls now ag') (set (snapshotTimers rp))
    \<and> (takeSnapshot cls now ag' \<in> set (snapshotTimers rp') - set (snapshotTimers rp) \<longrightarrow>
        snap_of cls (stream_of s' (ag_id ag)) (takeSnapshot cls now ag'))
    \<and> (i \<noteq> ag_id ag \<longrightarrow> stream_of s' i = stream_of s i)"
  proof (cases "uncommitted ag = []")
    case True
    then show ?thesis using save inv num by (auto simp: save_nothing)
  next
    case ne: False
    note eff = save_effect [OF inv(1) ne save]
    have fresh: "agg_fresh s ag" using save_accepted_iff [OF inv(1) num ne] save by blast
    note f = agg_inv_fresh [OF inv(1) fresh]
    let ?es = "stream_of s (ag_id ag) @ uncommitted ag"
    have str: "stream_of s' (ag_id ag) = ?es" by (simp add: eff(3))
    have seq: "ag_seq ag = int (length ?es)" using fresh by (simp add: agg_fresh_def)
    have ag': "ag_id ag' = ag_id ag" "ag_state ag' = ag_state ag" "ag_seq ag' = ag_seq ag"
      "ag_next ag' = ag_next ag" "uncommitted ag' = []" by (simp_all add: eff(2) markCommitted_def)
    have "agg_inv cls s' ag'"
      unfolding agg_inv_def ag' str by (rule exI [of _ "length ?es"]) (simp add: seq f)
    moreover have "snap_of cls ?es (takeSnapshot cls now ag')"
      unfolding snap_of_def by (rule exI [of _ "length ?es"]) (simp add: takeSnapshot_def ag' seq f)
    moreover have "set (snapshotTimers rp') \<subseteq> insert (takeSnapshot cls now ag') (set (snapshotTimers rp))"
      using eff(7) by (auto simp: scheduleSnapshot_def)
    ultimately show ?thesis using num f(1) str eff(3) ag' by (simp add: numbered_append)
  qed
  then show "numbered 0 (stream_of s' (ag_id ag))" "agg_inv cls s' ag'" "ag_id ag' = ag_id ag"
    "set (snapshotTimers rp') \<subseteq> insert (takeSnapshot cls now ag') (set (snapshotTimers rp))"
    "takeSnapshot cls now ag' \<in> set (snapshotTimers rp') - set (snapshotTimers rp) \<Longrightarrow>
      snap_of cls (stream_of s' (ag_id ag)) (takeSnapshot cls now ag')"
    "i \<noteq> ag_id ag \<Longrightarrow> stream_of s' i = stream_of s i" by blast+
qed

lemma snapId_takeSnapshot [simp]: "snapAggregateId (takeSnapshot cls now ag) = ag_id ag"
  by (simp add: takeSnapshot_def)

lemma side_inv_save:
  assumes side: "side_inv cls P rp ags s" and k: "k < length ags"
    and save: "repo_save cls cfg now (ags ! k) rp s = Inr (r, ag', rp', s')"
  shows "side_inv cls P rp' (ags[k := ag']) s'"
proof -
  let ?ag = "ags ! k"
  have P: "P (ag_id ?ag)" and inv: "agg_inv cls s ?ag" 
    using side_invD(2,3) [OF side] k by simp_all
  note own = save_own [OF inv side_invD(1) [OF side P] save]
  have grow: "grows s s'" by (rule save_grows [OF inv save])
  have timers: "snap_of cls (stream_of s' (snapAggregateId sn)) sn" "P (snapAggregateId sn)"
    if "sn \<in> set (snapshotTimers rp')" for sn
  proof -
    show "P (snapAggregateId sn)" using that own(3,4) P side_invD(4) [OF side] by auto
    show "snap_of cls (stream_of s' (snapAggregateId sn)) sn"
    proof (cases "sn \<in> set (snapshotTimers rp)")
      case True
      then have "snap_of cls (stream_of s (snapAggregateId sn)) sn"
        using side_invD(1) [OF side side_invD(4) [OF side True]] True by (simp add: stream_inv_def)
      then show ?thesis by (rule grows_snap_of [OF grow])
    next
      case False
      with that own(4) have "sn = takeSnapshot cls now ag'" by auto
      with own(5) False that show ?thesis by (simp add: own(3))
    qed
  qed
  have "stream_inv cls i rp' s'" if "P i" for i
  proof -
    have old: "stream_inv cls i rp s" by (rule side_invD(1) [OF side that])
    have "numbered 0 (stream_of s' i)"
      using own(1,6) old by (cases "i = ag_id ?ag") (auto simp: stream_inv_def)
    moreover have "snap_of cls (stream_of s' i) sn" if "getSnapshot i s' = Some sn" for sn
      using old that grow grows_snap_of [OF grow] by (auto simp: stream_inv_def getSnapshot_def grows_def)
    ultimately show ?thesis using timers by (auto simp: stream_inv_def)
  qed
  moreover have "P (ag_id ag) \<and> agg_inv cls s' ag" if "ag \<in> set (ags[k := ag'])" for ag
  proof -
    from that set_update_subset_insert [of ags k ag'] consider "ag = ag'" | "ag \<in> set ags" by auto
    then show ?thesis using own(2,3) P grows_agg_inv [OF grow, of cls] side_invD(2,3) [OF side] by cases simp_all
  qed
  ultimately show ?thesis using timers by (auto simp: side_inv_def)
qed

text \<open>A save by one repository, seen from the other.\<close>

lemma side_inv_other:
  assumes side: "side_inv cls Q rp ags s" and grow: "grows s s'"
    and same: "\<And>i. Q i \<Longrightarrow> stream_of s' i = stream_of s i"
  shows "side_inv cls Q rp ags s'"
proof -
  have "stream_inv cls i rp s'" if "Q i" for i
    using side_invD(1) [OF side that] same [OF that] grow by (simp add: stream_inv_def grows_def getSnapshot_def)
  then show ?thesis using side grows_agg_inv [OF grow, of cls] by (auto simp: side_inv_def)
qed

lemma saveSnapshot_fields [simp]:
  "stream_of (saveSnapshot sn s) = stream_of s"
  "getSnapshot i (saveSnapshot sn s) = (if i = snapAggregateId sn then Some sn else getSnapshot i s)"
  "allEvents (saveSnapshot sn s) = allEvents s" "storeIds (saveSnapshot sn s) = storeIds s"
  by (simp_all add: saveSnapshot_def stream_of_def getSnapshot_def fun_eq_iff)

lemma snapshot_write_cases:
  assumes "snapshot_write k rp s = (rp', s')"
  obtains "rp' = rp" "s' = s"
  | sn where "sn \<in> set (snapshotTimers rp)" "s' = saveSnapshot sn s"
      "set (snapshotTimers rp') \<subseteq> set (snapshotTimers rp)"
proof (cases "k < length (snapshotTimers rp)")
  case True
  with assms have "s' = saveSnapshot (snapshotTimers rp ! k) s"
    "snapshotTimers rp' = take k (snapshotTimers rp) @ drop (Suc k) (snapshotTimers rp)"
    by (auto simp: snapshot_write_def Let_def)
  with True that(2) [of "snapshotTimers rp ! k"] show ?thesis
    by (auto dest: in_set_takeD in_set_dropD)
qed (use assms that(1) in \<open>auto simp: snapshot_write_def\<close>)

lemma agg_inv_snapshot [simp]: "agg_inv cls (saveSnapshot sn s) = agg_inv cls s"
  by (simp add: agg_inv_def fun_eq_iff)

lemma side_inv_write:
  assumes side: "side_inv cls P rp ags s" and "snapshot_write k rp s = (rp', s')"
  shows "side_inv cls P rp' ags s'"
  using assms(2)
proof (cases rule: snapshot_write_cases)
  case (2 sn)
  have sn: "snap_of cls (stream_of s (snapAggregateId sn)) sn"
    using side_invD(1) [OF side side_invD(4) [OF side 2(1)]] 2(1) by (simp add: stream_inv_def)
  have "stream_inv cls i rp' s'" if "P i" for i
    using side_invD(1) [OF side that] sn 2 by (auto simp: stream_inv_def)
  then show ?thesis using side 2 by (auto simp: side_inv_def)
qed (use side in simp)

lemma side_inv_other_write:
  assumes side: "side_inv cls Q rq ags s" and wr: "snapshot_write k rp s = (rp', s')"
    and apart: "\<And>sn. sn \<in> set (snapshotTimers rp) \<Longrightarrow> \<not> Q (snapAggregateId sn)"
  shows "side_inv cls Q rq ags s'"
  using wr
proof (cases rule: snapshot_write_cases)
  case (2 sn)
  have "stream_inv cls i rq s'" if "Q i" for i
    using side_invD(1) [OF side that] apart [OF 2(1)] that 2(2) by (auto simp: stream_inv_def)
  then show ?thesis using side 2 by (simp add: side_inv_def)
qed (use side in simp)

lemma timers_settle [simp]: "snapshotTimers (snapshot_settle rp) = snapshotTimers rp"
  by (simp add: snapshot_settle_def split: list.splits)

lemma side_inv_settle: "side_inv cls P rp ags s \<Longrightarrow> side_inv cls P (snapshot_settle rp) ags s"
  by (simp add: side_inv_def stream_inv_def)

section \<open>Reachable states\<close>

text \<open>Each stream is the part of the global log that belongs to it, and the id guard knows every id.\<close>

definition log_inv :: "'saved store \<Rightarrow> bool" where
  "log_inv s \<longleftrightarrow> (\<forall>i. stream_of s i = filter (\<lambda>e. aggregateId e = i) (allEvents s))
     \<and> set (storeIds s) = eventId ` set (allEvents s)"

definition es_inv :: "(string \<Rightarrow> bool) \<Rightarrow> es \<Rightarrow> bool" where
  "es_inv is_room st \<longleftrightarrow>
     side_inv VehicleAggregate (\<lambda>i. \<not> is_room i) (w_vehicles (es_world st)) (vloaded st) (w_store (es_world st))
     \<and> side_inv RoomAggregate is_room (w_rooms (es_world st)) (rloaded st) (w_store (es_world st))
     \<and> log_inv (w_store (es_world st))"

lemma log_inv_save:
  assumes log: "log_inv s" and inv: "agg_inv cls s ag"
    and save: "repo_save cls cfg now ag rp s = Inr (r, ag', rp', s')"
  shows "log_inv s'"
proof (cases "uncommitted ag = []")
  case False
  note eff = save_effect [OF inv False save]
  have "\<forall>e\<in>set (uncommitted ag). aggregateId e = ag_id ag" using inv by (auto simp: agg_inv_def)
  then have "filter (\<lambda>e. aggregateId e = i) (uncommitted ag) = (if i = ag_id ag then uncommitted ag else [])" for i
    by (auto simp: filter_empty_conv filter_id_conv)
  then show ?thesis using log eff by (auto simp: log_inv_def)
qed (use log save in \<open>simp add: save_nothing\<close>)

lemma log_inv_write: "log_inv s \<Longrightarrow> snapshot_write k rp s = (rp', s') \<Longrightarrow> log_inv s'"
  by (erule snapshot_write_cases) (simp_all add: log_inv_def)

lemma es_init_inv: "es_inv is_room es_init"
  by (simp add: es_inv_def es_init_def world_init_def side_inv_def stream_inv_def log_inv_def
      store_init_def repo_init_def stream_of_def getSnapshot_def)

text \<open>One save step on either side: its own side and the other one.\<close>

lemma save_step:
  assumes own: "side_inv cls P rp ags s" and other: "side_inv cls' Q rq bgs s" and log: "log_inv s"
    and k: "k < length ags" and save: "repo_save cls cfg now (ags ! k) rp s = Inr (r, ag', rp', s')"
    and apart: "\<And>i. Q i \<Longrightarrow> \<not> P i"
  shows "side_inv cls P rp' (ags[k := ag']) s' \<and> side_inv cls' Q rq bgs s' \<and> log_inv s'"
proof -
  have P: "P (ag_id (ags ! k))" and inv: "agg_inv cls s (ags ! k)"
    using side_invD(2,3) [OF own] k by simp_all
  have "stream_of s' i = stream_of s i" if "Q i" for i
    using save_own(6) [OF inv side_invD(1) [OF own P] save, of i] apart [OF that] P by auto
  with side_inv_other [OF other save_grows [OF inv save]] side_inv_save [OF own k save]
    log_inv_save [OF log inv save]
  show ?thesis by blast
qed

lemma write_step:
  assumes own: "side_inv cls P rp ags s" and other: "side_inv cls' Q rq bgs s" and log: "log_inv s"
    and wr: "snapshot_write k rp s = (rp', s')" and apart: "\<And>i. Q i \<Longrightarrow> \<not> P i"
  shows "side_inv cls P rp' ags s' \<and> side_inv cls' Q rq bgs s' \<and> log_inv s'"
  using side_inv_write [OF own wr] side_inv_other_write [OF other wr] side_invD(4) [OF own] apart
    log_inv_write [OF log wr] by blast

lemma es_invD:
  assumes "es_inv is_room st"
  shows "side_inv VehicleAggregate (\<lambda>i. \<not> is_room i) (w_vehicles (es_world st)) (vloaded st) (w_store (es_world st))"
    "side_inv RoomAggregate is_room (w_rooms (es_world st)) (rloaded st) (w_store (es_world st))"
    "log_inv (w_store (es_world st))"
  using assms by (simp_all add: es_inv_def)

lemma es_step_inv:
  assumes "es_step cfg is_room st st'" "es_inv is_room st"
  shows "es_inv is_room st'"
  using assms
proof (induction rule: es_step.induct)
  case (v_load i st)
  then show ?case by (simp add: es_inv_def vehicles.side_inv_load)
next
  case (r_load i st)
  then show ?case by (simp add: es_inv_def rooms_repo.side_inv_load)
next
  case (v_record k st e)
  then show ?case by (simp add: es_inv_def side_inv_record)
next
  case (r_record k st e)
  then show ?case by (simp add: es_inv_def side_inv_record)
next
  case (v_save k st now r ag rp s)
  from save_step [OF es_invD [OF v_save(3)] v_save(1,2)] show ?case by (simp add: es_inv_def)
next
  case (r_save k st now r ag rp s)
  from save_step [OF es_invD(2,1,3) [OF r_save(3)] r_save(1,2)] show ?case by (simp add: es_inv_def)
next
  case (v_write k st rp s)
  from write_step [OF es_invD [OF v_write(2)] v_write(1)] show ?case by (simp add: es_inv_def)
next
  case (r_write k st rp s)
  from write_step [OF es_invD(2,1,3) [OF r_write(2)] r_write(1)] show ?case by (simp add: es_inv_def)
next
  case (v_settle st)
  then show ?case by (simp add: es_inv_def side_inv_settle)
next
  case (r_settle st)
  then show ?case by (simp add: es_inv_def side_inv_settle)
qed

lemma es_reachable_inv: "es_reachable cfg is_room st \<Longrightarrow> es_inv is_room st"
  unfolding es_reachable_def
  by (induction rule: rtranclp_induct) (auto intro: es_init_inv es_step_inv)

lemma es_reachable_step:
  "es_reachable cfg is_room st \<Longrightarrow> es_step cfg is_room st st' \<Longrightarrow> es_reachable cfg is_room st'"
  by (simp add: es_reachable_def rtranclp.rtrancl_into_rtrancl)

text \<open>What the handlers need of a reachable world.\<close>

lemma reachable_vehicle:
  assumes "es_reachable cfg is_room st" "\<not> is_room i"
  shows "stream_inv VehicleAggregate i (w_vehicles (es_world st)) (w_store (es_world st))"
  using es_reachable_inv [OF assms(1)] assms(2) by (auto simp: es_inv_def intro: side_invD(1))

lemma reachable_room:
  assumes "es_reachable cfg is_room st" "is_room i"
  shows "stream_inv RoomAggregate i (w_rooms (es_world st)) (w_store (es_world st))"
  using es_reachable_inv [OF assms(1)] assms(2) by (auto simp: es_inv_def intro: side_invD(1))

section \<open>Handlers as runs of the machine\<close>

definition reach_world :: "repo_config \<Rightarrow> (string \<Rightarrow> bool) \<Rightarrow> world \<Rightarrow> bool" where
  "reach_world cfg is_room w \<longleftrightarrow> (\<exists>st. es_reachable cfg is_room st \<and> es_world st = w)"

text \<open>The last loaded aggregate is the one a running handler works on.\<close>

definition v_holds :: "repo_config \<Rightarrow> (string \<Rightarrow> bool) \<Rightarrow> world \<Rightarrow> vehicle agg \<Rightarrow> bool" where
  "v_holds cfg is_room w v \<longleftrightarrow>
     (\<exists>st vs. es_reachable cfg is_room st \<and> es_world st = w \<and> vloaded st = vs @ [v])"

definition r_holds :: "repo_config \<Rightarrow> (string \<Rightarrow> bool) \<Rightarrow> world \<Rightarrow> room_agg agg \<Rightarrow> bool" where
  "r_holds cfg is_room w r \<longleftrightarrow>
     (\<exists>st rs. es_reachable cfg is_room st \<and> es_world st = w \<and> rloaded st = rs @ [r])"

lemma reach_init: "reach_world cfg is_room world_init"
  unfolding reach_world_def by (rule exI [of _ es_init]) (simp add: es_reachable_def es_init_def)

lemma v_holds_get:
  assumes "reach_world cfg is_room w" "\<not> is_room i"
  shows "v_holds cfg is_room w (repo_get VehicleAggregate cfg i (w_store w))"
proof -
  from assms obtain st where "es_reachable cfg is_room st" "es_world st = w" by (auto simp: reach_world_def)
  moreover from assms(2) have "es_step cfg is_room st
      (st\<lparr>vloaded := vloaded st @ [repo_get VehicleAggregate cfg i (w_store (es_world st))]\<rparr>)" by (rule v_load)
  ultimately have "es_reachable cfg is_room
      (st\<lparr>vloaded := vloaded st @ [repo_get VehicleAggregate cfg i (w_store w)]\<rparr>)" "es_world st = w"
    by (auto intro: es_reachable_step)
  then show ?thesis unfolding v_holds_def by (intro exI [of _ "st\<lparr>vloaded := vloaded st @ [repo_get VehicleAggregate cfg i (w_store w)]\<rparr>"]) simp
qed

lemma r_holds_get:
  assumes "reach_world cfg is_room w" "is_room i"
  shows "r_holds cfg is_room w (repo_get RoomAggregate cfg i (w_store w))"
proof -
  from assms obtain st where "es_reachable cfg is_room st" "es_world st = w" by (auto simp: reach_world_def)
  moreover from assms(2) have "es_step cfg is_room st
      (st\<lparr>rloaded := rloaded st @ [repo_get RoomAggregate cfg i (w_store (es_world st))]\<rparr>)" by (rule r_load)
  ultimately have "es_reachable cfg is_room
      (st\<lparr>rloaded := rloaded st @ [repo_get RoomAggregate cfg i (w_store w)]\<rparr>)" "es_world st = w"
    by (auto intro: es_reachable_step)
  then show ?thesis unfolding r_holds_def by (intro exI [of _ "st\<lparr>rloaded := rloaded st @ [repo_get RoomAggregate cfg i (w_store w)]\<rparr>"]) simp
qed

lemma v_holds_record:
  assumes "v_holds cfg is_room w v" "sequenceNo e = None" "aggregateId e = ag_id v"
  shows "v_holds cfg is_room w (record_event VehicleAggregate e v)"
proof -
  from assms obtain st vs where st: "es_reachable cfg is_room st" "es_world st = w" "vloaded st = vs @ [v]"
    by (auto simp: v_holds_def)
  have "es_step cfg is_room st
      (st\<lparr>vloaded := (vloaded st)[length vs := record_event VehicleAggregate e (vloaded st ! length vs)]\<rparr>)"
    using st assms by (intro v_record) simp_all
  from es_reachable_step [OF st(1) this] st show ?thesis
    unfolding v_holds_def
    by (intro exI [of _ "st\<lparr>vloaded := vs @ [record_event VehicleAggregate e v]\<rparr>"] exI [of _ vs]) simp
qed

lemma r_holds_record:
  assumes "r_holds cfg is_room w r" "sequenceNo e = None" "aggregateId e = ag_id r"
  shows "r_holds cfg is_room w (record_event RoomAggregate e r)"
proof -
  from assms obtain st rs where st: "es_reachable cfg is_room st" "es_world st = w" "rloaded st = rs @ [r]"
    by (auto simp: r_holds_def)
  have "es_step cfg is_room st
      (st\<lparr>rloaded := (rloaded st)[length rs := record_event RoomAggregate e (rloaded st ! length rs)]\<rparr>)"
    using st assms by (intro r_record) simp_all
  from es_reachable_step [OF st(1) this] st show ?thesis
    unfolding r_holds_def
    by (intro exI [of _ "st\<lparr>rloaded := rs @ [record_event RoomAggregate e r]\<rparr>"] exI [of _ rs]) simp
qed

lemma v_holds_inv:
  assumes "v_holds cfg is_room w v"
  shows "agg_inv VehicleAggregate (w_store w) v" "\<not> is_room (ag_id v)"
proof -
  from assms obtain st vs where st: "es_reachable cfg is_room st" "es_world st = w" "vloaded st = vs @ [v]"
    by (auto simp: v_holds_def)
  note side = es_invD(1) [OF es_reachable_inv [OF st(1)]]
  show "agg_inv VehicleAggregate (w_store w) v" "\<not> is_room (ag_id v)"
    using side_invD(3) [OF side, of v] side_invD(2) [OF side, of v] st(2,3) by auto
qed

lemma v_holds_save:
  assumes "v_holds cfg is_room w v"
  shows "reach_world cfg is_room (snd (save_vehicle cfg now v w))"
proof -
  from assms obtain st vs where st: "es_reachable cfg is_room st" "es_world st = w" "vloaded st = vs @ [v]"
    by (auto simp: v_holds_def)
  show ?thesis
  proof (cases "repo_save VehicleAggregate cfg now v (w_vehicles w) (w_store w)")
    case (Inl err)
    then show ?thesis using st by (auto simp: save_vehicle_def reach_world_def)
  next
    case (Inr p)
    then obtain r ag rp s where "repo_save VehicleAggregate cfg now v (w_vehicles w) (w_store w) = Inr (r, ag, rp, s)"
      by (metis prod_cases4)
    note save = this
    have "es_step cfg is_room st
        (st\<lparr>vloaded := (vloaded st)[length vs := ag], es_world := (es_world st)\<lparr>w_vehicles := rp, w_store := s\<rparr>\<rparr>)"
      using st save by (intro v_save) simp_all
    from es_reachable_step [OF st(1) this] st save show ?thesis
      unfolding reach_world_def
      by (intro exI [of _ "st\<lparr>vloaded := vs @ [ag], es_world := w\<lparr>w_vehicles := rp, w_store := s\<rparr>\<rparr>"])
         (simp add: save_vehicle_def)
  qed
qed

lemma r_holds_save:
  assumes "r_holds cfg is_room w r"
  shows "reach_world cfg is_room (snd (save_room cfg now r w))"
proof -
  from assms obtain st rs where st: "es_reachable cfg is_room st" "es_world st = w" "rloaded st = rs @ [r]"
    by (auto simp: r_holds_def)
  show ?thesis
  proof (cases "repo_save RoomAggregate cfg now r (w_rooms w) (w_store w)")
    case (Inl err)
    then show ?thesis using st by (auto simp: save_room_def reach_world_def)
  next
    case (Inr p)
    then obtain x ag rp s where "repo_save RoomAggregate cfg now r (w_rooms w) (w_store w) = Inr (x, ag, rp, s)"
      by (metis prod_cases4)
    note save = this
    have "es_step cfg is_room st
        (st\<lparr>rloaded := (rloaded st)[length rs := ag], es_world := (es_world st)\<lparr>w_rooms := rp, w_store := s\<rparr>\<rparr>)"
      using st save by (intro r_save) simp_all
    from es_reachable_step [OF st(1) this] st save show ?thesis
      unfolding reach_world_def
      by (intro exI [of _ "st\<lparr>rloaded := rs @ [ag], es_world := w\<lparr>w_rooms := rp, w_store := s\<rparr>\<rparr>"])
         (simp add: save_room_def)
  qed
qed

lemma reach_vehicle:
  "reach_world cfg is_room w \<Longrightarrow> \<not> is_room i \<Longrightarrow> stream_inv VehicleAggregate i (w_vehicles w) (w_store w)"
  using reachable_vehicle by (auto simp: reach_world_def)

lemma reach_room:
  "reach_world cfg is_room w \<Longrightarrow> is_room i \<Longrightarrow> stream_inv RoomAggregate i (w_rooms w) (w_store w)"
  using reachable_room by (auto simp: reach_world_def)

end
