(* ===== verification/HandlerRuns.thy ===== *)
theory HandlerRuns
  imports EventMachine
begin

text \<open>
  Every command handler, run without interruption, is a run of the machine, and what it leaves
  in the store: a committed aggregate reads back as the state it had in memory.
\<close>

declare map_of_eq_Some_iff [simp del] Some_eq_map_of_iff [simp del]

section \<open>Committing an aggregate\<close>

context aggregate_class
begin

lemma save_stream_inv:
  assumes inv: "stream_inv cls (ag_id ag) rp s" "agg_inv cls s ag"
    and save: "repo_save cls cfg now ag rp s = Inr (r, ag', rp', s')"
  shows "stream_inv cls (ag_id ag) rp' s'"
proof -
  note own = save_own [OF inv(2,1) save]
  note grow = save_grows [OF inv(2) save]
  have "snap_of cls (stream_of s' (ag_id ag)) sn"
    if "sn \<in> set (snapshotTimers rp')" "snapAggregateId sn = ag_id ag" for sn
  proof (cases "sn \<in> set (snapshotTimers rp)")
    case True
    then show ?thesis using inv(1) that grows_snap_of [OF grow, of cls] by (simp add: stream_inv_def)
  next
    case False
    with that own(4) have "sn = takeSnapshot cls now ag'" by auto
    with own(5) that False show ?thesis by simp
  qed
  moreover have "snap_of cls (stream_of s' (ag_id ag)) sn" if "getSnapshot (ag_id ag) s' = Some sn" for sn
    using inv(1) that grow grows_snap_of [OF grow, of cls] by (auto simp: stream_inv_def getSnapshot_def grows_def)
  ultimately show ?thesis using own(1) by (simp add: stream_inv_def)
qed

text \<open>A fresh aggregate with unused event ids is saved, and reading it back gives its state.\<close>

lemma commit:
  assumes inv: "stream_inv cls (ag_id ag) rp s" "agg_inv cls s ag" and fresh: "agg_fresh s ag"
    and ne: "uncommitted ag \<noteq> []" and new: "\<not> batch_seen (uncommitted ag) s"
  obtains rp' s' where "repo_save cls cfg now ag rp s = Inr (uncommitted ag, markCommitted ag, rp', s')"
    "stream_inv cls (ag_id ag) rp' s'"
    "stream_of s' = (stream_of s)(ag_id ag := stream_of s (ag_id ag) @ uncommitted ag)"
    "set (storeIds s') = set (storeIds s) \<union> eventId ` set (uncommitted ag)"
    "\<And>cfg'. ag_state (repo_get cls cfg' (ag_id ag) s') = ag_state ag"
proof -
  have num: "numbered 0 (stream_of s (ag_id ag))" using inv(1) by (simp add: stream_inv_def)
  from save_accepted_iff [OF inv(2) num ne] fresh new obtain r ag' rp' s'
    where save: "repo_save cls cfg now ag rp s = Inr (r, ag', rp', s')" by (metis prod_cases4)
  note eff = save_effect [OF inv(2) ne save]
  note inv' = save_stream_inv [OF inv save]
  have "ag_state (repo_get cls cfg' (ag_id ag) s') = ag_state ag" for cfg'
    using get_replays(1) [OF inv', of cfg'] agg_inv_fresh(2) [OF inv(2) fresh] by (simp add: eff(3))
  with that save inv' eff show thesis by blast
qed

lemma get_fresh: "stream_inv cls i rp s \<Longrightarrow> agg_fresh s (repo_get cls cfg i s)"
  by (simp add: agg_fresh_def get_replays)

end

lemma record_fresh:
  assumes "agg_inv cls s ag" "agg_fresh s ag" "sequenceNo e = None"
  shows "agg_fresh s (record_event cls e ag)"
proof -
  have "ag_next ag = ag_seq ag" using assms(1) by (auto simp: agg_inv_def)
  from record_event_fields [OF assms(3) this, of cls] assms(2) show ?thesis by (simp add: agg_fresh_def)
qed

section \<open>Created events\<close>

definition made :: "fresh \<Rightarrow> string \<Rightarrow> string \<Rightarrow> string \<Rightarrow> payload \<Rightarrow> command \<Rightarrow> int option \<Rightarrow> event" where
  "made fr evType aggId aggType pl cmd n =
    \<lparr>eventId = uuidv7 fr, eventType = evType, aggregateId = aggId, aggregateType = aggType,
     sequenceNo = n, body = pl, metadata = cmdMetadata cmd, timestamp = date_now fr,
     causationId = Some (commandId cmd),
     correlationId = Some (case cmdCorrelation cmd of Some c \<Rightarrow> c | None \<Rightarrow> commandId cmd)\<rparr>"

lemma createEvent_made:
  "aggId \<noteq> [] \<Longrightarrow> evType \<noteq> [] \<Longrightarrow>
     createEvent fr evType aggId aggType pl (cmd_opts cmd) = Inr (made fr evType aggId aggType pl cmd None)"
  by (simp add: createEvent_def cmd_opts_def made_def)

lemma made_fields [simp]:
  "(made fr ty i aty pl cmd n)\<lparr>sequenceNo := m\<rparr> = made fr ty i aty pl cmd m"
  "eventId (made fr ty i aty pl cmd n) = uuidv7 fr" "eventType (made fr ty i aty pl cmd n) = ty"
  "aggregateId (made fr ty i aty pl cmd n) = i" "aggregateType (made fr ty i aty pl cmd n) = aty"
  "sequenceNo (made fr ty i aty pl cmd n) = n" "body (made fr ty i aty pl cmd n) = pl"
  "timestamp (made fr ty i aty pl cmd n) = date_now fr"
  by (simp_all add: made_def)

lemma createEvent_Inr:
  assumes "createEvent fr evType aggId aggType pl op = Inr e"
  shows "sequenceNo e = None" "aggregateId e = aggId" "eventType e = evType" "body e = pl"
    "aggId \<noteq> []" "aggregateType e = aggType"
  using assms by (auto simp: createEvent_def split: if_splits sum.splits)

lemma base_types [simp]:
  "baseEventType EventTypes_LocationUpdated = ''location_update''"
  "baseEventType EventTypes_RoomJoined = ''room_joined''"
  "baseEventType EventTypes_RoomLeft = ''room_left''"
  "baseEventType EventTypes_GeofenceEntered = ''geofence_entered''"
  "baseEventType EventTypes_GeofenceExited = ''geofence_exited''"
  "baseEventType EventTypes_GeofenceUpdated = ''geofence_updated''"
  "baseEventType EventTypes_SessionResumed = ''session_resumed''"
  "baseEventType EventTypes_MessageAcknowledged = ''message_ack''"
  "baseEventType EventTypes_MessageNacked = ''message_nack''"
  by (simp_all add: EventTypes_defs baseEventType_def is_digit_def)

lemma event_types_not_Nil [simp]:
  "EventTypes_LocationUpdated \<noteq> []" "EventTypes_RoomJoined \<noteq> []" "EventTypes_RoomLeft \<noteq> []"
  "EventTypes_GeofenceEntered \<noteq> []" "EventTypes_GeofenceExited \<noteq> []" "EventTypes_GeofenceUpdated \<noteq> []"
  "EventTypes_SessionResumed \<noteq> []" "EventTypes_MessageAcknowledged \<noteq> []" "EventTypes_MessageNacked \<noteq> []"
  by (simp_all add: EventTypes_defs)

section \<open>Every handler is a run of the machine\<close>

lemma v_holds_new:
  assumes "v_holds cfg is_room w v" "createEvent fr ty (ag_id v) aty pl op = Inr e"
  shows "v_holds cfg is_room w (record_event VehicleAggregate e v)"
  by (rule v_holds_record [OF assms(1) createEvent_Inr(1) [OF assms(2)] createEvent_Inr(2) [OF assms(2)]])

lemma get_id: "v_holds cfg is_room w v \<Longrightarrow> ag_next v = ag_seq v"
  using v_holds_inv(1) by (auto simp: agg_inv_def)

lemma repo_get_id [simp]: "ag_id (repo_get cls cfg i s) = i"
  by (simp add: repo_get_def Let_def split: option.splits)

lemma v_record_new:
  assumes "v_holds cfg is_room w v" "record_new VehicleAggregate (createEvent fr ty (ag_id v) aty pl op) v = Inr v'"
  shows "v_holds cfg is_room w v' \<and> ag_id v' = ag_id v"
proof -
  from assms(2) obtain e where e: "createEvent fr ty (ag_id v) aty pl op = Inr e" "v' = record_event VehicleAggregate e v"
    by (auto simp: record_new_def split: sum.splits)
  with v_holds_new [OF assms(1) e(1)] record_event_fields(1) [OF createEvent_Inr(1) [OF e(1)] get_id [OF assms(1)]]
  show ?thesis by simp
qed

lemma v_cross_fences:
  assumes "v_holds cfg is_room w v" "cross_fences env cmd lat lon fs v = Inr v'" "ag_id v = cmdClient cmd"
  shows "v_holds cfg is_room w v' \<and> ag_id v' = cmdClient cmd"
  using assms
proof (induction fs arbitrary: v)
  case (Cons f fs)
  from Cons.prems(2) obtain v1 where v1: "cross_fence env cmd lat lon f v = Inr v1"
      "cross_fences env cmd lat lon fs v1 = Inr v'" by (auto split: sum.splits)
  have "v_holds cfg is_room w v1 \<and> ag_id v1 = ag_id v"
    using v1(1) Cons.prems(1)
      v_record_new [OF Cons.prems(1), of "env (length (uncommitted v))" _ AggregateTypes_Vehicle _ "cmd_opts cmd" v1]
    by (auto simp: cross_fence_def Let_def GeofenceEnteredEvent_def GeofenceExitedEvent_def
        Cons.prems(3) [symmetric] split: if_splits)
  with Cons.IH [of v1] v1(2) Cons.prems(3) show ?case by simp
qed simp

lemma record_and_save_reach:
  assumes "v_holds cfg is_room w v"
  shows "reach_world cfg is_room (snd (record_and_save cfg env (createEvent fr ty (ag_id v) aty pl op) v w))"
proof (cases "record_new VehicleAggregate (createEvent fr ty (ag_id v) aty pl op) v")
  case (Inl err)
  then show ?thesis using assms by (auto simp: record_and_save_def v_holds_def reach_world_def)
next
  case (Inr v')
  with v_record_new [OF assms] v_holds_save show ?thesis by (auto simp: record_and_save_def)
qed

lemma mirror_reach:
  assumes "reach_world cfg is_room w" "is_room (cmdRoom cmd)"
  shows "reach_world cfg is_room (snd (mirror_on_room cfg fr ty cmd evs w))"
proof -
  note h = r_holds_get [OF assms]
  let ?r = "repo_get RoomAggregate cfg (cmdRoom cmd) (w_store w)"
  let ?pl = "no_payload\<lparr>p_clientId := Some (cmdClient cmd), p_roomId := Some (cmdRoom cmd)\<rparr>"
  show ?thesis
  proof (cases "createEvent fr ty (cmdRoom cmd) AggregateTypes_Room ?pl (cmd_opts cmd)")
    case (Inl err)
    then show ?thesis using assms by (simp add: mirror_on_room_def record_new_def)
  next
    case (Inr e)
    have "r_holds cfg is_room w (record_event RoomAggregate e ?r)"
      using createEvent_Inr [OF Inr] by (intro r_holds_record [OF h]) simp_all
    from r_holds_save [OF this, of "date_now fr"] Inr show ?thesis
      by (cases "save_room cfg (date_now fr) (record_event RoomAggregate e ?r) w")
         (auto simp: mirror_on_room_def record_new_def Let_def split: sum.splits)
  qed
qed

lemma publish_reach:
  assumes "reach_world cfg is_room w" "\<not> is_room (cmdClient cmd)"
  shows "reach_world cfg is_room (snd (handlePublishLocation cfg env cmd w))"
proof (cases "record_new VehicleAggregate (LocationUpdatedEvent (env 0) (cmdClient cmd) (cmdPayload cmd) (cmd_opts cmd)) (repo_get VehicleAggregate cfg (cmdClient cmd) (w_store w))")
  case (Inl err)
  then show ?thesis using assms(1) by (simp add: handlePublishLocation_def)
next
  case (Inr v1)
  then have v1: "v_holds cfg is_room w v1" "ag_id v1 = cmdClient cmd"
    using v_record_new [OF v_holds_get [OF assms], unfolded repo_get_id] by (auto simp: LocationUpdatedEvent_def)
  let ?p = "cmdPayload cmd"
  let ?x = "case (p_latitude ?p, p_longitude ?p) of
      (Some lat, Some lon) \<Rightarrow> cross_fences env cmd lat lon (concat (map snd (v_geofences (ag_state v1)))) v1
    | _ \<Rightarrow> Inr v1"
  have eq: "handlePublishLocation cfg env cmd w =
      (case ?x of Inl err \<Rightarrow> (Inl err, w)
       | Inr v2 \<Rightarrow> save_vehicle cfg (date_now (env (length (uncommitted v2)))) v2 w)"
    using Inr by (simp add: handlePublishLocation_def Let_def)
  show ?thesis
  proof (cases ?x)
    case (Inl err)
    then show ?thesis using eq assms(1) by simp
  next
    case (Inr v2)
    then have "v_holds cfg is_room w v2"
      using v1 v_cross_fences [OF v1(1) _ v1(2)] by (auto split: option.splits)
    then show ?thesis using eq Inr v_holds_save by simp
  qed
qed

lemma handlers_reach:
  assumes "reach_world cfg is_room w" "\<not> is_room (cmdClient cmd)" "is_room (cmdRoom cmd)"
  shows "reach_world cfg is_room (snd (handlePublishLocation cfg env cmd w))"
    "reach_world cfg is_room (snd (handleJoinRoom b cfg env cmd w))"
    "reach_world cfg is_room (snd (handleLeaveRoom b cfg env cmd w))"
    "reach_world cfg is_room (snd (handleAcknowledge cfg env cmd w))"
    "reach_world cfg is_room (snd (handleUpdateGeofence cfg env cmd w))"
    "reach_world cfg is_room (snd (handleResumeSession cfg env cmd w))"
proof -
  let ?v = "repo_get VehicleAggregate cfg (cmdClient cmd) (w_store w)"
  note h = v_holds_get [OF assms(1,2)]
  show "reach_world cfg is_room (snd (handlePublishLocation cfg env cmd w))"
    by (rule publish_reach [OF assms(1,2)])
  note one = record_and_save_reach [OF h, unfolded repo_get_id]
  show "reach_world cfg is_room (snd (handleUpdateGeofence cfg env cmd w))"
    "reach_world cfg is_room (snd (handleResumeSession cfg env cmd w))"
    "reach_world cfg is_room (snd (handleAcknowledge cfg env cmd w))"
    using one assms(1)
    by (simp_all add: handleUpdateGeofence_def handleResumeSession_def handleAcknowledge_def Let_def typed_events)
  have fst: "reach_world cfg is_room (snd (record_and_save cfg env (RoomJoinedEvent (env 0) (cmdClient cmd) (cmdRoom cmd) (cmd_opts cmd)) ?v w))"
    "reach_world cfg is_room (snd (record_and_save cfg env (RoomLeftEvent (env 0) (cmdClient cmd) (cmdRoom cmd) (cmd_opts cmd)) ?v w))"
    using one by (simp_all add: typed_events)
  show "reach_world cfg is_room (snd (handleJoinRoom b cfg env cmd w))"
    using fst(1) assms mirror_reach
    by (auto simp: handleJoinRoom_def Let_def record_and_save_def split: sum.splits prod.splits)
  show "reach_world cfg is_room (snd (handleLeaveRoom b cfg env cmd w))"
    using fst(2) assms mirror_reach
    by (auto simp: handleLeaveRoom_def Let_def record_and_save_def split: sum.splits prod.splits)
qed

section \<open>The state a handler leaves\<close>

abbreviation vstate :: "repo_config \<Rightarrow> string \<Rightarrow> world \<Rightarrow> vehicle" where
  "vstate cfg c w \<equiv> ag_state (repo_get VehicleAggregate cfg c (w_store w))"

abbreviation rstate :: "repo_config \<Rightarrow> string \<Rightarrow> world \<Rightarrow> room_agg" where
  "rstate cfg r w \<equiv> ag_state (repo_get RoomAggregate cfg r (w_store w))"

definition stream_len :: "world \<Rightarrow> string \<Rightarrow> int" where
  "stream_len w i = int (length (stream_of (w_store w) i))"

lemma mutate_simps [simp]:
  "cls_mutate VehicleAggregate = vehicle_mutate" "cls_mutate RoomAggregate = room_mutate"
  "cls_init VehicleAggregate = vehicle_init" "cls_init RoomAggregate = room_init"
  by (simp_all add: VehicleAggregate_def RoomAggregate_def)

context aggregate_class
begin

text \<open>Load, record one created event, save.\<close>

lemma commit_one:
  assumes inv: "stream_inv cls i rp s" and i: "i \<noteq> []" and ty: "ty \<noteq> []" and new: "uuidv7 fr \<notin> set (storeIds s)"
    and e_def: "e = made fr ty i aty pl cmd (Some (int (length (stream_of s i)) + 1))"
  obtains v rp' s' where
    "record_new cls (createEvent fr ty i aty pl (cmd_opts cmd)) (repo_get cls cfg i s) = Inr v"
    "repo_save cls cfg now v rp s = Inr ([e], markCommitted v, rp', s')"
    "stream_of s' = (stream_of s)(i := stream_of s i @ [e])"
    "set (storeIds s') = insert (uuidv7 fr) (set (storeIds s))"
    "\<And>cfg'. ag_state (repo_get cls cfg' i s') = cls_mutate cls e (ag_state (repo_get cls cfg' i s))"
proof -
  let ?v = "repo_get cls cfg i s" and ?e = "made fr ty i aty pl cmd None"
  note g = get_replays [OF inv]
  have rec: "record_new cls (createEvent fr ty i aty pl (cmd_opts cmd)) ?v = Inr (record_event cls ?e ?v)"
    by (simp add: createEvent_made i ty record_new_def)
  have nx: "ag_next ?v = ag_seq ?v" by (simp add: g)
  note f = record_event_fields [of ?e ?v cls, OF _ nx, simplified, unfolded g, folded e_def]
  have inv': "agg_inv cls s (record_event cls ?e ?v)" by (rule record_agg_inv [OF get_agg_inv [OF inv]]) simp_all
  have fresh: "agg_fresh s (record_event cls ?e ?v)"
    by (rule record_fresh [OF get_agg_inv [OF inv] get_fresh [OF inv]]) simp
  let ?v' = "record_event cls ?e ?v"
  have id: "ag_id ?v' = i" and unc: "uncommitted ?v' = [e]" and st: "ag_state ?v' = cls_mutate cls e (replay cls (stream_of s i))"
    using f by simp_all
  have id_e: "eventId e = uuidv7 fr" by (simp add: e_def)
  have "stream_inv cls (ag_id ?v') rp s" "uncommitted ?v' \<noteq> []" "\<not> batch_seen (uncommitted ?v') s"
    using inv new by (simp_all add: id unc batch_seen_def id_e)
  then obtain rp' s' where "repo_save cls cfg now ?v' rp s = Inr (uncommitted ?v', markCommitted ?v', rp', s')"
      "stream_of s' = (stream_of s)(ag_id ?v' := stream_of s (ag_id ?v') @ uncommitted ?v')"
      "set (storeIds s') = set (storeIds s) \<union> eventId ` set (uncommitted ?v')"
      "\<And>cfg'. ag_state (repo_get cls cfg' (ag_id ?v') s') = ag_state ?v'"
    using commit [OF _ inv' fresh] by metis
  with that rec show thesis by (simp add: id unc st g id_e)
qed

end

text \<open>The same for the world of the handlers.\<close>

lemma vehicle_one:
  assumes w: "reach_world cfg is_room w" "\<not> is_room c" and c: "c \<noteq> []" and ty: "ty \<noteq> []"
    and new: "uuidv7 fr \<notin> set (storeIds (w_store w))"
    and e_def: "e = made fr ty c AggregateTypes_Vehicle pl cmd (Some (stream_len w c + 1))"
  obtains w' where
    "record_and_save cfg env (createEvent fr ty c AggregateTypes_Vehicle pl (cmd_opts cmd))
       (repo_get VehicleAggregate cfg c (w_store w)) w = (Inr [e], w')"
    "reach_world cfg is_room w'" "vstate cfg c w' = vehicle_mutate e (vstate cfg c w)"
    "stream_of (w_store w') = (stream_of (w_store w))(c := stream_of (w_store w) c @ [e])"
    "set (storeIds (w_store w')) = insert (uuidv7 fr) (set (storeIds (w_store w)))"
proof -
  obtain v rp' s' where *:
    "record_new VehicleAggregate (createEvent fr ty c AggregateTypes_Vehicle pl (cmd_opts cmd))
       (repo_get VehicleAggregate cfg c (w_store w)) = Inr v"
    "repo_save VehicleAggregate cfg (date_now (env 0)) v (w_vehicles w) (w_store w) =
       Inr ([e], markCommitted v, rp', s')"
    "stream_of s' = (stream_of (w_store w))(c := stream_of (w_store w) c @ [e])"
    "set (storeIds s') = insert (uuidv7 fr) (set (storeIds (w_store w)))"
    "\<And>cfg'. ag_state (repo_get VehicleAggregate cfg' c s') =
       vehicle_mutate e (ag_state (repo_get VehicleAggregate cfg' c (w_store w)))"
    using vehicles.commit_one [OF reach_vehicle [OF w] c ty new e_def [unfolded stream_len_def], of cfg "date_now (env 0)"]
    by (metis mutate_simps(1))
  let ?w = "w\<lparr>w_vehicles := rp', w_store := s'\<rparr>"
  have eq: "record_and_save cfg env (createEvent fr ty c AggregateTypes_Vehicle pl (cmd_opts cmd))
       (repo_get VehicleAggregate cfg c (w_store w)) w = (Inr [e], ?w)"
    by (simp add: record_and_save_def *(1,2) save_vehicle_def)
  have "reach_world cfg is_room ?w"
    using record_and_save_reach [OF v_holds_get [OF w], unfolded repo_get_id, of env fr ty AggregateTypes_Vehicle pl "cmd_opts cmd"]
    by (simp add: eq)
  with that [OF eq] show thesis using *(3-5) by simp
qed

lemma room_one:
  assumes w: "reach_world cfg is_room w" "is_room (cmdRoom cmd)" and r: "cmdRoom cmd \<noteq> []" and ty: "ty \<noteq> []"
    and new: "uuidv7 fr \<notin> set (storeIds (w_store w))"
    and e_def: "e = made fr ty (cmdRoom cmd) AggregateTypes_Room
      (no_payload\<lparr>p_clientId := Some (cmdClient cmd), p_roomId := Some (cmdRoom cmd)\<rparr>) cmd
      (Some (stream_len w (cmdRoom cmd) + 1))"
  obtains w' where
    "mirror_on_room cfg fr ty cmd evs w = (Inr (evs @ [e]), w')"
    "reach_world cfg is_room w'" "rstate cfg (cmdRoom cmd) w' = room_mutate e (rstate cfg (cmdRoom cmd) w)"
    "stream_of (w_store w') = (stream_of (w_store w))(cmdRoom cmd := stream_of (w_store w) (cmdRoom cmd) @ [e])"
proof -
  let ?r = "cmdRoom cmd" and ?pl = "no_payload\<lparr>p_clientId := Some (cmdClient cmd), p_roomId := Some (cmdRoom cmd)\<rparr>"
  obtain v rp' s' where *:
    "record_new RoomAggregate (createEvent fr ty ?r AggregateTypes_Room ?pl (cmd_opts cmd))
       (repo_get RoomAggregate cfg ?r (w_store w)) = Inr v"
    "repo_save RoomAggregate cfg (date_now fr) v (w_rooms w) (w_store w) =
       Inr ([e], markCommitted v, rp', s')"
    "stream_of s' = (stream_of (w_store w))(?r := stream_of (w_store w) ?r @ [e])"
    "\<And>cfg'. ag_state (repo_get RoomAggregate cfg' ?r s') =
       room_mutate e (ag_state (repo_get RoomAggregate cfg' ?r (w_store w)))"
    using rooms_repo.commit_one [OF reach_room [OF w] r ty new e_def [unfolded stream_len_def], of cfg "date_now fr"]
    by (metis mutate_simps(2))
  let ?w = "w\<lparr>w_rooms := rp', w_store := s'\<rparr>"
  have eq: "mirror_on_room cfg fr ty cmd evs w = (Inr (evs @ [e]), ?w)"
    by (simp add: mirror_on_room_def *(1,2) save_room_def)
  have "reach_world cfg is_room ?w" using mirror_reach [OF w, of fr ty evs] by (simp add: eq)
  with that [OF eq] show thesis using *(3,4) by simp
qed

end
