(* ===== verification/EventProperties.thy ===== *)
theory EventProperties
  imports HandlerRuns
begin

text \<open>
  The properties of the write side: streams and snapshots, optimistic concurrency, the behaviour of
  each command handler as the state it leaves in the store, and the idempotent dispatch.
\<close>

declare map_of_eq_Some_iff [simp del] Some_eq_map_of_iff [simp del]

section \<open>Concrete runs\<close>

definition demo_cfg :: repo_config where
  "demo_cfg = \<lparr>cfg_snapshotEvery = 1, snapshotsEnabled = True\<rparr>"

definition demo_room :: "string \<Rightarrow> bool" where
  "demo_room i \<longleftrightarrow> i = ''r''"

definition demo_env :: "nat \<Rightarrow> env" where
  "demo_env n k = \<lparr>uuidv7 = replicate (Suc (2 * n + k)) (CHR ''u''), date_now = 1000 + int n,
     date_parse = (\<lambda>_. None)\<rparr>"

definition demo_cmd :: command where
  "demo_cmd = (command_base CommandTypes_JoinRoom ''cmd'' ''v'' None None)\<lparr>cmdRoom := ''r''\<rparr>"

lemma demo_cmd_fields [simp]:
  "cmdClient demo_cmd = ''v''" "cmdRoom demo_cmd = ''r''" "commandId demo_cmd = ''cmd''"
  "\<not> demo_room ''v''" "demo_room ''r''"
  by (simp_all add: demo_cmd_def command_base_def demo_room_def)

text \<open>A client joins, its snapshot is due (every event) and the timer callback writes it.\<close>

definition joined_world :: world where
  "joined_world = snd (handleJoinRoom True demo_cfg (demo_env 0) demo_cmd world_init)"

definition snapshot_world :: world where
  "snapshot_world = (case snapshot_write 0 (w_vehicles joined_world) (w_store joined_world) of
     (rp, s) \<Rightarrow> joined_world\<lparr>w_vehicles := rp, w_store := s\<rparr>)"

lemma reach_write:
  assumes "reach_world cfg is_room w" "snapshot_write k (w_vehicles w) (w_store w) = (rp, s)"
  shows "reach_world cfg is_room (w\<lparr>w_vehicles := rp, w_store := s\<rparr>)"
proof -
  from assms(1) obtain st where st: "es_reachable cfg is_room st" "es_world st = w" by (auto simp: reach_world_def)
  have "es_step cfg is_room st (st\<lparr>es_world := (es_world st)\<lparr>w_vehicles := rp, w_store := s\<rparr>\<rparr>)"
    using assms(2) st(2) by (intro v_write) simp
  from es_reachable_step [OF st(1) this] st(2) show ?thesis
    unfolding reach_world_def by (intro exI [of _ "st\<lparr>es_world := w\<lparr>w_vehicles := rp, w_store := s\<rparr>\<rparr>"]) simp
qed

lemma joined_reach: "reach_world demo_cfg demo_room joined_world"
  unfolding joined_world_def by (rule handlers_reach(2) [OF reach_init]) simp_all

lemma snapshot_reach: "reach_world demo_cfg demo_room snapshot_world"
  unfolding snapshot_world_def by (cases "snapshot_write 0 (w_vehicles joined_world) (w_store joined_world)")
    (auto intro: reach_write [OF joined_reach])

section \<open>Streams and snapshots\<close>

lemma vstate_replay:
  assumes "reach_world cfg is_room w" "\<not> is_room c"
  shows "vstate cfg' c w = replay VehicleAggregate (stream_of (w_store w) c)"
  by (rule vehicles.get_replays(1) [OF reach_vehicle [OF assms]])

lemma rstate_replay:
  assumes "reach_world cfg is_room w" "is_room r"
  shows "rstate cfg' r w = replay RoomAggregate (stream_of (w_store w) r)"
  by (rule rooms_repo.get_replays(1) [OF reach_room [OF assms]])

text \<open>
  C4. Snapshots are transparent: in every reachable world, whatever handlers and snapshot writes ran
  and however they interleaved, loading an aggregate with any snapshot settings gives the state and
  the version that replaying its whole stream gives.
\<close>

theorem snapshot_transparent:
  assumes "reach_world cfg is_room w"
  shows "(\<not> is_room i \<longrightarrow>
      ag_state (repo_get VehicleAggregate cfg' i (w_store w)) = replay VehicleAggregate (stream_of (w_store w) i)
      \<and> ag_seq (repo_get VehicleAggregate cfg' i (w_store w)) = int (length (stream_of (w_store w) i))
      \<and> ag_next (repo_get VehicleAggregate cfg' i (w_store w)) = int (length (stream_of (w_store w) i)))
    \<and> (is_room i \<longrightarrow>
      ag_state (repo_get RoomAggregate cfg' i (w_store w)) = replay RoomAggregate (stream_of (w_store w) i)
      \<and> ag_seq (repo_get RoomAggregate cfg' i (w_store w)) = int (length (stream_of (w_store w) i))
      \<and> ag_next (repo_get RoomAggregate cfg' i (w_store w)) = int (length (stream_of (w_store w) i)))"
  using vehicles.get_replays(1-3) [OF reach_vehicle [OF assms]]
    rooms_repo.get_replays(1-3) [OF reach_room [OF assms]] by blast

theorem snapshot_transparent_witness:
  "getSnapshot ''v'' (w_store snapshot_world) \<noteq> None
    \<and> vstate demo_cfg ''v'' snapshot_world = replay VehicleAggregate (stream_of (w_store snapshot_world) ''v'')"
proof
  have "(getSnapshot ''v'' (w_store snapshot_world) = None) = False" by code_simp
  then show "getSnapshot ''v'' (w_store snapshot_world) \<noteq> None" by blast
  show "vstate demo_cfg ''v'' snapshot_world = replay VehicleAggregate (stream_of (w_store snapshot_world) ''v'')"
    using snapshot_transparent [OF snapshot_reach, of "''v''" demo_cfg] by simp
qed

lemma stream_numbered:
  "reach_world cfg is_room w \<Longrightarrow> numbered 0 (stream_of (w_store w) i)"
  using reach_vehicle [of cfg is_room w i] reach_room [of cfg is_room w i]
  by (cases "is_room i") (simp_all add: stream_inv_def)

lemma numbered_range:
  assumes "numbered 0 es"
  shows "map seq_of (filter (\<lambda>e. a \<le> seq_of e \<and> seq_of e \<le> b) es) = [max 1 a..min b (int (length es))]"
proof -
  have "map seq_of (filter (\<lambda>e. a \<le> seq_of e \<and> seq_of e \<le> b) es) =
      filter (\<lambda>n. a \<le> n \<and> n \<le> b) [1..int (length es)]"
    using assms filter_map [of "\<lambda>n. a \<le> n \<and> n \<le> b" seq_of es] by (simp add: numbered_def comp_def)
  also have "\<dots> = [max 1 a..min b (int (length es))]"
    by (rule sorted_distinct_set_unique) (auto simp: sorted_wrt_filter)
  finally show ?thesis .
qed

text \<open>
  Streams have no gaps: in every reachable world a stream is numbered 1, 2, 3 and so on, it is
  exactly the part of the global log that belongs to it, and a range query returns the events of
  the asked range, in order and each once.
\<close>

theorem streams_gap_free:
  assumes "reach_world cfg is_room w"
  shows "map seq_of (stream_of (w_store w) i) = [1..int (length (stream_of (w_store w) i))]
    \<and> stream_of (w_store w) i = filter (\<lambda>e. aggregateId e = i) (allEvents (w_store w))
    \<and> map seq_of (getEvents i (Some a) (Some b) (w_store w))
        = [max 1 a..min b (int (length (stream_of (w_store w) i)))]"
proof -
  note num = stream_numbered [OF assms, of i]
  from assms obtain st where "es_reachable cfg is_room st" "es_world st = w" by (auto simp: reach_world_def)
  then have "log_inv (w_store w)" using es_invD(3) es_reachable_inv by blast
  then show ?thesis
    using num numbered_range [OF num, of a b] by (simp add: log_inv_def numbered_def getEvents_def)
qed

theorem streams_gap_free_witness:
  "length (allEvents (w_store joined_world)) = 2
    \<and> map seq_of (stream_of (w_store joined_world) ''v'') = [1..int (length (stream_of (w_store joined_world) ''v''))]"
proof
  show "length (allEvents (w_store joined_world)) = 2" by code_simp
  show "map seq_of (stream_of (w_store joined_world) ''v'') = [1..int (length (stream_of (w_store joined_world) ''v''))]"
    using streams_gap_free [OF joined_reach, of "''v''"] by blast
qed

section \<open>Optimistic concurrency\<close>

lemma loaded_inv:
  assumes "es_reachable cfg is_room st" "k < length (vloaded st)"
  shows "agg_inv VehicleAggregate (w_store (es_world st)) (vloaded st ! k)"
    "stream_inv VehicleAggregate (ag_id (vloaded st ! k)) (w_vehicles (es_world st)) (w_store (es_world st))"
    "numbered 0 (stream_of (w_store (es_world st)) (ag_id (vloaded st ! k)))"
proof -
  note side = es_invD(1) [OF es_reachable_inv [OF assms(1)]]
  show "agg_inv VehicleAggregate (w_store (es_world st)) (vloaded st ! k)"
    using side_invD(3) [OF side] assms(2) by simp
  show inv: "stream_inv VehicleAggregate (ag_id (vloaded st ! k)) (w_vehicles (es_world st)) (w_store (es_world st))"
    using side_invD(1,2) [OF side] assms(2) by simp
  then show "numbered 0 (stream_of (w_store (es_world st)) (ag_id (vloaded st ! k)))" by (simp add: stream_inv_def)
qed

text \<open>Two handlers of the same vehicle, both with an unsaved event.\<close>

definition race_event :: "nat \<Rightarrow> event" where
  "race_event n = made (demo_env n 0) EventTypes_RoomJoined ''v'' AggregateTypes_Vehicle
     (no_payload\<lparr>p_roomId := Some ''r''\<rparr>) demo_cmd None"

definition race_agg :: "vehicle agg" where
  "race_agg = repo_get VehicleAggregate demo_cfg ''v'' (w_store world_init)"

definition race :: es where
  "race = es_init\<lparr>vloaded := [record_event VehicleAggregate (race_event 0) race_agg,
                             record_event VehicleAggregate (race_event 1) race_agg]\<rparr>"

lemma race_reachable: "es_reachable demo_cfg demo_room race"
proof -
  let ?R = "\<lambda>vs. es_reachable demo_cfg demo_room (es_init\<lparr>vloaded := vs\<rparr>)"
  have init: "?R []" by (simp add: es_reachable_def es_init_def)
  have load: "?R vs \<Longrightarrow> ?R (vs @ [race_agg])" for vs
    using v_load [of demo_room "''v''" demo_cfg "es_init\<lparr>vloaded := vs\<rparr>"]
    by (auto intro: es_reachable_step simp: race_agg_def es_init_def)
  have rec: "?R (vs[k := record_event VehicleAggregate (race_event n) race_agg])"
    if "?R vs" "k < length vs" "vs ! k = race_agg" for vs k n
    using v_record [of k "es_init\<lparr>vloaded := vs\<rparr>" "race_event n" demo_cfg demo_room] that
    by (auto intro: es_reachable_step simp: race_event_def race_agg_def)
  from rec [OF rec [OF load [OF load [OF init]], of 0 0], of 1 1] show ?thesis
    by (simp add: race_def)
qed

lemma race_eval:
  "length (vloaded race) = 2" "uncommitted (vloaded race ! 0) \<noteq> []" "uncommitted (vloaded race ! 1) \<noteq> []"
  "ag_id (vloaded race ! 1) = ag_id (vloaded race ! 0)"
proof -
  show "length (vloaded race) = 2" by (simp add: race_def)
  have "(uncommitted (vloaded race ! 0) = []) = False" "(uncommitted (vloaded race ! 1) = []) = False"
    by code_simp+
  then show "uncommitted (vloaded race ! 0) \<noteq> []" "uncommitted (vloaded race ! 1) \<noteq> []" by blast+
  show "ag_id (vloaded race ! 1) = ag_id (vloaded race ! 0)" by code_simp
qed

lemma race_first_accepted:
  obtains r ag rp s where "repo_save VehicleAggregate demo_cfg 0 (vloaded race ! 0)
    (w_vehicles (es_world race)) (w_store (es_world race)) = Inr (r, ag, rp, s)"
proof -
  have "isl (repo_save VehicleAggregate demo_cfg 0 (vloaded race ! 0)
    (w_vehicles (es_world race)) (w_store (es_world race))) = False" by code_simp
  with that show thesis
    by (cases "repo_save VehicleAggregate demo_cfg 0 (vloaded race ! 0)
      (w_vehicles (es_world race)) (w_store (es_world race))") auto
qed

text \<open>
  A save is accepted exactly when the aggregate has read the whole current stream and none of its
  event ids was used before; an accepted save appends exactly its uncommitted events to its own
  stream and to the global log, and every other stream stays as it was.
\<close>

theorem save_exactly_when_fresh:
  assumes "es_reachable cfg is_room st" "k < length (vloaded st)" "uncommitted (vloaded st ! k) \<noteq> []"
  shows "((\<exists>y. repo_save VehicleAggregate cfg now (vloaded st ! k) (w_vehicles (es_world st)) (w_store (es_world st)) = Inr y)
      \<longleftrightarrow> agg_fresh (w_store (es_world st)) (vloaded st ! k)
          \<and> \<not> batch_seen (uncommitted (vloaded st ! k)) (w_store (es_world st)))
    \<and> (repo_save VehicleAggregate cfg now (vloaded st ! k) (w_vehicles (es_world st)) (w_store (es_world st))
          = Inr (r, ag, rp, s) \<longrightarrow>
        r = uncommitted (vloaded st ! k) \<and> uncommitted ag = []
        \<and> stream_of s = (stream_of (w_store (es_world st)))
            (ag_id (vloaded st ! k) := stream_of (w_store (es_world st)) (ag_id (vloaded st ! k)) @ r)
        \<and> allEvents s = allEvents (w_store (es_world st)) @ r)"
proof (intro conjI impI)
  note inv = loaded_inv [OF assms(1,2)]
  show "(\<exists>y. repo_save VehicleAggregate cfg now (vloaded st ! k) (w_vehicles (es_world st)) (w_store (es_world st)) = Inr y)
      \<longleftrightarrow> agg_fresh (w_store (es_world st)) (vloaded st ! k)
          \<and> \<not> batch_seen (uncommitted (vloaded st ! k)) (w_store (es_world st))"
    by (rule save_accepted_iff [OF inv(1,3) assms(3)])
  assume "repo_save VehicleAggregate cfg now (vloaded st ! k) (w_vehicles (es_world st)) (w_store (es_world st))
          = Inr (r, ag, rp, s)"
  note eff = save_effect [OF inv(1) assms(3) this]
  show "r = uncommitted (vloaded st ! k)" "uncommitted ag = []"
    "stream_of s = (stream_of (w_store (es_world st)))
        (ag_id (vloaded st ! k) := stream_of (w_store (es_world st)) (ag_id (vloaded st ! k)) @ r)"
    "allEvents s = allEvents (w_store (es_world st)) @ r"
    using eff by (simp_all add: markCommitted_def)
qed

theorem save_exactly_when_fresh_witness:
  "agg_fresh (w_store (es_world race)) (vloaded race ! 0)
    \<and> \<not> batch_seen (uncommitted (vloaded race ! 0)) (w_store (es_world race))"
proof (rule race_first_accepted)
  fix r ag rp s
  assume "repo_save VehicleAggregate demo_cfg 0 (vloaded race ! 0)
    (w_vehicles (es_world race)) (w_store (es_world race)) = Inr (r, ag, rp, s)"
  moreover have "0 < length (vloaded race)" by (simp add: race_eval(1))
  ultimately show ?thesis
    using conjunct1 [OF save_exactly_when_fresh [OF race_reachable _ race_eval(2), where now = 0]] by blast
qed

text \<open>
  C12. No lost update: when two handlers hold the same vehicle with unsaved changes and one of them is
  saved first, the save of the other is rejected, and the stream holds exactly the first one's events.
\<close>

theorem no_lost_update:
  assumes "es_reachable cfg is_room st" "k < length (vloaded st)" "j < length (vloaded st)"
    "ag_id (vloaded st ! j) = ag_id (vloaded st ! k)"
    "uncommitted (vloaded st ! k) \<noteq> []" "uncommitted (vloaded st ! j) \<noteq> []"
    "repo_save VehicleAggregate cfg now (vloaded st ! k) (w_vehicles (es_world st)) (w_store (es_world st))
      = Inr (r, ag, rp, s)"
  shows "(\<exists>err. repo_save VehicleAggregate cfg now' (vloaded st ! j) rp s = Inl err)
    \<and> stream_of s (ag_id (vloaded st ! k)) =
        stream_of (w_store (es_world st)) (ag_id (vloaded st ! k)) @ uncommitted (vloaded st ! k)"
proof -
  let ?s = "w_store (es_world st)" and ?a = "vloaded st ! k" and ?b = "vloaded st ! j"
  note ka = loaded_inv [OF assms(1,2)] and jb = loaded_inv [OF assms(1,3)]
  note eff = save_effect [OF ka(1) assms(5,7)]
  have str: "stream_of s (ag_id ?b) = stream_of ?s (ag_id ?b) @ uncommitted ?a" using eff(3) assms(4) by simp
  have inv: "agg_inv VehicleAggregate s ?b" by (rule agg_inv_append [OF jb(1) str])
  have num: "numbered 0 (stream_of s (ag_id ?b))"
    using save_own(1) [OF ka(1,2) assms(7)] assms(4) by simp
  from jb(1) obtain n where "n \<le> length (stream_of ?s (ag_id ?b))" "ag_seq ?b = int n + int (length (uncommitted ?b))"
    by (auto simp: agg_inv_def)
  moreover have "0 < length (uncommitted ?a)" using assms(5) by simp
  ultimately have "\<not> agg_fresh s ?b" unfolding agg_fresh_def str by (simp del: length_greater_0_conv)
  then have "\<nexists>y. repo_save VehicleAggregate cfg now' ?b rp s = Inr y"
    using save_accepted_iff [OF inv num assms(6)] by blast
  then show ?thesis using eff(3) by (cases "repo_save VehicleAggregate cfg now' ?b rp s") auto
qed

theorem no_lost_update_witness:
  "\<exists>r ag rp s err. repo_save VehicleAggregate demo_cfg 0 (vloaded race ! 0)
      (w_vehicles (es_world race)) (w_store (es_world race)) = Inr (r, ag, rp, s)
    \<and> repo_save VehicleAggregate demo_cfg 0 (vloaded race ! 1) rp s = Inl err"
proof (rule race_first_accepted)
  fix r ag rp s
  assume save: "repo_save VehicleAggregate demo_cfg 0 (vloaded race ! 0)
    (w_vehicles (es_world race)) (w_store (es_world race)) = Inr (r, ag, rp, s)"
  with no_lost_update [OF race_reachable _ _ _ _ _ save, of 1 0] race_eval show ?thesis by auto
qed

section \<open>Command handlers\<close>

lemma v_rooms_joined:
  "baseEventType (eventType e) = ''room_joined'' \<Longrightarrow>
     v_rooms (vehicle_mutate e v) = js_add (p_roomId (body e)) (v_rooms v)"
  by (simp add: vehicle_mutate_def Let_def)

lemma v_left:
  assumes "baseEventType (eventType e) = ''room_left''"
  shows "v_rooms (vehicle_mutate e v) = removeAll (p_roomId (body e)) (v_rooms v)"
    "v_ackedSeq (vehicle_mutate e v) = js_delete (p_roomId (body e)) (v_ackedSeq v)"
  using assms by (simp_all add: vehicle_mutate_def Let_def)

lemma v_acked:
  "baseEventType (eventType e) = ''message_ack'' \<Longrightarrow>
     v_ackedSeq (vehicle_mutate e v) = js_set (p_roomId (body e)) (p_seq (body e)) (v_ackedSeq v)"
  by (simp add: vehicle_mutate_def Let_def)

text \<open>What the vehicle half and the room half of a join or leave do, put together.\<close>

lemma mirrored:
  assumes w1: "reach_world cfg is_room w1" and ids: "\<not> is_room (cmdClient cmd)" "is_room (cmdRoom cmd)"
    and r: "cmdRoom cmd \<noteq> []" and ty: "ty \<noteq> []" and new: "uuidv7 fr \<notin> set (storeIds (w_store w1))"
  obtains e w2 where "mirror_on_room cfg fr ty cmd evs w1 = (Inr (evs @ [e]), w2)" "reach_world cfg is_room w2"
    "vstate cfg (cmdClient cmd) w2 = vstate cfg (cmdClient cmd) w1"
    "rstate cfg (cmdRoom cmd) w2 = room_mutate e (rstate cfg (cmdRoom cmd) w1)"
    "eventType e = ty" "event_client e = cmdClient cmd"
proof -
  define e where "e = made fr ty (cmdRoom cmd) AggregateTypes_Room
      (no_payload\<lparr>p_clientId := Some (cmdClient cmd), p_roomId := Some (cmdRoom cmd)\<rparr>) cmd
      (Some (stream_len w1 (cmdRoom cmd) + 1))"
  obtain w2 where w2: "mirror_on_room cfg fr ty cmd evs w1 = (Inr (evs @ [e]), w2)"
    "reach_world cfg is_room w2" "rstate cfg (cmdRoom cmd) w2 = room_mutate e (rstate cfg (cmdRoom cmd) w1)"
    "stream_of (w_store w2) = (stream_of (w_store w1))(cmdRoom cmd := stream_of (w_store w1) (cmdRoom cmd) @ [e])"
    using room_one [OF w1 ids(2) r ty new e_def] by metis
  have "cmdClient cmd \<noteq> cmdRoom cmd" using ids by auto
  then have "vstate cfg (cmdClient cmd) w2 = vstate cfg (cmdClient cmd) w1"
    by (simp add: vstate_replay [OF w2(2) ids(1)] vstate_replay [OF w1 ids(1)] w2(4))
  with that [of e] w2(1-3) show thesis by (simp add: event_client_def e_def)
qed

text \<open>
  Join: a client that joins a room is, after the command, a member in both write models, the
  vehicle's and the room's; no other room of the vehicle and no other member of the room changes.
  A re-join records no vehicle event, only the mirrored room event.
\<close>

theorem join_handler:
  assumes "reach_world cfg is_room w" "\<not> is_room (cmdClient cmd)" "is_room (cmdRoom cmd)"
    "cmdClient cmd \<noteq> []" "cmdRoom cmd \<noteq> []"
    "uuidv7 (env 0) \<notin> set (storeIds (w_store w))" "uuidv7 (env 1) \<notin> set (storeIds (w_store w))"
    "uuidv7 (env 0) \<noteq> uuidv7 (env 1)"
  shows "\<exists>evs w'. handleJoinRoom True cfg env cmd w = (Inr evs, w') \<and> reach_world cfg is_room w'
    \<and> set (v_rooms (vstate cfg (cmdClient cmd) w')) = insert (Some (cmdRoom cmd)) (set (v_rooms (vstate cfg (cmdClient cmd) w)))
    \<and> set (ra_members (rstate cfg (cmdRoom cmd) w')) = insert (cmdClient cmd) (set (ra_members (rstate cfg (cmdRoom cmd) w)))
    \<and> length evs = (if Some (cmdRoom cmd) \<in> set (v_rooms (vstate cfg (cmdClient cmd) w)) then 1 else 2)"
proof -
  let ?c = "cmdClient cmd" and ?r = "cmdRoom cmd"
  note R = mirrored [where fr = "env 1" and ty = EventTypes_RoomJoined, OF _ assms(2,3,5) event_types_not_Nil(2)]
  have room: "set (ra_members (room_mutate e x)) = insert ?c (set (ra_members x))"
    if "eventType e = EventTypes_RoomJoined" "event_client e = ?c" for e x
    using that by (simp add: room_mutate_def Let_def)
  show ?thesis
  proof (cases "Some ?r \<in> set (v_rooms (vstate cfg ?c w))")
    case True
    obtain e w2 where "mirror_on_room cfg (env 1) EventTypes_RoomJoined cmd [] w = (Inr ([] @ [e]), w2)"
        "reach_world cfg is_room w2" "vstate cfg ?c w2 = vstate cfg ?c w"
        "rstate cfg ?r w2 = room_mutate e (rstate cfg ?r w)"
        "eventType e = EventTypes_RoomJoined" "event_client e = ?c"
      using R [OF assms(1,7)] by metis
    with True room show ?thesis by (simp add: handleJoinRoom_def insert_absorb)
  next
    case False
    obtain e1 w1 where w1: "record_and_save cfg env (RoomJoinedEvent (env 0) ?c ?r (cmd_opts cmd))
          (repo_get VehicleAggregate cfg ?c (w_store w)) w = (Inr [e1], w1)" "reach_world cfg is_room w1"
        "v_rooms (vstate cfg ?c w1) = js_add (Some ?r) (v_rooms (vstate cfg ?c w))"
        "set (storeIds (w_store w1)) = insert (uuidv7 (env 0)) (set (storeIds (w_store w)))"
        "stream_of (w_store w1) ?r = stream_of (w_store w) ?r"
    proof -
      have ne: "?c \<noteq> ?r" using assms(2,3) by auto
      show thesis
        by (rule vehicle_one [OF assms(1,2,4) event_types_not_Nil(2) assms(6) refl,
              of env "no_payload\<lparr>p_roomId := Some ?r\<rparr>" cmd])
           (use that ne in \<open>simp add: RoomJoinedEvent_def v_rooms_joined\<close>)
    qed
    obtain e w2 where "mirror_on_room cfg (env 1) EventTypes_RoomJoined cmd [e1] w1 = (Inr ([e1] @ [e]), w2)"
        "reach_world cfg is_room w2" "vstate cfg ?c w2 = vstate cfg ?c w1"
        "rstate cfg ?r w2 = room_mutate e (rstate cfg ?r w1)"
        "eventType e = EventTypes_RoomJoined" "event_client e = ?c"
      using R [OF w1(2), of "[e1]"] w1(4) assms(7,8) by auto
    moreover have "rstate cfg ?r w1 = rstate cfg ?r w"
      by (simp add: rstate_replay [OF w1(2) assms(3)] rstate_replay [OF assms(1,3)] w1(5))
    ultimately show ?thesis using False room w1(1,3)
      by (simp add: handleJoinRoom_def record_and_save_def Let_def)
  qed
qed

lemma demo_env_unused:
  "uuidv7 (demo_env n k) \<notin> set (storeIds (w_store world_init))"
  "uuidv7 (demo_env n 0) \<noteq> uuidv7 (demo_env n 1)"
  by (simp_all add: world_init_def store_init_def demo_env_def)

theorem join_handler_witness:
  "\<exists>evs w'. handleJoinRoom True demo_cfg (demo_env 0) demo_cmd world_init = (Inr evs, w')
    \<and> Some ''r'' \<in> set (v_rooms (vstate demo_cfg ''v'' w')) \<and> ''v'' \<in> set (ra_members (rstate demo_cfg ''r'' w'))"
  using join_handler [OF reach_init [of demo_cfg demo_room], of demo_cmd "demo_env 0"] demo_env_unused by auto

text \<open>
  Leave: a client that leaves a room is, after the command, a member in neither write model and
  its acknowledgement position in that room is forgotten; no other room and no other member
  changes. Leaving a room the client is not in records no vehicle event.
\<close>

theorem leave_handler:
  assumes "reach_world cfg is_room w" "\<not> is_room (cmdClient cmd)" "is_room (cmdRoom cmd)"
    "cmdClient cmd \<noteq> []" "cmdRoom cmd \<noteq> []"
    "uuidv7 (env 0) \<notin> set (storeIds (w_store w))" "uuidv7 (env 1) \<notin> set (storeIds (w_store w))"
    "uuidv7 (env 0) \<noteq> uuidv7 (env 1)"
  shows "\<exists>evs w'. handleLeaveRoom True cfg env cmd w = (Inr evs, w') \<and> reach_world cfg is_room w'
    \<and> set (v_rooms (vstate cfg (cmdClient cmd) w')) = set (v_rooms (vstate cfg (cmdClient cmd) w)) - {Some (cmdRoom cmd)}
    \<and> set (ra_members (rstate cfg (cmdRoom cmd) w')) = set (ra_members (rstate cfg (cmdRoom cmd) w)) - {cmdClient cmd}
    \<and> (if Some (cmdRoom cmd) \<in> set (v_rooms (vstate cfg (cmdClient cmd) w))
       then length evs = 2 \<and> js_get (v_ackedSeq (vstate cfg (cmdClient cmd) w')) (Some (cmdRoom cmd)) = None
       else length evs = 1)"
proof -
  let ?c = "cmdClient cmd" and ?r = "cmdRoom cmd"
  note R = mirrored [where fr = "env 1" and ty = EventTypes_RoomLeft, OF _ assms(2,3,5) event_types_not_Nil(3)]
  have room: "set (ra_members (room_mutate e x)) = set (ra_members x) - {?c}"
    if "eventType e = EventTypes_RoomLeft" "event_client e = ?c" for e x
    using that by (simp add: room_mutate_def Let_def)
  show ?thesis
  proof (cases "Some ?r \<in> set (v_rooms (vstate cfg ?c w))")
    case False
    obtain e w2 where "mirror_on_room cfg (env 1) EventTypes_RoomLeft cmd [] w = (Inr ([] @ [e]), w2)"
        "reach_world cfg is_room w2" "vstate cfg ?c w2 = vstate cfg ?c w"
        "rstate cfg ?r w2 = room_mutate e (rstate cfg ?r w)"
        "eventType e = EventTypes_RoomLeft" "event_client e = ?c"
      using R [OF assms(1,7)] by metis
    with False room show ?thesis by (simp add: handleLeaveRoom_def)
  next
    case True
    obtain e1 w1 where w1: "record_and_save cfg env (RoomLeftEvent (env 0) ?c ?r (cmd_opts cmd))
          (repo_get VehicleAggregate cfg ?c (w_store w)) w = (Inr [e1], w1)" "reach_world cfg is_room w1"
        "v_rooms (vstate cfg ?c w1) = removeAll (Some ?r) (v_rooms (vstate cfg ?c w))"
        "v_ackedSeq (vstate cfg ?c w1) = js_delete (Some ?r) (v_ackedSeq (vstate cfg ?c w))"
        "set (storeIds (w_store w1)) = insert (uuidv7 (env 0)) (set (storeIds (w_store w)))"
        "stream_of (w_store w1) ?r = stream_of (w_store w) ?r"
    proof -
      have ne: "?c \<noteq> ?r" using assms(2,3) by auto
      show thesis
        by (rule vehicle_one [OF assms(1,2,4) event_types_not_Nil(3) assms(6) refl,
              of env "no_payload\<lparr>p_roomId := Some ?r\<rparr>" cmd])
           (use that ne in \<open>simp add: RoomLeftEvent_def v_left\<close>)
    qed
    obtain e w2 where "mirror_on_room cfg (env 1) EventTypes_RoomLeft cmd [e1] w1 = (Inr ([e1] @ [e]), w2)"
        "reach_world cfg is_room w2" "vstate cfg ?c w2 = vstate cfg ?c w1"
        "rstate cfg ?r w2 = room_mutate e (rstate cfg ?r w1)"
        "eventType e = EventTypes_RoomLeft" "event_client e = ?c"
      using R [OF w1(2), of "[e1]"] w1(5) assms(7,8) by auto
    moreover have "rstate cfg ?r w1 = rstate cfg ?r w"
      by (simp add: rstate_replay [OF w1(2) assms(3)] rstate_replay [OF assms(1,3)] w1(6))
    ultimately show ?thesis using True room w1(1,3,4)
      by (simp add: handleLeaveRoom_def record_and_save_def Let_def)
  qed
qed

theorem leave_handler_witness:
  "\<exists>evs w'. handleLeaveRoom True demo_cfg (demo_env 1) demo_cmd joined_world = (Inr evs, w') \<and> length evs = 2
    \<and> Some ''r'' \<notin> set (v_rooms (vstate demo_cfg ''v'' w')) \<and> ''v'' \<notin> set (ra_members (rstate demo_cfg ''r'' w'))"
proof -
  have "Some ''r'' \<in> set (v_rooms (vstate demo_cfg ''v'' joined_world))" by code_simp
  moreover have "uuidv7 (demo_env 1 k) \<notin> set (storeIds (w_store joined_world))" if "k < 2" for k
  proof -
    have "storeIds (w_store joined_world) = [''u'', ''uu'']" by code_simp
    then show ?thesis using that by (auto simp: demo_env_def less_2_cases_iff numeral_eq_Suc)
  qed
  ultimately show ?thesis
    using leave_handler [OF joined_reach, of demo_cmd "demo_env 1"] demo_env_unused(2) by auto
qed

text \<open>
  Acknowledgements only move forward: an acknowledgement sets the vehicle's position in the room
  to the maximum of the old position and the acknowledged number and leaves the other rooms
  alone; a duplicate or late one records nothing and does not touch the store.
\<close>

theorem ack_handler:
  assumes "reach_world cfg is_room w" "\<not> is_room (cmdClient cmd)" "cmdClient cmd \<noteq> []"
    "\<not> cmdNegative cmd" "cmdSeq cmd = Some n" "uuidv7 (env 0) \<notin> set (storeIds (w_store w))"
  shows "\<exists>evs w'. handleAcknowledge cfg env cmd w = (Inr evs, w') \<and> reach_world cfg is_room w'
    \<and> (\<forall>r. acked_of (vstate cfg (cmdClient cmd) w') r =
          (if r = cmdRoom cmd then max (acked_of (vstate cfg (cmdClient cmd) w) r) n
           else acked_of (vstate cfg (cmdClient cmd) w) r))
    \<and> (if n \<le> acked_of (vstate cfg (cmdClient cmd) w) (cmdRoom cmd) then evs = [] \<and> w' = w else length evs = 1)"
proof (cases "n \<le> acked_of (vstate cfg (cmdClient cmd) w) (cmdRoom cmd)")
  case True
  then have "handleAcknowledge cfg env cmd w = (Inr [], w)" using assms(4,5) by (simp add: handleAcknowledge_def)
  with True assms(1) show ?thesis by (auto simp: max_def)
next
  case False
  let ?c = "cmdClient cmd" and ?r = "cmdRoom cmd"
  obtain e w' where "record_and_save cfg env (MessageAcknowledgedEvent (env 0) ?c ?r (Some n) (cmd_opts cmd))
        (repo_get VehicleAggregate cfg ?c (w_store w)) w = (Inr [e], w')" "reach_world cfg is_room w'"
      "v_ackedSeq (vstate cfg ?c w') = js_set (Some ?r) (Some n) (v_ackedSeq (vstate cfg ?c w))"
    by (rule vehicle_one [OF assms(1-3) event_types_not_Nil(8) assms(6) refl,
          of env "no_payload\<lparr>p_roomId := Some ?r, p_seq := Some n\<rparr>" cmd])
       (simp add: MessageAcknowledgedEvent_def v_acked)
  with False assms(4,5) show ?thesis by (simp add: handleAcknowledge_def acked_of_def max_def)
qed

theorem ack_handler_witness:
  "\<exists>evs w'. handleAcknowledge demo_cfg (demo_env 0) (demo_cmd\<lparr>cmdSeq := Some 7\<rparr>) world_init = (Inr evs, w')
    \<and> length evs = 1 \<and> acked_of (vstate demo_cfg ''v'' w') ''r'' = 7"
proof -
  have "acked_of (vstate demo_cfg ''v'' world_init) ''r'' = 0" by code_simp
  moreover have "\<not> cmdNegative demo_cmd" by code_simp
  ultimately show ?thesis
    using ack_handler [OF reach_init [of demo_cfg demo_room], of "demo_cmd\<lparr>cmdSeq := Some 7\<rparr>" 7 "demo_env 0"]
      demo_env_unused by auto
qed

end
