(* ===== verification/CommandProperties.thy ===== *)
theory CommandProperties
  imports EventProperties
begin

text \<open>
  The properties of the location command with its geofence evaluation, of the idempotent dispatch,
  of versioned event types and of temporal queries.
\<close>

declare map_of_eq_Some_iff [simp del] Some_eq_map_of_iff [simp del]

section \<open>Geofence crossings\<close>

definition crossings :: "real \<Rightarrow> real \<Rightarrow> fence list \<Rightarrow> vehicle \<Rightarrow> (string \<times> string option) list" where
  "crossings lat lon fs v =
     map (\<lambda>f. (if fence_inside lat lon f then EventTypes_GeofenceEntered else EventTypes_GeofenceExited, Some (fenceId f)))
       (filter (\<lambda>f. fence_inside lat lon f \<noteq> (Some (fenceId f) \<in> set (v_insideGeofences v))) fs)"

text \<open>What evaluating fences may change, and what it leaves alone.\<close>

definition same_but_fences :: "vehicle \<Rightarrow> vehicle \<Rightarrow> bool" where
  "same_but_fences v v' \<longleftrightarrow> v_location v' = v_location v \<and> v_rooms v' = v_rooms v \<and> v_ackedSeq v' = v_ackedSeq v
     \<and> v_geofences v' = v_geofences v \<and> v_roomSeqs v' = v_roomSeqs v"

definition working :: "saved store \<Rightarrow> string \<Rightarrow> vehicle agg \<Rightarrow> bool" where
  "working s c v \<longleftrightarrow> agg_inv VehicleAggregate s v \<and> agg_fresh s v \<and> ag_id v = c"

lemma working_record:
  assumes "working s c v" "c \<noteq> []" "ty \<noteq> []"
  shows "record_new VehicleAggregate (createEvent fr ty c AggregateTypes_Vehicle pl (cmd_opts cmd)) v =
      Inr (record_event VehicleAggregate (made fr ty c AggregateTypes_Vehicle pl cmd None) v)"
    "working s c (record_event VehicleAggregate (made fr ty c AggregateTypes_Vehicle pl cmd None) v)"
    "uncommitted (record_event VehicleAggregate (made fr ty c AggregateTypes_Vehicle pl cmd None) v) = uncommitted v @ [made fr ty c AggregateTypes_Vehicle pl cmd (Some (ag_seq v + 1))]"
    "ag_state (record_event VehicleAggregate (made fr ty c AggregateTypes_Vehicle pl cmd None) v) = vehicle_mutate (made fr ty c AggregateTypes_Vehicle pl cmd (Some (ag_seq v + 1))) (ag_state v)"
proof -
  let ?v = "record_event VehicleAggregate (made fr ty c AggregateTypes_Vehicle pl cmd None) v"
  have w: "agg_inv VehicleAggregate s v" "agg_fresh s v" "ag_id v = c" using assms(1) by (simp_all add: working_def)
  have nx: "ag_next v = ag_seq v" using w(1) by (auto simp: agg_inv_def)
  note f = record_event_fields [of "made fr ty c AggregateTypes_Vehicle pl cmd None" v VehicleAggregate, OF _ nx, simplified]
  show "record_new VehicleAggregate (createEvent fr ty c AggregateTypes_Vehicle pl (cmd_opts cmd)) v = Inr ?v"
    using assms by (simp add: createEvent_made record_new_def)
  show "working s c ?v"
    using record_agg_inv [OF w(1)] record_fresh [OF w(1,2)] f(1) w(3) by (simp add: working_def)
  show "uncommitted ?v = uncommitted v @ [made fr ty c AggregateTypes_Vehicle pl cmd (Some (ag_seq v + 1))]"
    "ag_state ?v = vehicle_mutate (made fr ty c AggregateTypes_Vehicle pl cmd (Some (ag_seq v + 1))) (ag_state v)"
    using f by simp_all
qed

definition crossing_of :: "event \<Rightarrow> string \<times> string option" where
  "crossing_of e = (eventType e, p_fenceId (body e))"

text \<open>One fence.\<close>

lemma cross_fence_step:
  assumes "working s (cmdClient cmd) v" "cmdClient cmd \<noteq> []"
  obtains v' cr where "cross_fence env cmd lat lon f v = Inr v'" "working s (cmdClient cmd) v'"
    "uncommitted v' = uncommitted v @ cr" "map crossing_of cr = crossings lat lon [f] (ag_state v)"
    "eventId ` set cr \<subseteq> range (\<lambda>k. uuidv7 (env k))" "same_but_fences (ag_state v) (ag_state v')"
    "\<forall>x. x \<in> set (v_insideGeofences (ag_state v')) \<longleftrightarrow>
      (if x = Some (fenceId f) then fence_inside lat lon f else x \<in> set (v_insideGeofences (ag_state v)))"
proof -
  let ?in = "fence_inside lat lon f" and ?was = "Some (fenceId f) \<in> set (v_insideGeofences (ag_state v))"
  let ?ty = "if ?in then EventTypes_GeofenceEntered else EventTypes_GeofenceExited"
  let ?pl = "no_payload\<lparr>p_fenceId := Some (fenceId f), p_roomId := fenceRoom f, p_location := Some (lat, lon)\<rparr>"
  let ?fr = "env (length (uncommitted v))"
  show thesis
  proof (cases "?in = ?was")
    case True
    then have "cross_fence env cmd lat lon f v = Inr v" by (auto simp: cross_fence_def)
    with that [of v "[]"] True assms show thesis by (auto simp: crossings_def same_but_fences_def)
  next
    case False
    have ty: "?ty \<noteq> []" by simp
    note r = working_record [OF assms ty, of ?fr ?pl cmd]
    let ?e = "made ?fr ?ty (cmdClient cmd) AggregateTypes_Vehicle ?pl cmd"
    let ?v = "record_event VehicleAggregate (?e None) v"
    have "cross_fence env cmd lat lon f v = Inr ?v"
      using False r(1) by (auto simp: cross_fence_def Let_def GeofenceEnteredEvent_def GeofenceExitedEvent_def)
    moreover have "x \<in> set (v_insideGeofences (ag_state ?v)) \<longleftrightarrow>
        (if x = Some (fenceId f) then ?in else x \<in> set (v_insideGeofences (ag_state v)))" for x
      by (simp add: r(4) vehicle_mutate_def Let_def)
    moreover have "same_but_fences (ag_state v) (ag_state ?v)"
      by (simp add: r(4) vehicle_mutate_def Let_def same_but_fences_def)
    ultimately show thesis
      using that [of ?v "[?e (Some (ag_seq v + 1))]"] r(2,3) False by (simp add: crossings_def crossing_of_def)
  qed
qed

lemma crossings_cong:
  assumes "\<And>f. f \<in> set fs \<Longrightarrow> Some (fenceId f) \<in> set (v_insideGeofences v) \<longleftrightarrow> Some (fenceId f) \<in> set (v_insideGeofences v')"
  shows "crossings lat lon fs v = crossings lat lon fs v'"
  using assms by (simp add: crossings_def cong: filter_cong)

text \<open>All fences of the vehicle, when no fence id occurs twice.\<close>

lemma cross_fences_all:
  assumes "working s (cmdClient cmd) v" "cmdClient cmd \<noteq> []" "distinct (map fenceId fs)"
  shows "\<exists>v' cr. cross_fences env cmd lat lon fs v = Inr v' \<and> working s (cmdClient cmd) v'
    \<and> uncommitted v' = uncommitted v @ cr \<and> map crossing_of cr = crossings lat lon fs (ag_state v)
    \<and> eventId ` set cr \<subseteq> range (\<lambda>k. uuidv7 (env k)) \<and> same_but_fences (ag_state v) (ag_state v')
    \<and> (\<forall>f\<in>set fs. Some (fenceId f) \<in> set (v_insideGeofences (ag_state v')) \<longleftrightarrow> fence_inside lat lon f)
    \<and> (\<forall>x. x \<notin> Some ` fenceId ` set fs \<longrightarrow>
        (x \<in> set (v_insideGeofences (ag_state v')) \<longleftrightarrow> x \<in> set (v_insideGeofences (ag_state v))))"
  using assms(1,3)
proof (induction fs arbitrary: v)
  case Nil
  then show ?case by (auto simp: crossings_def same_but_fences_def)
next
  case (Cons f fs)
  obtain v1 c1 where v1: "cross_fence env cmd lat lon f v = Inr v1" "working s (cmdClient cmd) v1"
      "uncommitted v1 = uncommitted v @ c1" "map crossing_of c1 = crossings lat lon [f] (ag_state v)"
      "eventId ` set c1 \<subseteq> range (\<lambda>k. uuidv7 (env k))" "same_but_fences (ag_state v) (ag_state v1)"
      "\<forall>x. x \<in> set (v_insideGeofences (ag_state v1)) \<longleftrightarrow>
        (if x = Some (fenceId f) then fence_inside lat lon f else x \<in> set (v_insideGeofences (ag_state v)))"
    using cross_fence_step [OF Cons.prems(1) assms(2), of env lat lon f] by blast
  from Cons.IH [OF v1(2)] Cons.prems(2) obtain v' c2 where v': "cross_fences env cmd lat lon fs v1 = Inr v'"
      "working s (cmdClient cmd) v'" "uncommitted v' = uncommitted v1 @ c2"
      "map crossing_of c2 = crossings lat lon fs (ag_state v1)"
      "eventId ` set c2 \<subseteq> range (\<lambda>k. uuidv7 (env k))" "same_but_fences (ag_state v1) (ag_state v')"
      "\<forall>f\<in>set fs. Some (fenceId f) \<in> set (v_insideGeofences (ag_state v')) \<longleftrightarrow> fence_inside lat lon f"
      "\<forall>x. x \<notin> Some ` fenceId ` set fs \<longrightarrow>
        (x \<in> set (v_insideGeofences (ag_state v')) \<longleftrightarrow> x \<in> set (v_insideGeofences (ag_state v1)))"
    by auto
  have apart: "fenceId g \<noteq> fenceId f" if "g \<in> set fs" for g
    using Cons.prems(2) imageI [OF that, of fenceId] by auto
  have "crossings lat lon fs (ag_state v1) = crossings lat lon fs (ag_state v)"
    by (rule crossings_cong) (simp add: v1(7) apart)
  then have "map crossing_of (c1 @ c2) = crossings lat lon (f # fs) (ag_state v)"
    using v1(4) v'(4) by (simp add: crossings_def)
  moreover have "Some (fenceId f) \<in> set (v_insideGeofences (ag_state v')) \<longleftrightarrow> fence_inside lat lon f"
  proof -
    have "Some (fenceId f) \<notin> Some ` fenceId ` set fs" using Cons.prems(2) by auto
    then show ?thesis using v'(8) v1(7) [rule_format, of "Some (fenceId f)"] by simp
  qed
  moreover have "x \<in> set (v_insideGeofences (ag_state v')) \<longleftrightarrow> x \<in> set (v_insideGeofences (ag_state v))"
    if "x \<notin> Some ` fenceId ` set (f # fs)" for x
    using that v'(8) v1(7) [rule_format, of x] by auto
  moreover have "same_but_fences (ag_state v) (ag_state v')"
    using v1(6) v'(6) by (simp add: same_but_fences_def)
  ultimately show ?case
    using v1(1,3,5) v'(1,2,3,5,7) by (intro exI [of _ v'] exI [of _ "c1 @ c2"]) auto
qed

lemma location_step:
  assumes w0: "working s (cmdClient cmd) v0" and c: "cmdClient cmd \<noteq> []" and new: "uncommitted v0 = []"
  obtains e v1 where
    "record_new VehicleAggregate (LocationUpdatedEvent fr (cmdClient cmd) (cmdPayload cmd) (cmd_opts cmd)) v0 = Inr v1"
    "working s (cmdClient cmd) v1" "uncommitted v1 = [e]"
    "eventType e = EventTypes_LocationUpdated" "body e = cmdPayload cmd" "eventId e = uuidv7 fr"
    "v_location (ag_state v1) = Some (cmdPayload cmd, date_now fr)"
    "v_rooms (ag_state v1) = v_rooms (ag_state v0)" "v_ackedSeq (ag_state v1) = v_ackedSeq (ag_state v0)"
    "v_geofences (ag_state v1) = v_geofences (ag_state v0)"
    "v_insideGeofences (ag_state v1) = v_insideGeofences (ag_state v0)"
proof -
  let ?e = "made fr EventTypes_LocationUpdated (cmdClient cmd) AggregateTypes_Vehicle (cmdPayload cmd) cmd"
  note r = working_record [OF w0 c event_types_not_Nil(1), of fr "cmdPayload cmd" cmd]
  show thesis
    by (rule that [OF r(1) [folded LocationUpdatedEvent_def] r(2), of "?e (Some (ag_seq v0 + 1))"])
       (simp_all add: r(3,4) new vehicle_mutate_def Let_def)
qed

text \<open>The whole handler, up to what evaluating the fences did to the recorded aggregate.\<close>

lemma publish_effect:
  assumes "reach_world cfg is_room w" "\<not> is_room (cmdClient cmd)" "cmdClient cmd \<noteq> []"
    "p_latitude (cmdPayload cmd) = Some lat" "p_longitude (cmdPayload cmd) = Some lon"
    "\<forall>k. uuidv7 (env k) \<notin> set (storeIds (w_store w))"
    "fs = concat (map snd (v_geofences (vstate cfg (cmdClient cmd) w)))" "distinct (map fenceId fs)"
  obtains e cr w' where "handlePublishLocation cfg env cmd w = (Inr (e # cr), w')"
    "eventType e = EventTypes_LocationUpdated" "body e = cmdPayload cmd"
    "map crossing_of cr = crossings lat lon fs (vstate cfg (cmdClient cmd) w)"
    "v_location (vstate cfg (cmdClient cmd) w') = Some (cmdPayload cmd, date_now (env 0))"
    "\<forall>f\<in>set fs. Some (fenceId f) \<in> set (v_insideGeofences (vstate cfg (cmdClient cmd) w')) \<longleftrightarrow> fence_inside lat lon f"
    "\<forall>x. x \<notin> Some ` fenceId ` set fs \<longrightarrow>
        (x \<in> set (v_insideGeofences (vstate cfg (cmdClient cmd) w')) \<longleftrightarrow>
         x \<in> set (v_insideGeofences (vstate cfg (cmdClient cmd) w)))"
    "v_rooms (vstate cfg (cmdClient cmd) w') = v_rooms (vstate cfg (cmdClient cmd) w)"
    "v_ackedSeq (vstate cfg (cmdClient cmd) w') = v_ackedSeq (vstate cfg (cmdClient cmd) w)"
    "v_geofences (vstate cfg (cmdClient cmd) w') = v_geofences (vstate cfg (cmdClient cmd) w)"
proof -
  let ?c = "cmdClient cmd" and ?s = "w_store w"
  let ?v0 = "repo_get VehicleAggregate cfg ?c ?s"
  note inv = reach_vehicle [OF assms(1,2)]
  have w0: "working ?s ?c ?v0" "uncommitted ?v0 = []"
    using vehicles.get_agg_inv [OF inv] vehicles.get_fresh [OF inv] vehicles.get_replays(5) [OF inv]
    by (simp_all add: working_def)
  obtain e v1 where v1: "record_new VehicleAggregate (LocationUpdatedEvent (env 0) ?c (cmdPayload cmd) (cmd_opts cmd)) ?v0 = Inr v1"
      "working ?s ?c v1" "uncommitted v1 = [e]"
      "eventType e = EventTypes_LocationUpdated" "body e = cmdPayload cmd" "eventId e = uuidv7 (env 0)"
    and s1: "v_location (ag_state v1) = Some (cmdPayload cmd, date_now (env 0))"
      "v_rooms (ag_state v1) = v_rooms (ag_state ?v0)" "v_ackedSeq (ag_state v1) = v_ackedSeq (ag_state ?v0)"
      "v_geofences (ag_state v1) = v_geofences (ag_state ?v0)"
      "v_insideGeofences (ag_state v1) = v_insideGeofences (ag_state ?v0)"
    by (rule location_step [OF w0(1) assms(3) w0(2), of "env 0"])
  obtain v2 cr where
    v2: "cross_fences env cmd lat lon fs v1 = Inr v2" "working ?s ?c v2" "uncommitted v2 = e # cr"
      "map crossing_of cr = crossings lat lon fs (ag_state v1)" "eventId ` set cr \<subseteq> range (\<lambda>k. uuidv7 (env k))"
      "same_but_fences (ag_state v1) (ag_state v2)"
      "\<forall>f\<in>set fs. Some (fenceId f) \<in> set (v_insideGeofences (ag_state v2)) \<longleftrightarrow> fence_inside lat lon f"
      "\<forall>x. x \<notin> Some ` fenceId ` set fs \<longrightarrow>
        (x \<in> set (v_insideGeofences (ag_state v2)) \<longleftrightarrow> x \<in> set (v_insideGeofences (ag_state v1)))"
    using cross_fences_all [OF v1(2) assms(3,8), of env lat lon] unfolding v1(3) append_Cons append_Nil by blast
  have "eventId x \<notin> set (storeIds ?s)" if "x \<in> set (uncommitted v2)" for x
  proof -
    have "eventId x \<in> range (\<lambda>k. uuidv7 (env k))" using that v1(6) v2(3,5) by (cases "x = e") auto
    then show ?thesis using assms(6) by auto
  qed
  then have new: "\<not> batch_seen (uncommitted v2) ?s" by (simp add: batch_seen_def)
  have agg: "agg_inv VehicleAggregate ?s v2" "agg_fresh ?s v2" "ag_id v2 = ?c" using v2(2) by (simp_all add: working_def)
  have inv2: "stream_inv VehicleAggregate (ag_id v2) (w_vehicles w) ?s" "uncommitted v2 \<noteq> []"
    using inv by (simp_all add: agg(3) v2(3))
  let ?now = "date_now (env (length (uncommitted v2)))"
  obtain rp' s' where save: "repo_save VehicleAggregate cfg ?now v2 (w_vehicles w) ?s =
        Inr (uncommitted v2, markCommitted v2, rp', s')"
      "ag_state (repo_get VehicleAggregate cfg (ag_id v2) s') = ag_state v2"
    using vehicles.commit [OF inv2(1) agg(1,2) inv2(2) new, of cfg ?now] by metis
  have saved: "save_vehicle cfg ?now v2 w = (Inr (e # cr), w\<lparr>w_vehicles := rp', w_store := s'\<rparr>)"
    unfolding save_vehicle_def save(1) by (simp add: v2(3))
  have cross: "(case (p_latitude (cmdPayload cmd), p_longitude (cmdPayload cmd)) of
        (Some lat, Some lon) \<Rightarrow> cross_fences env cmd lat lon (concat (map snd (v_geofences (ag_state v1)))) v1
      | _ \<Rightarrow> Inr v1) = Inr v2"
    by (simp only: assms(4,5) prod.case option.case s1(4) assms(7) [symmetric] v2(1))
  have eq: "handlePublishLocation cfg env cmd w = (Inr (e # cr), w\<lparr>w_vehicles := rp', w_store := s'\<rparr>)"
    unfolding handlePublishLocation_def Let_def v1(1) sum.case cross by (rule saved)
  have "crossings lat lon fs (ag_state v1) = crossings lat lon fs (ag_state ?v0)"
    by (rule crossings_cong) (simp add: s1(5))
  moreover have "v_location (ag_state v2) = v_location (ag_state v1)" "v_rooms (ag_state v2) = v_rooms (ag_state v1)"
    "v_ackedSeq (ag_state v2) = v_ackedSeq (ag_state v1)" "v_geofences (ag_state v2) = v_geofences (ag_state v1)"
    using v2(6) by (simp_all add: same_but_fences_def)
  moreover have "vstate cfg ?c (w\<lparr>w_vehicles := rp', w_store := s'\<rparr>) = ag_state v2"
    using save(2) by (simp add: agg(3))
  ultimately show thesis
    using that [OF eq v1(4,5)] v2(4,7,8) s1 by simp
qed

text \<open>
  C16. A location command records the fix and then exactly the crossings it causes, in the order of
  the vehicle's fences: an entry for each fence the vehicle was outside of and is now inside, an exit
  for each it was inside of and is now outside. Afterwards the vehicle is marked inside
  precisely the fences whose centre is within the radius of the fix, and nothing else changed.
\<close>

theorem publish_crossings:
  assumes "reach_world cfg is_room w" "\<not> is_room (cmdClient cmd)" "cmdClient cmd \<noteq> []"
    "p_latitude (cmdPayload cmd) = Some lat" "p_longitude (cmdPayload cmd) = Some lon"
    "\<forall>k. uuidv7 (env k) \<notin> set (storeIds (w_store w))"
    "fs = concat (map snd (v_geofences (vstate cfg (cmdClient cmd) w)))" "distinct (map fenceId fs)"
  shows "\<exists>e evs w'. handlePublishLocation cfg env cmd w = (Inr (e # evs), w') \<and> reach_world cfg is_room w'
    \<and> eventType e = EventTypes_LocationUpdated \<and> body e = cmdPayload cmd
    \<and> map crossing_of evs = crossings lat lon fs (vstate cfg (cmdClient cmd) w)
    \<and> v_location (vstate cfg (cmdClient cmd) w') = Some (cmdPayload cmd, date_now (env 0))
    \<and> (\<forall>f\<in>set fs. Some (fenceId f) \<in> set (v_insideGeofences (vstate cfg (cmdClient cmd) w')) \<longleftrightarrow> fence_inside lat lon f)
    \<and> (\<forall>x. x \<notin> Some ` fenceId ` set fs \<longrightarrow>
        (x \<in> set (v_insideGeofences (vstate cfg (cmdClient cmd) w')) \<longleftrightarrow>
         x \<in> set (v_insideGeofences (vstate cfg (cmdClient cmd) w))))
    \<and> v_rooms (vstate cfg (cmdClient cmd) w') = v_rooms (vstate cfg (cmdClient cmd) w)
    \<and> v_ackedSeq (vstate cfg (cmdClient cmd) w') = v_ackedSeq (vstate cfg (cmdClient cmd) w)
    \<and> v_geofences (vstate cfg (cmdClient cmd) w') = v_geofences (vstate cfg (cmdClient cmd) w)"
proof (rule publish_effect [OF assms])
  fix e cr w'
  assume "handlePublishLocation cfg env cmd w = (Inr (e # cr), w')"
  moreover from this have "reach_world cfg is_room w'" using publish_reach [OF assms(1,2), of env] by simp
  moreover assume "eventType e = EventTypes_LocationUpdated" "body e = cmdPayload cmd"
    "map crossing_of cr = crossings lat lon fs (vstate cfg (cmdClient cmd) w)"
    "v_location (vstate cfg (cmdClient cmd) w') = Some (cmdPayload cmd, date_now (env 0))"
    "\<forall>f\<in>set fs. Some (fenceId f) \<in> set (v_insideGeofences (vstate cfg (cmdClient cmd) w')) \<longleftrightarrow> fence_inside lat lon f"
    "\<forall>x. x \<notin> Some ` fenceId ` set fs \<longrightarrow>
        (x \<in> set (v_insideGeofences (vstate cfg (cmdClient cmd) w')) \<longleftrightarrow>
         x \<in> set (v_insideGeofences (vstate cfg (cmdClient cmd) w)))"
    "v_rooms (vstate cfg (cmdClient cmd) w') = v_rooms (vstate cfg (cmdClient cmd) w)"
    "v_ackedSeq (vstate cfg (cmdClient cmd) w') = v_ackedSeq (vstate cfg (cmdClient cmd) w)"
    "v_geofences (vstate cfg (cmdClient cmd) w') = v_geofences (vstate cfg (cmdClient cmd) w)"
  ultimately show ?thesis by blast
qed

text \<open>A vehicle with one fence of 100 m around the origin; the fix is the centre of the fence.\<close>

definition fence_cmd :: command where
  "fence_cmd = (command_base CommandTypes_UpdateGeofence ''cmd'' ''v'' None None)
     \<lparr>cmdRoom := ''r'', cmdFences := Some [\<lparr>fenceId = ''f'', fenceRoom = None, fenceLat = 0, fenceLon = 0, radiusM = 100\<rparr>]\<rparr>"

definition fix_cmd :: command where
  "fix_cmd = (command_base CommandTypes_PublishLocation ''cmd2'' ''v'' None None)
     \<lparr>cmdPayload := no_payload\<lparr>p_latitude := Some 0, p_longitude := Some 0\<rparr>\<rparr>"

definition fenced_world :: world where
  "fenced_world = snd (handleUpdateGeofence demo_cfg (demo_env 0) fence_cmd world_init)"

lemma fenced_reach: "reach_world demo_cfg demo_room fenced_world"
  unfolding fenced_world_def
  by (rule handlers_reach(5) [OF reach_init]) (simp_all add: fence_cmd_def command_base_def demo_room_def)

theorem publish_crossings_witness:
  "\<exists>e evs w'. handlePublishLocation demo_cfg (demo_env 1) fix_cmd fenced_world = (Inr (e # evs), w')
    \<and> map crossing_of evs = [(EventTypes_GeofenceEntered, Some ''f'')]
    \<and> Some ''f'' \<in> set (v_insideGeofences (vstate demo_cfg ''v'' w'))"
proof -
  let ?f = "\<lparr>fenceId = ''f'', fenceRoom = None, fenceLat = 0, fenceLon = 0, radiusM = 100\<rparr>"
  have ids: "storeIds (w_store fenced_world) = [''u'']" by code_simp
  have geo: "v_geofences (vstate demo_cfg ''v'' fenced_world) = [(Some ''r'', [?f])]"
    "v_insideGeofences (vstate demo_cfg ''v'' fenced_world) = []" by code_simp+
  have fresh: "\<forall>k. uuidv7 (demo_env 1 k) \<notin> set (storeIds (w_store fenced_world))"
    by (simp add: ids demo_env_def)
  have cmd: "cmdClient fix_cmd = ''v''" "p_latitude (cmdPayload fix_cmd) = Some 0" "p_longitude (cmdPayload fix_cmd) = Some 0"
    by (simp_all add: fix_cmd_def command_base_def)
  have "fence_inside 0 0 ?f" by (simp add: fence_inside_def haversineM_def toRad_def)
  then show ?thesis
    using publish_crossings [OF fenced_reach _ _ cmd(2,3) fresh, of "[?f]"]
    by (auto simp: cmd(1) geo crossings_def)
qed

section \<open>Idempotent dispatch\<close>

definition dispatch_all :: "(env \<times> command) list \<Rightarrow> 'w command_handler \<times> 'w \<Rightarrow> 'w command_handler \<times> 'w" where
  "dispatch_all cmds = fold (\<lambda>(env, cmd) (ch, w). case dispatch env cmd ch w of (_, ch', w', _) \<Rightarrow> (ch', w')) cmds"

text \<open>The entry of a command, with the number of entries cached after it.\<close>

definition cached_at :: "string \<Rightarrow> event list \<Rightarrow> nat \<Rightarrow> 'w command_handler \<Rightarrow> bool" where
  "cached_at cid evs n ch \<longleftrightarrow> wf_map (dedup ch) \<and> (\<exists>xs ys. dedup ch = xs @ (cid, evs) # ys \<and> length ys \<le> n)"

lemma cached_get: "cached_at cid evs n ch \<Longrightarrow> js_get (dedup ch) cid = Some evs"
  unfolding cached_at_def by (metis in_set_conv_decomp js_get_SomeI)

lemma cached_weaken: "cached_at cid evs n ch \<Longrightarrow> cached_at cid evs (Suc n) ch"
  unfolding cached_at_def by (meson le_SucI)

lemma cached_metric:
  "cached_at cid evs n (ch\<lparr>commands_deduplicated_total := m\<rparr>) = cached_at cid evs n ch"
  by (simp add: cached_at_def)

lemma commit_cached:
  assumes "cached_at cid evs n ch" "commandId cmd \<noteq> cid" "Suc n < dedupCacheSize ch"
  shows "cached_at cid evs (Suc n) (fst (dispatch_commit cmd events ch))"
proof -
  from assms(1) obtain xs ys where c: "wf_map (dedup ch)" "dedup ch = xs @ (cid, evs) # ys" "length ys \<le> n"
    by (auto simp: cached_at_def)
  obtain xs' ys' where set: "js_set (commandId cmd) events (dedup ch) = xs' @ (cid, evs) # ys'" "length ys' \<le> Suc (length ys)"
    using js_set_split [OF assms(2), of events xs evs ys] c(2) by metis
  have wf: "wf_map (js_set (commandId cmd) events (dedup ch))" using c(1) by simp
  have "length ys' < dedupCacheSize ch" using set(2) c(3) assms(3) by linarith
  from evict_oldest_keeps [OF wf set(1) this] obtain xs'' where
    "dedup (fst (dispatch_commit cmd events ch)) = xs'' @ (cid, evs) # ys'" by (auto simp: dispatch_commit_def)
  moreover have "wf_map (dedup (fst (dispatch_commit cmd events ch)))" using wf by (simp add: dispatch_commit_def)
  moreover have "length ys' \<le> Suc n" using set(2) c(3) by linarith
  ultimately show ?thesis unfolding cached_at_def by blast
qed

lemma dispatch_cached:
  assumes "cached_at cid evs n ch" "Suc n < dedupCacheSize ch" "dispatch env cmd ch w = (res, ch', w', ns)"
  shows "cached_at cid evs (Suc n) ch' \<and> dedupCacheSize ch' = dedupCacheSize ch"
proof (cases "js_get (dedup ch) (commandId cmd)")
  case (Some x)
  then show ?thesis
    using cached_weaken [OF assms(1)] assms(3) by (auto simp: dispatch_def dispatch_begin_def cached_metric)
next
  case None
  then have ne: "commandId cmd \<noteq> cid" using cached_get [OF assms(1)] by auto
  have "cached_at cid evs (Suc n) c \<and> dedupCacheSize c = dedupCacheSize ch"
    if "dispatch_commit cmd x ch = (c, ns)" for x c ns
    using commit_cached [OF assms(1) ne assms(2), of x] that by (auto simp: dispatch_commit_def)
  with cached_weaken [OF assms(1)] None assms(3) show ?thesis
    by (auto simp: dispatch_def dispatch_begin_def split: option.splits prod.splits sum.splits)
qed

lemma dispatch_all_cached:
  assumes "cached_at cid evs n ch" "n + length cmds < dedupCacheSize ch"
  shows "cached_at cid evs (n + length cmds) (fst (dispatch_all cmds (ch, w)))"
  using assms
proof (induction cmds arbitrary: n ch w)
  case (Cons p cmds)
  obtain env cmd where p: "p = (env, cmd)" by fastforce
  obtain res ch' w' ns where d: "dispatch env cmd ch w = (res, ch', w', ns)" by (metis prod_cases4)
  have "cached_at cid evs (Suc n) ch' \<and> dedupCacheSize ch' = dedupCacheSize ch"
    using dispatch_cached [OF Cons.prems(1) _ d] Cons.prems(2) by simp
  with Cons.IH [of "Suc n" ch' w'] Cons.prems(2) p d show ?case by (simp add: dispatch_all_def)
qed (simp add: dispatch_all_def)

text \<open>
  C17. Dispatch is idempotent: once a command was handled, dispatching its id again, after fewer other
  commands than the cache holds, returns the same events without running a handler, without touching
  the world and without notifying a subscriber.
\<close>

theorem dispatch_idempotent:
  assumes "wf_map (dedup ch)" "js_get (dedup ch) (commandId cmd) = None"
    "dispatch env cmd ch w = (Inr events, ch1, w1, ns)"
    "dispatch_all cmds (ch1, w1) = (ch2, w2)" "length cmds < dedupCacheSize ch"
    "commandId cmd' = commandId cmd"
  shows "dispatch env' cmd' ch2 w2 =
    (Inr events, ch2\<lparr>commands_deduplicated_total := commands_deduplicated_total ch2 + 1\<rparr>, w2, [])"
proof -
  from assms(2,3) have ch1: "ch1 = fst (dispatch_commit cmd events ch)"
    by (auto simp: dispatch_def dispatch_begin_def Let_def dispatch_commit_def split: option.splits prod.splits sum.splits)
  have "js_set (commandId cmd) events (dedup ch) = dedup ch @ (commandId cmd, events) # []"
    using js_set_absent [OF assms(2)] by simp
  from evict_oldest_keeps [OF _ this, of "dedupCacheSize ch"] assms(1,5)
  have "cached_at (commandId cmd) events 0 ch1" by (auto simp: ch1 cached_at_def dispatch_commit_def)
  from dispatch_all_cached [OF this, of cmds w1] assms(4,5)
  have "js_get (dedup ch2) (commandId cmd) = Some events"
    by (simp add: ch1 dispatch_commit_def cached_get)
  then show ?thesis by (simp add: dispatch_def dispatch_begin_def assms(6))
qed

definition demo_handler :: "world command_handler" where
  "demo_handler = fst (createEventSourcing demo_cfg)"

theorem dispatch_idempotent_witness:
  "\<exists>events ch1 w1 ns. dispatch (demo_env 0) demo_cmd demo_handler world_init = (Inr events, ch1, w1, ns)
    \<and> length events = 2 \<and> length ns = 1
    \<and> dispatch (demo_env 1) demo_cmd ch1 w1 =
        (Inr events, ch1\<lparr>commands_deduplicated_total := commands_deduplicated_total ch1 + 1\<rparr>, w1, [])"
proof -
  have init: "dedup demo_handler = []" "dedupCacheSize demo_handler = 10000" "subscribers demo_handler = [0]"
    "js_get (handlers demo_handler) (cmdType demo_cmd) = Some (handleJoinRoom True demo_cfg)"
    by (simp_all add: demo_handler_def createEventSourcing_def register_def subscribe_def command_handler_init_def
        CommandTypes_defs demo_cmd_def command_base_def js_add_def)
  have two: "(case fst (handleJoinRoom True demo_cfg (demo_env 0) demo_cmd world_init) of
      Inr events \<Rightarrow> length events = 2 | Inl err \<Rightarrow> False) = True" by code_simp
  then obtain events w1 where h: "handleJoinRoom True demo_cfg (demo_env 0) demo_cmd world_init = (Inr events, w1)" "length events = 2"
    by (cases "handleJoinRoom True demo_cfg (demo_env 0) demo_cmd world_init") (auto split: sum.splits)
  let ?c = "dispatch_commit demo_cmd events demo_handler"
  have "dispatch (demo_env 0) demo_cmd demo_handler world_init = (Inr events, fst ?c, w1, snd ?c)"
    by (simp add: dispatch_def dispatch_begin_def init h(1) case_prod_beta)
  moreover have "length (snd ?c) = 1" using h(2) by (auto simp: dispatch_commit_def init)
  ultimately show ?thesis
    using dispatch_idempotent [of demo_handler demo_cmd "demo_env 0" world_init events "fst ?c" w1 "snd ?c" "[]" "fst ?c" w1 demo_cmd "demo_env 1"] h(2)
    by (simp add: init dispatch_all_def)
qed

section \<open>Versioned event types\<close>

lemma lastIndexOf_absent: "CHR ''.'' \<notin> set s \<Longrightarrow> lastIndexOf ''.v'' s = None"
  by (induction s) auto

lemma lastIndexOf_last:
  "CHR ''.'' \<notin> set s \<Longrightarrow> lastIndexOf ''.v'' (b @ ''.v'' @ s) = Some (length b)"
  by (induction b) (simp_all add: lastIndexOf_absent)

lemma digits_no_dot: "list_all is_digit ds \<Longrightarrow> CHR ''.'' \<notin> set ds"
  by (auto simp: list_all_iff is_digit_def)

text \<open>
  Schema versions are transparent: the version suffix of an event type is stripped whatever its
  number, so every aggregate treats two versions of an event alike.
\<close>

theorem schema_versions_transparent:
  assumes "ds \<noteq> []" "list_all is_digit ds" "ds' \<noteq> []" "list_all is_digit ds'"
  shows "baseEventType (b @ ''.v'' @ ds) = b
    \<and> vehicle_mutate (e\<lparr>eventType := b @ ''.v'' @ ds\<rparr>) v = vehicle_mutate (e\<lparr>eventType := b @ ''.v'' @ ds'\<rparr>) v
    \<and> room_mutate (e\<lparr>eventType := b @ ''.v'' @ ds\<rparr>) r = room_mutate (e\<lparr>eventType := b @ ''.v'' @ ds'\<rparr>) r
    \<and> fleet_mutate (e\<lparr>eventType := b @ ''.v'' @ ds\<rparr>) f = fleet_mutate (e\<lparr>eventType := b @ ''.v'' @ ds'\<rparr>) f"
proof -
  have base: "baseEventType (b @ ''.v'' @ x) = b" if "x \<noteq> []" "list_all is_digit x" for x
    using that lastIndexOf_last [OF digits_no_dot [OF that(2)], of b] by (simp add: baseEventType_def)
  show ?thesis
    by (simp add: base assms vehicle_mutate_def room_mutate_def fleet_mutate_def event_client_def Let_def
        del: append_Cons append_Nil split: option.split)
qed

theorem schema_versions_transparent_witness:
  "baseEventType ''location_update.v12'' = ''location_update''"
  using schema_versions_transparent [of "''12''" "''2''" "''location_update''"] by (simp add: is_digit_def)

section \<open>Temporal queries\<close>

lemma history_get:
  assumes "stream_inv VehicleAggregate c rp s"
  shows "history (repo_get VehicleAggregate cfg c s) =
    drop (case if snapshotsEnabled cfg then getSnapshot c s else None of
            None \<Rightarrow> 0 | Some sn \<Rightarrow> nat (snapSequence sn)) (stream_of s c)"
proof -
  have num: "numbered 0 (stream_of s c)" using assms by (simp add: stream_inv_def)
  show ?thesis
  proof (cases "if snapshotsEnabled cfg then getSnapshot c s else None")
    case None
    then show ?thesis by (simp add: repo_get_def getEvents_whole [OF num])
  next
    case (Some sn)
    then have "getSnapshot c s = Some sn" by (simp split: if_splits)
    with assms obtain n where "n \<le> length (stream_of s c)" "snapSequence sn = int n"
      by (auto simp: stream_inv_def snap_of_def)
    with Some show ?thesis by (simp add: repo_get_def getEvents_from [OF num] restoreFromSnapshot_def new_agg_def)
  qed
qed

text \<open>
  A temporal query answers from the events applied since the last snapshot only: the state at an
  instant is the replay, from the empty state, of the events not later than it among those after
  the loaded snapshot. Without a snapshot that is the whole stream; with one, the events the snapshot
  covers are missing from every answer.
\<close>

theorem temporal_query:
  assumes "reach_world cfg is_room w" "\<not> is_room c"
  shows "ag_state (agg_at VehicleAggregate t (repo_get VehicleAggregate cfg' c (w_store w))) =
    replay VehicleAggregate (filter (\<lambda>e. timestamp e \<le> t)
      (drop (case if snapshotsEnabled cfg' then getSnapshot c (w_store w) else None of
               None \<Rightarrow> 0 | Some sn \<Rightarrow> nat (snapSequence sn)) (stream_of (w_store w) c)))"
  by (simp add: agg_at_def history_get [OF reach_vehicle [OF assms]] replay_def)

theorem temporal_query_witness:
  "v_rooms (vstate demo_cfg ''v'' snapshot_world) = [Some ''r'']
    \<and> v_rooms (ag_state (agg_at VehicleAggregate 2000 (repo_get VehicleAggregate demo_cfg ''v'' (w_store snapshot_world)))) = []"
proof
  show "v_rooms (vstate demo_cfg ''v'' snapshot_world) = [Some ''r'']" by code_simp
  have "map_option snapSequence (getSnapshot ''v'' (w_store snapshot_world)) = Some 1" by code_simp
  then obtain sn where sn: "getSnapshot ''v'' (w_store snapshot_world) = Some sn" "snapSequence sn = 1" by auto
  have "length (stream_of (w_store snapshot_world) ''v'') = 1" by code_simp
  then have seen: "drop 1 (stream_of (w_store snapshot_world) ''v'') = []" by simp
  have "snapshotsEnabled demo_cfg" by code_simp
  then have "ag_state (agg_at VehicleAggregate 2000 (repo_get VehicleAggregate demo_cfg ''v'' (w_store snapshot_world)))
      = replay VehicleAggregate (filter (\<lambda>e. timestamp e \<le> 2000) (drop 1 (stream_of (w_store snapshot_world) ''v'')))"
    using temporal_query [OF snapshot_reach demo_cmd_fields(4), of 2000 demo_cfg] by (simp add: sn)
  then show "v_rooms (ag_state (agg_at VehicleAggregate 2000 (repo_get VehicleAggregate demo_cfg ''v'' (w_store snapshot_world)))) = []"
    unfolding seen by (simp add: replay_def vehicle_init_def)
qed

end
