(* ===== verification/Projections.thy ===== *)
theory Projections
  imports Commands
begin

text \<open>
  The read side of \<open>src/event-sourcing.js\<close>: \<open>ProjectionManager\<close>, the four projections and
  \<open>MemoryProjectionSink\<close>.

  \<^item> A row of the vehicle view is an object built by spreading; it is a map from property names to
    values, where an explicit \<open>undefined\<close> differs from an absent property.
  \<^item> A projection is its name, its optional event filter and its handler; a handler returns whether it
    completed and the sink it leaves.
  \<^item> \<open>processEvents\<close> is one uninterrupted run. The \<open>updatedAt\<close> stamps of sequence rows are wall-clock
    values nobody reads, and are left out.
  \<^item> A \<open>ProjectionManager\<close> without \<open>markEventProcessed\<close> in its sink falls back to checkpoints; both
    sinks of the program have it.
\<close>

section \<open>MemoryProjectionSink\<close>

datatype rval = RNull | RUndef | RReal real | RInt int | RText string | RTime time | RRooms "string option list"

type_synonym row = "(string, rval) jsmap"

record violation =
  vio_clientId :: string
  vio_fenceId :: "string option"
  vio_roomId :: "string option"
  vio_type :: string
  vio_timestamp :: time
  vio_correlationId :: "string option"
  vio_eventId :: string

record seq_row =
  sq_sequence :: int
  sq_eventId :: string

record sink =
  vehicleStates :: "(string, row) jsmap"
  roomMembers :: "(string option, (string, time) jsmap) jsmap"
  geofenceViolations :: "violation list"
  sequences :: "(string, seq_row) jsmap"
  checkpoints :: "(string, string \<times> time) jsmap"
  processedEvents :: "(string, string jsset) jsmap"

definition sink_init :: sink where
  "sink_init = \<lparr>vehicleStates = [], roomMembers = [], geofenceViolations = [], sequences = [],
     checkpoints = [], processedEvents = []\<rparr>"

text \<open>\<open>{...a, ...b}\<close>\<close>

definition spread :: "row \<Rightarrow> row \<Rightarrow> row" where
  "spread a b = fold (\<lambda>(k, v). js_set k v) b a"

definition getVehicleState :: "string \<Rightarrow> sink \<Rightarrow> row option" where
  "getVehicleState c s = js_get (vehicleStates s) c"

definition upsertVehicleState :: "string \<Rightarrow> row \<Rightarrow> sink \<Rightarrow> sink" where
  "upsertVehicleState c state s =
     (let prev = (case js_get (vehicleStates s) c of Some r \<Rightarrow> r | None \<Rightarrow> [])
      in s\<lparr>vehicleStates := js_set c (spread prev state) (vehicleStates s)\<rparr>)"

definition addRoomMember :: "string option \<Rightarrow> string \<Rightarrow> time \<Rightarrow> sink \<Rightarrow> sink" where
  "addRoomMember r c joinedAt s =
     (let members = (case js_get (roomMembers s) r of Some m \<Rightarrow> m | None \<Rightarrow> [])
      in s\<lparr>roomMembers := js_set r (js_set c joinedAt members) (roomMembers s)\<rparr>)"

definition removeRoomMember :: "string option \<Rightarrow> string \<Rightarrow> sink \<Rightarrow> sink" where
  "removeRoomMember r c s =
     (case js_get (roomMembers s) r of
        None \<Rightarrow> s
      | Some m \<Rightarrow> s\<lparr>roomMembers := js_set r (js_delete c m) (roomMembers s)\<rparr>)"

definition getRoomMembers :: "string option \<Rightarrow> sink \<Rightarrow> string list" where
  "getRoomMembers r s = (case js_get (roomMembers s) r of Some m \<Rightarrow> js_keys m | None \<Rightarrow> [])"

definition addGeofenceViolation :: "violation \<Rightarrow> sink \<Rightarrow> sink" where
  "addGeofenceViolation v s = s\<lparr>geofenceViolations := geofenceViolations s @ [v]\<rparr>"

definition getGeofenceViolations :: "string \<Rightarrow> string \<Rightarrow> sink \<Rightarrow> violation list" where
  "getGeofenceViolations c ty s =
     filter (\<lambda>v. (c = [] \<or> vio_clientId v = c) \<and> (ty = [] \<or> vio_type v = ty)) (geofenceViolations s)"

definition setSequence :: "string \<Rightarrow> int \<Rightarrow> string \<Rightarrow> sink \<Rightarrow> sink" where
  "setSequence key n i s =
     (let prev = (case js_get (sequences s) key of Some q \<Rightarrow> sq_sequence q | None \<Rightarrow> 0)
      in if n \<ge> prev then s\<lparr>sequences := js_set key \<lparr>sq_sequence = n, sq_eventId = i\<rparr> (sequences s)\<rparr> else s)"

definition getSequence :: "string \<Rightarrow> sink \<Rightarrow> seq_row option" where
  "getSequence key s = js_get (sequences s) key"

definition bumpRoomSequence :: "string \<Rightarrow> string \<Rightarrow> sink \<Rightarrow> sink" where
  "bumpRoomSequence r i s =
     (let key = ''room:'' @ r;
          prev = (case js_get (sequences s) key of Some q \<Rightarrow> sq_sequence q | None \<Rightarrow> 0)
      in s\<lparr>sequences := js_set key \<lparr>sq_sequence = prev + 1, sq_eventId = i\<rparr> (sequences s)\<rparr>)"

definition setCheckpoint :: "string \<Rightarrow> string \<Rightarrow> time \<Rightarrow> sink \<Rightarrow> sink" where
  "setCheckpoint name i t s = s\<lparr>checkpoints := js_set name (i, t) (checkpoints s)\<rparr>"

definition getCheckpoint :: "string \<Rightarrow> sink \<Rightarrow> (string \<times> time) option" where
  "getCheckpoint name s = js_get (checkpoints s) name"

definition markEventProcessed :: "string \<Rightarrow> string \<Rightarrow> sink \<Rightarrow> sink" where
  "markEventProcessed name i s =
     (let ids = (case js_get (processedEvents s) name of Some ids \<Rightarrow> ids | None \<Rightarrow> [])
      in s\<lparr>processedEvents := js_set name (js_add i ids) (processedEvents s)\<rparr>)"

definition isEventProcessed :: "string \<Rightarrow> string \<Rightarrow> sink \<Rightarrow> bool" where
  "isEventProcessed name i s =
     (case js_get (processedEvents s) name of Some ids \<Rightarrow> i \<in> set ids | None \<Rightarrow> False)"

section \<open>Projections\<close>

fun nullish :: "rval option \<Rightarrow> bool" where
  "nullish None = True"
| "nullish (Some RNull) = True"
| "nullish (Some RUndef) = True"
| "nullish (Some v) = False"

text \<open>\<open>payload.x ?? prev.x ?? null\<close> and an explicit property that may be \<open>undefined\<close>.\<close>

definition keep_or :: "real option \<Rightarrow> row \<Rightarrow> string \<Rightarrow> rval" where
  "keep_or x prev k =
     (case x of Some r \<Rightarrow> RReal r
      | None \<Rightarrow> if nullish (js_get prev k) then RNull else the (js_get prev k))"

definition opt_real :: "real option \<Rightarrow> rval" where
  "opt_real x = (case x of Some r \<Rightarrow> RReal r | None \<Rightarrow> RUndef)"

definition opt_int :: "int option \<Rightarrow> rval" where
  "opt_int x = (case x of Some n \<Rightarrow> RInt n | None \<Rightarrow> RUndef)"

definition newer :: "row \<Rightarrow> event \<Rightarrow> bool" where
  "newer prev e = (case js_get prev ''locationUpdatedAt'' of Some (RTime t) \<Rightarrow> t > timestamp e | _ \<Rightarrow> False)"

definition row_rooms :: "row \<Rightarrow> string option list" where
  "row_rooms r = (case js_get r ''rooms'' of Some (RRooms xs) \<Rightarrow> xs | _ \<Rightarrow> [])"

definition location_row :: "row \<Rightarrow> event \<Rightarrow> row" where
  "location_row prev e = spread prev
     [(''clientId'', RText (aggregateId e)),
      (''latitude'', opt_real (p_latitude (body e))),
      (''longitude'', opt_real (p_longitude (body e))),
      (''altitude'', keep_or (p_altitude (body e)) prev ''altitude''),
      (''accuracy'', keep_or (p_accuracy (body e)) prev ''accuracy''),
      (''speed'', keep_or (p_speed (body e)) prev ''speed''),
      (''locationUpdatedAt'', RTime (timestamp e)),
      (''lastEventId'', RText (eventId e)),
      (''lastSequence'', opt_int (sequenceNo e))]"

definition membership_row :: "bool \<Rightarrow> row \<Rightarrow> event \<Rightarrow> row" where
  "membership_row joined state e =
     (let rooms0 = set_from (row_rooms state);
          rooms = (if joined then js_add (p_roomId (body e)) rooms0 else removeAll (p_roomId (body e)) rooms0)
      in spread state
     [(''clientId'', RText (aggregateId e)),
      (''rooms'', RRooms rooms),
      (''lastEventId'', RText (eventId e)),
      (''lastSequence'', case sequenceNo e of Some n \<Rightarrow> RInt n
         | None \<Rightarrow> (case js_get state ''lastSequence'' of Some v \<Rightarrow> v | None \<Rightarrow> RUndef))])"

definition vehicleState_handle :: "event \<Rightarrow> sink \<Rightarrow> sink" where
  "vehicleState_handle e s =
     (if aggregateType e \<noteq> AggregateTypes_Vehicle then s
      else let base = baseEventType (eventType e);
               prev = (case getVehicleState (aggregateId e) s of Some r \<Rightarrow> r | None \<Rightarrow> [])
           in if base = ''location_update'' then
                (if newer prev e then s else upsertVehicleState (aggregateId e) (location_row prev e) s)
              else if base = ''room_joined'' \<or> base = ''room_left'' then
                upsertVehicleState (aggregateId e) (membership_row (base = ''room_joined'') prev e) s
              else s)"

definition roomMembership_handle :: "event \<Rightarrow> sink \<Rightarrow> sink" where
  "roomMembership_handle e s =
     (if aggregateType e \<noteq> AggregateTypes_Vehicle then s
      else let base = baseEventType (eventType e) in
        if base = ''room_joined'' then addRoomMember (p_roomId (body e)) (aggregateId e) (timestamp e) s
        else if base = ''room_left'' then removeRoomMember (p_roomId (body e)) (aggregateId e) s
        else s)"

definition violation_of :: "event \<Rightarrow> violation" where
  "violation_of e =
     \<lparr>vio_clientId = aggregateId e, vio_fenceId = p_fenceId (body e), vio_roomId = p_roomId (body e),
      vio_type = (if baseEventType (eventType e) = ''geofence_entered'' then ''entry'' else ''exit''),
      vio_timestamp = timestamp e, vio_correlationId = correlationId e, vio_eventId = eventId e\<rparr>"

definition is_crossing :: "event \<Rightarrow> bool" where
  "is_crossing e \<longleftrightarrow> baseEventType (eventType e) \<in> {''geofence_entered'', ''geofence_exited''}"

definition geofenceViolation_handle :: "event \<Rightarrow> sink \<Rightarrow> sink" where
  "geofenceViolation_handle e s = (if is_crossing e then addGeofenceViolation (violation_of e) s else s)"

text \<open>The events that advance the sequence counter of a room.\<close>

definition room_sequence_event :: "string \<Rightarrow> event \<Rightarrow> bool" where
  "room_sequence_event r e \<longleftrightarrow> p_roomId (body e) = Some r \<and> r \<noteq> [] \<and> aggregateType e = AggregateTypes_Vehicle
     \<and> baseEventType (eventType e) \<in> {''location_update'', ''room_joined'', ''room_left''}"

definition sequence_handle :: "event \<Rightarrow> sink \<Rightarrow> sink" where
  "sequence_handle e s =
     (let s1 = (case sequenceNo e of
                  Some n \<Rightarrow> setSequence (''aggregate:'' @ aggregateId e) n (eventId e) s
                | None \<Rightarrow> s)
      in case p_roomId (body e) of
           None \<Rightarrow> s1
         | Some r \<Rightarrow> if room_sequence_event r e then bumpRoomSequence r (eventId e) s1 else s1)"

section \<open>ProjectionManager\<close>

record projection =
  proj_name :: string
  proj_types :: "string jsset option"
  proj_handle :: "event \<Rightarrow> sink \<Rightarrow> bool \<times> sink"

record manager =
  pm_sink :: sink
  pm_projections :: "projection list"
  projection_lag_events :: int
  projection_events_processed_total :: int
  lastTimestampMs :: time

definition manager_init :: "sink \<Rightarrow> manager" where
  "manager_init s = \<lparr>pm_sink = s, pm_projections = [], projection_lag_events = 0,
     projection_events_processed_total = 0, lastTimestampMs = 0\<rparr>"

definition register_projection ::
    "string \<Rightarrow> string list option \<Rightarrow> (event \<Rightarrow> sink \<Rightarrow> bool \<times> sink) \<Rightarrow> manager \<Rightarrow> manager" where
  "register_projection name types h m =
     m\<lparr>pm_projections := pm_projections m @
        [\<lparr>proj_name = name, proj_types = map_option (\<lambda>ts. set_from (map baseEventType ts)) types, proj_handle = h\<rparr>]\<rparr>"

definition registerDefaultProjections :: "manager \<Rightarrow> manager" where
  "registerDefaultProjections m =
     register_projection ''sequence'' None (\<lambda>e s. (True, sequence_handle e s))
     (register_projection ''geofence_violations'' None (\<lambda>e s. (True, geofenceViolation_handle e s))
     (register_projection ''room_membership'' None (\<lambda>e s. (True, roomMembership_handle e s))
     (register_projection ''vehicle_state'' None (\<lambda>e s. (True, vehicleState_handle e s)) m)))"

definition isProcessedByAll :: "projection list \<Rightarrow> event \<Rightarrow> sink \<Rightarrow> bool" where
  "isProcessedByAll ps e s \<longleftrightarrow> ps \<noteq> [] \<and> list_all (\<lambda>p. isEventProcessed (proj_name p) (eventId e) s) ps"

definition interested :: "projection \<Rightarrow> event \<Rightarrow> bool" where
  "interested p e = (case proj_types p of Some ts \<Rightarrow> baseEventType (eventType e) \<in> set ts | None \<Rightarrow> True)"

definition project_one :: "event \<Rightarrow> projection \<Rightarrow> sink \<Rightarrow> sink" where
  "project_one e p s =
     (if \<not> interested p e then s
      else case proj_handle p e s of
        (False, s') \<Rightarrow> s'
      | (True, s') \<Rightarrow> setCheckpoint (proj_name p) (eventId e) (timestamp e)
                        (markEventProcessed (proj_name p) (eventId e) s'))"

definition process_event :: "event \<Rightarrow> int \<times> manager \<Rightarrow> int \<times> manager" where
  "process_event e = (\<lambda>(applied, m).
     if isProcessedByAll (pm_projections m) e (pm_sink m)
     then (applied, m\<lparr>projection_lag_events := max 0 (projection_lag_events m - 1)\<rparr>)
     else (applied + 1,
           m\<lparr>pm_sink := fold (project_one e) (pm_projections m) (pm_sink m),
             projection_events_processed_total := projection_events_processed_total m + 1,
             projection_lag_events := max 0 (projection_lag_events m - 1),
             lastTimestampMs := max (lastTimestampMs m) (timestamp e)\<rparr>))"

definition processEvents :: "event list \<Rightarrow> manager \<Rightarrow> int \<times> manager" where
  "processEvents events m =
     (if events = [] then (0, m)
      else let ordered = sort_key time_key events
           in fold process_event ordered
                (0, m\<lparr>projection_lag_events := projection_lag_events m + int (length ordered)\<rparr>))"

end
