(* ===== verification/ProjectionProperties.thy ===== *)
theory ProjectionProperties
  imports Projections EventProperties
begin

text \<open>
  Correctness of the read side with the default projections: a batch is applied once whatever
  batches overlap it, its order of arrival is irrelevant, and the membership view is the one the
  vehicle aggregates of the write side have.
\<close>

declare map_of_eq_Some_iff [simp del] Some_eq_map_of_iff [simp del]

section \<open>What each projection touches\<close>

definition default_projections :: "projection list" where
  "default_projections = pm_projections (registerDefaultProjections (manager_init sink_init))"

lemma default_projections_eq:
  "default_projections =
    [\<lparr>proj_name = ''vehicle_state'', proj_types = None, proj_handle = \<lambda>e s. (True, vehicleState_handle e s)\<rparr>,
     \<lparr>proj_name = ''room_membership'', proj_types = None, proj_handle = \<lambda>e s. (True, roomMembership_handle e s)\<rparr>,
     \<lparr>proj_name = ''geofence_violations'', proj_types = None, proj_handle = \<lambda>e s. (True, geofenceViolation_handle e s)\<rparr>,
     \<lparr>proj_name = ''sequence'', proj_types = None, proj_handle = \<lambda>e s. (True, sequence_handle e s)\<rparr>]"
  by (simp add: default_projections_def registerDefaultProjections_def register_projection_def manager_init_def)

lemma sink_ops_fields [simp]:
  "roomMembers (upsertVehicleState c r s) = roomMembers s"
  "geofenceViolations (upsertVehicleState c r s) = geofenceViolations s"
  "sequences (upsertVehicleState c r s) = sequences s"
  "processedEvents (upsertVehicleState c r s) = processedEvents s"
  "geofenceViolations (addRoomMember q c t s) = geofenceViolations s"
  "sequences (addRoomMember q c t s) = sequences s"
  "processedEvents (addRoomMember q c t s) = processedEvents s"
  "geofenceViolations (removeRoomMember q c s) = geofenceViolations s"
  "sequences (removeRoomMember q c s) = sequences s"
  "processedEvents (removeRoomMember q c s) = processedEvents s"
  "roomMembers (addGeofenceViolation v s) = roomMembers s"
  "sequences (addGeofenceViolation v s) = sequences s"
  "processedEvents (addGeofenceViolation v s) = processedEvents s"
  "roomMembers (setSequence k n i s) = roomMembers s"
  "geofenceViolations (setSequence k n i s) = geofenceViolations s"
  "processedEvents (setSequence k n i s) = processedEvents s"
  "roomMembers (bumpRoomSequence x i s) = roomMembers s"
  "geofenceViolations (bumpRoomSequence x i s) = geofenceViolations s"
  "processedEvents (bumpRoomSequence x i s) = processedEvents s"
  "roomMembers (setCheckpoint k i t s) = roomMembers s"
  "geofenceViolations (setCheckpoint k i t s) = geofenceViolations s"
  "sequences (setCheckpoint k i t s) = sequences s"
  "processedEvents (setCheckpoint k i t s) = processedEvents s"
  "roomMembers (markEventProcessed k i s) = roomMembers s"
  "geofenceViolations (markEventProcessed k i s) = geofenceViolations s"
  "sequences (markEventProcessed k i s) = sequences s"
  by (simp_all add: upsertVehicleState_def addRoomMember_def removeRoomMember_def addGeofenceViolation_def
      setSequence_def bumpRoomSequence_def setCheckpoint_def markEventProcessed_def Let_def split: option.split)

lemma handle_fields [simp]:
  "roomMembers (vehicleState_handle e s) = roomMembers s"
  "geofenceViolations (vehicleState_handle e s) = geofenceViolations s"
  "sequences (vehicleState_handle e s) = sequences s"
  "processedEvents (vehicleState_handle e s) = processedEvents s"
  "geofenceViolations (roomMembership_handle e s) = geofenceViolations s"
  "sequences (roomMembership_handle e s) = sequences s"
  "processedEvents (roomMembership_handle e s) = processedEvents s"
  "roomMembers (geofenceViolation_handle e s) = roomMembers s"
  "sequences (geofenceViolation_handle e s) = sequences s"
  "processedEvents (geofenceViolation_handle e s) = processedEvents s"
  "roomMembers (sequence_handle e s) = roomMembers s"
  "geofenceViolations (sequence_handle e s) = geofenceViolations s"
  "processedEvents (sequence_handle e s) = processedEvents s"
  by (simp_all add: vehicleState_handle_def roomMembership_handle_def geofenceViolation_handle_def
      sequence_handle_def Let_def split: option.split)

lemma isEventProcessed_mark [simp]:
  "isEventProcessed k i (markEventProcessed k' i' s) \<longleftrightarrow> (k = k' \<and> i = i') \<or> isEventProcessed k i s"
  by (auto simp: isEventProcessed_def markEventProcessed_def Let_def split: option.splits)

lemma isEventProcessed_cong:
  "processedEvents s = processedEvents s' \<Longrightarrow> isEventProcessed k i s = isEventProcessed k i s'"
  by (simp add: isEventProcessed_def)

text \<open>Membership depends on the membership table only.\<close>

lemma membership_cong:
  "roomMembers s = roomMembers s' \<Longrightarrow> roomMembers (roomMembership_handle e s) = roomMembers (roomMembership_handle e s')"
  by (simp add: roomMembership_handle_def addRoomMember_def removeRoomMember_def Let_def split: option.split)

definition project_all :: "event \<Rightarrow> sink \<Rightarrow> sink" where
  "project_all e s = fold (project_one e) default_projections s"

lemma project_all_views:
  "roomMembers (project_all e s) = roomMembers (roomMembership_handle e s)"
  "geofenceViolations (project_all e s) = geofenceViolations (geofenceViolation_handle e s)"
  "isEventProcessed k i (project_all e s) \<longleftrightarrow>
     (i = eventId e \<and> k \<in> proj_name ` set default_projections) \<or> isEventProcessed k i s"
proof -
  show "roomMembers (project_all e s) = roomMembers (roomMembership_handle e s)"
    by (simp add: project_all_def default_projections_eq project_one_def interested_def) (rule membership_cong, simp)
  show "geofenceViolations (project_all e s) = geofenceViolations (geofenceViolation_handle e s)"
    by (simp add: project_all_def default_projections_eq project_one_def interested_def
        geofenceViolation_handle_def addGeofenceViolation_def)
  have "isEventProcessed k i (h x) = isEventProcessed k i x"
    if "\<And>x. processedEvents (h x) = processedEvents x" for h x
    by (rule isEventProcessed_cong) (rule that)
  note frame = this [of "vehicleState_handle e"] this [of "roomMembership_handle e"]
    this [of "geofenceViolation_handle e"] this [of "sequence_handle e"] this [of "setCheckpoint _ _ _"]
  show "isEventProcessed k i (project_all e s) \<longleftrightarrow>
     (i = eventId e \<and> k \<in> proj_name ` set default_projections) \<or> isEventProcessed k i s"
    by (auto simp: project_all_def default_projections_eq project_one_def interested_def frame)
qed

section \<open>Exactly once\<close>

definition fresh_manager :: manager where
  "fresh_manager = registerDefaultProjections (manager_init sink_init)"

definition done_by_all :: "sink \<Rightarrow> string \<Rightarrow> bool" where
  "done_by_all s i \<longleftrightarrow> (\<forall>p\<in>set default_projections. isEventProcessed (proj_name p) i s)"

lemma done_by_all_iff: "isProcessedByAll default_projections e s = done_by_all s (eventId e)"
  by (simp add: isProcessedByAll_def done_by_all_def list_all_iff) (simp add: default_projections_eq)

lemma done_project_all: "done_by_all (project_all e s) i \<longleftrightarrow> i = eventId e \<or> done_by_all s i"
  by (auto simp: done_by_all_def project_all_views(3) default_projections_eq)

lemma process_event_default:
  assumes "pm_projections m = default_projections"
  shows "pm_projections (snd (process_event e (a, m))) = default_projections"
    "pm_sink (snd (process_event e (a, m))) =
      (if done_by_all (pm_sink m) (eventId e) then pm_sink m else project_all e (pm_sink m))"
    "done_by_all (pm_sink (snd (process_event e (a, m)))) i \<longleftrightarrow> i = eventId e \<or> done_by_all (pm_sink m) i"
    "projection_lag_events (snd (process_event e (a, m))) = max 0 (projection_lag_events m - 1)"
  using assms by (auto simp: process_event_def done_by_all_iff project_all_def [symmetric] done_project_all)

lemma process_fold_done:
  assumes "pm_projections m = default_projections"
  shows "pm_projections (snd (fold process_event es (a, m))) = default_projections
    \<and> (done_by_all (pm_sink (snd (fold process_event es (a, m)))) i \<longleftrightarrow>
         i \<in> eventId ` set es \<or> done_by_all (pm_sink m) i)"
  using assms
proof (induction es arbitrary: a m)
  case (Cons e es)
  obtain a' m' where p: "process_event e (a, m) = (a', m')" by fastforce
  note step = process_event_default [OF Cons.prems, of e a, unfolded p snd_conv]
  from Cons.IH [OF step(1), of a'] step(3) p show ?case by auto
qed simp

lemma process_fold_lag:
  assumes "int (length es) \<le> projection_lag_events m"
  shows "projection_lag_events (snd (fold process_event es (a, m))) = projection_lag_events m - int (length es)"
  using assms
proof (induction es arbitrary: a m)
  case (Cons e es)
  obtain a' m' where p: "process_event e (a, m) = (a', m')" by fastforce
  have "projection_lag_events m' = projection_lag_events m - 1"
    using p Cons.prems by (auto simp: process_event_def split: if_splits)
  with Cons.IH [of m' a'] Cons.prems p show ?case by simp
qed simp

text \<open>Events that are all done leave everything but the lag counter alone.\<close>

lemma process_fold_skip:
  assumes "pm_projections m = default_projections" "\<forall>e\<in>set es. done_by_all (pm_sink m) (eventId e)"
    "int (length es) \<le> projection_lag_events m"
  shows "fold process_event es (a, m) = (a, m\<lparr>projection_lag_events := projection_lag_events m - int (length es)\<rparr>)"
  using assms
proof (induction es arbitrary: m)
  case (Cons e es)
  let ?m = "m\<lparr>projection_lag_events := projection_lag_events m - 1\<rparr>"
  have "process_event e (a, m) = (a, ?m)"
    using Cons.prems by (auto simp: process_event_def done_by_all_iff)
  with Cons.IH [of ?m] Cons.prems show ?case by simp
qed simp

text \<open>
  Projections apply every event once: after a batch was projected, any batch of events it
  contained (a redelivery or an overlapping batch) applies nothing and leaves the read model, the
  checkpoints and the counters exactly as they are.
\<close>
theorem projection_idempotent:
  assumes "pm_projections m = default_projections" "0 \<le> projection_lag_events m"
    "processEvents es m = (n, m')" "set fs \<subseteq> set es"
  shows "processEvents fs m' = (0, m')"
proof (cases "es = []")
  case True
  then show ?thesis using assms by (simp add: processEvents_def)
next
  case False
  let ?es = "sort_key time_key es" and ?fs = "sort_key time_key fs"
  let ?m = "m\<lparr>projection_lag_events := projection_lag_events m + int (length ?es)\<rparr>"
  have m': "m' = snd (fold process_event ?es (0, ?m))"
    using assms(3) False by (simp add: processEvents_def Let_def)
  have run: "pm_projections m' = default_projections"
    "done_by_all (pm_sink m') i \<longleftrightarrow> i \<in> eventId ` set es \<or> done_by_all (pm_sink m) i" for i
    using process_fold_done [of ?m ?es 0 i] assms(1) by (simp_all add: m')
  have lag: "0 \<le> projection_lag_events m'"
    using process_fold_lag [of ?es ?m 0] assms(2) by (simp add: m')
  let ?l = "m'\<lparr>projection_lag_events := projection_lag_events m' + int (length ?fs)\<rparr>"
  have "\<forall>e\<in>set ?fs. done_by_all (pm_sink ?l) (eventId e)" using run(2) assms(4) by auto
  with process_fold_skip [of ?l ?fs 0] run(1) lag show ?thesis by (simp add: processEvents_def Let_def)
qed

theorem projection_idempotent_witness:
  "allEvents (w_store joined_world) \<noteq> []
    \<and> fst (processEvents (allEvents (w_store joined_world))
         (snd (processEvents (allEvents (w_store joined_world)) fresh_manager))) = 0"
proof
  have "length (allEvents (w_store joined_world)) = 2" by code_simp
  then show "allEvents (w_store joined_world) \<noteq> []" by auto
  let ?log = "allEvents (w_store joined_world)"
  have m: "pm_projections fresh_manager = default_projections" "0 \<le> projection_lag_events fresh_manager"
    by (simp_all add: fresh_manager_def default_projections_def registerDefaultProjections_def
        register_projection_def manager_init_def)
  obtain n m' where "processEvents ?log fresh_manager = (n, m')" by fastforce
  with projection_idempotent [OF m this, of ?log]
  show "fst (processEvents ?log (snd (processEvents ?log fresh_manager))) = 0" by simp
qed

section \<open>Order of arrival\<close>

text \<open>
  Projection is deterministic: batches with the same events, in whatever order they arrive,
  leave the same read model, because events are applied in the order of time and id.
\<close>
theorem projection_order_irrelevant:
  assumes "mset es = mset fs" "distinct (map eventId es)"
  shows "processEvents es m = processEvents fs m"
proof -
  have "inj_on time_key (set es)" using assms(2) by (auto simp: distinct_map inj_on_def time_key_def)
  then have "sort_key time_key es = sort_key time_key fs"
    using assms(1) by (intro sort_key_inj_key_eq) simp_all
  moreover have "es = [] \<longleftrightarrow> fs = []" using assms(1) by (metis mset_zero_iff mset_zero_iff_right)
  ultimately show ?thesis by (simp add: processEvents_def)
qed

theorem projection_order_irrelevant_witness:
  "processEvents (allEvents (w_store joined_world)) fresh_manager
    = processEvents (rev (allEvents (w_store joined_world))) fresh_manager"
proof -
  have "map eventId (allEvents (w_store joined_world)) = [''u'', ''uu'']" by code_simp
  then show ?thesis using projection_order_irrelevant [of _ "rev (allEvents (w_store joined_world))"] by simp
qed

section \<open>The read model against the write model\<close>

lemma process_fold_fresh:
  assumes "pm_projections m = default_projections" "distinct (map eventId es)"
    "\<forall>e\<in>set es. \<not> done_by_all (pm_sink m) (eventId e)"
  shows "pm_sink (snd (fold process_event es (a, m))) = fold project_all es (pm_sink m)"
  using assms
proof (induction es arbitrary: a m)
  case (Cons e es)
  obtain a' m' where p: "process_event e (a, m) = (a', m')" by fastforce
  note step = process_event_default [OF Cons.prems(1), of e a, unfolded p snd_conv]
  have "pm_sink m' = project_all e (pm_sink m)" using step(2) Cons.prems(3) by simp
  moreover have "\<forall>x\<in>set es. \<not> done_by_all (pm_sink m') (eventId x)"
    using step(3) Cons.prems(2,3) by (auto simp: image_iff)
  ultimately show ?case using Cons.IH [of m' a'] step(1) Cons.prems(2) p by simp
qed simp

definition of_vehicle :: "string \<Rightarrow> event \<Rightarrow> bool" where
  "of_vehicle c e \<longleftrightarrow> aggregateType e = AggregateTypes_Vehicle \<and> aggregateId e = c"

definition resumes :: "event \<Rightarrow> bool" where
  "resumes e \<longleftrightarrow> baseEventType (eventType e) = ''session_resumed''"

text \<open>One event, seen by the membership table and by the vehicle aggregate.\<close>

definition joins_room :: "string option \<Rightarrow> event \<Rightarrow> bool \<Rightarrow> bool" where
  "joins_room r e old =
     (if p_roomId (body e) = r \<and> baseEventType (eventType e) = ''room_joined'' then True
      else if p_roomId (body e) = r \<and> baseEventType (eventType e) = ''room_left'' then False
      else old)"

lemma member_step:
  "c \<in> set (getRoomMembers r (project_all e s)) \<longleftrightarrow>
     (if of_vehicle c e then joins_room r e (c \<in> set (getRoomMembers r s)) else c \<in> set (getRoomMembers r s))"
proof -
  have "getRoomMembers r (project_all e s) = getRoomMembers r (roomMembership_handle e s)"
    by (simp add: getRoomMembers_def project_all_views(1))
  moreover have "c \<in> set (getRoomMembers r (addRoomMember q d t s)) \<longleftrightarrow>
      (r = q \<and> c = d) \<or> c \<in> set (getRoomMembers r s)" for q d t
    by (auto simp: getRoomMembers_def addRoomMember_def Let_def AList.dom_update split: option.splits)
  moreover have "c \<in> set (getRoomMembers r (removeRoomMember q d s)) \<longleftrightarrow>
      \<not> (r = q \<and> c = d) \<and> c \<in> set (getRoomMembers r s)" for q d
    by (cases "js_get (roomMembers s) q"; cases "r = q")
       (simp_all add: getRoomMembers_def removeRoomMember_def js_keys_delete conj_commute del: set_map)
  ultimately show ?thesis
    by (auto simp: roomMembership_handle_def of_vehicle_def joins_room_def Let_def)
qed

lemma vehicle_rooms_step:
  assumes "\<not> resumes e"
  shows "r \<in> set (v_rooms (vehicle_mutate e v)) \<longleftrightarrow> joins_room r e (r \<in> set (v_rooms v))"
  using assms
  by (auto simp: vehicle_mutate_def joins_room_def resumes_def Let_def split: option.splits list.splits)

lemma members_agree:
  assumes "c \<in> set (getRoomMembers r s) \<longleftrightarrow> r \<in> set (v_rooms v)"
  shows "c \<in> set (getRoomMembers r (fold project_all es s)) \<longleftrightarrow>
    r \<in> set (v_rooms (fold vehicle_mutate (filter (\<lambda>e. of_vehicle c e \<and> \<not> resumes e) es) v))"
  using assms
proof (induction es arbitrary: s v)
  case (Cons e es)
  consider "of_vehicle c e \<and> \<not> resumes e" | "of_vehicle c e \<and> resumes e" | "\<not> of_vehicle c e" by blast
  then show ?case
  proof cases
    case 1
    then have "c \<in> set (getRoomMembers r (project_all e s)) \<longleftrightarrow> r \<in> set (v_rooms (vehicle_mutate e v))"
      using Cons.prems by (simp add: member_step vehicle_rooms_step)
    with Cons.IH [of "project_all e s" "vehicle_mutate e v"] 1 show ?thesis by simp
  next
    case 2
    then have "c \<in> set (getRoomMembers r (project_all e s)) \<longleftrightarrow> r \<in> set (v_rooms v)"
      using Cons.prems by (simp add: member_step joins_room_def resumes_def)
    with Cons.IH [of "project_all e s" v] 2 show ?thesis by simp
  next
    case 3
    with Cons.IH [of "project_all e s" v] Cons.prems show ?thesis by (simp add: member_step)
  qed
qed simp

lemma violations_fold:
  "geofenceViolations (fold project_all es s) = geofenceViolations s @ map violation_of (filter is_crossing es)"
  by (induction es arbitrary: s)
     (simp_all add: project_all_views(2) geofenceViolation_handle_def addGeofenceViolation_def)

lemma fresh_manager_run:
  assumes "distinct (map eventId es)" "sorted (map time_key es)"
  shows "pm_sink (snd (processEvents es fresh_manager)) = fold project_all es sink_init"
proof (cases "es = []")
  case False
  let ?m = "fresh_manager\<lparr>projection_lag_events := projection_lag_events fresh_manager + int (length es)\<rparr>"
  have m: "pm_projections ?m = default_projections" "pm_sink ?m = sink_init"
    by (simp_all add: fresh_manager_def default_projections_def registerDefaultProjections_def
        register_projection_def manager_init_def)
  have "\<not> done_by_all sink_init i" for i
    by (auto simp: done_by_all_def default_projections_eq isEventProcessed_def sink_init_def)
  then have "pm_sink (snd (fold process_event es (0, ?m))) = fold project_all es sink_init"
    using process_fold_fresh [of ?m es 0] assms(1) m by simp
  moreover have "sort_key time_key es = es" using assms(2) by (rule sort_key_id_if_sorted)
  ultimately show ?thesis using False by (simp add: processEvents_def Let_def)
qed (simp add: processEvents_def fresh_manager_def registerDefaultProjections_def register_projection_def manager_init_def)

lemma stream_of_log:
  assumes "reach_world cfg is_room w"
  shows "stream_of (w_store w) i = filter (\<lambda>e. aggregateId e = i) (allEvents (w_store w))"
proof -
  from assms obtain st where st: "es_reachable cfg is_room st" "es_world st = w" by (auto simp: reach_world_def)
  show ?thesis using es_invD(3) [OF es_reachable_inv [OF st(1)]] st(2) by (simp add: log_inv_def)
qed

text \<open>
  C18. What the read model shows of the write model. Projecting the whole log of a reachable world, in
  order of time, makes a client a member of a room in the membership view exactly when the events of
  the client's stream other than its session resumptions, replayed, put the room into the vehicle
  aggregate; without a session resumption in the stream these are the rooms of the client's vehicle as
  the repository loads it. (A resumption adds rooms to the aggregate and no projection handles it.)
  And the view of crossings lists exactly the geofence crossings of the log, in order.
\<close>
theorem read_model_agrees:
  assumes "reach_world cfg is_room w" "\<not> is_room c"
    "distinct (map eventId (allEvents (w_store w)))" "sorted (map time_key (allEvents (w_store w)))"
    "\<forall>e\<in>set (stream_of (w_store w) c). aggregateType e = AggregateTypes_Vehicle"
  shows "(c \<in> set (getRoomMembers r (pm_sink (snd (processEvents (allEvents (w_store w)) fresh_manager))))
      \<longleftrightarrow> r \<in> set (v_rooms (fold vehicle_mutate (filter (\<lambda>e. \<not> resumes e) (stream_of (w_store w) c)) vehicle_init)))
    \<and> ((\<forall>e\<in>set (stream_of (w_store w) c). \<not> resumes e) \<longrightarrow>
        fold vehicle_mutate (filter (\<lambda>e. \<not> resumes e) (stream_of (w_store w) c)) vehicle_init = vstate cfg' c w)
    \<and> geofenceViolations (pm_sink (snd (processEvents (allEvents (w_store w)) fresh_manager)))
        = map violation_of (filter is_crossing (allEvents (w_store w)))"
proof -
  let ?log = "allEvents (w_store w)"
  have stream: "stream_of (w_store w) c = filter (of_vehicle c) ?log"
    using stream_of_log [OF assms(1), of c] assms(5) by (auto simp: of_vehicle_def intro!: filter_cong)
  have "c \<in> set (getRoomMembers r sink_init) \<longleftrightarrow> r \<in> set (v_rooms vehicle_init)"
    by (simp add: getRoomMembers_def sink_init_def vehicle_init_def)
  then have "c \<in> set (getRoomMembers r (fold project_all ?log sink_init)) \<longleftrightarrow>
      r \<in> set (v_rooms (fold vehicle_mutate (filter (\<lambda>e. of_vehicle c e \<and> \<not> resumes e) ?log) vehicle_init))"
    by (rule members_agree)
  moreover have "filter (\<lambda>e. of_vehicle c e \<and> \<not> resumes e) ?log = filter (\<lambda>e. \<not> resumes e) (stream_of (w_store w) c)"
    by (simp add: stream conj_commute)
  ultimately show ?thesis
    using fresh_manager_run [OF assms(3,4)] violations_fold [of ?log sink_init]
      vstate_replay [OF assms(1,2), of cfg'] by (simp add: replay_def sink_init_def)
qed

theorem read_model_agrees_witness:
  "''v'' \<in> set (getRoomMembers (Some ''r'')
     (pm_sink (snd (processEvents (allEvents (w_store joined_world)) fresh_manager))))"
proof -
  have ids: "map time_key (allEvents (w_store joined_world)) = [(1000, ''u''), (1000, ''uu'')]" by code_simp
  have "map eventId (allEvents (w_store joined_world)) = [''u'', ''uu'']" by code_simp
  then have log: "distinct (map eventId (allEvents (w_store joined_world)))"
    "sorted (map time_key (allEvents (w_store joined_world)))"
    by (simp_all only: ids) simp_all
  have "list_all (\<lambda>e. aggregateType e = AggregateTypes_Vehicle \<and> \<not> resumes e) (stream_of (w_store joined_world) ''v'')"
    by code_simp
  then have types: "\<forall>e\<in>set (stream_of (w_store joined_world) ''v''). aggregateType e = AggregateTypes_Vehicle"
    and quiet: "\<forall>e\<in>set (stream_of (w_store joined_world) ''v''). \<not> resumes e"
    by (simp_all add: list_all_iff)
  have "v_rooms (vstate demo_cfg ''v'' joined_world) = [Some ''r'']" by code_simp
  then show ?thesis
    using read_model_agrees [OF joined_reach demo_cmd_fields(4) log types, of "Some ''r''" demo_cfg] quiet by simp
qed

end
