(* ===== verification/SqlSink.thy ===== *)
theory SqlSink
  imports Projections
begin

text \<open>
  \<open>SqlProjectionSink\<close> of \<open>src/event-sourcing.js\<close>: the materialised views as tables, and each statement
  of the class as a function on them.

  \<^item> A table with a primary key is a map from the key to the other columns; \<open>ON CONFLICT\<close> says what an
    insert of a key that is there does. Rows that tie in an \<open>ORDER BY\<close> keep the order of the table here;
    the database may give them in any order.
  \<^item> A method connects first. A failed connection is tried again by the next call; after \<open>close\<close> the
    pool is gone and a connected sink throws.
  \<^item> A value its column refuses makes the statement fail: a room that is absent or longer than 255
    characters, a client longer than 255 characters. Event ids are UUIDs, as the program makes them.
  \<^item> The handlers of the projections call the sink they are given; they are written out again for this
    sink.
\<close>

section \<open>Tables\<close>

record vehicle_row =
  vr_rooms :: "string option list"
  vr_latitude :: "real option"
  vr_longitude :: "real option"
  vr_altitude :: "real option"
  vr_accuracy :: "real option"
  vr_speed :: "real option"
  vr_location_updated_at :: "time option"
  vr_last_event_id :: "string option"
  vr_last_sequence :: "int option"

record sql_tables =
  st_vehicles :: "(string, vehicle_row) jsmap"
  st_members :: "(string \<times> string, time) jsmap"
  st_violations :: "(string, violation) jsmap"
  st_sequences :: "(string, seq_row) jsmap"
  st_checkpoints :: "(string, string) jsmap"
  st_processed :: "(string \<times> string) jsset"

definition sql_tables_init :: sql_tables where
  "sql_tables_init = \<lparr>st_vehicles = [], st_members = [], st_violations = [], st_sequences = [],
     st_checkpoints = [], st_processed = []\<rparr>"

text \<open>\<open>state.x ?? null\<close>\<close>

definition real_col :: "row \<Rightarrow> string \<Rightarrow> real option" where
  "real_col s k = (case js_get s k of Some (RReal r) \<Rightarrow> Some r | _ \<Rightarrow> None)"

definition int_col :: "row \<Rightarrow> string \<Rightarrow> int option" where
  "int_col s k = (case js_get s k of Some (RInt n) \<Rightarrow> Some n | _ \<Rightarrow> None)"

definition text_col :: "row \<Rightarrow> string \<Rightarrow> string option" where
  "text_col s k = (case js_get s k of Some (RText t) \<Rightarrow> Some t | _ \<Rightarrow> None)"

definition time_col :: "row \<Rightarrow> string \<Rightarrow> time option" where
  "time_col s k = (case js_get s k of Some (RTime t) \<Rightarrow> Some t | _ \<Rightarrow> None)"

definition coalesce :: "'a option \<Rightarrow> 'a option \<Rightarrow> 'a option" where
  "coalesce a b = (case a of Some x \<Rightarrow> Some x | None \<Rightarrow> b)"

definition coalesce0 :: "int option \<Rightarrow> int" where
  "coalesce0 a = (case a of Some n \<Rightarrow> n | None \<Rightarrow> 0)"

section \<open>Statements\<close>

definition vehicle_values :: "row \<Rightarrow> vehicle_row" where
  "vehicle_values s = \<lparr>vr_rooms = row_rooms s, vr_latitude = real_col s ''latitude'',
     vr_longitude = real_col s ''longitude'', vr_altitude = real_col s ''altitude'',
     vr_accuracy = real_col s ''accuracy'', vr_speed = real_col s ''speed'',
     vr_location_updated_at = time_col s ''locationUpdatedAt'', vr_last_event_id = text_col s ''lastEventId'',
     vr_last_sequence = int_col s ''lastSequence''\<rparr>"

text \<open>The \<open>SET\<close> list: \<open>x\<close> is \<open>EXCLUDED\<close>, \<open>old\<close> the row that is there.\<close>

definition vehicle_conflict :: "vehicle_row \<Rightarrow> vehicle_row \<Rightarrow> vehicle_row" where
  "vehicle_conflict x old = \<lparr>vr_rooms = vr_rooms x,
     vr_latitude = coalesce (vr_latitude x) (vr_latitude old),
     vr_longitude = coalesce (vr_longitude x) (vr_longitude old),
     vr_altitude = coalesce (vr_altitude x) (vr_altitude old),
     vr_accuracy = coalesce (vr_accuracy x) (vr_accuracy old),
     vr_speed = coalesce (vr_speed x) (vr_speed old),
     vr_location_updated_at = coalesce (vr_location_updated_at x) (vr_location_updated_at old),
     vr_last_event_id = coalesce (vr_last_event_id x) (vr_last_event_id old),
     vr_last_sequence = Some (max (coalesce0 (vr_last_sequence x)) (coalesce0 (vr_last_sequence old)))\<rparr>"

definition sql_upsertVehicleState :: "string \<Rightarrow> row \<Rightarrow> sql_tables \<Rightarrow> sql_tables" where
  "sql_upsertVehicleState c s t =
     (let x = vehicle_values s;
          new = (case js_get (st_vehicles t) c of Some old \<Rightarrow> vehicle_conflict x old | None \<Rightarrow> x)
      in t\<lparr>st_vehicles := js_set c new (st_vehicles t)\<rparr>)"

definition real_out :: "real option \<Rightarrow> rval" where
  "real_out x = (case x of Some r \<Rightarrow> RReal r | None \<Rightarrow> RNull)"

definition vehicle_object :: "string \<Rightarrow> vehicle_row \<Rightarrow> row" where
  "vehicle_object c v =
     [(''clientId'', RText c), (''rooms'', RRooms (vr_rooms v)), (''latitude'', real_out (vr_latitude v)),
      (''longitude'', real_out (vr_longitude v)), (''altitude'', real_out (vr_altitude v)),
      (''accuracy'', real_out (vr_accuracy v)), (''speed'', real_out (vr_speed v)),
      (''locationUpdatedAt'', case vr_location_updated_at v of Some t \<Rightarrow> RTime t | None \<Rightarrow> RNull),
      (''lastEventId'', case vr_last_event_id v of Some i \<Rightarrow> RText i | None \<Rightarrow> RNull),
      (''lastSequence'', case vr_last_sequence v of Some n \<Rightarrow> RInt n | None \<Rightarrow> RNull)]"

definition sql_getVehicleState :: "string \<Rightarrow> sql_tables \<Rightarrow> row option" where
  "sql_getVehicleState c t = map_option (vehicle_object c) (js_get (st_vehicles t) c)"

definition sql_addRoomMember :: "string \<Rightarrow> string \<Rightarrow> time \<Rightarrow> sql_tables \<Rightarrow> sql_tables" where
  "sql_addRoomMember r c joinedAt t =
     (if js_has (st_members t) (r, c) then t else t\<lparr>st_members := js_set (r, c) joinedAt (st_members t)\<rparr>)"

definition sql_removeRoomMember :: "string \<Rightarrow> string \<Rightarrow> sql_tables \<Rightarrow> sql_tables" where
  "sql_removeRoomMember r c t = t\<lparr>st_members := js_delete (r, c) (st_members t)\<rparr>"

definition sql_getRoomMembers :: "string \<Rightarrow> sql_tables \<Rightarrow> string list" where
  "sql_getRoomMembers r t =
     map (snd \<circ> fst) (sort_key snd (filter (\<lambda>((r', c), j). r' = r) (st_members t)))"

definition sql_addGeofenceViolation :: "violation \<Rightarrow> sql_tables \<Rightarrow> sql_tables" where
  "sql_addGeofenceViolation v t =
     (if js_has (st_violations t) (vio_eventId v) then t
      else t\<lparr>st_violations := js_set (vio_eventId v) v (st_violations t)\<rparr>)"

definition sql_getGeofenceViolations :: "string \<Rightarrow> string \<Rightarrow> sql_tables \<Rightarrow> violation list" where
  "sql_getGeofenceViolations c ty t =
     sort_key vio_timestamp (filter (\<lambda>v. (c = [] \<or> vio_clientId v = c) \<and> (ty = [] \<or> vio_type v = ty))
       (map snd (st_violations t)))"

definition sql_setSequence :: "string \<Rightarrow> int \<Rightarrow> string \<Rightarrow> sql_tables \<Rightarrow> sql_tables" where
  "sql_setSequence key n i t =
     (let m = (case js_get (st_sequences t) key of Some q \<Rightarrow> max (sq_sequence q) n | None \<Rightarrow> n)
      in t\<lparr>st_sequences := js_set key \<lparr>sq_sequence = m, sq_eventId = i\<rparr> (st_sequences t)\<rparr>)"

definition sql_getSequence :: "string \<Rightarrow> sql_tables \<Rightarrow> seq_row option" where
  "sql_getSequence key t = js_get (st_sequences t) key"

definition sql_bumpRoomSequence :: "string \<Rightarrow> string \<Rightarrow> sql_tables \<Rightarrow> sql_tables" where
  "sql_bumpRoomSequence r i t =
     (let key = ''room:'' @ r;
          m = (case js_get (st_sequences t) key of Some q \<Rightarrow> sq_sequence q + 1 | None \<Rightarrow> 1)
      in t\<lparr>st_sequences := js_set key \<lparr>sq_sequence = m, sq_eventId = i\<rparr> (st_sequences t)\<rparr>)"

definition sql_setCheckpoint :: "string \<Rightarrow> string \<Rightarrow> sql_tables \<Rightarrow> sql_tables" where
  "sql_setCheckpoint name i t = t\<lparr>st_checkpoints := js_set name i (st_checkpoints t)\<rparr>"

definition sql_getCheckpoint :: "string \<Rightarrow> sql_tables \<Rightarrow> string option" where
  "sql_getCheckpoint name t = js_get (st_checkpoints t) name"

definition sql_markEventProcessed :: "string \<Rightarrow> string \<Rightarrow> sql_tables \<Rightarrow> sql_tables" where
  "sql_markEventProcessed name i t = t\<lparr>st_processed := js_add (name, i) (st_processed t)\<rparr>"

definition sql_isEventProcessed :: "string \<Rightarrow> string \<Rightarrow> sql_tables \<Rightarrow> bool" where
  "sql_isEventProcessed name i t \<longleftrightarrow> (name, i) \<in> set (st_processed t)"

section \<open>The connection\<close>

record sql_conn =
  sk_ready :: bool
  sk_closed :: bool

definition sql_conn_init :: sql_conn where
  "sql_conn_init = \<lparr>sk_ready = False, sk_closed = False\<rparr>"

text \<open>A method runs its statement \<open>f\<close>, which may fail, once the sink is connected; \<open>err\<close> is the error of connecting.\<close>

definition sql_call ::
    "string option \<Rightarrow> (sql_tables \<Rightarrow> es_error + ('a \<times> sql_tables)) \<Rightarrow> sql_conn \<times> sql_tables
      \<Rightarrow> (es_error + 'a) \<times> sql_conn \<times> sql_tables" where
  "sql_call err f = (\<lambda>(k, t).
     if sk_ready k \<and> sk_closed k then (Inl (EsTypeError ''pool is null''), k, t)
     else case (if sk_ready k then None else err) of
            Some m \<Rightarrow> (Inl (EsError m), k, t)
          | None \<Rightarrow>
              (case f t of
                 Inl e \<Rightarrow> (Inl e, k\<lparr>sk_ready := True\<rparr>, t)
               | Inr (a, t') \<Rightarrow> (Inr a, k\<lparr>sk_ready := True\<rparr>, t')))"

definition sql_close :: "sql_conn \<Rightarrow> sql_conn" where
  "sql_close k = k\<lparr>sk_closed := True\<rparr>"

definition key_fits :: "string \<Rightarrow> bool" where
  "key_fits s \<longleftrightarrow> length s \<le> 255"

section \<open>The projections on this sink\<close>

definition sql_vehicleState_handle :: "event \<Rightarrow> sql_tables \<Rightarrow> es_error + sql_tables" where
  "sql_vehicleState_handle e t =
     (if aggregateType e \<noteq> AggregateTypes_Vehicle then Inr t
      else let base = baseEventType (eventType e);
               prev = (case sql_getVehicleState (aggregateId e) t of Some r \<Rightarrow> r | None \<Rightarrow> [])
           in if base = ''location_update'' then
                (if newer prev e then Inr t
                 else if \<not> key_fits (aggregateId e) then Inl (EsError ''value too long'')
                 else Inr (sql_upsertVehicleState (aggregateId e) (location_row prev e) t))
              else if base = ''room_joined'' \<or> base = ''room_left'' then
                (if \<not> key_fits (aggregateId e) then Inl (EsError ''value too long'')
                 else Inr (sql_upsertVehicleState (aggregateId e) (membership_row (base = ''room_joined'') prev e) t))
              else Inr t)"

definition sql_roomMembership_handle :: "event \<Rightarrow> sql_tables \<Rightarrow> es_error + sql_tables" where
  "sql_roomMembership_handle e t =
     (if aggregateType e \<noteq> AggregateTypes_Vehicle then Inr t
      else let base = baseEventType (eventType e) in
        if base = ''room_joined'' then
          (case p_roomId (body e) of
             None \<Rightarrow> Inl (EsError ''null value in column room_id'')
           | Some r \<Rightarrow> if key_fits r \<and> key_fits (aggregateId e)
                       then Inr (sql_addRoomMember r (aggregateId e) (timestamp e) t)
                       else Inl (EsError ''value too long''))
        else if base = ''room_left'' then
          (case p_roomId (body e) of None \<Rightarrow> Inr t | Some r \<Rightarrow> Inr (sql_removeRoomMember r (aggregateId e) t))
        else Inr t)"

definition sql_geofenceViolation_handle :: "event \<Rightarrow> sql_tables \<Rightarrow> es_error + sql_tables" where
  "sql_geofenceViolation_handle e t =
     (if is_crossing e
      then (if key_fits (aggregateId e) \<and> list_all key_fits (List.map_filter id [p_fenceId (body e), p_roomId (body e)])
            then Inr (sql_addGeofenceViolation (violation_of e) t)
            else Inl (EsError ''value too long''))
      else Inr t)"

definition sql_sequence_handle :: "event \<Rightarrow> sql_tables \<Rightarrow> es_error + sql_tables" where
  "sql_sequence_handle e t =
     (let t1 = (case sequenceNo e of
                  Some n \<Rightarrow> sql_setSequence (''aggregate:'' @ aggregateId e) n (eventId e) t
                | None \<Rightarrow> t)
      in Inr (case p_roomId (body e) of
           None \<Rightarrow> t1
         | Some r \<Rightarrow> if room_sequence_event r e then sql_bumpRoomSequence r (eventId e) t1 else t1))"

text \<open>One projection on one event: a handler that throws leaves the event unmarked.\<close>

definition sql_project_one ::
    "event \<Rightarrow> string \<times> (event \<Rightarrow> sql_tables \<Rightarrow> es_error + sql_tables) \<Rightarrow> sql_tables \<Rightarrow> sql_tables" where
  "sql_project_one e = (\<lambda>(name, h) t.
     case h e t of
       Inl err \<Rightarrow> t
     | Inr t' \<Rightarrow> sql_setCheckpoint name (eventId e) (sql_markEventProcessed name (eventId e) t'))"

definition sql_projections :: "(string \<times> (event \<Rightarrow> sql_tables \<Rightarrow> es_error + sql_tables)) list" where
  "sql_projections =
     [(''vehicle_state'', sql_vehicleState_handle), (''room_membership'', sql_roomMembership_handle),
      (''geofence_violations'', sql_geofenceViolation_handle), (''sequence'', sql_sequence_handle)]"

end
