(* ===== verification/SqlSinkProperties.thy ===== *)
theory SqlSinkProperties
  imports SqlSink ProjectionProperties
begin

text \<open>
  The two projection sinks: the contract the projections rely on, met by both, and the simulation of the
  in-memory sink by the tables.
\<close>

declare map_of_eq_Some_iff [simp del] Some_eq_map_of_iff [simp del]

section \<open>The contract of a sink\<close>

text \<open>
  What the projections and their manager call: the members of a room, the counter of a room, and the
  marks of processed events.
\<close>

locale projection_sink =
  fixes add :: "string \<Rightarrow> string \<Rightarrow> time \<Rightarrow> 's \<Rightarrow> 's"
    and remove :: "string \<Rightarrow> string \<Rightarrow> 's \<Rightarrow> 's"
    and members :: "string \<Rightarrow> 's \<Rightarrow> string list"
    and bump :: "string \<Rightarrow> string \<Rightarrow> 's \<Rightarrow> 's"
    and counter :: "string \<Rightarrow> 's \<Rightarrow> int"
    and mark :: "string \<Rightarrow> string \<Rightarrow> 's \<Rightarrow> 's"
    and marked :: "string \<Rightarrow> string \<Rightarrow> 's \<Rightarrow> bool"
  assumes members_add: "set (members r' (add r c t s)) = set (members r' s) \<union> (if r' = r then {c} else {})"
    and members_remove: "set (members r' (remove r c s)) = set (members r' s) - (if r' = r then {c} else {})"
    and counter_bump: "counter r' (bump r i s) = counter r' s + (if r' = r then 1 else 0)"
    and marked_mark: "marked n' i' (mark n i s) \<longleftrightarrow> (n' = n \<and> i' = i) \<or> marked n' i' s"
begin

text \<open>Joins and leaves, replayed: a client is a member exactly when its last move in the room is a join.\<close>

definition move :: "string \<times> string \<times> time option \<Rightarrow> 's \<Rightarrow> 's" where
  "move = (\<lambda>(r, c, j) s. case j of Some t \<Rightarrow> add r c t s | None \<Rightarrow> remove r c s)"

lemma members_moves:
  "c \<in> set (members r (fold move ms s)) \<longleftrightarrow>
     (let mine = filter (\<lambda>(r', c', j). r' = r \<and> c' = c) ms
      in if mine = [] then c \<in> set (members r s) else snd (snd (last mine)) \<noteq> None)"
proof (induction ms rule: rev_induct)
  case (snoc m ms)
  obtain r' c' j where m: "m = (r', c', j)" by (metis prod_cases3)
  show ?case
  proof (cases "r' = r \<and> c' = c")
    case True
    then show ?thesis by (auto simp: m move_def members_add members_remove split: option.split)
  next
    case False
    then have "c \<in> set (members r (move m s')) \<longleftrightarrow> c \<in> set (members r s')" for s'
      by (auto simp: m move_def members_add members_remove split: option.split)
    then show ?thesis using snoc False by (auto simp: m)
  qed
qed simp

lemma counter_bumps:
  "counter r (fold (\<lambda>(r', i). bump r' i) bs s) = counter r s + int (length (filter (\<lambda>(r', i). r' = r) bs))"
  by (induction bs arbitrary: s) (auto simp: counter_bump)

lemma mark_idempotent: "marked n i (mark n' i' (mark n' i' s)) = marked n i (mark n' i' s)"
  by (simp add: marked_mark)

end

definition room_counter :: "string \<Rightarrow> sink \<Rightarrow> int" where
  "room_counter r s = (case getSequence (''room:'' @ r) s of Some q \<Rightarrow> sq_sequence q | None \<Rightarrow> 0)"

definition sql_room_counter :: "string \<Rightarrow> sql_tables \<Rightarrow> int" where
  "sql_room_counter r t = (case sql_getSequence (''room:'' @ r) t of Some q \<Rightarrow> sq_sequence q | None \<Rightarrow> 0)"

lemma delete_keys: "fst ` set (js_delete k m) = fst ` set m - {k}"
  by (auto simp: AList.delete_eq)

interpretation memory_sink: projection_sink "\<lambda>r. addRoomMember (Some r)" "\<lambda>r. removeRoomMember (Some r)"
  "\<lambda>r. getRoomMembers (Some r)" bumpRoomSequence room_counter markEventProcessed isEventProcessed
proof
  fix r r' c t s
  show "set (getRoomMembers (Some r') (addRoomMember (Some r) c t s)) =
      set (getRoomMembers (Some r') s) \<union> (if r' = r then {c} else {})"
    by (auto simp: getRoomMembers_def addRoomMember_def Let_def AList.dom_update split: option.splits)
  show "set (getRoomMembers (Some r') (removeRoomMember (Some r) c s)) =
      set (getRoomMembers (Some r') s) - (if r' = r then {c} else {})"
    by (auto simp: getRoomMembers_def removeRoomMember_def delete_keys split: option.splits)
next
  fix r r' i s show "room_counter r' (bumpRoomSequence r i s) = room_counter r' s + (if r' = r then 1 else 0)"
    by (auto simp: room_counter_def getSequence_def bumpRoomSequence_def Let_def split: option.splits)
next
  fix n n' i i' s show "isEventProcessed n' i' (markEventProcessed n i s) \<longleftrightarrow> (n' = n \<and> i' = i) \<or> isEventProcessed n' i' s"
    by (auto simp: isEventProcessed_def markEventProcessed_def Let_def split: option.splits)
qed

lemma set_sql_members: "set (sql_getRoomMembers r t) = {c. (r, c) \<in> set (js_keys (st_members t))}"
  by (force simp: sql_getRoomMembers_def)

interpretation sql_sink: projection_sink sql_addRoomMember sql_removeRoomMember sql_getRoomMembers
  sql_bumpRoomSequence sql_room_counter sql_markEventProcessed sql_isEventProcessed
proof
  fix r r' c t s
  show "set (sql_getRoomMembers r' (sql_addRoomMember r c t s)) =
      set (sql_getRoomMembers r' s) \<union> (if r' = r then {c} else {})"
    by (auto simp: set_sql_members sql_addRoomMember_def AList.dom_update map_of_eq_None_iff)
  show "set (sql_getRoomMembers r' (sql_removeRoomMember r c s)) =
      set (sql_getRoomMembers r' s) - (if r' = r then {c} else {})"
    by (auto simp: set_sql_members sql_removeRoomMember_def delete_keys)
next
  fix r r' i s show "sql_room_counter r' (sql_bumpRoomSequence r i s) = sql_room_counter r' s + (if r' = r then 1 else 0)"
    by (auto simp: sql_room_counter_def sql_getSequence_def sql_bumpRoomSequence_def Let_def split: option.splits)
next
  fix n n' i i' s
  show "sql_isEventProcessed n' i' (sql_markEventProcessed n i s) \<longleftrightarrow> (n' = n \<and> i' = i) \<or> sql_isEventProcessed n' i' s"
    by (auto simp: sql_isEventProcessed_def sql_markEventProcessed_def)
qed

section \<open>The tables hold what the in-memory sink holds\<close>

definition sink_mirrors :: "sink \<Rightarrow> sql_tables \<Rightarrow> bool" where
  "sink_mirrors m t \<longleftrightarrow>
     (\<forall>c. js_get (st_vehicles t) c = map_option vehicle_values (js_get (vehicleStates m) c))
     \<and> (\<forall>c r. js_get (vehicleStates m) c = Some r \<longrightarrow> wf_map r)
     \<and> (\<forall>r. set (sql_getRoomMembers r t) = set (getRoomMembers (Some r) m))
     \<and> map snd (st_violations t) = geofenceViolations m
     \<and> js_keys (st_violations t) = map vio_eventId (geofenceViolations m)
     \<and> (\<forall>k. sql_getSequence k t = getSequence k m)
     \<and> (\<forall>k. sql_getCheckpoint k t = map_option fst (getCheckpoint k m))
     \<and> (\<forall>n i. sql_isEventProcessed n i t \<longleftrightarrow> isEventProcessed n i m)"

lemma sink_mirrors_init: "sink_mirrors sink_init sql_tables_init"
  by (simp add: sink_mirrors_def sink_init_def sql_tables_init_def set_sql_members getRoomMembers_def sql_getSequence_def
      getSequence_def sql_getCheckpoint_def getCheckpoint_def sql_isEventProcessed_def isEventProcessed_def)

text \<open>An event in order, whose values fit the columns.\<close>

definition in_order :: "sink \<Rightarrow> event \<Rightarrow> bool" where
  "in_order m e \<longleftrightarrow>
     (case sequenceNo e of
        None \<Rightarrow> False
      | Some n \<Rightarrow> 0 \<le> n
          \<and> (case js_get (vehicleStates m) (aggregateId e) of Some r \<Rightarrow> coalesce0 (int_col r ''lastSequence'') \<le> n | None \<Rightarrow> True)
          \<and> (case getSequence (''aggregate:'' @ aggregateId e) m of Some q \<Rightarrow> sq_sequence q \<le> n | None \<Rightarrow> True))
     \<and> (baseEventType (eventType e) = ''location_update'' \<longrightarrow> p_latitude (body e) \<noteq> None \<and> p_longitude (body e) \<noteq> None)
     \<and> (baseEventType (eventType e) \<in> {''room_joined'', ''room_left''} \<longrightarrow> p_roomId (body e) \<noteq> None)
     \<and> eventId e \<notin> vio_eventId ` set (geofenceViolations m)
     \<and> list_all key_fits (aggregateId e # List.map_filter id [p_fenceId (body e), p_roomId (body e)])"

lemma spread_get:
  "wf_map b \<Longrightarrow> js_get (spread a b) k = (case js_get b k of Some v \<Rightarrow> Some v | None \<Rightarrow> js_get a k)"
proof (induction b arbitrary: a)
  case (Cons p b)
  obtain k' v where p: "p = (k', v)" by fastforce
  have "js_get b k' = None" using Cons.prems p by (simp add: map_of_eq_None_iff)
  with Cons p show ?case by (auto simp: spread_def split: option.split)
qed (simp add: spread_def)

lemma wf_spread: "wf_map a \<Longrightarrow> wf_map (spread a b)"
  unfolding spread_def by (induction b arbitrary: a) (auto simp: AList.distinct_update)

lemma values_cong:
  "(\<And>k. js_get a k = js_get b k) \<Longrightarrow> vehicle_values a = vehicle_values b"
  by (simp add: vehicle_values_def row_rooms_def real_col_def time_col_def text_col_def int_col_def)

lemma spread_keeps: "js_get (spread p l) k = None \<Longrightarrow> js_get p k = None"
proof (induction l arbitrary: p)
  case (Cons q l)
  from Cons.prems have "js_get (spread (js_set (fst q) (snd q) p) l) k = None" by (simp add: spread_def case_prod_beta)
  from Cons.IH [OF this] show ?case by (simp split: if_splits)
qed (simp add: spread_def)

lemma spread_twice: "wf_map p \<Longrightarrow> vehicle_values (spread p (spread p l)) = vehicle_values (spread p l)"
  using spread_keeps [of p l] by (intro values_cong) (simp add: spread_get [OF wf_spread] split: option.split)

lemma real_col_out [simp]: "(case real_out x of RReal r \<Rightarrow> Some r | _ \<Rightarrow> None) = x"
  by (cases x) (simp_all add: real_out_def)

text \<open>The object the tables give for a row has the values of that row.\<close>

lemma vehicle_object_values [simp]: "vehicle_values (vehicle_object c v) = v"
  by (simp add: vehicle_values_def vehicle_object_def row_rooms_def real_col_def time_col_def text_col_def int_col_def
      split: option.split)

lemma time_of_newer: "newer r e = (case vr_location_updated_at (vehicle_values r) of Some t \<Rightarrow> t > timestamp e | None \<Rightarrow> False)"
  by (auto simp: newer_def vehicle_values_def time_col_def split: option.split rval.split)

lemma real_keep:
  "(case keep_or x p k of RReal r \<Rightarrow> Some r | _ \<Rightarrow> None) = (case x of Some r \<Rightarrow> Some r | None \<Rightarrow> real_col p k)"
  by (cases "js_get p k") (auto simp: keep_or_def real_col_def split: option.split rval.split)

lemma location_values:
  "vehicle_values (location_row p e) = (let v = vehicle_values p in v
     \<lparr>vr_latitude := p_latitude (body e), vr_longitude := p_longitude (body e),
      vr_altitude := coalesce (p_altitude (body e)) (vr_altitude v),
      vr_accuracy := coalesce (p_accuracy (body e)) (vr_accuracy v),
      vr_speed := coalesce (p_speed (body e)) (vr_speed v), vr_location_updated_at := Some (timestamp e),
      vr_last_event_id := Some (eventId e), vr_last_sequence := sequenceNo e\<rparr>)"
  by (simp add: location_row_def spread_def vehicle_values_def row_rooms_def real_col_def [of "js_set _ _ _"] time_col_def
      text_col_def int_col_def real_keep coalesce_def opt_real_def opt_int_def split: option.split)

lemma membership_values:
  "sequenceNo e \<noteq> None \<Longrightarrow> vehicle_values (membership_row j p e) = (let v = vehicle_values p in v
     \<lparr>vr_rooms := (if j then js_add (p_roomId (body e)) (set_from (vr_rooms v))
                  else removeAll (p_roomId (body e)) (set_from (vr_rooms v))),
      vr_last_event_id := Some (eventId e), vr_last_sequence := sequenceNo e\<rparr>)"
  by (auto simp: membership_row_def Let_def spread_def vehicle_values_def row_rooms_def real_col_def time_col_def
      text_col_def int_col_def)

lemma coalesce_again [simp]: "coalesce (coalesce a b) b = coalesce a b" "coalesce a a = a" "coalesce (Some x) b = Some x"
  by (simp_all add: coalesce_def split: option.split)

lemma conflict_newest:
  assumes "vr_last_sequence x = Some n" and "coalesce0 (vr_last_sequence v) \<le> n"
    and "vr_latitude x = coalesce a (vr_latitude v)" and "vr_longitude x = coalesce b (vr_longitude v)"
    and "vr_altitude x = coalesce c (vr_altitude v)" and "vr_accuracy x = coalesce d (vr_accuracy v)"
    and "vr_speed x = coalesce f (vr_speed v)" and "vr_location_updated_at x = coalesce g (vr_location_updated_at v)"
    and "vr_last_event_id x = coalesce h (vr_last_event_id v)"
  shows "vehicle_conflict x v = x"
  using assms by (cases x) (simp add: vehicle_conflict_def coalesce0_def max_def)

text \<open>One step of the vehicle view: both sinks write the same values.\<close>

lemma upsert_mirrors:
  assumes "sink_mirrors m t" and "vehicle_values rs = x" and "vehicle_values (spread prev rm) = x"
    and "prev = (case js_get (vehicleStates m) c of Some r \<Rightarrow> r | None \<Rightarrow> [])"
    and "js_get (vehicleStates m) c \<noteq> None \<Longrightarrow> vehicle_conflict x (vehicle_values prev) = x"
  shows "sink_mirrors (upsertVehicleState c rm m) (sql_upsertVehicleState c rs t)"
proof -
  have "wf_map prev" using assms(1,4) by (auto simp: sink_mirrors_def split: option.split)
  then have wf: "wf_map (spread prev rm)" by (rule wf_spread)
  have "js_get (st_vehicles (sql_upsertVehicleState c rs t)) c' =
      map_option vehicle_values (js_get (vehicleStates (upsertVehicleState c rm m)) c')" for c'
    using assms by (cases "js_get (vehicleStates m) c")
      (auto simp: sql_upsertVehicleState_def upsertVehicleState_def Let_def sink_mirrors_def)
  moreover have "js_get (vehicleStates (upsertVehicleState c rm m)) c' = Some r \<Longrightarrow> wf_map r" for c' r
    using assms(1,4) wf by (auto simp: upsertVehicleState_def sink_mirrors_def split: if_splits)
  moreover have "getSequence k (upsertVehicleState c rm m) = getSequence k m" "getCheckpoint k (upsertVehicleState c rm m) = getCheckpoint k m"
    "isEventProcessed n i (upsertVehicleState c rm m) = isEventProcessed n i m"
    "getRoomMembers r (upsertVehicleState c rm m) = getRoomMembers r m"
    "geofenceViolations (upsertVehicleState c rm m) = geofenceViolations m" for k n i r
    by (simp_all add: upsertVehicleState_def getSequence_def getCheckpoint_def isEventProcessed_def getRoomMembers_def)
  moreover have "sql_getSequence k (sql_upsertVehicleState c rs t) = sql_getSequence k t"
    "sql_getCheckpoint k (sql_upsertVehicleState c rs t) = sql_getCheckpoint k t"
    "sql_isEventProcessed n i (sql_upsertVehicleState c rs t) = sql_isEventProcessed n i t"
    "sql_getRoomMembers r (sql_upsertVehicleState c rs t) = sql_getRoomMembers r t"
    "st_violations (sql_upsertVehicleState c rs t) = st_violations t" for k n i r
    by (simp_all add: sql_upsertVehicleState_def sql_getSequence_def sql_getCheckpoint_def sql_isEventProcessed_def
        sql_getRoomMembers_def Let_def)
  ultimately show ?thesis using assms(1) by (simp add: sink_mirrors_def)
qed

lemma vehicle_step:
  assumes "sink_mirrors m t" and "in_order m e"
  shows "\<exists>t'. sql_vehicleState_handle e t = Inr t' \<and> sink_mirrors (vehicleState_handle e m) t'"
proof -
  let ?c = "aggregateId e"
  define pm where "pm = (case getVehicleState ?c m of Some r \<Rightarrow> r | None \<Rightarrow> [])"
  define ps where "ps = (case sql_getVehicleState ?c t of Some r \<Rightarrow> r | None \<Rightarrow> [])"
  have same: "vehicle_values ps = vehicle_values pm"
    using assms(1) by (cases "js_get (vehicleStates m) ?c")
      (simp_all add: ps_def pm_def sql_getVehicleState_def getVehicleState_def sink_mirrors_def)
  have prev: "pm = (case js_get (vehicleStates m) ?c of Some r \<Rightarrow> r | None \<Rightarrow> [])" by (simp add: pm_def getVehicleState_def)
  have wf: "wf_map pm" using assms(1) by (auto simp: prev sink_mirrors_def split: option.split)
  obtain n where n: "sequenceNo e = Some n" "0 \<le> n" using assms(2) by (auto simp: in_order_def split: option.splits)
  have seq: "coalesce0 (vr_last_sequence (vehicle_values pm)) \<le> n"
    using assms(2) n by (auto simp: in_order_def prev vehicle_values_def int_col_def coalesce0_def split: option.splits)
  have fits: "key_fits ?c" using assms(2) by (simp add: in_order_def)
  have newer: "newer ps e = newer pm e" by (simp add: time_of_newer same)
  have loc: "sink_mirrors (upsertVehicleState ?c (location_row pm e) m) (sql_upsertVehicleState ?c (location_row ps e) t)"
    if "baseEventType (eventType e) = ''location_update''"
  proof (rule upsert_mirrors [OF assms(1) _ _ prev])
    have pos: "p_latitude (body e) \<noteq> None" "p_longitude (body e) \<noteq> None" using assms(2) that by (auto simp: in_order_def)
    show "vehicle_values (location_row ps e) = vehicle_values (location_row pm e)"
      by (simp add: location_values same)
    show "vehicle_values (spread pm (location_row pm e)) = vehicle_values (location_row pm e)"
      unfolding location_row_def by (rule spread_twice [OF wf])
    show "vehicle_conflict (vehicle_values (location_row pm e)) (vehicle_values pm) = vehicle_values (location_row pm e)"
      using pos seq n
      by (intro conflict_newest [where n = n and a = "p_latitude (body e)" and b = "p_longitude (body e)"
            and c = "p_altitude (body e)" and d = "p_accuracy (body e)" and f = "p_speed (body e)"
            and g = "Some (timestamp e)" and h = "Some (eventId e)"]) (auto simp: location_values Let_def coalesce_def)
  qed
  have mem: "sink_mirrors (upsertVehicleState ?c (membership_row j pm e) m) (sql_upsertVehicleState ?c (membership_row j ps e) t)" for j
  proof (rule upsert_mirrors [OF assms(1) _ _ prev])
    show "vehicle_values (membership_row j ps e) = vehicle_values (membership_row j pm e)"
      using n by (simp add: membership_values same)
    show "vehicle_values (spread pm (membership_row j pm e)) = vehicle_values (membership_row j pm e)"
      unfolding membership_row_def Let_def by (rule spread_twice [OF wf])
    show "vehicle_conflict (vehicle_values (membership_row j pm e)) (vehicle_values pm) = vehicle_values (membership_row j pm e)"
      using seq n by (intro conflict_newest [where n = n and a = None and b = None and c = None and d = None and f = None
          and g = None and h = "Some (eventId e)"]) (auto simp: membership_values Let_def coalesce_def)
  qed
  show ?thesis
    using assms(1) fits loc mem newer
    by (auto simp: sql_vehicleState_handle_def vehicleState_handle_def Let_def pm_def [symmetric] ps_def [symmetric])
qed

lemma membership_step:
  assumes "sink_mirrors m t" and "in_order m0 e"
  shows "\<exists>t'. sql_roomMembership_handle e t = Inr t' \<and> sink_mirrors (roomMembership_handle e m) t'"
proof -
  have "sink_mirrors (addRoomMember (Some r) c j m) (sql_addRoomMember r c j t)"
    "sink_mirrors (removeRoomMember (Some r) c m) (sql_removeRoomMember r c t)" for r c j
  proof -
    have tables: "st_vehicles (sql_addRoomMember r c j t) = st_vehicles t" "st_violations (sql_addRoomMember r c j t) = st_violations t"
      "sql_getSequence k (sql_addRoomMember r c j t) = sql_getSequence k t"
      "sql_getCheckpoint k (sql_addRoomMember r c j t) = sql_getCheckpoint k t"
      "sql_isEventProcessed n i (sql_addRoomMember r c j t) = sql_isEventProcessed n i t"
      "st_vehicles (sql_removeRoomMember r c t) = st_vehicles t" "st_violations (sql_removeRoomMember r c t) = st_violations t"
      "sql_getSequence k (sql_removeRoomMember r c t) = sql_getSequence k t"
      "sql_getCheckpoint k (sql_removeRoomMember r c t) = sql_getCheckpoint k t"
      "sql_isEventProcessed n i (sql_removeRoomMember r c t) = sql_isEventProcessed n i t" for k n i
      by (simp_all add: sql_addRoomMember_def sql_removeRoomMember_def sql_getSequence_def sql_getCheckpoint_def sql_isEventProcessed_def)
    have views: "vehicleStates (addRoomMember (Some r) c j m) = vehicleStates m" "getCheckpoint k (addRoomMember (Some r) c j m) = getCheckpoint k m"
      "vehicleStates (removeRoomMember (Some r) c m) = vehicleStates m" "getCheckpoint k (removeRoomMember (Some r) c m) = getCheckpoint k m"
      "getSequence k (addRoomMember (Some r) c j m) = getSequence k m" "getSequence k (removeRoomMember (Some r) c m) = getSequence k m"
      "isEventProcessed n i (addRoomMember (Some r) c j m) = isEventProcessed n i m"
      "isEventProcessed n i (removeRoomMember (Some r) c m) = isEventProcessed n i m" for k n i
      by (simp_all add: addRoomMember_def removeRoomMember_def getCheckpoint_def getSequence_def isEventProcessed_def Let_def split: option.split)
    show "sink_mirrors (addRoomMember (Some r) c j m) (sql_addRoomMember r c j t)"
      "sink_mirrors (removeRoomMember (Some r) c m) (sql_removeRoomMember r c t)"
      using assms(1)
      by (simp_all add: sink_mirrors_def tables views sql_sink.members_add memory_sink.members_add sql_sink.members_remove memory_sink.members_remove)
  qed
  moreover have "key_fits r \<and> key_fits (aggregateId e)" if "p_roomId (body e) = Some r" for r
    using assms(2) that by (cases "p_fenceId (body e)") (simp_all add: in_order_def List.map_filter_simps)
  moreover have "p_roomId (body e) \<noteq> None" if "baseEventType (eventType e) = ''room_joined'' \<or> baseEventType (eventType e) = ''room_left''"
    using assms(2) that by (auto simp: in_order_def)
  ultimately show ?thesis
    using assms(1) by (cases "p_roomId (body e)") (auto simp: sql_roomMembership_handle_def roomMembership_handle_def Let_def)
qed

lemma violation_step:
  assumes "sink_mirrors m t" and "in_order m0 e" and "eventId e \<notin> vio_eventId ` set (geofenceViolations m)"
  shows "\<exists>t'. sql_geofenceViolation_handle e t = Inr t' \<and> sink_mirrors (geofenceViolation_handle e m) t'"
proof (cases "is_crossing e")
  case True
  let ?v = "violation_of e"
  have "fst ` set (st_violations t) = vio_eventId ` set (geofenceViolations m)"
    using assms(1) by (metis sink_mirrors_def set_map)
  then have new: "js_get (st_violations t) (vio_eventId ?v) = None"
    using assms(3) by (simp add: map_of_eq_None_iff violation_of_def)
  then have row: "js_set (vio_eventId ?v) ?v (st_violations t) = st_violations t @ [(vio_eventId ?v, ?v)]"
    by (rule js_set_absent)
  have t': "sql_addGeofenceViolation ?v t = t\<lparr>st_violations := st_violations t @ [(vio_eventId ?v, ?v)]\<rparr>"
    using new row by (simp add: sql_addGeofenceViolation_def)
  have "sink_mirrors (addGeofenceViolation ?v m) (sql_addGeofenceViolation ?v t)"
    using assms(1) unfolding t'
    by (simp add: sink_mirrors_def addGeofenceViolation_def getSequence_def sql_getSequence_def getCheckpoint_def
        sql_getCheckpoint_def isEventProcessed_def sql_isEventProcessed_def getRoomMembers_def sql_getRoomMembers_def)
  with True assms(2) show ?thesis
    by (simp add: sql_geofenceViolation_handle_def geofenceViolation_handle_def in_order_def)
qed (use assms(1) in \<open>simp add: sql_geofenceViolation_handle_def geofenceViolation_handle_def\<close>)

lemma sequence_row_mirrors:
  assumes "sink_mirrors m t"
  shows "sink_mirrors (m\<lparr>sequences := js_set k q (sequences m)\<rparr>) (t\<lparr>st_sequences := js_set k q (st_sequences t)\<rparr>)"
  using assms
  by (simp add: sink_mirrors_def getSequence_def sql_getSequence_def getCheckpoint_def sql_getCheckpoint_def
      isEventProcessed_def sql_isEventProcessed_def getRoomMembers_def sql_getRoomMembers_def)

lemma sequence_step:
  assumes "sink_mirrors m t" and "in_order m0 e" and "sequences m = sequences m0"
  shows "\<exists>t'. sql_sequence_handle e t = Inr t' \<and> sink_mirrors (sequence_handle e m) t'"
proof -
  obtain n where n: "sequenceNo e = Some n" "0 \<le> n" using assms(2) by (auto simp: in_order_def split: option.splits)
  let ?k = "''aggregate:'' @ aggregateId e" and ?q = "\<lparr>sq_sequence = n, sq_eventId = eventId e\<rparr>"
  have same: "js_get (st_sequences t) k = js_get (sequences m) k" if "sink_mirrors m t" for k m t
    using that by (simp add: sink_mirrors_def sql_getSequence_def getSequence_def)
  have "(case js_get (sequences m) ?k of Some q \<Rightarrow> sq_sequence q \<le> n | None \<Rightarrow> True)"
    using assms(2,3) n by (simp add: in_order_def getSequence_def)
  then have mem: "setSequence ?k n (eventId e) m = m\<lparr>sequences := js_set ?k ?q (sequences m)\<rparr>"
    and sql: "sql_setSequence ?k n (eventId e) t = t\<lparr>st_sequences := js_set ?k ?q (st_sequences t)\<rparr>"
    using n same [OF assms(1), of ?k]
    by (auto simp: setSequence_def sql_setSequence_def Let_def max_def split: option.splits)
  have one: "sink_mirrors (setSequence ?k n (eventId e) m) (sql_setSequence ?k n (eventId e) t)"
    unfolding mem sql by (rule sequence_row_mirrors [OF assms(1)])
  have "sink_mirrors (bumpRoomSequence r i m') (sql_bumpRoomSequence r i t')" if "sink_mirrors m' t'" for r i m' t'
    using sequence_row_mirrors [OF that] same [OF that]
    by (auto simp: bumpRoomSequence_def sql_bumpRoomSequence_def Let_def split: option.split)
  with one show ?thesis
    by (auto simp: sql_sequence_handle_def sequence_handle_def Let_def n split: option.split)
qed

lemma mark_mirrors:
  assumes "sink_mirrors m t"
  shows "sink_mirrors (setCheckpoint n i j (markEventProcessed n i m)) (sql_setCheckpoint n i (sql_markEventProcessed n i t))"
proof -
  have "isEventProcessed n' i' (setCheckpoint n i j (markEventProcessed n i m)) \<longleftrightarrow> (n' = n \<and> i' = i) \<or> isEventProcessed n' i' m" for n' i'
    using memory_sink.marked_mark [of n' i' n i m] by (simp add: setCheckpoint_def isEventProcessed_def)
  moreover have "sql_isEventProcessed n' i' (sql_setCheckpoint n i (sql_markEventProcessed n i t)) \<longleftrightarrow>
      (n' = n \<and> i' = i) \<or> sql_isEventProcessed n' i' t" for n' i'
    using sql_sink.marked_mark [of n' i' n i t] by (simp add: sql_setCheckpoint_def sql_isEventProcessed_def)
  ultimately show ?thesis
    using assms unfolding sink_mirrors_def
    by (simp add: setCheckpoint_def sql_setCheckpoint_def markEventProcessed_def sql_markEventProcessed_def getSequence_def
        sql_getSequence_def getCheckpoint_def sql_getCheckpoint_def getRoomMembers_def sql_getRoomMembers_def Let_def)
qed

definition sql_project_all :: "event \<Rightarrow> sql_tables \<Rightarrow> sql_tables" where
  "sql_project_all e t = fold (sql_project_one e) sql_projections t"

text \<open>
  C19. The tables follow the in-memory sink. Whatever the two sinks hold in common, projecting an event that
  comes in order and fits the columns keeps in common: the values of every vehicle, the members of every
  room, the violations, the counters, the checkpoints and the marks of processed events.
\<close>
theorem sql_sink_simulates:
  assumes "sink_mirrors m t" and "in_order m e"
  shows "sink_mirrors (project_all e m) (sql_project_all e t)"
proof -
  define mk where "mk = (\<lambda>n m. setCheckpoint n (eventId e) (timestamp e) (markEventProcessed n (eventId e) m))"
  define sk where "sk = (\<lambda>n t. sql_setCheckpoint n (eventId e) (sql_markEventProcessed n (eventId e) t))"
  have mark: "sink_mirrors m t \<Longrightarrow> sink_mirrors (mk n m) (sk n t)" for n m t
    unfolding mk_def sk_def by (rule mark_mirrors)
  have keep: "sequences (mk n m) = sequences m" "geofenceViolations (mk n m) = geofenceViolations m" for n m
    by (simp_all add: mk_def)
  obtain t1 where t1: "sql_vehicleState_handle e t = Inr t1" and 1: "sink_mirrors (vehicleState_handle e m) t1"
    using vehicle_step [OF assms] by auto
  let ?m1 = "mk ''vehicle_state'' (vehicleState_handle e m)"
  obtain t2 where t2: "sql_roomMembership_handle e (sk ''vehicle_state'' t1) = Inr t2"
    and 2: "sink_mirrors (roomMembership_handle e ?m1) t2"
    using membership_step [OF mark [OF 1] assms(2)] by blast
  let ?m2 = "mk ''room_membership'' (roomMembership_handle e ?m1)"
  have "eventId e \<notin> vio_eventId ` set (geofenceViolations ?m2)" using assms(2) by (simp add: keep in_order_def)
  then obtain t3 where t3: "sql_geofenceViolation_handle e (sk ''room_membership'' t2) = Inr t3"
    and 3: "sink_mirrors (geofenceViolation_handle e ?m2) t3"
    using violation_step [OF mark [OF 2] assms(2)] by blast
  let ?m3 = "mk ''geofence_violations'' (geofenceViolation_handle e ?m2)"
  have "sequences ?m3 = sequences m" by (simp add: keep)
  then obtain t4 where t4: "sql_sequence_handle e (sk ''geofence_violations'' t3) = Inr t4"
    and 4: "sink_mirrors (sequence_handle e ?m3) t4"
    using sequence_step [OF mark [OF 3] assms(2)] by blast
  have one: "sql_project_one e (n, h) t = sk n t'" if "h e t = Inr t'" for n h t t'
    by (simp add: sql_project_one_def sk_def that)
  have "sql_project_all e t = sk ''sequence'' t4"
    by (simp add: sql_project_all_def sql_projections_def one [of sql_vehicleState_handle, OF t1]
        one [of sql_roomMembership_handle, OF t2] one [of sql_geofenceViolation_handle, OF t3] one [of sql_sequence_handle, OF t4])
  moreover have "project_all e m = mk ''sequence'' (sequence_handle e ?m3)"
    by (simp add: project_all_def default_projections_eq project_one_def interested_def mk_def)
  ultimately show ?thesis using mark [OF 4] by simp
qed

definition sink_event :: event where
  "sink_event = \<lparr>eventId = ''e'', eventType = ''room_joined'', aggregateId = ''c1'', aggregateType = ''vehicle'',
     sequenceNo = Some 1, body = no_payload\<lparr>p_roomId := Some ''x''\<rparr>, metadata = JObj [], timestamp = 5,
     causationId = None, correlationId = None\<rparr>"

theorem sql_sink_simulates_witness:
  "sink_mirrors (project_all sink_event sink_init) (sql_project_all sink_event sql_tables_init)
   \<and> sql_getRoomMembers ''x'' (sql_project_all sink_event sql_tables_init) = [''c1'']"
proof
  have "baseEventType ''room_joined'' = ''room_joined''" by code_simp
  then have "in_order sink_init sink_event"
    by (simp add: in_order_def sink_event_def sink_init_def getSequence_def key_fits_def no_payload_def List.map_filter_simps)
  with sql_sink_simulates [OF sink_mirrors_init]
  show "sink_mirrors (project_all sink_event sink_init) (sql_project_all sink_event sql_tables_init)" .
  show "sql_getRoomMembers ''x'' (sql_project_all sink_event sql_tables_init) = [''c1'']" by code_simp
qed

text \<open>
  A late event renames a counter. When the number is behind the stored one, the in-memory sink ignores the
  event; the table keeps the number, but the row names the late event.
\<close>

lemma late_event_renames:
  assumes "sink_mirrors m t" and "getSequence k m = Some q" and "n < sq_sequence q"
  shows "getSequence k (setSequence k n i m) = Some q"
    and "sql_getSequence k (sql_setSequence k n i t) = Some \<lparr>sq_sequence = sq_sequence q, sq_eventId = i\<rparr>"
proof -
  have "js_get (st_sequences t) k = Some q"
    using assms(1,2) by (simp add: sink_mirrors_def sql_getSequence_def)
  then show "sql_getSequence k (sql_setSequence k n i t) = Some \<lparr>sq_sequence = sq_sequence q, sq_eventId = i\<rparr>"
    using assms(3) by (simp add: sql_getSequence_def sql_setSequence_def Let_def max_def)
qed (use assms in \<open>simp add: getSequence_def setSequence_def Let_def\<close>)

end
