(* ===== verification/PgRows.thy ===== *)
theory PgRows
  imports Prelude
begin

text \<open>
  The rows a PostgreSQL statement visits. A table has no order: \<open>ORDER BY\<close> fixes the order of the
  result only up to rows with the same key. A \<open>scan\<close> is the order in which a statement visits its rows,
  any permutation of them; the lemmas say what of a sorted result does not depend on it.
\<close>

definition any_order :: "('r list \<Rightarrow> 'r list) \<Rightarrow> bool" where
  "any_order scan \<longleftrightarrow> (\<forall>rows. mset (scan rows) = mset rows)"

lemma any_orderD: "any_order scan \<Longrightarrow> mset (scan rows) = mset rows"
  by (simp add: any_order_def)

lemma any_order_set: "any_order scan \<Longrightarrow> set (scan rows) = set rows"
  using any_orderD mset_eq_setD by blast

lemma any_order_length: "any_order scan \<Longrightarrow> length (scan rows) = length rows"
  using any_orderD mset_eq_length by blast

lemma any_order_rev [simp]: "any_order rev" "any_order (\<lambda>rows. rows)"
  by (simp_all add: any_order_def)

text \<open>The keys of a sorted result never depend on the scan.\<close>

lemma sorted_keys:
  assumes "any_order scan"
  shows "map f (sort_key f (scan xs)) = map f (sort_key f xs)"
proof -
  have "sort (map f (scan xs)) = sort (map f xs)"
    using any_orderD [OF assms, of xs] by (intro properties_for_sort) simp_all
  then show ?thesis using sort_key_map [of f "\<lambda>x. x"] by simp
qed

text \<open>When the keys are distinct, neither does the result.\<close>

lemma sorted_rows:
  assumes "any_order scan" and "inj_on f (set xs)"
  shows "sort_key f (scan xs) = sort_key f xs"
  using assms(2) any_orderD [OF assms(1), of xs] any_order_set [OF assms(1), of xs]
  by (intro sort_key_inj_key_eq) simp_all

end
