(* ===== verification/PgEventStore.thy ===== *)
theory PgEventStore
  imports EventStore PgRows
begin

text \<open>
  \<open>PostgresEventStore\<close> of \<open>src/event-sourcing.js\<close>.

  \<^item> The tables \<open>events\<close> and \<open>snapshots\<close> are lists of rows, and each SQL statement of the class is a
    function on them that does what the statement says. \<open>events\<close> has no unique index: its three indexes
    are plain ones.
  \<^item> A column that does not take a value makes the statement fail: an id that is no UUID, a text longer
    than its \<open>VARCHAR\<close>, a day without a partition. A failed statement ends its transaction.
  \<^item> The initialisation passes a bind parameter to a \<open>DO\<close> block. PostgreSQL takes none there, so
    every operation fails at its initialisation; \<open>pe_do_params\<close> is a server that would take it.
  \<^item> Rows with the same \<open>ORDER BY\<close> key come in any order: \<open>pe_scan\<close> is the order in which a statement
    visits its rows.
  \<^item> Transactions run at PostgreSQL's default isolation level: a statement sees what is committed when it
    starts. \<open>pg_append\<close> is an append nothing runs beside; \<open>run_schedule\<close> interleaves appends.
  \<^item> \<open>JSON.stringify\<close> followed by the \<open>JSONB\<close> column gives the value back; day boundaries are those of
    the session's time zone, taken as UTC.
\<close>

declare map_of_eq_Some_iff [simp del] Some_eq_map_of_iff [simp del]

section \<open>Tables\<close>

record ev_row =
  er_event_id :: string
  er_event_type :: string
  er_aggregate_id :: string
  er_aggregate_type :: string
  er_sequence :: int
  er_payload :: payload
  er_metadata :: json
  er_timestamp :: time
  er_causation_id :: "string option"
  er_correlation_id :: "string option"

text \<open>\<open>db_days\<close> are the days that have a partition.\<close>

record 'saved pg_db =
  db_events :: "ev_row list"
  db_snapshots :: "(string, 'saved snapshot) jsmap"
  db_days :: "int list"

record pg_store =
  ps_ready :: bool
  ps_closed :: bool
  ps_appends_total :: int

definition pg_store_init :: pg_store where
  "pg_store_init = \<lparr>ps_ready = False, ps_closed = False, ps_appends_total = 0\<rparr>"

text \<open>
  \<open>pe_init\<close> is the error of connecting and creating the tables, if any; \<open>pe_do_params\<close> tells whether the
  server takes a bind parameter for a \<open>DO\<close> block; \<open>pe_partition\<close> tells whether the statement that
  creates a partition succeeds; \<open>pe_today\<close> is the current day.
\<close>

record pg_env =
  pe_init :: "string option"
  pe_do_params :: bool
  pe_partition :: bool
  pe_today :: int
  pe_ahead :: nat
  pe_uuid :: "string \<Rightarrow> bool"
  pe_scan :: "ev_row list \<Rightarrow> ev_row list"

definition day_of :: "time \<Rightarrow> int" where
  "day_of t = t div 86400000"

definition do_params_refused :: es_error where
  "do_params_refused = EsError ''bind message supplies 1 parameters, but prepared statement requires 0''"

definition pg_init :: "pg_env \<Rightarrow> pg_store \<Rightarrow> 'saved pg_db \<Rightarrow> es_error option \<times> pg_store \<times> 'saved pg_db" where
  "pg_init env p db =
     (if ps_ready p then (None, p, db)
      else case pe_init env of
             Some m \<Rightarrow> (Some (EsError m), p, db)
           | None \<Rightarrow>
               if \<not> pe_do_params env then (Some do_params_refused, p, db)
               else (None, p\<lparr>ps_ready := True\<rparr>,
                 db\<lparr>db_days := db_days db @ [pe_today env - 1..pe_today env + int (pe_ahead env)]\<rparr>))"

definition ensurePartition :: "pg_env \<Rightarrow> time \<Rightarrow> 'saved pg_db \<Rightarrow> 'saved pg_db" where
  "ensurePartition env t db = (if pe_partition env then db\<lparr>db_days := db_days db @ [day_of t]\<rparr> else db)"

section \<open>Append\<close>

definition to_row :: "event \<Rightarrow> ev_row" where
  "to_row e = \<lparr>er_event_id = eventId e, er_event_type = take 100 (eventType e),
     er_aggregate_id = aggregateId e, er_aggregate_type = aggregateType e,
     er_sequence = seq_of e, er_payload = body e, er_metadata = metadata e, er_timestamp = timestamp e,
     er_causation_id = causationId e, er_correlation_id = correlationId e\<rparr>"

definition hydrateEventRow :: "ev_row \<Rightarrow> event" where
  "hydrateEventRow r = \<lparr>eventId = er_event_id r, eventType = er_event_type r,
     aggregateId = er_aggregate_id r, aggregateType = er_aggregate_type r,
     sequenceNo = Some (er_sequence r), body = er_payload r, metadata = er_metadata r,
     timestamp = er_timestamp r, causationId = er_causation_id r, correlationId = er_correlation_id r\<rparr>"

text \<open>The column types of \<open>events\<close>, and the partition of the row.\<close>

definition row_fits :: "pg_env \<Rightarrow> int list \<Rightarrow> ev_row \<Rightarrow> bool" where
  "row_fits env days r \<longleftrightarrow>
     pe_uuid env (er_event_id r) \<and> length (er_aggregate_id r) \<le> 255 \<and> length (er_aggregate_type r) \<le> 50
     \<and> list_all (pe_uuid env) (case er_causation_id r of Some i \<Rightarrow> [i] | None \<Rightarrow> [])
     \<and> list_all (pe_uuid env) (case er_correlation_id r of Some i \<Rightarrow> [i] | None \<Rightarrow> [])
     \<and> day_of (er_timestamp r) \<in> set days"

text \<open>\<open>SELECT COALESCE(MAX(sequence), 0) FROM events WHERE aggregate_id = $1\<close>\<close>

definition max_sequence :: "string \<Rightarrow> ev_row list \<Rightarrow> int" where
  "max_sequence i rows =
     (let ns = map er_sequence (filter (\<lambda>r. er_aggregate_id r = i) rows)
      in if ns = [] then 0 else foldr max (tl ns) (hd ns))"

text \<open>The version check at the start of the transaction.\<close>

definition check_version :: "string \<Rightarrow> int option \<Rightarrow> ev_row list \<Rightarrow> es_error option" where
  "check_version i expectedSequence rows =
     (case expectedSequence of
        None \<Rightarrow> None
      | Some n \<Rightarrow>
          (let actual = max_sequence i rows
           in if actual \<noteq> n
              then Some (EsError (''Concurrency conflict on aggregate '' @ i @ '': expected '' @ int_str n
                     @ '', actual '' @ int_str actual))
              else None))"

definition insert_batch :: "pg_env \<Rightarrow> event list \<Rightarrow> 'saved pg_db \<Rightarrow> es_error + 'saved pg_db" where
  "insert_batch env events db =
     (if list_all (row_fits env (db_days db)) (map to_row events)
      then Inr (db\<lparr>db_events := db_events db @ map to_row events\<rparr>)
      else Inl (EsError ''invalid input''))"

text \<open>What \<open>append\<close> does before its transaction.\<close>

definition pg_begin ::
    "pg_env \<Rightarrow> event list \<Rightarrow> pg_store \<Rightarrow> 'saved pg_db \<Rightarrow> es_error option \<times> pg_store \<times> 'saved pg_db" where
  "pg_begin env events p db =
     (if ps_closed p then (Some (EsError ''PostgresEventStore is closed''), p, db)
      else case assertAppendable events of
             Some err \<Rightarrow> (Some err, p, db)
           | None \<Rightarrow>
               (case pg_init env p db of
                  (Some err, p1, db1) \<Rightarrow> (Some err, p1, db1)
                | (None, p1, db1) \<Rightarrow> (None, p1, ensurePartition env (timestamp (hd events)) db1)))"

definition pg_append ::
    "pg_env \<Rightarrow> event list \<Rightarrow> int option \<Rightarrow> pg_store \<times> 'saved pg_db \<Rightarrow> (es_error + event list) \<times> pg_store \<times> 'saved pg_db" where
  "pg_append env events expectedSequence = (\<lambda>(p, db).
     case pg_begin env events p db of
       (Some err, p1, db1) \<Rightarrow> (Inl err, p1, db1)
     | (None, p1, db1) \<Rightarrow>
         (case check_version (aggregateId (hd events)) expectedSequence (db_events db1) of
            Some err \<Rightarrow> (Inl err, p1, db1)
          | None \<Rightarrow>
              (case insert_batch env events db1 of
                 Inl err \<Rightarrow> (Inl err, p1, db1)
               | Inr db2 \<Rightarrow> (Inr events, p1\<lparr>ps_appends_total := ps_appends_total p1 + 1\<rparr>, db2))))"

section \<open>Reads and snapshots\<close>

text \<open>What every read does first; \<open>r\<close> is computed on the database the connection leaves.\<close>

definition pg_read ::
    "pg_env \<Rightarrow> ('saved pg_db \<Rightarrow> 'b) \<Rightarrow> pg_store \<times> 'saved pg_db \<Rightarrow> (es_error + 'b) \<times> pg_store \<times> 'saved pg_db" where
  "pg_read env r = (\<lambda>(p, db).
     if ps_closed p then (Inl (EsError ''PostgresEventStore is closed''), p, db)
     else case pg_init env p db of
            (Some err, p1, db1) \<Rightarrow> (Inl err, p1, db1)
          | (None, p1, db1) \<Rightarrow> (Inr (r db1), p1, db1))"

text \<open>The rows of an aggregate between two sequence numbers, \<open>ORDER BY sequence ASC\<close>.\<close>

definition select_stream :: "pg_env \<Rightarrow> string \<Rightarrow> int option \<Rightarrow> int option \<Rightarrow> 'saved pg_db \<Rightarrow> event list" where
  "select_stream env i fromSequence toSequence db =
     (let from = (case fromSequence of Some n \<Rightarrow> n | None \<Rightarrow> 1);
          to = (case toSequence of Some n \<Rightarrow> n | None \<Rightarrow> 9007199254740991)
      in map hydrateEventRow (sort_key er_sequence
           (pe_scan env (filter (\<lambda>r. er_aggregate_id r = i \<and> from \<le> er_sequence r \<and> er_sequence r \<le> to) (db_events db)))))"

definition pg_getEvents where
  "pg_getEvents env i fromSequence toSequence = pg_read env (select_stream env i fromSequence toSequence)"

definition select_correlation :: "pg_env \<Rightarrow> string \<Rightarrow> 'saved pg_db \<Rightarrow> event list" where
  "select_correlation env c db =
     map hydrateEventRow (sort_key (\<lambda>r. (er_timestamp r, er_event_id r))
       (pe_scan env (filter (\<lambda>r. er_correlation_id r = Some c) (db_events db))))"

text \<open>An empty correlation id is answered before the connection is made.\<close>

definition pg_getEventsByCorrelation ::
    "pg_env \<Rightarrow> string \<Rightarrow> pg_store \<times> 'saved pg_db \<Rightarrow> (es_error + event list) \<times> pg_store \<times> 'saved pg_db" where
  "pg_getEventsByCorrelation env c = (\<lambda>(p, db).
     if \<not> ps_closed p \<and> c = [] then (Inr [], p, db) else pg_read env (select_correlation env c) (p, db))"

definition select_after :: "pg_env \<Rightarrow> string option \<Rightarrow> nat \<Rightarrow> 'saved pg_db \<Rightarrow> event list" where
  "select_after env after limit db =
     map hydrateEventRow (take limit (sort_key er_event_id (pe_scan env
       (case after of
          Some i \<Rightarrow> if i = [] then db_events db else filter (\<lambda>r. i < er_event_id r) (db_events db)
        | None \<Rightarrow> db_events db))))"

definition pg_getEventsAfter where
  "pg_getEventsAfter env after limit = pg_read env (select_after env after limit)"

definition pg_getSnapshot where
  "pg_getSnapshot env i = pg_read env (\<lambda>db. js_get (db_snapshots db) i)"

definition pg_saveSnapshot ::
    "pg_env \<Rightarrow> 'saved snapshot \<Rightarrow> pg_store \<times> 'saved pg_db \<Rightarrow> (es_error + unit) \<times> pg_store \<times> 'saved pg_db" where
  "pg_saveSnapshot env snap = (\<lambda>(p, db).
     case pg_read env (\<lambda>_. ()) (p, db) of
       (Inl err, p1, db1) \<Rightarrow> (Inl err, p1, db1)
     | (Inr u, p1, db1) \<Rightarrow> (Inr u, p1, db1\<lparr>db_snapshots := js_set (snapAggregateId snap) snap (db_snapshots db1)\<rparr>))"

definition pg_close :: "pg_store \<Rightarrow> pg_store" where
  "pg_close p = p\<lparr>ps_closed := True\<rparr>"

section \<open>Appends side by side\<close>

text \<open>
  A transaction of \<open>append\<close>: its batch, the version it expects, and how far it got. Its two statements
  are the version check and the insert, which also commits.
\<close>

datatype tx_stage = Begun | Checked | Committed | RolledBack es_error

record tx =
  tx_events :: "event list"
  tx_expected :: "int option"
  tx_stage :: tx_stage

definition tx_step :: "pg_env \<Rightarrow> tx \<Rightarrow> 'saved pg_db \<Rightarrow> tx \<times> 'saved pg_db" where
  "tx_step env t db =
     (case tx_stage t of
        Begun \<Rightarrow>
          (case check_version (aggregateId (hd (tx_events t))) (tx_expected t) (db_events db) of
             Some err \<Rightarrow> (t\<lparr>tx_stage := RolledBack err\<rparr>, db)
           | None \<Rightarrow> (t\<lparr>tx_stage := Checked\<rparr>, db))
      | Checked \<Rightarrow>
          (case insert_batch env (tx_events t) db of
             Inl err \<Rightarrow> (t\<lparr>tx_stage := RolledBack err\<rparr>, db)
           | Inr db' \<Rightarrow> (t\<lparr>tx_stage := Committed\<rparr>, db'))
      | _ \<Rightarrow> (t, db))"

text \<open>A schedule names the transaction that takes the next step.\<close>

fun run_schedule :: "pg_env \<Rightarrow> nat list \<Rightarrow> tx list \<times> 'saved pg_db \<Rightarrow> tx list \<times> 'saved pg_db" where
  "run_schedule env [] s = s"
| "run_schedule env (k # ks) (ts, db) =
     (if k < length ts
      then (let (t, db') = tx_step env (ts ! k) db in run_schedule env ks (ts[k := t], db'))
      else run_schedule env ks (ts, db))"

end
