(* ===== verification/PgEventProperties.thy ===== *)
theory PgEventProperties
  imports PgEventStore
begin

text \<open>
  The PostgreSQL event store against the in-memory one: what an append leaves behind, the simulation, the
  agreement of the reads, and the race of two writers.
\<close>

declare map_of_eq_Some_iff [simp del] Some_eq_map_of_iff [simp del]

section \<open>Rows and events\<close>

lemma hydrate_fields [simp]:
  "eventId (hydrateEventRow r) = er_event_id r" "aggregateId (hydrateEventRow r) = er_aggregate_id r"
  "seq_of (hydrateEventRow r) = er_sequence r" "correlationId (hydrateEventRow r) = er_correlation_id r"
  "timestamp (hydrateEventRow r) = er_timestamp r" "time_key (hydrateEventRow r) = (er_timestamp r, er_event_id r)"
  by (simp_all add: hydrateEventRow_def seq_of_def time_key_def)

lemma to_row_fields [simp]:
  "er_event_id (to_row e) = eventId e" "er_aggregate_id (to_row e) = aggregateId e" "er_sequence (to_row e) = seq_of e"
  by (simp_all add: to_row_def)

text \<open>An event the table keeps unchanged.\<close>

definition storable :: "event \<Rightarrow> bool" where
  "storable e \<longleftrightarrow> length (eventType e) \<le> 100 \<and> sequenceNo e \<noteq> None"

lemma hydrate_to_row: "storable e \<Longrightarrow> hydrateEventRow (to_row e) = e"
  by (cases e) (auto simp: storable_def to_row_def hydrateEventRow_def seq_of_def)

lemma hydrate_rows: "list_all storable es \<Longrightarrow> map hydrateEventRow (map to_row es) = es"
  by (induction es) (simp_all add: hydrate_to_row)

section \<open>An append nothing runs beside\<close>

lemma pg_init_db [simp]:
  "db_events (snd (snd (pg_init env p db))) = db_events db" "db_snapshots (snd (snd (pg_init env p db))) = db_snapshots db"
  "ps_closed (fst (snd (pg_init env p db))) = ps_closed p"
  by (auto simp: pg_init_def split: option.splits)

lemma ensurePartition_db [simp]:
  "db_events (ensurePartition env t db) = db_events db" "db_snapshots (ensurePartition env t db) = db_snapshots db"
  by (simp_all add: ensurePartition_def)

lemma pg_begin_db:
  assumes "pg_begin env es p db = (err, p1, db1)"
  shows "db_events db1 = db_events db" "db_snapshots db1 = db_snapshots db"
proof -
  have init: "db_events db2 = db_events db \<and> db_snapshots db2 = db_snapshots db" if "pg_init env p db = (err2, p2, db2)" for err2 p2 db2
    using pg_init_db [of env p db] that by simp
  show "db_events db1 = db_events db" "db_snapshots db1 = db_snapshots db"
    using assms init by (auto simp: pg_begin_def split: if_splits option.splits prod.splits)
qed

lemma pg_begin_ok:
  assumes "\<not> ps_closed p" and "assertAppendable es = None" and "ps_ready p \<or> pe_init env = None \<and> pe_do_params env" and "pe_partition env"
  obtains p1 db1 where "pg_begin env es p db = (None, p1, db1)" "day_of (timestamp (hd es)) \<in> set (db_days db1)"
  using assms by (cases "ps_ready p") (auto simp: pg_begin_def pg_init_def ensurePartition_def)

lemma insert_batch_Inr:
  "insert_batch env es db = Inr db' \<longleftrightarrow>
     list_all (row_fits env (db_days db)) (map to_row es) \<and> db' = db\<lparr>db_events := db_events db @ map to_row es\<rparr>"
  by (auto simp: insert_batch_def)

lemma row_fits_mono: "row_fits env days r \<Longrightarrow> set days \<subseteq> set days' \<Longrightarrow> row_fits env days' r"
  by (auto simp: row_fits_def)

lemma pg_append_outcome:
  assumes "pg_append env es x (p, db) = (res, p', db')"
  shows "db_snapshots db' = db_snapshots db
    \<and> (case res of
         Inl err \<Rightarrow> db_events db' = db_events db \<and> ps_appends_total p' = ps_appends_total p
       | Inr r \<Rightarrow> r = es \<and> db_events db' = db_events db @ map to_row es
           \<and> check_version (aggregateId (hd es)) x (db_events db) = None \<and> assertAppendable es = None
           \<and> ps_appends_total p' = ps_appends_total p + 1)"
proof -
  obtain err p1 db1 where started: "pg_begin env es p db = (err, p1, db1)" by (metis prod_cases3)
  have count: "ps_appends_total p1 = ps_appends_total p"
    using started by (auto simp: pg_begin_def pg_init_def split: if_splits option.splits)
  have checked: "err = None \<Longrightarrow> assertAppendable es = None"
    using started by (auto simp: pg_begin_def split: if_splits option.splits prod.splits)
  from assms started pg_begin_db [OF started] count checked show ?thesis
    by (auto simp: pg_append_def insert_batch_def split: option.splits if_splits)
qed

text \<open>
  C20. An append is atomic. When it is rejected, whatever the reason, neither table has changed; when it is
  accepted, exactly the rows of the batch were added, at the end, under the version check.
\<close>
theorem pg_append_atomic:
  assumes "pg_append env es x (p, db) = (res, p', db')"
  shows "db_snapshots db' = db_snapshots db
    \<and> (case res of
         Inl err \<Rightarrow> db_events db' = db_events db \<and> ps_appends_total p' = ps_appends_total p
       | Inr r \<Rightarrow> r = es \<and> db_events db' = db_events db @ map to_row es
           \<and> check_version (aggregateId (hd es)) x (db_events db) = None \<and> assertAppendable es = None
           \<and> ps_appends_total p' = ps_appends_total p + 1)"
  by (rule pg_append_outcome [OF assms])

section \<open>The in-memory store, simulated\<close>

text \<open>The database holds what the in-memory store holds, and the streams are numbered from one.\<close>

definition mirrors :: "'saved store \<Rightarrow> 'saved pg_db \<Rightarrow> bool" where
  "mirrors s db \<longleftrightarrow> map hydrateEventRow (db_events db) = allEvents s \<and> db_snapshots db = snapshots s
     \<and> set (storeIds s) = eventId ` set (allEvents s)
     \<and> (\<forall>i. stream_of s i = filter (\<lambda>e. aggregateId e = i) (allEvents s)
         \<and> numbered 0 (filter (\<lambda>e. aggregateId e = i) (allEvents s)))"

lemma mirrorsD:
  assumes "mirrors s db"
  shows "map hydrateEventRow (db_events db) = allEvents s" "db_snapshots db = snapshots s"
    "set (storeIds s) = eventId ` set (allEvents s)" "stream_of s i = filter (\<lambda>e. aggregateId e = i) (allEvents s)"
    "numbered 0 (stream_of s i)"
    "stream_of s i = map hydrateEventRow (filter (\<lambda>r. er_aggregate_id r = i) (db_events db))"
proof -
  show "map hydrateEventRow (db_events db) = allEvents s" "db_snapshots db = snapshots s"
    "set (storeIds s) = eventId ` set (allEvents s)" "numbered 0 (stream_of s i)"
    and stream: "stream_of s i = filter (\<lambda>e. aggregateId e = i) (allEvents s)"
    using assms by (simp_all add: mirrors_def)
  have "filter (\<lambda>e. aggregateId e = i) (map hydrateEventRow rows)
      = map hydrateEventRow (filter (\<lambda>r. er_aggregate_id r = i) rows)" for rows
    by (induction rows) simp_all
  from this [of "db_events db"] show "stream_of s i = map hydrateEventRow (filter (\<lambda>r. er_aggregate_id r = i) (db_events db))"
    using stream assms by (metis mirrors_def)
qed

lemma mirrors_init: "mirrors store_init \<lparr>db_events = [], db_snapshots = [], db_days = days\<rparr>"
  by (simp add: mirrors_def store_init_def stream_of_def)

lemma numbered_sorted: "numbered n es \<Longrightarrow> sorted (map seq_of es)"
  by (simp add: numbered_def)

lemma foldr_max_sorted: "sorted (n # ns) \<Longrightarrow> foldr max ns (n :: int) = last (n # ns)"
proof (induction ns arbitrary: n rule: rev_induct)
  case (snoc m ns)
  have "foldr max ns m = m" if "\<forall>k\<in>set ns. k \<le> m" for ns using that by (induction ns) auto
  moreover have "\<forall>k\<in>set ns. k \<le> m" "n \<le> m" using snoc.prems by (auto simp: sorted_append)
  ultimately show ?case by (simp add: max_absorb1)
qed simp

lemma max_sequence_top:
  assumes "mirrors s db" shows "max_sequence i (db_events db) = currentSeq s i"
proof -
  let ?ns = "map er_sequence (filter (\<lambda>r. er_aggregate_id r = i) (db_events db))"
  have stream: "stream_of s i = map hydrateEventRow (filter (\<lambda>r. er_aggregate_id r = i) (db_events db))"
    by (rule mirrorsD(6) [OF assms])
  then have ns: "map seq_of (stream_of s i) = ?ns" by (simp add: comp_def)
  have "numbered 0 (stream_of s i)" by (rule mirrorsD(5) [OF assms])
  then have "sorted ?ns" using numbered_sorted ns by metis
  then have "?ns \<noteq> [] \<Longrightarrow> foldr max (tl ?ns) (hd ?ns) = last ?ns"
    using foldr_max_sorted [of "hd ?ns" "tl ?ns"] by simp
  moreover have "?ns \<noteq> [] \<Longrightarrow> last ?ns = seq_of (last (stream_of s i))"
    using last_map [of "stream_of s i" seq_of] ns by (metis map_is_Nil_conv)
  moreover have "?ns = [] \<longleftrightarrow> stream_of s i = []" using ns by (metis map_is_Nil_conv)
  ultimately show ?thesis by (simp add: max_sequence_def currentSeq_def Let_def)
qed

lemma check_version_expected:
  assumes "mirrors s db"
  shows "check_version i x (db_events db) = None \<longleftrightarrow> x = None \<or> x = Some (currentSeq s i)"
  by (auto simp: check_version_def Let_def max_sequence_top [OF assms] split: option.splits)

lemma mirrors_append:
  assumes "mirrors s db" and "append_events es x s = Inr (es, s')" and "list_all storable es"
    and "numbered (currentSeq s (aggregateId (hd es))) es" and "db_events db' = db_events db @ map to_row es"
    and "db_snapshots db' = db_snapshots db"
  shows "mirrors s' db'"
proof -
  let ?i = "aggregateId (hd es)"
  note app = append_eventsD [OF assms(2)]
  have "filter (\<lambda>e. aggregateId e = i) es = (if i = ?i then es else [])" for i
    using app(4) unfolding one_aggregate_def by (cases "i = ?i") (simp_all cong: filter_cong)
  moreover have "currentSeq s ?i = int (length (stream_of s ?i))"
    using mirrorsD(5) [OF assms(1)] by (simp only: currentSeq_top numbered_top0)
  ultimately show ?thesis
    using assms(1,4) hydrate_rows [OF assms(3)]
    by (auto simp: mirrors_def app(5-8) assms(5,6) numbered_append image_Un)
qed

text \<open>The transaction of an append, run alone.\<close>

definition begun :: "event list \<Rightarrow> int option \<Rightarrow> tx" where
  "begun es x = \<lparr>tx_events = es, tx_expected = x, tx_stage = Begun\<rparr>"

lemma lone_transaction:
  "run_schedule env [0, 0] ([begun es x], db) =
     (case check_version (aggregateId (hd es)) x (db_events db) of
        Some err \<Rightarrow> ([begun es x\<lparr>tx_stage := RolledBack err\<rparr>], db)
      | None \<Rightarrow>
          (case insert_batch env es db of
             Inl err \<Rightarrow> ([begun es x\<lparr>tx_stage := RolledBack err\<rparr>], db)
           | Inr db' \<Rightarrow> ([begun es x\<lparr>tx_stage := Committed\<rparr>], db')))"
  by (auto simp: begun_def tx_step_def split: option.split sum.split)

text \<open>
  C13. The transaction of an append against the in-memory store. On mirrored contents and for a batch that
  passes the input check, the transaction, run alone, commits exactly when the version is the expected one
  and every row fits its columns and has a partition; the in-memory store accepts exactly when the version
  is the expected one and no event id is stored already. So the two find the same version conflicts and
  differ only in the columns and the ids. A transaction that does not commit changes nothing, and when
  both accept a batch that the columns keep unchanged and that continues its stream, the contents mirror
  each other again.
\<close>
theorem pg_transaction_mirrors:
  assumes "mirrors s db" and "assertAppendable es = None" and "i = aggregateId (hd es)"
    and "run_schedule env [0, 0] ([begun es x], db) = ([t], db')"
  shows "(tx_stage t = Committed \<longleftrightarrow>
        (x = None \<or> x = Some (currentSeq s i)) \<and> list_all (row_fits env (db_days db)) (map to_row es))
    \<and> ((\<exists>s'. append_events es x s = Inr (es, s')) \<longleftrightarrow>
        (x = None \<or> x = Some (currentSeq s i)) \<and> (\<forall>e\<in>set es. eventId e \<notin> set (storeIds s)))
    \<and> (tx_stage t \<noteq> Committed \<longrightarrow> db' = db)
    \<and> (\<forall>s'. tx_stage t = Committed \<longrightarrow> append_events es x s = Inr (es, s') \<longrightarrow> list_all storable es \<longrightarrow>
        numbered (currentSeq s i) es \<longrightarrow> mirrors s' db')"
proof -
  note version = check_version_expected [OF assms(1), of i x, unfolded assms(3)]
  have commit: "tx_stage t = Committed \<longleftrightarrow>
      check_version (aggregateId (hd es)) x (db_events db) = None \<and> list_all (row_fits env (db_days db)) (map to_row es)"
    and same: "tx_stage t \<noteq> Committed \<Longrightarrow> db' = db"
    and rows: "tx_stage t = Committed \<Longrightarrow> db' = db\<lparr>db_events := db_events db @ map to_row es\<rparr>"
    using assms(4) unfolding lone_transaction by (auto simp: insert_batch_def begun_def split: option.splits if_splits)
  have "mirrors s' db'" if "tx_stage t = Committed" "append_events es x s = Inr (es, s')" "list_all storable es"
    "numbered (currentSeq s i) es" for s'
    by (rule mirrors_append [OF assms(1) that(2,3)]) (simp_all add: that(4) [unfolded assms(3)] rows [OF that(1)])
  with commit same version assms(2) show ?thesis by (auto simp: append_events_Inr assms(3))
qed

text \<open>
  The class never gets as far as that transaction. PostgreSQL takes no bind parameter for a \<open>DO\<close> block, so
  the initialisation fails, and with it every operation; nothing is stored and no later attempt succeeds.
\<close>

lemma never_initialised:
  assumes "\<not> pe_do_params env" and "\<not> ps_ready p"
  shows "\<exists>err. pg_append env es x (p, db) = (Inl err, p, db)" and "\<exists>err. pg_read env f (p, db) = (Inl err, p, db)"
    and "\<exists>err. pg_saveSnapshot env snap (p, db) = (Inl err, p, db)"
  using assms by (auto simp: pg_append_def pg_begin_def pg_init_def pg_read_def pg_saveSnapshot_def split: option.split)

section \<open>Reads\<close>

lemma filter_filter_conj: "filter (\<lambda>r. P r \<and> Q r) xs = filter Q (filter P xs)"
  by (simp add: filter_filter conj_commute)

text \<open>
  Reads agree. On a database that mirrors the in-memory store, the events of an aggregate, the events of a
  correlation id and the snapshots come back the same and in the same order, as long as sequence numbers
  stay below the largest safe integer.
\<close>
theorem pg_reads_agree:
  assumes "mirrors s db" and "\<forall>e\<in>set (allEvents s). seq_of e \<le> 9007199254740991" and "c \<noteq> []"
    and "any_order (pe_scan env)" and "distinct (map eventId (allEvents s))"
  shows "select_stream env i fromSequence toSequence db = getEvents i fromSequence toSequence s
    \<and> select_correlation env c db = getEventsByCorrelation c s \<and> js_get (db_snapshots db) i = getSnapshot i s"
proof -
  define lo where "lo = (case fromSequence of Some n \<Rightarrow> n | None \<Rightarrow> 1)"
  define hi where "hi = (case toSequence of Some n \<Rightarrow> n | None \<Rightarrow> 9007199254740991)"
  let ?rows = "filter (\<lambda>r. er_aggregate_id r = i) (db_events db)"
  have stream: "stream_of s i = map hydrateEventRow ?rows" by (rule mirrorsD(6) [OF assms(1)])
  have "sorted (map er_sequence ?rows)"
    using numbered_sorted [OF mirrorsD(5) [OF assms(1), of i]] by (simp add: stream comp_def)
  then have sorted: "sorted (map er_sequence (filter (\<lambda>r. lo \<le> er_sequence r \<and> er_sequence r \<le> hi) ?rows))"
    by (rule sorted_filter)
  have "distinct (map seq_of (stream_of s i))"
    using mirrorsD(5) [OF assms(1), of i] by (simp add: numbered_def)
  then have "distinct (map er_sequence ?rows)" by (simp add: stream comp_def)
  then have "inj_on er_sequence (set (filter (\<lambda>r. lo \<le> er_sequence r \<and> er_sequence r \<le> hi) ?rows))"
    by (auto simp: distinct_map inj_on_def)
  note scanned = sorted_rows [OF assms(4) this]
  from sorted have "select_stream env i fromSequence toSequence db =
      map hydrateEventRow (filter (\<lambda>r. lo \<le> er_sequence r \<and> er_sequence r \<le> hi) ?rows)"
    unfolding select_stream_def Let_def lo_def [symmetric] hi_def [symmetric]
      filter_filter_conj [of "\<lambda>r. er_aggregate_id r = i"] by (simp only: scanned sort_key_id_if_sorted)
  also have "\<dots> = filter (\<lambda>e. lo \<le> seq_of e \<and> seq_of e \<le> hi) (stream_of s i)"
    by (simp add: stream filter_map comp_def)
  also have "\<dots> = getEvents i fromSequence toSequence s"
  proof -
    have "set (stream_of s i) \<subseteq> set (allEvents s)" by (auto simp: mirrorsD(4) [OF assms(1)])
    then have "seq_of e \<le> 9007199254740991" if "e \<in> set (stream_of s i)" for e using that assms(2) by auto
    then show ?thesis by (auto simp: getEvents_def Let_def lo_def hi_def intro!: filter_cong split: option.splits)
  qed
  finally have "select_stream env i fromSequence toSequence db = getEvents i fromSequence toSequence s" .
  moreover have "select_correlation env c db = getEventsByCorrelation c s"
  proof -
    have "distinct (map er_event_id (db_events db))"
      using assms(5) by (simp add: mirrorsD(1) [OF assms(1), symmetric] comp_def)
    then have "inj_on (\<lambda>r. (er_timestamp r, er_event_id r)) (set (filter (\<lambda>r. er_correlation_id r = Some c) (db_events db)))"
      by (auto simp: distinct_map inj_on_def)
    note scanned = sorted_rows [OF assms(4) this]
    have "select_correlation env c db = sort_key time_key (map hydrateEventRow (filter (\<lambda>r. er_correlation_id r = Some c) (db_events db)))"
      using sort_key_map [of hydrateEventRow time_key] by (simp add: select_correlation_def scanned)
    also have "map hydrateEventRow (filter (\<lambda>r. er_correlation_id r = Some c) (db_events db)) =
        filter (\<lambda>e. correlationId e = Some c) (map hydrateEventRow (db_events db))"
      by (simp add: filter_map comp_def)
    finally show ?thesis using assms(3) by (simp add: getEventsByCorrelation_def mirrorsD(1) [OF assms(1)])
  qed
  moreover have "js_get (db_snapshots db) i = getSnapshot i s" by (simp add: getSnapshot_def mirrorsD(2) [OF assms(1)])
  ultimately show ?thesis by simp
qed

text \<open>The rows after a cursor, in a list sorted by id.\<close>

lemma after_cursor:
  assumes "sorted (map f xs)" and "distinct (map f xs)" and "i \<in> f ` set xs"
  shows "filter (\<lambda>x. i < f x) xs = tl (dropWhile (\<lambda>x. f x \<noteq> i) xs)"
  using assms
proof (induction xs)
  case (Cons x xs)
  show ?case
  proof (cases "f x = i")
    case True
    have "\<forall>y\<in>set xs. i < f y" using Cons.prems True by (auto simp: order.strict_iff_order)
    then show ?thesis using True by simp
  next
    case False
    then have "i \<in> f ` set xs" using Cons.prems(3) by auto
    moreover from this have "\<not> i < f x" using Cons.prems(1) by auto
    ultimately show ?thesis using False Cons by simp
  qed
qed simp

text \<open>
  The feed agrees for ids that grow with time, as version 7 ids do. Then polling the database after a
  cursor gives what polling the in-memory store gives, unless the cursor is an id the store does not hold.
\<close>
theorem pg_feed_agrees:
  assumes "mirrors s db" and "distinct (map eventId (allEvents s))"
    and "\<forall>e\<in>set (allEvents s). \<forall>f\<in>set (allEvents s). eventId e \<le> eventId f \<longrightarrow> time_key e \<le> time_key f"
    and "after = None \<or> after = Some [] \<or> (\<exists>i. after = Some i \<and> i \<in> eventId ` set (allEvents s))"
    and "any_order (pe_scan env)"
  shows "select_after env after limit db = getEventsAfter after limit s"
proof -
  let ?all = "allEvents s" and ?ids = "sort_key eventId (allEvents s)"
  have "sorted (map eventId ?ids)" by simp
  then have "sorted_wrt (\<lambda>e f. eventId e \<le> eventId f) ?ids" by (simp only: sorted_map)
  then have "sorted_wrt (\<lambda>e f. time_key e \<le> time_key f) ?ids"
    by (rule sorted_wrt_mono_rel [rotated]) (use assms(3) in auto)
  then have "sorted (map time_key ?ids)" by (simp only: sorted_map)
  moreover have inj: "inj_on time_key (set ?all)"
    using assms(2) by (auto simp: distinct_map inj_on_def time_key_def)
  ultimately have ids: "?ids = sort_key time_key ?all"
    by (intro sort_key_inj_key_eq [symmetric]) (simp_all add: mset_sort)
  have rows: "map hydrateEventRow (sort_key er_event_id rows) = sort_key eventId (map hydrateEventRow rows)" for rows
    using sort_key_map [of hydrateEventRow eventId] by simp
  have all: "map hydrateEventRow (db_events db) = ?all" by (rule mirrorsD(1) [OF assms(1)])
  have "distinct (map er_event_id (db_events db))"
    using assms(2) by (simp add: mirrorsD(1) [OF assms(1), symmetric] comp_def)
  then have "inj_on er_event_id (set (db_events db))" by (simp add: distinct_map)
  then have scanned: "sort_key er_event_id (pe_scan env (filter P (db_events db))) = sort_key er_event_id (filter P (db_events db))" for P
    by (intro sorted_rows [OF assms(5)]) (auto simp: inj_on_def)
  have scanned_all: "sort_key er_event_id (pe_scan env (db_events db)) = sort_key er_event_id (db_events db)"
    using scanned [of "\<lambda>_. True"] by simp
  show ?thesis
  proof (cases "after = None \<or> after = Some []")
    case True
    then show ?thesis
      by (elim disjE) (simp_all add: select_after_def getEventsAfter_def Let_def scanned_all take_map [symmetric] rows all ids)
  next
    case False
    then obtain i where i: "after = Some i" "i \<noteq> []" "i \<in> eventId ` set ?all" using assms(4) by auto
    have "map hydrateEventRow (filter (\<lambda>r. i < er_event_id r) (db_events db)) = filter (\<lambda>e. i < eventId e) ?all"
      by (simp add: filter_map comp_def all [symmetric])
    then have "select_after env after limit db = take limit (sort_key eventId (filter (\<lambda>e. i < eventId e) ?all))"
      using i by (simp add: select_after_def scanned take_map [symmetric] rows)
    also have "sort_key eventId (filter (\<lambda>e. i < eventId e) ?all) = filter (\<lambda>e. i < eventId e) ?ids"
      by (simp add: filter_sort)
    also have "\<dots> = tl (dropWhile (\<lambda>e. eventId e \<noteq> i) ?ids)"
    proof (rule after_cursor)
      have "distinct (map eventId ?ids) \<longleftrightarrow> distinct (map eventId ?all)" by (simp add: distinct_map)
      then show "distinct (map eventId ?ids)" using assms(2) by simp
    qed (use i in simp_all)
    finally show ?thesis using i by (auto simp: getEventsAfter_def Let_def ids)
  qed
qed

section \<open>Writers side by side\<close>

lemma max_sequence_ge:
  assumes "r \<in> set rows" and "er_aggregate_id r = i" shows "er_sequence r \<le> max_sequence i rows"
proof -
  let ?ns = "map er_sequence (filter (\<lambda>r. er_aggregate_id r = i) rows)"
  have "m \<le> foldr max ns (n :: int)" if "m = n \<or> m \<in> set ns" for m n ns
    using that by (induction ns) auto
  then have "m \<le> foldr max (tl ?ns) (hd ?ns)" if "m \<in> set ?ns" for m
    using that by (metis list.set_cases list.sel(1,3) set_ConsD)
  moreover have "er_sequence r \<in> set ?ns" using assms by simp
  ultimately have "er_sequence r \<le> foldr max (tl ?ns) (hd ?ns)" by blast
  moreover have "?ns \<noteq> []" using assms by (auto simp: filter_empty_conv)
  ultimately show ?thesis by (simp add: max_sequence_def Let_def)
qed

definition writer :: "event list \<Rightarrow> int \<Rightarrow> tx" where
  "writer es n = \<lparr>tx_events = es, tx_expected = Some n, tx_stage = Begun\<rparr>"

text \<open>
  C15. Two writers race. Two transactions that expect the same version of an aggregate, one after the other:
  the second finds the version moved and rolls back, as the in-memory store has it. When both check before
  either inserts, both commit: the aggregate holds two events with one sequence number.
\<close>
theorem writers_race:
  assumes "es \<noteq> []" and "fs \<noteq> []" and "one_aggregate es" and "aggregateId (hd es) = i" and "one_aggregate fs"
    and "aggregateId (hd fs) = i"
    and "numbered n es" and "numbered n fs" and "max_sequence i (db_events db) = n"
    and "list_all (row_fits env (db_days db)) (map to_row (es @ fs))"
  shows "map tx_stage (fst (run_schedule env [0, 0, 1] ([writer es n, writer fs n], db)))
        = [Committed, RolledBack (EsError (''Concurrency conflict on aggregate '' @ i @ '': expected '' @ int_str n
            @ '', actual '' @ int_str (max_sequence i (db_events db @ map to_row es))))]
    \<and> map tx_stage (fst (run_schedule env [0, 1, 0, 1] ([writer es n, writer fs n], db))) = [Committed, Committed]
    \<and> \<not> distinct (map er_sequence (filter (\<lambda>r. er_aggregate_id r = i)
        (db_events (snd (run_schedule env [0, 1, 0, 1] ([writer es n, writer fs n], db))))))"
proof -
  obtain e es' f fs' where es: "es = e # es'" and fs: "fs = f # fs'" using assms(1,2) by (cases es; cases fs) auto
  have seq: "seq_of e = n + 1" "seq_of f = n + 1"
    using assms(7,8) by (simp_all add: es fs numbered_def upto_rec1)
  have agg: "aggregateId e = i" "aggregateId f = i" using assms(4,6) by (simp_all add: es fs)
  have "n + 1 \<le> max_sequence i (db_events db @ map to_row es)"
    using max_sequence_ge [of "to_row e" "db_events db @ map to_row es" i] by (simp add: es agg seq)
  then have moved: "max_sequence i (db_events db @ map to_row es) \<noteq> n" by simp
  have check: "check_version i (Some n) (db_events db) = None" by (simp add: check_version_def assms(9))
  have fits: "list_all (row_fits env (db_days db)) (map to_row es)" "list_all (row_fits env (db_days db)) (map to_row fs)"
    using assms(10) by simp_all
  have ins: "insert_batch env es db = Inr (db\<lparr>db_events := db_events db @ map to_row es\<rparr>)"
    "insert_batch env fs (db\<lparr>db_events := db_events db @ map to_row es\<rparr>) =
       Inr (db\<lparr>db_events := (db_events db @ map to_row es) @ map to_row fs\<rparr>)"
    using fits by (simp_all add: insert_batch_def)
  have serial: "map tx_stage (fst (run_schedule env [0, 0, 1] ([writer es n, writer fs n], db)))
        = [Committed, RolledBack (EsError (''Concurrency conflict on aggregate '' @ i @ '': expected '' @ int_str n
            @ '', actual '' @ int_str (max_sequence i (db_events db @ map to_row es))))]"
    using check ins moved assms(4,6) by (simp add: tx_step_def writer_def) (simp add: check_version_def)
  have race: "run_schedule env [0, 1, 0, 1] ([writer es n, writer fs n], db) =
      ([writer es n\<lparr>tx_stage := Committed\<rparr>, writer fs n\<lparr>tx_stage := Committed\<rparr>],
       db\<lparr>db_events := (db_events db @ map to_row es) @ map to_row fs\<rparr>)"
    using check ins assms(4,6) by (simp add: tx_step_def writer_def)
  show ?thesis
  proof (intro conjI)
    show "map tx_stage (fst (run_schedule env [0, 1, 0, 1] ([writer es n, writer fs n], db))) = [Committed, Committed]"
      by (simp only: race) simp
    show "\<not> distinct (map er_sequence (filter (\<lambda>r. er_aggregate_id r = i)
        (db_events (snd (run_schedule env [0, 1, 0, 1] ([writer es n, writer fs n], db))))))"
      by (simp only: race) (simp add: es fs agg seq)
  qed (rule serial)
qed

text \<open>
  Ids are not checked. A batch that was appended without an expected version is accepted a second time,
  and its rows are there twice; the in-memory store refuses it.
\<close>
lemma duplicates_are_stored:
  assumes "pg_append env es None (p, db) = (Inr r, p1, db1)" and "append_events es None s = Inr (r', s')"
  shows "\<exists>p2 db2. pg_append env es None (p1, db1) = (Inr es, p2, db2) \<and> db_events db2 = db_events db @ map to_row es @ map to_row es"
    and "\<exists>err. append_events es None s' = Inl err"
proof -
  note first = pg_append_outcome [OF assms(1)]
  obtain p0 db0 where started: "pg_begin env es p db = (None, p0, db0)" and fits: "list_all (row_fits env (db_days db0)) (map to_row es)"
    and p1: "p1 = p0\<lparr>ps_appends_total := ps_appends_total p0 + 1\<rparr>" and db1: "db1 = db0\<lparr>db_events := db_events db0 @ map to_row es\<rparr>"
    using assms(1) by (auto simp: pg_append_def insert_batch_def check_version_def split: prod.splits option.splits if_splits)
  have "ps_ready p1" "\<not> ps_closed p1"
    using started by (auto simp: p1 pg_begin_def pg_init_def split: if_splits option.splits)
  then have "pg_begin env es p1 db1 = (None, p1, ensurePartition env (timestamp (hd es)) db1)"
    using first by (simp add: pg_begin_def pg_init_def)
  moreover have "list_all (row_fits env (db_days (ensurePartition env (timestamp (hd es)) db1))) (map to_row es)"
    using fits by (auto simp: list_all_iff ensurePartition_def db1 row_fits_def)
  ultimately show "\<exists>p2 db2. pg_append env es None (p1, db1) = (Inr es, p2, db2) \<and> db_events db2 = db_events db @ map to_row es @ map to_row es"
    using first by (simp add: pg_append_def check_version_def insert_batch_def)
  have "es \<noteq> []" "set (storeIds s') = set (storeIds s) \<union> eventId ` set es"
    using append_eventsD [OF assms(2)] assms(2) by (auto simp: append_events_Inr)
  then have "eventId (hd es) \<in> set (storeIds s')" "hd es \<in> set es" by auto
  then show "\<exists>err. append_events es None s' = Inl err"
    by (cases "append_events es None s'") (auto simp: append_events_Inr)
qed

section \<open>A run\<close>

definition pg_event :: "string \<Rightarrow> int \<Rightarrow> event" where
  "pg_event i n = \<lparr>eventId = i, eventType = ''location_update'', aggregateId = ''c1'', aggregateType = ''vehicle'',
     sequenceNo = Some n, body = no_payload, metadata = JObj [], timestamp = n, causationId = None, correlationId = Some ''k''\<rparr>"

definition pg_demo :: pg_env where
  "pg_demo = \<lparr>pe_init = None, pe_do_params = True, pe_partition = True, pe_today = 0, pe_ahead = 7, pe_uuid = (\<lambda>_. True),
     pe_scan = rev\<rparr>"

definition pg_empty :: "nat pg_db" where
  "pg_empty = \<lparr>db_events = [], db_snapshots = [], db_days = []\<rparr>"

definition pg_one :: "nat pg_db" where
  "pg_one = pg_empty\<lparr>db_events := [to_row (pg_event ''a'' 1)], db_days := [0]\<rparr>"

definition mem_one :: "nat store" where
  "mem_one = \<lparr>byAggregate = [(''c1'', [pg_event ''a'' 1])], allEvents = [pg_event ''a'' 1], storeIds = [''a''],
     snapshots = [], appends_total = 1\<rparr>"

lemma pg_event_fields [simp]:
  "eventId (pg_event i n) = i" "aggregateId (pg_event i n) = ''c1''" "seq_of (pg_event i n) = n"
  "timestamp (pg_event i n) = n" "storable (pg_event i n)" "sequenceNo (pg_event i n) = Some n"
  by (simp_all add: pg_event_def seq_of_def storable_def)

lemma pg_event_fits [simp]: "row_fits pg_demo days (to_row (pg_event i n)) = (day_of n \<in> set days)"
  by (simp add: row_fits_def to_row_def pg_event_def pg_demo_def)

lemma pg_demo_fields [simp]: "pe_init pg_demo = None" "pe_partition pg_demo" "any_order (pe_scan pg_demo)" "\<not> ps_closed pg_store_init"
  by (simp_all add: pg_demo_def pg_store_init_def)

lemma mirrors_one: "mirrors mem_one pg_one"
  by (simp add: mirrors_def mem_one_def pg_one_def pg_empty_def stream_of_def hydrate_to_row numbered_def)

theorem pg_append_atomic_witness:
  "db_snapshots (snd (snd (pg_append pg_demo [pg_event ''a'' 1] (Some 7) (pg_store_init, pg_one)))) = []"
proof -
  obtain res p' db' where run: "pg_append pg_demo [pg_event ''a'' 1] (Some 7) (pg_store_init, pg_one) = (res, p', db')"
    by (metis prod_cases3)
  have "db_snapshots pg_one = []" by (simp add: pg_one_def pg_empty_def)
  with pg_append_atomic [OF run] show ?thesis by (simp add: run)
qed

theorem pg_transaction_mirrors_witness:
  "map tx_stage (fst (run_schedule pg_demo [0, 0] ([begun [pg_event ''b'' 2] (Some 1)], pg_one))) = [Committed]
   \<and> map tx_stage (fst (run_schedule pg_demo [0, 0] ([begun [pg_event ''b'' 2] (Some 0)], pg_one))) \<noteq> [Committed]"
proof -
  have cur: "currentSeq mem_one ''c1'' = 1" by (simp add: currentSeq_def mem_one_def stream_of_def)
  have ok: "assertAppendable [pg_event ''b'' 2] = None" by (simp add: assertAppendable_def)
  have days: "db_days pg_one = [0]" "day_of 2 = 0" by (simp_all add: pg_one_def day_of_def)
  have "map tx_stage (fst (run_schedule pg_demo [0, 0] ([begun [pg_event ''b'' 2] x], pg_one))) = [Committed] \<longleftrightarrow> x = None \<or> x = Some 1" for x
  proof -
    have "\<exists>t db'. run_schedule pg_demo [0, 0] ([begun [pg_event ''b'' 2] x], pg_one) = ([t], db')"
      unfolding lone_transaction by (auto split: option.split sum.split)
    then obtain t db' where run: "run_schedule pg_demo [0, 0] ([begun [pg_event ''b'' 2] x], pg_one) = ([t], db')" by blast
    from pg_transaction_mirrors [OF mirrors_one ok refl run] show ?thesis
      by (simp add: run cur days del: run_schedule.simps)
  qed
  then show ?thesis by simp
qed

theorem pg_reads_agree_witness:
  "select_stream pg_demo ''c1'' None None pg_one = getEvents ''c1'' None None mem_one"
  using pg_reads_agree [OF mirrors_one, of "''k''" pg_demo "''c1''" None None] by (simp add: mem_one_def)

theorem pg_feed_agrees_witness:
  "select_after pg_demo (Some ''a'') 10 pg_one = getEventsAfter (Some ''a'') 10 mem_one"
  using pg_feed_agrees [OF mirrors_one, of "Some ''a''" pg_demo 10] by (simp add: mem_one_def)

theorem writers_race_witness:
  "map tx_stage (fst (run_schedule pg_demo [0, 1, 0, 1]
     ([writer [pg_event ''b'' 2] 1, writer [pg_event ''d'' 2] 1], pg_one))) = [Committed, Committed]"
  using writers_race [of "[pg_event ''b'' 2]" "[pg_event ''d'' 2]" "''c1''" 1 pg_one pg_demo]
  by (simp add: numbered_def one_aggregate_def pg_one_def pg_empty_def max_sequence_def day_of_def)

end
