(* ===== verification/Sessions.thy ===== *)
theory Sessions
  imports Json
begin

text \<open>
  \<open>src/session-manager.js\<close>: sealed session blobs, their storage with a sliding TTL, resumption and
  debounced saves.

  \<^item> The runtime's cryptography, compression, base64 and \<open>JSON.parse\<close> are the fields of a record
    \<open>crypto\<close>; \<open>crypto_ok\<close> collects what their documentation promises and the theorems state it as a
    hypothesis. Bytes are character lists.
  \<^item> \<open>MemoryStore\<close> is a map from keys to values with an expiry and the time its timer is due. The timer
    may fire at any moment from then on and deletes the entry, whatever its expiry (\<open>mem_timer\<close>);
    \<open>setTimeout\<close> turns a delay of \<open>2^31\<close> milliseconds or more into one (\<open>timer_delay\<close>). Clearing a timer
    needs no model of its own: the due time is replaced or deleted with the entry.
  \<^item> \<open>Date.now()\<close>, the random IV and what a state provider returns are arguments.
  \<^item> A Redis client is third-party code; \<open>load_stored\<close> takes what the read returned, also an error.
\<close>

section \<open>The runtime's library\<close>

type_synonym bytes = string
type_synonym aes_key = string

record crypto =
  encrypt :: "aes_key \<Rightarrow> bytes \<Rightarrow> bytes \<Rightarrow> bytes \<times> bytes"
  decrypt :: "aes_key \<Rightarrow> bytes \<Rightarrow> bytes \<Rightarrow> bytes \<Rightarrow> bytes option"
  deflateSync :: "bytes \<Rightarrow> bytes"
  inflateSync :: "bytes \<Rightarrow> bytes option"
  toBase64 :: "bytes \<Rightarrow> string"
  fromBase64 :: "string \<Rightarrow> bytes"
  hkdfSync :: "bytes \<Rightarrow> aes_key"
  json_parse :: "string \<Rightarrow> json option"

definition crypto_ok :: "crypto \<Rightarrow> bool" where
  "crypto_ok cr \<longleftrightarrow>
     (\<forall>k iv p. decrypt cr k iv (fst (encrypt cr k iv p)) (snd (encrypt cr k iv p)) = Some p
        \<and> length (snd (encrypt cr k iv p)) = 16 \<and> length (fst (encrypt cr k iv p)) = length p)
     \<and> (\<forall>p. inflateSync cr (deflateSync cr p) = Some p \<and> deflateSync cr p \<noteq> [])
     \<and> (\<forall>b. fromBase64 cr (toBase64 cr b) = b \<and> CHR ''.'' \<notin> set (toBase64 cr b))"

datatype session_error = SeTypeError string | SeRangeError string

fun split_on :: "char \<Rightarrow> string \<Rightarrow> string list" where
  "split_on d [] = [[]]"
| "split_on d (c # s) =
     (if c = d then [] # split_on d s
      else case split_on d s of [] \<Rightarrow> [[c]] | p # ps \<Rightarrow> (c # p) # ps)"

definition is_space :: "char \<Rightarrow> bool" where
  "is_space c \<longleftrightarrow> (of_char c :: nat) \<in> {9, 10, 11, 12, 13, 32}"

definition trim :: "string \<Rightarrow> string" where
  "trim s = rev (dropWhile is_space (rev (dropWhile is_space s)))"

section \<open>Keys\<close>

datatype key_value = KvBuffer bytes | KvString string | KvOther

datatype key_source =
    KsAbsent
  | KsBuffer bytes
  | KsString string
  | KsObject "(string \<times> key_value) list"
  | KsOther

definition deriveKey :: "crypto \<Rightarrow> string \<Rightarrow> key_value \<Rightarrow> session_error + aes_key" where
  "deriveKey cr keyId value =
     (let derive = (\<lambda>master. if length master \<noteq> 32
                      then Inl (SeRangeError (''encryptionKey must decode to 32 bytes: '' @ keyId))
                      else Inr (hkdfSync cr master))
      in case value of
           KvBuffer b \<Rightarrow> derive b
         | KvString s \<Rightarrow>
             if trim s \<noteq> [] then derive (fromBase64 cr s)
             else Inl (SeTypeError (''encryptionKey must be a non-empty base64 string or Buffer: '' @ keyId))
         | KvOther \<Rightarrow> Inl (SeTypeError (''encryptionKey must be a non-empty base64 string or Buffer: '' @ keyId)))"

definition json_value :: "json \<Rightarrow> key_value" where
  "json_value v = (case v of JStr s \<Rightarrow> KvString s | _ \<Rightarrow> KvOther)"

text \<open>A string option is a bare key or JSON text; JSON that is not an object is rejected later.\<close>

definition string_source :: "crypto \<Rightarrow> string \<Rightarrow> string \<Rightarrow> session_error + key_source" where
  "string_source cr keyId s =
     (let trimmed = trim s in
      if trimmed = [] then Inl (SeTypeError ''encryptionKey must not be empty'')
      else if hd trimmed = CHR ''{'' then
        (case json_parse cr trimmed of
           None \<Rightarrow> Inl (SeTypeError ''encryptionKey looks like JSON but does not parse'')
         | Some (JObj m) \<Rightarrow> Inr (KsObject (map (\<lambda>(k, v). (k, json_value v)) m))
         | Some _ \<Rightarrow> Inr KsOther)
      else Inr (KsObject [(keyId, KvString trimmed)]))"

fun derive_all :: "crypto \<Rightarrow> (string \<times> key_value) list \<Rightarrow> (string, aes_key) jsmap \<Rightarrow>
    session_error + (string, aes_key) jsmap" where
  "derive_all cr [] keys = Inr keys"
| "derive_all cr ((i, v) # es) keys =
     (case deriveKey cr i v of
        Inl err \<Rightarrow> Inl err
      | Inr k \<Rightarrow> derive_all cr es (js_set i k keys))"

definition parse_entries ::
    "crypto \<Rightarrow> string \<Rightarrow> key_source \<Rightarrow> session_error + (string, aes_key) jsmap" where
  "parse_entries cr keyId source =
     (case source of
        KsObject [] \<Rightarrow> Inl (SeTypeError ''encryptionKey holds no keys'')
      | KsObject entries \<Rightarrow>
          (case derive_all cr entries [] of
             Inl err \<Rightarrow> Inl err
           | Inr keys \<Rightarrow>
               if js_has keys keyId then Inr keys
               else Inl (SeRangeError (''keyId is absent from encryptionKey: '' @ keyId)))
      | _ \<Rightarrow> Inl (SeTypeError ''encryptionKey must be a base64 string, a JSON string, or an object''))"

definition parseKeyMap :: "crypto \<Rightarrow> key_source \<Rightarrow> string \<Rightarrow> session_error + (string, aes_key) jsmap" where
  "parseKeyMap cr encryptionKey keyId =
     (case encryptionKey of
        KsAbsent \<Rightarrow> Inl (SeTypeError ''encryptionKey is required'')
      | KsBuffer b \<Rightarrow> parse_entries cr keyId (KsObject [(keyId, KvBuffer b)])
      | KsString s \<Rightarrow>
          (case string_source cr keyId s of
             Inl err \<Rightarrow> Inl err
           | Inr source \<Rightarrow> parse_entries cr keyId source)
      | _ \<Rightarrow> parse_entries cr keyId encryptionKey)"

section \<open>MemoryStore\<close>

text \<open>
  An entry carries its timer: \<open>me_firesAt\<close> is when the callback of \<open>setTimeout\<close> becomes due. A delay
  outside \<open>[1, 2^31 - 1]\<close> milliseconds is set to 1 by the runtime.
\<close>

record mem_entry =
  me_value :: string
  me_expiresAt :: time
  me_firesAt :: time

type_synonym mem_store = "(string, mem_entry) jsmap"

definition timer_delay :: "int \<Rightarrow> int" where
  "timer_delay px = (if px < 1 \<or> px > 2147483647 then 1 else px)"

definition mem_set :: "time \<Rightarrow> string \<Rightarrow> string \<Rightarrow> int \<Rightarrow> mem_store \<Rightarrow> mem_store" where
  "mem_set now key value px m =
     js_set key \<lparr>me_value = value, me_expiresAt = now + px, me_firesAt = now + timer_delay px\<rparr> m"

definition mem_get :: "time \<Rightarrow> string \<Rightarrow> mem_store \<Rightarrow> string option \<times> mem_store" where
  "mem_get now key m =
     (case js_get m key of
        None \<Rightarrow> (None, m)
      | Some e \<Rightarrow> if me_expiresAt e \<le> now then (None, js_delete key m) else (Some (me_value e), m))"

definition mem_del :: "string \<Rightarrow> mem_store \<Rightarrow> mem_store" where
  "mem_del key m = js_delete key m"

definition mem_sweep :: "time \<Rightarrow> mem_store \<Rightarrow> mem_store" where
  "mem_sweep now m = filter (\<lambda>(k, e). \<not> me_expiresAt e \<le> now) m"

text \<open>The timer of \<open>key\<close> at time \<open>now\<close>: once due, its callback deletes the entry, whatever its expiry.\<close>

definition mem_timer :: "time \<Rightarrow> string \<Rightarrow> mem_store \<Rightarrow> mem_store" where
  "mem_timer now key m =
     (case js_get m key of
        Some e \<Rightarrow> if me_firesAt e \<le> now then js_delete key m else m
      | None \<Rightarrow> m)"

definition mem_clear :: "mem_store \<Rightarrow> mem_store" where
  "mem_clear m = []"

definition mem_size :: "mem_store \<Rightarrow> nat" where
  "mem_size m = length m"

section \<open>SessionManager\<close>

record sm_config =
  sm_keys :: "(string, aes_key) jsmap"
  sm_keyId :: string
  sm_ttlMs :: int
  sm_debounceMs :: int

record counters =
  c_success :: int
  c_decrypt_failed :: int
  c_expired :: int
  c_mismatch :: int
  c_new_session :: int

datatype provider = Fixed json | Provider nat

record sm =
  sm_memory :: mem_store
  debounceTimers :: "(string, time) jsmap"
  debounceProviders :: "(string, provider) jsmap"
  sm_counters :: counters
  stateSizeBytes :: int
  sweeping :: bool

definition sm_init :: sm where
  "sm_init = \<lparr>sm_memory = [], debounceTimers = [], debounceProviders = [],
     sm_counters = \<lparr>c_success = 0, c_decrypt_failed = 0, c_expired = 0, c_mismatch = 0, c_new_session = 0\<rparr>,
     stateSizeBytes = 0, sweeping = True\<rparr>"

text \<open>The constructor: validated options, or the error it throws.\<close>

definition sm_construct ::
    "crypto \<Rightarrow> key_source \<Rightarrow> int option \<Rightarrow> string \<Rightarrow> int option \<Rightarrow> session_error + (sm_config \<times> sm)" where
  "sm_construct cr encryptionKey ttlMs keyId debounceMs =
     (if keyId = [] then Inl (SeTypeError ''keyId must be a non-empty string'')
      else if CHR ''.'' \<in> set keyId then Inl (SeTypeError ''keyId must not contain a dot'')
      else case ttlMs of
        None \<Rightarrow> Inl (SeRangeError ''ttlMs must be a positive number of milliseconds'')
      | Some ttl \<Rightarrow>
          if ttl \<le> 0 then Inl (SeRangeError ''ttlMs must be a positive number of milliseconds'')
          else (case debounceMs of
            None \<Rightarrow> Inl (SeRangeError ''debounceMs must be a non-negative number of milliseconds'')
          | Some d \<Rightarrow>
              if d < 0 then Inl (SeRangeError ''debounceMs must be a non-negative number of milliseconds'')
              else (case parseKeyMap cr encryptionKey keyId of
                      Inl err \<Rightarrow> Inl err
                    | Inr keys \<Rightarrow> Inr (\<lparr>sm_keys = keys, sm_keyId = keyId, sm_ttlMs = ttl, sm_debounceMs = d\<rparr>, sm_init))))"

definition sweep_period :: "sm_config \<Rightarrow> int" where
  "sweep_period cfg = max 1000 (min (sm_ttlMs cfg) 60000)"

definition storage_key :: "string \<Rightarrow> string" where
  "storage_key clientId = ''session:'' @ clientId"

definition is_object :: "json \<Rightarrow> bool" where
  "is_object v = (case v of JObj _ \<Rightarrow> True | JArr _ \<Rightarrow> True | _ \<Rightarrow> False)"

definition seal_blob :: "crypto \<Rightarrow> sm_config \<Rightarrow> bytes \<Rightarrow> json \<Rightarrow> string" where
  "seal_blob cr cfg iv state =
     (let compressed = deflateSync cr (stringify state);
          key = (case js_get (sm_keys cfg) (sm_keyId cfg) of Some k \<Rightarrow> k | None \<Rightarrow> []);
          (ciphertext, tag) = encrypt cr key iv compressed
      in join_with ''.'' [sm_keyId cfg, toBase64 cr iv, toBase64 cr ciphertext, toBase64 cr tag])"

definition save :: "crypto \<Rightarrow> sm_config \<Rightarrow> time \<Rightarrow> bytes \<Rightarrow> string \<Rightarrow> json \<Rightarrow> sm \<Rightarrow> (session_error + string) \<times> sm" where
  "save cr cfg now iv clientId state s =
     (if clientId = [] then (Inl (SeTypeError ''clientId must be a non-empty string''), s)
      else if \<not> is_object state then (Inl (SeTypeError ''state must be an object''), s)
      else let blob = seal_blob cr cfg iv state;
               s1 = s\<lparr>stateSizeBytes := int (length blob)\<rparr>
           in if length blob > 16384
              then (Inl (SeRangeError (''session blob is over the byte limit: '' @ clientId)), s1)
              else (Inr blob, s1\<lparr>sm_memory := mem_set now (storage_key clientId) blob (sm_ttlMs cfg) (sm_memory s1)\<rparr>))"

definition candidates :: "sm_config \<Rightarrow> string \<Rightarrow> aes_key list" where
  "candidates cfg blobKeyId =
     (case js_get (sm_keys cfg) blobKeyId of Some k \<Rightarrow> [k] | None \<Rightarrow> [])
     @ map snd (filter (\<lambda>(i, k). i \<noteq> blobKeyId) (sm_keys cfg))"

text \<open>One candidate key: \<open>None\<close> is an exception, \<open>Some None\<close> an authentic blob without a client id.\<close>

definition try_key :: "crypto \<Rightarrow> bytes \<Rightarrow> bytes \<Rightarrow> bytes \<Rightarrow> aes_key \<Rightarrow> json option option" where
  "try_key cr iv ciphertext tag key =
     (case decrypt cr key iv ciphertext tag of
        None \<Rightarrow> None
      | Some plaintext \<Rightarrow>
          (case inflateSync cr plaintext of
             None \<Rightarrow> None
           | Some text \<Rightarrow>
               (case json_parse cr text of
                  None \<Rightarrow> None
                | Some state \<Rightarrow>
                    (case get_prop state ''clientId'' of
                       Some (JStr c) \<Rightarrow> Some (Some state)
                     | _ \<Rightarrow> Some None))))"

fun first_key :: "crypto \<Rightarrow> bytes \<Rightarrow> bytes \<Rightarrow> bytes \<Rightarrow> aes_key list \<Rightarrow> json option" where
  "first_key cr iv ciphertext tag [] = None"
| "first_key cr iv ciphertext tag (k # ks) =
     (case try_key cr iv ciphertext tag k of
        Some r \<Rightarrow> r
      | None \<Rightarrow> first_key cr iv ciphertext tag ks)"

definition open_blob :: "crypto \<Rightarrow> sm_config \<Rightarrow> string \<Rightarrow> json option" where
  "open_blob cr cfg sessionId =
     (if sessionId = [] then None
      else case split_on (CHR ''.'') sessionId of
        [blobKeyId, ivB64, ciphertextB64, tagB64] \<Rightarrow>
          let iv = fromBase64 cr ivB64; ciphertext = fromBase64 cr ciphertextB64; tag = fromBase64 cr tagB64
          in if length iv \<noteq> 12 \<or> length tag \<noteq> 16 \<or> ciphertext = [] then None
             else first_key cr iv ciphertext tag (candidates cfg blobKeyId)
      | _ \<Rightarrow> None)"

definition state_client :: "json \<Rightarrow> string" where
  "state_client state = (case get_prop state ''clientId'' of Some (JStr c) \<Rightarrow> c | _ \<Rightarrow> [])"

definition count :: "(counters \<Rightarrow> counters) \<Rightarrow> sm \<Rightarrow> sm" where
  "count f s = s\<lparr>sm_counters := f (sm_counters s)\<rparr>"

definition bump_success :: "counters \<Rightarrow> counters" where
  "bump_success c = c\<lparr>c_success := c_success c + 1\<rparr>"

definition bump_decrypt_failed :: "counters \<Rightarrow> counters" where
  "bump_decrypt_failed c = c\<lparr>c_decrypt_failed := c_decrypt_failed c + 1\<rparr>"

definition bump_expired :: "counters \<Rightarrow> counters" where
  "bump_expired c = c\<lparr>c_expired := c_expired c + 1\<rparr>"

text \<open>\<open>load\<close> from the read on: the read failed, or it returned what is stored.\<close>

definition load_stored :: "bool \<Rightarrow> json \<Rightarrow> string + string option \<Rightarrow> sm \<Rightarrow> json option \<times> sm" where
  "load_stored countSuccess state stored s =
     (case stored of
        Inl err \<Rightarrow> (None, count bump_expired s)
      | Inr None \<Rightarrow> (None, count bump_expired s)
      | Inr (Some _) \<Rightarrow> (Some state, if countSuccess then count bump_success s else s))"

definition load :: "crypto \<Rightarrow> sm_config \<Rightarrow> time \<Rightarrow> string \<Rightarrow> bool \<Rightarrow> sm \<Rightarrow> json option \<times> sm" where
  "load cr cfg now sessionId countSuccess s =
     (case open_blob cr cfg sessionId of
        None \<Rightarrow> (None, count bump_decrypt_failed s)
      | Some state \<Rightarrow>
          let (stored, m) = mem_get now (storage_key (state_client state)) (sm_memory s)
          in load_stored countSuccess state (Inr stored) (s\<lparr>sm_memory := m\<rparr>))"

definition cancelDebounce :: "string \<Rightarrow> sm \<Rightarrow> provider option \<times> sm" where
  "cancelDebounce clientId s =
     (js_get (debounceProviders s) clientId,
      s\<lparr>debounceTimers := js_delete clientId (debounceTimers s),
        debounceProviders := js_delete clientId (debounceProviders s)\<rparr>)"

definition debouncedSave ::
    "sm_config \<Rightarrow> time \<Rightarrow> string \<Rightarrow> provider option \<Rightarrow> int option \<Rightarrow> sm \<Rightarrow> (session_error + unit) \<times> sm" where
  "debouncedSave cfg now clientId stateOrProvider ms s =
     (if clientId = [] then (Inl (SeTypeError ''clientId must be a non-empty string''), s)
      else case stateOrProvider of
        None \<Rightarrow> (Inl (SeTypeError ''stateProvider must be a function or a state object''), s)
      | Some p \<Rightarrow>
          let delay = (case ms of Some d \<Rightarrow> if d \<ge> 0 then d else sm_debounceMs cfg | None \<Rightarrow> sm_debounceMs cfg);
              (_, s1) = cancelDebounce clientId s
          in (Inr (), s1\<lparr>debounceProviders := js_set clientId p (debounceProviders s1),
                         debounceTimers := js_set clientId (now + delay) (debounceTimers s1)\<rparr>))"

definition provide :: "(nat \<Rightarrow> json option) \<Rightarrow> provider \<Rightarrow> json option" where
  "provide call p = (case p of Fixed v \<Rightarrow> Some v | Provider n \<Rightarrow> call n)"

text \<open>\<open>call\<close> is what the provider functions return now; \<open>None\<close> is a provider that throws.\<close>

definition runSave ::
    "crypto \<Rightarrow> sm_config \<Rightarrow> time \<Rightarrow> bytes \<Rightarrow> (nat \<Rightarrow> json option) \<Rightarrow> string \<Rightarrow> provider \<Rightarrow> sm \<Rightarrow> string option \<times> sm" where
  "runSave cr cfg now iv call clientId p s =
     (case provide call p of
        None \<Rightarrow> (None, s)
      | Some state \<Rightarrow>
          (case save cr cfg now iv clientId state s of
             (Inr blob, s') \<Rightarrow> (Some blob, s')
           | (Inl _, s') \<Rightarrow> (None, s')))"

definition debounce_fires ::
    "crypto \<Rightarrow> sm_config \<Rightarrow> time \<Rightarrow> bytes \<Rightarrow> (nat \<Rightarrow> json option) \<Rightarrow> string \<Rightarrow> sm \<Rightarrow> string option \<times> sm" where
  "debounce_fires cr cfg now iv call clientId s =
     (case cancelDebounce clientId s of
        (Some p, s1) \<Rightarrow> runSave cr cfg now iv call clientId p s1
      | (None, s1) \<Rightarrow> (None, s1))"

definition flush ::
    "crypto \<Rightarrow> sm_config \<Rightarrow> time \<Rightarrow> bytes \<Rightarrow> (nat \<Rightarrow> json option) \<Rightarrow> string \<Rightarrow> sm \<Rightarrow> string option \<times> sm" where
  "flush cr cfg now iv call clientId s =
     (if \<not> js_has (debounceTimers s) clientId then (None, snd (cancelDebounce clientId s))
      else case cancelDebounce clientId s of
        (Some p, s1) \<Rightarrow> runSave cr cfg now iv call clientId p s1
      | (None, s1) \<Rightarrow> (None, s1))"

fun flush_list ::
    "crypto \<Rightarrow> sm_config \<Rightarrow> time \<Rightarrow> (string \<Rightarrow> bytes) \<Rightarrow> (nat \<Rightarrow> json option) \<Rightarrow> string list \<Rightarrow> sm \<Rightarrow>
       string option list \<times> sm" where
  "flush_list cr cfg now ivs call [] s = ([], s)"
| "flush_list cr cfg now ivs call (c # cs) s =
     (let (r, s1) = flush cr cfg now (ivs c) call c s;
          (rs, s2) = flush_list cr cfg now ivs call cs s1
      in (r # rs, s2))"

definition flushAll ::
    "crypto \<Rightarrow> sm_config \<Rightarrow> time \<Rightarrow> (string \<Rightarrow> bytes) \<Rightarrow> (nat \<Rightarrow> json option) \<Rightarrow> sm \<Rightarrow> string option list \<times> sm" where
  "flushAll cr cfg now ivs call s = flush_list cr cfg now ivs call (js_keys (debounceTimers s)) s"

definition delete_session :: "string \<Rightarrow> sm \<Rightarrow> (session_error + unit) \<times> sm" where
  "delete_session clientId s =
     (if clientId = [] then (Inl (SeTypeError ''clientId must be a non-empty string''), s)
      else let s1 = snd (cancelDebounce clientId s)
           in (Inr (), s1\<lparr>sm_memory := mem_del (storage_key clientId) (sm_memory s1)\<rparr>))"

definition close_sessions :: "sm \<Rightarrow> sm" where
  "close_sessions s =
     (let s1 = fold (\<lambda>c t. snd (cancelDebounce c t)) (js_keys (debounceTimers s)) s
      in s1\<lparr>sweeping := False, sm_memory := mem_clear (sm_memory s1)\<rparr>)"

definition recordResumption :: "string \<Rightarrow> sm \<Rightarrow> (session_error + unit) \<times> sm" where
  "recordResumption result s =
     (if result = ''success'' then (Inr (), count bump_success s)
      else if result = ''decrypt_failed'' then (Inr (), count bump_decrypt_failed s)
      else if result = ''expired'' then (Inr (), count bump_expired s)
      else if result = ''mismatch'' then (Inr (), count (\<lambda>c. c\<lparr>c_mismatch := c_mismatch c + 1\<rparr>) s)
      else if result = ''new_session'' then (Inr (), count (\<lambda>c. c\<lparr>c_new_session := c_new_session c + 1\<rparr>) s)
      else (Inl (SeRangeError (''unknown resumption result '' @ result)), s))"

definition session_metrics :: "sm \<Rightarrow> counters \<times> int" where
  "session_metrics s = (sm_counters s, stateSizeBytes s)"

section \<open>The contract of a store with expiry\<close>

text \<open>\<open>live m t k\<close> is what a read of \<open>k\<close> at time \<open>t\<close> returns.\<close>

declare map_of_eq_Some_iff [simp del] Some_eq_map_of_iff [simp del]

locale expiring_store =
  fixes put :: "time \<Rightarrow> string \<Rightarrow> string \<Rightarrow> int \<Rightarrow> 'm \<Rightarrow> 'm"
    and fetch :: "time \<Rightarrow> string \<Rightarrow> 'm \<Rightarrow> string option \<times> 'm"
    and del :: "string \<Rightarrow> 'm \<Rightarrow> 'm"
    and inv :: "'m \<Rightarrow> bool"
    and live :: "'m \<Rightarrow> time \<Rightarrow> string \<Rightarrow> string option"
  assumes inv_ops: "inv m \<Longrightarrow> inv (put now k v px m)" "inv m \<Longrightarrow> inv (snd (fetch now k m))" "inv m \<Longrightarrow> inv (del k m)"
    and live_put: "inv m \<Longrightarrow> live (put now k v px m) t k' =
      (if k' = k then (if t < now + px then Some v else None) else live m t k')"
    and fetch_live: "inv m \<Longrightarrow> fst (fetch now k m) = live m now k"
    and live_fetch: "inv m \<Longrightarrow> now \<le> t \<Longrightarrow> live (snd (fetch now k m)) t k' = live m t k'"
    and live_del: "inv m \<Longrightarrow> live (del k m) t k' = (if k' = k then None else live m t k')"
begin

lemma fetch_put:
  "inv m \<Longrightarrow> fst (fetch t k (put now k v px m)) = (if t < now + px then Some v else None)"
  by (simp add: fetch_live inv_ops live_put)

lemma fetch_del: "inv m \<Longrightarrow> fst (fetch t k (del k m)) = None"
  by (simp add: fetch_live inv_ops live_del)

end

text \<open>Housekeeping that drops expired entries is invisible to later reads.\<close>

locale swept_store = expiring_store +
  fixes sweep :: "time \<Rightarrow> 'm \<Rightarrow> 'm"
  assumes inv_sweep: "inv m \<Longrightarrow> inv (sweep now m)"
    and live_sweep: "inv m \<Longrightarrow> now \<le> t \<Longrightarrow> live (sweep now m) t k = live m t k"
begin

lemma fetch_sweep: "inv m \<Longrightarrow> now \<le> t \<Longrightarrow> fst (fetch t k (sweep now m)) = fst (fetch t k m)"
  by (simp add: fetch_live inv_sweep live_sweep)

end

definition mem_live :: "mem_store \<Rightarrow> time \<Rightarrow> string \<Rightarrow> string option" where
  "mem_live m t k =
     (case js_get m k of None \<Rightarrow> None | Some e \<Rightarrow> if me_expiresAt e \<le> t then None else Some (me_value e))"

lemma js_get_filter:
  "wf_map m \<Longrightarrow> js_get (filter (\<lambda>(k, e). P e) m) k =
     (case js_get m k of Some e \<Rightarrow> if P e then Some e else None | None \<Rightarrow> None)"
proof (induction m)
  case (Cons p m)
  obtain a e where p: "p = (a, e)" by fastforce
  show ?case
  proof (cases "a = k")
    case True
    with Cons.prems p have "js_get m k = None" by (simp add: map_of_eq_None_iff)
    with Cons True p show ?thesis by simp
  qed (use Cons p in simp)
qed simp

lemma wf_filter: "wf_map m \<Longrightarrow> wf_map (filter P m)"
  by (induction m) auto

lemma mem_laws: "expiring_store mem_set mem_get mem_del wf_map mem_live"
  by unfold_locales
     (auto simp: mem_set_def mem_get_def mem_del_def mem_live_def split: option.splits)

interpretation memory: swept_store mem_set mem_get mem_del wf_map mem_live mem_sweep
proof (intro swept_store.intro mem_laws swept_store_axioms.intro)
  fix m :: mem_store and now t :: time and k
  assume "wf_map m"
  then show "wf_map (mem_sweep now m)" unfolding mem_sweep_def by (rule wf_filter)
  assume "now \<le> t"
  then show "mem_live (mem_sweep now m) t k = mem_live m t k"
    using js_get_filter [OF \<open>wf_map m\<close>, of "\<lambda>e. \<not> me_expiresAt e \<le> now"]
    by (auto simp: mem_live_def mem_sweep_def split: option.split)
qed

text \<open>
  The timers are no such housekeeping: the timer of an entry may fire before the entry expires.
  What each operation leaves of an entry it does not write: the entry, or nothing once the entry is
  expired or its timer is due.
\<close>

definition kept :: "time \<Rightarrow> mem_store \<Rightarrow> mem_store \<Rightarrow> string \<Rightarrow> bool" where
  "kept t m m' k \<longleftrightarrow> js_get m' k = js_get m k \<or>
     js_get m' k = None \<and> (\<exists>e. js_get m k = Some e \<and> (me_expiresAt e \<le> t \<or> me_firesAt e \<le> t))"

lemma kept_same [simp]: "js_get m' k = js_get m k \<Longrightarrow> kept t m m' k"
  by (simp add: kept_def)

lemma live_same: "js_get m' k = js_get m k \<Longrightarrow> mem_live m' t k = mem_live m t k"
  by (simp add: mem_live_def)

lemma kept_trans: "kept t m m' k \<Longrightarrow> kept t m' m'' k \<Longrightarrow> kept t m m'' k"
  unfolding kept_def by (elim disjE) simp_all

lemma kept_ops:
  "k' \<noteq> k \<Longrightarrow> kept t m (mem_del k' m) k"
  "now \<le> t \<Longrightarrow> kept t m (snd (mem_get now k' m)) k"
  "now \<le> t \<Longrightarrow> kept t m (mem_timer now k' m) k"
  by (auto simp: kept_def mem_del_def mem_get_def mem_timer_def split: option.splits)

lemma kept_sweep: "wf_map m \<Longrightarrow> now \<le> t \<Longrightarrow> kept t m (mem_sweep now m) k"
  using js_get_filter [of m "\<lambda>e. \<not> me_expiresAt e \<le> now" k]
  by (auto simp: kept_def mem_sweep_def split: option.splits if_splits)

lemma wf_timer: "wf_map m \<Longrightarrow> wf_map (mem_timer now k m)"
  by (simp add: mem_timer_def split: option.split)

text \<open>Gone stays gone, and an entry whose timer is not due before it expires stays readable.\<close>

lemma kept_dead: "kept t m m' k \<Longrightarrow> mem_live m t k = None \<Longrightarrow> mem_live m' t k = None"
  by (auto simp: kept_def mem_live_def split: option.splits if_splits)

lemma kept_live:
  "kept t m m' k \<Longrightarrow> mem_live m t k = Some v \<Longrightarrow> js_get m k = Some e \<Longrightarrow> me_expiresAt e \<le> me_firesAt e \<Longrightarrow>
     mem_live m' t k = Some v"
  by (auto simp: kept_def mem_live_def split: if_splits)

end
