(* ===== verification/SessionProperties.thy ===== *)
theory SessionProperties
  imports Sessions
begin

text \<open>
  Correctness of session resumption: a saved session resumes until it is deleted or expires, also
  after a key rotation; every failure is counted; debounced saves store the last state.
\<close>

declare map_of_eq_Some_iff [simp del] Some_eq_map_of_iff [simp del]

section \<open>Blobs\<close>

lemma split_on_plain: "d \<notin> set s \<Longrightarrow> split_on d s = [s]"
  by (induction s) auto

lemma split_on_append: "d \<notin> set p \<Longrightarrow> split_on d (p @ d # s) = p # split_on d s"
  by (induction p) auto

text \<open>A blob opens under every configuration that still has its key under its name.\<close>

lemma open_sealed:
  assumes ok: "crypto_ok cr" and iv: "length iv = 12" and id: "CHR ''.'' \<notin> set (sm_keyId cfg)" "sm_keyId cfg \<noteq> []"
    and key: "js_get (sm_keys cfg) (sm_keyId cfg) = Some k" "js_get (sm_keys cfg') (sm_keyId cfg) = Some k"
    and client: "get_prop state ''clientId'' = Some (JStr c)" and json: "json_parse cr (stringify state) = Some state"
  shows "open_blob cr cfg' (seal_blob cr cfg iv state) = Some state"
proof -
  let ?p = "deflateSync cr (stringify state)"
  obtain ct tag where enc: "encrypt cr k iv ?p = (ct, tag)" by fastforce
  have cr: "decrypt cr k iv ct tag = Some ?p" "length tag = 16" "length ct = length ?p" "?p \<noteq> []"
    "inflateSync cr ?p = Some (stringify state)"
    "\<And>b. fromBase64 cr (toBase64 cr b) = b" "\<And>b. CHR ''.'' \<notin> set (toBase64 cr b)"
    using ok enc unfolding crypto_ok_def by (metis fst_conv snd_conv)+
  have blob: "seal_blob cr cfg iv state =
      sm_keyId cfg @ CHR ''.'' # toBase64 cr iv @ CHR ''.'' # toBase64 cr ct @ CHR ''.'' # toBase64 cr tag"
    by (simp add: seal_blob_def Let_def key(1) enc)
  have parts: "split_on (CHR ''.'') (seal_blob cr cfg iv state) =
      [sm_keyId cfg, toBase64 cr iv, toBase64 cr ct, toBase64 cr tag]"
    unfolding blob by (simp add: split_on_append split_on_plain id(1) cr(7))
  have "ct \<noteq> []" using cr(3,4) by auto
  have "try_key cr iv ct tag k = Some (Some state)" by (simp add: try_key_def cr(1,5) json client)
  then have "first_key cr iv ct tag (candidates cfg' (sm_keyId cfg)) = Some state"
    by (simp add: candidates_def key(2))
  moreover have "seal_blob cr cfg iv state \<noteq> []" using id(2) by (simp add: blob)
  ultimately show ?thesis using \<open>ct \<noteq> []\<close> iv cr(2)
    by (simp add: open_blob_def parts cr(6) Let_def del: split_on.simps)
qed

section \<open>Runs of the manager\<close>

datatype sm_op =
    DoSave time bytes string json
  | DoLoad time string bool
  | DoDebounce time string "provider option" "int option"
  | DoFire time bytes "nat \<Rightarrow> json option" string
  | DoFlush time bytes "nat \<Rightarrow> json option" string
  | DoDelete string
  | DoSweep time
  | DoTimer time string
  | DoRecord string

fun sm_apply :: "crypto \<Rightarrow> sm_config \<Rightarrow> sm_op \<Rightarrow> sm \<Rightarrow> sm" where
  "sm_apply cr cfg (DoSave now iv c st) s = snd (save cr cfg now iv c st s)"
| "sm_apply cr cfg (DoLoad now blob b) s = snd (load cr cfg now blob b s)"
| "sm_apply cr cfg (DoDebounce now c p ms) s = snd (debouncedSave cfg now c p ms s)"
| "sm_apply cr cfg (DoFire now iv call c) s = snd (debounce_fires cr cfg now iv call c s)"
| "sm_apply cr cfg (DoFlush now iv call c) s = snd (flush cr cfg now iv call c s)"
| "sm_apply cr cfg (DoDelete c) s = snd (delete_session c s)"
| "sm_apply cr cfg (DoSweep now) s = s\<lparr>sm_memory := mem_sweep now (sm_memory s)\<rparr>"
| "sm_apply cr cfg (DoTimer now k) s = s\<lparr>sm_memory := mem_timer now k (sm_memory s)\<rparr>"
| "sm_apply cr cfg (DoRecord r) s = snd (recordResumption r s)"

text \<open>The operations that may write or delete the session of a client, and the clock they read.\<close>

fun touches :: "string \<Rightarrow> sm_op \<Rightarrow> bool" where
  "touches c (DoSave now iv c' st) = (c' = c)"
| "touches c (DoFire now iv call c') = (c' = c)"
| "touches c (DoFlush now iv call c') = (c' = c)"
| "touches c (DoDelete c') = (c' = c)"
| "touches c _ = False"

fun not_after :: "time \<Rightarrow> sm_op \<Rightarrow> bool" where
  "not_after t (DoLoad now blob b) = (now \<le> t)"
| "not_after t (DoSweep now) = (now \<le> t)"
| "not_after t (DoTimer now k) = (now \<le> t)"
| "not_after t _ = True"

lemma storage_key_inj [simp]: "storage_key c = storage_key c' \<longleftrightarrow> c = c'"
  by (simp add: storage_key_def)

lemma save_memory:
  assumes "wf_map (sm_memory s)"
  shows "wf_map (sm_memory (snd (save cr cfg now iv c' st s)))"
    "c' \<noteq> c \<Longrightarrow> js_get (sm_memory (snd (save cr cfg now iv c' st s))) (storage_key c) = js_get (sm_memory s) (storage_key c)"
  using assms memory.inv_ops(1) by (auto simp: save_def Let_def mem_set_def)

lemma cancelDebounce_memory [simp]: "sm_memory (snd (cancelDebounce c s)) = sm_memory s"
  by (simp add: cancelDebounce_def)

lemma runSave_memory:
  assumes "wf_map (sm_memory s)"
  shows "wf_map (sm_memory (snd (runSave cr cfg now iv call c' p s)))"
    "c' \<noteq> c \<Longrightarrow> js_get (sm_memory (snd (runSave cr cfg now iv call c' p s))) (storage_key c) = js_get (sm_memory s) (storage_key c)"
proof -
  have "snd (runSave cr cfg now iv call c' p s) = s
      \<or> (\<exists>st. snd (runSave cr cfg now iv call c' p s) = snd (save cr cfg now iv c' st s))"
    by (cases "provide call p") (auto simp: runSave_def split: prod.split sum.split, (metis snd_conv)+)
  with save_memory [OF assms] assms
  show "wf_map (sm_memory (snd (runSave cr cfg now iv call c' p s)))"
    "c' \<noteq> c \<Longrightarrow> js_get (sm_memory (snd (runSave cr cfg now iv call c' p s))) (storage_key c) = js_get (sm_memory s) (storage_key c)"
    by (elim disjE exE; simp)+
qed

lemma load_memory:
  "sm_memory (snd (load cr cfg now blob b s)) \<in> insert (sm_memory s) ((\<lambda>k. snd (mem_get now k (sm_memory s))) ` UNIV)"
  by (auto simp: load_def load_stored_def count_def case_prod_beta Let_def split: option.split)

lemma apply_memory:
  assumes "wf_map (sm_memory s)"
  shows "wf_map (sm_memory (sm_apply cr cfg op s))
    \<and> (\<not> touches c op \<longrightarrow> not_after t op \<longrightarrow>
         kept t (sm_memory s) (sm_memory (sm_apply cr cfg op s)) (storage_key c))"
proof (cases op)
  case (DoSave now iv c' st)
  then show ?thesis using save_memory [OF assms] by simp
next
  case (DoLoad now blob b)
  from load_memory [of cr cfg now blob b s] consider
      "sm_memory (snd (load cr cfg now blob b s)) = sm_memory s"
    | k where "sm_memory (snd (load cr cfg now blob b s)) = snd (mem_get now k (sm_memory s))" by auto
  then show ?thesis
    using DoLoad assms memory.inv_ops(2) by cases (auto simp: kept_ops(2))
next
  case (DoDebounce now c' p ms)
  then show ?thesis using assms by (auto simp: debouncedSave_def Let_def cancelDebounce_def split: option.split)
next
  case (DoFire now iv call c')
  have "wf_map (sm_memory (snd (cancelDebounce c' s)))" using assms by simp
  from runSave_memory [OF this] DoFire assms show ?thesis
    by (auto simp: debounce_fires_def cancelDebounce_def split: option.split)
next
  case (DoFlush now iv call c')
  have "wf_map (sm_memory (snd (cancelDebounce c' s)))" using assms by simp
  from runSave_memory [OF this] DoFlush assms show ?thesis
    by (auto simp: flush_def cancelDebounce_def split: option.split)
next
  case (DoDelete c')
  then show ?thesis
    using assms memory.inv_ops(3) by (auto simp: delete_session_def Let_def kept_ops(1))
next
  case (DoSweep now)
  then show ?thesis using assms memory.inv_sweep by (simp add: kept_sweep)
next
  case (DoTimer now k)
  then show ?thesis using assms by (simp add: wf_timer kept_ops(3))
next
  case (DoRecord r)
  then show ?thesis using assms by (auto simp: recordResumption_def count_def)
qed

lemmas apply_wf = apply_memory [THEN conjunct1]

lemma run_memory:
  assumes "wf_map (sm_memory s)" "\<forall>op\<in>set ops. \<not> touches c op \<and> not_after t op"
  shows "wf_map (sm_memory (fold (sm_apply cr cfg) ops s))
    \<and> kept t (sm_memory s) (sm_memory (fold (sm_apply cr cfg) ops s)) (storage_key c)"
  using assms
proof (induction ops arbitrary: s)
  case (Cons op ops)
  then show ?case
    using apply_memory [of s cr cfg op c t] kept_trans by fastforce
qed simp

lemma load_live:
  assumes "wf_map (sm_memory s)" "open_blob cr cfg blob = Some state"
  shows "fst (load cr cfg t blob b s) =
      (if mem_live (sm_memory s) t (storage_key (state_client state)) = None then None else Some state)"
    "sm_counters (snd (load cr cfg t blob b s)) =
      (if mem_live (sm_memory s) t (storage_key (state_client state)) = None then bump_expired (sm_counters s)
       else if b then bump_success (sm_counters s) else sm_counters s)"
  using memory.fetch_live [OF assms(1)] assms(2)
  by (auto simp: load_def load_stored_def count_def case_prod_beta split: option.split)

section \<open>Reachable managers\<close>

definition managed :: "crypto \<Rightarrow> sm_config \<Rightarrow> sm \<Rightarrow> bool" where
  "managed cr cfg s \<longleftrightarrow>
     (\<exists>src ttl keyId d s0 ops. sm_construct cr src ttl keyId d = Inr (cfg, s0) \<and> s = fold (sm_apply cr cfg) ops s0)"

lemma managedI:
  "sm_construct cr src ttl keyId d = Inr (cfg, s0) \<Longrightarrow> managed cr cfg (fold (sm_apply cr cfg) ops s0)"
  unfolding managed_def by blast

lemma derive_all_wf: "derive_all cr es keys = Inr keys' \<Longrightarrow> wf_map keys \<Longrightarrow> wf_map keys'"
  by (induction cr es keys rule: derive_all.induct) (auto split: sum.splits)

lemma construct_inr:
  assumes "sm_construct cr src ttl keyId d = Inr (cfg, s0)"
  shows "sm_keyId cfg = keyId" "keyId \<noteq> []" "CHR ''.'' \<notin> set keyId" "sm_ttlMs cfg > 0" "s0 = sm_init"
    "parseKeyMap cr src keyId = Inr (sm_keys cfg)"
  using assms by (auto simp: sm_construct_def split: if_splits option.splits sum.splits)

lemma parse_has_key:
  assumes "parseKeyMap cr src keyId = Inr keys"
  shows "js_has keys keyId"
proof -
  have "parse_entries cr keyId source = Inr keys \<Longrightarrow> js_has keys keyId" for source
    by (auto simp: parse_entries_def split: key_source.splits list.splits sum.splits if_splits)
  with assms show ?thesis by (auto simp: parseKeyMap_def split: key_source.splits sum.splits)
qed

lemma managed_wf: "managed cr cfg s \<Longrightarrow> wf_map (sm_memory s)"
proof -
  assume "managed cr cfg s"
  then obtain s0 ops where s: "s = fold (sm_apply cr cfg) ops s0" and "s0 = sm_init"
    unfolding managed_def using construct_inr(5) by blast
  then have "wf_map (sm_memory s0)" by (simp add: sm_init_def)
  then show ?thesis unfolding s
    by (induction ops arbitrary: s0) (simp_all add: apply_wf)
qed

lemma managed_key:
  assumes "managed cr cfg s"
  obtains k where "js_get (sm_keys cfg) (sm_keyId cfg) = Some k"
    and "CHR ''.'' \<notin> set (sm_keyId cfg)" and "sm_keyId cfg \<noteq> []"
proof -
  from assms obtain src ttl keyId d s0 where c: "sm_construct cr src ttl keyId d = Inr (cfg, s0)"
    unfolding managed_def by blast
  with parse_has_key [OF construct_inr(6) [OF c]] construct_inr [OF c] that show ?thesis by auto
qed

lemma managed_run: "managed cr cfg s \<Longrightarrow> managed cr cfg (fold (sm_apply cr cfg) ops s)"
  unfolding managed_def by (metis fold_append comp_apply)

lemma save_inr:
  assumes "save cr cfg now iv c state s = (Inr blob, s1)"
  shows "c \<noteq> []" "is_object state" "blob = seal_blob cr cfg iv state" "length blob \<le> 16384"
    "sm_memory s1 = mem_set now (storage_key c) blob (sm_ttlMs cfg) (sm_memory s)"
    "sm_counters s1 = sm_counters s"
  using assms by (auto simp: save_def Let_def split: if_splits)

lemma save_live:
  assumes "save cr cfg now iv c state s = (Inr blob, s1)" "wf_map (sm_memory s)"
  shows "mem_live (sm_memory s1) t (storage_key c) = (if t < now + sm_ttlMs cfg then Some blob else None)"
  using assms(2) save_inr(5) [OF assms(1)] by (simp add: memory.live_put)

lemma save_entry:
  assumes "save cr cfg now iv c state s = (Inr blob, s1)"
  shows "js_get (sm_memory s1) (storage_key c) =
    Some \<lparr>me_value = blob, me_expiresAt = now + sm_ttlMs cfg, me_firesAt = now + timer_delay (sm_ttlMs cfg)\<rparr>"
  using save_inr(5) [OF assms] by (simp add: mem_set_def)

lemma managed_ttl: "managed cr cfg s \<Longrightarrow> sm_ttlMs cfg > 0"
  unfolding managed_def using construct_inr(4) by blast

lemma state_client_eq: "get_prop state ''clientId'' = Some (JStr c) \<Longrightarrow> state_client state = c"
  by (simp add: state_client_def)

section \<open>Resumption\<close>

text \<open>
  C25. A saved session resumes. The blob \<open>save\<close> returned gives the state back on any gateway whose
  keys still hold the sealing key, after any operations that do not write or delete that client's
  session and whose clocks are not ahead, until the sliding TTL has passed; the load counts as a
  success. The TTL is below \<open>2^31\<close> milliseconds, where the timer of the entry is due only at the end
  of the TTL (\<open>long_ttl_lost\<close> shows what happens above).
\<close>
theorem session_resumes:
  assumes "crypto_ok cr" and "length iv = 12" and "json_parse cr (stringify state) = Some state"
    and "get_prop state ''clientId'' = Some (JStr c)"
    and "managed cr cfg s" and "save cr cfg now iv c state s = (Inr blob, s1)"
    and "js_get (sm_keys cfg') (sm_keyId cfg) = js_get (sm_keys cfg) (sm_keyId cfg)"
    and "\<forall>op\<in>set ops. \<not> touches c op \<and> not_after t op" and "t < now + sm_ttlMs cfg"
    and "sm_ttlMs cfg < 2 ^ 31"
  shows "fst (load cr cfg' t blob True (fold (sm_apply cr cfg) ops s1)) = Some state
    \<and> sm_counters (snd (load cr cfg' t blob True (fold (sm_apply cr cfg) ops s1)))
        = bump_success (sm_counters (fold (sm_apply cr cfg) ops s1))"
proof -
  obtain k where k: "js_get (sm_keys cfg) (sm_keyId cfg) = Some k"
    and id: "CHR ''.'' \<notin> set (sm_keyId cfg)" "sm_keyId cfg \<noteq> []" using managed_key [OF assms(5)] .
  have opens: "open_blob cr cfg' blob = Some state"
    unfolding save_inr(3) [OF assms(6)]
    using open_sealed [OF assms(1,2) id k _ assms(4,3)] assms(7) k by simp
  have "wf_map (sm_memory s1)"
    using save_inr(5) [OF assms(6)] memory.inv_ops(1) managed_wf [OF assms(5)] by simp
  from run_memory [OF this assms(8), of cr cfg]
  have run: "wf_map (sm_memory (fold (sm_apply cr cfg) ops s1))"
    "kept t (sm_memory s1) (sm_memory (fold (sm_apply cr cfg) ops s1)) (storage_key c)" by simp_all
  have "mem_live (sm_memory (fold (sm_apply cr cfg) ops s1)) t (storage_key c) = Some blob"
    using kept_live [OF run(2) _ save_entry [OF assms(6)]] save_live [OF assms(6) managed_wf [OF assms(5)], of t]
      assms(9,10) managed_ttl [OF assms(5)] by (simp add: timer_delay_def)
  then show ?thesis using load_live [OF run(1) opens] state_client_eq [OF assms(4)] by simp
qed

text \<open>
  With a TTL of \<open>2^31\<close> milliseconds (about 25 days) or more the session is lost: the delay of the
  entry's timer overflows to one millisecond, so that the timer deletes the session long before the
  TTL has passed, and no later load finds it.
\<close>

lemma long_ttl_lost:
  assumes "managed cr cfg s" and "save cr cfg now iv c state s = (Inr blob, s1)" and "2 ^ 31 \<le> sm_ttlMs cfg"
    and "open_blob cr cfg' blob' = Some state'" and "state_client state' = c"
  shows "fst (load cr cfg' t blob' b (sm_apply cr cfg (DoTimer (now + 1) (storage_key c)) s1)) = None"
proof -
  let ?s2 = "sm_apply cr cfg (DoTimer (now + 1) (storage_key c)) s1"
  have "js_get (sm_memory ?s2) (storage_key c) = None"
    using save_entry [OF assms(2)] assms(3) by (simp add: mem_timer_def timer_delay_def)
  then have "mem_live (sm_memory ?s2) t (storage_key c) = None" by (simp add: mem_live_def)
  moreover have "wf_map (sm_memory s1)"
    using save_inr(5) [OF assms(2)] memory.inv_ops(1) managed_wf [OF assms(1)] by simp
  ultimately show ?thesis using load_live(1) [OF apply_wf assms(4)] assms(5) by (simp del: sm_apply.simps)
qed

text \<open>
  C26. Deletion and expiry are authoritative: after \<open>delete\<close>, or once the TTL of the last save has
  passed, no blob of that client resumes until it is saved again, whatever else runs; each attempt
  is counted as expired.
\<close>
theorem session_revoked:
  assumes "managed cr cfg s" and "open_blob cr cfg' blob = Some state" and "state_client state = c" and "c \<noteq> []"
    and "s1 = snd (delete_session c s)
      \<or> save cr cfg now iv c st s = (Inr blob', s1) \<and> now + sm_ttlMs cfg \<le> t"
    and "\<forall>op\<in>set ops. \<not> touches c op \<and> not_after t op"
  shows "fst (load cr cfg' t blob b (fold (sm_apply cr cfg) ops s1)) = None
    \<and> sm_counters (snd (load cr cfg' t blob b (fold (sm_apply cr cfg) ops s1)))
        = bump_expired (sm_counters (fold (sm_apply cr cfg) ops s1))"
proof -
  note wf = managed_wf [OF assms(1)]
  have "wf_map (sm_memory s1) \<and> mem_live (sm_memory s1) t (storage_key c) = None"
    using assms(5)
  proof
    assume "s1 = snd (delete_session c s)"
    then show ?thesis using wf assms(4) memory.inv_ops(3) memory.live_del
      by (simp add: delete_session_def Let_def)
  next
    assume sv: "save cr cfg now iv c st s = (Inr blob', s1) \<and> now + sm_ttlMs cfg \<le> t"
    then show ?thesis
      using save_live [of cr cfg now iv c st s blob' s1 t] save_inr(5) memory.inv_ops(1) wf by auto
  qed
  then have wf1: "wf_map (sm_memory s1)" and dead: "mem_live (sm_memory s1) t (storage_key c) = None" by simp_all
  note run = run_memory [OF wf1 assms(6), of cr cfg]
  from kept_dead [OF conjunct2 [OF run] dead] load_live [OF conjunct1 [OF run] assms(2)] assms(3)
  show ?thesis by simp
qed

text \<open>
  What makes a blob live is only that \<open>some\<close> session of its client is stored: a blob of a session
  that was deleted resumes again as soon as the client has a newer session.
\<close>
theorem deleted_blob_revived:
  assumes "crypto_ok cr" and "length iv = 12" and "json_parse cr (stringify state) = Some state"
    and "get_prop state ''clientId'' = Some (JStr c)"
    and "managed cr cfg s" and "save cr cfg now iv c state s = (Inr blob, s1)"
    and "save cr cfg now' iv' c state' (snd (delete_session c s1)) = (Inr blob', s2)"
    and "t < now' + sm_ttlMs cfg"
  shows "fst (load cr cfg t blob b s2) = Some state"
proof -
  obtain k where k: "js_get (sm_keys cfg) (sm_keyId cfg) = Some k"
    and id: "CHR ''.'' \<notin> set (sm_keyId cfg)" "sm_keyId cfg \<noteq> []" using managed_key [OF assms(5)] .
  have opens: "open_blob cr cfg blob = Some state"
    unfolding save_inr(3) [OF assms(6)] using open_sealed [OF assms(1,2) id k k assms(4,3)] .
  have "wf_map (sm_memory s1)"
    using save_inr(5) [OF assms(6)] memory.inv_ops(1) managed_wf [OF assms(5)] by simp
  then have wf: "wf_map (sm_memory (snd (delete_session c s1)))"
    using memory.inv_ops(3) by (simp add: delete_session_def Let_def)
  have "wf_map (sm_memory s2)" using save_inr(5) [OF assms(7)] memory.inv_ops(1) wf by simp
  with load_live(1) [OF _ opens] save_live [OF assms(7) wf, of t] assms(8) state_client_eq [OF assms(4)]
  show ?thesis by simp
qed

section \<open>Failures\<close>

lemma first_key_authentic:
  "first_key cr iv ct tag ks = Some state \<Longrightarrow>
     \<exists>k\<in>set ks. \<exists>p text. decrypt cr k iv ct tag = Some p \<and> inflateSync cr p = Some text
       \<and> json_parse cr text = Some state \<and> (\<exists>c. get_prop state ''clientId'' = Some (JStr c))"
proof (induction ks)
  case (Cons k ks)
  show ?case
  proof (cases "try_key cr iv ct tag k")
    case None
    with Cons show ?thesis by auto
  next
    case (Some r)
    with Cons.prems have "try_key cr iv ct tag k = Some (Some state)" by simp
    then show ?thesis by (auto simp: try_key_def split: option.splits json.splits)
  qed
qed simp

lemma open_authentic:
  assumes "open_blob cr cfg blob = Some state"
  shows "(\<exists>i iv ct tag k p pt. split_on (CHR ''.'') blob = [i, iv, ct, tag] \<and> k \<in> snd ` set (sm_keys cfg)
      \<and> decrypt cr k (fromBase64 cr iv) (fromBase64 cr ct) (fromBase64 cr tag) = Some p
      \<and> inflateSync cr p = Some pt \<and> json_parse cr pt = Some state)"
proof -
  obtain i a b d where sp: "split_on (CHR ''.'') blob = [i, a, b, d]"
    and fk: "first_key cr (fromBase64 cr a) (fromBase64 cr b) (fromBase64 cr d) (candidates cfg i) = Some state"
    using assms by (auto simp: open_blob_def Let_def split: if_splits list.splits)
  have "k \<in> snd ` set (sm_keys cfg)" if "js_get (sm_keys cfg) i = Some k" for k
    using map_of_SomeD [OF that] by force
  then have "set (candidates cfg i) \<subseteq> snd ` set (sm_keys cfg)"
    by (auto simp: candidates_def split: option.splits)
  then show ?thesis using first_key_authentic [OF fk]
    by (elim bexE exE conjE) (intro exI conjI, rule sp, erule (1) subsetD, assumption+)
qed

text \<open>
  \<open>load\<close> never fails silently and never trusts a forged blob. No result is \<open>None\<close> without exactly one
  of \<open>decrypt_failed\<close> and \<open>expired\<close> going up, the first exactly when no configured key opens the blob;
  and a state is returned only when one of the keys authenticates the blob, the plaintext inflates
  and parses to that state, and the session of its client is stored and not expired.
\<close>
theorem load_outcomes:
  assumes "managed cr cfg s" and "load cr cfg t blob b s = (r, s')"
  shows "(r = None \<longrightarrow> sm_counters s' =
            (if open_blob cr cfg blob = None then bump_decrypt_failed else bump_expired) (sm_counters s))
    \<and> (\<forall>state. r = Some state \<longrightarrow>
         sm_counters s' = (if b then bump_success else id) (sm_counters s)
         \<and> (\<exists>v. mem_live (sm_memory s) t (storage_key (state_client state)) = Some v)
         \<and> (\<exists>i iv ct tag k p text. split_on (CHR ''.'') blob = [i, iv, ct, tag] \<and> k \<in> snd ` set (sm_keys cfg)
              \<and> decrypt cr k (fromBase64 cr iv) (fromBase64 cr ct) (fromBase64 cr tag) = Some p
              \<and> inflateSync cr p = Some text \<and> json_parse cr text = Some state))"
proof (cases "open_blob cr cfg blob")
  case None
  with assms(2) have "r = None" "s' = count bump_decrypt_failed s" by (simp_all add: load_def)
  with None show ?thesis by (simp add: count_def)
next
  case (Some st)
  note l = load_live [OF managed_wf [OF assms(1)] Some, of t b, unfolded assms(2) fst_conv snd_conv]
  show ?thesis
  proof (cases "mem_live (sm_memory s) t (storage_key (state_client st))")
    case None
    with l Some show ?thesis by simp
  next
    case live: (Some v)
    then have r: "r = Some st" and "sm_counters s' = (if b then bump_success else id) (sm_counters s)"
      using l by simp_all
    moreover note open_authentic [OF Some]
    ultimately show ?thesis using live by (simp only: option.inject option.distinct) blast
  qed
qed

section \<open>Debounced saves\<close>

fun debounces :: "string \<Rightarrow> sm_op \<Rightarrow> bool" where
  "debounces c (DoDebounce now c' p ms) = (c' = c)"
| "debounces c _ = False"

lemma save_debounce [simp]:
  "debounceTimers (snd (save cr cfg now iv c st s)) = debounceTimers s"
  "debounceProviders (snd (save cr cfg now iv c st s)) = debounceProviders s"
  by (simp_all add: save_def Let_def)

lemma runSave_debounce [simp]:
  "debounceTimers (snd (runSave cr cfg now iv call c p s)) = debounceTimers s"
  "debounceProviders (snd (runSave cr cfg now iv call c p s)) = debounceProviders s"
  using save_debounce [of cr cfg now iv c _ s]
  by (auto simp: runSave_def split: option.split prod.split sum.split dest!: arg_cong [where f = snd])

lemma load_debounce [simp]:
  "debounceTimers (snd (load cr cfg now blob b s)) = debounceTimers s"
  "debounceProviders (snd (load cr cfg now blob b s)) = debounceProviders s"
  by (auto simp: load_def load_stored_def count_def case_prod_beta split: option.split)

lemma cancelDebounce_maps [simp]:
  "debounceTimers (snd (cancelDebounce c s)) = js_delete c (debounceTimers s)"
  "debounceProviders (snd (cancelDebounce c s)) = js_delete c (debounceProviders s)"
  "fst (cancelDebounce c s) = js_get (debounceProviders s) c"
  by (simp_all add: cancelDebounce_def)

definition pending :: "sm \<Rightarrow> string \<Rightarrow> provider option" where
  "pending s c = (if js_has (debounceTimers s) c then js_get (debounceProviders s) c else None)"

lemma flush_unfold:
  "flush cr cfg now iv call c s =
     (case pending s c of None \<Rightarrow> (None, snd (cancelDebounce c s))
      | Some p \<Rightarrow> runSave cr cfg now iv call c p (snd (cancelDebounce c s)))"
  by (auto simp: flush_def pending_def cancelDebounce_def split: option.split)

lemma flush_maps [simp]:
  "debounceTimers (snd (flush cr cfg now iv call c s)) = js_delete c (debounceTimers s)"
  "debounceProviders (snd (flush cr cfg now iv call c s)) = js_delete c (debounceProviders s)"
  by (simp_all add: flush_unfold split: option.split)

lemma fires_maps [simp]:
  "debounceTimers (snd (debounce_fires cr cfg now iv call c s)) = js_delete c (debounceTimers s)"
  "debounceProviders (snd (debounce_fires cr cfg now iv call c s)) = js_delete c (debounceProviders s)"
  by (auto simp: debounce_fires_def cancelDebounce_def split: option.split)

lemma apply_pending:
  assumes "\<not> touches c op" "\<not> debounces c op"
  shows "js_get (debounceTimers (sm_apply cr cfg op s)) c = js_get (debounceTimers s) c
    \<and> js_get (debounceProviders (sm_apply cr cfg op s)) c = js_get (debounceProviders s) c"
  using assms
  by (cases op) (auto simp: debouncedSave_def delete_session_def recordResumption_def count_def Let_def
      cancelDebounce_def split: option.split)

lemma run_pending:
  assumes "\<forall>op\<in>set ops. \<not> touches c op \<and> \<not> debounces c op"
  shows "js_get (debounceTimers (fold (sm_apply cr cfg) ops s)) c = js_get (debounceTimers s) c
    \<and> js_get (debounceProviders (fold (sm_apply cr cfg) ops s)) c = js_get (debounceProviders s) c"
  using assms
proof (induction ops arbitrary: s)
  case (Cons op ops)
  then show ?case using apply_pending [of c op cr cfg] by simp
qed simp

text \<open>
  Debouncing loses nothing but what is superseded: after any earlier calls, the last
  \<open>debouncedSave\<close> of a client leaves one timer, due after the requested delay or the default one,
  and when it fires, or is flushed earlier, exactly the state of that last call is saved; a second
  flush finds nothing.
\<close>
theorem debounce_last_wins:
  assumes "c \<noteq> []" and "\<forall>op\<in>set ops. \<not> touches c op \<and> \<not> debounces c op"
    and "s1 = fold (sm_apply cr cfg) ops (snd (debouncedSave cfg now c (Some p) ms s))"
  shows "js_get (debounceTimers s1) c =
      Some (now + (case ms of Some d \<Rightarrow> if d \<ge> 0 then d else sm_debounceMs cfg | None \<Rightarrow> sm_debounceMs cfg))
    \<and> flush cr cfg t iv call c s1 = runSave cr cfg t iv call c p (snd (cancelDebounce c s1))
    \<and> debounce_fires cr cfg t iv call c s1 = flush cr cfg t iv call c s1
    \<and> fst (flush cr cfg t iv call c (snd (flush cr cfg t iv call c s1))) = None"
proof -
  have t: "js_get (debounceTimers s1) c =
      Some (now + (case ms of Some d \<Rightarrow> if d \<ge> 0 then d else sm_debounceMs cfg | None \<Rightarrow> sm_debounceMs cfg))"
    and p: "js_get (debounceProviders s1) c = Some p"
    using run_pending [OF assms(2), of cr cfg] assms(1)
    by (auto simp: assms(3) debouncedSave_def Let_def cancelDebounce_def split: option.split)
  then have "pending s1 c = Some p" by (simp add: pending_def)
  moreover from p have "debounce_fires cr cfg t iv call c s1 = runSave cr cfg t iv call c p (snd (cancelDebounce c s1))"
    by (simp add: debounce_fires_def cancelDebounce_def)
  moreover have "pending (snd (flush cr cfg t iv call c s1)) c = None" by (simp add: pending_def)
  ultimately show ?thesis using t by (simp add: flush_unfold)
qed

section \<open>Shutdown\<close>

lemma flush_other:
  assumes "c' \<noteq> c" "wf_map (sm_memory s)"
  shows "pending (snd (flush cr cfg now iv call c' s)) c = pending s c"
    and "wf_map (sm_memory (snd (flush cr cfg now iv call c' s)))"
    and "mem_live (sm_memory (snd (flush cr cfg now iv call c' s))) t (storage_key c) = mem_live (sm_memory s) t (storage_key c)"
proof -
  show "pending (snd (flush cr cfg now iv call c' s)) c = pending s c"
    using assms(1) by (simp add: pending_def)
  have "wf_map (sm_memory (snd (cancelDebounce c' s)))" using assms(2) by simp
  note runSave_memory(1) [OF this] runSave_memory(2) [OF this assms(1)]
  then show "wf_map (sm_memory (snd (flush cr cfg now iv call c' s)))"
    "mem_live (sm_memory (snd (flush cr cfg now iv call c' s))) t (storage_key c) = mem_live (sm_memory s) t (storage_key c)"
    using assms(2) by (auto simp: flush_unfold split: option.split intro!: live_same)
qed

lemma flush_list_other:
  assumes "c \<notin> set cs" "wf_map (sm_memory s)"
  shows "pending (snd (flush_list cr cfg now ivs call cs s)) c = pending s c
    \<and> mem_live (sm_memory (snd (flush_list cr cfg now ivs call cs s))) t (storage_key c) = mem_live (sm_memory s) t (storage_key c)"
  using assms
proof (induction cs arbitrary: s)
  case (Cons a cs)
  then have "a \<noteq> c" by auto
  from flush_other [OF this Cons.prems(2), of cr cfg now "ivs a" call] Cons show ?case
    by (simp add: case_prod_beta)
qed simp

lemma flush_saves:
  assumes "pending s c = Some p" "provide call p = Some st" "c \<noteq> []" "is_object st"
    "length (seal_blob cr cfg iv st) \<le> 16384" "wf_map (sm_memory s)" "t < now + sm_ttlMs cfg"
  shows "mem_live (sm_memory (snd (flush cr cfg now iv call c s))) t (storage_key c) = Some (seal_blob cr cfg iv st)
    \<and> wf_map (sm_memory (snd (flush cr cfg now iv call c s)))"
  using assms memory.live_put memory.inv_ops(1)
  by (simp add: flush_unfold runSave_def save_def Let_def)

lemma flush_list_saves:
  assumes "pending s c = Some p" "provide call p = Some st" "c \<noteq> []" "is_object st"
    "length (seal_blob cr cfg (ivs c) st) \<le> 16384" "wf_map (sm_memory s)" "t < now + sm_ttlMs cfg"
    "distinct cs" "c \<in> set cs"
  shows "mem_live (sm_memory (snd (flush_list cr cfg now ivs call cs s))) t (storage_key c) = Some (seal_blob cr cfg (ivs c) st)"
  using assms(1,6,8,9)
proof (induction cs arbitrary: s)
  case (Cons a cs)
  show ?case
  proof (cases "a = c")
    case True
    from flush_saves [OF Cons.prems(1) assms(2-5) Cons.prems(2) assms(7)] Cons.prems(3) True
    show ?thesis using flush_list_other [of c cs] by (simp add: case_prod_beta)
  next
    case False
    from flush_other [OF this Cons.prems(2), of cr cfg now "ivs a" call] False Cons.prems Cons.IH
    show ?thesis by (simp add: case_prod_beta)
  qed
qed simp

lemma flush_list_timers:
  "debounceTimers (snd (flush_list cr cfg now ivs call cs s)) = fold js_delete cs (debounceTimers s)"
  by (induction cs arbitrary: s) (simp_all add: case_prod_beta)

lemma fold_delete_get: "js_get (fold js_delete cs m) k = (if k \<in> set cs then None else js_get m k)"
  by (induction cs arbitrary: m) simp_all

lemma sm_op_timers_wf: "wf_map (debounceTimers s) \<Longrightarrow> wf_map (debounceTimers (sm_apply cr cfg op s))"
  by (cases op) (auto simp: debouncedSave_def delete_session_def recordResumption_def count_def Let_def
      cancelDebounce_def split: option.split)

lemma managed_timers: "managed cr cfg s \<Longrightarrow> wf_map (debounceTimers s)"
proof -
  assume "managed cr cfg s"
  then obtain s0 ops where s: "s = fold (sm_apply cr cfg) ops s0" and "s0 = sm_init"
    unfolding managed_def using construct_inr(5) by blast
  then have "wf_map (debounceTimers s0)" by (simp add: sm_init_def)
  then show ?thesis unfolding s
    by (induction ops arbitrary: s0) (simp_all add: sm_op_timers_wf)
qed

text \<open>
  A shutdown loses no pending session: after \<open>flushAll\<close> no save is pending, and every client whose
  save was pending has its newest state stored for a full TTL, provided the provider returns an
  object whose blob is within the byte limit.
\<close>
theorem flush_all_saves_everything:
  assumes "managed cr cfg s" and "flushAll cr cfg now ivs call s = (blobs, s')"
  shows "js_keys (debounceTimers s') = []
    \<and> (\<forall>c p st t. pending s c = Some p \<and> provide call p = Some st \<and> c \<noteq> [] \<and> is_object st
        \<and> length (seal_blob cr cfg (ivs c) st) \<le> 16384 \<and> t < now + sm_ttlMs cfg
        \<longrightarrow> mem_live (sm_memory s') t (storage_key c) = Some (seal_blob cr cfg (ivs c) st))"
proof -
  have s': "s' = snd (flush_list cr cfg now ivs call (js_keys (debounceTimers s)) s)"
    using assms(2) by (simp add: flushAll_def)
  have none: "js_get (debounceTimers s') k = None" for k
    by (simp add: s' flush_list_timers fold_delete_get map_of_eq_None_iff)
  have "js_keys (debounceTimers s') = []"
    using none [of "fst (hd (debounceTimers s'))"] by (cases "debounceTimers s'") auto
  moreover have "distinct (js_keys (debounceTimers s))" using managed_timers [OF assms(1)] by simp
  moreover have "c \<in> set (js_keys (debounceTimers s))" if "pending s c = Some p" for c p
    using that by (auto simp: pending_def map_of_eq_None_iff split: if_splits)
  ultimately show ?thesis
    unfolding s' using flush_list_saves [OF _ _ _ _ _ managed_wf [OF assms(1)]] by auto
qed

section \<open>Witnesses\<close>

text \<open>A cipher whose tag is the key, a base64 that escapes the dot and a parser for two states.\<close>

definition other_session :: json where
  "other_session = JObj [(''clientId'', JStr ''c1''), (''protocolVersion'', JNum ''3'')]"

definition demo_session :: json where
  "demo_session = JObj [(''clientId'', JStr ''c1''), (''protocolVersion'', JNum ''2'')]"

definition toy_escape :: "char \<Rightarrow> string" where
  "toy_escape c = (if c = CHR ''.'' then ''ad'' else if c = CHR ''a'' then ''aa'' else [c])"

fun toy_unescape :: "string \<Rightarrow> string" where
  "toy_unescape (c # d # s) =
     (if c = CHR ''a'' then (if d = CHR ''d'' then CHR ''.'' else d) # toy_unescape s
      else c # toy_unescape (d # s))"
| "toy_unescape s = s"

definition toy_tag :: "aes_key \<Rightarrow> bytes" where
  "toy_tag k = take 16 (k @ replicate 16 CHR ''t'')"

definition toy_crypto :: crypto where
  "toy_crypto = \<lparr>
     encrypt = (\<lambda>k iv p. (p, toy_tag k)),
     decrypt = (\<lambda>k iv ct tag. if tag = toy_tag k then Some ct else None),
     deflateSync = (\<lambda>p. CHR ''z'' # p),
     inflateSync = (\<lambda>b. case b of [] \<Rightarrow> None | _ # p \<Rightarrow> Some p),
     toBase64 = (\<lambda>b. concat (map toy_escape b)),
     fromBase64 = toy_unescape,
     hkdfSync = (\<lambda>b. b),
     json_parse = (\<lambda>s. if s = stringify demo_session then Some demo_session
                         else if s = stringify other_session then Some other_session else None)\<rparr>"

lemma toy_unescape_cons: "c \<noteq> CHR ''a'' \<Longrightarrow> toy_unescape (c # s) = c # toy_unescape s"
  by (cases s) simp_all

lemma toy_ok: "crypto_ok toy_crypto"
proof -
  have "toy_unescape (concat (map toy_escape b)) = b" for b
    by (induction b) (auto simp: toy_escape_def toy_unescape_cons)
  moreover have "CHR ''.'' \<notin> set (concat (map toy_escape b))" for b
    by (auto simp: toy_escape_def)
  moreover have "length (toy_tag k) = 16" for k by (simp add: toy_tag_def)
  ultimately show ?thesis by (simp add: crypto_ok_def toy_crypto_def)
qed

definition toy_key :: "char \<Rightarrow> aes_key" where
  "toy_key c = replicate 32 c"

definition sess_cfg :: sm_config where
  "sess_cfg = \<lparr>sm_keys = [(''v1'', toy_key CHR ''k'')], sm_keyId = ''v1'', sm_ttlMs = 1000, sm_debounceMs = 500\<rparr>"

text \<open>The configuration after a rotation to a second key.\<close>

definition rotated_cfg :: sm_config where
  "rotated_cfg = \<lparr>sm_keys = [(''v2'', toy_key CHR ''m''), (''v1'', toy_key CHR ''k'')], sm_keyId = ''v2'',
     sm_ttlMs = 1000, sm_debounceMs = 500\<rparr>"

lemma sess_construct:
  "sm_construct toy_crypto (KsObject [(''v1'', KvBuffer (toy_key CHR ''k''))]) (Some 1000) ''v1'' (Some 500) = Inr (sess_cfg, sm_init)"
  by (simp add: sm_construct_def parseKeyMap_def parse_entries_def deriveKey_def toy_crypto_def toy_key_def sess_cfg_def)

lemma sess_managed: "managed toy_crypto sess_cfg sm_init"
  using managedI [OF sess_construct, of "[]"] by simp

definition demo_iv :: bytes where
  "demo_iv = replicate 12 CHR ''i''"

definition demo_blob :: string where
  "demo_blob = seal_blob toy_crypto sess_cfg demo_iv demo_session"

definition demo_saved :: sm where
  "demo_saved = snd (save toy_crypto sess_cfg 0 demo_iv ''c1'' demo_session sm_init)"

lemma demo_save: "save toy_crypto sess_cfg 0 demo_iv ''c1'' demo_session sm_init = (Inr demo_blob, demo_saved)"
proof -
  have "length demo_blob \<le> 16384" by code_simp
  then show ?thesis by (simp add: save_def demo_saved_def demo_blob_def Let_def is_object_def demo_session_def)
qed

lemma demo_opens: "open_blob toy_crypto sess_cfg demo_blob = Some demo_session"
  by code_simp

lemma demo_client: "get_prop demo_session ''clientId'' = Some (JStr ''c1'')"
  by code_simp

lemma demo_parse: "json_parse toy_crypto (stringify demo_session) = Some demo_session"
  by (simp add: toy_crypto_def)

theorem session_resumes_witness:
  "fst (load toy_crypto rotated_cfg 999 demo_blob True
     (fold (sm_apply toy_crypto sess_cfg)
       [DoSave 5 demo_iv ''c2'' other_session, DoSweep 900, DoTimer 950 ''session:c1'', DoDelete ''c2''] demo_saved))
   = Some demo_session"
  using session_resumes [OF toy_ok _ demo_parse demo_client sess_managed demo_save,
      of rotated_cfg "[DoSave 5 demo_iv ''c2'' other_session, DoSweep 900, DoTimer 950 ''session:c1'', DoDelete ''c2'']" 999]
  by (simp add: demo_iv_def rotated_cfg_def sess_cfg_def)

theorem session_revoked_witness:
  "fst (load toy_crypto sess_cfg 10 demo_blob True (snd (delete_session ''c1'' demo_saved))) = None"
  using session_revoked [of toy_crypto sess_cfg demo_saved sess_cfg demo_blob demo_session "''c1''"
      "snd (delete_session ''c1'' demo_saved)" 0 demo_iv other_session demo_blob 10 "[]" True]
    managed_run [OF sess_managed, of "[DoSave 0 demo_iv ''c1'' demo_session]"] demo_opens
    state_client_eq [OF demo_client]
  by (simp add: demo_saved_def)

definition revived_blob :: string where
  "revived_blob = seal_blob toy_crypto sess_cfg demo_iv other_session"

lemma other_save:
  "save toy_crypto sess_cfg 20 demo_iv ''c1'' other_session (snd (delete_session ''c1'' demo_saved)) =
     (Inr revived_blob, snd (save toy_crypto sess_cfg 20 demo_iv ''c1'' other_session (snd (delete_session ''c1'' demo_saved))))"
proof -
  have "length revived_blob \<le> 16384" by code_simp
  then show ?thesis by (simp add: save_def revived_blob_def Let_def is_object_def other_session_def)
qed

theorem deleted_blob_revived_witness:
  "fst (load toy_crypto sess_cfg 30 demo_blob True
     (snd (save toy_crypto sess_cfg 20 demo_iv ''c1'' other_session (snd (delete_session ''c1'' demo_saved))))) = Some demo_session"
  using deleted_blob_revived [OF toy_ok _ demo_parse demo_client sess_managed demo_save other_save, of 30 True]
  by (simp add: demo_iv_def sess_cfg_def)

theorem load_outcomes_witness:
  "sm_counters (snd (load toy_crypto sess_cfg 0 ''v1.a.b.c'' True sm_init)) = bump_decrypt_failed (sm_counters sm_init)"
proof -
  have "open_blob toy_crypto sess_cfg ''v1.a.b.c'' = None" by code_simp
  moreover from this have "fst (load toy_crypto sess_cfg 0 ''v1.a.b.c'' True sm_init) = None" by (simp add: load_def)
  ultimately show ?thesis
    using load_outcomes [OF sess_managed prod.collapse [symmetric], of 0 "''v1.a.b.c''" True] by simp
qed

definition debounced_demo :: sm where
  "debounced_demo = fold (sm_apply toy_crypto sess_cfg) [DoDebounce 7 ''c2'' (Some (Fixed other_session)) None]
     (snd (debouncedSave sess_cfg 5 ''c1'' (Some (Fixed demo_session)) (Some 100) sm_init))"

theorem debounce_last_wins_witness:
  "js_get (debounceTimers debounced_demo) ''c1'' = Some 105
    \<and> flush toy_crypto sess_cfg 50 demo_iv (\<lambda>_. None) ''c1'' debounced_demo
      = runSave toy_crypto sess_cfg 50 demo_iv (\<lambda>_. None) ''c1'' (Fixed demo_session) (snd (cancelDebounce ''c1'' debounced_demo))"
  using debounce_last_wins [OF _ _ debounced_demo_def, of 50 demo_iv "\<lambda>_. None"] by simp

theorem flush_all_saves_everything_witness:
  "js_keys (debounceTimers (snd (flushAll toy_crypto sess_cfg 50 (\<lambda>_. demo_iv) (\<lambda>_. None) debounced_demo))) = []"
  using flush_all_saves_everything [OF _ prod.collapse [symmetric], of toy_crypto sess_cfg debounced_demo 50 "\<lambda>_. demo_iv" "\<lambda>_. None"]
    managed_run [OF sess_managed, of "[DoDebounce 5 ''c1'' (Some (Fixed demo_session)) (Some 100), DoDebounce 7 ''c2'' (Some (Fixed other_session)) None]"]
  by (simp add: debounced_demo_def)

end
