(* ===== verification/MemoryStorage.thy ===== *)
theory MemoryStorage
  imports Complex_Main Json
begin

text \<open>
  \<open>src/storage/memory.js\<close>: the in-memory storage adapter with its tiers. Raw events are grouped into
  one-minute rows, these into hours and these into days; a query groups raw events on the fly.

  \<^item> Coordinates are exact reals, timestamps integer milliseconds. A date that does not parse, and
    values of a wrong type, are not modelled; the validator rejects them before they are stored.
  \<^item> The clock of an operation is one argument \<open>now\<close>; the ids of new rows are arguments.
  \<^item> The fields of an aggregate row that are always \<open>null\<close> are left out.
\<close>

section \<open>Numbers and dates\<close>

definition sum_of :: "real list \<Rightarrow> real" where
  "sum_of xs = foldl (+) 0 xs"

definition average :: "real list \<Rightarrow> real" where
  "average xs = sum_of xs / real (length xs)"

definition max_of :: "real list \<Rightarrow> real" where
  "max_of xs = fold max (tl xs) (hd xs)"

definition median :: "real list \<Rightarrow> real" where
  "median arr =
     (if arr = [] then 0
      else let sorted = sort arr; mid = length sorted div 2
           in if length sorted mod 2 \<noteq> 0 then sorted ! mid else (sorted ! (mid - 1) + sorted ! mid) / 2)"

definition haversine :: "real \<Rightarrow> real \<Rightarrow> real \<Rightarrow> real \<Rightarrow> real" where
  "haversine lat1 lon1 lat2 lon2 =
     (let R = 6371000; toRad = (\<lambda>d. d * pi / 180);
          dLat = toRad (lat2 - lat1); dLon = toRad (lon2 - lon1);
          a = sin (dLat / 2) ^ 2 + cos (toRad lat1) * cos (toRad lat2) * sin (dLon / 2) ^ 2
      in R * 2 * arcsin (sqrt a))"

definition bucket_of :: "int \<Rightarrow> time \<Rightarrow> time" where
  "bucket_of width t = t div width * width"

definition truncateToMinute :: "time \<Rightarrow> time" where
  "truncateToMinute t = bucket_of 60000 t"

definition truncateToHour :: "time \<Rightarrow> time" where
  "truncateToHour t = bucket_of 3600000 t"

definition truncateToDay :: "time \<Rightarrow> time" where
  "truncateToDay t = bucket_of 86400000 t"

section \<open>State\<close>

record loc_event =
  le_clientId :: string
  le_roomId :: string
  le_latitude :: "real option"
  le_longitude :: "real option"
  le_lat :: "real option"
  le_lon :: "real option"
  le_altitude :: "real option"
  le_accuracy :: "real option"
  le_speed :: "real option"
  le_timestamp :: time
  le_point_count :: "int option"
  le_pointCount :: "int option"
  le_id :: string
  le_createdAt :: time

record minute_row =
  mi_roomId :: string
  mi_start :: time
  mi_end :: time
  mi_latitude :: real
  mi_longitude :: real
  mi_altitude :: "real option"
  mi_maxSpeed :: "real option"
  mi_pointCount :: int

record rollup_row =
  ro_roomId :: string
  ro_start :: time
  ro_end :: time
  ro_latitude :: real
  ro_longitude :: real
  ro_totalDistance :: real
  ro_pointCount :: int

record retention =
  rawRetentionDays :: int
  downsample1mRetentionDays :: int
  downsample1hRetentionDays :: int
  aggregate1dRetentionDays :: int

definition default_retention :: retention where
  "default_retention = \<lparr>rawRetentionDays = 7, downsample1mRetentionDays = 90,
     downsample1hRetentionDays = 365, aggregate1dRetentionDays = 2555\<rparr>"

record adapter =
  ad_events :: "loc_event list"
  downsample1m :: "minute_row list"
  aggregate1h :: "rollup_row list"
  aggregate1d :: "rollup_row list"
  ad_closed :: bool
  ad_retention :: retention
  lastCompactionRun :: "time option"
  nextCompactionRun :: "time option"

definition adapter_init :: adapter where
  "adapter_init = \<lparr>ad_events = [], downsample1m = [], aggregate1h = [], aggregate1d = [], ad_closed = False,
     ad_retention = default_retention, lastCompactionRun = None, nextCompactionRun = None\<rparr>"

datatype storage_error = AdapterClosed

definition set_events :: "loc_event list \<Rightarrow> adapter \<Rightarrow> adapter" where
  "set_events es a = a\<lparr>ad_events := es\<rparr>"

definition writeBatch :: "time \<Rightarrow> (nat \<Rightarrow> string) \<Rightarrow> loc_event list \<Rightarrow> adapter \<Rightarrow> (storage_error + unit) \<times> adapter" where
  "writeBatch now new_id es a =
     (if ad_closed a then (Inl AdapterClosed, a)
      else if es = [] then (Inr (), a)
      else (Inr (), a\<lparr>ad_events := ad_events a @
              map (\<lambda>(e, i). e\<lparr>le_id := i, le_createdAt := now\<rparr>) (zip es (map new_id [0..<length es]))\<rparr>))"

definition close_adapter :: "adapter \<Rightarrow> adapter" where
  "close_adapter a = a\<lparr>ad_closed := True, ad_events := [], downsample1m := [], aggregate1h := [], aggregate1d := []\<rparr>"

definition clear_adapter :: "adapter \<Rightarrow> adapter" where
  "clear_adapter a = a\<lparr>ad_events := [], downsample1m := [], aggregate1h := [], aggregate1d := []\<rparr>"

section \<open>Grouping\<close>

text \<open>
  The loop all tiers share: a new bucket for the first element of a key, and every element is
  added to the bucket of its key.
\<close>

definition group_by :: "('e \<Rightarrow> 'k) \<Rightarrow> ('e \<Rightarrow> 'b) \<Rightarrow> ('e \<Rightarrow> 'b \<Rightarrow> 'b) \<Rightarrow> 'e list \<Rightarrow> ('k, 'b) jsmap" where
  "group_by key new add es =
     fold (\<lambda>e m. js_set (key e) (add e (case js_get m (key e) of Some b \<Rightarrow> b | None \<Rightarrow> new e)) m) es []"

record samples =
  sa_roomId :: string
  sa_start :: time
  sa_lats :: "real list"
  sa_lons :: "real list"
  sa_alts :: "real list"
  sa_speeds :: "real list"
  sa_count :: int

definition new_samples :: "(time \<Rightarrow> time) \<Rightarrow> loc_event \<Rightarrow> samples" where
  "new_samples trunc e = \<lparr>sa_roomId = le_roomId e, sa_start = trunc (le_timestamp e),
     sa_lats = [], sa_lons = [], sa_alts = [], sa_speeds = [], sa_count = 0\<rparr>"

definition or_else :: "'a option \<Rightarrow> 'a option \<Rightarrow> 'a option" where
  "or_else x y = (case x of Some v \<Rightarrow> Some v | None \<Rightarrow> y)"

definition event_lat :: "loc_event \<Rightarrow> real option" where
  "event_lat e = or_else (le_latitude e) (le_lat e)"

definition event_lon :: "loc_event \<Rightarrow> real option" where
  "event_lon e = or_else (le_longitude e) (le_lon e)"

definition push_opt :: "'a option \<Rightarrow> 'a list \<Rightarrow> 'a list" where
  "push_opt x xs = (case x of Some v \<Rightarrow> xs @ [v] | None \<Rightarrow> xs)"

definition add_samples :: "loc_event \<Rightarrow> samples \<Rightarrow> samples" where
  "add_samples e b = b\<lparr>sa_lats := push_opt (event_lat e) (sa_lats b), sa_lons := push_opt (event_lon e) (sa_lons b),
     sa_alts := push_opt (le_altitude e) (sa_alts b), sa_speeds := push_opt (le_speed e) (sa_speeds b)\<rparr>"

text \<open>\<open>event.point_count || event.pointCount || 1\<close>\<close>

definition weight_of :: "loc_event \<Rightarrow> int" where
  "weight_of e =
     (case le_point_count e of
        Some n \<Rightarrow> if n \<noteq> 0 then n else (case le_pointCount e of Some k \<Rightarrow> if k \<noteq> 0 then k else 1 | None \<Rightarrow> 1)
      | None \<Rightarrow> (case le_pointCount e of Some k \<Rightarrow> if k \<noteq> 0 then k else 1 | None \<Rightarrow> 1))"

definition add_weighted :: "loc_event \<Rightarrow> samples \<Rightarrow> samples" where
  "add_weighted e b = (add_samples e b)\<lparr>sa_count := sa_count b + weight_of e\<rparr>"

section \<open>Tiers\<close>

definition tier_key :: "string \<Rightarrow> time \<Rightarrow> string" where
  "tier_key r t = r @ CHR ''|'' # int_str t"

definition minute_key :: "loc_event \<Rightarrow> string" where
  "minute_key e = tier_key (le_roomId e) (truncateToMinute (le_timestamp e))"

definition minute_summary :: "samples \<Rightarrow> minute_row" where
  "minute_summary b = \<lparr>mi_roomId = sa_roomId b, mi_start = sa_start b, mi_end = sa_start b + 59999,
     mi_latitude = median (sa_lats b), mi_longitude = median (sa_lons b),
     mi_altitude = (if sa_alts b \<noteq> [] then Some (median (sa_alts b)) else None),
     mi_maxSpeed = (if sa_speeds b \<noteq> [] then Some (max_of (sa_speeds b)) else None),
     mi_pointCount = int (length (sa_lats b))\<rparr>"

definition computeDownsample1m :: "loc_event list \<Rightarrow> minute_row list" where
  "computeDownsample1m es =
     map (minute_summary \<circ> snd) (group_by minute_key (new_samples truncateToMinute) add_samples es)"

record points =
  po_roomId :: string
  po_start :: time
  po_points :: "(real \<times> real) list"
  po_count :: int
  po_distance :: real

fun path_length :: "(real \<times> real) list \<Rightarrow> real" where
  "path_length ((a, b) # (c, d) # ps) = haversine a b c d + path_length ((c, d) # ps)"
| "path_length _ = 0"

definition hour_key :: "minute_row \<Rightarrow> string" where
  "hour_key r = tier_key (mi_roomId r) (truncateToHour (mi_start r))"

definition new_hour :: "minute_row \<Rightarrow> points" where
  "new_hour r = \<lparr>po_roomId = mi_roomId r, po_start = truncateToHour (mi_start r), po_points = [],
     po_count = 0, po_distance = 0\<rparr>"

definition add_minute :: "minute_row \<Rightarrow> points \<Rightarrow> points" where
  "add_minute r b = b\<lparr>po_points := po_points b @ [(mi_latitude r, mi_longitude r)],
     po_count := po_count b + mi_pointCount r\<rparr>"

definition hour_summary :: "points \<Rightarrow> rollup_row" where
  "hour_summary b = \<lparr>ro_roomId = po_roomId b, ro_start = po_start b, ro_end = po_start b + 3599999,
     ro_latitude = average (map fst (po_points b)), ro_longitude = average (map snd (po_points b)),
     ro_totalDistance = path_length (po_points b), ro_pointCount = po_count b\<rparr>"

definition computeAggregate1h :: "minute_row list \<Rightarrow> rollup_row list" where
  "computeAggregate1h rows =
     (if rows = [] then [] else map (hour_summary \<circ> snd) (group_by hour_key new_hour add_minute rows))"

definition day_key :: "rollup_row \<Rightarrow> string" where
  "day_key r = tier_key (ro_roomId r) (truncateToDay (ro_start r))"

definition new_day :: "rollup_row \<Rightarrow> points" where
  "new_day r = \<lparr>po_roomId = ro_roomId r, po_start = truncateToDay (ro_start r), po_points = [],
     po_count = 0, po_distance = 0\<rparr>"

definition add_hour :: "rollup_row \<Rightarrow> points \<Rightarrow> points" where
  "add_hour r b = b\<lparr>po_points := po_points b @ [(ro_latitude r, ro_longitude r)],
     po_count := po_count b + ro_pointCount r, po_distance := po_distance b + ro_totalDistance r\<rparr>"

definition day_summary :: "points \<Rightarrow> rollup_row" where
  "day_summary b = \<lparr>ro_roomId = po_roomId b, ro_start = po_start b, ro_end = po_start b + 86399999,
     ro_latitude = average (map fst (po_points b)), ro_longitude = average (map snd (po_points b)),
     ro_totalDistance = po_distance b, ro_pointCount = po_count b\<rparr>"

definition computeAggregate1d :: "rollup_row list \<Rightarrow> rollup_row list" where
  "computeAggregate1d rows =
     (if rows = [] then [] else map (day_summary \<circ> snd) (group_by day_key new_day add_hour rows))"

section \<open>Compaction\<close>

text \<open>The first argument of \<open>compact\<close>: an object, a number with the other three, or anything else.\<close>

datatype compact_args =
    RetentionObject "int option" "int option" "int option" "int option"
  | RetentionDays int "int option" "int option" "int option"
  | RetentionOther

definition option_or :: "int option \<Rightarrow> int \<Rightarrow> int" where
  "option_or x d = (case x of Some v \<Rightarrow> v | None \<Rightarrow> d)"

definition retention_of :: "retention \<Rightarrow> compact_args \<Rightarrow> retention" where
  "retention_of own args =
     (case args of
        RetentionObject r m h d \<Rightarrow>
          \<lparr>rawRetentionDays = option_or r (rawRetentionDays own),
           downsample1mRetentionDays = option_or m (downsample1mRetentionDays own),
           downsample1hRetentionDays = option_or h (downsample1hRetentionDays own),
           aggregate1dRetentionDays = option_or d (aggregate1dRetentionDays own)\<rparr>
      | RetentionDays r m h d \<Rightarrow>
          \<lparr>rawRetentionDays = r, downsample1mRetentionDays = option_or m 90,
           downsample1hRetentionDays = option_or h 365, aggregate1dRetentionDays = option_or d 2555\<rparr>
      | RetentionOther \<Rightarrow> default_retention)"

definition cutoff :: "time \<Rightarrow> int \<Rightarrow> time" where
  "cutoff now days = now - days * 86400000"

record compaction_result =
  cr_rawDeleted :: int
  cr_downsample1m :: int
  cr_aggregate1h :: int
  cr_aggregate1d :: int

definition compact ::
    "time \<Rightarrow> compact_args \<Rightarrow> adapter \<Rightarrow> (storage_error + compaction_result) \<times> adapter" where
  "compact now args a =
     (if ad_closed a then (Inl AdapterClosed, a)
      else let ret = retention_of (ad_retention a) args;
               kept = filter (\<lambda>e. le_timestamp e \<ge> cutoff now (rawRetentionDays ret)) (ad_events a);
               m1 = computeDownsample1m kept;
               h1 = computeAggregate1h m1;
               d1 = computeAggregate1d h1;
               m1' = filter (\<lambda>r. mi_start r \<ge> cutoff now (downsample1mRetentionDays ret)) m1;
               h1' = filter (\<lambda>r. ro_start r \<ge> cutoff now (downsample1hRetentionDays ret)) h1;
               d1' = filter (\<lambda>r. ro_start r \<ge> cutoff now (aggregate1dRetentionDays ret)) d1
           in (Inr \<lparr>cr_rawDeleted = int (length (ad_events a)) - int (length kept),
                    cr_downsample1m = int (length m1'), cr_aggregate1h = int (length h1'),
                    cr_aggregate1d = int (length d1')\<rparr>,
               a\<lparr>ad_events := kept, downsample1m := m1', aggregate1h := h1', aggregate1d := d1',
                 lastCompactionRun := Some now, nextCompactionRun := Some (now + 300000)\<rparr>))"

record tier_status =
  ts_name :: string
  ts_rows :: int
  ts_sizeBytes :: int
  ts_oldest :: "time option"
  ts_newest :: "time option"

definition tier_of :: "string \<Rightarrow> time list \<Rightarrow> tier_status" where
  "tier_of name starts = \<lparr>ts_name = name, ts_rows = int (length starts), ts_sizeBytes = int (length starts) * 200,
     ts_oldest = (case starts of [] \<Rightarrow> None | t # ts \<Rightarrow> Some (fold min ts t)),
     ts_newest = (case starts of [] \<Rightarrow> None | t # ts \<Rightarrow> Some (fold max ts t))\<rparr>"

definition getCompactionStatus ::
    "time \<Rightarrow> adapter \<Rightarrow> storage_error + (time option \<times> time \<times> tier_status list)" where
  "getCompactionStatus now a =
     (if ad_closed a then Inl AdapterClosed
      else Inr (lastCompactionRun a,
                (case nextCompactionRun a of Some t \<Rightarrow> t | None \<Rightarrow> now + 300000),
                [tier_of ''raw'' (map le_timestamp (ad_events a)), tier_of ''1m'' (map mi_start (downsample1m a)),
                 tier_of ''1h'' (map ro_start (aggregate1h a)), tier_of ''1d'' (map ro_start (aggregate1d a))]))"

section \<open>Queries\<close>

record query =
  qy_from :: "time option"
  qy_to :: "time option"
  qy_limit :: "int option"
  qy_resolution :: "string option"

record point =
  pt_id :: string
  pt_clientId :: string
  pt_roomId :: string
  pt_latitude :: real
  pt_longitude :: real
  pt_altitude :: "real option"
  pt_speed :: "real option"
  pt_maxSpeed :: "real option"
  pt_avgSpeed :: "real option"
  pt_pointCount :: int
  pt_timestamp :: time
  pt_createdAt :: time

datatype query_result = RawEvents "loc_event list" | Points "point list"

definition resolve :: "time \<Rightarrow> query \<Rightarrow> string" where
  "resolve now q =
     (let resolution = (case qy_resolution q of Some r \<Rightarrow> r | None \<Rightarrow> ''auto'') in
      if resolution \<noteq> ''auto'' then resolution
      else if qy_from q = None \<and> qy_to q = None then ''raw''
      else let rangeMs = option_or (qy_to q) now - option_or (qy_from q) (now - 86400000) in
        if rangeMs < 3600000 then ''raw''
        else if rangeMs < 86400000 then ''1m''
        else if rangeMs < 604800000 then ''1h''
        else ''1d'')"

definition in_range :: "string \<Rightarrow> query \<Rightarrow> loc_event \<Rightarrow> bool" where
  "in_range roomId q e \<longleftrightarrow> le_roomId e = roomId
     \<and> (case qy_from q of Some f \<Rightarrow> \<not> le_timestamp e < f | None \<Rightarrow> True)
     \<and> (case qy_to q of Some t \<Rightarrow> \<not> le_timestamp e > t | None \<Rightarrow> True)"

definition bucket_size :: "string \<Rightarrow> int option" where
  "bucket_size r =
     (if r = ''1m'' then Some 60000 else if r = ''1h'' then Some 3600000
      else if r = ''1d'' then Some 86400000 else None)"

definition take_limit :: "int option \<Rightarrow> 'a list \<Rightarrow> 'a list" where
  "take_limit limit xs = (let l = option_or limit 1000 in if l > 0 then take (nat l) xs else xs)"

definition opt_avg :: "real list \<Rightarrow> real option" where
  "opt_avg xs = (if xs \<noteq> [] then Some (average xs) else None)"

definition point_of :: "time \<Rightarrow> string \<Rightarrow> string \<Rightarrow> samples \<times> string \<Rightarrow> point" where
  "point_of now resolved roomId = (\<lambda>(b, i).
     let avgSpeed = opt_avg (sa_speeds b);
         maxSpeed = (if sa_speeds b \<noteq> [] then Some (max_of (sa_speeds b)) else None);
         avgLat = (if sa_lats b \<noteq> [] then average (sa_lats b) else 0);
         avgLon = (if sa_lons b \<noteq> [] then average (sa_lons b) else 0)
     in \<lparr>pt_id = i, pt_clientId = (if resolved = ''1m'' then ''downsample'' else ''aggregate-'' @ resolved),
         pt_roomId = roomId, pt_latitude = avgLat, pt_longitude = avgLon, pt_altitude = opt_avg (sa_alts b),
         pt_speed = or_else avgSpeed maxSpeed, pt_maxSpeed = maxSpeed, pt_avgSpeed = avgSpeed,
         pt_pointCount = sa_count b, pt_timestamp = sa_start b, pt_createdAt = now\<rparr>)"

definition query_buckets :: "int \<Rightarrow> loc_event list \<Rightarrow> (time, samples) jsmap" where
  "query_buckets width es =
     group_by (\<lambda>e. bucket_of width (le_timestamp e)) (new_samples (bucket_of width)) add_weighted es"

text \<open>\<open>new_id\<close> numbers the ids of the synthetic rows.\<close>

definition queryRoom ::
    "time \<Rightarrow> (nat \<Rightarrow> string) \<Rightarrow> string \<Rightarrow> query \<Rightarrow> adapter \<Rightarrow> storage_error + query_result" where
  "queryRoom now new_id roomId q a =
     (if ad_closed a then Inl AdapterClosed
      else let resolved = resolve now q;
               filtered = filter (in_range roomId q) (ad_events a);
               raw = RawEvents (take_limit (qy_limit q) (sort_key le_timestamp filtered))
           in if resolved = ''raw'' then Inr raw
              else (case bucket_size resolved of
                      None \<Rightarrow> Inr raw
                    | Some width \<Rightarrow>
                        let bs = map snd (query_buckets width filtered);
                            points = map (point_of now resolved roomId) (zip bs (map new_id [0..<length bs]))
                        in Inr (Points (take_limit (qy_limit q) (sort_key pt_timestamp points)))))"

record bounds =
  minLat :: real
  maxLat :: real
  minLon :: real
  maxLon :: real

definition in_bounds :: "bounds \<Rightarrow> loc_event \<Rightarrow> bool" where
  "in_bounds b e \<longleftrightarrow>
     (case (le_latitude e, le_longitude e) of
        (Some lat, Some lon) \<Rightarrow> lat \<ge> minLat b \<and> lat \<le> maxLat b \<and> lon \<ge> minLon b \<and> lon \<le> maxLon b
      | _ \<Rightarrow> False)"

definition querySpatial :: "bounds \<Rightarrow> int option \<Rightarrow> adapter \<Rightarrow> storage_error + loc_event list" where
  "querySpatial b limit a =
     (if ad_closed a then Inl AdapterClosed
      else let results = filter (in_bounds b) (ad_events a)
           in Inr (case limit of
                     Some l \<Rightarrow> if l > 0 then take (nat l) results else results
                   | None \<Rightarrow> results))"

definition later :: "loc_event \<Rightarrow> loc_event \<Rightarrow> loc_event" where
  "later e latest = (if le_timestamp e > le_timestamp latest then e else latest)"

definition getLatest :: "string \<Rightarrow> adapter \<Rightarrow> storage_error + loc_event option" where
  "getLatest roomId a =
     (if ad_closed a then Inl AdapterClosed
      else Inr (case filter (\<lambda>e. le_roomId e = roomId) (ad_events a) of
                  [] \<Rightarrow> None
                | e # es \<Rightarrow> Some (fold later es e)))"

end
