(* ===== verification/MemoryStorageProperties.thy ===== *)
theory MemoryStorageProperties
  imports MemoryStorage
begin

text \<open>
  Correctness of the in-memory storage: grouping keeps every point exactly once, summaries stay
  within the extent of their points, compaction and queries are exact.
\<close>

declare map_of_eq_Some_iff [simp del] Some_eq_map_of_iff [simp del]

section \<open>Grouping\<close>

lemma group_by_snoc:
  "group_by key new add (es @ [e]) =
     (let m = group_by key new add es
      in js_set (key e) (add e (case js_get m (key e) of Some b \<Rightarrow> b | None \<Rightarrow> new e)) m)"
  by (simp add: group_by_def Let_def)

lemma group_by_Nil [simp]: "group_by key new add [] = []"
  by (simp add: group_by_def)

lemma wf_group_by [simp]: "wf_map (group_by key new add es)"
  by (induction es rule: rev_induct) (simp_all add: group_by_snoc Let_def)

lemma group_by_keys: "set (js_keys (group_by key new add es)) = key ` set es"
  by (induction es rule: rev_induct) (simp_all add: group_by_snoc Let_def AList.dom_update del: set_map)

lemma group_by_all:
  assumes "\<And>e. e \<in> set es \<Longrightarrow> P (add e (new e))" "\<And>e b. e \<in> set es \<Longrightarrow> P b \<Longrightarrow> P (add e b)"
    "(k, b) \<in> set (group_by key new add es)"
  shows "P b"
proof -
  have "\<forall>k b. js_get (group_by key new add es) k = Some b \<longrightarrow> P b"
    using assms(1,2) by (induction es rule: rev_induct) (auto simp: group_by_snoc Let_def split: option.split)
  then show ?thesis using assms(3) js_get_SomeI [OF wf_group_by] by metis
qed

lemma sum_js_set:
  fixes f :: "'b \<Rightarrow> 'c::ab_group_add"
  assumes "wf_map m"
  shows "sum_list (map (f \<circ> snd) (js_set k v m)) =
     sum_list (map (f \<circ> snd) m) - (case js_get m k of Some b \<Rightarrow> f b | None \<Rightarrow> 0) + f v"
  using assms
proof (induction m)
  case (Cons p m)
  obtain a b where p: "p = (a, b)" by fastforce
  show ?case
  proof (cases "a = k")
    case True
    with Cons.prems p have "js_get m k = None" by (simp add: map_of_eq_None_iff)
    with True p show ?thesis by simp
  qed (use Cons p in \<open>simp add: algebra_simps\<close>)
qed simp

text \<open>A bucket knows its key, and accumulates an amount from the weights of its elements.\<close>

locale grouping =
  fixes key :: "'e \<Rightarrow> 'k" and new :: "'e \<Rightarrow> 'b" and add :: "'e \<Rightarrow> 'b \<Rightarrow> 'b"
    and label :: "'b \<Rightarrow> 'k" and amount :: "'b \<Rightarrow> 'c::ab_group_add" and weight :: "'e \<Rightarrow> 'c"
  assumes label_new: "label (new e) = key e"
    and label_add: "label (add e b) = label b"
    and amount_new: "amount (new e) = 0"
    and amount_add: "amount (add e b) = amount b + weight e"
begin

lemma label_group: "js_get (group_by key new add es) k = Some b \<Longrightarrow> label b = k"
proof (induction es arbitrary: k b rule: rev_induct)
  case (snoc e es)
  then show ?case
    by (auto simp: group_by_snoc Let_def label_new label_add split: if_splits option.splits)
qed simp

lemma labels_keys: "map (label \<circ> snd) (group_by key new add es) = js_keys (group_by key new add es)"
proof (rule map_cong [OF refl])
  fix p assume "p \<in> set (group_by key new add es)"
  then have "js_get (group_by key new add es) (fst p) = Some (snd p)" by (intro js_get_SomeI [OF wf_group_by]) simp
  then show "(label \<circ> snd) p = fst p" using label_group by simp
qed

lemma distinct_labels: "distinct (map (label \<circ> snd) (group_by key new add es))"
  by (simp add: labels_keys)

lemma set_labels: "label ` snd ` set (group_by key new add es) = key ` set es"
proof -
  have "label ` snd ` set (group_by key new add es) = set (map (label \<circ> snd) (group_by key new add es))"
    by (simp add: image_comp)
  then show ?thesis unfolding labels_keys group_by_keys .
qed

lemma amount_group: "sum_list (map (amount \<circ> snd) (group_by key new add es)) = sum_list (map weight es)"
proof (induction es rule: rev_induct)
  case (snoc e es)
  then show ?case
    by (simp add: group_by_snoc Let_def sum_js_set [OF wf_group_by] amount_add amount_new del: o_apply map_map split: option.split)
qed simp

end

definition located :: "loc_event \<Rightarrow> bool" where
  "located e \<longleftrightarrow> event_lat e \<noteq> None"

definition samples_key :: "samples \<Rightarrow> string" where
  "samples_key b = tier_key (sa_roomId b) (sa_start b)"

definition points_key :: "points \<Rightarrow> string" where
  "points_key b = tier_key (po_roomId b) (po_start b)"

interpretation minutes: grouping minute_key "new_samples truncateToMinute" add_samples samples_key
    "\<lambda>b. int (length (sa_lats b))" "\<lambda>e. if located e then 1 else 0"
  by unfold_locales
     (auto simp: samples_key_def new_samples_def minute_key_def add_samples_def located_def push_opt_def split: option.split)

interpretation hours: grouping hour_key new_hour add_minute points_key po_count mi_pointCount
  by unfold_locales (simp_all add: points_key_def new_hour_def hour_key_def add_minute_def)

interpretation days: grouping day_key new_day add_hour points_key po_count ro_pointCount
  by unfold_locales (simp_all add: points_key_def new_day_def day_key_def add_hour_def)

interpretation day_distances: grouping day_key new_day add_hour points_key po_distance ro_totalDistance
  by unfold_locales (simp_all add: points_key_def new_day_def day_key_def add_hour_def)

interpretation queries: grouping "\<lambda>e. bucket_of width (le_timestamp e)" "new_samples (bucket_of width)" add_weighted sa_start
    sa_count weight_of for width
  by unfold_locales (simp_all add: new_samples_def add_weighted_def add_samples_def)

lemma sum_indicator: "sum_list (map (\<lambda>e. if P e then 1 else 0) es) = int (length (filter P es))"
  by (induction es) simp_all

section \<open>Conservation of points\<close>

lemma minute_counts:
  "sum_list (map mi_pointCount (computeDownsample1m es)) = int (length (filter located es))"
proof -
  have "map mi_pointCount (computeDownsample1m es) =
      map ((\<lambda>b. int (length (sa_lats b))) \<circ> snd) (group_by minute_key (new_samples truncateToMinute) add_samples es)"
    by (simp add: computeDownsample1m_def minute_summary_def comp_def)
  then show ?thesis by (simp only: minutes.amount_group sum_indicator)
qed

lemma hour_counts: "sum_list (map ro_pointCount (computeAggregate1h rows)) = sum_list (map mi_pointCount rows)"
proof -
  have "map ro_pointCount (computeAggregate1h rows) = map (po_count \<circ> snd) (group_by hour_key new_hour add_minute rows)"
    by (simp add: computeAggregate1h_def hour_summary_def comp_def)
  then show ?thesis by (simp only: hours.amount_group)
qed

lemma day_counts:
  "sum_list (map ro_pointCount (computeAggregate1d rows)) = sum_list (map ro_pointCount rows)"
  "sum_list (map ro_totalDistance (computeAggregate1d rows)) = sum_list (map ro_totalDistance rows)"
proof -
  have "map ro_pointCount (computeAggregate1d rows) = map (po_count \<circ> snd) (group_by day_key new_day add_hour rows)"
    "map ro_totalDistance (computeAggregate1d rows) = map (po_distance \<circ> snd) (group_by day_key new_day add_hour rows)"
    by (simp_all add: computeAggregate1d_def day_summary_def comp_def)
  then show "sum_list (map ro_pointCount (computeAggregate1d rows)) = sum_list (map ro_pointCount rows)"
    "sum_list (map ro_totalDistance (computeAggregate1d rows)) = sum_list (map ro_totalDistance rows)"
    by (simp_all only: days.amount_group day_distances.amount_group)
qed

section \<open>Where rows start\<close>

lemma bucket_of_bounds: "0 < width \<Longrightarrow> bucket_of width t \<le> t \<and> t < bucket_of width t + width"
  unfolding bucket_of_def by (smt (verit) div_mult_mod_eq pos_mod_bound pos_mod_sign)

lemma minute_start:
  assumes "r \<in> set (computeDownsample1m es)"
  shows "\<exists>e\<in>set es. mi_start r = truncateToMinute (le_timestamp e)"
proof -
  from assms obtain k b where b: "(k, b) \<in> set (group_by minute_key (new_samples truncateToMinute) add_samples es)"
    and r: "r = minute_summary b" by (auto simp: computeDownsample1m_def)
  have "\<exists>e\<in>set es. sa_start b = truncateToMinute (le_timestamp e)"
    by (rule group_by_all [OF _ _ b]) (auto simp: add_samples_def new_samples_def)
  then show ?thesis by (simp add: r minute_summary_def)
qed

lemma hour_start:
  assumes "r \<in> set (computeAggregate1h rows)"
  shows "\<exists>e\<in>set rows. ro_start r = truncateToHour (mi_start e)"
proof -
  from assms obtain k b where b: "(k, b) \<in> set (group_by hour_key new_hour add_minute rows)"
    and r: "r = hour_summary b" by (auto simp: computeAggregate1h_def split: if_splits)
  have "\<exists>e\<in>set rows. po_start b = truncateToHour (mi_start e)"
    by (rule group_by_all [OF _ _ b]) (auto simp: add_minute_def new_hour_def)
  then show ?thesis by (simp add: r hour_summary_def)
qed

lemma day_start:
  assumes "r \<in> set (computeAggregate1d rows)"
  shows "\<exists>e\<in>set rows. ro_start r = truncateToDay (ro_start e)"
proof -
  from assms obtain k b where b: "(k, b) \<in> set (group_by day_key new_day add_hour rows)"
    and r: "r = day_summary b" by (auto simp: computeAggregate1d_def split: if_splits)
  have "\<exists>e\<in>set rows. po_start b = truncateToDay (ro_start e)"
    by (rule group_by_all [OF _ _ b]) (auto simp: add_hour_def new_day_def)
  then show ?thesis by (simp add: r day_summary_def)
qed

lemma tier_starts:
  assumes "\<forall>e\<in>set es. t \<le> le_timestamp e" "m1 = computeDownsample1m es" "h1 = computeAggregate1h m1"
  shows "r \<in> set m1 \<Longrightarrow> t - 60000 < mi_start r"
    and "h \<in> set h1 \<Longrightarrow> t - 3660000 < ro_start h"
    and "d \<in> set (computeAggregate1d h1) \<Longrightarrow> t - 90060000 < ro_start d"
proof -
  have m: "t - 60000 < mi_start r" if "r \<in> set m1" for r
  proof -
    from that assms(2) obtain e where "e \<in> set es" "mi_start r = truncateToMinute (le_timestamp e)"
      using minute_start by auto
    moreover have "le_timestamp e < bucket_of 60000 (le_timestamp e) + 60000" using bucket_of_bounds by simp
    ultimately show ?thesis using assms(1) by (fastforce simp: truncateToMinute_def)
  qed
  have h: "t - 3660000 < ro_start h" if "h \<in> set h1" for h
  proof -
    from that assms(3) obtain r where "r \<in> set m1" "ro_start h = truncateToHour (mi_start r)"
      using hour_start by auto
    moreover have "mi_start r < bucket_of 3600000 (mi_start r) + 3600000" using bucket_of_bounds by simp
    ultimately show ?thesis using m by (fastforce simp: truncateToHour_def)
  qed
  show "r \<in> set m1 \<Longrightarrow> t - 60000 < mi_start r" by (rule m)
  show "h \<in> set h1 \<Longrightarrow> t - 3660000 < ro_start h" by (rule h)
  assume "d \<in> set (computeAggregate1d h1)"
  then obtain x where "x \<in> set h1" "ro_start d = truncateToDay (ro_start x)" using day_start by auto
  moreover have "ro_start x < bucket_of 86400000 (ro_start x) + 86400000" using bucket_of_bounds by simp
  ultimately show "t - 90060000 < ro_start d" using h by (fastforce simp: truncateToDay_def)
qed

section \<open>Compaction\<close>

lemma compact_Inr:
  assumes "compact now args a = (Inr res, a')"
  defines "ret \<equiv> retention_of (ad_retention a) args"
  shows "\<not> ad_closed a" "ad_events a' = filter (\<lambda>e. le_timestamp e \<ge> cutoff now (rawRetentionDays ret)) (ad_events a)"
    "downsample1m a' = filter (\<lambda>r. mi_start r \<ge> cutoff now (downsample1mRetentionDays ret)) (computeDownsample1m (ad_events a'))"
    "aggregate1h a' = filter (\<lambda>r. ro_start r \<ge> cutoff now (downsample1hRetentionDays ret))
       (computeAggregate1h (computeDownsample1m (ad_events a')))"
    "aggregate1d a' = filter (\<lambda>r. ro_start r \<ge> cutoff now (aggregate1dRetentionDays ret))
       (computeAggregate1d (computeAggregate1h (computeDownsample1m (ad_events a'))))"
    "cr_rawDeleted res = int (length (ad_events a)) - int (length (ad_events a'))"
    "ad_closed a' = ad_closed a" "ad_retention a' = ad_retention a"
    "lastCompactionRun a' = Some now" "nextCompactionRun a' = Some (now + 300000)"
  using assms(1) unfolding ret_def by (auto simp: compact_def Let_def split: if_splits)

text \<open>
  C28. Compaction conserves the points. When each tier is kept longer than the raw events, the tiers it
  leaves are complete: in every tier the point counts add up to the raw events it kept that have a
  position, and the distances of the days add up to those of the hours; and compacting again at
  once deletes nothing and changes nothing.
\<close>
theorem compaction_conserves:
  assumes "compact now args a = (Inr res, a')" and "ret = retention_of (ad_retention a) args"
    and "rawRetentionDays ret + 1 \<le> downsample1mRetentionDays ret"
    and "rawRetentionDays ret + 1 \<le> downsample1hRetentionDays ret"
    and "rawRetentionDays ret + 2 \<le> aggregate1dRetentionDays ret"
  shows "sum_list (map mi_pointCount (downsample1m a')) = int (length (filter located (ad_events a')))
    \<and> sum_list (map ro_pointCount (aggregate1h a')) = int (length (filter located (ad_events a')))
    \<and> sum_list (map ro_pointCount (aggregate1d a')) = int (length (filter located (ad_events a')))
    \<and> sum_list (map ro_totalDistance (aggregate1d a')) = sum_list (map ro_totalDistance (aggregate1h a'))
    \<and> snd (compact now args a') = a'"
proof -
  note c = compact_Inr [OF assms(1)]
  let ?t = "cutoff now (rawRetentionDays ret)"
  let ?m1 = "computeDownsample1m (ad_events a')"
  let ?h1 = "computeAggregate1h ?m1"
  let ?d1 = "computeAggregate1d ?h1"
  have kept: "\<forall>e\<in>set (ad_events a'). ?t \<le> le_timestamp e" by (simp add: c(2) assms(2))
  note starts = tier_starts [OF kept refl refl]
  have m1: "downsample1m a' = ?m1" unfolding c(3) filter_id_conv
    using starts(1) assms(2,3) by (fastforce simp: cutoff_def)
  have h1: "aggregate1h a' = ?h1" unfolding c(4) filter_id_conv
    using starts(2) assms(2,4) by (fastforce simp: cutoff_def)
  have d1: "aggregate1d a' = ?d1" unfolding c(5) filter_id_conv
    using starts(3) assms(2,5) by (fastforce simp: cutoff_def)
  have "filter (\<lambda>e. ?t \<le> le_timestamp e) (ad_events a') = ad_events a'" using kept by (simp add: filter_id_conv)
  then have "snd (compact now args a') = a'"
    using c(1,3,4,5,7-10) assms(2) by (simp add: compact_def Let_def)
  then show ?thesis using minute_counts hour_counts day_counts by (simp add: m1 h1 d1)
qed

text \<open>
  The coarse tiers are no history. \<open>compact\<close> rebuilds them from the raw events it keeps, so a row older
  than the raw retention is gone from every tier, however long that tier is meant to be kept.
\<close>
theorem compaction_forgets_history:
  assumes "compact now args a = (Inr res, a')" and "ret = retention_of (ad_retention a) args"
  shows "(\<forall>r\<in>set (downsample1m a'). mi_start r > cutoff now (rawRetentionDays ret) - 60000)
    \<and> (\<forall>r\<in>set (aggregate1h a'). ro_start r > cutoff now (rawRetentionDays ret + 1))
    \<and> (\<forall>r\<in>set (aggregate1d a'). ro_start r > cutoff now (rawRetentionDays ret + 2))"
proof -
  note c = compact_Inr [OF assms(1)]
  have kept: "\<forall>e\<in>set (ad_events a'). cutoff now (rawRetentionDays ret) \<le> le_timestamp e"
    by (simp add: c(2) assms(2))
  note starts = tier_starts [OF kept refl refl]
  show ?thesis unfolding c(3-5)
    using starts by (fastforce simp: cutoff_def)
qed

section \<open>Rows are exactly the groups\<close>

lemma group_by_get:
  "js_get (group_by key new add es) k =
     (case filter (\<lambda>e. key e = k) es of [] \<Rightarrow> None | f # fs \<Rightarrow> Some (fold add (f # fs) (new f)))"
proof (induction es rule: rev_induct)
  case (snoc e es)
  then show ?case
    by (cases "filter (\<lambda>x. key x = key e) es") (auto simp: group_by_snoc Let_def)
qed simp

lemma digits_value: "foldl (\<lambda>a c. 10 * a + (of_char c - 48)) 0 (nat_str n) = (n :: nat)"
proof (induction n rule: nat_str.induct)
  case (1 n)
  show ?case
  proof (cases "n < 10")
    case True
    then show ?thesis by (simp add: nat_str.simps [of n] of_char_digit)
  next
    case False
    then show ?thesis using 1 by (simp add: nat_str.simps [of n] of_char_digit)
  qed
qed

lemma nat_str_inj: "nat_str m = nat_str n \<Longrightarrow> m = n"
  by (metis digits_value)

lemma nat_str_chars: "c \<in> set (nat_str n) \<Longrightarrow> 48 \<le> (of_char c :: nat) \<and> (of_char c :: nat) < 58"
proof (induction n rule: nat_str.induct)
  case (1 n)
  have "48 + n mod 10 < (58::nat)" by simp
  with 1 show ?case
    by (cases "n < 10") (auto simp: nat_str.simps [of n] of_char_digit)
qed

lemma int_str_no_bar: "CHR ''|'' \<notin> set (int_str i)"
  using nat_str_chars [of "CHR ''|''"] by (auto simp: int_str_def)

lemma int_str_inj: "int_str i = int_str j \<Longrightarrow> i = j"
proof -
  assume eq: "int_str i = int_str j"
  have "CHR ''-'' \<notin> set (nat_str n)" for n
    using nat_str_chars [of "CHR ''-''" n] by auto
  then have "CHR ''-'' # s \<noteq> nat_str n" for s n by (metis list.set_intros(1))
  then have minus: "CHR ''-'' # s \<noteq> nat_str n" "nat_str n \<noteq> CHR ''-'' # s" for s n by metis+
  show ?thesis
  proof (cases "(i < 0) = (j < 0)")
    case True
    then have "nat_str (nat \<bar>i\<bar>) = nat_str (nat \<bar>j\<bar>)"
      using eq by (cases "i < 0") (simp_all add: int_str_def)
    then have "nat \<bar>i\<bar> = nat \<bar>j\<bar>" by (rule nat_str_inj)
    then show ?thesis using True by linarith
  next
    case False
    then show ?thesis using eq minus by (cases "i < 0") (simp_all add: int_str_def)
  qed
qed

lemma tier_key_inj: "tier_key r t = tier_key r' t' \<longleftrightarrow> r = r' \<and> t = t'"
proof
  assume eq: "tier_key r t = tier_key r' t'"
  have "takeWhile (\<lambda>c. c \<noteq> CHR ''|'') (rev (tier_key q u)) = rev (int_str u)" for q u
    using int_str_no_bar [of u] by (simp add: tier_key_def takeWhile_append)
  then have "int_str t = int_str t'" using eq by (metis rev_rev_ident)
  with eq show "r = r' \<and> t = t'" by (auto simp: tier_key_def dest: int_str_inj)
qed simp

text \<open>Grouping what the key identifies.\<close>

lemma add_samples_fold:
  "sa_roomId (fold add_samples g b) = sa_roomId b" "sa_start (fold add_samples g b) = sa_start b"
  "sa_lats (fold add_samples g b) = sa_lats b @ List.map_filter event_lat g"
  "sa_lons (fold add_samples g b) = sa_lons b @ List.map_filter event_lon g"
  "sa_alts (fold add_samples g b) = sa_alts b @ List.map_filter le_altitude g"
  "sa_speeds (fold add_samples g b) = sa_speeds b @ List.map_filter le_speed g"
  by (induction g arbitrary: b) (simp_all add: add_samples_def push_opt_def map_filter_simps split: option.split)

lemma max_of_Max: "xs \<noteq> [] \<Longrightarrow> max_of xs = Max (set xs)"
  using Max.set_eq_fold [of "hd xs" "tl xs"] by (simp add: max_of_def)

definition minute_group :: "loc_event list \<Rightarrow> string \<Rightarrow> time \<Rightarrow> loc_event list" where
  "minute_group es r t = filter (\<lambda>e. le_roomId e = r \<and> truncateToMinute (le_timestamp e) = t) es"

text \<open>
  The minute tier has one row for every room and minute with an event, and each row is the summary
  of exactly these events: their number and the medians of their coordinates, the median of the
  altitudes and the largest speed when there are any.
\<close>
theorem minute_rows_exact:
  "distinct (map (\<lambda>r. (mi_roomId r, mi_start r)) (computeDownsample1m es))
   \<and> (\<lambda>r. (mi_roomId r, mi_start r)) ` set (computeDownsample1m es)
       = (\<lambda>e. (le_roomId e, truncateToMinute (le_timestamp e))) ` set es
   \<and> (\<forall>r\<in>set (computeDownsample1m es). \<forall>g. g = minute_group es (mi_roomId r) (mi_start r) \<longrightarrow>
        mi_pointCount r = int (length (filter located g)) \<and> mi_end r = mi_start r + 59999
        \<and> mi_latitude r = median (List.map_filter event_lat g)
        \<and> mi_longitude r = median (List.map_filter event_lon g)
        \<and> mi_altitude r = (if List.map_filter le_altitude g = [] then None else Some (median (List.map_filter le_altitude g)))
        \<and> mi_maxSpeed r = (if List.map_filter le_speed g = [] then None else Some (Max (set (List.map_filter le_speed g)))))"
proof (intro conjI)
  let ?G = "group_by minute_key (new_samples truncateToMinute) add_samples es"
  have rows: "computeDownsample1m es = map (minute_summary \<circ> snd) ?G" by (simp add: computeDownsample1m_def)
  have pair: "(mi_roomId (minute_summary b), mi_start (minute_summary b)) = (sa_roomId b, sa_start b)" for b
    by (simp add: minute_summary_def)
  have "distinct (map (\<lambda>p. (sa_roomId (snd p), sa_start (snd p))) ?G)"
    using minutes.distinct_labels [of es] by (auto simp: distinct_map inj_on_def samples_key_def)
  then show "distinct (map (\<lambda>r. (mi_roomId r, mi_start r)) (computeDownsample1m es))"
    by (simp add: rows comp_def pair)
  have "(\<lambda>(r, t). tier_key r t) ` (\<lambda>p. (sa_roomId (snd p), sa_start (snd p))) ` set ?G
      = (\<lambda>(r, t). tier_key r t) ` (\<lambda>e. (le_roomId e, truncateToMinute (le_timestamp e))) ` set es"
    using minutes.set_labels [of es] by (simp add: image_image samples_key_def minute_key_def)
  moreover have "inj (\<lambda>(r, t). tier_key r t)" by (auto simp: inj_def tier_key_inj)
  ultimately have "(\<lambda>p. (sa_roomId (snd p), sa_start (snd p))) ` set ?G
      = (\<lambda>e. (le_roomId e, truncateToMinute (le_timestamp e))) ` set es"
    by (simp only: inj_image_eq_iff)
  then show "(\<lambda>r. (mi_roomId r, mi_start r)) ` set (computeDownsample1m es)
       = (\<lambda>e. (le_roomId e, truncateToMinute (le_timestamp e))) ` set es"
    by (simp add: rows image_image pair)
  show "\<forall>r\<in>set (computeDownsample1m es). \<forall>g. g = minute_group es (mi_roomId r) (mi_start r) \<longrightarrow>
        mi_pointCount r = int (length (filter located g)) \<and> mi_end r = mi_start r + 59999
        \<and> mi_latitude r = median (List.map_filter event_lat g)
        \<and> mi_longitude r = median (List.map_filter event_lon g)
        \<and> mi_altitude r = (if List.map_filter le_altitude g = [] then None else Some (median (List.map_filter le_altitude g)))
        \<and> mi_maxSpeed r = (if List.map_filter le_speed g = [] then None else Some (Max (set (List.map_filter le_speed g))))"
  proof (intro ballI allI impI)
    fix r g assume "r \<in> set (computeDownsample1m es)" and g: "g = minute_group es (mi_roomId r) (mi_start r)"
    then obtain k b where "(k, b) \<in> set ?G" and r: "r = minute_summary b" by (auto simp: rows)
    then have get: "js_get ?G k = Some b" by (intro js_get_SomeI [OF wf_group_by])
    have k: "samples_key b = k" using minutes.label_group [OF get] .
    have "filter (\<lambda>e. minute_key e = k) es = g"
      by (simp add: g minute_group_def r minute_summary_def k [symmetric] samples_key_def minute_key_def tier_key_inj)
    with get obtain f fs where "g = f # fs" and b: "b = fold add_samples g (new_samples truncateToMinute f)"
      by (auto simp: group_by_get split: list.splits)
    have lats: "sa_lats b = List.map_filter event_lat g" "sa_lons b = List.map_filter event_lon g"
      "sa_alts b = List.map_filter le_altitude g" "sa_speeds b = List.map_filter le_speed g"
      by (simp_all only: b add_samples_fold) (simp_all add: new_samples_def)
    have "(\<lambda>x. \<exists>y. event_lat x = Some y) = located" by (auto simp: located_def)
    then have "length (List.map_filter event_lat g) = length (filter located g)"
      by (simp add: map_filter_def)
    then show "mi_pointCount r = int (length (filter located g)) \<and> mi_end r = mi_start r + 59999
        \<and> mi_latitude r = median (List.map_filter event_lat g)
        \<and> mi_longitude r = median (List.map_filter event_lon g)
        \<and> mi_altitude r = (if List.map_filter le_altitude g = [] then None else Some (median (List.map_filter le_altitude g)))
        \<and> mi_maxSpeed r = (if List.map_filter le_speed g = [] then None else Some (Max (set (List.map_filter le_speed g))))"
      by (simp add: r minute_summary_def lats max_of_Max)
  qed
qed

section \<open>Summaries stay within the extent of their points\<close>

definition ranged :: "real \<Rightarrow> real \<Rightarrow> real \<Rightarrow> bool" where
  "ranged lo hi x \<longleftrightarrow> lo \<le> x \<and> x \<le> hi"

lemma sum_of_list: "sum_of xs = sum_list xs"
proof -
  have "foldl (+) a xs = a + sum_list xs" for a :: real by (induction xs arbitrary: a) simp_all
  then show ?thesis by (simp add: sum_of_def)
qed

lemma average_ranged:
  assumes "xs \<noteq> []" "\<forall>x\<in>set xs. ranged lo hi x"
  shows "ranged lo hi (average xs)"
proof -
  have "real (length xs) * lo \<le> sum_list xs \<and> sum_list xs \<le> real (length xs) * hi"
    using assms(2) by (induction xs) (auto simp: ranged_def algebra_simps)
  then show ?thesis using assms(1)
    by (simp add: average_def sum_of_list ranged_def pos_le_divide_eq pos_divide_le_eq mult.commute)
qed

lemma median_ranged:
  assumes "xs \<noteq> []" "\<forall>x\<in>set xs. ranged lo hi x"
  shows "ranged lo hi (median xs)"
proof -
  have "ranged lo hi (sort xs ! i)" if "i < length xs" for i
    using assms(2) that nth_mem [of i "sort xs"] by simp
  from this [of "length xs div 2"] this [of "length xs div 2 - 1"] assms(1)
  show ?thesis by (simp add: median_def Let_def ranged_def less_imp_diff_less)
qed

definition box_event :: "bounds \<Rightarrow> loc_event \<Rightarrow> bool" where
  "box_event b e \<longleftrightarrow> (\<exists>lat lon. event_lat e = Some lat \<and> event_lon e = Some lon
     \<and> ranged (minLat b) (maxLat b) lat \<and> ranged (minLon b) (maxLon b) lon)"

definition box :: "bounds \<Rightarrow> real \<Rightarrow> real \<Rightarrow> bool" where
  "box b lat lon \<longleftrightarrow> ranged (minLat b) (maxLat b) lat \<and> ranged (minLon b) (maxLon b) lon"

definition box_samples :: "bounds \<Rightarrow> samples \<Rightarrow> bool" where
  "box_samples b s \<longleftrightarrow> sa_lats s \<noteq> [] \<and> sa_lons s \<noteq> []
     \<and> (\<forall>x\<in>set (sa_lats s). ranged (minLat b) (maxLat b) x) \<and> (\<forall>x\<in>set (sa_lons s). ranged (minLon b) (maxLon b) x)"

definition box_points :: "bounds \<Rightarrow> points \<Rightarrow> bool" where
  "box_points b p \<longleftrightarrow> po_points p \<noteq> [] \<and> (\<forall>(x, y)\<in>set (po_points p). box b x y)"

lemma box_samples_add:
  assumes "box_event b e"
  shows "box_samples b (add_samples e (new_samples f e))" "box_samples b s \<Longrightarrow> box_samples b (add_samples e s)"
    "box_samples b (add_weighted e (new_samples f e))" "box_samples b s \<Longrightarrow> box_samples b (add_weighted e s)"
  using assms by (auto simp: box_event_def box_samples_def add_samples_def add_weighted_def new_samples_def push_opt_def)

lemma box_points_average:
  "box_points b p \<Longrightarrow> box b (average (map fst (po_points p))) (average (map snd (po_points p)))"
  unfolding box_points_def box_def by (intro conjI average_ranged) auto

lemma minute_box:
  assumes "\<forall>e\<in>set es. box_event b e" "r \<in> set (computeDownsample1m es)"
  shows "box b (mi_latitude r) (mi_longitude r)"
proof -
  from assms(2) obtain k s where s: "(k, s) \<in> set (group_by minute_key (new_samples truncateToMinute) add_samples es)"
    and r: "r = minute_summary s" by (auto simp: computeDownsample1m_def)
  have "box_samples b s" by (rule group_by_all [OF _ _ s]) (use assms(1) box_samples_add in blast)+
  then show ?thesis by (auto simp: r minute_summary_def box_def box_samples_def intro!: median_ranged)
qed

lemma hour_box:
  assumes "\<forall>r\<in>set rows. box b (mi_latitude r) (mi_longitude r)" "r \<in> set (computeAggregate1h rows)"
  shows "box b (ro_latitude r) (ro_longitude r)"
proof -
  from assms(2) obtain k p where p: "(k, p) \<in> set (group_by hour_key new_hour add_minute rows)"
    and r: "r = hour_summary p" by (auto simp: computeAggregate1h_def split: if_splits)
  have "box_points b p"
    by (rule group_by_all [OF _ _ p]) (use assms(1) in \<open>auto simp: box_points_def add_minute_def new_hour_def\<close>)
  from box_points_average [OF this] show ?thesis by (simp add: r hour_summary_def)
qed

lemma day_box:
  assumes "\<forall>r\<in>set rows. box b (ro_latitude r) (ro_longitude r)" "r \<in> set (computeAggregate1d rows)"
  shows "box b (ro_latitude r) (ro_longitude r)"
proof -
  from assms(2) obtain k p where p: "(k, p) \<in> set (group_by day_key new_day add_hour rows)"
    and r: "r = day_summary p" by (auto simp: computeAggregate1d_def split: if_splits)
  have "box_points b p"
    by (rule group_by_all [OF _ _ p]) (use assms(1) in \<open>auto simp: box_points_def add_hour_def new_day_def\<close>)
  from box_points_average [OF this] show ?thesis by (simp add: r day_summary_def)
qed

section \<open>Queries\<close>

lemma set_take_limit: "set (take_limit l xs) \<subseteq> set xs"
  by (auto simp: take_limit_def Let_def dest: in_set_takeD)

lemma queryRoom_Points:
  assumes "queryRoom now new_id r q a = Inr (Points ps)"
  obtains width where "bucket_size (resolve now q) = Some width" "0 < width" "\<not> ad_closed a"
    "ps = take_limit (qy_limit q) (sort_key pt_timestamp
       (map (point_of now (resolve now q) r)
         (zip (map snd (query_buckets width (filter (in_range r q) (ad_events a))))
              (map new_id [0..<length (query_buckets width (filter (in_range r q) (ad_events a)))]))))"
  using assms by (auto simp: queryRoom_def Let_def bucket_size_def split: if_splits option.splits)

lemma points_fields:
  assumes "length bs = length ids"
  shows "map pt_timestamp (map (point_of now res r) (zip bs ids)) = map sa_start bs"
    "map pt_pointCount (map (point_of now res r) (zip bs ids)) = map sa_count bs"
  using assms by (induction bs ids rule: list_induct2) (simp_all add: point_of_def Let_def)

text \<open>
  C35. Aggregation never leaves the area: when all stored events lie in a box, so does every row of every
  tier after a compaction, and every point a query returns.
\<close>
theorem aggregates_within_extent:
  assumes "\<forall>e\<in>set (ad_events a). box_event b e"
  shows "(\<forall>res a'. compact now args a = (Inr res, a') \<longrightarrow>
        (\<forall>r\<in>set (downsample1m a'). box b (mi_latitude r) (mi_longitude r))
        \<and> (\<forall>r\<in>set (aggregate1h a') \<union> set (aggregate1d a'). box b (ro_latitude r) (ro_longitude r)))
    \<and> (\<forall>ps. queryRoom now new_id roomId q a = Inr (Points ps) \<longrightarrow>
        (\<forall>p\<in>set ps. box b (pt_latitude p) (pt_longitude p)))"
proof (intro conjI allI impI ballI)
  fix res a'
  assume "compact now args a = (Inr res, a')"
  note c = compact_Inr [OF this]
  have es: "\<forall>e\<in>set (ad_events a'). box_event b e" using assms by (simp add: c(2))
  have m: "\<forall>r\<in>set (computeDownsample1m (ad_events a')). box b (mi_latitude r) (mi_longitude r)"
    using minute_box [OF es] by blast
  have h: "\<forall>r\<in>set (computeAggregate1h (computeDownsample1m (ad_events a'))). box b (ro_latitude r) (ro_longitude r)"
    using hour_box [OF m] by blast
  show "box b (mi_latitude r) (mi_longitude r)" if "r \<in> set (downsample1m a')" for r
    using that m by (simp add: c(3))
  show "box b (ro_latitude r) (ro_longitude r)" if "r \<in> set (aggregate1h a') \<union> set (aggregate1d a')" for r
    using that h day_box [OF h] by (auto simp: c(4,5))
next
  fix ps p assume pts: "queryRoom now new_id roomId q a = Inr (Points ps)" and p: "p \<in> set ps"
  from pts obtain width where ps: "ps = take_limit (qy_limit q) (sort_key pt_timestamp
       (map (point_of now (resolve now q) roomId)
         (zip (map snd (query_buckets width (filter (in_range roomId q) (ad_events a))))
              (map new_id [0..<length (query_buckets width (filter (in_range roomId q) (ad_events a)))]))))"
    by (rule queryRoom_Points) iprover
  obtain s i where s: "s \<in> snd ` set (query_buckets width (filter (in_range roomId q) (ad_events a)))"
    and pt: "p = point_of now (resolve now q) roomId (s, i)"
    using p set_take_limit [of "qy_limit q"] unfolding ps by (fastforce dest: set_zip_leftD)
  from s obtain k where "(k, s) \<in> set (query_buckets width (filter (in_range roomId q) (ad_events a)))" by auto
  then have "box_samples b s" unfolding query_buckets_def
    by (rule group_by_all [rotated 2]) (use assms box_samples_add in auto)
  then show "box b (pt_latitude p) (pt_longitude p)"
    by (auto simp: pt point_of_def Let_def box_def box_samples_def intro!: average_ranged)
qed

text \<open>
  A resolved query is exact: it gives, in order of time and cut to the limit, one point for every
  bucket that holds a matching event, and before the cut the point counts add up to the weights of
  the matching events.
\<close>
theorem query_buckets_exact:
  assumes "queryRoom now new_id roomId q a = Inr (Points ps)"
  shows "\<exists>width full. bucket_size (resolve now q) = Some width \<and> ps = take_limit (qy_limit q) full
    \<and> sorted_wrt (\<lambda>p p'. pt_timestamp p < pt_timestamp p') full
    \<and> pt_timestamp ` set full = (\<lambda>e. bucket_of width (le_timestamp e)) ` set (filter (in_range roomId q) (ad_events a))
    \<and> sum_list (map pt_pointCount full) = sum_list (map weight_of (filter (in_range roomId q) (ad_events a)))"
proof -
  let ?es = "filter (in_range roomId q) (ad_events a)"
  from assms obtain width where w: "bucket_size (resolve now q) = Some width" and
    ps: "ps = take_limit (qy_limit q) (sort_key pt_timestamp
       (map (point_of now (resolve now q) roomId)
         (zip (map snd (query_buckets width ?es)) (map new_id [0..<length (query_buckets width ?es)]))))"
    by (rule queryRoom_Points) iprover
  let ?pts = "map (point_of now (resolve now q) roomId)
     (zip (map snd (query_buckets width ?es)) (map new_id [0..<length (query_buckets width ?es)]))"
  let ?full = "sort_key pt_timestamp ?pts"
  have ts: "map pt_timestamp ?pts = map (sa_start \<circ> snd) (query_buckets width ?es)"
    and ct: "map pt_pointCount ?pts = map (sa_count \<circ> snd) (query_buckets width ?es)"
    using points_fields [of "map snd (query_buckets width ?es)" "map new_id [0..<length (query_buckets width ?es)]"]
    by (simp_all only: length_map length_upt diff_zero simp_thms map_map)
  have "distinct (map (sa_start \<circ> snd) (query_buckets width ?es))"
    unfolding query_buckets_def by (rule queries.distinct_labels)
  then have "distinct (map pt_timestamp ?pts)" using ts by argo
  then have "distinct (map pt_timestamp ?full)" by (metis mset_map mset_sort mset_eq_imp_distinct_iff)
  then have "sorted_wrt (<) (map pt_timestamp ?full)" by (simp only: strict_sorted_iff sorted_sort_key simp_thms)
  then have "sorted_wrt (\<lambda>p p'. pt_timestamp p < pt_timestamp p') ?full" by (simp add: sorted_wrt_map)
  moreover have "pt_timestamp ` set ?full = (\<lambda>e. bucket_of width (le_timestamp e)) ` set ?es"
    using arg_cong [OF ts, of set] queries.set_labels [of width ?es]
    by (simp only: set_map set_sort image_comp query_buckets_def)
  moreover have "sum_list (map pt_pointCount ?full) = sum_list (map pt_pointCount ?pts)"
    by (metis mset_map mset_sort sum_mset_sum_list)
  then have "sum_list (map pt_pointCount ?full) = sum_list (map weight_of ?es)"
    using ct queries.amount_group [of width ?es] by (simp only: query_buckets_def)
  ultimately show ?thesis using w ps by blast
qed

lemma fold_later:
  "fold later es e \<in> insert e (set es) \<and> (\<forall>x\<in>insert e (set es). le_timestamp x \<le> le_timestamp (fold later es e))"
proof (induction es arbitrary: e)
  case (Cons x es)
  from Cons [of "later x e"] show ?case by (fastforce simp: later_def split: if_splits)
qed simp

text \<open>
  The spatial query returns exactly the events in the box, the raw query exactly the matching
  events in order of time, and \<open>getLatest\<close> an event of the room that no other is newer than.
\<close>
theorem lookups_exact:
  assumes "\<not> ad_closed a"
  shows "querySpatial b None a = Inr (filter (in_bounds b) (ad_events a))
    \<and> (\<forall>es. queryRoom now new_id roomId q a = Inr (RawEvents es) \<longrightarrow>
        (\<exists>full. es = take_limit (qy_limit q) full \<and> sorted (map le_timestamp full)
          \<and> mset full = mset (filter (in_range roomId q) (ad_events a))))
    \<and> (\<exists>r. getLatest roomId a = Inr r \<and> (r = None \<longleftrightarrow> (\<forall>e\<in>set (ad_events a). le_roomId e \<noteq> roomId))
        \<and> (\<forall>l. r = Some l \<longrightarrow> l \<in> set (ad_events a) \<and> le_roomId l = roomId
             \<and> (\<forall>e\<in>set (ad_events a). le_roomId e = roomId \<longrightarrow> le_timestamp e \<le> le_timestamp l)))"
proof (intro conjI allI impI)
  show "querySpatial b None a = Inr (filter (in_bounds b) (ad_events a))"
    using assms by (simp add: querySpatial_def)
next
  fix es assume "queryRoom now new_id roomId q a = Inr (RawEvents es)"
  then have "es = take_limit (qy_limit q) (sort_key le_timestamp (filter (in_range roomId q) (ad_events a)))"
    by (auto simp: queryRoom_def Let_def split: if_splits option.splits)
  then show "\<exists>full. es = take_limit (qy_limit q) full \<and> sorted (map le_timestamp full)
          \<and> mset full = mset (filter (in_range roomId q) (ad_events a))"
    by (intro exI [of _ "sort_key le_timestamp (filter (in_range roomId q) (ad_events a))"]) simp
next
  show "\<exists>r. getLatest roomId a = Inr r \<and> (r = None \<longleftrightarrow> (\<forall>e\<in>set (ad_events a). le_roomId e \<noteq> roomId))
        \<and> (\<forall>l. r = Some l \<longrightarrow> l \<in> set (ad_events a) \<and> le_roomId l = roomId
             \<and> (\<forall>e\<in>set (ad_events a). le_roomId e = roomId \<longrightarrow> le_timestamp e \<le> le_timestamp l))"
  proof (cases "filter (\<lambda>e. le_roomId e = roomId) (ad_events a)")
    case Nil
    then show ?thesis using assms by (simp add: getLatest_def filter_empty_conv)
  next
    case (Cons e es)
    then have room: "{e \<in> set (ad_events a). le_roomId e = roomId} = insert e (set es)" by (metis list.simps(15) set_filter)
    moreover note fold_later [of es e]
    moreover have "getLatest roomId a = Inr (Some (fold later es e))" using assms Cons by (simp add: getLatest_def)
    ultimately show ?thesis by (intro exI [of _ "Some (fold later es e)"]) blast
  qed
qed

section \<open>Witnesses\<close>

definition fix_at :: "string \<Rightarrow> real \<Rightarrow> real \<Rightarrow> time \<Rightarrow> loc_event" where
  "fix_at r lat lon t = \<lparr>le_clientId = ''v'', le_roomId = r, le_latitude = Some lat, le_longitude = Some lon,
     le_lat = None, le_lon = None, le_altitude = None, le_accuracy = None, le_speed = Some 3, le_timestamp = t,
     le_point_count = None, le_pointCount = None, le_id = [], le_createdAt = 0\<rparr>"

definition stored :: adapter where
  "stored = adapter_init\<lparr>ad_events := [fix_at ''r'' 1 2 600001, fix_at ''r'' 3 4 600002, fix_at ''q'' 5 6 7600000],
     downsample1m := [\<lparr>mi_roomId = ''r'', mi_start = - 9000000000, mi_end = - 8999940001, mi_latitude = 0,
       mi_longitude = 0, mi_altitude = None, mi_maxSpeed = None, mi_pointCount = 1\<rparr>]\<rparr>"

lemma stored_compact:
  obtains res where "compact 8000000 (RetentionDays 7 None None None) stored
    = (Inr res, snd (compact 8000000 (RetentionDays 7 None None None) stored))"
  by (simp add: compact_def stored_def adapter_init_def Let_def)

lemma stored_kept:
  "ad_events (snd (compact 8000000 (RetentionDays 7 None None None) stored)) = ad_events stored"
  by (simp add: compact_def stored_def adapter_init_def Let_def cutoff_def retention_of_def fix_at_def)

theorem compaction_conserves_witness:
  "sum_list (map ro_pointCount (aggregate1d (snd (compact 8000000 (RetentionDays 7 None None None) stored)))) = 3"
proof -
  obtain res where "compact 8000000 (RetentionDays 7 None None None) stored
    = (Inr res, snd (compact 8000000 (RetentionDays 7 None None None) stored))" by (rule stored_compact)
  from compaction_conserves [OF this refl] show ?thesis
    unfolding stored_kept
    by (simp add: retention_of_def option_or_def stored_def located_def fix_at_def event_lat_def or_else_def)
qed

theorem compaction_forgets_history_witness:
  "downsample1m stored \<noteq> []
   \<and> list_all (\<lambda>r. mi_start r > - 700000000) (downsample1m (snd (compact 8000000 (RetentionDays 7 None None None) stored)))"
proof -
  obtain res where "compact 8000000 (RetentionDays 7 None None None) stored
    = (Inr res, snd (compact 8000000 (RetentionDays 7 None None None) stored))" by (rule stored_compact)
  from compaction_forgets_history [OF this refl] show ?thesis
    by (fastforce simp: retention_of_def cutoff_def stored_def list_all_iff)
qed

theorem aggregates_within_extent_witness:
  "list_all (\<lambda>r. box \<lparr>minLat = 1, maxLat = 5, minLon = 2, maxLon = 6\<rparr> (mi_latitude r) (mi_longitude r))
     (downsample1m (snd (compact 8000000 (RetentionDays 7 None None None) stored)))"
proof -
  obtain res where c: "compact 8000000 (RetentionDays 7 None None None) stored
    = (Inr res, snd (compact 8000000 (RetentionDays 7 None None None) stored))" by (rule stored_compact)
  have "\<forall>e\<in>set (ad_events stored). box_event \<lparr>minLat = 1, maxLat = 5, minLon = 2, maxLon = 6\<rparr> e"
    by (simp add: stored_def adapter_init_def box_event_def fix_at_def event_lat_def event_lon_def or_else_def ranged_def)
  from aggregates_within_extent [OF this] c show ?thesis unfolding list_all_iff by blast
qed

theorem minute_rows_exact_witness:
  "distinct (map (\<lambda>r. (mi_roomId r, mi_start r)) (computeDownsample1m (ad_events stored)))
   \<and> (\<lambda>r. (mi_roomId r, mi_start r)) ` set (computeDownsample1m (ad_events stored)) = {(''r'', 600000), (''q'', 7560000)}"
proof -
  have "(\<lambda>e. (le_roomId e, truncateToMinute (le_timestamp e))) ` set (ad_events stored) = {(''r'', 600000), (''q'', 7560000)}"
    by (auto simp: stored_def fix_at_def truncateToMinute_def bucket_of_def)
  with minute_rows_exact [of "ad_events stored"] show ?thesis by simp
qed

definition hourly :: query where
  "hourly = \<lparr>qy_from = Some 0, qy_to = Some 8000000, qy_limit = None, qy_resolution = Some ''1h''\<rparr>"

theorem query_buckets_exact_witness:
  "\<exists>ps. queryRoom 8000000 (\<lambda>_. []) ''r'' hourly stored = Inr (Points ps)
     \<and> (\<exists>full. ps = take_limit None full \<and> sum_list (map pt_pointCount full) = 2)"
proof -
  obtain ps where ps: "queryRoom 8000000 (\<lambda>_. []) ''r'' hourly stored = Inr (Points ps)"
    by (simp add: queryRoom_def hourly_def stored_def adapter_init_def resolve_def bucket_size_def Let_def)
  have "sum_list (map weight_of (filter (in_range ''r'' hourly) (ad_events stored))) = 2"
    by (simp add: stored_def fix_at_def in_range_def hourly_def weight_of_def)
  with query_buckets_exact [OF ps] ps show ?thesis by (auto simp: hourly_def)
qed

theorem lookups_exact_witness:
  "\<exists>l. getLatest ''r'' stored = Inr (Some l) \<and> list_all (\<lambda>e. le_timestamp e \<le> le_timestamp l) (filter (\<lambda>e. le_roomId e = ''r'') (ad_events stored))"
proof -
  have "\<not> ad_closed stored" "\<exists>e\<in>set (ad_events stored). le_roomId e = ''r''"
    by (simp_all add: stored_def adapter_init_def fix_at_def)
  then obtain l where "getLatest ''r'' stored = Inr (Some l)"
    "\<forall>e\<in>set (ad_events stored). le_roomId e = ''r'' \<longrightarrow> le_timestamp e \<le> le_timestamp l"
    using lookups_exact [of stored _ _ _ "''r''"] by (metis not_None_eq)
  then show ?thesis by (auto simp: list_all_iff)
qed

end
