(* ===== verification/PgPipeline.thy ===== *)
theory PgPipeline
  imports MemoryStorage "HOL-Library.Multiset" "HOL-Library.Sublist"
begin

text \<open>
  The write side of \<open>PostgresAdapter\<close> in \<open>src/storage/postgres.js\<close>: the bounded buffer, the flushes that
  empty it in batches, the connection and \<open>close\<close>.

  \<^item> Every \<open>await\<close> ends a step: a flush waits for the connection or for the insert of its batch. Flushes
    are numbered; \<open>close\<close> clears \<open>_flushing\<close>, so two can be under way then.
  \<^item> The results of steps name the events that were accepted, dropped, taken out of the buffer, stored,
    or lost; the table is what was stored.
  \<^item> The sizes of the configuration are natural numbers.
\<close>

section \<open>State\<close>

record pipe_config =
  pc_batchSize :: nat
  pc_maxBufferSize :: nat

datatype init_state = NotStarted | Starting | Ready | InitFailed

datatype flush_state = AwaitInit | Inserting "loc_event list"

text \<open>\<open>Closing k\<close>: \<open>close\<close> waits for the flush \<open>k\<close>.\<close>

datatype close_state = Open | Closing nat | Closed

record pipe =
  pp_buffer :: "loc_event list"
  pp_dropped :: int
  pp_init :: init_state
  pp_pool :: bool
  pp_flushing :: bool
  pp_flushes :: "(nat, flush_state) jsmap"
  pp_next :: nat
  pp_timer :: bool
  pp_close :: close_state

definition pipe_init :: pipe where
  "pipe_init = \<lparr>pp_buffer = [], pp_dropped = 0, pp_init = NotStarted, pp_pool = False, pp_flushing = False, pp_flushes = [],
     pp_next = 0, pp_timer = False, pp_close = Open\<rparr>"

datatype pipe_out =
    Accepted "loc_event list" | Dropped "loc_event list" | Taken "loc_event list"
  | Stored "loc_event list" | Lost "loc_event list"

section \<open>Flushing\<close>

definition ensure_init :: "pipe \<Rightarrow> pipe" where
  "ensure_init p = (if pp_init p = NotStarted then p\<lparr>pp_init := Starting\<rparr> else p)"

text \<open>\<open>_flush\<close> up to its first await.\<close>

definition begin_flush :: "pipe \<Rightarrow> pipe" where
  "begin_flush p =
     (if pp_flushing p \<or> pp_buffer p = [] then p
      else ensure_init (p\<lparr>pp_flushing := True, pp_flushes := js_set (pp_next p) AwaitInit (pp_flushes p),
                          pp_next := pp_next p + 1\<rparr>))"

definition end_flush :: "nat \<Rightarrow> pipe \<Rightarrow> pipe" where
  "end_flush k p = p\<lparr>pp_flushing := False, pp_flushes := js_delete k (pp_flushes p)\<rparr>"

text \<open>
  The head of the loop: the next batch is taken and its insert started, or the flush ends. Without a pool
  the insert throws.
\<close>

definition flush_loop :: "pipe_config \<Rightarrow> nat \<Rightarrow> pipe \<Rightarrow> pipe_out list \<times> pipe" where
  "flush_loop cfg k p =
     (if pp_buffer p = [] then ([], end_flush k p)
      else let batch = take (pc_batchSize cfg) (pp_buffer p);
               p1 = p\<lparr>pp_buffer := drop (pc_batchSize cfg) (pp_buffer p)\<rparr>
           in if \<not> pp_pool p then ([Taken batch, Lost batch], end_flush k p1)
              else ([Taken batch], p1\<lparr>pp_flushes := js_set k (Inserting batch) (pp_flushes p1)\<rparr>))"

text \<open>The flush \<open>k\<close> goes on after its await: \<open>ok\<close> tells whether an insert succeeded.\<close>

definition resume_flush :: "pipe_config \<Rightarrow> nat \<Rightarrow> bool \<Rightarrow> pipe \<Rightarrow> pipe_out list \<times> pipe" where
  "resume_flush cfg k ok p =
     (case js_get (pp_flushes p) k of
        None \<Rightarrow> ([], p)
      | Some AwaitInit \<Rightarrow>
          (if pp_init p = Ready then flush_loop cfg k p
           else if pp_init p = InitFailed then ([], end_flush k p)
           else ([], p))
      | Some (Inserting batch) \<Rightarrow>
          (if ok then (let (outs, p') = flush_loop cfg k p in (Stored batch # outs, p'))
           else ([Lost batch], end_flush k p)))"

section \<open>Writing\<close>

definition pg_writeBatch :: "pipe_config \<Rightarrow> loc_event list \<Rightarrow> pipe \<Rightarrow> (storage_error + pipe_out list) \<times> pipe" where
  "pg_writeBatch cfg es p =
     (if pp_close p \<noteq> Open then (Inl AdapterClosed, p)
      else if es = [] then (Inr [], p)
      else let p1 = ensure_init p;
               buffer = pp_buffer p1 @ es;
               excess = length buffer - pc_maxBufferSize cfg;
               p2 = p1\<lparr>pp_buffer := drop excess buffer, pp_dropped := pp_dropped p1 + int excess\<rparr>;
               p3 = (if length (pp_buffer p2) \<ge> pc_batchSize cfg then begin_flush p2 else p2)
           in (Inr [Accepted es, Dropped (take excess buffer)], p3))"

section \<open>Connection and close\<close>

text \<open>
  \<open>_doInit\<close> creates the pool first, then the schema; at its end it starts the timer, whether or not the
  adapter was closed meanwhile. A failed start is not tried again.
\<close>

definition create_pool :: "pipe \<Rightarrow> pipe" where
  "create_pool p = (if pp_init p = Starting then p\<lparr>pp_pool := True\<rparr> else p)"

definition init_done :: "bool \<Rightarrow> pipe \<Rightarrow> pipe" where
  "init_done ok p =
     (if pp_init p \<noteq> Starting then p
      else if ok then p\<lparr>pp_init := Ready, pp_timer := True\<rparr> else p\<lparr>pp_init := InitFailed\<rparr>)"

text \<open>\<open>close\<close> up to its first await; without a pool the buffer is left as it is.\<close>

definition pg_close_pipe :: "pipe \<Rightarrow> pipe" where
  "pg_close_pipe p =
     (if pp_close p \<noteq> Open then p
      else let p1 = p\<lparr>pp_timer := False\<rparr>
           in if pp_buffer p1 \<noteq> [] \<and> pp_pool p1
              then (begin_flush (p1\<lparr>pp_flushing := False\<rparr>))\<lparr>pp_close := Closing (pp_next p1)\<rparr>
              else p1\<lparr>pp_pool := False, pp_close := Closed\<rparr>)"

text \<open>After the flush, the pool is ended.\<close>

definition end_pool :: "pipe \<Rightarrow> pipe" where
  "end_pool p =
     (case pp_close p of
        Closing k \<Rightarrow> if js_has (pp_flushes p) k then p else p\<lparr>pp_pool := False, pp_close := Closed\<rparr>
      | _ \<Rightarrow> p)"

section \<open>Runs\<close>

inductive pipe_step :: "pipe_config \<Rightarrow> pipe \<Rightarrow> pipe_out list \<Rightarrow> pipe \<Rightarrow> bool" for cfg where
  s_write: "pg_writeBatch cfg es p = (Inr outs, p') \<Longrightarrow> pipe_step cfg p outs p'"
| s_tick: "pp_timer p \<Longrightarrow> pipe_step cfg p [] (begin_flush p)"
| s_pool: "pipe_step cfg p [] (create_pool p)"
| s_init: "pipe_step cfg p [] (init_done ok p)"
| s_flush: "resume_flush cfg k ok p = (outs, p') \<Longrightarrow> pipe_step cfg p outs p'"
| s_close: "pipe_step cfg p [] (pg_close_pipe p)"
| s_end: "pipe_step cfg p [] (end_pool p)"

inductive pipe_run :: "pipe_config \<Rightarrow> pipe \<Rightarrow> pipe_out list \<Rightarrow> pipe \<Rightarrow> bool" for cfg where
  r_refl: "pipe_run cfg p [] p"
| r_step: "pipe_run cfg p outs p' \<Longrightarrow> pipe_step cfg p' outs' p'' \<Longrightarrow> pipe_run cfg p (outs @ outs') p''"

inductive_cases pipe_stepE: "pipe_step cfg p outs p'"

text \<open>What a list of results says was accepted, dropped, taken, stored, lost.\<close>

definition accepted_events :: "pipe_out list \<Rightarrow> loc_event list" where
  "accepted_events outs = concat (map (\<lambda>x. case x of Accepted es \<Rightarrow> es | _ \<Rightarrow> []) outs)"

definition dropped_events :: "pipe_out list \<Rightarrow> loc_event list" where
  "dropped_events outs = concat (map (\<lambda>x. case x of Dropped es \<Rightarrow> es | _ \<Rightarrow> []) outs)"

definition stored_events :: "pipe_out list \<Rightarrow> loc_event list" where
  "stored_events outs = concat (map (\<lambda>x. case x of Stored es \<Rightarrow> es | _ \<Rightarrow> []) outs)"

definition lost_events :: "pipe_out list \<Rightarrow> loc_event list" where
  "lost_events outs = concat (map (\<lambda>x. case x of Lost es \<Rightarrow> es | _ \<Rightarrow> []) outs)"

definition taken_events :: "pipe_out list \<Rightarrow> loc_event list" where
  "taken_events outs = concat (map (\<lambda>x. case x of Taken es \<Rightarrow> es | _ \<Rightarrow> []) outs)"

text \<open>In the order they left the buffer, and in the order their inserts were decided.\<close>

definition removed_events :: "pipe_out list \<Rightarrow> loc_event list" where
  "removed_events outs = concat (map (\<lambda>x. case x of Dropped es \<Rightarrow> es | Taken es \<Rightarrow> es | _ \<Rightarrow> []) outs)"

definition settled_events :: "pipe_out list \<Rightarrow> loc_event list" where
  "settled_events outs = concat (map (\<lambda>x. case x of Stored es \<Rightarrow> es | Lost es \<Rightarrow> es | _ \<Rightarrow> []) outs)"

definition in_flight :: "pipe \<Rightarrow> loc_event list" where
  "in_flight p = concat (map (\<lambda>(k, f). case f of AwaitInit \<Rightarrow> [] | Inserting es \<Rightarrow> es) (pp_flushes p))"

end
