(* ===== verification/PgPipelineProperties.thy ===== *)
theory PgPipelineProperties
  imports PgPipeline
begin

text \<open>
  The write pipeline of \<open>PostgresAdapter\<close>: no event disappears without being counted as dropped, stored or
  lost, the buffer is bounded, rows are stored in the order of arrival, and a flush empties the buffer.
\<close>

declare map_of_eq_Some_iff [simp del] Some_eq_map_of_iff [simp del]

lemmas pipe_events = accepted_events_def dropped_events_def stored_events_def lost_events_def taken_events_def
  removed_events_def settled_events_def

lemma events_append [simp]:
  "accepted_events (xs @ ys) = accepted_events xs @ accepted_events ys"
  "dropped_events (xs @ ys) = dropped_events xs @ dropped_events ys"
  "stored_events (xs @ ys) = stored_events xs @ stored_events ys"
  "lost_events (xs @ ys) = lost_events xs @ lost_events ys"
  "taken_events (xs @ ys) = taken_events xs @ taken_events ys"
  "removed_events (xs @ ys) = removed_events xs @ removed_events ys"
  "settled_events (xs @ ys) = settled_events xs @ settled_events ys"
  by (simp_all add: pipe_events)

lemma removed_mset: "mset (removed_events outs) = mset (dropped_events outs) + mset (taken_events outs)"
  by (induction outs) (auto simp: pipe_events split: pipe_out.split)

lemma settled_mset: "mset (settled_events outs) = mset (stored_events outs) + mset (lost_events outs)"
  by (induction outs) (auto simp: pipe_events split: pipe_out.split)

lemma stored_subseq: "subseq (stored_events outs) (settled_events outs)"
  by (induction outs) (auto simp: pipe_events list_emb_append_mono split: pipe_out.split intro: list_emb_append2)

lemma taken_subseq: "subseq (taken_events outs) (removed_events outs)"
  by (induction outs) (auto simp: pipe_events list_emb_append_mono split: pipe_out.split intro: list_emb_append2)

section \<open>One step\<close>

text \<open>What a step does to the events: the buffer is a queue, and batches in flight are taken and settled.\<close>

definition accounts :: "pipe \<Rightarrow> pipe_out list \<Rightarrow> pipe \<Rightarrow> bool" where
  "accounts p outs p' \<longleftrightarrow>
     pp_buffer p @ accepted_events outs = removed_events outs @ pp_buffer p'
     \<and> mset (in_flight p) + mset (taken_events outs) = mset (settled_events outs) + mset (in_flight p')
     \<and> pp_dropped p' = pp_dropped p + int (length (dropped_events outs))"

definition flushes_ok :: "pipe \<Rightarrow> bool" where
  "flushes_ok p \<longleftrightarrow> wf_map (pp_flushes p) \<and> (\<forall>k\<in>set (js_keys (pp_flushes p)). k < pp_next p)"

lemma in_flight_delete:
  assumes "wf_map m"
  shows "mset (concat (map (\<lambda>(k, f). g f) m)) =
     (case js_get m k of Some f \<Rightarrow> mset (g f) | None \<Rightarrow> {#}) + mset (concat (map (\<lambda>(k, f). g f) (js_delete k m)))"
  using assms
proof (induction m)
  case (Cons p m)
  obtain j f where p: "p = (j, f)" by fastforce
  show ?case
  proof (cases "j = k")
    case True
    then have "js_delete k m = m" using Cons.prems p by (intro js_delete_absent) (auto simp: map_of_eq_None_iff)
    then show ?thesis using True p by simp
  qed (use Cons p in \<open>simp add: union_ac\<close>)
qed simp

lemma in_flight_set:
  assumes "wf_map m"
  shows "mset (concat (map (\<lambda>(k, f). g f) (js_set k f m))) = mset (g f) + mset (concat (map (\<lambda>(k, f). g f) (js_delete k m)))"
  using in_flight_delete [of "js_set k f m" g k] assms by (simp add: AList.distinct_update)

definition batch_of :: "flush_state \<Rightarrow> loc_event list" where
  "batch_of f = (case f of AwaitInit \<Rightarrow> [] | Inserting es \<Rightarrow> es)"

lemma in_flight_bag: "in_flight p = concat (map (\<lambda>(k, f). batch_of f) (pp_flushes p))"
  by (simp add: in_flight_def batch_of_def)

lemma accounts_refl: "pp_buffer p' = pp_buffer p \<Longrightarrow> pp_flushes p' = pp_flushes p \<Longrightarrow> pp_dropped p' = pp_dropped p \<Longrightarrow> accounts p [] p'"
  by (simp add: accounts_def in_flight_def pipe_events)

lemma accounts_trans: "accounts p outs p' \<Longrightarrow> accounts p' outs' p'' \<Longrightarrow> accounts p (outs @ outs') p''"
  by (auto simp: accounts_def union_ac) (metis append.assoc, metis (no_types, opaque_lifting) union_assoc union_commute)

lemma ensure_init_fields [simp]:
  "pp_buffer (ensure_init p) = pp_buffer p" "pp_flushes (ensure_init p) = pp_flushes p" "pp_dropped (ensure_init p) = pp_dropped p"
  "pp_next (ensure_init p) = pp_next p" "pp_close (ensure_init p) = pp_close p" "pp_flushing (ensure_init p) = pp_flushing p"
  "pp_pool (ensure_init p) = pp_pool p"
  by (simp_all add: ensure_init_def)

lemma begin_flush_accounts:
  assumes "flushes_ok p"
  shows "accounts p [] (begin_flush p) \<and> flushes_ok (begin_flush p)
    \<and> pp_buffer (begin_flush p) = pp_buffer p \<and> pp_close (begin_flush p) = pp_close p"
proof (cases "pp_flushing p \<or> pp_buffer p = []")
  case True
  then show ?thesis using assms by (simp add: begin_flush_def accounts_refl)
next
  case False
  have new: "js_get (pp_flushes p) (pp_next p) = None"
    using assms by (auto simp: flushes_ok_def map_of_eq_None_iff)
  then have "pp_flushes (begin_flush p) = pp_flushes p @ [(pp_next p, AwaitInit)]"
    using False by (simp add: begin_flush_def js_set_absent)
  moreover have "pp_next (begin_flush p) = pp_next p + 1" "pp_buffer (begin_flush p) = pp_buffer p"
    "pp_dropped (begin_flush p) = pp_dropped p" "pp_close (begin_flush p) = pp_close p"
    using False by (simp_all add: begin_flush_def)
  ultimately show ?thesis
    using assms by (auto simp: accounts_def in_flight_def pipe_events flushes_ok_def)
qed

lemma flushes_ok_delete: "flushes_ok p \<Longrightarrow> flushes_ok (end_flush k p)"
  by (auto simp: flushes_ok_def end_flush_def AList.delete_eq distinct_map_filter)

lemma flush_loop_accounts:
  assumes "flushes_ok p" and "js_get (pp_flushes p) k = Some f" and "flush_loop cfg k p = (outs, p')"
  shows "pp_buffer p = removed_events outs @ pp_buffer p' \<and> accepted_events outs = [] \<and> dropped_events outs = []
    \<and> mset (in_flight p) + mset (taken_events outs) = mset (batch_of f) + mset (settled_events outs) + mset (in_flight p')
    \<and> pp_dropped p' = pp_dropped p \<and> flushes_ok p' \<and> pp_close p' = pp_close p"
proof -
  let ?m = "pp_flushes p"
  have wf: "wf_map ?m" using assms(1) by (simp add: flushes_ok_def)
  have here: "mset (in_flight p) = mset (batch_of f) + mset (concat (map (\<lambda>(k, f). batch_of f) (js_delete k ?m)))"
    using in_flight_delete [OF wf, of batch_of k] assms(2) by (simp add: in_flight_bag)
  have set: "mset (concat (map (\<lambda>(k, f). batch_of f) (js_set k (Inserting es) ?m)))
      = mset es + mset (concat (map (\<lambda>(k, f). batch_of f) (js_delete k ?m)))" for es
    using in_flight_set [OF wf, of batch_of k "Inserting es"] by (simp add: batch_of_def)
  have ok: "flushes_ok (p\<lparr>pp_buffer := b, pp_flushes := js_set k x ?m\<rparr>)" for b x
    using assms(1) js_get_dom [OF assms(2)] by (auto simp: flushes_ok_def AList.distinct_update AList.dom_update)
  have del: "flushes_ok (end_flush k (p\<lparr>pp_buffer := b\<rparr>))" "flushes_ok (end_flush k p)" for b
    using flushes_ok_delete [OF assms(1)] flushes_ok_delete [of "p\<lparr>pp_buffer := b\<rparr>"] assms(1) by (simp_all add: flushes_ok_def)
  show ?thesis
    using assms(3) here set ok del
    by (auto simp: flush_loop_def Let_def in_flight_bag end_flush_def pipe_events union_ac split: if_splits)
qed

lemma resume_accounts:
  assumes "flushes_ok p" and "resume_flush cfg k ok p = (outs, p')"
  shows "accounts p outs p' \<and> flushes_ok p' \<and> length (pp_buffer p') \<le> length (pp_buffer p) \<and> pp_close p' = pp_close p"
proof (cases "js_get (pp_flushes p) k")
  case None
  then show ?thesis using assms by (auto simp: resume_flush_def accounts_refl)
next
  case (Some f)
  have wf: "wf_map (pp_flushes p)" using assms(1) by (simp add: flushes_ok_def)
  have here: "mset (in_flight p) = mset (batch_of f) + mset (in_flight (end_flush k p))"
    using in_flight_delete [OF wf, of batch_of k] Some by (simp add: in_flight_bag end_flush_def)
  note fl = flush_loop_accounts [OF assms(1) Some]
  show ?thesis
  proof (cases f)
    case AwaitInit
    then have "mset (batch_of f) = {#}" by (simp add: batch_of_def)
    then show ?thesis
      using assms Some AwaitInit here flushes_ok_delete [OF assms(1), of k] fl [of cfg outs p']
      by (auto simp: resume_flush_def accounts_def pipe_events end_flush_def split: if_splits dest: arg_cong [of _ _ length])
  next
    case (Inserting b)
    then have b: "batch_of f = b" by (simp add: batch_of_def)
    show ?thesis
    proof (cases ok)
      case True
      obtain outs1 where run: "flush_loop cfg k p = (outs1, p')" and outs: "outs = Stored b # outs1"
        using assms(2) Some Inserting True by (auto simp: resume_flush_def split: prod.splits)
      from fl [OF run] show ?thesis
        using b by (auto simp: outs accounts_def union_ac pipe_events)
    next
      case False
      then show ?thesis
        using assms Some Inserting here b flushes_ok_delete [OF assms(1), of k]
        by (auto simp: resume_flush_def accounts_def pipe_events end_flush_def)
    qed
  qed
qed

lemma write_accounts:
  assumes "flushes_ok p" and "pg_writeBatch cfg es p = (Inr outs, p')" and "length (pp_buffer p) \<le> pc_maxBufferSize cfg"
  shows "accounts p outs p' \<and> flushes_ok p' \<and> length (pp_buffer p') \<le> pc_maxBufferSize cfg"
proof (cases "es = []")
  case True
  then show ?thesis using assms by (auto simp: pg_writeBatch_def accounts_refl split: if_splits)
next
  case False
  define excess where "excess = length (pp_buffer p @ es) - pc_maxBufferSize cfg"
  define q where "q = (ensure_init p)\<lparr>pp_buffer := drop excess (pp_buffer p @ es), pp_dropped := pp_dropped p + int excess\<rparr>"
  have outs: "outs = [Accepted es, Dropped (take excess (pp_buffer p @ es))]"
    and p': "p' = (if length (pp_buffer q) \<ge> pc_batchSize cfg then begin_flush q else q)"
    using assms(2) False
    by (simp_all add: pg_writeBatch_def Let_def excess_def q_def del: take_append drop_append split: if_split_asm)
  have "flushes_ok q" using assms(1) by (simp add: flushes_ok_def q_def)
  moreover have "accounts p outs q"
    by (simp add: accounts_def outs pipe_events q_def in_flight_def excess_def del: take_append drop_append)
  moreover have "length (pp_buffer q) \<le> pc_maxBufferSize cfg" by (auto simp: q_def excess_def)
  moreover have "accounts p outs (begin_flush q)" if "flushes_ok q" "accounts p outs q"
    using accounts_trans [OF that(2), of "[]" "begin_flush q"] begin_flush_accounts [OF that(1)] by simp
  ultimately show ?thesis
    using begin_flush_accounts [of q] by (simp add: p')
qed

lemma close_field:
  "accounts p outs (q\<lparr>pp_close := c\<rparr>) = accounts p outs q" "flushes_ok (q\<lparr>pp_close := c\<rparr>) = flushes_ok q"
  by (simp_all add: accounts_def in_flight_def flushes_ok_def)

lemma close_accounts:
  assumes "flushes_ok p"
  shows "accounts p [] (pg_close_pipe p) \<and> flushes_ok (pg_close_pipe p) \<and> pp_buffer (pg_close_pipe p) = pp_buffer p"
proof -
  define q where "q = p\<lparr>pp_timer := False, pp_flushing := False\<rparr>"
  have q: "flushes_ok q" "pp_buffer q = pp_buffer p" using assms by (simp_all add: flushes_ok_def q_def)
  have "accounts p [] q" by (rule accounts_refl) (simp_all add: q_def)
  then have "accounts p [] (begin_flush q)"
    using begin_flush_accounts [OF q(1)] accounts_trans [of p "[]" q "[]" "begin_flush q"] by simp
  moreover have "accounts p [] (p\<lparr>pp_timer := False, pp_pool := False, pp_close := Closed\<rparr>)" by (rule accounts_refl) simp_all
  moreover have "pg_close_pipe p =
      (if pp_close p \<noteq> Open then p
       else if pp_buffer p \<noteq> [] \<and> pp_pool p then (begin_flush q)\<lparr>pp_close := Closing (pp_next p)\<rparr>
       else p\<lparr>pp_timer := False, pp_pool := False, pp_close := Closed\<rparr>)"
    by (simp add: pg_close_pipe_def q_def)
  ultimately show ?thesis
    using begin_flush_accounts [OF q(1)] q(2) assms accounts_refl [of p p] by (simp add: close_field flushes_ok_def)
qed

lemma step_accounts:
  assumes "pipe_step cfg p outs p'" and "flushes_ok p" and "length (pp_buffer p) \<le> pc_maxBufferSize cfg"
  shows "accounts p outs p' \<and> flushes_ok p' \<and> length (pp_buffer p') \<le> pc_maxBufferSize cfg"
  using assms(1)
proof cases
  case (s_write es)
  then show ?thesis using write_accounts [OF assms(2) _ assms(3)] by blast
next
  case s_tick
  then show ?thesis using begin_flush_accounts [OF assms(2)] assms(3) by simp
next
  case s_pool
  then show ?thesis using assms by (simp add: create_pool_def accounts_refl flushes_ok_def)
next
  case (s_init ok)
  then show ?thesis using assms by (simp add: init_done_def accounts_refl flushes_ok_def)
next
  case (s_flush k ok)
  then show ?thesis using resume_accounts [OF assms(2)] assms(3) by fastforce
next
  case s_close
  then show ?thesis using close_accounts [OF assms(2)] assms(3) by simp
next
  case s_end
  then show ?thesis using assms by (simp add: end_pool_def accounts_refl flushes_ok_def split: close_state.split)
qed

lemma run_accounts:
  assumes "pipe_run cfg p outs p'" and "flushes_ok p" and "length (pp_buffer p) \<le> pc_maxBufferSize cfg"
  shows "accounts p outs p' \<and> flushes_ok p' \<and> length (pp_buffer p') \<le> pc_maxBufferSize cfg"
  using assms
proof induction
  case (r_refl p)
  then show ?case by (simp add: accounts_refl)
next
  case (r_step p outs p' outs' p'')
  then show ?case using step_accounts [OF r_step.hyps(2)] accounts_trans by blast
qed

lemma init_ok: "flushes_ok pipe_init" "pp_buffer pipe_init = []" "in_flight pipe_init = []" "pp_dropped pipe_init = 0"
  by (simp_all add: pipe_init_def flushes_ok_def in_flight_def)

text \<open>
  C14. The pipeline accounts for every event. Whatever writes, timers, flushes, failures and close interleave,
  each accepted event is exactly once in the table, in the buffer, in a batch being inserted, dropped for
  want of room, or lost with a failed insert; the counter counts the dropped ones, not the lost ones; and
  the buffer holds no more events than its limit.
\<close>
theorem pipeline_conserves:
  assumes "pipe_run cfg pipe_init outs p"
  shows "mset (accepted_events outs) = mset (stored_events outs) + mset (lost_events outs) + mset (dropped_events outs)
      + mset (in_flight p) + mset (pp_buffer p)
    \<and> pp_dropped p = int (length (dropped_events outs)) \<and> length (pp_buffer p) \<le> pc_maxBufferSize cfg"
proof -
  from run_accounts [OF assms init_ok(1)]
  have acc: "accounts pipe_init outs p" and len: "length (pp_buffer p) \<le> pc_maxBufferSize cfg" by (simp_all add: init_ok)
  then have buf: "mset (accepted_events outs) = mset (removed_events outs) + mset (pp_buffer p)"
    and fl: "mset (taken_events outs) = mset (settled_events outs) + mset (in_flight p)"
    and cnt: "pp_dropped p = int (length (dropped_events outs))"
    by (simp_all add: accounts_def init_ok flip: mset_append)
  show ?thesis
    using buf fl cnt len by (simp add: removed_mset settled_mset union_ac)
qed

definition pipe_event :: "string \<Rightarrow> loc_event" where
  "pipe_event c = \<lparr>le_clientId = c, le_roomId = ''room'', le_latitude = Some 1, le_longitude = Some 2, le_lat = None,
     le_lon = None, le_altitude = None, le_accuracy = None, le_speed = None, le_timestamp = 0, le_point_count = None,
     le_pointCount = None, le_id = c, le_createdAt = 0\<rparr>"

definition pipe_demo_cfg :: pipe_config where
  "pipe_demo_cfg = \<lparr>pc_batchSize = 2, pc_maxBufferSize = 3\<rparr>"

definition pipe_demo_events :: "loc_event list" where
  "pipe_demo_events = map pipe_event [''a'', ''b'', ''c'', ''d'']"

definition pipe_demo :: pipe where
  "pipe_demo = snd (pg_writeBatch pipe_demo_cfg pipe_demo_events pipe_init)"

definition pipe_demo_outs :: "pipe_out list" where
  "pipe_demo_outs = [Accepted pipe_demo_events, Dropped [pipe_event ''a'']]"

lemmas pipe_demo_defs = pipe_demo_def pipe_demo_cfg_def pipe_demo_events_def pipe_demo_outs_def pipe_init_def pg_writeBatch_def
  begin_flush_def ensure_init_def

lemma pipe_demo_run: "pipe_run pipe_demo_cfg pipe_init pipe_demo_outs pipe_demo"
proof -
  have "pg_writeBatch pipe_demo_cfg pipe_demo_events pipe_init = (Inr pipe_demo_outs, pipe_demo)"
    by (simp add: pipe_demo_defs)
  from r_step [OF r_refl s_write [OF this]] show ?thesis by simp
qed

text \<open>Four events into a buffer of three: the first is dropped, the others wait.\<close>

lemma pipeline_conserves_witness:
  "mset (accepted_events pipe_demo_outs) = mset (stored_events pipe_demo_outs) + mset (lost_events pipe_demo_outs)
      + mset (dropped_events pipe_demo_outs) + mset (in_flight pipe_demo) + mset (pp_buffer pipe_demo)
    \<and> pp_dropped pipe_demo = int (length (dropped_events pipe_demo_outs)) \<and> length (pp_buffer pipe_demo) \<le> pc_maxBufferSize pipe_demo_cfg
    \<and> pp_buffer pipe_demo = map pipe_event [''b'', ''c'', ''d'']"
  using pipeline_conserves [OF pipe_demo_run] by (simp add: pipe_demo_defs)

section \<open>Order\<close>

text \<open>While the adapter is open at most one flush is under way, and its batches are settled in order.\<close>

definition solo :: "pipe \<Rightarrow> bool" where
  "solo p \<longleftrightarrow> (pp_flushing p \<and> (\<exists>k f. pp_flushes p = [(k, f)])) \<or> (\<not> pp_flushing p \<and> pp_flushes p = [])"

lemma solo_begin: "solo p \<Longrightarrow> solo (begin_flush p) \<and> in_flight (begin_flush p) = in_flight p"
  by (auto simp: solo_def begin_flush_def in_flight_def)

lemma solo_loop:
  assumes "pp_flushing p" and "pp_flushes p = [(k, f)]" and "flush_loop cfg k p = (outs, p')"
  shows "solo p' \<and> taken_events outs = settled_events outs @ in_flight p'"
  using assms by (auto simp: flush_loop_def Let_def solo_def end_flush_def in_flight_def pipe_events split: if_splits)

lemma solo_resume:
  assumes "solo p" and "resume_flush cfg k ok p = (outs, p')"
  shows "solo p' \<and> in_flight p @ taken_events outs = settled_events outs @ in_flight p'"
proof (cases "js_get (pp_flushes p) k")
  case None
  then show ?thesis using assms by (auto simp: resume_flush_def pipe_events)
next
  case (Some f)
  then have one: "pp_flushing p" "pp_flushes p = [(k, f)]" using assms(1) by (auto simp: solo_def split: if_splits)
  have fl: "in_flight p = batch_of f" by (simp add: in_flight_bag one)
  note loop = solo_loop [OF one]
  show ?thesis
  proof (cases f)
    case AwaitInit
    then have fl: "in_flight p = []" using fl by (simp add: batch_of_def)
    consider (ready) "pp_init p = Ready" | (failed) "pp_init p = InitFailed" | (wait) "pp_init p \<noteq> Ready" "pp_init p \<noteq> InitFailed"
      by blast
    then show ?thesis
    proof cases
      case ready
      then show ?thesis using assms(2) Some AwaitInit fl loop [of cfg outs p'] by (simp add: resume_flush_def)
    next
      case failed
      then show ?thesis
        using assms(2) Some AwaitInit fl by (auto simp: resume_flush_def solo_def end_flush_def one in_flight_def pipe_events)
    next
      case wait
      then have "p' = p" "outs = []" using assms(2) Some AwaitInit by (auto simp: resume_flush_def)
      then show ?thesis using assms(1) fl by (simp add: pipe_events)
    qed
  next
    case (Inserting b)
    show ?thesis
    proof (cases ok)
      case True
      obtain outs1 where run: "flush_loop cfg k p = (outs1, p')" and outs: "outs = Stored b # outs1"
        using assms(2) Some Inserting True by (auto simp: resume_flush_def split: prod.splits)
      from loop [OF run] fl Inserting show ?thesis by (simp add: outs batch_of_def pipe_events)
    next
      case False
      then show ?thesis
        using assms(2) Some Inserting fl
        by (auto simp: resume_flush_def batch_of_def solo_def end_flush_def one in_flight_def pipe_events)
    qed
  qed
qed

lemma solo_step:
  assumes "pipe_step cfg p outs p'" and "pp_close p' = Open" and "pp_close p = Open \<Longrightarrow> solo p"
  shows "pp_close p = Open \<and> solo p' \<and> in_flight p @ taken_events outs = settled_events outs @ in_flight p'"
  using assms(1)
proof cases
  case (s_write es)
  then have "pp_close p = Open" by (auto simp: pg_writeBatch_def split: if_splits)
  moreover from this have "solo p" by (rule assms(3))
  moreover have "solo ((ensure_init p)\<lparr>pp_buffer := b, pp_dropped := d\<rparr>) \<and>
      in_flight ((ensure_init p)\<lparr>pp_buffer := b, pp_dropped := d\<rparr>) = in_flight p" for b d
    using \<open>solo p\<close> by (simp add: solo_def in_flight_def)
  ultimately show ?thesis
    using s_write solo_begin by (auto simp: pg_writeBatch_def Let_def pipe_events split: if_splits)
next
  case s_tick
  then have "pp_close p = Open" using assms(2) by (auto simp: begin_flush_def split: if_splits)
  then show ?thesis using s_tick solo_begin [OF assms(3)] by (simp add: pipe_events)
next
  case s_pool
  then show ?thesis using assms(2,3) by (auto simp: create_pool_def pipe_events solo_def in_flight_def split: if_splits)
next
  case (s_init ok)
  then show ?thesis using assms(2,3) by (auto simp: init_done_def pipe_events solo_def in_flight_def split: if_splits)
next
  case (s_flush k ok)
  then have "pp_close p = Open"
    using assms(2) by (auto simp: resume_flush_def flush_loop_def end_flush_def Let_def split: option.splits flush_state.splits if_splits prod.splits)
  then show ?thesis using solo_resume [OF assms(3) s_flush] by simp
next
  case s_close
  then have False using assms(2) by (auto simp: pg_close_pipe_def Let_def split: if_splits)
  then show ?thesis ..
next
  case s_end
  then show ?thesis using assms(2,3) by (auto simp: end_pool_def pipe_events split: close_state.splits if_splits)
qed

lemma solo_run:
  assumes "pipe_run cfg pipe_init outs p" and "pp_close p = Open"
  shows "solo p \<and> taken_events outs = settled_events outs @ in_flight p"
  using assms
proof (induction pipe_init outs p)
  case r_refl
  show ?case by (simp add: solo_def pipe_init_def in_flight_def pipe_events)
next
  case (r_step outs p outs' p')
  have solo: "pp_close p = Open \<Longrightarrow> solo p" using r_step.hyps(2) by blast
  from solo_step [OF r_step.hyps(3) r_step.prems solo] r_step.hyps(2) show ?case by auto
qed

text \<open>
  C21. Rows are stored in the order of arrival. Until the adapter is closed, the table is a subsequence of the
  accepted events: batches never overtake each other, and nothing is stored twice.
\<close>
theorem rows_in_order:
  assumes "pipe_run cfg pipe_init outs p" and "pp_close p = Open"
  shows "subseq (stored_events outs) (accepted_events outs)"
proof -
  have "taken_events outs = settled_events outs @ in_flight p" using solo_run [OF assms] by simp
  then have "subseq (settled_events outs) (taken_events outs)" by (simp add: prefix_imp_subseq)
  moreover have "accepted_events outs = removed_events outs @ pp_buffer p"
    using run_accounts [OF assms(1) init_ok(1)] by (simp add: accounts_def init_ok)
  then have "subseq (removed_events outs) (accepted_events outs)" by (simp add: prefix_imp_subseq)
  ultimately show ?thesis
    using stored_subseq [of outs] taken_subseq [of outs] by (meson subseq_order.trans)
qed

text \<open>The same batch, its flush resumed twice after the connection is ready: two events are in the table.\<close>

definition pipe_ready :: pipe where
  "pipe_ready = init_done True (create_pool pipe_demo)"

definition pipe_stored :: "pipe_out list \<times> pipe" where
  "pipe_stored = (let (o1, p1) = resume_flush pipe_demo_cfg 0 True pipe_ready; (o2, p2) = resume_flush pipe_demo_cfg 0 True p1
     in (pipe_demo_outs @ o1 @ o2, p2))"

lemma pipe_stored_run: "pipe_run pipe_demo_cfg pipe_init (fst pipe_stored) (snd pipe_stored)"
proof -
  obtain o1 p1 where one: "resume_flush pipe_demo_cfg 0 True pipe_ready = (o1, p1)" by fastforce
  obtain o2 p2 where two: "resume_flush pipe_demo_cfg 0 True p1 = (o2, p2)" by fastforce
  have "pipe_run pipe_demo_cfg pipe_init pipe_demo_outs pipe_ready"
    using r_step [OF r_step [OF pipe_demo_run s_pool] s_init] by (simp add: pipe_ready_def)
  from r_step [OF r_step [OF this s_flush [OF one]] s_flush [OF two]] show ?thesis
    by (simp add: pipe_stored_def one two)
qed

lemma rows_in_order_witness:
  "subseq (stored_events (fst pipe_stored)) (accepted_events (fst pipe_stored))
    \<and> stored_events (fst pipe_stored) = map pipe_event [''b'', ''c'']"
proof -
  have "pp_close (snd pipe_stored) = Open"
    by (simp add: pipe_stored_def pipe_ready_def create_pool_def init_done_def resume_flush_def flush_loop_def Let_def pipe_demo_defs end_flush_def)
  from rows_in_order [OF pipe_stored_run this] show ?thesis
    by (simp add: pipe_stored_def pipe_ready_def create_pool_def init_done_def resume_flush_def flush_loop_def Let_def pipe_demo_defs pipe_events)
qed

section \<open>Draining\<close>

lemma run_step:
  assumes "pipe_step cfg p outs p'" and "pipe_run cfg p' outs' p''"
  shows "pipe_run cfg p (outs @ outs') p''"
  using assms(2,1)
proof induction
  case (r_refl q)
  then show ?case using pipe_run.r_step [OF pipe_run.r_refl] by fastforce
next
  case (r_step q outs' q' outs'' q'')
  then show ?case using pipe_run.r_step by fastforce
qed

text \<open>The number of inserts that succeeded.\<close>

definition inserts :: "pipe_out list \<Rightarrow> nat" where
  "inserts outs = length (filter (\<lambda>x. case x of Stored es \<Rightarrow> True | _ \<Rightarrow> False) outs)"

definition batches :: "pipe_config \<Rightarrow> nat \<Rightarrow> nat" where
  "batches cfg n = (n + pc_batchSize cfg - 1) div pc_batchSize cfg"

lemma batches_rec: "0 < pc_batchSize cfg \<Longrightarrow> 0 < n \<Longrightarrow> batches cfg n = 1 + batches cfg (n - pc_batchSize cfg)"
  using div_add_self1 [of "pc_batchSize cfg" "n - 1"]
  by (cases "n \<le> pc_batchSize cfg") (simp_all add: batches_def add.commute)

lemma batches_0: "0 < pc_batchSize cfg \<Longrightarrow> batches cfg 0 = 0"
  by (simp add: batches_def)

text \<open>
  A flush left to itself: its awaits end, each insert succeeds, and the timer ticks in between. Writes and
  \<open>close\<close> stay away.
\<close>

datatype move = Tick | Resume

fun left_alone :: "pipe_config \<Rightarrow> nat \<Rightarrow> move list \<Rightarrow> pipe \<Rightarrow> pipe_out list \<times> pipe" where
  "left_alone cfg k [] p = ([], p)"
| "left_alone cfg k (Tick # ms) p = left_alone cfg k ms (if pp_timer p then begin_flush p else p)"
| "left_alone cfg k (Resume # ms) p =
     (let (outs, p1) = resume_flush cfg k True p; (outs', p2) = left_alone cfg k ms p1 in (outs @ outs', p2))"

definition resumes_in :: "move list \<Rightarrow> nat" where
  "resumes_in ms = length (filter (\<lambda>m. m = Resume) ms)"

lemma resumes_in_simps [simp]:
  "resumes_in [] = 0" "resumes_in (Tick # ms) = resumes_in ms" "resumes_in (Resume # ms) = Suc (resumes_in ms)"
  by (simp_all add: resumes_in_def)

lemma left_alone_run: "left_alone cfg k ms p = (outs, p') \<Longrightarrow> pipe_run cfg p outs p'"
proof (induction cfg k ms p arbitrary: outs p' rule: left_alone.induct)
  case (2 cfg k ms p)
  then have "pipe_run cfg (if pp_timer p then begin_flush p else p) outs p'" by simp
  then show ?case using run_step [OF s_tick [of p cfg]] by (cases "pp_timer p") fastforce+
next
  case (3 cfg k ms p)
  obtain o1 p1 where r: "resume_flush cfg k True p = (o1, p1)" by fastforce
  obtain o2 p2 where l: "left_alone cfg k ms p1 = (o2, p2)" by fastforce
  with 3 r have "outs = o1 @ o2" "p' = p2" "pipe_run cfg p1 o2 p2" by auto
  then show ?case using run_step [OF s_flush [OF r]] by simp
qed (simp add: r_refl)

text \<open>After its end nothing moves; before, the timer changes nothing.\<close>

lemma left_alone_ended:
  "pp_buffer p = [] \<Longrightarrow> js_get (pp_flushes p) k = None \<Longrightarrow> left_alone cfg k ms p = ([], p)"
proof (induction ms)
  case (Cons m ms)
  then show ?case by (cases m) (simp_all add: begin_flush_def resume_flush_def)
qed simp

lemma end_flush_gone: "js_get (pp_flushes (end_flush k p)) k = None" "pp_buffer (end_flush k p) = pp_buffer p"
  "\<not> pp_flushing (end_flush k p)"
  by (simp_all add: end_flush_def)

lemma batches_cover: "0 < pc_batchSize cfg \<Longrightarrow> n \<le> pc_batchSize cfg * batches cfg n"
  using dividend_less_times_div [of "pc_batchSize cfg" "n + pc_batchSize cfg - 1"] by (simp add: batches_def)

lemma drain:
  assumes "0 < pc_batchSize cfg" and "pp_pool p" and "pp_flushing p" and "js_get (pp_flushes p) k = Some (Inserting b)"
    and "left_alone cfg k ms p = (outs, p')" and "n = batches cfg (length (pp_buffer p))"
  shows "stored_events outs = (if resumes_in ms = 0 then [] else b @ take (pc_batchSize cfg * (resumes_in ms - 1)) (pp_buffer p))
    \<and> lost_events outs = [] \<and> inserts outs = min (resumes_in ms) (1 + n)
    \<and> (if resumes_in ms \<le> n then pp_flushing p'
       else pp_buffer p' = [] \<and> js_get (pp_flushes p') k = None \<and> \<not> pp_flushing p')"
  using assms(2-)
proof (induction ms arbitrary: p b outs n)
  case Nil
  then show ?case by (simp add: pipe_events inserts_def)
next
  case (Cons m ms)
  show ?case
  proof (cases m)
    case Tick
    then have "left_alone cfg k ms p = (outs, p')" using Cons.prems by (simp add: begin_flush_def split: if_splits)
    from Cons.IH [OF Cons.prems(1-3) this Cons.prems(5)] show ?thesis by (simp add: Tick)
  next
    case Resume
    show ?thesis
    proof (cases "pp_buffer p = []")
      case True
      then have step: "resume_flush cfg k True p = ([Stored b], end_flush k p)"
        using Cons.prems by (simp add: resume_flush_def flush_loop_def)
      have "left_alone cfg k ms (end_flush k p) = ([], end_flush k p)"
        using True by (intro left_alone_ended) (simp_all add: end_flush_gone)
      then have "outs = [Stored b]" "p' = end_flush k p" using Cons.prems(4) by (simp_all add: Resume step)
      then show ?thesis
        using True assms(1) Cons.prems(5) by (simp add: Resume pipe_events inserts_def batches_0 end_flush_gone)
    next
      case False
      let ?n = "pc_batchSize cfg"
      define q where "q = p\<lparr>pp_buffer := drop ?n (pp_buffer p), pp_flushes := js_set k (Inserting (take ?n (pp_buffer p))) (pp_flushes p)\<rparr>"
      have step: "resume_flush cfg k True p = ([Stored b, Taken (take ?n (pp_buffer p))], q)"
        using False Cons.prems by (simp add: resume_flush_def flush_loop_def Let_def q_def)
      obtain outs1 where l: "left_alone cfg k ms q = (outs1, p')" and outs: "outs = [Stored b, Taken (take ?n (pp_buffer p))] @ outs1"
        using Cons.prems(4) by (auto simp: Resume step split: prod.splits)
      have n: "n = 1 + batches cfg (length (pp_buffer q))"
        using batches_rec [OF assms(1), of "length (pp_buffer p)"] False Cons.prems(5) by (simp add: q_def)
      have "pp_pool q" "pp_flushing q" "js_get (pp_flushes q) k = Some (Inserting (take ?n (pp_buffer p)))"
        using Cons.prems(1,2) by (simp_all add: q_def)
      note rest = Cons.IH [OF this l refl]
      have "take ?n (pp_buffer p) @ take (?n * (resumes_in ms - 1)) (drop ?n (pp_buffer p)) = take (?n * resumes_in ms) (pp_buffer p)"
        if "resumes_in ms \<noteq> 0"
        using that by (cases "resumes_in ms") (simp_all add: take_add)
      then show ?thesis using rest n by (auto simp: Resume outs pipe_events inserts_def q_def)
    qed
  qed
qed

lemma drain_waiting:
  assumes "0 < pc_batchSize cfg" and "pp_init p = Ready" and "pp_pool p" and "pp_flushing p"
    and "js_get (pp_flushes p) k = Some AwaitInit"
    and "left_alone cfg k ms p = (outs, p')" and "n = batches cfg (length (pp_buffer p))"
  shows "stored_events outs = take (pc_batchSize cfg * (resumes_in ms - 1)) (pp_buffer p) \<and> lost_events outs = []
    \<and> inserts outs = min (resumes_in ms - 1) n
    \<and> (if resumes_in ms \<le> n then pp_flushing p'
       else pp_buffer p' = [] \<and> js_get (pp_flushes p') k = None \<and> \<not> pp_flushing p')
    \<or> resumes_in ms = 0 \<and> outs = [] \<and> p' = p"
  using assms(2-)
proof (induction ms arbitrary: outs)
  case Nil
  then show ?case by simp
next
  case (Cons m ms)
  show ?case
  proof (cases m)
    case Tick
    then have "left_alone cfg k ms p = (outs, p')" using Cons.prems by (simp add: begin_flush_def split: if_splits)
    from Cons.IH [OF Cons.prems(1-4) this Cons.prems(6)] show ?thesis by (simp add: Tick)
  next
    case Resume
    show ?thesis
    proof (cases "pp_buffer p = []")
      case True
      then have step: "resume_flush cfg k True p = ([], end_flush k p)"
        using Cons.prems by (simp add: resume_flush_def flush_loop_def)
      have "left_alone cfg k ms (end_flush k p) = ([], end_flush k p)"
        using True by (intro left_alone_ended) (simp_all add: end_flush_gone)
      then have "outs = []" "p' = end_flush k p" using Cons.prems(5) by (simp_all add: Resume step)
      then show ?thesis
        using True assms(1) Cons.prems(6) by (simp add: Resume pipe_events inserts_def batches_0 end_flush_gone)
    next
      case False
      let ?n = "pc_batchSize cfg"
      define q where "q = p\<lparr>pp_buffer := drop ?n (pp_buffer p), pp_flushes := js_set k (Inserting (take ?n (pp_buffer p))) (pp_flushes p)\<rparr>"
      have step: "resume_flush cfg k True p = ([Taken (take ?n (pp_buffer p))], q)"
        using False Cons.prems by (simp add: resume_flush_def flush_loop_def Let_def q_def)
      obtain outs1 where l: "left_alone cfg k ms q = (outs1, p')" and outs: "outs = Taken (take ?n (pp_buffer p)) # outs1"
        using Cons.prems(5) by (auto simp: Resume step split: prod.splits)
      have n: "n = 1 + batches cfg (length (pp_buffer q))"
        using batches_rec [OF assms(1), of "length (pp_buffer p)"] False Cons.prems(6) by (simp add: q_def)
      have "pp_pool q" "pp_flushing q" "js_get (pp_flushes q) k = Some (Inserting (take ?n (pp_buffer p)))"
        using Cons.prems(2,3) by (simp_all add: q_def)
      note rest = drain [OF assms(1) this l refl]
      have "take ?n (pp_buffer p) @ take (?n * (resumes_in ms - 1)) (drop ?n (pp_buffer p)) = take (?n * resumes_in ms) (pp_buffer p)"
        if "resumes_in ms \<noteq> 0"
        using that by (cases "resumes_in ms") (simp_all add: take_add)
      then show ?thesis using rest n by (auto simp: Resume outs pipe_events inserts_def q_def)
    qed
  qed
qed

text \<open>
  C22. A flush empties the buffer. Once the connection is ready, a waiting flush, left to itself with
  inserts that succeed, however often the timer ticks meanwhile, stores the buffered events batch by
  batch in order: after its \<open>r\<close>-th await it has stored the first \<open>r - 1\<close> batches and lost nothing. It holds
  the lock until the buffer is empty, and after one await more than there are batches it has ended, with
  everything stored in as few inserts as the batch size allows, an empty buffer and the lock free. This
  needs a positive batch size.
\<close>
theorem flush_drains:
  assumes "0 < pc_batchSize cfg" and "pp_init p = Ready" and "pp_pool p" and "pp_flushing p"
    and "js_get (pp_flushes p) k = Some AwaitInit"
    and "left_alone cfg k ms p = (outs, p')" and "n = batches cfg (length (pp_buffer p))"
  shows "pipe_run cfg p outs p'
    \<and> stored_events outs = take (pc_batchSize cfg * (resumes_in ms - 1)) (pp_buffer p) \<and> lost_events outs = []
    \<and> (resumes_in ms \<le> n \<longrightarrow> pp_flushing p')
    \<and> (n < resumes_in ms \<longrightarrow> stored_events outs = pp_buffer p \<and> inserts outs = n \<and> pp_buffer p' = []
        \<and> js_get (pp_flushes p') k = None \<and> \<not> pp_flushing p')"
proof -
  have "pp_buffer p = take (pc_batchSize cfg * (resumes_in ms - 1)) (pp_buffer p)" if "n < resumes_in ms"
  proof -
    have "length (pp_buffer p) \<le> pc_batchSize cfg * n" using batches_cover [OF assms(1)] by (simp add: assms(7))
    also have "\<dots> \<le> pc_batchSize cfg * (resumes_in ms - 1)" using that by (intro mult_le_mono2) simp
    finally show ?thesis by simp
  qed
  with drain_waiting [OF assms] left_alone_run [OF assms(6)] assms(4) show ?thesis
    by (auto simp: pipe_events split: if_splits)
qed

lemma flush_drains_witness:
  "stored_events (fst (left_alone pipe_demo_cfg 0 [Tick, Resume, Tick, Resume, Resume, Tick] pipe_ready)) = pp_buffer pipe_ready
    \<and> \<not> pp_flushing (snd (left_alone pipe_demo_cfg 0 [Tick, Resume, Tick, Resume, Resume, Tick] pipe_ready))
    \<and> inserts (fst (left_alone pipe_demo_cfg 0 [Tick, Resume, Tick, Resume, Resume, Tick] pipe_ready)) = 2"
proof -
  have ready: "pp_init pipe_ready = Ready" "pp_pool pipe_ready" "pp_flushing pipe_ready"
    "js_get (pp_flushes pipe_ready) 0 = Some AwaitInit" "0 < pc_batchSize pipe_demo_cfg"
    "batches pipe_demo_cfg (length (pp_buffer pipe_ready)) = 2"
    by (simp_all add: pipe_ready_def create_pool_def init_done_def pipe_demo_defs batches_def)
  have "2 < resumes_in [Tick, Resume, Tick, Resume, Resume, Tick]" by simp
  with flush_drains [OF ready(5,1,2,3,4) prod.collapse [symmetric] refl, unfolded ready(6), of "[Tick, Resume, Tick, Resume, Resume, Tick]"]
  show ?thesis by blast
qed

text \<open>With a batch size of 0 a flush that finds events inserts empty batches and keeps every event: it never ends.\<close>

lemma empty_batches:
  assumes "pc_batchSize cfg = 0" and "pp_pool p" and "pp_buffer p \<noteq> []" and "js_get (pp_flushes p) k = Some (Inserting [])"
  shows "\<exists>p'. resume_flush cfg k True p = ([Stored [], Taken []], p') \<and> pp_pool p' \<and> pp_buffer p' = pp_buffer p
    \<and> js_get (pp_flushes p') k = Some (Inserting [])"
  using assms by (simp add: resume_flush_def flush_loop_def Let_def)

end
