(* ===== verification/PgCompaction.thy ===== *)
theory PgCompaction
  imports MemoryStorage PgRows
begin

text \<open>
  The tables of \<open>PostgresAdapter\<close> in \<open>src/storage/postgres.js\<close>: the partitioned raw events, the three tiers
  its compaction computes from them, and the queries that read them.

  \<^item> Each SQL text is a function on the tables, with the semantics PostgreSQL documents for it: \<open>NULL\<close> is
    \<open>None\<close>, aggregates skip nulls, a table with a primary key is a map. The session runs in UTC.
  \<^item> Coordinates are exact reals and times integer milliseconds, as for the memory adapter. Ids and
    creation times the database generates are left out, and so is the route geometry, which is never set.
  \<^item> A query visits the rows of a table in any order (\<open>scans\<close>), so rows that tie under \<open>ORDER BY\<close> come
    out in any order, and \<open>LIMIT\<close> cuts among them anywhere.
  \<^item> The clock is \<open>now\<close>, at the end of a compaction \<open>done\<close>; \<open>ok\<close> tells which statements succeed.
\<close>

section \<open>Tables\<close>

record raw_row =
  rr_clientId :: string
  rr_roomId :: string
  rr_lat :: real
  rr_lon :: real
  rr_altitude :: "real option"
  rr_accuracy :: "real option"
  rr_speed :: "real option"
  rr_time :: time

record minute_cells =
  m1_lat :: real
  m1_lon :: real
  m1_altitude :: "real option"
  m1_accuracy :: "real option"
  m1_speed :: "real option"
  m1_count :: int

record hour_cells =
  h1_lat :: real
  h1_lon :: real
  h1_altitude :: "real option"
  h1_accuracy :: "real option"
  h1_avg_speed :: "real option"
  h1_max_speed :: "real option"
  h1_min_speed :: "real option"
  h1_distance :: real
  h1_count :: int

record day_cells =
  d1_lat :: real
  d1_lon :: real
  d1_count :: int
  d1_distance :: real

type_synonym tier_key = "string \<times> time"

record pg_result =
  pr_rawDeleted :: int
  pr_downsample1m :: int
  pr_aggregate1h :: int
  pr_aggregate1d :: int
  pr_durationMs :: int
  pr_error :: "string option"

record status_row =
  sr_last_run :: "time option"
  sr_next_run :: "time option"
  sr_last_result :: "pg_result option"

text \<open>Partitions are named by their day, counted from the epoch.\<close>

record loc_tables =
  lt_partitions :: "int list"
  lt_raw :: "raw_row list"
  lt_1m :: "(tier_key, minute_cells) jsmap"
  lt_1h :: "(tier_key, hour_cells) jsmap"
  lt_1d :: "(tier_key, day_cells) jsmap"
  lt_status :: status_row

definition utc_day :: "time \<Rightarrow> int" where
  "utc_day t = t div 86400000"

section \<open>Partitions\<close>

definition create_daily_partition :: "int \<Rightarrow> loc_tables \<Rightarrow> loc_tables" where
  "create_daily_partition d db =
     (if d \<in> set (lt_partitions db) then db else db\<lparr>lt_partitions := lt_partitions db @ [d]\<rparr>)"

text \<open>The tables as a first start leaves them: partitions for today and the next 30 days.\<close>

definition schema_init :: "time \<Rightarrow> loc_tables \<Rightarrow> loc_tables" where
  "schema_init now db = fold create_daily_partition (map (\<lambda>i. utc_day now + int i) [0..<31]) db"

definition empty_tables :: loc_tables where
  "empty_tables = \<lparr>lt_partitions = [], lt_raw = [], lt_1m = [], lt_1h = [], lt_1d = [],
     lt_status = \<lparr>sr_last_run = None, sr_next_run = None, sr_last_result = None\<rparr>\<rparr>"

text \<open>The row \<open>_insertBatch\<close> makes of an event; a missing coordinate violates \<open>NOT NULL\<close>.\<close>

definition raw_of :: "loc_event \<Rightarrow> raw_row option" where
  "raw_of e =
     (case (event_lat e, event_lon e) of
        (Some lat, Some lon) \<Rightarrow>
          Some \<lparr>rr_clientId = le_clientId e, rr_roomId = le_roomId e, rr_lat = lat, rr_lon = lon,
                rr_altitude = le_altitude e, rr_accuracy = le_accuracy e, rr_speed = le_speed e, rr_time = le_timestamp e\<rparr>
      | _ \<Rightarrow> None)"

text \<open>
  The insert of a row: it is routed to the partition of its day, and only then does the trigger run, which
  creates that partition. Without one the statement fails.
\<close>

definition insert_row :: "raw_row \<Rightarrow> loc_tables \<Rightarrow> loc_tables option" where
  "insert_row r db =
     (if utc_day (rr_time r) \<notin> set (lt_partitions db) then None
      else let db1 = create_daily_partition (utc_day (rr_time r)) db in Some (db1\<lparr>lt_raw := lt_raw db1 @ [r]\<rparr>))"

fun insert_events :: "loc_event list \<Rightarrow> loc_tables \<Rightarrow> loc_tables option" where
  "insert_events [] db = Some db"
| "insert_events (e # es) db =
     (case raw_of e of
        None \<Rightarrow> None
      | Some r \<Rightarrow> (case insert_row r db of None \<Rightarrow> None | Some db' \<Rightarrow> insert_events es db'))"

text \<open>
  \<open>drop_old_raw_partitions\<close>: the rows it returns name the partition and how many rows it had. Each partition
  is dropped in a block of its own: when the block of day \<open>d\<close> raises an error (\<open>\<not> drops d\<close>), what it did is
  undone, the partition stays, and the loop goes on.
\<close>

definition drop_old_raw_partitions :: "(int \<Rightarrow> bool) \<Rightarrow> time \<Rightarrow> int \<Rightarrow> loc_tables \<Rightarrow> (int \<times> int) list \<times> loc_tables" where
  "drop_old_raw_partitions drops now retention_days db =
     (let cutoff_date = utc_day now - retention_days;
          old = filter (\<lambda>d. d < cutoff_date \<and> drops d) (lt_partitions db)
      in (map (\<lambda>d. (d, int (length (filter (\<lambda>r. utc_day (rr_time r) = d) (lt_raw db))))) old,
          db\<lparr>lt_partitions := filter (\<lambda>d. d \<notin> set old) (lt_partitions db),
             lt_raw := filter (\<lambda>r. utc_day (rr_time r) \<notin> set old) (lt_raw db)\<rparr>))"

section \<open>Aggregates\<close>

definition group_rows :: "('r \<Rightarrow> 'k) \<Rightarrow> 'r list \<Rightarrow> ('k \<times> 'r list) list" where
  "group_rows key rows = map (\<lambda>k. (k, filter (\<lambda>r. key r = k) rows)) (remdups (map key rows))"

definition percentile_disc_half :: "real list \<Rightarrow> real" where
  "percentile_disc_half xs = sort xs ! ((length xs - 1) div 2)"

definition sql_avg :: "real list \<Rightarrow> real" where
  "sql_avg xs = sum_list xs / real (length xs)"

definition present :: "'a option list \<Rightarrow> 'a list" where
  "present xs = map the (filter (\<lambda>x. x \<noteq> None) xs)"

definition null_avg :: "real option list \<Rightarrow> real option" where
  "null_avg xs = (if present xs = [] then None else Some (sql_avg (present xs)))"

definition null_max :: "real option list \<Rightarrow> real option" where
  "null_max xs = (if present xs = [] then None else Some (fold max (tl (present xs)) (hd (present xs))))"

definition null_min :: "real option list \<Rightarrow> real option" where
  "null_min xs = (if present xs = [] then None else Some (fold min (tl (present xs)) (hd (present xs))))"

text \<open>\<open>ON CONFLICT (room_id, bucket) DO UPDATE\<close> of every row of a result.\<close>

definition upsert_all :: "(tier_key \<times> 'c) list \<Rightarrow> (tier_key, 'c) jsmap \<Rightarrow> (tier_key, 'c) jsmap" where
  "upsert_all rows t = fold (\<lambda>(k, c) t. js_set k c t) rows t"

section \<open>Tiers\<close>

definition raw_key :: "raw_row \<Rightarrow> tier_key" where
  "raw_key r = (rr_roomId r, truncateToMinute (rr_time r))"

definition minute_of :: "raw_row list \<Rightarrow> minute_cells" where
  "minute_of rs = \<lparr>m1_lat = percentile_disc_half (map rr_lat rs), m1_lon = percentile_disc_half (map rr_lon rs),
     m1_altitude = null_avg (map rr_altitude rs), m1_accuracy = null_avg (map rr_accuracy rs),
     m1_speed = null_max (map rr_speed rs), m1_count = int (length rs)\<rparr>"

definition DOWNSAMPLE_1M :: "time \<Rightarrow> time \<Rightarrow> loc_tables \<Rightarrow> int \<times> loc_tables" where
  "DOWNSAMPLE_1M lo hi db =
     (let rows = map (\<lambda>(k, rs). (k, minute_of rs))
            (group_rows raw_key (filter (\<lambda>r. rr_time r \<ge> lo \<and> rr_time r < hi) (lt_raw db)))
      in (int (length rows), db\<lparr>lt_1m := upsert_all rows (lt_1m db)\<rparr>))"

definition hour_of_key :: "tier_key \<times> minute_cells \<Rightarrow> tier_key" where
  "hour_of_key = (\<lambda>((room, bucket), c). (room, truncateToHour bucket))"

text \<open>The row of \<open>hourly\<close> for one group; the distance is added by \<open>ordered\<close>.\<close>

definition hour_of :: "minute_cells list \<Rightarrow> hour_cells" where
  "hour_of cs = \<lparr>h1_lat = sql_avg (map m1_lat cs), h1_lon = sql_avg (map m1_lon cs),
     h1_altitude = null_avg (map m1_altitude cs), h1_accuracy = null_avg (map m1_accuracy cs),
     h1_avg_speed = null_avg (map m1_speed cs), h1_max_speed = null_max (map m1_speed cs),
     h1_min_speed = null_min (map m1_speed cs), h1_distance = 0, h1_count = sum_list (map m1_count cs)\<rparr>"

definition hourly_rows :: "time \<Rightarrow> time \<Rightarrow> (tier_key, minute_cells) jsmap \<Rightarrow> (tier_key \<times> hour_cells) list" where
  "hourly_rows lo hi t = map (\<lambda>(k, rs). (k, hour_of (map snd rs)))
     (group_rows hour_of_key (filter (\<lambda>((room, bucket), c). bucket \<ge> lo \<and> bucket < hi) t))"

text \<open>
  \<open>ordered\<close> with its \<open>LAG\<close> columns: a room's rows by bucket, each with the row before it; and the sum the
  statement takes for a row, over the rows of its room up to its own bucket.
\<close>

definition room_hours :: "string \<Rightarrow> (tier_key \<times> hour_cells) list \<Rightarrow> (tier_key \<times> hour_cells) list" where
  "room_hours room hs = sort_key (snd \<circ> fst) (filter (\<lambda>(k, h). fst k = room) hs)"

definition lagged :: "'a list \<Rightarrow> ('a option \<times> 'a) list" where
  "lagged xs = zip (None # map Some xs) xs"

definition leg :: "(tier_key \<times> hour_cells) option \<times> (tier_key \<times> hour_cells) \<Rightarrow> real" where
  "leg = (\<lambda>(prev, (k, h)). case prev of None \<Rightarrow> 0 | Some (j, g) \<Rightarrow> haversine (h1_lat g) (h1_lon g) (h1_lat h) (h1_lon h))"

definition hour_distance :: "(tier_key \<times> hour_cells) list \<Rightarrow> tier_key \<Rightarrow> real" where
  "hour_distance hs k = sum_list (map leg
     (filter (\<lambda>(prev, (j, h)). snd j \<le> snd k \<and> prev \<noteq> None) (lagged (room_hours (fst k) hs))))"

definition AGGREGATE_1H :: "time \<Rightarrow> time \<Rightarrow> loc_tables \<Rightarrow> int \<times> loc_tables" where
  "AGGREGATE_1H lo hi db =
     (let hs = hourly_rows lo hi (lt_1m db);
          rows = map (\<lambda>(k, h). (k, h\<lparr>h1_distance := hour_distance hs k\<rparr>)) hs
      in (int (length rows), db\<lparr>lt_1h := upsert_all rows (lt_1h db)\<rparr>))"

definition day_of_key :: "tier_key \<times> hour_cells \<Rightarrow> tier_key" where
  "day_of_key = (\<lambda>((room, bucket), c). (room, truncateToDay bucket))"

definition day_cells_of :: "hour_cells list \<Rightarrow> day_cells" where
  "day_cells_of cs = \<lparr>d1_lat = sql_avg (map h1_lat cs), d1_lon = sql_avg (map h1_lon cs),
     d1_count = sum_list (map h1_count cs), d1_distance = sum_list (map h1_distance cs)\<rparr>"

definition AGGREGATE_1D :: "time \<Rightarrow> time \<Rightarrow> loc_tables \<Rightarrow> int \<times> loc_tables" where
  "AGGREGATE_1D lo hi db =
     (let rows = map (\<lambda>(k, rs). (k, day_cells_of (map snd rs)))
            (group_rows day_of_key (filter (\<lambda>((room, bucket), c). bucket \<ge> lo \<and> bucket < hi) (lt_1h db)))
      in (int (length rows), db\<lparr>lt_1d := upsert_all rows (lt_1d db)\<rparr>))"

definition trim_tier :: "time \<Rightarrow> (tier_key, 'c) jsmap \<Rightarrow> (tier_key, 'c) jsmap" where
  "trim_tier limit t = filter (\<lambda>((room, bucket), c). \<not> bucket < limit) t"

section \<open>Compaction\<close>

record compactor =
  cp_tables :: loc_tables
  cp_retention :: retention
  cp_interval :: int
  cp_compacting :: bool
  cp_lastResult :: "pg_result option"
  cp_lastRun :: "time option"
  cp_nextRun :: "time option"
  cp_closed :: bool

text \<open>
  The defaults of the parameters are numbers, so a call without arguments is a call with 7, 90, 365 and
  2555 days. An argument that is neither object nor number leaves the configured retention.
\<close>

definition pg_retention :: "retention \<Rightarrow> compact_args \<Rightarrow> retention" where
  "pg_retention own args =
     (case args of
        RetentionObject r m h d \<Rightarrow>
          \<lparr>rawRetentionDays = option_or r (rawRetentionDays own),
           downsample1mRetentionDays = option_or m (downsample1mRetentionDays own),
           downsample1hRetentionDays = option_or h (downsample1hRetentionDays own),
           aggregate1dRetentionDays = option_or d (aggregate1dRetentionDays own)\<rparr>
      | RetentionDays r m h d \<Rightarrow>
          \<lparr>rawRetentionDays = r, downsample1mRetentionDays = option_or m 90,
           downsample1hRetentionDays = option_or h 365, aggregate1dRetentionDays = option_or d 2555\<rparr>
      | RetentionOther \<Rightarrow> own)"

definition no_args :: compact_args where
  "no_args = RetentionDays 7 None None None"

text \<open>The statements of a compaction; \<open>DropDay d\<close> is the block of a partition within the first.\<close>

datatype phase = DropRaw | DropDay int | Down1m | Agg1h | Agg1d | Trim1m | Trim1h | Trim1d | SaveStatus

text \<open>A statement that fails is logged: its count stays 0 and the tables as they are.\<close>

definition run_phase :: "bool \<Rightarrow> (loc_tables \<Rightarrow> int \<times> loc_tables) \<Rightarrow> loc_tables \<Rightarrow> int \<times> loc_tables" where
  "run_phase good f db = (if good then f db else (0, db))"

definition drop_phase :: "(phase \<Rightarrow> bool) \<Rightarrow> time \<Rightarrow> int \<Rightarrow> loc_tables \<Rightarrow> int \<times> loc_tables" where
  "drop_phase ok now days db =
     (let (rows, db') = drop_old_raw_partitions (\<lambda>d. ok (DropDay d)) now days db in (sum_list (map snd rows), db'))"

text \<open>The three deletes share one \<open>try\<close>: after a failure the rest is skipped.\<close>

definition trim_phase :: "(phase \<Rightarrow> bool) \<Rightarrow> time \<Rightarrow> retention \<Rightarrow> loc_tables \<Rightarrow> loc_tables" where
  "trim_phase ok now ret db =
     (if \<not> ok Trim1m then db
      else let db1 = db\<lparr>lt_1m := trim_tier (cutoff now (downsample1mRetentionDays ret)) (lt_1m db)\<rparr>
           in if \<not> ok Trim1h then db1
              else let db2 = db1\<lparr>lt_1h := trim_tier (cutoff now (downsample1hRetentionDays ret)) (lt_1h db1)\<rparr>
                   in if \<not> ok Trim1d then db2
                      else db2\<lparr>lt_1d := trim_tier (cutoff now (aggregate1dRetentionDays ret)) (lt_1d db2)\<rparr>)"

definition compact_tables :: "(phase \<Rightarrow> bool) \<Rightarrow> time \<Rightarrow> time \<Rightarrow> retention \<Rightarrow> loc_tables \<Rightarrow> pg_result \<times> loc_tables" where
  "compact_tables ok now done ret db =
     (let (raw, db1) = run_phase (ok DropRaw) (drop_phase ok now (rawRetentionDays ret)) db;
          (m1, db2) = run_phase (ok Down1m) (DOWNSAMPLE_1M (now - 24 * 3600000) (now + 60000)) db1;
          (h1, db3) = run_phase (ok Agg1h) (AGGREGATE_1H (now - 7 * 86400000) (now + 3600000)) db2;
          (d1, db4) = run_phase (ok Agg1d) (AGGREGATE_1D (now - 90 * 86400000) (now + 86400000)) db3
      in (\<lparr>pr_rawDeleted = raw, pr_downsample1m = m1, pr_aggregate1h = h1, pr_aggregate1d = d1,
           pr_durationMs = done - now, pr_error = None\<rparr>, trim_phase ok now ret db4))"

definition failed_result :: "int \<Rightarrow> string \<Rightarrow> pg_result" where
  "failed_result ms msg = \<lparr>pr_rawDeleted = 0, pr_downsample1m = 0, pr_aggregate1h = 0, pr_aggregate1d = 0,
     pr_durationMs = ms, pr_error = Some msg\<rparr>"

text \<open>
  \<open>compact\<close> up to its first await, and from there to its end; in between another call is turned away. \<open>init\<close>
  is the outcome of \<open>_init\<close>: the message of its error, if it failed.
\<close>

definition compact_enter :: "compactor \<Rightarrow> (storage_error + pg_result option) \<times> compactor" where
  "compact_enter c =
     (if cp_closed c then (Inl AdapterClosed, c)
      else if cp_compacting c then (Inr (Some (failed_result 0 ''already running'')), c)
      else (Inr None, c\<lparr>cp_compacting := True\<rparr>))"

definition compact_work ::
    "(phase \<Rightarrow> bool) \<Rightarrow> string option \<Rightarrow> time \<Rightarrow> time \<Rightarrow> compact_args \<Rightarrow> compactor \<Rightarrow> pg_result \<times> compactor" where
  "compact_work ok init now done args c =
     (case init of
        Some msg \<Rightarrow> (failed_result (done - now) msg, c\<lparr>cp_compacting := False\<rparr>)
      | None \<Rightarrow>
          let (result, db) = compact_tables ok now done (pg_retention (cp_retention c) args) (cp_tables c);
              status = \<lparr>sr_last_run = Some done, sr_next_run = Some (done + cp_interval c), sr_last_result = Some result\<rparr>
          in (result, c\<lparr>cp_tables := (if ok SaveStatus then db\<lparr>lt_status := status\<rparr> else db),
                        cp_lastResult := Some result, cp_lastRun := Some done, cp_compacting := False\<rparr>))"

definition pg_compact ::
    "(phase \<Rightarrow> bool) \<Rightarrow> string option \<Rightarrow> time \<Rightarrow> time \<Rightarrow> compact_args \<Rightarrow> compactor \<Rightarrow> (storage_error + pg_result) \<times> compactor" where
  "pg_compact ok init now done args c =
     (case compact_enter c of
        (Inl e, c') \<Rightarrow> (Inl e, c')
      | (Inr (Some r), c') \<Rightarrow> (Inr r, c')
      | (Inr None, c') \<Rightarrow> (let (r, c'') = compact_work ok init now done args c' in (Inr r, c'')))"

text \<open>
  \<open>_scheduleCompaction\<close> sets the time of the next run; when its timer fires it compacts and schedules again.
\<close>

definition scheduleCompaction :: "time \<Rightarrow> compactor \<Rightarrow> compactor" where
  "scheduleCompaction now c = (if cp_closed c then c else c\<lparr>cp_nextRun := Some (now + cp_interval c)\<rparr>)"

definition compaction_timer :: "(phase \<Rightarrow> bool) \<Rightarrow> string option \<Rightarrow> time \<Rightarrow> time \<Rightarrow> compactor \<Rightarrow> compactor" where
  "compaction_timer ok init now done c =
     (if cp_closed c then c else scheduleCompaction done (snd (pg_compact ok init now done no_args c)))"

section \<open>Status\<close>

definition earliest :: "time list \<Rightarrow> time option" where
  "earliest ts = (case ts of [] \<Rightarrow> None | t # us \<Rightarrow> Some (fold min us t))"

definition latest_of :: "time list \<Rightarrow> time option" where
  "latest_of ts = (case ts of [] \<Rightarrow> None | t # us \<Rightarrow> Some (fold max us t))"

text \<open>
  One entry of \<open>tiers\<close>; a failing statement gives an empty one. The row count and the size are what the
  database reports: the planner's estimate for the raw tier, exact counts for the others.
\<close>

definition pg_tier :: "bool \<Rightarrow> string \<Rightarrow> int \<Rightarrow> int \<Rightarrow> time list \<Rightarrow> tier_status" where
  "pg_tier good name rows bytes stamps =
     (if good then \<lparr>ts_name = name, ts_rows = rows, ts_sizeBytes = bytes, ts_oldest = earliest stamps, ts_newest = latest_of stamps\<rparr>
      else \<lparr>ts_name = name, ts_rows = 0, ts_sizeBytes = 0, ts_oldest = None, ts_newest = None\<rparr>)"

definition pg_status ::
    "bool \<Rightarrow> (string \<Rightarrow> bool) \<Rightarrow> int \<Rightarrow> (string \<Rightarrow> int) \<Rightarrow> compactor \<Rightarrow> storage_error + (time option \<times> time option \<times> tier_status list)" where
  "pg_status read_ok ok estimate bytes c =
     (if cp_closed c then Inl AdapterClosed
      else let db = cp_tables c;
               row = lt_status db;
               lastRun = (if read_ok then or_else (sr_last_run row) (cp_lastRun c) else cp_lastRun c);
               nextRun = (if read_ok then or_else (sr_next_run row) (cp_nextRun c) else cp_nextRun c);
               keyed = (\<lambda>name ts. pg_tier (ok name) name (int (length ts)) (bytes name) ts)
           in Inr (lastRun, nextRun,
                [pg_tier (ok ''raw'') ''raw'' estimate (bytes ''raw'') (map rr_time (lt_raw db)),
                 keyed ''1m'' (map (snd \<circ> fst) (lt_1m db)), keyed ''1h'' (map (snd \<circ> fst) (lt_1h db)),
                 keyed ''1d'' (map (snd \<circ> fst) (lt_1d db))]))"

section \<open>Queries\<close>

text \<open>The statement a room query builds: its conditions name parameters by number.\<close>

datatype sql_param = SqlText string | SqlTime time | SqlInt int

datatype sql_op = Equals | AtLeast | AtMost

record room_select =
  rs_conditions :: "(string \<times> sql_op \<times> nat) list"
  rs_limit :: "nat option"
  rs_params :: "sql_param list"

definition select_room :: "string \<Rightarrow> string \<Rightarrow> time \<Rightarrow> time \<Rightarrow> int \<Rightarrow> room_select" where
  "select_room column roomId f t limit =
     (let params = [SqlText roomId]; conditions = [(''room_id'', Equals, 1)]; idx = 2;
          (conditions, idx, params) = (conditions @ [(column, AtLeast, idx)], idx + 1, params @ [SqlTime f]);
          (conditions, idx, params) = (conditions @ [(column, AtMost, idx)], idx + 1, params @ [SqlTime t])
      in if limit > 0 then \<lparr>rs_conditions = conditions, rs_limit = Some idx, rs_params = params @ [SqlInt limit]\<rparr>
         else \<lparr>rs_conditions = conditions, rs_limit = None, rs_params = params\<rparr>)"

definition sql_arg :: "room_select \<Rightarrow> nat \<Rightarrow> sql_param option" where
  "sql_arg s n = (if 0 < n \<and> n \<le> length (rs_params s) then Some (rs_params s ! (n - 1)) else None)"

definition cond_holds :: "room_select \<Rightarrow> string \<Rightarrow> time \<Rightarrow> string \<times> sql_op \<times> nat \<Rightarrow> bool" where
  "cond_holds s room t = (\<lambda>(column, rel, n).
     case (rel, sql_arg s n) of
       (Equals, Some (SqlText x)) \<Rightarrow> column = ''room_id'' \<and> room = x
     | (AtLeast, Some (SqlTime x)) \<Rightarrow> t \<ge> x
     | (AtMost, Some (SqlTime x)) \<Rightarrow> t \<le> x
     | _ \<Rightarrow> False)"

text \<open>The order in which the queries visit the rows of each table.\<close>

record scans =
  sc_raw :: "raw_row list \<Rightarrow> raw_row list"
  sc_1m :: "(tier_key \<times> minute_cells) list \<Rightarrow> (tier_key \<times> minute_cells) list"
  sc_1h :: "(tier_key \<times> hour_cells) list \<Rightarrow> (tier_key \<times> hour_cells) list"
  sc_1d :: "(tier_key \<times> day_cells) list \<Rightarrow> (tier_key \<times> day_cells) list"

definition run_select ::
    "('r list \<Rightarrow> 'r list) \<Rightarrow> room_select \<Rightarrow> ('r \<Rightarrow> string) \<Rightarrow> ('r \<Rightarrow> time) \<Rightarrow> 'r list \<Rightarrow> 'r list" where
  "run_select scan s room_of time_of rows =
     (let hits = sort_key time_of (scan (filter (\<lambda>r. \<forall>c\<in>set (rs_conditions s). cond_holds s (room_of r) (time_of r) c) rows))
      in case rs_limit s of
           None \<Rightarrow> hits
         | Some n \<Rightarrow> (case sql_arg s n of Some (SqlInt l) \<Rightarrow> take (nat l) hits | _ \<Rightarrow> []))"

datatype room_rows =
    RawRows "raw_row list"
  | MinuteRows "(tier_key \<times> minute_cells) list"
  | HourRows "(tier_key \<times> hour_cells) list"
  | DayRows "(tier_key \<times> day_cells) list"

definition queryRoomRaw :: "scans \<Rightarrow> string \<Rightarrow> time \<Rightarrow> time \<Rightarrow> int \<Rightarrow> loc_tables \<Rightarrow> raw_row list" where
  "queryRoomRaw sc roomId f t limit db =
     run_select (sc_raw sc) (select_room ''timestamp'' roomId f t limit) rr_roomId rr_time (lt_raw db)"

definition queryRoom1m :: "scans \<Rightarrow> string \<Rightarrow> time \<Rightarrow> time \<Rightarrow> int \<Rightarrow> loc_tables \<Rightarrow> (tier_key \<times> minute_cells) list" where
  "queryRoom1m sc roomId f t limit db =
     run_select (sc_1m sc) (select_room ''bucket'' roomId f t limit) (fst \<circ> fst) (snd \<circ> fst) (lt_1m db)"

definition queryRoom1h :: "scans \<Rightarrow> string \<Rightarrow> time \<Rightarrow> time \<Rightarrow> int \<Rightarrow> loc_tables \<Rightarrow> (tier_key \<times> hour_cells) list" where
  "queryRoom1h sc roomId f t limit db =
     run_select (sc_1h sc) (select_room ''bucket'' roomId f t limit) (fst \<circ> fst) (snd \<circ> fst) (lt_1h db)"

definition queryRoom1d :: "scans \<Rightarrow> string \<Rightarrow> time \<Rightarrow> time \<Rightarrow> int \<Rightarrow> loc_tables \<Rightarrow> (tier_key \<times> day_cells) list" where
  "queryRoom1d sc roomId f t limit db =
     run_select (sc_1d sc) (select_room ''bucket'' roomId f t limit) (fst \<circ> fst) (snd \<circ> fst) (lt_1d db)"

text \<open>\<open>resolved\<close> for the defaulted options is computed like the memory adapter's.\<close>

definition pg_resolve :: "time \<Rightarrow> query \<Rightarrow> string" where
  "pg_resolve now q =
     (let fromDate = option_or (qy_from q) (now - 86400000); toDate = option_or (qy_to q) now;
          resolution = (case qy_resolution q of Some r \<Rightarrow> r | None \<Rightarrow> ''auto'')
      in if resolution \<noteq> ''auto'' then resolution
         else if qy_from q = None \<and> qy_to q = None then ''raw''
         else let rangeMs = toDate - fromDate
              in if rangeMs < 3600000 then ''raw''
                 else if rangeMs < 86400000 then ''1m''
                 else if rangeMs < 604800000 then ''1h''
                 else ''1d'')"

definition pg_queryRoom :: "scans \<Rightarrow> time \<Rightarrow> string \<Rightarrow> query \<Rightarrow> compactor \<Rightarrow> storage_error + room_rows" where
  "pg_queryRoom sc now roomId q c =
     (if cp_closed c then Inl AdapterClosed
      else let fromDate = option_or (qy_from q) (now - 86400000); toDate = option_or (qy_to q) now;
               limit = option_or (qy_limit q) 1000; resolved = pg_resolve now q; db = cp_tables c
           in Inr (if resolved = ''1m'' then MinuteRows (queryRoom1m sc roomId fromDate toDate limit db)
                   else if resolved = ''1h'' then HourRows (queryRoom1h sc roomId fromDate toDate limit db)
                   else if resolved = ''1d'' then DayRows (queryRoom1d sc roomId fromDate toDate limit db)
                   else RawRows (queryRoomRaw sc roomId fromDate toDate limit db)))"

definition pg_querySpatial :: "scans \<Rightarrow> bounds \<Rightarrow> int option \<Rightarrow> compactor \<Rightarrow> storage_error + raw_row list" where
  "pg_querySpatial sc b limit c =
     (if cp_closed c then Inl AdapterClosed
      else let hits = sort_key rr_time (sc_raw sc (filter (\<lambda>r. minLat b \<le> rr_lat r \<and> rr_lat r \<le> maxLat b
                        \<and> minLon b \<le> rr_lon r \<and> rr_lon r \<le> maxLon b) (lt_raw (cp_tables c))))
           in Inr (case limit of Some l \<Rightarrow> if l > 0 then take (nat l) hits else hits | None \<Rightarrow> hits))"

definition pg_getLatest :: "scans \<Rightarrow> string \<Rightarrow> compactor \<Rightarrow> storage_error + raw_row option" where
  "pg_getLatest sc roomId c =
     (if cp_closed c then Inl AdapterClosed
      else Inr (case sort_key (\<lambda>r. - rr_time r) (sc_raw sc (filter (\<lambda>r. rr_roomId r = roomId) (lt_raw (cp_tables c)))) of
                  [] \<Rightarrow> None
                | r # rs \<Rightarrow> Some r))"

end
