(* ===== verification/PgCompactionProperties.thy ===== *)
theory PgCompactionProperties
  imports PgCompaction MemoryStorageProperties
begin

text \<open>
  The tables of \<open>PostgresAdapter\<close>: which inserts succeed, what the downsamples and the aggregates of a
  compaction contain, what it deletes, and how its queries relate to the memory adapter's.
\<close>

declare map_of_eq_Some_iff [simp del] Some_eq_map_of_iff [simp del]

section \<open>Inserts\<close>

lemma create_daily_partition_get [simp]: "set (lt_partitions (create_daily_partition d db)) = insert d (set (lt_partitions db))"
  by (auto simp: create_daily_partition_def)

lemma create_daily_partition_same: "d \<in> set (lt_partitions db) \<Longrightarrow> create_daily_partition d db = db"
  by (simp add: create_daily_partition_def)

lemma inserted_iff:
  "insert_events es db =
     (if list_all (\<lambda>e. case raw_of e of None \<Rightarrow> False | Some r \<Rightarrow> utc_day (rr_time r) \<in> set (lt_partitions db)) es
      then Some (db\<lparr>lt_raw := lt_raw db @ map (the \<circ> raw_of) es\<rparr>) else None)"
proof (induction es arbitrary: db)
  case (Cons e es)
  then show ?case
    by (auto simp: insert_row_def create_daily_partition_same Let_def split: option.split)
qed simp

lemma schema_init_days: "set (lt_partitions (schema_init now db)) = set (lt_partitions db) \<union> {utc_day now .. utc_day now + 30}"
proof -
  have fold: "set (lt_partitions (fold create_daily_partition ds db)) = set (lt_partitions db) \<union> set ds" for ds
    by (induction ds arbitrary: db) auto
  have "(\<lambda>i. utc_day now + int i) ` {0..<31} = {utc_day now .. utc_day now + 30}"
  proof (intro set_eqI iffI)
    fix d assume "d \<in> {utc_day now .. utc_day now + 30}"
    then show "d \<in> (\<lambda>i. utc_day now + int i) ` {0..<31}" by (intro image_eqI [of _ _ "nat (d - utc_day now)"]) auto
  qed auto
  then show ?thesis by (simp add: schema_init_def fold)
qed

text \<open>
  C33. A batch is stored whole or not at all, and what it needs is there from the start: on the tables of a first
  start it is stored when every event has coordinates and lies within the next 31 days, and otherwise
  nothing of it is. The trigger creates no partition.
\<close>
theorem inserts_need_partitions:
  "insert_events es (schema_init now empty_tables) =
     (if list_all (\<lambda>e. case raw_of e of None \<Rightarrow> False
                   | Some r \<Rightarrow> utc_day now \<le> utc_day (rr_time r) \<and> utc_day (rr_time r) \<le> utc_day now + 30) es
      then Some ((schema_init now empty_tables)\<lparr>lt_raw := map (the \<circ> raw_of) es\<rparr>) else None)"
proof -
  have "lt_raw (fold create_daily_partition ds db) = lt_raw db" for ds db
    by (induction ds arbitrary: db) (simp_all add: create_daily_partition_def)
  then have "lt_raw (schema_init now empty_tables) = []" by (simp add: schema_init_def empty_tables_def)
  moreover have "(\<lambda>e. case raw_of e of None \<Rightarrow> False
                   | Some r \<Rightarrow> utc_day (rr_time r) \<in> set (lt_partitions (schema_init now empty_tables))) =
      (\<lambda>e. case raw_of e of None \<Rightarrow> False
                   | Some r \<Rightarrow> utc_day now \<le> utc_day (rr_time r) \<and> utc_day (rr_time r) \<le> utc_day now + 30)"
    unfolding schema_init_days by (intro ext) (simp add: empty_tables_def split: option.split)
  ultimately show ?thesis by (simp only: inserted_iff append_Nil)
qed

text \<open>From the 31st day after a start on, and for events of the day before it, every batch is refused.\<close>

lemma later_days_refused:
  assumes "raw_of e = Some r" and "utc_day (rr_time r) > utc_day now + 30 \<or> utc_day (rr_time r) < utc_day now"
  shows "insert_events (es @ e # es') (schema_init now empty_tables) = None"
  using assms by (auto simp: inserted_iff schema_init_days empty_tables_def)

section \<open>The partition invariant\<close>

text \<open>Every raw row has the partition of its day, and no partition exists twice.\<close>

definition partitioned :: "loc_tables \<Rightarrow> bool" where
  "partitioned db \<longleftrightarrow> list_all (\<lambda>r. utc_day (rr_time r) \<in> set (lt_partitions db)) (lt_raw db) \<and> distinct (lt_partitions db)"

lemma partitioned_create: "partitioned db \<Longrightarrow> partitioned (create_daily_partition d db)"
  by (auto simp: partitioned_def create_daily_partition_def list_all_iff)

lemma partitioned_start: "partitioned (schema_init now empty_tables)"
proof -
  have "partitioned (fold create_daily_partition ds db)" if "partitioned db" for ds db
    using that by (induction ds arbitrary: db) (auto intro: partitioned_create)
  then show ?thesis by (simp add: schema_init_def partitioned_def empty_tables_def)
qed

lemma partitioned_insert: "partitioned db \<Longrightarrow> insert_events es db = Some db' \<Longrightarrow> partitioned db'"
proof (induction es arbitrary: db)
  case (Cons e es)
  then obtain r db1 where "insert_row r db = Some db1" "insert_events es db1 = Some db'"
    by (auto split: option.splits)
  moreover from this(1) Cons.prems(1) have "partitioned db1"
    by (auto simp: insert_row_def create_daily_partition_same Let_def partitioned_def split: if_splits)
  ultimately show ?case using Cons.IH by blast
qed simp

lemma partitioned_drop: "partitioned db \<Longrightarrow> partitioned (snd (drop_phase ok now days db))"
  by (auto simp: partitioned_def drop_phase_def drop_old_raw_partitions_def Let_def list_all_iff)

lemma compact_frame:
  assumes "run_phase (ok DropRaw) (drop_phase ok now (rawRetentionDays ret)) db = (raw, db1)"
  shows "lt_raw (snd (compact_tables ok now done ret db)) = lt_raw db1
    \<and> lt_partitions (snd (compact_tables ok now done ret db)) = lt_partitions db1"
proof -
  obtain m1 db2 where two: "run_phase (ok Down1m) (DOWNSAMPLE_1M (now - 24 * 3600000) (now + 60000)) db1 = (m1, db2)" by fastforce
  obtain h1 db3 where three: "run_phase (ok Agg1h) (AGGREGATE_1H (now - 7 * 86400000) (now + 3600000)) db2 = (h1, db3)" by fastforce
  obtain d1 db4 where four: "run_phase (ok Agg1d) (AGGREGATE_1D (now - 90 * 86400000) (now + 86400000)) db3 = (d1, db4)" by fastforce
  have "lt_raw db4 = lt_raw db1 \<and> lt_partitions db4 = lt_partitions db1"
    using two three four by (auto simp: run_phase_def DOWNSAMPLE_1M_def AGGREGATE_1H_def AGGREGATE_1D_def Let_def split: if_splits)
  then show ?thesis using assms two three four by (simp add: compact_tables_def trim_phase_def Let_def)
qed

lemma partitioned_compact:
  assumes "partitioned db"
  shows "partitioned (snd (compact_tables ok now done ret db))"
proof -
  obtain raw db1 where one: "run_phase (ok DropRaw) (drop_phase ok now (rawRetentionDays ret)) db = (raw, db1)" by fastforce
  then have "partitioned db1" using assms partitioned_drop [of db ok now "rawRetentionDays ret"] by (auto simp: run_phase_def split: if_splits)
  then show ?thesis using compact_frame [of ok, OF one] by (simp add: partitioned_def)
qed

section \<open>Grouping\<close>

lemma keys_group_rows: "map fst (group_rows key rows) = remdups (map key rows)"
  by (simp add: group_rows_def o_def)

lemma upsert_all_get:
  assumes "distinct (map fst rows)"
  shows "js_get (upsert_all rows t) k = (case js_get rows k of Some c \<Rightarrow> Some c | None \<Rightarrow> js_get t k)"
  using assms
proof (induction rows arbitrary: t)
  case (Cons p rows)
  obtain j c where p: "p = (j, c)" by fastforce
  have "js_get rows j = None" using Cons.prems p by (simp add: map_of_eq_None_iff)
  then show ?case using Cons p by (auto simp: upsert_all_def split: option.split)
qed (simp add: upsert_all_def)

lemma group_rows_get:
  "js_get (map (\<lambda>(k, rs). (k, f rs)) (group_rows key rows)) k =
     (if filter (\<lambda>r. key r = k) rows = [] then None else Some (f (filter (\<lambda>r. key r = k) rows)))"
proof -
  have found: "js_get (map (\<lambda>k. (k, g k)) ks) k = (if k \<in> set ks then Some (g k) else None)" for g and ks
    by (induction ks) auto
  have "k \<in> set (remdups (map key rows)) \<longleftrightarrow> filter (\<lambda>r. key r = k) rows \<noteq> []" by (auto simp: filter_empty_conv)
  then show ?thesis
    using found [of "\<lambda>k. f (filter (\<lambda>r. key r = k) rows)" "remdups (map key rows)"]
    by (simp add: group_rows_def o_def del: set_remdups set_map)
qed

lemma keys_mapped: "map fst (map (\<lambda>(k, rs). (k, f rs)) rows) = map fst rows"
  by (induction rows) auto

lemma upsert_groups_get:
  "js_get (upsert_all (map (\<lambda>(k, rs). (k, f rs)) (group_rows key rows)) t) k =
     (if filter (\<lambda>r. key r = k) rows = [] then js_get t k else Some (f (filter (\<lambda>r. key r = k) rows)))"
proof -
  have "distinct (map fst (map (\<lambda>(k, rs). (k, f rs)) (group_rows key rows)))"
    by (simp only: keys_mapped keys_group_rows distinct_remdups)
  from upsert_all_get [OF this] show ?thesis by (simp only: group_rows_get) simp
qed

lemma DOWNSAMPLE_1M_get:
  "js_get (lt_1m (snd (DOWNSAMPLE_1M lo hi db))) k =
     (let rs = filter (\<lambda>r. raw_key r = k) (filter (\<lambda>r. rr_time r \<ge> lo \<and> rr_time r < hi) (lt_raw db))
      in if rs = [] then js_get (lt_1m db) k else Some (minute_of rs))"
  by (simp add: DOWNSAMPLE_1M_def Let_def upsert_groups_get del: filter_filter)

lemma bucket_of_unique:
  assumes "0 < w" and "bucket_of w m = m" and "m \<le> t" and "t < m + w"
  shows "bucket_of w t = m"
proof -
  have "t div w = ((t - m) + m div w * w) div w" using assms(2) by (simp add: bucket_of_def)
  also have "\<dots> = m div w + (t - m) div w" using assms(1) by simp
  finally have "t div w = m div w" using assms by (simp add: div_pos_pos_trivial)
  then show ?thesis using assms(2) by (simp add: bucket_of_def)
qed

text \<open>
  C30. The one-minute tier is exact on every minute inside the window of a downsample: the row of a room and a
  minute is computed from all raw rows of that minute, and a minute without raw rows keeps the row it had.
\<close>
theorem minute_tier_exact:
  assumes "truncateToMinute m = m" and "lo \<le> m" and "m + 60000 \<le> hi"
  shows "js_get (lt_1m (snd (DOWNSAMPLE_1M lo hi db))) (room, m) =
    (let rs = filter (\<lambda>r. rr_roomId r = room \<and> m \<le> rr_time r \<and> rr_time r < m + 60000) (lt_raw db)
     in if rs = [] then js_get (lt_1m db) (room, m) else Some (minute_of rs))"
proof -
  have "truncateToMinute t = m \<longleftrightarrow> m \<le> t \<and> t < m + 60000" for t
    using assms(1) bucket_of_bounds [of 60000 t] bucket_of_unique [of 60000 m t]
    unfolding truncateToMinute_def by auto
  then have "(rr_time r \<ge> lo \<and> rr_time r < hi) \<and> raw_key r = (room, m)
      \<longleftrightarrow> rr_roomId r = room \<and> m \<le> rr_time r \<and> rr_time r < m + 60000" for r
    using assms(2,3) by (simp add: raw_key_def) linarith
  then have "filter (\<lambda>r. raw_key r = (room, m)) (filter (\<lambda>r. rr_time r \<ge> lo \<and> rr_time r < hi) (lt_raw db))
      = filter (\<lambda>r. rr_roomId r = room \<and> m \<le> rr_time r \<and> rr_time r < m + 60000) (lt_raw db)"
    by (simp only: filter_filter)
  then show ?thesis by (simp add: DOWNSAMPLE_1M_get del: filter_filter)
qed

text \<open>The row is a real median: at least half of the values are no larger, at least half no smaller.\<close>

lemma percentile_disc_half_median:
  assumes "xs \<noteq> []"
  shows "percentile_disc_half xs \<in> set xs \<and> length xs \<le> 2 * length (filter (\<lambda>x. x \<le> percentile_disc_half xs) xs)
    \<and> length xs \<le> 2 * length (filter (\<lambda>x. percentile_disc_half xs \<le> x) xs)"
proof -
  let ?s = "sort xs" and ?i = "(length xs - 1) div 2"
  let ?v = "?s ! ?i"
  have i: "?i < length ?s" using assms by (cases xs) auto
  have split: "?s = take ?i ?s @ ?v # drop (Suc ?i) ?s" using i by (simp add: id_take_nth_drop)
  have low: "\<forall>x\<in>set (take (Suc ?i) ?s). x \<le> ?v"
    using i by (auto simp: in_set_conv_nth intro!: sorted_nth_mono)
  have high: "\<forall>x\<in>set (drop ?i ?s). ?v \<le> x"
    using i by (auto simp: in_set_conv_nth intro!: sorted_nth_mono)
  have count: "length (filter P xs) = length (filter P ?s)" for P by (metis mset_filter mset_sort size_mset)
  have "filter (\<lambda>x. x \<le> ?v) ?s = filter (\<lambda>x. x \<le> ?v) (take (Suc ?i) ?s) @ filter (\<lambda>x. x \<le> ?v) (drop (Suc ?i) ?s)"
    by (metis append_take_drop_id filter_append)
  then have "Suc ?i \<le> length (filter (\<lambda>x. x \<le> ?v) ?s)" using low i by (simp add: filter_id_conv)
  moreover have "filter (\<lambda>x. ?v \<le> x) ?s = filter (\<lambda>x. ?v \<le> x) (take ?i ?s) @ filter (\<lambda>x. ?v \<le> x) (drop ?i ?s)"
    by (metis append_take_drop_id filter_append)
  then have "length xs - ?i \<le> length (filter (\<lambda>x. ?v \<le> x) ?s)" using high by (simp add: filter_id_conv) (rule diff_le_mono, simp)
  moreover have "?v \<in> set xs" using i nth_mem [of ?i ?s] by simp
  ultimately show ?thesis using assms by (simp add: percentile_disc_half_def count) linarith
qed

text \<open>A minute the window cuts is computed again from what is left of it: one of two rows here.\<close>

definition raw_at :: "string \<Rightarrow> time \<Rightarrow> raw_row" where
  "raw_at room t = \<lparr>rr_clientId = ''c'', rr_roomId = room, rr_lat = 1, rr_lon = 2, rr_altitude = None, rr_accuracy = None,
     rr_speed = None, rr_time = t\<rparr>"

definition two_rows :: loc_tables where
  "two_rows = empty_tables\<lparr>lt_raw := [raw_at ''r'' 60000, raw_at ''r'' 90000]\<rparr>"

lemma cut_minute_shrinks:
  "let before = snd (DOWNSAMPLE_1M 0 120000 two_rows); after = snd (DOWNSAMPLE_1M 75000 120000 before)
   in map_option m1_count (js_get (lt_1m before) (''r'', 60000)) = Some 2
      \<and> map_option m1_count (js_get (lt_1m after) (''r'', 60000)) = Some 1"
  by (simp add: DOWNSAMPLE_1M_get two_rows_def empty_tables_def raw_at_def raw_key_def truncateToMinute_def bucket_of_def minute_of_def)
     (simp add: DOWNSAMPLE_1M_def minute_of_def)

section \<open>Distances\<close>

definition hour_position :: "tier_key \<times> hour_cells \<Rightarrow> real \<times> real" where
  "hour_position x = (h1_lat (snd x), h1_lon (snd x))"

lemma path_length_Cons: "path_length (p # q # ps) = haversine (fst p) (snd p) (fst q) (snd q) + path_length (q # ps)"
  by (cases p; cases q) simp

lemma lagged_path:
  assumes "sorted (map (snd \<circ> fst) xs)"
  shows "sum_list (map leg (filter (\<lambda>(prev, (j, h)). snd j \<le> b \<and> prev \<noteq> None) (zip (p # map Some xs) xs)))
    = path_length (map hour_position ((case p of None \<Rightarrow> [] | Some q \<Rightarrow> [q]) @ filter (\<lambda>x. snd (fst x) \<le> b) xs))"
  using assms
proof (induction xs arbitrary: p)
  case Nil
  then show ?case by (cases p) (auto simp: hour_position_def)
next
  case (Cons x xs)
  obtain j h where x: "x = (j, h)" by fastforce
  show ?case
  proof (cases "snd j \<le> b")
    case True
    have rest: "sum_list (map leg (filter (\<lambda>(prev, (j, h)). snd j \<le> b \<and> prev \<noteq> None) (zip (Some x # map Some xs) xs)))
        = path_length (hour_position x # map hour_position (filter (\<lambda>x. snd (fst x) \<le> b) xs))"
      using Cons.IH [of "Some x"] Cons.prems by simp
    show ?thesis
    proof (cases p)
      case None
      then show ?thesis using rest True x by simp
    next
      case (Some q)
      have "leg (Some q, x) = haversine (fst (hour_position q)) (snd (hour_position q)) (fst (hour_position x)) (snd (hour_position x))"
        by (cases q) (simp add: leg_def hour_position_def x)
      then show ?thesis using rest True x Some by (cases q; cases "fst q") (simp add: path_length_Cons)
    qed
  next
    case False
    then have "\<forall>y\<in>set xs. \<not> snd (fst y) \<le> b" using Cons.prems x by auto
    then have "filter (\<lambda>x. snd (fst x) \<le> b) (x # xs) = []"
      and "filter (\<lambda>(prev, (j, h)). snd j \<le> b \<and> prev \<noteq> None) (zip (p # map Some (x # xs)) (x # xs)) = []"
      using False x by (auto simp: filter_empty_conv dest!: set_zip_rightD)
    then show ?thesis by (cases p) (simp_all add: hour_position_def)
  qed
qed

lemma hour_distance_path:
  "hour_distance hs k = path_length (map hour_position (filter (\<lambda>x. snd (fst x) \<le> snd k) (room_hours (fst k) hs)))"
  unfolding hour_distance_def lagged_def
  by (subst lagged_path) (simp_all add: room_hours_def)

text \<open>
  C32. The distance of an hour is not the one travelled in it. Every row an hourly aggregation computes carries
  the length of the path of the room's hourly positions from the start of the window to that hour.
\<close>
theorem hour_distance_is_prefix:
  "js_get (lt_1h (snd (AGGREGATE_1H lo hi db))) k =
     (case js_get (hourly_rows lo hi (lt_1m db)) k of
        None \<Rightarrow> js_get (lt_1h db) k
      | Some h \<Rightarrow> Some (h\<lparr>h1_distance := path_length (map hour_position
          (filter (\<lambda>x. snd (fst x) \<le> snd k) (room_hours (fst k) (hourly_rows lo hi (lt_1m db)))))\<rparr>))"
proof -
  let ?hs = "hourly_rows lo hi (lt_1m db)"
  let ?rows = "map (\<lambda>(k, h). (k, h\<lparr>h1_distance := hour_distance ?hs k\<rparr>)) ?hs"
  have "map fst ?rows = map fst ?hs" by (simp add: comp_def case_prod_unfold)
  also have "map fst ?hs = map fst (group_rows hour_of_key (filter (\<lambda>((room, bucket), c). bucket \<ge> lo \<and> bucket < hi) (lt_1m db)))"
    by (simp only: hourly_rows_def keys_mapped)
  finally have "distinct (map fst ?rows)" by (simp only: keys_group_rows distinct_remdups)
  moreover have "js_get (map (\<lambda>(k, h). (k, f k h)) xs) k = map_option (f k) (js_get xs k)" for f :: "tier_key \<Rightarrow> hour_cells \<Rightarrow> hour_cells" and xs
    by (induction xs) auto
  ultimately show ?thesis
    using upsert_all_get [of ?rows "lt_1h db" k]
    by (simp add: AGGREGATE_1H_def Let_def hour_distance_path split: option.split)
qed

text \<open>A day of three hours then counts the first leg twice: once for each hour after it.\<close>

definition hour_at :: "real \<Rightarrow> hour_cells" where
  "hour_at lat = \<lparr>h1_lat = lat, h1_lon = 0, h1_altitude = None, h1_accuracy = None, h1_avg_speed = None,
     h1_max_speed = None, h1_min_speed = None, h1_distance = 0, h1_count = 1\<rparr>"

lemma day_counts_legs_twice:
  assumes "hs = [((''r'', 0), hour_at a), ((''r'', 3600000), hour_at b), ((''r'', 7200000), hour_at c)]"
  shows "d1_distance (day_cells_of (map (\<lambda>(k, h). h\<lparr>h1_distance := hour_distance hs k\<rparr>) hs))
    = 2 * haversine a 0 b 0 + haversine b 0 c 0"
  by (simp add: assms hour_distance_path room_hours_def day_cells_of_def hour_position_def hour_at_def)

section \<open>What compaction deletes\<close>

lemma drop_phase_raw:
  assumes "drop_phase ok now days db = (n, db')" and "partitioned db"
  shows "lt_raw db' = filter (\<lambda>r. \<not> (ok (DropDay (utc_day (rr_time r))) \<and> utc_day (rr_time r) < utc_day now - days)) (lt_raw db)
    \<and> lt_partitions db' = filter (\<lambda>d. \<not> (ok (DropDay d) \<and> d < utc_day now - days)) (lt_partitions db)
    \<and> n = int (length (lt_raw db)) - int (length (lt_raw db')) \<and> lt_1m db' = lt_1m db \<and> lt_1h db' = lt_1h db \<and> lt_1d db' = lt_1d db"
proof -
  let ?old = "filter (\<lambda>d. d < utc_day now - days \<and> ok (DropDay d)) (lt_partitions db)"
  have kept: "lt_raw db' = filter (\<lambda>r. utc_day (rr_time r) \<notin> set ?old) (lt_raw db)"
    and parts: "lt_partitions db' = filter (\<lambda>d. d \<notin> set ?old) (lt_partitions db)"
    and n: "n = sum_list (map (\<lambda>d. int (length (filter (\<lambda>r. utc_day (rr_time r) = d) (lt_raw db)))) ?old)"
    and rest: "lt_1m db' = lt_1m db" "lt_1h db' = lt_1h db" "lt_1d db' = lt_1d db"
    using assms(1) by (auto simp: drop_phase_def drop_old_raw_partitions_def Let_def o_def case_prod_unfold)
  have "sum_list (map (\<lambda>d. int (length (filter (\<lambda>r. utc_day (rr_time r) = d) rows))) ds)
      = int (length (filter (\<lambda>r. utc_day (rr_time r) \<in> set ds) rows))" if "distinct ds" for ds and rows :: "raw_row list"
    using that
  proof (induction ds)
    case (Cons d ds)
    have "length (filter (\<lambda>r. utc_day (rr_time r) \<in> set (d # ds)) rows) =
        length (filter (\<lambda>r. utc_day (rr_time r) = d) rows) + length (filter (\<lambda>r. utc_day (rr_time r) \<in> set ds) rows)"
      using Cons.prems by (induction rows) auto
    then show ?case using Cons by simp
  qed simp
  then have "n = int (length (filter (\<lambda>r. utc_day (rr_time r) \<in> set ?old) (lt_raw db)))" using n assms(2) by (simp add: partitioned_def)
  moreover have "length (lt_raw db) = length (filter (\<lambda>r. utc_day (rr_time r) \<in> set ?old) (lt_raw db)) + length (lt_raw db')"
    using kept sum_length_filter_compl [of "\<lambda>r. utc_day (rr_time r) \<in> set ?old" "lt_raw db"] by simp
  moreover have "lt_raw db' = filter (\<lambda>r. \<not> (ok (DropDay (utc_day (rr_time r))) \<and> utc_day (rr_time r) < utc_day now - days)) (lt_raw db)"
    using assms(2) unfolding kept by (intro filter_cong) (auto simp: partitioned_def list_all_iff)
  moreover have "lt_partitions db' = filter (\<lambda>d. \<not> (ok (DropDay d) \<and> d < utc_day now - days)) (lt_partitions db)"
    unfolding parts by (intro filter_cong) auto
  ultimately show ?thesis using rest by simp
qed

text \<open>
  A tier before and after a compaction: a row goes only by a delete that ran and when it is expired, and
  after a delete that ran no expired row is left.
\<close>

definition deletes_expired :: "bool \<Rightarrow> time \<Rightarrow> (tier_key, 'c) jsmap \<Rightarrow> (tier_key, 'c) jsmap \<Rightarrow> bool" where
  "deletes_expired deleted limit t t' \<longleftrightarrow>
     (\<forall>k\<in>set (js_keys t). k \<in> set (js_keys t') \<or> deleted \<and> snd k < limit)
     \<and> (deleted \<longrightarrow> (\<forall>k\<in>set (js_keys t'). limit \<le> snd k))"

lemma upsert_all_keys: "set (js_keys t) \<subseteq> set (js_keys (upsert_all rows t))"
proof -
  have "set (map fst t) \<subseteq> set (map fst (fold (\<lambda>(k, c) t. js_set k c t) rows t))"
  proof (induction rows arbitrary: t)
    case (Cons p rows)
    have "set (map fst t) \<subseteq> set (map fst ((\<lambda>(k, c) t. js_set k c t) p t))"
      by (cases p) (auto simp: dom_update)
    then show ?case using Cons.IH [of "(\<lambda>(k, c) t. js_set k c t) p t"] by simp
  qed simp
  then show ?thesis by (simp only: upsert_all_def)
qed

lemma trim_tier_keys: "set (js_keys (trim_tier limit t)) = {k \<in> set (js_keys t). limit \<le> snd k}"
  by (force simp: trim_tier_def)

lemma deletes_expired_trim:
  "set (js_keys t) \<subseteq> set (js_keys t') \<Longrightarrow> deletes_expired deleted limit t (if deleted then trim_tier limit t' else t')"
  by (auto simp: deletes_expired_def trim_tier_keys not_le [symmetric] simp del: set_map)

lemma phase_keys:
  "set (js_keys (lt_1m db)) \<subseteq> set (js_keys (lt_1m (snd (run_phase b (DOWNSAMPLE_1M lo hi) db))))"
  "set (js_keys (lt_1h db)) \<subseteq> set (js_keys (lt_1h (snd (run_phase b (AGGREGATE_1H lo hi) db))))"
  "set (js_keys (lt_1d db)) \<subseteq> set (js_keys (lt_1d (snd (run_phase b (AGGREGATE_1D lo hi) db))))"
  by (simp_all add: run_phase_def DOWNSAMPLE_1M_def AGGREGATE_1H_def AGGREGATE_1D_def Let_def upsert_all_keys del: set_map)

lemma phase_others:
  "lt_1h (snd (run_phase b (DOWNSAMPLE_1M lo hi) db)) = lt_1h db" "lt_1d (snd (run_phase b (DOWNSAMPLE_1M lo hi) db)) = lt_1d db"
  "lt_1m (snd (run_phase b (AGGREGATE_1H lo hi) db)) = lt_1m db" "lt_1d (snd (run_phase b (AGGREGATE_1H lo hi) db)) = lt_1d db"
  "lt_1m (snd (run_phase b (AGGREGATE_1D lo hi) db)) = lt_1m db" "lt_1h (snd (run_phase b (AGGREGATE_1D lo hi) db)) = lt_1h db"
  "lt_1m (snd (run_phase b (drop_phase ok now days) db)) = lt_1m db" "lt_1h (snd (run_phase b (drop_phase ok now days) db)) = lt_1h db"
  "lt_1d (snd (run_phase b (drop_phase ok now days) db)) = lt_1d db"
  by (simp_all add: run_phase_def DOWNSAMPLE_1M_def AGGREGATE_1H_def AGGREGATE_1D_def drop_phase_def drop_old_raw_partitions_def
      Let_def case_prod_unfold)

lemma trim_phase_tiers:
  "lt_1m (trim_phase ok now ret db) = (if ok Trim1m then trim_tier (cutoff now (downsample1mRetentionDays ret)) (lt_1m db) else lt_1m db)"
  "lt_1h (trim_phase ok now ret db) =
     (if ok Trim1m \<and> ok Trim1h then trim_tier (cutoff now (downsample1hRetentionDays ret)) (lt_1h db) else lt_1h db)"
  "lt_1d (trim_phase ok now ret db) =
     (if ok Trim1m \<and> ok Trim1h \<and> ok Trim1d then trim_tier (cutoff now (aggregate1dRetentionDays ret)) (lt_1d db) else lt_1d db)"
  by (simp_all add: trim_phase_def Let_def)

lemma compact_tiers:
  "deletes_expired (ok Trim1m) (cutoff now (downsample1mRetentionDays ret)) (lt_1m db) (lt_1m (snd (compact_tables ok now done ret db)))"
  "deletes_expired (ok Trim1m \<and> ok Trim1h) (cutoff now (downsample1hRetentionDays ret)) (lt_1h db)
     (lt_1h (snd (compact_tables ok now done ret db)))"
  "deletes_expired (ok Trim1m \<and> ok Trim1h \<and> ok Trim1d) (cutoff now (aggregate1dRetentionDays ret)) (lt_1d db)
     (lt_1d (snd (compact_tables ok now done ret db)))"
proof -
  obtain raw db1 where one: "run_phase (ok DropRaw) (drop_phase ok now (rawRetentionDays ret)) db = (raw, db1)" by fastforce
  obtain m1 db2 where two: "run_phase (ok Down1m) (DOWNSAMPLE_1M (now - 24 * 3600000) (now + 60000)) db1 = (m1, db2)" by fastforce
  obtain h1 db3 where three: "run_phase (ok Agg1h) (AGGREGATE_1H (now - 7 * 86400000) (now + 3600000)) db2 = (h1, db3)" by fastforce
  obtain d1 db4 where four: "run_phase (ok Agg1d) (AGGREGATE_1D (now - 90 * 86400000) (now + 86400000)) db3 = (d1, db4)" by fastforce
  have trimmed: "snd (compact_tables ok now done ret db) = trim_phase ok now ret db4"
    using one two three four by (simp add: compact_tables_def)
  note keys = phase_keys(1) [of db1 "ok Down1m" "now - 24 * 3600000" "now + 60000", unfolded two snd_conv]
    phase_keys(2) [of db2 "ok Agg1h" "now - 7 * 86400000" "now + 3600000", unfolded three snd_conv]
    phase_keys(3) [of db3 "ok Agg1d" "now - 90 * 86400000" "now + 86400000", unfolded four snd_conv]
  note others = phase_others(1-2) [of "ok Down1m" "now - 24 * 3600000" "now + 60000" db1, unfolded two snd_conv]
    phase_others(3-4) [of "ok Agg1h" "now - 7 * 86400000" "now + 3600000" db2, unfolded three snd_conv]
    phase_others(5-6) [of "ok Agg1d" "now - 90 * 86400000" "now + 86400000" db3, unfolded four snd_conv]
    phase_others(7-9) [of "ok DropRaw" ok now "rawRetentionDays ret" db, unfolded one snd_conv]
  have "set (js_keys (lt_1m db)) \<subseteq> set (js_keys (lt_1m db4))" "set (js_keys (lt_1h db)) \<subseteq> set (js_keys (lt_1h db4))"
    "set (js_keys (lt_1d db)) \<subseteq> set (js_keys (lt_1d db4))"
    using keys by (simp_all only: others)
  then show
    "deletes_expired (ok Trim1m) (cutoff now (downsample1mRetentionDays ret)) (lt_1m db) (lt_1m (snd (compact_tables ok now done ret db)))"
    "deletes_expired (ok Trim1m \<and> ok Trim1h) (cutoff now (downsample1hRetentionDays ret)) (lt_1h db)
       (lt_1h (snd (compact_tables ok now done ret db)))"
    "deletes_expired (ok Trim1m \<and> ok Trim1h \<and> ok Trim1d) (cutoff now (aggregate1dRetentionDays ret)) (lt_1d db)
       (lt_1d (snd (compact_tables ok now done ret db)))"
    unfolding trimmed trim_phase_tiers by (simp_all only: deletes_expired_trim)
qed

text \<open>
  C29. Compaction deletes what is past its retention and nothing else, whatever statements fail. A raw event
  goes exactly when its day is expired, the drop statement succeeds and so does the block of its partition;
  the partition goes with it, and the count is the number of events that went. In each tier a row goes only
  when its bucket is expired and the delete ran (the deletes share a \<open>try\<close>, so a failing one stops the later
  ones), and after a delete that ran no expired row is left. The next compaction is let in again.
\<close>
theorem compaction_deletes_expired:
  assumes "compact_work ok None now done args c = (res, c')"
    and "partitioned (cp_tables c)" and "ret = pg_retention (cp_retention c) args"
  shows "lt_raw (cp_tables c') = filter (\<lambda>r. \<not> (ok DropRaw \<and> ok (DropDay (utc_day (rr_time r)))
        \<and> utc_day (rr_time r) < utc_day now - rawRetentionDays ret)) (lt_raw (cp_tables c))
    \<and> lt_partitions (cp_tables c') = filter (\<lambda>d. \<not> (ok DropRaw \<and> ok (DropDay d)
        \<and> d < utc_day now - rawRetentionDays ret)) (lt_partitions (cp_tables c))
    \<and> pr_rawDeleted res = int (length (lt_raw (cp_tables c))) - int (length (lt_raw (cp_tables c')))
    \<and> deletes_expired (ok Trim1m) (cutoff now (downsample1mRetentionDays ret)) (lt_1m (cp_tables c)) (lt_1m (cp_tables c'))
    \<and> deletes_expired (ok Trim1m \<and> ok Trim1h) (cutoff now (downsample1hRetentionDays ret)) (lt_1h (cp_tables c)) (lt_1h (cp_tables c'))
    \<and> deletes_expired (ok Trim1m \<and> ok Trim1h \<and> ok Trim1d) (cutoff now (aggregate1dRetentionDays ret)) (lt_1d (cp_tables c)) (lt_1d (cp_tables c'))
    \<and> \<not> cp_compacting c'"
proof -
  obtain raw db1 where one: "run_phase (ok DropRaw) (drop_phase ok now (rawRetentionDays ret)) (cp_tables c) = (raw, db1)" by fastforce
  let ?db = "snd (compact_tables ok now done ret (cp_tables c))"
  have "cp_tables c' = ?db \<or> (\<exists>s. cp_tables c' = ?db\<lparr>lt_status := s\<rparr>)"
    and res: "pr_rawDeleted res = pr_rawDeleted (fst (compact_tables ok now done ret (cp_tables c)))" "\<not> cp_compacting c'"
    using assms(1) by (auto simp: compact_work_def case_prod_unfold Let_def assms(3) split: if_splits)
  then have tables: "lt_raw (cp_tables c') = lt_raw ?db" "lt_partitions (cp_tables c') = lt_partitions ?db"
    "lt_1m (cp_tables c') = lt_1m ?db" "lt_1h (cp_tables c') = lt_1h ?db" "lt_1d (cp_tables c') = lt_1d ?db" by auto
  have count: "pr_rawDeleted (fst (compact_tables ok now done ret (cp_tables c))) = raw"
    by (simp add: compact_tables_def one case_prod_unfold Let_def)
  have raws: "lt_raw db1 = filter (\<lambda>r. \<not> (ok DropRaw \<and> ok (DropDay (utc_day (rr_time r)))
        \<and> utc_day (rr_time r) < utc_day now - rawRetentionDays ret)) (lt_raw (cp_tables c))
      \<and> lt_partitions db1 = filter (\<lambda>d. \<not> (ok DropRaw \<and> ok (DropDay d) \<and> d < utc_day now - rawRetentionDays ret)) (lt_partitions (cp_tables c))
      \<and> raw = int (length (lt_raw (cp_tables c))) - int (length (lt_raw db1))"
  proof (cases "ok DropRaw")
    case True
    then have "drop_phase ok now (rawRetentionDays ret) (cp_tables c) = (raw, db1)" using one by (simp add: run_phase_def)
    from drop_phase_raw [OF this assms(2)] True show ?thesis by simp
  next
    case False
    then show ?thesis using one by (simp add: run_phase_def)
  qed
  note frame = compact_frame [of ok, OF one, of "done"] and tiers = compact_tiers [of ok now ret "cp_tables c" "done"]
  from raws frame tiers res count show ?thesis unfolding tables by simp
qed

text \<open>While one compaction runs, another is turned away and changes nothing.\<close>

lemma second_compaction_skipped:
  assumes "compact_enter c = (Inr None, c1)"
  shows "pg_compact ok init now done args c1 = (Inr (failed_result 0 ''already running''), c1)"
  using assms by (auto simp: compact_enter_def pg_compact_def split: if_splits)

text \<open>The background compaction calls without arguments: the configured retention plays no part in it.\<close>

lemma scheduled_ignores_config:
  "cp_tables (compaction_timer ok init now done (c\<lparr>cp_retention := r\<rparr>)) = cp_tables (compaction_timer ok init now done c)"
  by (auto simp: compaction_timer_def scheduleCompaction_def pg_compact_def compact_enter_def compact_work_def no_args_def
      pg_retention_def Let_def split: prod.splits option.splits)

section \<open>Queries\<close>

text \<open>Every placeholder a room query uses has its parameter.\<close>

lemma room_query_params:
  "run_select scan (select_room column roomId f t l) room_of time_of rows =
     (let hits = sort_key time_of (scan (filter (\<lambda>r. room_of r = roomId \<and> f \<le> time_of r \<and> time_of r \<le> t) rows))
      in if l > 0 then take (nat l) hits else hits)"
proof -
  have "(\<forall>c\<in>set (rs_conditions (select_room column roomId f t l)). cond_holds (select_room column roomId f t l) (room_of r) (time_of r) c)
      \<longleftrightarrow> room_of r = roomId \<and> f \<le> time_of r \<and> time_of r \<le> t" for r
    by (auto simp: select_room_def cond_holds_def sql_arg_def Let_def)
  moreover have "(case rs_limit (select_room column roomId f t l) of None \<Rightarrow> xs
        | Some n \<Rightarrow> (case sql_arg (select_room column roomId f t l) n of Some (SqlInt l) \<Rightarrow> take (nat l) xs | _ \<Rightarrow> []))
      = (if l > 0 then take (nat l) xs else xs)" for xs :: "'a list"
    by (simp add: select_room_def sql_arg_def Let_def)
  ultimately show ?thesis by (simp only: run_select_def Let_def)
qed

lemma insort_key_eq: "(\<forall>y\<in>set (x # ys). f y = g y) \<Longrightarrow> insort_key f x ys = insort_key g x ys"
  by (induction ys) auto

lemma sort_key_eq: "(\<forall>x\<in>set xs. f x = g x) \<Longrightarrow> sort_key f xs = sort_key g xs"
  by (induction xs) (simp_all add: insort_key_eq [of _ _ f g])

definition stores :: "compactor \<Rightarrow> adapter \<Rightarrow> bool" where
  "stores c a \<longleftrightarrow> list_all (\<lambda>e. raw_of e \<noteq> None) (ad_events a) \<and> lt_raw (cp_tables c) = map (the \<circ> raw_of) (ad_events a)
     \<and> cp_closed c = ad_closed a"

lemma raw_of_fields: "raw_of e \<noteq> None \<Longrightarrow> rr_roomId (the (raw_of e)) = le_roomId e \<and> rr_time (the (raw_of e)) = le_timestamp e"
  by (auto simp: raw_of_def split: option.splits)

lemma stores_select:
  assumes "stores c a" and "\<And>e. raw_of e \<noteq> None \<Longrightarrow> P (the (raw_of e)) \<longleftrightarrow> Q e"
  shows "filter P (lt_raw (cp_tables c)) = map (the \<circ> raw_of) (filter Q (ad_events a))"
  using assms by (auto simp: stores_def list_all_iff filter_map intro!: arg_cong [of _ _ "map _"] filter_cong)

lemma stores_sort:
  assumes "stores c a"
  shows "sort_key rr_time (map (the \<circ> raw_of) (filter Q (ad_events a))) = map (the \<circ> raw_of) (sort_key le_timestamp (filter Q (ad_events a)))"
proof -
  have "sort_key (rr_time \<circ> (the \<circ> raw_of)) xs = sort_key le_timestamp xs" if "\<forall>e\<in>set xs. raw_of e \<noteq> None" for xs
    using that by (intro sort_key_eq) (simp add: raw_of_fields)
  then show ?thesis using assms by (simp add: sort_key_map [symmetric] stores_def list_all_iff comp_def)
qed

text \<open>
  Over the same stored events, a query that names its range and is not answered from a tier: the same
  timestamps, the same rows as a bag when the limit cuts none, and the very same rows when no two of them
  have one timestamp.
\<close>

lemma raw_agreement:
  assumes "stores c a" and "qy_from q = Some f" and "qy_to q = Some t" and "bucket_size (resolve now q) = None"
    and "any_order (sc_raw sc)" and "\<not> cp_closed c"
  shows "\<exists>rows es. pg_queryRoom sc now room q c = Inr (RawRows rows) \<and> queryRoom now new_id room q a = Inr (RawEvents es)
    \<and> map rr_time rows = map le_timestamp es
    \<and> (take_limit (qy_limit q) (filter (in_range room q) (ad_events a)) = filter (in_range room q) (ad_events a) \<longrightarrow>
        mset rows = mset (map (the \<circ> raw_of) es))
    \<and> (distinct (map le_timestamp (filter (in_range room q) (ad_events a))) \<longrightarrow> rows = map (the \<circ> raw_of) es)"
proof -
  let ?cut = "take_limit (qy_limit q)" and ?es = "filter (in_range room q) (ad_events a)"
  let ?hits = "map (the \<circ> raw_of) ?es"
  have same: "pg_resolve now q = resolve now q" by (simp add: pg_resolve_def resolve_def Let_def)
  have tier: "resolve now q \<noteq> ''1m'' \<and> resolve now q \<noteq> ''1h'' \<and> resolve now q \<noteq> ''1d''"
    using assms(4) by (auto simp: bucket_size_def split: if_splits)
  have "filter (\<lambda>r. rr_roomId r = room \<and> f \<le> rr_time r \<and> rr_time r \<le> t) (lt_raw (cp_tables c)) = ?hits"
    using assms(2,3) by (intro stores_select [OF assms(1)]) (drule raw_of_fields, auto simp: in_range_def)
  then have "queryRoomRaw sc room f t (option_or (qy_limit q) 1000) (cp_tables c) = ?cut (sort_key rr_time (sc_raw sc ?hits))"
    by (simp add: queryRoomRaw_def room_query_params Let_def take_limit_def)
  then have pg: "pg_queryRoom sc now room q c = Inr (RawRows (?cut (sort_key rr_time (sc_raw sc ?hits))))"
    using assms(2,3,6) tier same by (simp add: pg_queryRoom_def Let_def option_or_def)
  have mem: "queryRoom now new_id room q a = Inr (RawEvents (?cut (sort_key le_timestamp ?es)))"
    using assms(1,4,6) by (simp add: queryRoom_def Let_def stores_def)
  have cut_map: "map g (?cut xs) = ?cut (map g xs)" for g :: "'x \<Rightarrow> 'y" and xs by (simp add: take_limit_def Let_def take_map)
  have sorted: "sort_key rr_time ?hits = map (the \<circ> raw_of) (sort_key le_timestamp ?es)" by (rule stores_sort [OF assms(1)])
  have stamp: "rr_time (the (raw_of e)) = le_timestamp e" if "e \<in> set ?es" for e
    using that assms(1) raw_of_fields [of e] by (auto simp: stores_def list_all_iff)
  have times: "map rr_time ?hits = map le_timestamp ?es" using stamp by simp
  have "map rr_time (sort_key rr_time (sc_raw sc ?hits)) = map rr_time (sort_key rr_time ?hits)" by (rule sorted_keys [OF assms(5)])
  also have "\<dots> = map le_timestamp (sort_key le_timestamp ?es)" unfolding sorted using stamp by simp
  finally have one: "map rr_time (?cut (sort_key rr_time (sc_raw sc ?hits))) = map le_timestamp (?cut (sort_key le_timestamp ?es))"
    by (simp only: cut_map)
  have two: "mset (?cut (sort_key rr_time (sc_raw sc ?hits))) = mset (map (the \<circ> raw_of) (?cut (sort_key le_timestamp ?es)))"
    if "?cut ?es = ?es"
  proof -
    have all: "?cut xs = xs" if "length xs = length ?es" for xs :: "'x list"
      using \<open>?cut ?es = ?es\<close> that by (auto simp: take_limit_def Let_def take_all_iff)
    show ?thesis by (simp add: all any_order_length [OF assms(5)] any_orderD [OF assms(5)])
  qed
  have three: "?cut (sort_key rr_time (sc_raw sc ?hits)) = map (the \<circ> raw_of) (?cut (sort_key le_timestamp ?es))"
    if "distinct (map le_timestamp ?es)"
  proof -
    have "inj_on rr_time (set ?hits)" using that times by (metis distinct_map)
    from sorted_rows [OF assms(5) this] show ?thesis unfolding cut_map sorted by simp
  qed
  show ?thesis using pg mem one two three by blast
qed

text \<open>Without a range they differ: the memory adapter then searches every event, PostgreSQL the last day.\<close>

lemma default_range_differs:
  assumes "qy_from q = None" and "qy_to q = None" and "qy_resolution q = None" and "\<not> cp_closed c"
  shows "pg_queryRoom sc now room q c = Inr (RawRows (queryRoomRaw sc room (now - 86400000) now (option_or (qy_limit q) 1000) (cp_tables c)))"
    and "in_range room q e \<longleftrightarrow> le_roomId e = room"
  using assms by (simp_all add: pg_queryRoom_def pg_resolve_def option_or_def in_range_def)

section \<open>Instances\<close>

text \<open>
  A room with raw events on three days and a minute row that is expired beside one that is not, compacted as
  the scheduler does; the block of one of the two expired partitions fails.
\<close>

definition old_tables :: loc_tables where
  "old_tables = empty_tables\<lparr>lt_partitions := [0, 1, 100], lt_raw := [raw_at ''r'' 1000, raw_at ''r'' 86400000, raw_at ''r'' 8640000000],
     lt_1m := [((''r'', 0), minute_of [raw_at ''r'' 1000]), ((''r'', 8640000000), minute_of [raw_at ''r'' 8640000000])]\<rparr>"

definition old_compactor :: compactor where
  "old_compactor = \<lparr>cp_tables = old_tables, cp_retention = default_retention, cp_interval = 300000, cp_compacting = True,
     cp_lastResult = None, cp_lastRun = None, cp_nextRun = None, cp_closed = False\<rparr>"

lemma minute_tier_exact_witness:
  "js_get (lt_1m (snd (DOWNSAMPLE_1M 0 120000 two_rows))) (''r'', 60000) = Some (minute_of (lt_raw two_rows))"
  using minute_tier_exact [of 60000 0 120000 two_rows "''r''"]
  by (simp add: truncateToMinute_def bucket_of_def two_rows_def raw_at_def Let_def)

lemma compaction_deletes_expired_witness:
  "let (res, c') = compact_work (\<lambda>ph. ph \<noteq> DropDay 1) None 8640000000 8640000005 no_args old_compactor
   in lt_raw (cp_tables c') = [raw_at ''r'' 86400000, raw_at ''r'' 8640000000] \<and> pr_rawDeleted res = 1
      \<and> (''r'', 8640000000) \<in> set (js_keys (lt_1m (cp_tables c'))) \<and> (''r'', 0) \<notin> set (js_keys (lt_1m (cp_tables c')))
      \<and> \<not> cp_compacting c'"
proof -
  obtain res c' where run: "compact_work (\<lambda>ph. ph \<noteq> DropDay 1) None 8640000000 8640000005 no_args old_compactor = (res, c')" by fastforce
  have parts: "partitioned (cp_tables old_compactor)"
    by (simp add: partitioned_def old_compactor_def old_tables_def raw_at_def utc_day_def)
  have tiers: "js_keys (lt_1m (cp_tables old_compactor)) = [(''r'', 0), (''r'', 8640000000)]"
    by (simp add: old_compactor_def old_tables_def)
  have ret: "rawRetentionDays (pg_retention (cp_retention old_compactor) no_args) = 7"
    "downsample1mRetentionDays (pg_retention (cp_retention old_compactor) no_args) = 90"
    by (simp_all add: pg_retention_def no_args_def option_or_def)
  have raws: "lt_raw (cp_tables old_compactor) = [raw_at ''r'' 1000, raw_at ''r'' 86400000, raw_at ''r'' 8640000000]"
    by (simp add: old_compactor_def old_tables_def)
  note all = compaction_deletes_expired [OF run parts refl, unfolded ret raws]
  have days: "utc_day (rr_time (raw_at ''r'' 1000)) = 0" "utc_day (rr_time (raw_at ''r'' 86400000)) = 1"
    "utc_day (rr_time (raw_at ''r'' 8640000000)) = 100" "utc_day 8640000000 = 100" "cutoff 8640000000 90 = 864000000"
    by (simp_all add: utc_day_def raw_at_def cutoff_def)
  from all show ?thesis unfolding run deletes_expired_def tiers days Let_def prod.case
    by (force simp: days simp del: set_map)
qed

end
