(* ===== verification/PgStorageProperties.thy ===== *)
theory PgStorageProperties
  imports PgPipelineProperties PgCompactionProperties
begin

text \<open>
  The write pipeline and the tables of \<open>PostgresAdapter\<close> together, beside the memory adapter: when nothing
  was dropped or lost and the buffer has drained, both answer raw queries alike, up to the order of rows with
  one timestamp.
\<close>

declare map_of_eq_Some_iff [simp del] Some_eq_map_of_iff [simp del]

text \<open>The inserts of a run, one by one; \<open>None\<close> if one of them could not have succeeded.\<close>

fun apply_stored :: "pipe_out list \<Rightarrow> loc_tables \<Rightarrow> loc_tables option" where
  "apply_stored [] db = Some db"
| "apply_stored (Stored es # outs) db = Option.bind (insert_events es db) (apply_stored outs)"
| "apply_stored (_ # outs) db = apply_stored outs db"

lemma insert_events_Some:
  "insert_events es db = Some db' \<Longrightarrow> lt_raw db' = lt_raw db @ map (the \<circ> raw_of) es \<and> list_all (\<lambda>e. raw_of e \<noteq> None) es"
  by (auto simp: inserted_iff list_all_iff split: if_splits option.splits)

lemma apply_stored_rows:
  "apply_stored outs db = Some db' \<Longrightarrow>
     lt_raw db' = lt_raw db @ map (the \<circ> raw_of) (stored_events outs) \<and> list_all (\<lambda>e. raw_of e \<noteq> None) (stored_events outs)"
proof (induction outs db rule: apply_stored.induct)
  case (2 es outs db)
  then obtain db1 where one: "insert_events es db = Some db1" "apply_stored outs db1 = Some db'" by (auto simp: bind_eq_Some_conv)
  from 2 one insert_events_Some [OF one(1)] show ?case by (simp add: pipe_events)
qed (simp_all add: pipe_events)

text \<open>The same writes to the memory adapter, which numbers and dates the events.\<close>

definition write_all :: "time \<Rightarrow> (nat \<Rightarrow> string) \<Rightarrow> pipe_out list \<Rightarrow> adapter \<Rightarrow> adapter" where
  "write_all now new_id outs a =
     fold (\<lambda>x a. case x of Accepted es \<Rightarrow> snd (writeBatch now new_id es a) | _ \<Rightarrow> a) outs a"

lemma raw_of_stamped: "raw_of (e\<lparr>le_id := i, le_createdAt := t\<rparr>) = raw_of e"
  by (simp add: raw_of_def event_lat_def event_lon_def split: option.split)

lemma map_zip_raw: "length es = length is \<Longrightarrow> map raw_of (map (\<lambda>(e, i). e\<lparr>le_id := i, le_createdAt := t\<rparr>) (zip es is)) = map raw_of es"
  by (induction es "is" rule: list_induct2) (simp_all add: raw_of_stamped)

lemma write_all_rows:
  assumes "\<not> ad_closed a"
  shows "map raw_of (ad_events (write_all now new_id outs a)) = map raw_of (ad_events a) @ map raw_of (accepted_events outs)
    \<and> \<not> ad_closed (write_all now new_id outs a)"
  using assms
proof (induction outs arbitrary: a)
  case (Cons x outs)
  show ?case
  proof (cases x)
    case (Accepted es)
    let ?b = "snd (writeBatch now new_id es a)"
    have "map raw_of (ad_events ?b) = map raw_of (ad_events a) @ map raw_of es \<and> \<not> ad_closed ?b"
      using Cons.prems map_zip_raw [of es "map new_id [0..<length es]" now] by (auto simp: writeBatch_def)
    then show ?thesis using Cons.IH [of ?b] Accepted by (simp add: write_all_def pipe_events)
  qed (use Cons in \<open>simp_all add: write_all_def pipe_events\<close>)
qed (simp add: write_all_def pipe_events)

lemma nothing_lost: "lost_events outs = [] \<Longrightarrow> settled_events outs = stored_events outs"
  by (induction outs) (auto simp: pipe_events split: pipe_out.splits)

lemma nothing_dropped: "dropped_events outs = [] \<Longrightarrow> removed_events outs = taken_events outs"
  by (induction outs) (auto simp: pipe_events split: pipe_out.splits)

lemma drained_complete:
  assumes "pipe_run cfg pipe_init outs p" and "pp_close p = Open" and "pp_buffer p = []" and "in_flight p = []"
    and "dropped_events outs = []" and "lost_events outs = []"
  shows "stored_events outs = accepted_events outs"
proof -
  have "accepted_events outs = removed_events outs"
    using run_accounts [OF assms(1) init_ok(1)] assms(3) by (simp add: accounts_def init_ok)
  moreover have "taken_events outs = settled_events outs" using solo_run [OF assms(1,2)] assms(4) by simp
  ultimately show ?thesis using nothing_lost [OF assms(6)] nothing_dropped [OF assms(5)] by simp
qed

lemma map_the: "map raw_of xs = map raw_of ys \<Longrightarrow> map (the \<circ> raw_of) xs = map (the \<circ> raw_of) ys"
  by (metis list.map_comp)

lemma in_range_rows:
  assumes "map raw_of xs = map raw_of ys" and "list_all (\<lambda>e. raw_of e \<noteq> None) ys"
  shows "map raw_of (filter (in_range room q) xs) = map raw_of (filter (in_range room q) ys)
    \<and> map le_timestamp (filter (in_range room q) xs) = map le_timestamp (filter (in_range room q) ys)"
  using assms
proof (induction xs arbitrary: ys)
  case (Cons x xs)
  obtain y zs where ys: "ys = y # zs" using Cons.prems(1) by (cases ys) auto
  then have same: "raw_of x = raw_of y" "raw_of y \<noteq> None" and rest: "map raw_of xs = map raw_of zs" "list_all (\<lambda>e. raw_of e \<noteq> None) zs"
    using Cons.prems by simp_all
  then have fields: "le_roomId x = le_roomId y" "le_timestamp x = le_timestamp y"
    using raw_of_fields [of x] raw_of_fields [of y] by simp_all
  then have "in_range room q x = in_range room q y" unfolding in_range_def by (simp split: option.split)
  then show ?case using Cons.IH [OF rest] same fields by (simp add: ys)
qed simp_all

text \<open>
  C31. The two adapters answer raw queries alike, up to the order PostgreSQL leaves open. After any run of the
  PostgreSQL adapter that dropped and lost nothing and has drained, whatever order its scans take, a query that
  names its range and is not answered from a tier returns events at the same timestamps, in the same order, as
  the memory adapter after the same writes. They are the same events when the limit cuts none of the accepted
  events in range, and come in the very same order when no two of those have one timestamp.
\<close>
theorem drained_storage_agrees:
  assumes "pipe_run cfg pipe_init outs p" and "pp_close p = Open" and "pp_buffer p = []" and "in_flight p = []"
    and "dropped_events outs = []" and "lost_events outs = []"
    and "apply_stored outs (schema_init start empty_tables) = Some (cp_tables c)" and "\<not> cp_closed c"
    and "any_order (sc_raw sc)"
    and "qy_from q = Some f" and "qy_to q = Some t" and "bucket_size (resolve now q) = None"
    and "hits = filter (in_range room q) (accepted_events outs)"
  shows "\<exists>rows es. pg_queryRoom sc now room q c = Inr (RawRows rows)
    \<and> queryRoom now new_id room q (write_all t0 new_id outs adapter_init) = Inr (RawEvents es)
    \<and> map rr_time rows = map le_timestamp es
    \<and> (take_limit (qy_limit q) hits = hits \<longrightarrow> mset rows = mset (map (the \<circ> raw_of) es))
    \<and> (distinct (map le_timestamp hits) \<longrightarrow> rows = map (the \<circ> raw_of) es)"
proof -
  let ?a = "write_all t0 new_id outs adapter_init"
  have all: "stored_events outs = accepted_events outs" by (rule drained_complete [OF assms(1-6)])
  have "lt_raw (schema_init start empty_tables) = []"
  proof -
    have "lt_raw (fold create_daily_partition ds db) = lt_raw db" for ds db
      by (induction ds arbitrary: db) (simp_all add: create_daily_partition_def)
    then show ?thesis by (simp add: schema_init_def empty_tables_def)
  qed
  then have rows: "lt_raw (cp_tables c) = map (the \<circ> raw_of) (accepted_events outs)"
    and good: "list_all (\<lambda>e. raw_of e \<noteq> None) (accepted_events outs)"
    using apply_stored_rows [OF assms(7)] all by simp_all
  have mem: "map raw_of (ad_events ?a) = map raw_of (accepted_events outs)" "\<not> ad_closed ?a"
    using write_all_rows [of adapter_init t0 new_id outs] by (simp_all add: adapter_init_def)
  have "list_all (\<lambda>r. r \<noteq> None) (map raw_of (ad_events ?a))" using good mem(1) by (simp add: list.pred_map comp_def)
  then have "stores c ?a"
    using rows map_the [OF mem(1)] mem(2) assms(8) by (simp add: stores_def list.pred_map comp_def)
  note agree = raw_agreement [OF this assms(10-12,9,8), of room new_id]
  note hits = in_range_rows [OF mem(1) good, of room q, folded assms(13)]
  have "length (filter (in_range room q) (ad_events ?a)) = length hits" using hits by (metis length_map)
  then have "take_limit (qy_limit q) hits = hits \<longleftrightarrow>
      take_limit (qy_limit q) (filter (in_range room q) (ad_events ?a)) = filter (in_range room q) (ad_events ?a)"
    by (simp add: take_limit_def Let_def)
  with agree hits show ?thesis by simp
qed

text \<open>Two events written, the connection made, one insert: both are in the table, and the scans run backwards.\<close>

definition pair_events :: "loc_event list" where
  "pair_events = [pipe_event ''a'', (pipe_event ''b'')\<lparr>le_timestamp := 1000\<rparr>]"

definition pair_written :: pipe where
  "pair_written = snd (pg_writeBatch pipe_demo_cfg pair_events pipe_init)"

definition pair_ready :: pipe where
  "pair_ready = init_done True (create_pool pair_written)"

definition pair_taken :: pipe where
  "pair_taken = snd (resume_flush pipe_demo_cfg 0 True pair_ready)"

definition pair_done :: pipe where
  "pair_done = snd (resume_flush pipe_demo_cfg 0 True pair_taken)"

lemmas pair_defs = pair_done_def pair_taken_def pair_ready_def pair_written_def pair_events_def create_pool_def init_done_def
  resume_flush_def flush_loop_def end_flush_def

definition pair_outs :: "pipe_out list" where
  "pair_outs = [Accepted pair_events, Dropped [], Taken pair_events, Stored pair_events]"

lemma pair_run: "pipe_run pipe_demo_cfg pipe_init pair_outs pair_done"
proof -
  have "pg_writeBatch pipe_demo_cfg pair_events pipe_init = (Inr [Accepted pair_events, Dropped []], pair_written)"
    by (simp add: pair_written_def pair_events_def pipe_demo_defs)
  from r_step [OF r_refl s_write [OF this]]
  have "pipe_run pipe_demo_cfg pipe_init [Accepted pair_events, Dropped []] pair_written" by simp
  from r_step [OF r_step [OF this s_pool] s_init]
  have ready: "pipe_run pipe_demo_cfg pipe_init [Accepted pair_events, Dropped []] pair_ready" by (simp add: pair_ready_def)
  have one: "resume_flush pipe_demo_cfg 0 True pair_ready = ([Taken pair_events], pair_taken)"
    by (simp add: pair_defs pipe_demo_defs Let_def)
  have two: "resume_flush pipe_demo_cfg 0 True pair_taken = ([Stored pair_events], pair_done)"
    by (simp add: pair_defs pipe_demo_defs Let_def)
  from r_step [OF r_step [OF ready s_flush [OF one]] s_flush [OF two]] show ?thesis by (simp add: pair_outs_def)
qed

definition pair_query :: query where
  "pair_query = \<lparr>qy_from = Some 0, qy_to = Some 2000, qy_limit = None, qy_resolution = None\<rparr>"

definition pair_compactor :: compactor where
  "pair_compactor = old_compactor\<lparr>cp_tables := the (apply_stored pair_outs (schema_init 0 empty_tables))\<rparr>"

definition backwards :: scans where
  "backwards = \<lparr>sc_raw = rev, sc_1m = rev, sc_1h = rev, sc_1d = rev\<rparr>"

lemma drained_storage_agrees_witness:
  "pg_queryRoom backwards 5000 ''room'' pair_query pair_compactor = Inr (RawRows (map (the \<circ> raw_of) pair_events))"
proof -
  have "insert_events pair_events (schema_init 0 empty_tables) \<noteq> None"
    using schema_init_days [of 0 empty_tables]
    by (simp add: inserted_iff pair_events_def raw_of_def pipe_event_def event_lat_def event_lon_def or_else_def utc_day_def)
  then have "apply_stored pair_outs (schema_init 0 empty_tables) = Some (cp_tables pair_compactor)"
    by (auto simp: pair_compactor_def pair_outs_def)
  moreover have "pp_close pair_done = Open" "pp_buffer pair_done = []" "in_flight pair_done = []"
    by (simp_all add: pair_defs pipe_demo_defs Let_def in_flight_def)
  moreover have "dropped_events pair_outs = []" "lost_events pair_outs = []" by (simp_all add: pair_outs_def pipe_events)
  moreover have raw: "resolve 5000 pair_query = ''raw''" by (simp add: resolve_def pair_query_def option_or_def)
  moreover have "bucket_size (resolve 5000 pair_query) = None" by (simp add: bucket_size_def raw)
  moreover have "\<not> cp_closed pair_compactor" by (simp add: pair_compactor_def old_compactor_def)
  moreover have "qy_from pair_query = Some 0" "qy_to pair_query = Some 2000" by (simp_all add: pair_query_def)
  moreover have "any_order (sc_raw backwards)" by (simp add: backwards_def)
  ultimately obtain rows es where run: "pg_queryRoom backwards 5000 ''room'' pair_query pair_compactor = Inr (RawRows rows)"
    "queryRoom 5000 (\<lambda>_. ''x'') ''room'' pair_query (write_all 7 (\<lambda>_. ''x'') pair_outs adapter_init) = Inr (RawEvents es)"
    and same: "distinct (map le_timestamp (filter (in_range ''room'' pair_query) (accepted_events pair_outs))) \<longrightarrow> rows = map (the \<circ> raw_of) es"
    using drained_storage_agrees [OF pair_run, of 0 pair_compactor backwards pair_query 0 2000 5000 _ "''room''" "\<lambda>_. ''x''" 7] by blast
  have "distinct (map le_timestamp (filter (in_range ''room'' pair_query) (accepted_events pair_outs)))"
    by (simp add: pair_outs_def pair_events_def pipe_events in_range_def pipe_event_def)
  moreover have "map (the \<circ> raw_of) es = map (the \<circ> raw_of) pair_events"
    using run(2) raw
    by (auto simp: queryRoom_def Let_def write_all_def pair_outs_def pair_events_def writeBatch_def adapter_init_def in_range_def
        pair_query_def pipe_event_def take_limit_def option_or_def raw_of_def event_lat_def event_lon_def or_else_def)
  ultimately show ?thesis using run(1) same by simp
qed

end
