(* ===== verification/Kalman.thy ===== *)
theory Kalman
  imports Complex_Main Json
begin

text \<open>
  The first half of \<open>src/predictor.js\<close>: the local east-north plane and \<open>KalmanFilterCV\<close>, the Kalman
  filter with a constant-velocity model.

  Numbers are exact reals, matrices are lists of rows as in the code, and the loops over indices are
  sums over them. \<open>Math.atan2(y, x)\<close> is the argument of the complex number \<open>x + i y\<close>.
\<close>

section \<open>Plane coordinates\<close>

definition EARTH_RADIUS :: real where
  "EARTH_RADIUS = 6371000"

definition latLonToEnu :: "real \<Rightarrow> real \<Rightarrow> real \<Rightarrow> real \<Rightarrow> real \<times> real" where
  "latLonToEnu lat lon lat0 lon0 =
     (let dLat = (lat - lat0) * pi / 180;
          dLon = (lon - lon0) * pi / 180
      in (EARTH_RADIUS * dLon * cos (lat0 * pi / 180), EARTH_RADIUS * dLat))"

definition enuToLatLon :: "real \<Rightarrow> real \<Rightarrow> real \<Rightarrow> real \<Rightarrow> real \<times> real" where
  "enuToLatLon x y lat0 lon0 =
     (lat0 + y / EARTH_RADIUS * 180 / pi,
      lon0 + x / (EARTH_RADIUS * cos (lat0 * pi / 180)) * 180 / pi)"

definition distanceEnu :: "real \<Rightarrow> real \<Rightarrow> real \<Rightarrow> real \<Rightarrow> real" where
  "distanceEnu x1 y1 x2 y2 = (let dx = x2 - x1; dy = y2 - y1 in sqrt (dx * dx + dy * dy))"

definition atan2 :: "real \<Rightarrow> real \<Rightarrow> real" where
  "atan2 y x = Arg (Complex x y)"

section \<open>Matrices\<close>

type_synonym matrix = "real list list"

definition rows :: "matrix \<Rightarrow> nat" where
  "rows A = length A"

definition cols :: "matrix \<Rightarrow> nat" where
  "cols A = length (A ! 0)"

definition tabulate :: "nat \<Rightarrow> nat \<Rightarrow> (nat \<Rightarrow> nat \<Rightarrow> real) \<Rightarrow> matrix" where
  "tabulate r c f = map (\<lambda>i. map (f i) [0..<c]) [0..<r]"

definition matMul :: "matrix \<Rightarrow> matrix \<Rightarrow> matrix" where
  "matMul A B = tabulate (rows A) (cols B) (\<lambda>i j. \<Sum>k\<leftarrow>[0..<cols A]. A ! i ! k * B ! k ! j)"

definition matVecMul :: "matrix \<Rightarrow> real list \<Rightarrow> real list" where
  "matVecMul A v = map (\<lambda>i. \<Sum>j\<leftarrow>[0..<cols A]. A ! i ! j * v ! j) [0..<rows A]"

definition matAdd :: "matrix \<Rightarrow> matrix \<Rightarrow> matrix" where
  "matAdd A B = tabulate (rows A) (cols A) (\<lambda>i j. A ! i ! j + B ! i ! j)"

definition matSub :: "matrix \<Rightarrow> matrix \<Rightarrow> matrix" where
  "matSub A B = tabulate (rows A) (cols A) (\<lambda>i j. A ! i ! j - B ! i ! j)"

definition transpose_mat :: "matrix \<Rightarrow> matrix" where
  "transpose_mat A = tabulate (cols A) (rows A) (\<lambda>i j. A ! j ! i)"

definition inv2x2 :: "matrix \<Rightarrow> matrix" where
  "inv2x2 M =
     (let a = M ! 0 ! 0; b = M ! 0 ! 1; c = M ! 1 ! 0; d = M ! 1 ! 1;
          det = a * d - b * c
      in if \<bar>det\<bar> < 1 / 10 ^ 12 then [[10 ^ 12, 0], [0, 10 ^ 12]]
         else [[d / det, - b / det], [- c / det, a / det]])"

definition eigenvalues2x2 :: "matrix \<Rightarrow> real \<times> real" where
  "eigenvalues2x2 M =
     (let a = M ! 0 ! 0; b = M ! 0 ! 1; c = M ! 1 ! 0; d = M ! 1 ! 1;
          trace = a + d; det = a * d - b * c; discriminant = trace * trace - 4 * det
      in if discriminant < 0 then (trace / 2, trace / 2)
         else ((trace + sqrt discriminant) / 2, (trace - sqrt discriminant) / 2))"

section \<open>The filter\<close>

record kalman =
  kf_x :: "real list"
  kf_P :: matrix
  kf_Q :: matrix
  kf_R :: matrix
  kf_initialized :: bool
  kf_lastTimestamp :: "time option"
  kf_origin :: "(real \<times> real) option"

definition createProcessNoise :: "real \<Rightarrow> matrix" where
  "createProcessNoise q = [[q, 0, 0, 0], [0, q, 0, 0], [0, 0, q, 0], [0, 0, 0, q]]"

definition new_kalman :: "real \<Rightarrow> real \<Rightarrow> kalman" where
  "new_kalman processNoise measurementNoise =
     \<lparr>kf_x = [0, 0, 0, 0], kf_P = [[100, 0, 0, 0], [0, 100, 0, 0], [0, 0, 100, 0], [0, 0, 0, 100]],
       kf_Q = createProcessNoise processNoise,
      kf_R = [[measurementNoise * measurementNoise, 0], [0, measurementNoise * measurementNoise]],
      kf_initialized = False, kf_lastTimestamp = None, kf_origin = None\<rparr>"

definition initialize :: "real \<Rightarrow> real \<Rightarrow> time \<Rightarrow> kalman \<Rightarrow> kalman" where
  "initialize lat lon t f = f\<lparr>kf_origin := Some (lat, lon), kf_lastTimestamp := Some t, kf_initialized := True\<rparr>"

definition motion :: "real \<Rightarrow> matrix" where
  "motion dt = [[1, 0, dt, 0], [0, 1, 0, dt], [0, 0, 1, 0], [0, 0, 0, 1]]"

definition observation :: matrix where
  "observation = [[1, 0, 0, 0], [0, 1, 0, 0]]"

definition identity4 :: matrix where
  "identity4 = [[1, 0, 0, 0], [0, 1, 0, 0], [0, 0, 1, 0], [0, 0, 0, 1]]"

definition predictState :: "real \<Rightarrow> kalman \<Rightarrow> real list \<times> matrix" where
  "predictState dt f =
     (let F = motion dt
      in (matVecMul F (kf_x f), matAdd (matMul (matMul F (kf_P f)) (transpose_mat F)) (kf_Q f)))"

definition predict :: "real \<Rightarrow> kalman \<Rightarrow> kalman" where
  "predict dt f =
     (let F = motion dt
      in f\<lparr>kf_x := matVecMul F (kf_x f), kf_P := matAdd (matMul (matMul F (kf_P f)) (transpose_mat F)) (kf_Q f)\<rparr>)"

definition innovation_cov :: "kalman \<Rightarrow> matrix" where
  "innovation_cov f =
     (let H = observation in matAdd (matMul (matMul H (kf_P f)) (transpose_mat H)) (kf_R f))"

definition gain :: "kalman \<Rightarrow> matrix" where
  "gain f = matMul (matMul (kf_P f) (transpose_mat observation)) (inv2x2 (innovation_cov f))"

text \<open>The correction with the Joseph form of the covariance.\<close>

definition correct :: "real \<times> real \<Rightarrow> kalman \<Rightarrow> kalman" where
  "correct y f =
     (let K = gain f;
          Ky = matVecMul K [fst y, snd y];
          IminusKH = matSub identity4 (matMul K observation);
          IminusKHP = matMul IminusKH (kf_P f);
          KRKt = matMul (matMul K (kf_R f)) (transpose_mat K)
      in f\<lparr>kf_x := map (\<lambda>i. kf_x f ! i + Ky ! i) [0, 1, 2, 3],
           kf_P := matAdd (matMul IminusKHP (transpose_mat IminusKH)) KRKt\<rparr>)"

text \<open>\<open>update\<close> also returns the innovation and its covariance.\<close>

definition advance :: "time \<Rightarrow> kalman \<Rightarrow> kalman" where
  "advance t f =
     (let f1 = (case kf_lastTimestamp f of
                  None \<Rightarrow> f
                | Some t0 \<Rightarrow> (let dt = real_of_int (t - t0) / 1000 in if dt > 0 then predict dt f else f))
      in f1\<lparr>kf_lastTimestamp := Some t\<rparr>)"

definition update :: "real \<times> real \<Rightarrow> time \<Rightarrow> kalman \<Rightarrow> ((real \<times> real) \<times> matrix) \<times> kalman" where
  "update z t f =
     (if \<not> kf_initialized f then (((0, 0), [[0, 0], [0, 0]]), f)
      else let f1 = advance t f;
               y = (fst z - kf_x f1 ! 0, snd z - kf_x f1 ! 1)
           in ((y, innovation_cov f1), correct y f1))"

definition getPositionCovariance :: "kalman \<Rightarrow> matrix" where
  "getPositionCovariance f = [[kf_P f ! 0 ! 0, kf_P f ! 0 ! 1], [kf_P f ! 1 ! 0, kf_P f ! 1 ! 1]]"

record filter_state =
  fs_x :: real
  fs_y :: real
  fs_vx :: real
  fs_vy :: real
  fs_speed :: real
  fs_heading :: real
  fs_covariance :: matrix

definition getState :: "kalman \<Rightarrow> filter_state" where
  "getState f = \<lparr>fs_x = kf_x f ! 0, fs_y = kf_x f ! 1, fs_vx = kf_x f ! 2, fs_vy = kf_x f ! 3,
     fs_speed = sqrt (kf_x f ! 2 * kf_x f ! 2 + kf_x f ! 3 * kf_x f ! 3),
     fs_heading = atan2 (kf_x f ! 3) (kf_x f ! 2), fs_covariance = kf_P f\<rparr>"

definition setState :: "real list \<Rightarrow> matrix \<Rightarrow> kalman \<Rightarrow> kalman" where
  "setState x P f = f\<lparr>kf_x := x, kf_P := P\<rparr>"

record ellipse =
  semiMajor :: real
  semiMinor :: real
  orientation :: real

definition ellipse_of :: "matrix \<Rightarrow> ellipse" where
  "ellipse_of C =
     (let eig = eigenvalues2x2 C
      in \<lparr>semiMajor = sqrt (max 0 (fst eig)), semiMinor = sqrt (max 0 (snd eig)),
          orientation = 0.5 * atan2 (2 * C ! 0 ! 1) (C ! 0 ! 0 - C ! 1 ! 1)\<rparr>)"

definition confidenceEllipse :: "kalman \<Rightarrow> ellipse" where
  "confidenceEllipse f = ellipse_of (getPositionCovariance f)"

definition shouldReorigin :: "real \<Rightarrow> real \<Rightarrow> kalman \<Rightarrow> bool" where
  "shouldReorigin lat lon f =
     (case kf_origin f of
        None \<Rightarrow> False
      | Some (lat0, lon0) \<Rightarrow> (let (x, y) = latLonToEnu lat lon lat0 lon0 in sqrt (x * x + y * y) > 50000))"

text \<open>\<open>reorigin\<close> is called with an origin set; the fix becomes the new origin.\<close>

definition reorigin :: "real \<Rightarrow> real \<Rightarrow> kalman \<Rightarrow> kalman" where
  "reorigin lat lon f =
     (case kf_origin f of
        None \<Rightarrow> f
      | Some (lat0, lon0) \<Rightarrow>
          (let (x, y) = latLonToEnu lat lon lat0 lon0
           in f\<lparr>kf_x := (kf_x f)[0 := x, 1 := y], kf_origin := Some (lat, lon)\<rparr>))"

end
