(* ===== verification/Predictor.thy ===== *)
theory Predictor
  imports Kalman
begin

text \<open>
  The second half of \<open>src/predictor.js\<close>: \<open>ClientFilter\<close> and \<open>PredictiveEngine\<close>.

  \<^item> The configuration is the object the code spreads together: a map from option names to values.
    \<open>Number\<close> of an environment string is the argument \<open>num\<close>.
  \<^item> The geofence engine and the room manager are passed in; they are arguments.
  \<^item> A division by zero in the arrival time gives \<open>NaN\<close> or an infinity; these cases are written out.
\<close>

section \<open>Configuration\<close>

datatype cval = CBool bool | CNum real | CStr string

type_synonym config = "(string, cval) jsmap"

definition DEFAULT_CONFIG :: config where
  "DEFAULT_CONFIG =
    [(''PREDICTOR_ENABLE'', CBool True), (''PREDICTOR_MODEL'', CStr ''CV''),
     (''PREDICTOR_PROCESS_NOISE'', CNum 0.1), (''PREDICTOR_MEASUREMENT_NOISE'', CNum 5),
     (''PREDICTOR_PRE_ALERT_HORIZON_S'', CNum 60), (''PREDICTOR_MAX_HORIZON_S'', CNum 120),
     (''PREDICTOR_RE_ORIGIN_DISTANCE_KM'', CNum 50), (''PREDICTOR_ANOMALY_INNOVATION_SIGMA'', CNum 3),
     (''PREDICTOR_ANOMALY_MAX_ACCELERATION'', CNum 10), (''PREDICTOR_ANOMALY_MAX_HEADING_RATE'', CNum (pi / 2)),
     (''PREDICTOR_ANOMALY_RATE_LIMIT_MS'', CNum 60000), (''PREDICTOR_TTL_MS'', CNum 3600000),
     (''PREDICTOR_ETA_SAMPLES'', CNum 1000)]"

definition parse_option :: "(string \<Rightarrow> real) \<Rightarrow> cval \<Rightarrow> string \<Rightarrow> cval" where
  "parse_option num def v =
     (case def of CBool _ \<Rightarrow> CBool (v = ''true'') | CNum _ \<Rightarrow> CNum (num v) | CStr _ \<Rightarrow> CStr v)"

definition parseConfig :: "(string \<Rightarrow> real) \<Rightarrow> (string \<Rightarrow> string option) \<Rightarrow> config" where
  "parseConfig num env =
     map (\<lambda>(key, def). (key, case env key of Some v \<Rightarrow> parse_option num def v | None \<Rightarrow> def)) DEFAULT_CONFIG"

definition spread_config :: "config \<Rightarrow> config \<Rightarrow> config" where
  "spread_config a b = fold (\<lambda>(k, v). js_set k v) b a"

definition engine_config :: "(string \<Rightarrow> real) \<Rightarrow> (string \<Rightarrow> string option) \<Rightarrow> config \<Rightarrow> config" where
  "engine_config num env userConfig = spread_config (spread_config DEFAULT_CONFIG (parseConfig num env)) userConfig"

definition cfg_num :: "config \<Rightarrow> string \<Rightarrow> real" where
  "cfg_num c k = (case js_get c k of Some (CNum r) \<Rightarrow> r | _ \<Rightarrow> 0)"

definition cfg_bool :: "config \<Rightarrow> string \<Rightarrow> bool" where
  "cfg_bool c k = (case js_get c k of Some (CBool b) \<Rightarrow> b | _ \<Rightarrow> True)"

section \<open>ClientFilter\<close>

record location =
  lo_latitude :: real
  lo_longitude :: real
  lo_speed :: "real option"
  lo_heading :: "real option"
  lo_timestamp :: "time option"

record last_fix =
  lf_latitude :: real
  lf_longitude :: real
  lf_speed :: "real option"
  lf_heading :: "real option"
  lf_timestamp :: time

datatype anomaly =
    GpsAnomaly real real
  | AccelerationAnomaly real real
  | HeadingAnomaly real real

record client_filter =
  cf_clientId :: string
  cf_filter :: kalman
  cf_lastLocation :: "last_fix option"
  cf_lastUpdateTime :: "time option"
  preAlertDebounce :: "string jsset"
  anomalyRateLimit :: "(string, time) jsmap"

definition new_client_filter :: "config \<Rightarrow> string \<Rightarrow> client_filter" where
  "new_client_filter c clientId =
     \<lparr>cf_clientId = clientId,
      cf_filter = new_kalman (cfg_num c ''PREDICTOR_PROCESS_NOISE'') (cfg_num c ''PREDICTOR_MEASUREMENT_NOISE''),
      cf_lastLocation = None, cf_lastUpdateTime = None, preAlertDebounce = [], anomalyRateLimit = []\<rparr>"

definition canEmitAnomaly :: "config \<Rightarrow> string \<Rightarrow> time \<Rightarrow> client_filter \<Rightarrow> bool \<times> client_filter" where
  "canEmitAnomaly c type now cf =
     (let key = cf_clientId cf @ '':'' @ type;
          lastEmit = (case js_get (anomalyRateLimit cf) key of Some t \<Rightarrow> t | None \<Rightarrow> 0)
      in if real_of_int (now - lastEmit) \<ge> cfg_num c ''PREDICTOR_ANOMALY_RATE_LIMIT_MS''
         then (True, cf\<lparr>anomalyRateLimit := js_set key now (anomalyRateLimit cf)\<rparr>)
         else (False, cf))"

text \<open>The remainder of the language, with the sign of the dividend.\<close>

definition js_rem :: "real \<Rightarrow> real \<Rightarrow> real" where
  "js_rem a b = a - b * real_of_int (if a / b \<ge> 0 then \<lfloor>a / b\<rfloor> else \<lceil>a / b\<rceil>)"

definition wrap_heading :: "real \<Rightarrow> real" where
  "wrap_heading d = js_rem (d + pi) (2 * pi) - pi"

definition emit :: "config \<Rightarrow> string \<Rightarrow> time \<Rightarrow> bool \<Rightarrow> anomaly \<Rightarrow> anomaly list \<times> client_filter \<Rightarrow> anomaly list \<times> client_filter" where
  "emit c type now cond a acc =
     (if cond then (case canEmitAnomaly c type now (snd acc) of
                      (True, cf) \<Rightarrow> (fst acc @ [a], cf)
                    | (False, cf) \<Rightarrow> (fst acc, cf))
      else acc)"

definition detectAnomalies ::
    "config \<Rightarrow> time \<Rightarrow> location \<Rightarrow> (real \<times> real) \<times> matrix \<Rightarrow> time \<Rightarrow> client_filter \<Rightarrow> anomaly list \<times> client_filter" where
  "detectAnomalies c now loc result t cf =
     (let ((y0, y1), S) = result;
          sigmaX = sqrt (S ! 0 ! 0);
          sigmaY = sqrt (S ! 1 ! 1);
          innovationNorm = sqrt (y0 * y0 + y1 * y1);
          sigmaNorm = sqrt (sigmaX * sigmaX + sigmaY * sigmaY);
          limit = cfg_num c ''PREDICTOR_ANOMALY_INNOVATION_SIGMA'' * sigmaNorm;
          acc1 = emit c ''gps_anomaly'' now (innovationNorm > limit) (GpsAnomaly innovationNorm limit) ([], cf);
          elapsed = (case cf_lastUpdateTime cf of Some t0 \<Rightarrow> real_of_int (t - t0) / 1000 | None \<Rightarrow> real_of_int t / 1000);
          acc2 = (case (cf_lastLocation cf, lo_speed loc) of
                    (Some l, Some speed) \<Rightarrow>
                      (case lf_speed l of
                         None \<Rightarrow> acc1
                       | Some speed0 \<Rightarrow>
                           let accel = \<bar>speed - speed0\<bar> / elapsed; top = cfg_num c ''PREDICTOR_ANOMALY_MAX_ACCELERATION''
                           in if elapsed > 0
                              then emit c ''kinematic_anomaly'' now (accel > top) (AccelerationAnomaly accel top) acc1
                              else acc1)
                  | _ \<Rightarrow> acc1)
      in (case (cf_lastLocation cf, lo_heading loc) of
            (Some l, Some heading) \<Rightarrow>
              (case lf_heading l of
                 None \<Rightarrow> acc2
               | Some heading0 \<Rightarrow>
                   let headingRate = \<bar>wrap_heading (heading - heading0)\<bar> / elapsed;
                       top = cfg_num c ''PREDICTOR_ANOMALY_MAX_HEADING_RATE''
                   in if elapsed > 0
                      then emit c ''kinematic_anomaly'' now (headingRate > top) (HeadingAnomaly headingRate top) acc2
                      else acc2)
          | _ \<Rightarrow> acc2))"

definition remember_fix :: "location \<Rightarrow> time \<Rightarrow> client_filter \<Rightarrow> client_filter" where
  "remember_fix loc ts cf = cf\<lparr>cf_lastLocation := Some \<lparr>lf_latitude = lo_latitude loc, lf_longitude = lo_longitude loc,
        lf_speed = lo_speed loc, lf_heading = lo_heading loc, lf_timestamp = ts\<rparr>,
      cf_lastUpdateTime := Some ts\<rparr>"

definition first_fix :: "location \<Rightarrow> time \<Rightarrow> kalman \<Rightarrow> kalman" where
  "first_fix loc ts f =
     (let f1 = initialize (lo_latitude loc) (lo_longitude loc) ts f;
          (x, y) = latLonToEnu (lo_latitude loc) (lo_longitude loc) (lo_latitude loc) (lo_longitude loc);
          x1 = (kf_x f1)[0 := x, 1 := y]
      in (case (lo_speed loc, lo_heading loc) of
            (Some speed, Some heading) \<Rightarrow> f1\<lparr>kf_x := x1[2 := speed * cos heading, 3 := speed * sin heading]\<rparr>
          | _ \<Rightarrow> f1\<lparr>kf_x := x1\<rparr>))"

definition origin_of :: "kalman \<Rightarrow> real \<times> real" where
  "origin_of f = (case kf_origin f of Some p \<Rightarrow> p | None \<Rightarrow> (0, 0))"

definition fix_time :: "time \<Rightarrow> location \<Rightarrow> time" where
  "fix_time now loc = (case lo_timestamp loc of Some t \<Rightarrow> t | None \<Rightarrow> now)"

definition recentred :: "location \<Rightarrow> kalman \<Rightarrow> kalman" where
  "recentred loc f =
     (if shouldReorigin (lo_latitude loc) (lo_longitude loc) f
      then reorigin (lo_latitude loc) (lo_longitude loc) f else f)"

definition client_update ::
    "config \<Rightarrow> time \<Rightarrow> location \<Rightarrow> client_filter \<Rightarrow> ((real \<times> real) \<times> matrix \<times> anomaly list) \<times> client_filter" where
  "client_update c now loc cf =
     (let ts = fix_time now loc in
      if \<not> kf_initialized (cf_filter cf)
      then (((0, 0), [[0, 0], [0, 0]], []),
            remember_fix loc ts (cf\<lparr>cf_filter := first_fix loc ts (cf_filter cf)\<rparr>))
      else let f1 = recentred loc (cf_filter cf);
               (result, f2) = update (latLonToEnu (lo_latitude loc) (lo_longitude loc)
                                        (fst (origin_of f1)) (snd (origin_of f1))) ts f1;
               (anomalies, cf1) = detectAnomalies c now loc result ts (cf\<lparr>cf_filter := f2\<rparr>)
           in ((fst result, snd result, anomalies), remember_fix loc ts cf1))"

record trajectory_point =
  tp_horizon :: real
  tp_lat :: real
  tp_lon :: real
  tp_speed :: real
  tp_heading :: real
  tp_ellipse :: ellipse

definition position_cov :: "matrix \<Rightarrow> matrix" where
  "position_cov P = [[P ! 0 ! 0, P ! 0 ! 1], [P ! 1 ! 0, P ! 1 ! 1]]"

definition trajectory_at :: "kalman \<Rightarrow> real \<Rightarrow> trajectory_point" where
  "trajectory_at f horizon =
     (let (x, P) = predictState horizon f;
          (lat, lon) = enuToLatLon (x ! 0) (x ! 1) (fst (origin_of f)) (snd (origin_of f))
      in \<lparr>tp_horizon = horizon, tp_lat = lat, tp_lon = lon,
          tp_speed = sqrt (x ! 2 * x ! 2 + x ! 3 * x ! 3), tp_heading = atan2 (x ! 3) (x ! 2),
          tp_ellipse = ellipse_of (position_cov P)\<rparr>)"

definition client_trajectory :: "config \<Rightarrow> real list \<Rightarrow> client_filter \<Rightarrow> trajectory_point list" where
  "client_trajectory c horizons cf =
     map (trajectory_at (cf_filter cf)) (filter (\<lambda>h. \<not> h > cfg_num c ''PREDICTOR_MAX_HORIZON_S'') horizons)"

datatype jsnum = Real real | NaN

definition erf :: "real \<Rightarrow> real" where
  "erf x0 =
     (let a1 = 0.254829592; a2 = - 0.284496736; a3 = 1.421413741; a4 = - 1.453152027; a5 = 1.061405429;
          p = 0.3275911;
          sign = (if x0 < 0 then - 1 else 1);
          x = \<bar>x0\<bar>;
          t = 1 / (1 + p * x);
          y = 1 - ((((a5 * t + a4) * t + a3) * t + a2) * t + a1) * t * exp (- x * x)
      in sign * y)"

record eta =
  etaMean :: "real option"
  etaStdDev :: "jsnum option"

definition no_eta :: eta where
  "no_eta = \<lparr>etaMean = None, etaStdDev = None\<rparr>"

definition client_eta :: "real \<Rightarrow> real \<Rightarrow> client_filter \<Rightarrow> eta" where
  "client_eta targetLat targetLon cf =
     (let state = getState (cf_filter cf);
          (tx, ty) = latLonToEnu targetLat targetLon (fst (origin_of (cf_filter cf))) (snd (origin_of (cf_filter cf)));
          dx = tx - fs_x state; dy = ty - fs_y state;
          distance = sqrt (dx * dx + dy * dy);
          speed = fs_speed state
      in if speed < 0.1 then no_eta
         else let C = getPositionCovariance (cf_filter cf);
                  var = (dx * dx * C ! 0 ! 0 + 2 * dx * dy * C ! 0 ! 1 + dy * dy * C ! 1 ! 1) / (distance * distance)
              in \<lparr>etaMean = Some (distance / speed),
                  etaStdDev = Some (if distance = 0 \<or> var < 0 then NaN else Real (sqrt var / speed))\<rparr>)"

definition arrivalProbabilityAt :: "eta \<Rightarrow> real \<Rightarrow> jsnum" where
  "arrivalProbabilityAt e t =
     (case (etaMean e, etaStdDev e) of
        (Some mean, Some (Real sd)) \<Rightarrow>
          if sd = 0 then (if t > mean then Real 1 else if t < mean then Real 0 else NaN)
          else Real (0.5 * (1 + erf ((t - mean) / sd / sqrt 2)))
      | (Some _, _) \<Rightarrow> NaN
      | _ \<Rightarrow> Real 0)"

record geo_engine =
  fencesForPoint :: "real \<Rightarrow> real \<Rightarrow> (string \<times> string) list"
  isPointInside :: "string \<Rightarrow> real \<Rightarrow> real \<Rightarrow> bool"

record pre_alert =
  pa_fenceId :: string
  pa_fenceName :: string
  pa_predictedEntryTime :: real
  pa_entryPoint :: "real \<times> real"
  pa_confidence :: real

definition alert_fence ::
    "config \<Rightarrow> geo_engine \<Rightarrow> time \<Rightarrow> real \<Rightarrow> real \<times> real \<Rightarrow> string \<times> string \<Rightarrow>
       pre_alert list \<times> client_filter \<Rightarrow> pre_alert list \<times> client_filter" where
  "alert_fence c engine now horizon point fence acc =
     (let key = cf_clientId (snd acc) @ '':'' @ fst fence in
      if key \<in> set (preAlertDebounce (snd acc)) then acc
      else if isPointInside engine (fst fence) (fst point) (snd point)
      then (fst acc @ [\<lparr>pa_fenceId = fst fence, pa_fenceName = snd fence,
              pa_predictedEntryTime = real_of_int now + horizon * 1000, pa_entryPoint = point,
              pa_confidence = 1 - min 1 (horizon / cfg_num c ''PREDICTOR_PRE_ALERT_HORIZON_S'')\<rparr>],
            (snd acc)\<lparr>preAlertDebounce := js_add key (preAlertDebounce (snd acc))\<rparr>)
      else acc)"

definition alert_horizon ::
    "config \<Rightarrow> geo_engine \<Rightarrow> time \<Rightarrow> real \<Rightarrow> pre_alert list \<times> client_filter \<Rightarrow> pre_alert list \<times> client_filter" where
  "alert_horizon c engine now horizon acc =
     (let f = cf_filter (snd acc);
          x = fst (predictState horizon f);
          point = enuToLatLon (x ! 0) (x ! 1) (fst (origin_of f)) (snd (origin_of f))
      in fold (alert_fence c engine now horizon point) (fencesForPoint engine (fst point) (snd point)) acc)"

definition client_pre_alerts ::
    "config \<Rightarrow> geo_engine option \<Rightarrow> time \<Rightarrow> client_filter \<Rightarrow> pre_alert list \<times> client_filter" where
  "client_pre_alerts c engine now cf =
     (case engine of
        None \<Rightarrow> ([], cf)
      | Some g \<Rightarrow>
          fold (alert_horizon c g now)
            (filter (\<lambda>h. h \<le> cfg_num c ''PREDICTOR_PRE_ALERT_HORIZON_S'') [10, 20, 30, 40, 50, 60]) ([], cf))"

record persisted =
  pe_x :: "real list"
  pe_P :: matrix
  pe_initialized :: bool
  pe_origin :: "(real \<times> real) option"
  pe_lastTimestamp :: "time option"
  pe_lastLocation :: "last_fix option"
  pe_lastUpdateTime :: "time option"

definition getStateForPersistence :: "client_filter \<Rightarrow> persisted" where
  "getStateForPersistence cf =
     \<lparr>pe_x = kf_x (cf_filter cf), pe_P = kf_P (cf_filter cf), pe_initialized = kf_initialized (cf_filter cf),
      pe_origin = kf_origin (cf_filter cf), pe_lastTimestamp = kf_lastTimestamp (cf_filter cf),
      pe_lastLocation = cf_lastLocation cf, pe_lastUpdateTime = cf_lastUpdateTime cf\<rparr>"

definition restoreState :: "persisted option \<Rightarrow> client_filter \<Rightarrow> client_filter" where
  "restoreState state cf =
     (case state of
        None \<Rightarrow> cf
      | Some p \<Rightarrow> cf\<lparr>cf_filter := (cf_filter cf)\<lparr>kf_x := pe_x p, kf_P := pe_P p, kf_initialized := pe_initialized p,
            kf_origin := pe_origin p, kf_lastTimestamp := pe_lastTimestamp p\<rparr>,
          cf_lastLocation := pe_lastLocation p, cf_lastUpdateTime := pe_lastUpdateTime p\<rparr>)"

section \<open>PredictiveEngine\<close>

record engine =
  pe_config :: config
  pe_geofences :: "geo_engine option"
  pe_filters :: "(string, client_filter) jsmap"

definition engine_init ::
    "geo_engine option \<Rightarrow> (string \<Rightarrow> real) \<Rightarrow> (string \<Rightarrow> string option) \<Rightarrow> config \<Rightarrow> engine" where
  "engine_init geo num env userConfig =
     \<lparr>pe_config = engine_config num env userConfig, pe_geofences = geo, pe_filters = []\<rparr>"

definition filter_for :: "string \<Rightarrow> engine \<Rightarrow> client_filter" where
  "filter_for clientId e =
     (case js_get (pe_filters e) clientId of Some cf \<Rightarrow> cf | None \<Rightarrow> new_client_filter (pe_config e) clientId)"

definition put_filter :: "string \<Rightarrow> client_filter \<Rightarrow> engine \<Rightarrow> engine" where
  "put_filter clientId cf e = e\<lparr>pe_filters := js_set clientId cf (pe_filters e)\<rparr>"

definition engine_update :: "time \<Rightarrow> string \<Rightarrow> location \<Rightarrow> engine \<Rightarrow> anomaly list \<times> engine" where
  "engine_update now clientId loc e =
     (if \<not> cfg_bool (pe_config e) ''PREDICTOR_ENABLE'' then ([], e)
      else let (r, cf) = client_update (pe_config e) now loc (filter_for clientId e)
           in (snd (snd r), put_filter clientId cf e))"

definition ready_filter :: "string \<Rightarrow> engine \<Rightarrow> client_filter option" where
  "ready_filter clientId e =
     (case js_get (pe_filters e) clientId of
        Some cf \<Rightarrow> if kf_initialized (cf_filter cf) then Some cf else None
      | None \<Rightarrow> None)"

definition getTrajectory :: "string \<Rightarrow> real list option \<Rightarrow> engine \<Rightarrow> trajectory_point list" where
  "getTrajectory clientId horizons e =
     (case ready_filter clientId e of
        None \<Rightarrow> []
      | Some cf \<Rightarrow> client_trajectory (pe_config e) (case horizons of Some hs \<Rightarrow> hs | None \<Rightarrow> [10, 30, 60]) cf)"

definition getETA :: "string \<Rightarrow> real \<Rightarrow> real \<Rightarrow> engine \<Rightarrow> eta" where
  "getETA clientId targetLat targetLon e =
     (case ready_filter clientId e of None \<Rightarrow> no_eta | Some cf \<Rightarrow> client_eta targetLat targetLon cf)"

text \<open>What is sent to each room of the client, excluding the client itself.\<close>

datatype 'a room_message = RoomMessage string string string 'a

definition broadcast_rooms :: "(string \<Rightarrow> string list) option \<Rightarrow> string \<Rightarrow> string \<Rightarrow> 'a \<Rightarrow> 'a room_message list" where
  "broadcast_rooms roomManager type clientId payload =
     (case roomManager of
        None \<Rightarrow> []
      | Some rooms \<Rightarrow> map (\<lambda>r. RoomMessage r type clientId payload) (rooms clientId))"

definition broadcastPreAlert :: "(string \<Rightarrow> string list) option \<Rightarrow> string \<Rightarrow> pre_alert \<Rightarrow> pre_alert room_message list" where
  "broadcastPreAlert rm clientId alert = broadcast_rooms rm ''geofence_pre_alert'' clientId alert"

definition broadcastAnomaly :: "(string \<Rightarrow> string list) option \<Rightarrow> string \<Rightarrow> anomaly \<Rightarrow> anomaly room_message list" where
  "broadcastAnomaly rm clientId a = broadcast_rooms rm ''gps_anomaly'' clientId a"

definition broadcastETAUpdate :: "(string \<Rightarrow> string list) option \<Rightarrow> string \<Rightarrow> eta \<Rightarrow> eta room_message list" where
  "broadcastETAUpdate rm clientId e = broadcast_rooms rm ''eta_update'' clientId e"

definition checkPreAlerts ::
    "time \<Rightarrow> (string \<Rightarrow> string list) option \<Rightarrow> string \<Rightarrow> engine \<Rightarrow> (pre_alert list \<times> pre_alert room_message list) \<times> engine" where
  "checkPreAlerts now rm clientId e =
     (case ready_filter clientId e of
        None \<Rightarrow> (([], []), e)
      | Some cf \<Rightarrow>
          let (alerts, cf') = client_pre_alerts (pe_config e) (pe_geofences e) now cf
          in ((alerts, concat (map (broadcastPreAlert rm clientId) alerts)), put_filter clientId cf' e))"

definition engine_detect :: "time \<Rightarrow> string \<Rightarrow> location \<Rightarrow> engine \<Rightarrow> anomaly list \<times> engine" where
  "engine_detect now clientId loc e =
     (case js_get (pe_filters e) clientId of
        None \<Rightarrow> ([], e)
      | Some cf \<Rightarrow>
          let (as, cf') = detectAnomalies (pe_config e) now loc ((0, 0), [[0, 0], [0, 0]]) now cf
          in (as, put_filter clientId cf' e))"

definition getClientState :: "string \<Rightarrow> engine \<Rightarrow> persisted option" where
  "getClientState clientId e = map_option getStateForPersistence (js_get (pe_filters e) clientId)"

definition restoreClientState :: "string \<Rightarrow> persisted option \<Rightarrow> engine \<Rightarrow> engine" where
  "restoreClientState clientId state e = put_filter clientId (restoreState state (filter_for clientId e)) e"

definition removeClient :: "string \<Rightarrow> engine \<Rightarrow> engine" where
  "removeClient clientId e = e\<lparr>pe_filters := js_delete clientId (pe_filters e)\<rparr>"

definition stale :: "config \<Rightarrow> time \<Rightarrow> client_filter \<Rightarrow> bool" where
  "stale c now cf =
     (case cf_lastUpdateTime cf of
        Some t \<Rightarrow> t \<noteq> 0 \<and> real_of_int (now - t) > cfg_num c ''PREDICTOR_TTL_MS''
      | None \<Rightarrow> False)"

definition cleanup_filters :: "time \<Rightarrow> engine \<Rightarrow> engine" where
  "cleanup_filters now e = e\<lparr>pe_filters := filter (\<lambda>(k, cf). \<not> stale (pe_config e) now cf) (pe_filters e)\<rparr>"

definition close_engine :: "engine \<Rightarrow> engine" where
  "close_engine e = e\<lparr>pe_filters := []\<rparr>"

end
