(* ===== verification/KalmanProperties.thy ===== *)
theory KalmanProperties
  imports Kalman
begin

text \<open>
  The covariance of the filter stays symmetric and positive semidefinite, the innovation covariance
  is really inverted, a correction never makes the estimate less certain, and the plane
  coordinates invert each other.
\<close>

section \<open>Entries and shapes\<close>

definition shaped :: "nat \<Rightarrow> nat \<Rightarrow> matrix \<Rightarrow> bool" where
  "shaped r c M \<longleftrightarrow> length M = r \<and> (\<forall>i<r. length (M ! i) = c)"

named_theorems shapes \<open>the shapes of the matrices of the filter\<close>

lemma sum_upt: "(\<Sum>k\<leftarrow>[0..<n]. f k) = (\<Sum>k<n. f k)" for f :: "nat \<Rightarrow> real"
  by (induction n) simp_all

lemma shaped_tabulate [shapes]: "shaped r c (tabulate r c f)"
  by (simp add: shaped_def tabulate_def)

lemma tabulate_entry: "i < r \<Longrightarrow> j < c \<Longrightarrow> tabulate r c f ! i ! j = f i j"
  by (simp add: tabulate_def)

lemma shaped_rows_cols: "shaped r c M \<Longrightarrow> rows M = r" "shaped r c M \<Longrightarrow> 0 < r \<Longrightarrow> cols M = c"
  by (simp_all add: shaped_def rows_def cols_def)

lemma matMul_shape [shapes]:
  "shaped r n A \<Longrightarrow> shaped n c B \<Longrightarrow> 0 < n \<Longrightarrow> shaped r c (matMul A B)"
  by (simp add: matMul_def shaped_rows_cols shaped_tabulate)

lemma matMul_entry:
  "shaped r n A \<Longrightarrow> shaped n c B \<Longrightarrow> 0 < n \<Longrightarrow> i < r \<Longrightarrow> j < c \<Longrightarrow>
     matMul A B ! i ! j = (\<Sum>k<n. A ! i ! k * B ! k ! j)"
  by (simp add: matMul_def shaped_rows_cols tabulate_entry sum_upt)

lemma matAdd_shape [shapes]: "shaped r c A \<Longrightarrow> 0 < r \<Longrightarrow> shaped r c (matAdd A B)"
  by (simp add: matAdd_def shaped_rows_cols shaped_tabulate)

lemma matAdd_entry: "shaped r c A \<Longrightarrow> i < r \<Longrightarrow> j < c \<Longrightarrow> matAdd A B ! i ! j = A ! i ! j + B ! i ! j"
  by (simp add: matAdd_def shaped_rows_cols tabulate_entry)

lemma matSub_shape [shapes]: "shaped r c A \<Longrightarrow> 0 < r \<Longrightarrow> shaped r c (matSub A B)"
  by (simp add: matSub_def shaped_rows_cols shaped_tabulate)

lemma matSub_entry: "shaped r c A \<Longrightarrow> i < r \<Longrightarrow> j < c \<Longrightarrow> matSub A B ! i ! j = A ! i ! j - B ! i ! j"
  by (simp add: matSub_def shaped_rows_cols tabulate_entry)

lemma transpose_shape [shapes]: "shaped r c A \<Longrightarrow> 0 < r \<Longrightarrow> shaped c r (transpose_mat A)"
  by (simp add: transpose_mat_def shaped_rows_cols shaped_tabulate)

lemma transpose_entry: "shaped r c A \<Longrightarrow> i < c \<Longrightarrow> j < r \<Longrightarrow> transpose_mat A ! i ! j = A ! j ! i"
  by (simp add: transpose_mat_def shaped_rows_cols tabulate_entry)

lemma all_less_4: "(\<forall>i<4. P i) \<longleftrightarrow> P 0 \<and> P 1 \<and> P 2 \<and> P (3::nat)"
  by (auto simp: eval_nat_numeral less_Suc_eq)

lemma all_less_2: "(\<forall>i<2. P i) \<longleftrightarrow> P 0 \<and> P (1::nat)"
  by (auto simp: eval_nat_numeral less_Suc_eq)

lemma sum_less_4: "(\<Sum>i<4. f i) = f 0 + f 1 + f 2 + f (3::nat)" for f :: "nat \<Rightarrow> real"
  by (simp add: eval_nat_numeral)

lemma sum_less_2: "(\<Sum>i<2. f i) = f 0 + f (1::nat)" for f :: "nat \<Rightarrow> real"
  by (simp add: eval_nat_numeral)

lemma fixed_shapes [shapes]:
  "shaped 4 4 (motion dt)" "shaped 2 4 observation" "shaped 4 4 identity4" "shaped 4 4 (createProcessNoise q)"
  "shaped 2 2 [[a, b], [c, d]]" "shaped 2 2 (inv2x2 M)"
  by (simp_all add: shaped_def all_less_4 all_less_2 motion_def observation_def identity4_def
      createProcessNoise_def inv2x2_def Let_def)

section \<open>Positive semidefinite matrices\<close>

definition quad :: "nat \<Rightarrow> matrix \<Rightarrow> (nat \<Rightarrow> real) \<Rightarrow> real" where
  "quad n A v = (\<Sum>i<n. \<Sum>j<n. v i * A ! i ! j * v j)"

definition psd :: "nat \<Rightarrow> matrix \<Rightarrow> bool" where
  "psd n A \<longleftrightarrow> shaped n n A \<and> (\<forall>i<n. \<forall>j<n. A ! i ! j = A ! j ! i) \<and> (\<forall>v. 0 \<le> quad n A v)"

lemma psdD: "psd n A \<Longrightarrow> shaped n n A" "psd n A \<Longrightarrow> i < n \<Longrightarrow> j < n \<Longrightarrow> A ! i ! j = A ! j ! i" "psd n A \<Longrightarrow> 0 \<le> quad n A v"
  by (simp_all add: psd_def)

lemma psd_add: "psd n A \<Longrightarrow> psd n B \<Longrightarrow> 0 < n \<Longrightarrow> psd n (matAdd A B)"
proof -
  assume A: "psd n A" and B: "psd n B" and n: "0 < n"
  have "quad n (matAdd A B) v = quad n A v + quad n B v" for v
    using psdD(1) [OF A] by (simp add: quad_def matAdd_entry algebra_simps sum.distrib)
  then show ?thesis using A B n
    by (auto simp: psd_def matAdd_shape matAdd_entry [OF psdD(1) [OF A]])
qed

lemma congruence_entry:
  assumes "shaped m n K" "shaped n n A" "0 < m" "0 < n" "i < m" "j < m"
  shows "matMul (matMul K A) (transpose_mat K) ! i ! j = (\<Sum>l<n. \<Sum>k<n. K ! i ! k * A ! k ! l * K ! j ! l)"
proof -
  have "shaped m n (matMul K A)" "shaped n m (transpose_mat K)"
    using assms by (simp_all add: matMul_shape transpose_shape)
  then have "matMul (matMul K A) (transpose_mat K) ! i ! j =
      (\<Sum>l<n. matMul K A ! i ! l * transpose_mat K ! l ! j)"
    using matMul_entry assms by blast
  also have "\<dots> = (\<Sum>l<n. \<Sum>k<n. K ! i ! k * A ! k ! l * K ! j ! l)"
    using assms by (simp add: matMul_entry transpose_entry sum_distrib_right)
  finally show ?thesis .
qed

lemma quad_congruence:
  assumes "shaped m n K" "shaped n n A" "0 < m" "0 < n"
  shows "quad m (matMul (matMul K A) (transpose_mat K)) v = quad n A (\<lambda>k. \<Sum>i<m. K ! i ! k * v i)"
proof -
  have "quad m (matMul (matMul K A) (transpose_mat K)) v =
      (\<Sum>i<m. \<Sum>j<m. \<Sum>l<n. \<Sum>k<n. v i * (K ! i ! k * A ! k ! l * K ! j ! l) * v j)"
    using assms by (simp add: quad_def congruence_entry sum_distrib_left sum_distrib_right)
  also have "\<dots> = (\<Sum>i<m. \<Sum>l<n. \<Sum>j<m. \<Sum>k<n. v i * (K ! i ! k * A ! k ! l * K ! j ! l) * v j)"
    by (intro sum.cong refl sum.swap)
  also have "\<dots> = (\<Sum>l<n. \<Sum>i<m. \<Sum>k<n. \<Sum>j<m. v i * (K ! i ! k * A ! k ! l * K ! j ! l) * v j)"
    by (subst sum.swap) (intro sum.cong refl sum.swap)
  also have "\<dots> = (\<Sum>l<n. \<Sum>k<n. \<Sum>i<m. \<Sum>j<m. v i * (K ! i ! k * A ! k ! l * K ! j ! l) * v j)"
    by (intro sum.cong refl sum.swap)
  also have "\<dots> = (\<Sum>k<n. \<Sum>l<n. \<Sum>i<m. \<Sum>j<m. v i * (K ! i ! k * A ! k ! l * K ! j ! l) * v j)"
    by (rule sum.swap)
  also have "\<dots> = (\<Sum>k<n. \<Sum>l<n. (\<Sum>i<m. K ! i ! k * v i) * A ! k ! l * (\<Sum>j<m. K ! j ! l * v j))"
    by (simp add: sum_distrib_left sum_distrib_right mult_ac)
  finally show ?thesis by (simp add: quad_def)
qed

lemma psd_congruence:
  assumes "shaped m n K" "psd n A" "0 < m" "0 < n"
  shows "psd m (matMul (matMul K A) (transpose_mat K))"
proof -
  note A = psdD(1) [OF assms(2)]
  have "matMul (matMul K A) (transpose_mat K) ! i ! j = matMul (matMul K A) (transpose_mat K) ! j ! i"
    if "i < m" "j < m" for i j
  proof -
    have "(\<Sum>l<n. \<Sum>k<n. K ! i ! k * A ! k ! l * K ! j ! l) = (\<Sum>k<n. \<Sum>l<n. K ! i ! k * A ! k ! l * K ! j ! l)"
      by (rule sum.swap)
    also have "\<dots> = (\<Sum>k<n. \<Sum>l<n. K ! j ! l * A ! l ! k * K ! i ! k)"
      using psdD(2) [OF assms(2)] by (intro sum.cong refl) (simp add: mult_ac)
    finally show ?thesis using that assms A by (simp add: congruence_entry)
  qed
  moreover have "0 \<le> quad m (matMul (matMul K A) (transpose_mat K)) v" for v
    unfolding quad_congruence [OF assms(1) A assms(3,4)] by (rule psdD(3) [OF assms(2)])
  moreover have "shaped m m (matMul (matMul K A) (transpose_mat K))"
    using assms A by (meson matMul_shape transpose_shape)
  ultimately show ?thesis by (simp add: psd_def)
qed

lemma psd_noise: "0 \<le> q \<Longrightarrow> psd 4 (createProcessNoise q)"
  by (simp add: psd_def quad_def shapes all_less_4 sum_less_4)
     (simp add: createProcessNoise_def mult_ac)

lemma psd_2x2: "psd 2 M \<longleftrightarrow> shaped 2 2 M \<and> M ! 0 ! 1 = M ! 1 ! 0 \<and>
    (\<forall>u v. 0 \<le> u * u * M ! 0 ! 0 + 2 * (u * v * M ! 0 ! 1) + v * v * M ! 1 ! 1)"
proof -
  have q: "quad 2 M w = w 0 * w 0 * M ! 0 ! 0 + w 0 * w 1 * M ! 0 ! 1 + w 1 * w 0 * M ! 1 ! 0 + w 1 * w 1 * M ! 1 ! 1" for w
    by (simp add: quad_def sum_less_2 algebra_simps)
  show ?thesis
  proof (cases "M ! 0 ! 1 = M ! 1 ! 0")
    case True
    have "(\<forall>w. 0 \<le> quad 2 M w) \<longleftrightarrow>
        (\<forall>u v. 0 \<le> u * u * M ! 0 ! 0 + 2 * (u * v * M ! 0 ! 1) + v * v * M ! 1 ! 1)"
    proof (intro iffI allI)
      fix u v assume "\<forall>w. 0 \<le> quad 2 M w"
      from this [THEN spec, of "\<lambda>i. if i = 0 then u else v"] True
      show "0 \<le> u * u * M ! 0 ! 0 + 2 * (u * v * M ! 0 ! 1) + v * v * M ! 1 ! 1" by (simp add: q mult_ac)
    next
      fix w assume "\<forall>u v. 0 \<le> u * u * M ! 0 ! 0 + 2 * (u * v * M ! 0 ! 1) + v * v * M ! 1 ! 1"
      from this [THEN spec, THEN spec, of "w 0" "w 1"] True show "0 \<le> quad 2 M w" by (simp add: q algebra_simps del: One_nat_def)
    qed
    with True show ?thesis by (auto simp: psd_def all_less_2)
  qed (auto simp: psd_def)
qed

section \<open>The covariance of the filter\<close>

definition kalman_ok :: "kalman \<Rightarrow> bool" where
  "kalman_ok f \<longleftrightarrow> length (kf_x f) = 4 \<and> psd 4 (kf_P f) \<and> psd 4 (kf_Q f)
     \<and> (\<exists>m. m \<noteq> 0 \<and> 1 / 10 ^ 12 \<le> m * m * (m * m) \<and> kf_R f = [[m * m, 0], [0, m * m]])"

lemma psd_diagonal: "0 \<le> r \<Longrightarrow> psd 2 [[r, 0], [0, r]]"
  by (simp add: psd_2x2 fixed_shapes)

lemma kalman_okD:
  assumes "kalman_ok f"
  shows "psd 4 (kf_P f)" "psd 4 (kf_Q f)" "psd 2 (kf_R f)" "length (kf_x f) = 4"
  using assms psd_diagonal by (auto simp: kalman_ok_def)

lemma new_kalman_ok:
  assumes "0 \<le> q" "1 / 10 ^ 12 \<le> m * m * (m * m)"
  shows "kalman_ok (new_kalman q m)"
proof -
  have "psd 4 [[100, 0, 0, 0], [0, 100, 0, 0], [0, 0, 100, 0], [0, 0, 0, 100]]"
    using psd_noise [of 100] by (simp add: createProcessNoise_def)
  moreover have "m \<noteq> 0" using assms(2) by auto
  ultimately show ?thesis using assms psd_noise [OF assms(1)] by (auto simp: kalman_ok_def new_kalman_def)
qed

lemma length_matVecMul: "shaped r c A \<Longrightarrow> length (matVecMul A v) = r"
  by (simp add: matVecMul_def shaped_rows_cols)

lemma predict_psd: "kalman_ok f \<Longrightarrow> psd 4 (snd (predictState dt f))"
  using psd_add [OF psd_congruence [OF fixed_shapes(1) kalman_okD(1)] kalman_okD(2)]
  by (simp add: predictState_def Let_def)

lemma predict_ok: "kalman_ok f \<Longrightarrow> kalman_ok (predict dt f)"
  using predict_psd [of f dt]
  by (auto simp: kalman_ok_def predict_def predictState_def Let_def length_matVecMul [OF fixed_shapes(1)])

lemma advance_ok: "kalman_ok f \<Longrightarrow> kalman_ok (advance t f)"
proof -
  assume ok: "kalman_ok f"
  have "kalman_ok (g\<lparr>kf_lastTimestamp := u\<rparr>) = kalman_ok g" for g u by (simp add: kalman_ok_def)
  then show ?thesis using ok predict_ok by (simp add: advance_def Let_def split: option.split)
qed

lemma gain_shape: "kalman_ok f \<Longrightarrow> shaped 4 2 (gain f)"
  unfolding gain_def
  by (intro matMul_shape [where n = 2] matMul_shape [where n = 4] transpose_shape fixed_shapes psdD(1) kalman_okD) simp_all

lemma correct_ok: "kalman_ok f \<Longrightarrow> kalman_ok (correct y f)"
proof -
  assume ok: "kalman_ok f"
  let ?IKH = "matSub identity4 (matMul (gain f) observation)"
  have "shaped 4 4 ?IKH" by (intro matSub_shape fixed_shapes) simp
  then have "psd 4 (matAdd (matMul (matMul ?IKH (kf_P f)) (transpose_mat ?IKH))
      (matMul (matMul (gain f) (kf_R f)) (transpose_mat (gain f))))"
    using psd_add [OF psd_congruence [OF _ kalman_okD(1)] psd_congruence [OF gain_shape kalman_okD(3)]] ok by simp
  with ok show ?thesis by (auto simp: kalman_ok_def correct_def Let_def)
qed

lemma update_ok: "kalman_ok f \<Longrightarrow> kalman_ok (snd (update z t f))"
  by (simp add: update_def Let_def advance_ok correct_ok)

lemma setters_ok:
  "kalman_ok f \<Longrightarrow> kalman_ok (initialize lat lon t f)"
  "kalman_ok f \<Longrightarrow> kalman_ok (reorigin lat lon f)"
  by (auto simp: kalman_ok_def initialize_def reorigin_def split: option.split prod.split)

section \<open>The confidence ellipse\<close>

lemma psd_2x2_det:
  assumes "psd 2 M"
  shows "0 \<le> M ! 0 ! 0" "0 \<le> M ! 1 ! 1" "0 \<le> M ! 0 ! 0 * M ! 1 ! 1 - M ! 0 ! 1 * M ! 1 ! 0"
proof -
  let ?a = "M ! 0 ! 0" and ?b = "M ! 0 ! 1" and ?d = "M ! 1 ! 1"
  have q: "0 \<le> u * u * ?a + 2 * (u * v * ?b) + v * v * ?d" for u v using assms unfolding psd_2x2 by blast
  have sym: "?b = M ! 1 ! 0" using assms by (simp add: psd_2x2)
  show a: "0 \<le> ?a" and d: "0 \<le> ?d" using q [of 1 0] q [of 0 1] by simp_all
  show "0 \<le> ?a * ?d - ?b * M ! 1 ! 0"
  proof (cases "?a = 0")
    case True
    have "?b = 0"
    proof (rule ccontr)
      assume "?b \<noteq> 0"
      then have "2 * ((- (?d + 1) / (2 * ?b)) * 1 * ?b) + 1 * 1 * ?d = -1" by (simp add: field_simps)
      with q [of "- (?d + 1) / (2 * ?b)" 1] True show False by simp
    qed
    with True sym show ?thesis by simp
  next
    case False
    have "?a * (?a * ?d - ?b * ?b) = (- ?b) * (- ?b) * ?a + 2 * ((- ?b) * ?a * ?b) + ?a * ?a * ?d" by algebra
    then have "0 \<le> ?a * (?a * ?d - ?b * ?b)" using q [of "- ?b" ?a] by simp
    with a False sym show ?thesis by (simp add: zero_le_mult_iff)
  qed
qed

lemma eigenvalues_spec:
  assumes "psd 2 M" "eigenvalues2x2 M = (l1, l2)"
  shows "0 \<le> l2" "l2 \<le> l1" "l1 + l2 = M ! 0 ! 0 + M ! 1 ! 1"
    "l1 * l2 = M ! 0 ! 0 * M ! 1 ! 1 - M ! 0 ! 1 * M ! 1 ! 0"
proof -
  define tr where "tr = M ! 0 ! 0 + M ! 1 ! 1"
  define det where "det = M ! 0 ! 0 * M ! 1 ! 1 - M ! 0 ! 1 * M ! 1 ! 0"
  define D where "D = tr * tr - 4 * det"
  note nonneg = psd_2x2_det [OF assms(1)]
  have sym: "M ! 0 ! 1 = M ! 1 ! 0" using assms(1) by (simp add: psd_2x2)
  have "D = (M ! 0 ! 0 - M ! 1 ! 1) * (M ! 0 ! 0 - M ! 1 ! 1) + 4 * (M ! 1 ! 0 * M ! 1 ! 0)"
    unfolding D_def tr_def det_def sym by algebra
  then have D: "0 \<le> D" by simp
  then have l: "l1 = (tr + sqrt D) / 2" "l2 = (tr - sqrt D) / 2"
    using assms(2) by (simp_all add: eigenvalues2x2_def Let_def tr_def det_def D_def split: if_splits)
  have "D \<le> tr * tr" "0 \<le> tr" "0 \<le> det" using nonneg by (simp_all add: D_def det_def tr_def)
  then have "sqrt D \<le> tr" by (metis real_sqrt_abs2 real_sqrt_le_mono abs_of_nonneg)
  then show "0 \<le> l2" "l2 \<le> l1" using D by (simp_all add: l)
  show "l1 + l2 = M ! 0 ! 0 + M ! 1 ! 1" by (simp add: l tr_def field_simps)
  have "l1 * l2 = (tr * tr - sqrt D * sqrt D) / 4" by (simp add: l algebra_simps)
  also have "\<dots> = det" using D by (simp add: D_def)
  finally show "l1 * l2 = M ! 0 ! 0 * M ! 1 ! 1 - M ! 0 ! 1 * M ! 1 ! 0" by (simp add: det_def)
qed

definition principal :: "matrix \<Rightarrow> matrix" where
  "principal P = [[P ! 0 ! 0, P ! 0 ! 1], [P ! 1 ! 0, P ! 1 ! 1]]"

lemma principal_psd:
  assumes "psd 4 P"
  shows "psd 2 (principal P)"
proof -
  have "0 \<le> u * u * P ! 0 ! 0 + 2 * (u * v * P ! 0 ! 1) + v * v * P ! 1 ! 1" for u v
    using psdD(3) [OF assms, of "\<lambda>i. if i = 0 then u else if i = 1 then v else 0"] psdD(2) [OF assms, of 0 1]
    by (simp add: quad_def sum_less_4 algebra_simps)
  then show ?thesis using psdD(2) [OF assms, of 0 1]
    by (auto simp: psd_2x2 principal_def fixed_shapes simp del: One_nat_def)
qed

lemma ellipse_spec:
  assumes "psd 2 C"
  shows "0 \<le> semiMinor (ellipse_of C)" "semiMinor (ellipse_of C) \<le> semiMajor (ellipse_of C)"
    "(semiMajor (ellipse_of C))\<^sup>2 + (semiMinor (ellipse_of C))\<^sup>2 = C ! 0 ! 0 + C ! 1 ! 1"
    "(semiMajor (ellipse_of C) * semiMinor (ellipse_of C))\<^sup>2 = C ! 0 ! 0 * C ! 1 ! 1 - C ! 0 ! 1 * C ! 1 ! 0"
proof -
  obtain l1 l2 where e: "eigenvalues2x2 C = (l1, l2)" by fastforce
  note spec = eigenvalues_spec [OF assms e]
  have s: "semiMajor (ellipse_of C) = sqrt l1" "semiMinor (ellipse_of C) = sqrt l2"
    using spec(1,2) by (simp_all add: ellipse_of_def e max_def)
  show "0 \<le> semiMinor (ellipse_of C)" "semiMinor (ellipse_of C) \<le> semiMajor (ellipse_of C)"
    "(semiMajor (ellipse_of C))\<^sup>2 + (semiMinor (ellipse_of C))\<^sup>2 = C ! 0 ! 0 + C ! 1 ! 1"
    "(semiMajor (ellipse_of C) * semiMinor (ellipse_of C))\<^sup>2 = C ! 0 ! 0 * C ! 1 ! 1 - C ! 0 ! 1 * C ! 1 ! 0"
    using spec by (simp_all add: s power_mult_distrib)
qed

section \<open>The correction\<close>

lemma observation_entry: "i < 2 \<Longrightarrow> j < 4 \<Longrightarrow> observation ! i ! j = (if i = j then 1 else 0)"
  by (auto simp: observation_def eval_nat_numeral less_Suc_eq)

lemma innovation_facts:
  assumes ok: "kalman_ok f" and R: "kf_R f = [[r, 0], [0, r]]"
  shows "psd 2 (innovation_cov f)"
    "\<And>i j. i < 2 \<Longrightarrow> j < 2 \<Longrightarrow> innovation_cov f ! i ! j = kf_P f ! i ! j + (if i = j then r else 0)"
proof -
  note P = psdD(1) [OF kalman_okD(1) [OF ok]]
  have HPH: "psd 2 (matMul (matMul observation (kf_P f)) (transpose_mat observation))"
    by (rule psd_congruence [OF fixed_shapes(2) kalman_okD(1) [OF ok]]) simp_all
  then show "psd 2 (innovation_cov f)"
    using psd_add [OF _ kalman_okD(3) [OF ok]] by (simp add: innovation_cov_def)
  fix i j :: nat assume ij: "i < 2" "j < 2"
  have "matMul (matMul observation (kf_P f)) (transpose_mat observation) ! i ! j =
      (\<Sum>l<4. \<Sum>k<4. observation ! i ! k * kf_P f ! k ! l * observation ! j ! l)"
    by (rule congruence_entry [OF fixed_shapes(2) P]) (use ij in simp_all)
  also have "\<dots> = kf_P f ! i ! j"
    using ij by (auto simp: sum_less_4 observation_entry eval_nat_numeral less_Suc_eq)
  finally show "innovation_cov f ! i ! j = kf_P f ! i ! j + (if i = j then r else 0)"
    using ij psdD(1) [OF HPH] by (auto simp: innovation_cov_def matAdd_entry R eval_nat_numeral less_Suc_eq)
qed

lemma innovation_det:
  assumes ok: "kalman_ok f" and R: "kf_R f = [[r, 0], [0, r]]" and r: "0 \<le> r"
  shows "r * r \<le> innovation_cov f ! 0 ! 0 * innovation_cov f ! 1 ! 1 - innovation_cov f ! 0 ! 1 * innovation_cov f ! 1 ! 0"
proof -
  have e: "principal (kf_P f) ! i ! j = kf_P f ! i ! j" if "i < 2" "j < 2" for i j
    using that by (auto simp: principal_def eval_nat_numeral less_Suc_eq)
  from psd_2x2_det [OF principal_psd [OF kalman_okD(1) [OF ok]]]
  have n: "0 \<le> kf_P f ! 0 ! 0" "0 \<le> kf_P f ! 1 ! 1"
    "0 \<le> kf_P f ! 0 ! 0 * kf_P f ! 1 ! 1 - kf_P f ! 0 ! 1 * kf_P f ! 1 ! 0"
    by (simp_all add: e del: One_nat_def)
  have "0 \<le> r * kf_P f ! 0 ! 0" "0 \<le> r * kf_P f ! 1 ! 1" using n r by simp_all
  with n(3) show ?thesis
    by (simp add: innovation_facts(2) [OF ok R] algebra_simps del: One_nat_def)
qed

lemma inverse_2x2:
  assumes "shaped 2 2 S" "1 / 10 ^ 12 \<le> S ! 0 ! 0 * S ! 1 ! 1 - S ! 0 ! 1 * S ! 1 ! 0"
  defines "V \<equiv> inv2x2 S"
  shows "S ! 0 ! 0 * V ! 0 ! 0 + S ! 0 ! 1 * V ! 1 ! 0 = 1" "S ! 0 ! 0 * V ! 0 ! 1 + S ! 0 ! 1 * V ! 1 ! 1 = 0"
    "S ! 1 ! 0 * V ! 0 ! 0 + S ! 1 ! 1 * V ! 1 ! 0 = 0" "S ! 1 ! 0 * V ! 0 ! 1 + S ! 1 ! 1 * V ! 1 ! 1 = 1"
    "V ! 0 ! 0 * S ! 0 ! 0 + V ! 0 ! 1 * S ! 1 ! 0 = 1" "V ! 0 ! 0 * S ! 0 ! 1 + V ! 0 ! 1 * S ! 1 ! 1 = 0"
    "V ! 1 ! 0 * S ! 0 ! 0 + V ! 1 ! 1 * S ! 1 ! 0 = 0" "V ! 1 ! 0 * S ! 0 ! 1 + V ! 1 ! 1 * S ! 1 ! 1 = 1"
proof -
  define det where "det = S ! 0 ! 0 * S ! 1 ! 1 - S ! 0 ! 1 * S ! 1 ! 0"
  have "det > 0" "\<not> \<bar>det\<bar> < 1 / 10 ^ 12" using assms(2) by (simp_all add: det_def)
  then have V: "V ! 0 ! 0 = S ! 1 ! 1 / det" "V ! 0 ! 1 = - S ! 0 ! 1 / det" "V ! 1 ! 0 = - S ! 1 ! 0 / det" "V ! 1 ! 1 = S ! 0 ! 0 / det"
    by (simp_all add: V_def inv2x2_def Let_def det_def)
  have "det \<noteq> 0" using \<open>det > 0\<close> by simp
  then show "S ! 0 ! 0 * V ! 0 ! 0 + S ! 0 ! 1 * V ! 1 ! 0 = 1" "S ! 0 ! 0 * V ! 0 ! 1 + S ! 0 ! 1 * V ! 1 ! 1 = 0"
    "S ! 1 ! 0 * V ! 0 ! 0 + S ! 1 ! 1 * V ! 1 ! 0 = 0" "S ! 1 ! 0 * V ! 0 ! 1 + S ! 1 ! 1 * V ! 1 ! 1 = 1"
    "V ! 0 ! 0 * S ! 0 ! 0 + V ! 0 ! 1 * S ! 1 ! 0 = 1" "V ! 0 ! 0 * S ! 0 ! 1 + V ! 0 ! 1 * S ! 1 ! 1 = 0"
    "V ! 1 ! 0 * S ! 0 ! 0 + V ! 1 ! 1 * S ! 1 ! 0 = 0" "V ! 1 ! 0 * S ! 0 ! 1 + V ! 1 ! 1 * S ! 1 ! 1 = 1"
    unfolding V by (simp_all add: field_simps) (simp_all add: det_def algebra_simps)
qed

lemma gain_facts:
  assumes ok: "kalman_ok f" and i: "i < 4"
  shows "gain f ! i ! 0 * innovation_cov f ! 0 ! 0 + gain f ! i ! 1 * innovation_cov f ! 1 ! 0 = kf_P f ! i ! 0"
    "gain f ! i ! 0 * innovation_cov f ! 0 ! 1 + gain f ! i ! 1 * innovation_cov f ! 1 ! 1 = kf_P f ! i ! 1"
proof -
  note P = psdD(1) [OF kalman_okD(1) [OF ok]]
  obtain m where R: "kf_R f = [[m * m, 0], [0, m * m]]" and m: "1 / 10 ^ 12 \<le> m * m * (m * m)"
    using ok by (auto simp: kalman_ok_def)
  note S = psdD(1) [OF innovation_facts(1) [OF ok R]]
  let ?S = "innovation_cov f" and ?V = "inv2x2 (innovation_cov f)"
  have "1 / 10 ^ 12 \<le> ?S ! 0 ! 0 * ?S ! 1 ! 1 - ?S ! 0 ! 1 * ?S ! 1 ! 0"
    using innovation_det [OF ok R] m by simp
  note V = inverse_2x2 [OF S this]
  have PH: "shaped 4 2 (matMul (kf_P f) (transpose_mat observation))"
    by (intro matMul_shape [OF P] transpose_shape fixed_shapes) simp_all
  have PHe: "matMul (kf_P f) (transpose_mat observation) ! i ! j = kf_P f ! i ! j" if "j < 2" for j
    using matMul_entry [OF P transpose_shape [OF fixed_shapes(2)]] i that
    by (auto simp: transpose_entry [OF fixed_shapes(2)] sum_less_4 observation_entry eval_nat_numeral less_Suc_eq)
  have K: "gain f ! i ! j = kf_P f ! i ! 0 * ?V ! 0 ! j + kf_P f ! i ! 1 * ?V ! 1 ! j" if "j < 2" for j
    unfolding gain_def using matMul_entry [OF PH fixed_shapes(6)] i that
    by (simp add: sum_less_2 PHe del: One_nat_def)
  have "(a * v00 + b * v10) * s00 + (a * v01 + b * v11) * s10 = a"
    if "v00 * s00 + v01 * s10 = 1" "v10 * s00 + v11 * s10 = 0" for a b v00 v10 v01 v11 s00 s10 :: real
    using that by algebra
  from this [OF V(5,7)] show "gain f ! i ! 0 * ?S ! 0 ! 0 + gain f ! i ! 1 * ?S ! 1 ! 0 = kf_P f ! i ! 0"
    by (simp add: K del: One_nat_def)
  have "(a * v00 + b * v10) * s01 + (a * v01 + b * v11) * s11 = b"
    if "v00 * s01 + v01 * s11 = 0" "v10 * s01 + v11 * s11 = 1" for a b v00 v10 v01 v11 s01 s11 :: real
    using that by algebra
  from this [OF V(6,8)] show "gain f ! i ! 0 * ?S ! 0 ! 1 + gain f ! i ! 1 * ?S ! 1 ! 1 = kf_P f ! i ! 1"
    by (simp add: K del: One_nat_def)
qed

lemma joseph_entry:
  assumes ok: "kalman_ok f" and R: "kf_R f = [[r, 0], [0, r]]" and i: "i < 4"
  defines "k0 \<equiv> gain f ! i ! 0" and "k1 \<equiv> gain f ! i ! 1" and "P \<equiv> kf_P f"
  shows "kf_P (correct y f) ! i ! i =
    P ! i ! i - 2 * (k0 * P ! i ! 0 + k1 * P ! i ! 1)
      + k0 * k0 * P ! 0 ! 0 + 2 * (k0 * k1 * P ! 0 ! 1) + k1 * k1 * P ! 1 ! 1 + r * (k0 * k0 + k1 * k1)"
proof -
  note Ps = psdD(1) [OF kalman_okD(1) [OF ok], folded P_def]
  note sym = psdD(2) [OF kalman_okD(1) [OF ok], folded P_def]
  note K = gain_shape [OF ok]
  let ?W = "matSub identity4 (matMul (gain f) observation)"
  have W: "shaped 4 4 ?W" by (intro matSub_shape fixed_shapes) simp
  have id: "identity4 ! a ! b = (if a = b then 1 else 0)" if "a < 4" "b < 4" for a b
    using that by (auto simp: identity4_def eval_nat_numeral less_Suc_eq)
  have We: "?W ! i ! k = (if i = k then 1 else 0) - (if k = 0 then k0 else if k = 1 then k1 else 0)" if "k < 4" for k
    using that i matMul_entry [OF K fixed_shapes(2)]
    by (auto simp: matSub_entry [OF fixed_shapes(3)] id sum_less_2 observation_entry k0_def k1_def)
  define w where "w k = (if i = k then 1 else 0) - (if k = 0 then k0 else if k = 1 then k1 else 0)" for k
  have "kf_P (correct y f) ! i ! i =
      matMul (matMul ?W P) (transpose_mat ?W) ! i ! i + matMul (matMul (gain f) (kf_R f)) (transpose_mat (gain f)) ! i ! i"
    using matAdd_entry [OF matMul_shape [OF matMul_shape [OF W Ps] transpose_shape [OF W]]] i
    by (simp add: correct_def Let_def P_def)
  also have "matMul (matMul (gain f) (kf_R f)) (transpose_mat (gain f)) ! i ! i = r * (k0 * k0 + k1 * k1)"
    using congruence_entry [OF K psdD(1) [OF kalman_okD(3) [OF ok]]] i
    by (simp add: sum_less_2 R k0_def k1_def algebra_simps)
  also have "matMul (matMul ?W P) (transpose_mat ?W) ! i ! i = (\<Sum>l<4. \<Sum>k<4. ?W ! i ! k * P ! k ! l * ?W ! i ! l)"
    using congruence_entry [OF W Ps] i by simp
  also have "\<dots> = (\<Sum>l<4. \<Sum>k<4. w k * P ! k ! l * w l)" by (intro sum.cong refl) (simp add: We w_def)
  also have "\<dots> = P ! i ! i - 2 * (k0 * P ! i ! 0 + k1 * P ! i ! 1)
      + k0 * k0 * P ! 0 ! 0 + 2 * (k0 * k1 * P ! 0 ! 1) + k1 * k1 * P ! 1 ! 1"
  proof -
    consider "i = 0" | "i = 1" | "i = 2" | "i = 3" using i by linarith
    then show ?thesis
      using sym [of 1 0] sym [of 0 2] sym [of 0 3] sym [of 1 2] sym [of 1 3]
      by cases (simp_all add: sum_less_4 w_def algebra_simps)
  qed
  finally show ?thesis by simp
qed

lemma correct_variance:
  assumes ok: "kalman_ok f" and i: "i < 4"
  shows "kf_P (correct y f) ! i ! i \<le> kf_P f ! i ! i"
proof -
  obtain m where R: "kf_R f = [[m * m, 0], [0, m * m]]" using ok by (auto simp: kalman_ok_def)
  define r where "r = m * m"
  define k0 where "k0 = gain f ! i ! 0"
  define k1 where "k1 = gain f ! i ! 1"
  note R' = R [folded r_def]
  note S = innovation_facts(2) [OF ok R']
  have sym: "kf_P f ! 1 ! 0 = kf_P f ! 0 ! 1" using psdD(2) [OF kalman_okD(1) [OF ok], of 1 0] by simp
  have g: "k0 * (kf_P f ! 0 ! 0 + r) + k1 * kf_P f ! 0 ! 1 = kf_P f ! i ! 0"
    "k0 * kf_P f ! 0 ! 1 + k1 * (kf_P f ! 1 ! 1 + r) = kf_P f ! i ! 1"
    using gain_facts [OF ok i] by (simp_all add: S k0_def k1_def sym del: One_nat_def)
  have "0 \<le> k0 * k0 * innovation_cov f ! 0 ! 0 + 2 * (k0 * k1 * innovation_cov f ! 0 ! 1) + k1 * k1 * innovation_cov f ! 1 ! 1"
    using innovation_facts(1) [OF ok R'] unfolding psd_2x2 by blast
  then have nonneg: "0 \<le> k0 * k0 * (kf_P f ! 0 ! 0 + r) + 2 * (k0 * k1 * kf_P f ! 0 ! 1) + k1 * k1 * (kf_P f ! 1 ! 1 + r)"
    by (simp add: S del: One_nat_def)
  have "kf_P (correct y f) ! i ! i = kf_P f ! i ! i
      - (k0 * k0 * (kf_P f ! 0 ! 0 + r) + 2 * (k0 * k1 * kf_P f ! 0 ! 1) + k1 * k1 * (kf_P f ! 1 ! 1 + r))"
    unfolding joseph_entry [OF ok R' i, folded k0_def k1_def] g [symmetric] by (simp add: algebra_simps)
  with nonneg show ?thesis by simp
qed

section \<open>Plane coordinates\<close>

lemma enu_inverse:
  assumes "cos (lat0 * pi / 180) \<noteq> 0"
  shows "latLonToEnu lat lon lat0 lon0 = (x, y) \<Longrightarrow> enuToLatLon x y lat0 lon0 = (lat, lon)"
    and "enuToLatLon x y lat0 lon0 = (lat, lon) \<Longrightarrow> latLonToEnu lat lon lat0 lon0 = (x, y)"
  using assms by (auto simp: latLonToEnu_def enuToLatLon_def EARTH_RADIUS_def Let_def field_simps)

lemma cos_latitude: "\<bar>lat\<bar> < 90 \<Longrightarrow> cos (lat * pi / 180) \<noteq> 0"
proof -
  assume "\<bar>lat\<bar> < 90"
  then have "lat * pi < 90 * pi" "(- 90) * pi < lat * pi"
    by (auto simp only: abs_less_iff mult_less_cancel_right_pos pi_gt_zero)
  then have "0 < cos (lat * pi / 180)" by (intro cos_gt_zero_pi) (simp_all add: field_simps)
  then show ?thesis by simp
qed

end
