(* ===== verification/PredictorProperties.thy ===== *)
theory PredictorProperties
  imports Predictor KalmanProperties
begin

text \<open>
  Correctness of the predictor: the state of every client's filter, trajectories, what a migration
  keeps, how often anomalies and pre-alerts are raised, and two places where the code is wrong.
\<close>

declare map_of_eq_Some_iff [simp del] Some_eq_map_of_iff [simp del]

section \<open>Reachable engines\<close>

text \<open>Everything the engine can be asked to do; a restored state comes from an engine with the same options.\<close>

inductive pe_reachable :: "config \<Rightarrow> engine \<Rightarrow> bool" for c where
  pe_init: "pe_reachable c \<lparr>pe_config = c, pe_geofences = geo, pe_filters = []\<rparr>"
| pe_update: "pe_reachable c e \<Longrightarrow> pe_reachable c (snd (engine_update now clientId loc e))"
| pe_detect: "pe_reachable c e \<Longrightarrow> pe_reachable c (snd (engine_detect now clientId loc e))"
| pe_alerts: "pe_reachable c e \<Longrightarrow> pe_reachable c (snd (checkPreAlerts now rm clientId e))"
| pe_restore: "pe_reachable c e \<Longrightarrow> pe_reachable c e' \<Longrightarrow>
    pe_reachable c (restoreClientState clientId (getClientState other e') e)"
| pe_remove: "pe_reachable c e \<Longrightarrow> pe_reachable c (removeClient clientId e)"
| pe_cleanup: "pe_reachable c e \<Longrightarrow> pe_reachable c (cleanup_filters now e)"
| pe_close: "pe_reachable c e \<Longrightarrow> pe_reachable c (close_engine e)"

definition noise_ok :: "config \<Rightarrow> bool" where
  "noise_ok c \<longleftrightarrow> 0 \<le> cfg_num c ''PREDICTOR_PROCESS_NOISE''
     \<and> 1 / 10 ^ 12 \<le> cfg_num c ''PREDICTOR_MEASUREMENT_NOISE'' ^ 4"

definition cf_ok :: "config \<Rightarrow> client_filter \<Rightarrow> bool" where
  "cf_ok c cf \<longleftrightarrow> kalman_ok (cf_filter cf)
     \<and> kf_Q (cf_filter cf) = createProcessNoise (cfg_num c ''PREDICTOR_PROCESS_NOISE'')"

definition engine_ok :: "engine \<Rightarrow> bool" where
  "engine_ok e \<longleftrightarrow> (\<forall>k cf. js_get (pe_filters e) k = Some cf \<longrightarrow> cf_ok (pe_config e) cf) \<and> wf_map (pe_filters e)"

lemma new_client_ok: "noise_ok c \<Longrightarrow> cf_ok c (new_client_filter c i)"
  by (simp add: cf_ok_def noise_ok_def new_client_filter_def new_kalman_ok power4_eq_xxxx mult.assoc)
     (simp add: new_kalman_def)

lemma engine_okD: "engine_ok e \<and> pe_config e = c \<Longrightarrow> js_get (pe_filters e) k = Some cf \<Longrightarrow> cf_ok c cf"
  by (auto simp: engine_ok_def)

lemma filter_for_ok: "engine_ok e \<Longrightarrow> noise_ok (pe_config e) \<Longrightarrow> cf_ok (pe_config e) (filter_for i e)"
  by (simp add: engine_ok_def filter_for_def new_client_ok split: option.split)

lemma put_filter_ok: "engine_ok e \<Longrightarrow> cf_ok (pe_config e) cf \<Longrightarrow> engine_ok (put_filter i cf e)"
  by (simp add: engine_ok_def put_filter_def)

lemma emit_filter [simp]:
  "cf_filter (snd (emit c ty now b a acc)) = cf_filter (snd acc)"
  "cf_clientId (snd (emit c ty now b a acc)) = cf_clientId (snd acc)"
  "preAlertDebounce (snd (emit c ty now b a acc)) = preAlertDebounce (snd acc)"
  by (auto simp: emit_def canEmitAnomaly_def Let_def split: if_splits)

lemma detect_filter [simp]:
  "cf_filter (snd (detectAnomalies c now loc r t cf)) = cf_filter cf"
  "cf_clientId (snd (detectAnomalies c now loc r t cf)) = cf_clientId cf"
  "preAlertDebounce (snd (detectAnomalies c now loc r t cf)) = preAlertDebounce cf"
  by (simp_all add: detectAnomalies_def Let_def case_prod_beta split: option.split)

lemma remember_filter [simp]:
  "cf_filter (remember_fix loc ts cf) = cf_filter cf" "cf_clientId (remember_fix loc ts cf) = cf_clientId cf"
  "preAlertDebounce (remember_fix loc ts cf) = preAlertDebounce cf"
  "anomalyRateLimit (remember_fix loc ts cf) = anomalyRateLimit cf"
  by (simp_all add: remember_fix_def)

lemma first_fix_ok: "kalman_ok f \<Longrightarrow> kalman_ok (first_fix loc ts f) \<and> kf_Q (first_fix loc ts f) = kf_Q f"
  by (auto simp: kalman_ok_def first_fix_def initialize_def Let_def split: option.split prod.split)

lemma kalman_Q [simp]:
  "kf_Q (predict dt f) = kf_Q f" "kf_Q (advance t f) = kf_Q f" "kf_Q (correct y f) = kf_Q f"
  "kf_Q (snd (update z t f)) = kf_Q f" "kf_Q (reorigin lat lon f) = kf_Q f"
proof -
  show p: "kf_Q (predict dt f) = kf_Q f" for dt f by (simp add: predict_def Let_def)
  show a: "kf_Q (advance t f) = kf_Q f" for t f by (simp add: advance_def Let_def p split: option.split)
  show c: "kf_Q (correct y f) = kf_Q f" for y f by (simp add: correct_def Let_def)
  show "kf_Q (snd (update z t f)) = kf_Q f" by (simp add: update_def Let_def a c)
  show "kf_Q (reorigin lat lon f) = kf_Q f" by (simp add: reorigin_def split: option.split prod.split)
qed

text \<open>What \<open>client_update\<close> does to the parts of the filter.\<close>

lemma client_update_views:
  assumes u: "client_update c now loc cf = (r, cf')"
  shows "cf_clientId cf' = cf_clientId cf" "preAlertDebounce cf' = preAlertDebounce cf"
    "\<not> kf_initialized (cf_filter cf) \<Longrightarrow> cf_filter cf' = first_fix loc (fix_time now loc) (cf_filter cf)
       \<and> snd (snd r) = [] \<and> anomalyRateLimit cf' = anomalyRateLimit cf"
    "kf_initialized (cf_filter cf) \<Longrightarrow>
       \<exists>z. cf_filter cf' = snd (update z (fix_time now loc) (recentred loc (cf_filter cf)))"
    "kf_initialized (cf_filter cf) \<Longrightarrow> \<exists>res cf1. anomalyRateLimit cf1 = anomalyRateLimit cf \<and> cf_clientId cf1 = cf_clientId cf
       \<and> snd (snd r) = fst (detectAnomalies c now loc res (fix_time now loc) cf1)
       \<and> anomalyRateLimit cf' = anomalyRateLimit (snd (detectAnomalies c now loc res (fix_time now loc) cf1))"
proof -
  show "cf_clientId cf' = cf_clientId cf" "preAlertDebounce cf' = preAlertDebounce cf"
    using u by (auto simp: client_update_def Let_def case_prod_beta split: if_splits)
  show "\<not> kf_initialized (cf_filter cf) \<Longrightarrow> cf_filter cf' = first_fix loc (fix_time now loc) (cf_filter cf)
       \<and> snd (snd r) = [] \<and> anomalyRateLimit cf' = anomalyRateLimit cf"
    using u by (auto simp: client_update_def Let_def)
  assume init: "kf_initialized (cf_filter cf)"
  let ?f1 = "recentred loc (cf_filter cf)"
  define up where "up = update (latLonToEnu (lo_latitude loc) (lo_longitude loc) (fst (origin_of ?f1)) (snd (origin_of ?f1)))
    (fix_time now loc) ?f1"
  let ?cf1 = "cf\<lparr>cf_filter := snd up\<rparr>"
  have "client_update c now loc cf =
      ((fst (fst up), snd (fst up), fst (detectAnomalies c now loc (fst up) (fix_time now loc) ?cf1)),
       remember_fix loc (fix_time now loc) (snd (detectAnomalies c now loc (fst up) (fix_time now loc) ?cf1)))"
    using init by (simp add: client_update_def up_def Let_def case_prod_beta)
  with u have r: "snd (snd r) = fst (detectAnomalies c now loc (fst up) (fix_time now loc) ?cf1)"
    and cf': "cf' = remember_fix loc (fix_time now loc) (snd (detectAnomalies c now loc (fst up) (fix_time now loc) ?cf1))" by auto
  from cf' have "cf_filter cf' = snd up" by simp
  then show "\<exists>z. cf_filter cf' = snd (update z (fix_time now loc) ?f1)" unfolding up_def by (rule exI)
  from r cf' show "\<exists>res cf1. anomalyRateLimit cf1 = anomalyRateLimit cf \<and> cf_clientId cf1 = cf_clientId cf
       \<and> snd (snd r) = fst (detectAnomalies c now loc res (fix_time now loc) cf1)
       \<and> anomalyRateLimit cf' = anomalyRateLimit (snd (detectAnomalies c now loc res (fix_time now loc) cf1))"
    by (intro exI [of _ "fst up"] exI [of _ ?cf1]) simp
qed

lemma client_update_ok:
  assumes "cf_ok c cf" "client_update c now loc cf = (r, cf')"
  shows "cf_ok c cf'"
proof (cases "kf_initialized (cf_filter cf)")
  case True
  from client_update_views(4) [OF assms(2) True] assms(1) show ?thesis
    by (auto simp: cf_ok_def update_ok setters_ok recentred_def)
next
  case False
  from client_update_views(3) [OF assms(2) False] assms(1) show ?thesis
    using first_fix_ok by (auto simp: cf_ok_def)
qed

lemma alert_fence_filter [simp]:
  "cf_filter (snd (alert_fence c g now h p fence acc)) = cf_filter (snd acc)"
  "cf_clientId (snd (alert_fence c g now h p fence acc)) = cf_clientId (snd acc)"
  by (simp_all add: alert_fence_def Let_def)

lemma fold_alert_fence [simp]:
  "cf_filter (snd (fold (alert_fence c g now h p) fences acc)) = cf_filter (snd acc)"
  "cf_clientId (snd (fold (alert_fence c g now h p) fences acc)) = cf_clientId (snd acc)"
  by (induction fences arbitrary: acc) simp_all

lemma fold_alert_horizon [simp]:
  "cf_filter (snd (fold (alert_horizon c g now) hs acc)) = cf_filter (snd acc)"
  "cf_clientId (snd (fold (alert_horizon c g now) hs acc)) = cf_clientId (snd acc)"
  by (induction hs arbitrary: acc) (simp_all add: alert_horizon_def Let_def)

lemma client_pre_alerts_filter [simp]:
  "cf_filter (snd (client_pre_alerts c g now cf)) = cf_filter cf"
  "cf_clientId (snd (client_pre_alerts c g now cf)) = cf_clientId cf"
  by (simp_all add: client_pre_alerts_def split: option.split)

lemma getClientState_ok:
  assumes "engine_ok e'" "cf_ok c cf" "pe_config e' = c"
  shows "cf_ok c (restoreState (getClientState other e') cf)"
proof (cases "js_get (pe_filters e') other")
  case (Some g)
  with assms have "cf_ok c g" by (simp add: engine_ok_def)
  with Some assms(2) show ?thesis
    by (auto simp: getClientState_def restoreState_def getStateForPersistence_def cf_ok_def kalman_ok_def)
qed (simp add: getClientState_def restoreState_def assms)

lemma pe_reachable_ok:
  assumes "pe_reachable c e" "noise_ok c"
  shows "engine_ok e \<and> pe_config e = c"
  using assms(1)
proof induction
  case (pe_update e now clientId loc)
  obtain r cf where "client_update c now loc (filter_for clientId e) = (r, cf)" by fastforce
  moreover from this have "cf_ok c cf"
    using client_update_ok filter_for_ok pe_update assms(2) by metis
  ultimately show ?case using pe_update
    by (simp add: engine_update_def Let_def put_filter_ok) (simp add: put_filter_def)
next
  case (pe_detect e now clientId loc)
  show ?case
  proof (cases "js_get (pe_filters e) clientId")
    case (Some cf)
    with pe_detect have "cf_ok c cf" using engine_okD by blast
    with pe_detect Some have "cf_ok c (snd (detectAnomalies c now loc ((0, 0), [[0, 0], [0, 0]]) now cf))" by (simp add: cf_ok_def)
    with pe_detect Some show ?thesis
      by (simp add: engine_detect_def case_prod_beta put_filter_ok) (simp add: put_filter_def)
  qed (use pe_detect in \<open>simp add: engine_detect_def\<close>)
next
  case (pe_alerts e now rm clientId)
  show ?case
  proof (cases "ready_filter clientId e")
    case (Some cf)
    then have "js_get (pe_filters e) clientId = Some cf" by (auto simp: ready_filter_def split: option.splits if_splits)
    with pe_alerts have "cf_ok c cf" using engine_okD by blast
    then have "cf_ok c (snd (client_pre_alerts c (pe_geofences e) now cf))" by (simp add: cf_ok_def)
    with pe_alerts Some show ?thesis
      by (simp add: checkPreAlerts_def case_prod_beta put_filter_ok) (simp add: put_filter_def)
  qed (use pe_alerts in \<open>simp add: checkPreAlerts_def\<close>)
next
  case (pe_restore e e' clientId other)
  then have "cf_ok c (restoreState (getClientState other e') (filter_for clientId e))"
    using getClientState_ok filter_for_ok assms(2) by metis
  with pe_restore show ?case
    by (simp add: restoreClientState_def put_filter_ok) (simp add: put_filter_def)
next
  case (pe_cleanup e now)
  have "wf_map (filter (\<lambda>(k, cf). \<not> stale c now cf) (pe_filters e))"
    using pe_cleanup by (auto simp: engine_ok_def distinct_map inj_on_def)
  moreover have "cf_ok c cf" if "(k, cf) \<in> set (pe_filters e)" for k cf
  proof -
    have "js_get (pe_filters e) k = Some cf"
      by (rule js_get_SomeI [OF _ that]) (use pe_cleanup in \<open>simp add: engine_ok_def\<close>)
    then show ?thesis using pe_cleanup engine_okD by blast
  qed
  ultimately show ?case using pe_cleanup
    by (auto simp: engine_ok_def cleanup_filters_def dest!: map_of_SomeD)
qed (auto simp: engine_ok_def removeClient_def close_engine_def)

lemma reachable_filter:
  assumes "pe_reachable c e" "noise_ok c" "js_get (pe_filters e) i = Some cf"
  shows "cf_ok c cf"
  using pe_reachable_ok [OF assms(1,2)] assms(3) engine_okD by blast

section \<open>State and trajectories\<close>

lemma principal_position: "principal P = position_cov P"
  by (simp add: principal_def position_cov_def)

lemma row_motion: "length x = 4 \<Longrightarrow> matVecMul (motion h) x ! 0 = x ! 0 + h * x ! 2 \<and> matVecMul (motion h) x ! 1 = x ! 1 + h * x ! 3"
  by (simp add: matVecMul_def rows_def cols_def motion_def eval_nat_numeral)

text \<open>
  C34. The uncertainty of every filter is a genuine covariance. In every reachable engine the covariance
  of each client is symmetric and positive semidefinite (with a process noise that is not negative
  and a measurement noise of at least a millimetre), and so is its prediction for any horizon;
  hence both semi-axes of a confidence ellipse are real, ordered, and give back the variances.
\<close>
theorem covariances_stay_psd:
  assumes "pe_reachable c e" and "noise_ok c" and "js_get (pe_filters e) i = Some cf"
  shows "psd 4 (kf_P (cf_filter cf)) \<and> psd 4 (snd (predictState h (cf_filter cf)))
    \<and> (let C = position_cov (snd (predictState h (cf_filter cf))); el = ellipse_of C
       in 0 \<le> semiMinor el \<and> semiMinor el \<le> semiMajor el
          \<and> (semiMajor el)\<^sup>2 + (semiMinor el)\<^sup>2 = C ! 0 ! 0 + C ! 1 ! 1
          \<and> (semiMajor el * semiMinor el)\<^sup>2 = C ! 0 ! 0 * C ! 1 ! 1 - C ! 0 ! 1 * C ! 1 ! 0)"
proof -
  have ok: "kalman_ok (cf_filter cf)" using reachable_filter [OF assms] by (simp add: cf_ok_def)
  have "psd 2 (position_cov (snd (predictState h (cf_filter cf))))"
    using principal_psd [OF predict_psd [OF ok]] by (simp add: principal_position)
  from ellipse_spec [OF this] show ?thesis
    using kalman_okD(1) [OF ok] predict_psd [OF ok] by (simp add: Let_def)
qed

text \<open>
  A fix never makes the filter less certain: of every component of the state, the variance after
  the correction is at most the predicted one, and the innovation covariance is really inverted,
  not replaced by the fallback for singular matrices.
\<close>
theorem fixes_add_certainty:
  assumes "pe_reachable c e" and "noise_ok c" and "js_get (pe_filters e) i = Some cf"
    and "f = advance t (cf_filter cf)" and "S = innovation_cov f" and "V = inv2x2 S" and "k < 4"
  shows "kf_P (correct y f) ! k ! k \<le> kf_P f ! k ! k
    \<and> S ! 0 ! 0 * V ! 0 ! 0 + S ! 0 ! 1 * V ! 1 ! 0 = 1 \<and> S ! 0 ! 0 * V ! 0 ! 1 + S ! 0 ! 1 * V ! 1 ! 1 = 0
    \<and> S ! 1 ! 0 * V ! 0 ! 0 + S ! 1 ! 1 * V ! 1 ! 0 = 0 \<and> S ! 1 ! 0 * V ! 0 ! 1 + S ! 1 ! 1 * V ! 1 ! 1 = 1"
proof -
  have ok: "kalman_ok f" using reachable_filter [OF assms(1-3)] by (simp add: cf_ok_def assms(4) advance_ok)
  obtain m where R: "kf_R f = [[m * m, 0], [0, m * m]]" and m: "1 / 10 ^ 12 \<le> m * m * (m * m)"
    using ok by (auto simp: kalman_ok_def)
  have "1 / 10 ^ 12 \<le> S ! 0 ! 0 * S ! 1 ! 1 - S ! 0 ! 1 * S ! 1 ! 0"
    using innovation_det [OF ok R] m by (simp add: assms(5))
  moreover have "shaped 2 2 S" using psdD(1) [OF innovation_facts(1) [OF ok R]] by (simp add: assms(5))
  ultimately show ?thesis
    using inverse_2x2 [of S] correct_variance [OF ok assms(7)] by (simp add: assms(6))
qed

text \<open>
  A trajectory has one point for each requested horizon up to the maximum, in the requested order, on
  the straight line the estimated position and velocity give; without a fix it is empty.
\<close>
theorem trajectory_exact:
  assumes "pe_reachable c e" and "noise_ok c"
  shows "getTrajectory i (Some hs) e =
    (case ready_filter i e of
       None \<Rightarrow> []
     | Some cf \<Rightarrow> map (trajectory_at (cf_filter cf)) (filter (\<lambda>h. h \<le> cfg_num c ''PREDICTOR_MAX_HORIZON_S'') hs))
   \<and> (\<forall>cf h. ready_filter i e = Some cf \<longrightarrow>
        (tp_lat (trajectory_at (cf_filter cf) h), tp_lon (trajectory_at (cf_filter cf) h)) =
          enuToLatLon (kf_x (cf_filter cf) ! 0 + h * kf_x (cf_filter cf) ! 2)
            (kf_x (cf_filter cf) ! 1 + h * kf_x (cf_filter cf) ! 3)
            (fst (origin_of (cf_filter cf))) (snd (origin_of (cf_filter cf))))"
proof (intro conjI allI impI)
  have "pe_config e = c" using pe_reachable_ok [OF assms] by simp
  then show "getTrajectory i (Some hs) e =
    (case ready_filter i e of
       None \<Rightarrow> []
     | Some cf \<Rightarrow> map (trajectory_at (cf_filter cf)) (filter (\<lambda>h. h \<le> cfg_num c ''PREDICTOR_MAX_HORIZON_S'') hs))"
    by (simp add: getTrajectory_def client_trajectory_def linorder_not_less split: option.split)
  fix cf h assume "ready_filter i e = Some cf"
  then have "js_get (pe_filters e) i = Some cf" by (auto simp: ready_filter_def split: option.splits if_splits)
  then have "length (kf_x (cf_filter cf)) = 4"
    using reachable_filter [OF assms] by (simp add: cf_ok_def kalman_okD)
  from row_motion [OF this, of h] show "(tp_lat (trajectory_at (cf_filter cf) h), tp_lon (trajectory_at (cf_filter cf) h)) =
          enuToLatLon (kf_x (cf_filter cf) ! 0 + h * kf_x (cf_filter cf) ! 2)
            (kf_x (cf_filter cf) ! 1 + h * kf_x (cf_filter cf) ! 3)
            (fst (origin_of (cf_filter cf))) (snd (origin_of (cf_filter cf)))"
    by (simp add: trajectory_at_def predictState_def Let_def case_prod_beta)
qed

text \<open>
  A client can migrate: restoring on another gateway with the same options the state this one
  persisted gives the same persisted state, the same trajectories and the same arrival times.
\<close>
theorem migration_keeps_predictions:
  assumes "pe_reachable c e" and "pe_reachable c e'" and "noise_ok c" and "js_get (pe_filters e) i = Some cf"
    and "e2 = restoreClientState i (getClientState i e) e'"
  shows "getClientState i e2 = getClientState i e \<and> getTrajectory i hs e2 = getTrajectory i hs e
    \<and> getETA i lat lon e2 = getETA i lat lon e"
proof -
  have cfg: "pe_config e = c" "pe_config e' = c" using pe_reachable_ok assms(1-3) by blast+
  define cf2 where "cf2 = restoreState (Some (getStateForPersistence cf)) (filter_for i e')"
  have f2: "js_get (pe_filters e2) i = Some cf2" "pe_config e2 = c"
    by (simp_all add: assms(4,5) restoreClientState_def getClientState_def put_filter_def cf2_def cfg)
  have ok: "cf_ok c cf" using reachable_filter [OF assms(1,3,4)] .
  have "cf_ok c (filter_for i e')"
    using filter_for_ok [of e' i] pe_reachable_ok [OF assms(2,3)] assms(3) by simp
  then have Q: "kf_Q (cf_filter cf2) = kf_Q (cf_filter cf)"
    using ok by (simp add: cf2_def restoreState_def cf_ok_def)
  have same: "kf_x (cf_filter cf2) = kf_x (cf_filter cf)" "kf_P (cf_filter cf2) = kf_P (cf_filter cf)"
    "kf_initialized (cf_filter cf2) = kf_initialized (cf_filter cf)" "kf_origin (cf_filter cf2) = kf_origin (cf_filter cf)"
    "kf_lastTimestamp (cf_filter cf2) = kf_lastTimestamp (cf_filter cf)"
    "cf_lastLocation cf2 = cf_lastLocation cf" "cf_lastUpdateTime cf2 = cf_lastUpdateTime cf"
    by (simp_all add: cf2_def restoreState_def getStateForPersistence_def)
  have "trajectory_at (cf_filter cf2) h = trajectory_at (cf_filter cf) h" for h
    by (simp add: trajectory_at_def predictState_def origin_of_def same Q)
  moreover have "getState (cf_filter cf2) = getState (cf_filter cf)" "origin_of (cf_filter cf2) = origin_of (cf_filter cf)"
    "getPositionCovariance (cf_filter cf2) = getPositionCovariance (cf_filter cf)"
    by (simp_all add: getState_def origin_of_def getPositionCovariance_def same)
  then have "client_eta lat lon cf2 = client_eta lat lon cf" unfolding client_eta_def by (simp cong: if_cong)
  ultimately show ?thesis
    using f2 assms(4) cfg
    by (simp add: getClientState_def getStateForPersistence_def getTrajectory_def getETA_def
        ready_filter_def client_trajectory_def same)
qed

text \<open>
  The plane around an origin below the pole is a chart: its two conversions are inverse to each other.
\<close>
theorem enu_roundtrip:
  assumes "\<bar>lat0\<bar> < 90"
  shows "(case latLonToEnu lat lon lat0 lon0 of (x, y) \<Rightarrow> enuToLatLon x y lat0 lon0) = (lat, lon)
    \<and> (case enuToLatLon x y lat0 lon0 of (lat, lon) \<Rightarrow> latLonToEnu lat lon lat0 lon0) = (x, y)"
proof -
  obtain a b p q where ab: "latLonToEnu lat lon lat0 lon0 = (a, b)" and pq: "enuToLatLon x y lat0 lon0 = (p, q)"
    by fastforce
  show ?thesis
    using enu_inverse(1) [OF cos_latitude [OF assms] ab] enu_inverse(2) [OF cos_latitude [OF assms] pq]
    by (simp add: ab pq)
qed

text \<open>
  Re-centring misplaces the vehicle. After \<open>reorigin\<close> at a fix the position the filter holds, read
  around the new origin, lies as far north of the fix as the fix lay north of the old origin,
  instead of on the fix.
\<close>
theorem reorigin_misplaces:
  assumes "kf_origin f = Some (lat0, lon0)" and "length (kf_x f) = 4"
    and "f' = reorigin lat lon f"
  shows "origin_of f' = (lat, lon)
    \<and> fst (enuToLatLon (kf_x f' ! 0) (kf_x f' ! 1) (fst (origin_of f')) (snd (origin_of f'))) = lat + (lat - lat0)"
  using assms by (simp add: reorigin_def latLonToEnu_def Let_def origin_of_def enuToLatLon_def EARTH_RADIUS_def)

section \<open>How often anomalies are raised\<close>

fun kind :: "anomaly \<Rightarrow> string" where
  "kind (GpsAnomaly i l) = ''gps_anomaly''"
| "kind (AccelerationAnomaly i l) = ''kinematic_anomaly''"
| "kind (HeadingAnomaly i l) = ''kinematic_anomaly''"

fun update_run :: "config \<Rightarrow> (time \<times> location) list \<Rightarrow> client_filter \<Rightarrow> (time \<times> anomaly list) list" where
  "update_run c [] cf = []"
| "update_run c ((now, loc) # ins) cf =
     (let (r, cf') = client_update c now loc cf in (now, snd (snd r)) # update_run c ins cf')"

definition times_of :: "string \<Rightarrow> time \<Rightarrow> anomaly list \<Rightarrow> time list" where
  "times_of k now as = map (\<lambda>a. now) (filter (\<lambda>a. kind a = k) as)"

definition emissions :: "string \<Rightarrow> (time \<times> anomaly list) list \<Rightarrow> time list" where
  "emissions k run = concat (map (\<lambda>(now, as). times_of k now as) run)"

fun spaced :: "real \<Rightarrow> time \<Rightarrow> time list \<Rightarrow> bool" where
  "spaced gap t [] = True"
| "spaced gap t (x # xs) = (gap \<le> real_of_int (x - t) \<and> spaced gap x xs)"

lemma spaced_append: "spaced gap t (xs @ ys) \<longleftrightarrow> spaced gap t xs \<and> spaced gap (last (t # xs)) ys"
  by (induction xs arbitrary: t) auto

lemma spaced_sorted: "0 \<le> gap \<Longrightarrow> spaced gap t xs \<Longrightarrow> sorted_wrt (\<lambda>a b. gap \<le> real_of_int (b - a)) xs"
proof (induction xs arbitrary: t)
  case (Cons x xs)
  then have "spaced gap x xs" by simp
  then have "\<forall>y\<in>set xs. gap \<le> real_of_int (y - x)" using Cons.prems(1)
    by (induction xs arbitrary: x) fastforce+
  with Cons show ?case by auto
qed simp

definition last_emit :: "string \<Rightarrow> client_filter \<Rightarrow> time" where
  "last_emit k cf = (case js_get (anomalyRateLimit cf) (cf_clientId cf @ '':'' @ k) of Some t \<Rightarrow> t | None \<Rightarrow> 0)"

definition on_schedule :: "real \<Rightarrow> string \<Rightarrow> time \<Rightarrow> time \<Rightarrow> anomaly list \<times> client_filter \<Rightarrow> bool" where
  "on_schedule gap k now t0 acc \<longleftrightarrow> spaced gap t0 (times_of k now (fst acc))
     \<and> last_emit k (snd acc) = last (t0 # times_of k now (fst acc))"

lemma emit_on_schedule:
  assumes "on_schedule (cfg_num c ''PREDICTOR_ANOMALY_RATE_LIMIT_MS'') k now t0 acc" "kind a = ty"
  shows "on_schedule (cfg_num c ''PREDICTOR_ANOMALY_RATE_LIMIT_MS'') k now t0 (emit c ty now b a acc)"
proof (cases "b \<and> fst (canEmitAnomaly c ty now (snd acc))")
  case False
  then have "emit c ty now b a acc = acc"
    by (cases acc) (auto simp: emit_def canEmitAnomaly_def Let_def split: if_splits)
  then show ?thesis using assms by simp
next
  case True
  let ?cf = "snd acc"
  let ?key = "cf_clientId ?cf @ '':'' @ ty"
  have em: "emit c ty now b a acc = (fst acc @ [a], ?cf\<lparr>anomalyRateLimit := js_set ?key now (anomalyRateLimit ?cf)\<rparr>)"
    and due: "cfg_num c ''PREDICTOR_ANOMALY_RATE_LIMIT_MS'' \<le> real_of_int (now - last_emit ty ?cf)"
    using True by (auto simp: emit_def canEmitAnomaly_def last_emit_def Let_def split: if_splits)
  show ?thesis
  proof (cases "ty = k")
    case ty: True
    have "times_of k now (fst acc @ [a]) = times_of k now (fst acc) @ [now]" using assms(2) ty by (simp add: times_of_def)
    then show ?thesis using assms(1) due ty by (simp add: on_schedule_def em [unfolded ty] spaced_append last_emit_def)
  next
    case False
    then have "times_of k now (fst acc @ [a]) = times_of k now (fst acc)" using assms(2) by (simp add: times_of_def)
    moreover have "last_emit k (?cf\<lparr>anomalyRateLimit := js_set ?key now (anomalyRateLimit ?cf)\<rparr>) = last_emit k ?cf"
      using False by (simp add: last_emit_def)
    ultimately show ?thesis using assms(1) by (simp add: on_schedule_def em)
  qed
qed

lemma detect_on_schedule:
  "on_schedule (cfg_num c ''PREDICTOR_ANOMALY_RATE_LIMIT_MS'') k now (last_emit k cf) (detectAnomalies c now loc res t cf)"
proof -
  have "on_schedule (cfg_num c ''PREDICTOR_ANOMALY_RATE_LIMIT_MS'') k now (last_emit k cf) ([], cf)"
    by (simp add: on_schedule_def times_of_def)
  then show ?thesis
    by (simp add: detectAnomalies_def Let_def case_prod_beta emit_on_schedule split: option.split)
qed

lemma update_on_schedule:
  assumes "client_update c now loc cf = (r, cf')"
  shows "spaced (cfg_num c ''PREDICTOR_ANOMALY_RATE_LIMIT_MS'') (last_emit k cf) (times_of k now (snd (snd r)))
    \<and> last_emit k cf' = last (last_emit k cf # times_of k now (snd (snd r)))"
proof (cases "kf_initialized (cf_filter cf)")
  case False
  from client_update_views(1,3) [OF assms] False show ?thesis by (simp add: times_of_def last_emit_def)
next
  case True
  from client_update_views(5) [OF assms True] obtain res cf1 where
    cf1: "anomalyRateLimit cf1 = anomalyRateLimit cf" "cf_clientId cf1 = cf_clientId cf" and
    r: "snd (snd r) = fst (detectAnomalies c now loc res (fix_time now loc) cf1)"
      "anomalyRateLimit cf' = anomalyRateLimit (snd (detectAnomalies c now loc res (fix_time now loc) cf1))" by blast
  have "last_emit k cf1 = last_emit k cf" by (simp add: last_emit_def cf1)
  moreover have "last_emit k cf' = last_emit k (snd (detectAnomalies c now loc res (fix_time now loc) cf1))"
    using client_update_views(1) [OF assms] by (simp add: last_emit_def r(2) cf1(2))
  ultimately show ?thesis
    using detect_on_schedule [of c k now cf1 loc res "fix_time now loc"] by (simp add: on_schedule_def r(1))
qed

text \<open>
  Anomalies are rate limited: whatever fixes a client sends and in whatever order their clocks run,
  two anomalies of one kind are raised at least the configured interval apart, and acceleration
  and heading anomalies count as one kind.
\<close>
theorem anomalies_rate_limited:
  assumes "0 \<le> cfg_num c ''PREDICTOR_ANOMALY_RATE_LIMIT_MS''"
  shows "sorted_wrt (\<lambda>t t'. cfg_num c ''PREDICTOR_ANOMALY_RATE_LIMIT_MS'' \<le> real_of_int (t' - t))
    (emissions k (update_run c inputs cf))"
proof -
  have "spaced (cfg_num c ''PREDICTOR_ANOMALY_RATE_LIMIT_MS'') (last_emit k cf) (emissions k (update_run c inputs cf))"
  proof (induction inputs arbitrary: cf)
    case (Cons input inputs)
    obtain now loc where i: "input = (now, loc)" by fastforce
    obtain r cf' where u: "client_update c now loc cf = (r, cf')" by fastforce
    from update_on_schedule [OF u, of k] Cons.IH [of cf'] show ?case
      by (simp add: i u emissions_def spaced_append)
  qed (simp add: emissions_def)
  then show ?thesis using spaced_sorted assms by blast
qed

section \<open>Pre-alerts\<close>

datatype client_step = Fix time location | Check time

fun alert_run :: "config \<Rightarrow> geo_engine option \<Rightarrow> client_step list \<Rightarrow> client_filter \<Rightarrow> pre_alert list" where
  "alert_run c g [] cf = []"
| "alert_run c g (Fix now loc # steps) cf = alert_run c g steps (snd (client_update c now loc cf))"
| "alert_run c g (Check now # steps) cf =
     (let (as, cf') = client_pre_alerts c g now cf in as @ alert_run c g steps cf')"

definition alert_key :: "client_filter \<Rightarrow> pre_alert \<Rightarrow> string" where
  "alert_key cf a = cf_clientId cf @ '':'' @ pa_fenceId a"

definition fresh_alerts :: "client_filter \<Rightarrow> pre_alert list \<times> client_filter \<Rightarrow> bool" where
  "fresh_alerts cf0 acc \<longleftrightarrow> cf_clientId (snd acc) = cf_clientId cf0
     \<and> set (preAlertDebounce (snd acc)) = set (preAlertDebounce cf0) \<union> alert_key cf0 ` set (fst acc)
     \<and> distinct (map pa_fenceId (fst acc))
     \<and> alert_key cf0 ` set (fst acc) \<inter> set (preAlertDebounce cf0) = {}"

lemma fresh_alerts_fence: "fresh_alerts cf0 acc \<Longrightarrow> fresh_alerts cf0 (alert_fence c g now h p fence acc)"
proof -
  assume fr: "fresh_alerts cf0 acc"
  show ?thesis
  proof (cases "cf_clientId (snd acc) @ '':'' @ fst fence \<in> set (preAlertDebounce (snd acc))
      \<or> \<not> isPointInside g (fst fence) (fst p) (snd p)")
    case True
    then have "alert_fence c g now h p fence acc = acc" by (auto simp: alert_fence_def Let_def)
    with fr show ?thesis by simp
  next
    case False
    let ?a = "\<lparr>pa_fenceId = fst fence, pa_fenceName = snd fence,
              pa_predictedEntryTime = real_of_int now + h * 1000, pa_entryPoint = p,
              pa_confidence = 1 - min 1 (h / cfg_num c ''PREDICTOR_PRE_ALERT_HORIZON_S'')\<rparr>"
    have new: "alert_key cf0 ?a \<notin> set (preAlertDebounce cf0) \<union> alert_key cf0 ` set (fst acc)"
      using False fr by (simp add: fresh_alerts_def alert_key_def)
    then have "fst fence \<notin> pa_fenceId ` set (fst acc)" by (auto simp: alert_key_def)
    moreover have "alert_fence c g now h p fence acc = (fst acc @ [?a],
        (snd acc)\<lparr>preAlertDebounce := js_add (alert_key cf0 ?a) (preAlertDebounce (snd acc))\<rparr>)"
      using False fr by (simp add: alert_fence_def Let_def alert_key_def fresh_alerts_def)
    ultimately show ?thesis using fr new by (auto simp: fresh_alerts_def)
  qed
qed

lemma fresh_alerts_check: "fresh_alerts cf (client_pre_alerts c g now cf)"
proof -
  have fences: "fresh_alerts cf acc \<Longrightarrow> fresh_alerts cf (fold (alert_fence c e now h p) fs acc)" for acc e h p fs
    by (induction fs arbitrary: acc) (simp_all add: fresh_alerts_fence)
  have "fresh_alerts cf acc \<Longrightarrow> fresh_alerts cf (fold (alert_horizon c e now) hs acc)" for acc e hs
    by (induction hs arbitrary: acc) (simp_all add: alert_horizon_def Let_def fences)
  moreover have "fresh_alerts cf ([], cf)" by (simp add: fresh_alerts_def)
  ultimately show ?thesis by (simp add: client_pre_alerts_def split: option.split)
qed

text \<open>
  A fence is announced at most once: over any sequence of fixes and checks of a client, at most one
  pre-alert is raised for each fence, however often the vehicle approaches it.
\<close>
theorem pre_alert_once:
  "distinct (map pa_fenceId (alert_run c g steps cf))
    \<and> (\<forall>a\<in>set (alert_run c g steps cf). cf_clientId cf @ '':'' @ pa_fenceId a \<notin> set (preAlertDebounce cf))"
proof (induction c g steps cf rule: alert_run.induct)
  case (2 c g now loc steps cf)
  obtain r cf' where u: "client_update c now loc cf = (r, cf')" by fastforce
  with client_update_views(1,2) [OF u] 2 show ?case by simp
next
  case (3 c g now steps cf)
  obtain as cf' where p: "client_pre_alerts c g now cf = (as, cf')" by fastforce
  note fresh = fresh_alerts_check [of cf c g now, unfolded p fresh_alerts_def fst_conv snd_conv]
  note ih = 3 [OF p [symmetric] refl]
  have key: "alert_key cf a = cf_clientId cf' @ '':'' @ pa_fenceId a" for a using fresh by (simp add: alert_key_def)
  have "pa_fenceId ` set as \<inter> pa_fenceId ` set (alert_run c g steps cf') = {}"
  proof (rule ccontr)
    assume "pa_fenceId ` set as \<inter> pa_fenceId ` set (alert_run c g steps cf') \<noteq> {}"
    then obtain a b where ab: "a \<in> set as" "b \<in> set (alert_run c g steps cf')" "pa_fenceId a = pa_fenceId b" by auto
    then have "alert_key cf a \<in> set (preAlertDebounce cf')" using fresh by simp
    with ih ab show False by (simp add: key)
  qed
  with ih fresh show ?case by (auto simp: p alert_key_def)
qed simp

section \<open>Headings\<close>

text \<open>
  The heading difference is only wrapped on one side. The remainder keeps the sign of its dividend,
  so a difference of at least \<open>- pi\<close> is brought into the range of half a turn, but a difference below
  \<open>- pi\<close> is left as it is, although one turn more would be the actual change of course.
\<close>
theorem heading_difference_one_sided:
  "(- pi \<le> d \<and> d < 3 * pi \<longrightarrow> - pi \<le> wrap_heading d \<and> wrap_heading d < pi
      \<and> (wrap_heading d = d \<or> wrap_heading d = d - 2 * pi))
   \<and> (- 2 * pi < d \<and> d < - pi \<longrightarrow> wrap_heading d = d \<and> \<bar>wrap_heading d\<bar> > \<bar>d + 2 * pi\<bar>)"
proof (intro conjI impI)
  assume d: "- pi \<le> d \<and> d < 3 * pi"
  then have nonneg: "0 \<le> (d + pi) / (2 * pi)" by simp
  show "- pi \<le> wrap_heading d"  "wrap_heading d < pi" "wrap_heading d = d \<or> wrap_heading d = d - 2 * pi"
  proof -
    have "\<lfloor>(d + pi) / (2 * pi)\<rfloor> = 0 \<and> d < pi \<or> \<lfloor>(d + pi) / (2 * pi)\<rfloor> = 1 \<and> pi \<le> d"
      using d by (cases "d < pi") (auto simp: floor_eq_iff field_simps)
    then show "- pi \<le> wrap_heading d"  "wrap_heading d < pi" "wrap_heading d = d \<or> wrap_heading d = d - 2 * pi"
      using nonneg d by (auto simp: wrap_heading_def js_rem_def)
  qed
next
  assume d: "- 2 * pi < d \<and> d < - pi"
  then have "(d + pi) / (2 * pi) < 0" by (simp add: divide_neg_pos)
  moreover have "\<lceil>(d + pi) / (2 * pi)\<rceil> = 0" using d by (auto simp: ceiling_eq_iff field_simps)
  ultimately show wrap: "wrap_heading d = d" by (simp add: wrap_heading_def js_rem_def)
  show "\<bar>wrap_heading d\<bar> > \<bar>d + 2 * pi\<bar>" using d by (simp add: wrap)
qed

section \<open>Witnesses\<close>

definition fix_north :: "real \<Rightarrow> time \<Rightarrow> location" where
  "fix_north lat t = \<lparr>lo_latitude = lat, lo_longitude = 20, lo_speed = Some 5, lo_heading = Some 0, lo_timestamp = Some t\<rparr>"

definition idle_engine :: engine where
  "idle_engine = \<lparr>pe_config = DEFAULT_CONFIG, pe_geofences = None, pe_filters = []\<rparr>"

definition one_fix :: client_filter where
  "one_fix = snd (client_update DEFAULT_CONFIG 1000 (fix_north 10 1000) (new_client_filter DEFAULT_CONFIG ''v''))"

definition demo_engine :: engine where
  "demo_engine = snd (engine_update 1000 ''v'' (fix_north 10 1000) idle_engine)"

lemma default_nums:
  "cfg_num DEFAULT_CONFIG ''PREDICTOR_PROCESS_NOISE'' = 0.1" "cfg_num DEFAULT_CONFIG ''PREDICTOR_MEASUREMENT_NOISE'' = 5"
  "cfg_num DEFAULT_CONFIG ''PREDICTOR_ANOMALY_RATE_LIMIT_MS'' = 60000" "cfg_bool DEFAULT_CONFIG ''PREDICTOR_ENABLE''"
  "cfg_num DEFAULT_CONFIG ''PREDICTOR_PRE_ALERT_HORIZON_S'' = 60"
  by (simp_all add: cfg_num_def cfg_bool_def DEFAULT_CONFIG_def)

lemma default_noise: "noise_ok DEFAULT_CONFIG"
  by (simp add: noise_ok_def default_nums)

lemma idle_reachable: "pe_reachable DEFAULT_CONFIG idle_engine"
  unfolding idle_engine_def by (rule pe_init)

lemma demo_reachable: "pe_reachable DEFAULT_CONFIG demo_engine"
  unfolding demo_engine_def by (rule pe_update [OF idle_reachable])

lemma demo_filter: "js_get (pe_filters demo_engine) ''v'' = Some one_fix"
  by (simp add: demo_engine_def engine_update_def idle_engine_def default_nums filter_for_def case_prod_beta
      put_filter_def one_fix_def)

lemma demo_ready: "ready_filter ''v'' demo_engine = Some one_fix"
  by (simp add: ready_filter_def demo_filter)
     (simp add: one_fix_def client_update_def new_client_filter_def new_kalman_def first_fix_def initialize_def
        fix_north_def latLonToEnu_def Let_def remember_fix_def)

theorem covariances_stay_psd_witness: "psd 4 (kf_P (cf_filter one_fix))"
  using covariances_stay_psd [OF demo_reachable default_noise demo_filter] by blast

theorem fixes_add_certainty_witness:
  "kf_P (correct (1, 2) (advance 3000 (cf_filter one_fix))) ! 0 ! 0 \<le> kf_P (advance 3000 (cf_filter one_fix)) ! 0 ! 0"
  using fixes_add_certainty [OF demo_reachable default_noise demo_filter refl refl refl, of 0] by simp

theorem trajectory_exact_witness: "map tp_horizon (getTrajectory ''v'' (Some [10, 500, 60]) demo_engine) = [10, 60]"
  using trajectory_exact [OF demo_reachable default_noise, of "''v''" "[10, 500, 60]"]
  by (simp add: demo_ready trajectory_at_def Let_def case_prod_beta cfg_num_def DEFAULT_CONFIG_def)

theorem migration_keeps_predictions_witness:
  "getTrajectory ''v'' None (restoreClientState ''v'' (getClientState ''v'' demo_engine) idle_engine)
     = getTrajectory ''v'' None demo_engine"
  using migration_keeps_predictions [OF demo_reachable idle_reachable default_noise demo_filter refl] by blast

theorem enu_roundtrip_witness: "(case latLonToEnu 11 21 10 20 of (x, y) \<Rightarrow> enuToLatLon x y 10 20) = (11, 21)"
  using enu_roundtrip [where ?lat0.0 = 10 and lat = 11 and lon = 21 and ?lon0.0 = 20] by simp

theorem reorigin_misplaces_witness:
  "fst (enuToLatLon (kf_x (reorigin 11 20 (cf_filter one_fix)) ! 0) (kf_x (reorigin 11 20 (cf_filter one_fix)) ! 1) 11 20) = 12"
proof -
  have "kf_origin (cf_filter one_fix) = Some (10, 20)"
    by (simp add: one_fix_def client_update_def new_client_filter_def new_kalman_def first_fix_def initialize_def
        fix_north_def latLonToEnu_def Let_def)
  moreover have "length (kf_x (cf_filter one_fix)) = 4"
    using reachable_filter [OF demo_reachable default_noise demo_filter] by (simp add: cf_ok_def kalman_okD)
  ultimately show ?thesis
    using reorigin_misplaces [of "cf_filter one_fix" 10 20 "reorigin 11 20 (cf_filter one_fix)" 11 20] by auto
qed

theorem anomalies_rate_limited_witness:
  "sorted_wrt (\<lambda>t t'. 60000 \<le> real_of_int (t' - t))
    (emissions ''kinematic_anomaly''
      (update_run DEFAULT_CONFIG [(1000, fix_north 10 1000), (2000, fix_north 11 2000), (90000, fix_north 12 90000)] one_fix))"
  using anomalies_rate_limited [of DEFAULT_CONFIG "''kinematic_anomaly''"
      "[(1000, fix_north 10 1000), (2000, fix_north 11 2000), (90000, fix_north 12 90000)]" one_fix]
  by (simp only: default_nums)

definition one_fence :: geo_engine where
  "one_fence = \<lparr>fencesForPoint = (\<lambda>lat lon. [(''f'', ''depot'')]), isPointInside = (\<lambda>f lat lon. True)\<rparr>"

theorem pre_alert_once_witness:
  "distinct (map pa_fenceId (alert_run DEFAULT_CONFIG (Some one_fence) [Check 1, Fix 2 (fix_north 11 2000), Check 3] one_fix))
    \<and> length (alert_run DEFAULT_CONFIG (Some one_fence) [Check 1] one_fix) = 1"
proof
  show "distinct (map pa_fenceId (alert_run DEFAULT_CONFIG (Some one_fence) [Check 1, Fix 2 (fix_north 11 2000), Check 3] one_fix))"
    using pre_alert_once by blast
  have "preAlertDebounce one_fix = []"
    by (simp add: one_fix_def client_update_def new_client_filter_def new_kalman_def Let_def)
  then show "length (alert_run DEFAULT_CONFIG (Some one_fence) [Check 1] one_fix) = 1"
    by (simp add: client_pre_alerts_def default_nums alert_horizon_def Let_def one_fence_def alert_fence_def)
qed

theorem heading_difference_one_sided_witness: "wrap_heading (- (3 / 2) * pi) = - (3 / 2) * pi"
  using heading_difference_one_sided [of "- (3 / 2) * pi"] by simp

end
