(* ===== verification/Validator.thy ===== *)
theory Validator
  imports Complex_Main Json
begin

text \<open>
  \<open>src/validator.js\<close>: the schemas of the client messages and \<open>validateMessage\<close>.

  \<^item> The schema library is third-party code. The schemas the source builds are values of \<open>schema\<close>; the
    library's \<open>safeParse\<close> is an argument, and \<open>zod_ok\<close> says what its documentation promises: it
    accepts exactly the values of the schema and returns them without the keys the schema lacks.
  \<^item> \<open>JSON.parse\<close>, the value of a JSON number, the length of a string in code units, the format check of
    a date and \<open>Date.parse\<close> are the fields of \<open>validator_env\<close>; \<open>None\<close> stands for \<open>NaN\<close> there.
\<close>

section \<open>Schemas\<close>

datatype schema =
    ZNumber "real option" "real option"
  | ZString "nat option" "nat option"
  | ZDatetime
  | ZLiteral string
  | ZObject "(string \<times> bool \<times> schema) list"
  | ZUnion "schema list"

abbreviation required :: "string \<Rightarrow> schema \<Rightarrow> string \<times> bool \<times> schema" where
  "required k s \<equiv> (k, False, s)"

abbreviation optional :: "string \<Rightarrow> schema \<Rightarrow> string \<times> bool \<times> schema" where
  "optional k s \<equiv> (k, True, s)"

definition locationPayloadSchema :: schema where
  "locationPayloadSchema = ZObject
    [required ''latitude'' (ZNumber (Some (- 90)) (Some 90)),
     required ''longitude'' (ZNumber (Some (- 180)) (Some 180)),
     optional ''altitude'' (ZNumber None None),
     optional ''accuracy'' (ZNumber (Some 0) None),
     optional ''speed'' (ZNumber (Some 0) None),
     optional ''timestamp'' ZDatetime]"

definition room_id :: "string \<times> bool \<times> schema" where
  "room_id = required ''roomId'' (ZString (Some 1) (Some 128))"

definition seq_no :: "string \<Rightarrow> string \<times> bool \<times> schema" where
  "seq_no k = required k (ZNumber (Some 0) None)"

definition joinRoomSchema :: "(string \<times> bool \<times> schema) list" where
  "joinRoomSchema = [room_id]"

definition leaveRoomSchema :: "(string \<times> bool \<times> schema) list" where
  "leaveRoomSchema = [room_id]"

definition reconnectSchema :: "(string \<times> bool \<times> schema) list" where
  "reconnectSchema = [room_id, seq_no ''lastSeq'', optional ''highestAckedSeq'' (ZNumber (Some 0) None)]"

definition ackSchema :: "(string \<times> bool \<times> schema) list" where
  "ackSchema = [room_id, seq_no ''seq'']"

definition nackSchema :: "(string \<times> bool \<times> schema) list" where
  "nackSchema = [room_id, seq_no ''seq'', optional ''reason'' (ZString None (Some 256))]"

definition tokenRefreshSchema :: "(string \<times> bool \<times> schema) list" where
  "tokenRefreshSchema = [required ''token'' (ZString (Some 1) None)]"

definition variant :: "string \<Rightarrow> (string \<times> bool \<times> schema) list \<Rightarrow> schema" where
  "variant type shape = ZObject (required ''type'' (ZLiteral type) # shape)"

definition messageSchema :: schema where
  "messageSchema = ZUnion
    [variant ''location_update'' [required ''payload'' locationPayloadSchema],
     variant ''join_room'' joinRoomSchema,
     variant ''leave_room'' leaveRoomSchema,
     variant ''reconnect'' reconnectSchema,
     variant ''ack'' ackSchema,
     variant ''nack'' nackSchema,
     variant ''token_refresh'' tokenRefreshSchema]"

definition MESSAGE_SIZE_LIMITS :: "(string, nat) jsmap" where
  "MESSAGE_SIZE_LIMITS =
    [(''location_update'', 512), (''join_room'', 256), (''leave_room'', 256), (''reconnect'', 256),
     (''ack'', 256), (''nack'', 512), (''token_refresh'', 2048)]"

section \<open>What the schema library promises\<close>

record validator_env =
  ve_parse :: "string \<Rightarrow> json option"
  ve_number :: "string \<Rightarrow> real"
  ve_length :: "string \<Rightarrow> nat"
  ve_datetime :: "string \<Rightarrow> bool"
  ve_date :: "string \<Rightarrow> time option"
  ve_skew :: "int option"

definition in_limits :: "'a::linorder option \<Rightarrow> 'a option \<Rightarrow> 'a \<Rightarrow> bool" where
  "in_limits lo hi x \<longleftrightarrow> (case lo of Some l \<Rightarrow> l \<le> x | None \<Rightarrow> True) \<and> (case hi of Some h \<Rightarrow> x \<le> h | None \<Rightarrow> True)"

fun conforms :: "validator_env \<Rightarrow> schema \<Rightarrow> json \<Rightarrow> bool" where
  "conforms env (ZNumber lo hi) v = (case v of JNum s \<Rightarrow> in_limits lo hi (ve_number env s) | _ \<Rightarrow> False)"
| "conforms env (ZString lo hi) v = (case v of JStr s \<Rightarrow> in_limits lo hi (ve_length env s) | _ \<Rightarrow> False)"
| "conforms env ZDatetime v = (case v of JStr s \<Rightarrow> ve_datetime env s | _ \<Rightarrow> False)"
| "conforms env (ZLiteral l) v = (v = JStr l)"
| "conforms env (ZObject shape) v =
     (case v of
        JObj m \<Rightarrow> (\<forall>(k, opt, s)\<in>set shape. case js_get m k of None \<Rightarrow> opt | Some x \<Rightarrow> conforms env s x)
      | _ \<Rightarrow> False)"
| "conforms env (ZUnion ss) v = (\<exists>s\<in>set ss. conforms env s v)"

fun strip :: "validator_env \<Rightarrow> schema \<Rightarrow> json \<Rightarrow> json" where
  "strip env (ZObject shape) v =
     (case v of
        JObj m \<Rightarrow> JObj (concat (map (\<lambda>(k, opt, s). case js_get m k of None \<Rightarrow> [] | Some x \<Rightarrow> [(k, strip env s x)]) shape))
      | _ \<Rightarrow> v)"
| "strip env (ZUnion ss) v =
     (case filter fst (map (\<lambda>s. (conforms env s v, strip env s v)) ss) of [] \<Rightarrow> v | (_, d) # _ \<Rightarrow> d)"
| "strip env s v = v"

type_synonym safe_parse = "schema \<Rightarrow> json \<Rightarrow> string list + json"

definition zod_ok :: "validator_env \<Rightarrow> safe_parse \<Rightarrow> bool" where
  "zod_ok env safeParse \<longleftrightarrow>
     (\<forall>s v. case safeParse s v of Inr d \<Rightarrow> conforms env s v \<and> d = strip env s v | Inl issues \<Rightarrow> \<not> conforms env s v)"

section \<open>validateMessage\<close>

definition INVALID_JSON :: string where
  "INVALID_JSON = ''INVALID_JSON''"

definition VALIDATION_ERROR :: string where
  "VALIDATION_ERROR = ''VALIDATION_ERROR''"

datatype raw_message = RawText string | RawValue json

record rejection =
  rj_error :: string
  rj_code :: string

definition oversize :: "string \<Rightarrow> json \<Rightarrow> (nat \<times> string) option" where
  "oversize raw parsed =
     (case get_prop parsed ''type'' of
        None \<Rightarrow> None
      | Some t \<Rightarrow>
          (case js_get MESSAGE_SIZE_LIMITS (to_text t) of
             None \<Rightarrow> None
           | Some limit \<Rightarrow> if length raw > limit then Some (limit, to_text t) else None))"

definition message_timestamp :: "json \<Rightarrow> string option" where
  "message_timestamp d =
     (if get_prop d ''type'' = Some (JStr ''location_update'')
      then (case get_prop d ''payload'' of
              Some p \<Rightarrow> (case get_prop p ''timestamp'' of
                           Some (JStr t) \<Rightarrow> if t \<noteq> [] then Some t else None
                         | _ \<Rightarrow> None)
            | None \<Rightarrow> None)
      else None)"

text \<open>A comparison with \<open>NaN\<close> is false, so an unreadable date or skew passes.\<close>

definition is_stale :: "validator_env \<Rightarrow> time \<Rightarrow> string \<Rightarrow> bool" where
  "is_stale env now t =
     (case (ve_date env t, ve_skew env) of (Some u, Some skew) \<Rightarrow> \<bar>now - u\<bar> \<ge> skew | _ \<Rightarrow> False)"

definition check_parsed ::
    "validator_env \<Rightarrow> safe_parse \<Rightarrow> time \<Rightarrow> json \<Rightarrow> rejection + json" where
  "check_parsed env safeParse now parsed =
     (case safeParse messageSchema parsed of
        Inl issues \<Rightarrow> Inl \<lparr>rj_error = join_with ''; '' issues, rj_code = VALIDATION_ERROR\<rparr>
      | Inr d \<Rightarrow>
          (case message_timestamp d of
             Some t \<Rightarrow>
               if is_stale env now t
               then Inl \<lparr>rj_error = ''Timestamp is too old or too far in the future'', rj_code = VALIDATION_ERROR\<rparr>
               else Inr d
           | None \<Rightarrow> Inr d))"

definition validateMessage ::
    "validator_env \<Rightarrow> safe_parse \<Rightarrow> time \<Rightarrow> raw_message \<Rightarrow> rejection + json" where
  "validateMessage env safeParse now raw =
     (case raw of
        RawValue v \<Rightarrow> check_parsed env safeParse now v
      | RawText s \<Rightarrow>
          (case ve_parse env s of
             None \<Rightarrow> Inl \<lparr>rj_error = ''Invalid JSON'', rj_code = INVALID_JSON\<rparr>
           | Some parsed \<Rightarrow>
               (case oversize s parsed of
                  Some (limit, type) \<Rightarrow>
                    Inl \<lparr>rj_error = ''Message exceeds size limit of '' @ nat_str limit @ '' bytes for type '' @ [char_of (39::nat)] @ type @ [char_of (39::nat)],
                         rj_code = VALIDATION_ERROR\<rparr>
                | None \<Rightarrow> check_parsed env safeParse now parsed)))"

section \<open>Accepted messages are well typed\<close>

text \<open>The messages the rest of the gateway works with.\<close>

datatype message =
    LocationUpdate json
  | JoinRoom string
  | LeaveRoom string
  | Reconnect string real "real option"
  | Ack string real
  | Nack string real "string option"
  | TokenRefresh string

definition str_prop :: "json \<Rightarrow> string \<Rightarrow> string option" where
  "str_prop d k = (case get_prop d k of Some (JStr s) \<Rightarrow> Some s | _ \<Rightarrow> None)"

definition num_prop :: "validator_env \<Rightarrow> json \<Rightarrow> string \<Rightarrow> real option" where
  "num_prop env d k = (case get_prop d k of Some (JNum s) \<Rightarrow> Some (ve_number env s) | _ \<Rightarrow> None)"

definition decode_message :: "validator_env \<Rightarrow> json \<Rightarrow> message option" where
  "decode_message env d =
     (case str_prop d ''type'' of
        None \<Rightarrow> None
      | Some ty \<Rightarrow>
          if ty = ''location_update'' then map_option LocationUpdate (get_prop d ''payload'')
          else if ty = ''token_refresh'' then map_option TokenRefresh (str_prop d ''token'')
          else (case str_prop d ''roomId'' of
            None \<Rightarrow> None
          | Some r \<Rightarrow>
              if ty = ''join_room'' then Some (JoinRoom r)
              else if ty = ''leave_room'' then Some (LeaveRoom r)
              else if ty = ''reconnect'' then map_option (\<lambda>n. Reconnect r n (num_prop env d ''highestAckedSeq'')) (num_prop env d ''lastSeq'')
              else if ty = ''ack'' then map_option (Ack r) (num_prop env d ''seq'')
              else if ty = ''nack'' then map_option (\<lambda>n. Nack r n (str_prop d ''reason'')) (num_prop env d ''seq'')
              else None))"

definition room_ok :: "validator_env \<Rightarrow> string \<Rightarrow> bool" where
  "room_ok env r \<longleftrightarrow> 1 \<le> ve_length env r \<and> ve_length env r \<le> 128"

fun message_ok :: "validator_env \<Rightarrow> message \<Rightarrow> bool" where
  "message_ok env (LocationUpdate p) =
     ((\<exists>lat lon. num_prop env p ''latitude'' = Some lat \<and> num_prop env p ''longitude'' = Some lon
         \<and> \<bar>lat\<bar> \<le> 90 \<and> \<bar>lon\<bar> \<le> 180)
      \<and> (\<forall>a. num_prop env p ''accuracy'' = Some a \<longrightarrow> 0 \<le> a) \<and> (\<forall>v. num_prop env p ''speed'' = Some v \<longrightarrow> 0 \<le> v)
      \<and> (\<forall>t. str_prop p ''timestamp'' = Some t \<longrightarrow> ve_datetime env t))"
| "message_ok env (JoinRoom r) = room_ok env r"
| "message_ok env (LeaveRoom r) = room_ok env r"
| "message_ok env (Reconnect r n h) = (room_ok env r \<and> 0 \<le> n \<and> (\<forall>k. h = Some k \<longrightarrow> 0 \<le> k))"
| "message_ok env (Ack r n) = (room_ok env r \<and> 0 \<le> n)"
| "message_ok env (Nack r n why) = (room_ok env r \<and> 0 \<le> n \<and> (\<forall>s. why = Some s \<longrightarrow> ve_length env s \<le> 256))"
| "message_ok env (TokenRefresh t) = (1 \<le> ve_length env t)"

lemma zod_cases:
  assumes "zod_ok env safeParse"
  shows "safeParse s v = Inr d \<Longrightarrow> conforms env s v \<and> d = strip env s v" "safeParse s v = Inl issues \<Longrightarrow> \<not> conforms env s v"
  using assms by (auto simp: zod_ok_def split: sum.splits dest!: spec [of _ s] spec [of _ v])

lemmas message_shapes = messageSchema_def variant_def joinRoomSchema_def leaveRoomSchema_def reconnectSchema_def
  ackSchema_def nackSchema_def tokenRefreshSchema_def room_id_def seq_no_def locationPayloadSchema_def


lemma get_prop_strip:
  "distinct (map fst shape) \<Longrightarrow> get_prop (strip env (ZObject shape) (JObj m)) k =
     (case map_of shape k of None \<Rightarrow> None | Some (opt, s) \<Rightarrow> map_option (strip env s) (js_get m k))"
proof (induction shape)
  case (Cons p shape)
  obtain a opt s where p: "p = (a, opt, s)" by (metis prod_cases3)
  with Cons.prems have "map_of shape a = None" by (simp add: map_of_eq_None_iff)
  with Cons p show ?case by (auto simp: map_add_def split: option.split)
qed simp

end
