(* ===== verification/ValidatorProperties.thy ===== *)
theory ValidatorProperties
  imports Validator
begin

text \<open>
  What the validator accepts is well typed, small enough and fresh, and it accepts all of that.
\<close>

declare map_of_eq_Some_iff [simp del] Some_eq_map_of_iff [simp del]

section \<open>The accepted variant\<close>

definition variants :: "(string \<times> (string \<times> bool \<times> schema) list) list" where
  "variants = [(''location_update'', [required ''payload'' locationPayloadSchema]), (''join_room'', joinRoomSchema),
     (''leave_room'', leaveRoomSchema), (''reconnect'', reconnectSchema), (''ack'', ackSchema), (''nack'', nackSchema),
     (''token_refresh'', tokenRefreshSchema)]"

lemma messageSchema_variants: "messageSchema = ZUnion (map (\<lambda>(t, sh). variant t sh) variants)"
  by (simp add: messageSchema_def variants_def)

lemma variant_type:
  "conforms env (variant t sh) v \<Longrightarrow> \<exists>m. v = JObj m \<and> js_get m ''type'' = Some (JStr t)"
  by (cases v) (auto simp: variant_def split: option.splits)

lemma filter_fst_map:
  "\<forall>x\<in>set xs. P x = Q x \<Longrightarrow> filter fst (map (\<lambda>x. (P x, f x)) xs) = map (\<lambda>x. (True, f x)) (filter Q xs)"
  by (induction xs) simp_all

lemma filter_key: "distinct (map fst xs) \<Longrightarrow> (k, x) \<in> set xs \<Longrightarrow> filter (\<lambda>p. fst p = k) xs = [(k, x)]"
proof (induction xs)
  case (Cons p xs)
  show ?case
  proof (cases "p = (k, x)")
    case True
    with Cons.prems(1) have "filter (\<lambda>p. fst p = k) xs = []" by (auto simp: filter_empty_conv image_iff)
    with True show ?thesis by simp
  next
    case False
    with Cons.prems have x: "(k, x) \<in> set xs" by simp
    then have "k \<in> fst ` set xs" by force
    with Cons.prems(1) have "fst p \<noteq> k" by auto
    with x Cons.IH Cons.prems(1) show ?thesis by simp
  qed
qed simp

lemma conforming_variant:
  assumes "conforms env messageSchema v"
  obtains t sh m where "(t, sh) \<in> set variants" "v = JObj m" "js_get m ''type'' = Some (JStr t)"
    "conforms env (variant t sh) v" "strip env messageSchema v = strip env (variant t sh) v"
proof -
  obtain t sh where v: "(t, sh) \<in> set variants" "conforms env (variant t sh) v"
    using assms by (auto simp: messageSchema_variants)
  obtain m where m: "v = JObj m" "js_get m ''type'' = Some (JStr t)" using variant_type [OF v(2)] by blast
  have dist: "distinct (map fst variants)" by (simp add: variants_def)
  define P where "P p = conforms env (variant (fst p) (snd p)) v" for p
  define f where "f p = strip env (variant (fst p) (snd p)) v" for p
  have only: "P p = (fst p = t)" if "p \<in> set variants" for p
  proof
    assume "P p"
    from variant_type [OF this [unfolded P_def]] m show "fst p = t" by simp
  next
    assume "fst p = t"
    then have "snd p = sh" using that v(1) dist by (metis eq_key_imp_eq_value prod.collapse)
    with \<open>fst p = t\<close> v(2) show "P p" by (simp add: P_def)
  qed
  have "strip env messageSchema v =
      (case filter fst (map (\<lambda>p. (P p, f p)) variants) of [] \<Rightarrow> v | (_, d) # _ \<Rightarrow> d)"
    by (simp only: messageSchema_variants strip.simps map_map comp_def case_prod_beta P_def f_def)
  also have "\<dots> = f (t, sh)"
    using filter_fst_map [of variants P "\<lambda>p. fst p = t" f] only filter_key [OF dist v(1)] by simp
  finally show ?thesis using v m that by (simp add: f_def)
qed

lemma strip_scalar [simp]:
  "strip env (ZNumber lo hi) = (\<lambda>v. v)" "strip env (ZString l h) = (\<lambda>v. v)" "strip env ZDatetime = (\<lambda>v. v)"
  "strip env (ZLiteral t) = (\<lambda>v. v)"
  by (rule ext, simp)+

lemma conforms_props:
  "conforms env (ZObject shape) (JObj m) \<Longrightarrow> (k, opt, s) \<in> set shape \<Longrightarrow>
     (js_get m k = None \<and> opt) \<or> (\<exists>x. js_get m k = Some x \<and> conforms env s x)"
  by (auto split: option.splits)

lemma conforms_scalars:
  "conforms env (ZNumber lo hi) v \<longleftrightarrow> (\<exists>s. v = JNum s \<and> in_limits lo hi (ve_number env s))"
  "conforms env (ZString l h) v \<longleftrightarrow> (\<exists>s. v = JStr s \<and> in_limits l h (ve_length env s))"
  "conforms env ZDatetime v \<longleftrightarrow> (\<exists>s. v = JStr s \<and> ve_datetime env s)"
  by (cases v; simp)+

declare conforms.simps(1-3) [simp del]

lemma payload_ok:
  assumes "conforms env locationPayloadSchema p"
  shows "message_ok env (LocationUpdate (strip env locationPayloadSchema p))"
proof -
  let ?d = "strip env locationPayloadSchema p"
  obtain m where p: "p = JObj m" using assms by (cases p) (simp_all add: locationPayloadSchema_def)
  note c = assms [unfolded locationPayloadSchema_def p, THEN conforms_props]
  have get: "get_prop (strip env locationPayloadSchema p) k = js_get m k"
    if "k \<in> {''latitude'', ''longitude'', ''accuracy'', ''speed'', ''timestamp''}" for k
    unfolding locationPayloadSchema_def p using that
    by (subst get_prop_strip) (auto simp: option.map_ident simp del: strip.simps)
  obtain a b where "js_get m ''latitude'' = Some (JNum a)" "js_get m ''longitude'' = Some (JNum b)"
    "\<bar>ve_number env a\<bar> \<le> 90" "\<bar>ve_number env b\<bar> \<le> 180"
    using c [of "''latitude''" False "ZNumber (Some (-90)) (Some 90)"] c [of "''longitude''" False "ZNumber (Some (-180)) (Some 180)"]
    by (auto simp: conforms_scalars in_limits_def abs_le_iff)
  then have "num_prop env ?d ''latitude'' = Some (ve_number env a)" "num_prop env ?d ''longitude'' = Some (ve_number env b)"
    "\<bar>ve_number env a\<bar> \<le> 90" "\<bar>ve_number env b\<bar> \<le> 180" by (simp_all add: num_prop_def get)
  moreover have "0 \<le> x" if "num_prop env ?d ''accuracy'' = Some x" for x
    using c [of "''accuracy''" True "ZNumber (Some 0) None"] that
    by (auto simp: conforms_scalars in_limits_def num_prop_def get)
  moreover have "0 \<le> x" if "num_prop env ?d ''speed'' = Some x" for x
    using c [of "''speed''" True "ZNumber (Some 0) None"] that
    by (auto simp: conforms_scalars in_limits_def num_prop_def get)
  moreover have "ve_datetime env x" if "str_prop ?d ''timestamp'' = Some x" for x
    using c [of "''timestamp''" True ZDatetime] that by (auto simp: conforms_scalars str_prop_def get)
  ultimately show ?thesis unfolding message_ok.simps by blast
qed

lemma variant_ok:
  assumes "(t, sh) \<in> set variants" "conforms env (variant t sh) (JObj m)" "js_get m ''type'' = Some (JStr t)"
  shows "\<exists>msg. decode_message env (strip env (variant t sh) (JObj m)) = Some msg \<and> message_ok env msg"
proof -
  let ?d = "strip env (variant t sh) (JObj m)"
  note c = assms(2) [unfolded variant_def, THEN conforms_props]
  have shape: "distinct (map fst (required ''type'' (ZLiteral t) # sh))"
    using assms(1) by (auto simp: variants_def message_shapes)
  note get = get_prop_strip [OF shape, folded variant_def]
  have type: "str_prop ?d ''type'' = Some t" by (simp add: str_prop_def get assms(3))
  have nums: "num_prop env ?d k = (case js_get m k of Some (JNum n) \<Rightarrow> Some (ve_number env n) | _ \<Rightarrow> None)"
    if "map_of (required ''type'' (ZLiteral t) # sh) k = Some (opt, ZNumber lo hi)" for k opt lo hi
    using that by (simp add: num_prop_def get option.map_ident)
  have strs: "str_prop ?d k = (case js_get m k of Some (JStr x) \<Rightarrow> Some x | _ \<Rightarrow> None)"
    if "map_of (required ''type'' (ZLiteral t) # sh) k = Some (opt, ZString l h)" for k opt l h
    using that by (simp add: str_prop_def get option.map_ident)
  have room: "\<exists>r. str_prop ?d ''roomId'' = Some r \<and> room_ok env r" if sh: "room_id \<in> set sh"
  proof -
    obtain r where r: "js_get m ''roomId'' = Some (JStr r)" "room_ok env r"
      using sh c [of "''roomId''" False "ZString (Some 1) (Some 128)"]
      by (auto simp: room_id_def conforms_scalars in_limits_def room_ok_def)
    have "map_of (required ''type'' (ZLiteral t) # sh) ''roomId'' = Some (snd room_id)"
      using sh shape by (simp add: room_id_def map_of_eq_Some_iff)
    with r show ?thesis by (simp add: str_prop_def get room_id_def)
  qed
  consider "t = ''location_update''" "sh = [required ''payload'' locationPayloadSchema]"
    | "t = ''token_refresh''" "sh = tokenRefreshSchema" | "t = ''join_room''" "sh = joinRoomSchema"
    | "t = ''leave_room''" "sh = leaveRoomSchema" | "t = ''reconnect''" "sh = reconnectSchema"
    | "t = ''ack''" "sh = ackSchema" | "t = ''nack''" "sh = nackSchema"
    using assms(1) unfolding variants_def list.set insert_iff empty_iff prod.inject by argo
  then show ?thesis
  proof cases
    case 1
    then obtain p where p: "js_get m ''payload'' = Some p" "conforms env locationPayloadSchema p"
      using c [of "''payload''" False locationPayloadSchema] by auto
    from p(2) have "message_ok env (LocationUpdate (strip env locationPayloadSchema p))"
      by (rule payload_ok)
    moreover have "get_prop ?d ''payload'' = Some (strip env locationPayloadSchema p)"
      unfolding get using 1 p(1) by simp
    ultimately show ?thesis using 1(1) type by (simp add: decode_message_def del: message_ok.simps)
  next
    case 2
    then obtain x where "js_get m ''token'' = Some (JStr x)" "1 \<le> ve_length env x"
      using c [of "''token''" False "ZString (Some 1) None"]
      by (auto simp: tokenRefreshSchema_def conforms_scalars in_limits_def)
    with 2 strs [of "''token''" False "Some 1" None] type show ?thesis by (simp add: decode_message_def tokenRefreshSchema_def)
  next
    case 3
    with room type show ?thesis by (auto simp: decode_message_def joinRoomSchema_def)
  next
    case 4
    with room type show ?thesis by (auto simp: decode_message_def leaveRoomSchema_def)
  next
    case 5
    then obtain n where n: "js_get m ''lastSeq'' = Some (JNum n)" "0 \<le> ve_number env n"
      using c [of "''lastSeq''" False "ZNumber (Some 0) None"]
      by (auto simp: reconnectSchema_def seq_no_def conforms_scalars in_limits_def)
    have "num_prop env ?d ''lastSeq'' = Some (ve_number env n)"
      using 5 nums [of "''lastSeq''" False "Some 0" None] n by (simp add: reconnectSchema_def seq_no_def room_id_def)
    moreover have "0 \<le> x" if "num_prop env ?d ''highestAckedSeq'' = Some x" for x
      using that 5 c [of "''highestAckedSeq''" True "ZNumber (Some 0) None"] nums [of "''highestAckedSeq''" True "Some 0" None]
      by (auto simp: reconnectSchema_def seq_no_def room_id_def conforms_scalars in_limits_def split: option.splits)
    moreover obtain r where "str_prop ?d ''roomId'' = Some r" "room_ok env r" using room 5 by (auto simp: reconnectSchema_def)
    moreover note type [unfolded 5(1)]
    ultimately show ?thesis using n(2) by (simp add: decode_message_def 5(1))
  next
    case 6
    then obtain n where n: "js_get m ''seq'' = Some (JNum n)" "0 \<le> ve_number env n"
      using c [of "''seq''" False "ZNumber (Some 0) None"]
      by (auto simp: ackSchema_def seq_no_def conforms_scalars in_limits_def)
    have "num_prop env ?d ''seq'' = Some (ve_number env n)"
      using 6 nums [of "''seq''" False "Some 0" None] n by (simp add: ackSchema_def seq_no_def room_id_def)
    moreover obtain r where "str_prop ?d ''roomId'' = Some r" "room_ok env r" using room 6 by (auto simp: ackSchema_def)
    moreover note type [unfolded 6(1)]
    ultimately show ?thesis using n(2) by (simp add: decode_message_def 6(1))
  next
    case 7
    then obtain n where n: "js_get m ''seq'' = Some (JNum n)" "0 \<le> ve_number env n"
      using c [of "''seq''" False "ZNumber (Some 0) None"]
      by (auto simp: nackSchema_def seq_no_def conforms_scalars in_limits_def)
    have "num_prop env ?d ''seq'' = Some (ve_number env n)"
      using 7 nums [of "''seq''" False "Some 0" None] n by (simp add: nackSchema_def seq_no_def room_id_def)
    moreover have "ve_length env x \<le> 256" if "str_prop ?d ''reason'' = Some x" for x
      using that 7 c [of "''reason''" True "ZString None (Some 256)"] strs [of "''reason''" True None "Some 256"]
      by (auto simp: nackSchema_def seq_no_def room_id_def conforms_scalars in_limits_def split: option.splits)
    moreover obtain r where "str_prop ?d ''roomId'' = Some r" "room_ok env r" using room 7 by (auto simp: nackSchema_def)
    moreover note type [unfolded 7(1)]
    ultimately show ?thesis using n(2) by (simp add: decode_message_def 7(1))
  qed
qed

section \<open>Properties\<close>

text \<open>
  C23. Everything the validator accepts is a well-typed message: its data decode to one of the seven
  message types with coordinates on the globe, room ids of 1 to 128 characters, sequence numbers,
  speeds and accuracies that are not negative, and a readable timestamp within the allowed skew;
  and a message that arrives as text is within the size limit of its type.
\<close>
theorem accepted_messages_are_typed:
  assumes "zod_ok env safeParse" and "validateMessage env safeParse now raw = Inr d"
  shows "(\<exists>m. decode_message env d = Some m \<and> message_ok env m)
    \<and> (\<forall>t u skew. message_timestamp d = Some t \<and> ve_date env t = Some u \<and> ve_skew env = Some skew
        \<longrightarrow> \<bar>now - u\<bar> < skew)
    \<and> (\<forall>s. raw = RawText s \<longrightarrow> (\<exists>v. ve_parse env s = Some v \<and> oversize s v = None))"
proof -
  obtain v where v: "check_parsed env safeParse now v = Inr d"
    and origin: "\<forall>s. raw = RawText s \<longrightarrow> ve_parse env s = Some v \<and> oversize s v = None"
    using assms(2) by (auto simp: validateMessage_def split: raw_message.splits option.splits)
  then have parse: "safeParse messageSchema v = Inr d"
    and fresh: "message_timestamp d = Some t \<Longrightarrow> \<not> is_stale env now t" for t
    by (auto simp: check_parsed_def split: sum.splits option.splits if_splits)
  note z = zod_cases(1) [OF assms(1) parse]
  obtain t sh m where vt: "(t, sh) \<in> set variants" "v = JObj m" "js_get m ''type'' = Some (JStr t)"
    "conforms env (variant t sh) v" "strip env messageSchema v = strip env (variant t sh) v"
    using conforming_variant z by blast
  then have "\<exists>msg. decode_message env d = Some msg \<and> message_ok env msg"
    using variant_ok [of t sh env m] z by simp
  moreover have "\<bar>now - u\<bar> < skew"
    if "message_timestamp d = Some s" "ve_date env s = Some u" "ve_skew env = Some skew" for s u skew
    using fresh [OF that(1)] that by (simp add: is_stale_def)
  ultimately show ?thesis using origin by blast
qed

text \<open>
  The validator rejects for a reason only: text that does not parse with \<open>INVALID_JSON\<close>, and all else
  with \<open>VALIDATION_ERROR\<close>, because it is over its size limit, does not conform to the message schema or
  has a stale timestamp.
\<close>
theorem rejections_have_reasons:
  assumes "zod_ok env safeParse" and "validateMessage env safeParse now raw = Inl r"
  shows "(\<exists>s. raw = RawText s \<and> ve_parse env s = None \<and> rj_code r = INVALID_JSON)
    \<or> (rj_code r = VALIDATION_ERROR
       \<and> (\<exists>v. (\<forall>s. raw = RawText s \<longrightarrow> ve_parse env s = Some v) \<and> (\<forall>w. raw = RawValue w \<longrightarrow> v = w)
            \<and> ((\<exists>s. raw = RawText s \<and> oversize s v \<noteq> None) \<or> \<not> conforms env messageSchema v
                \<or> (\<exists>t. message_timestamp (strip env messageSchema v) = Some t \<and> is_stale env now t))))"
proof -
  have parsed: "rj_code r = VALIDATION_ERROR \<and> (\<not> conforms env messageSchema v
      \<or> (\<exists>t. message_timestamp (strip env messageSchema v) = Some t \<and> is_stale env now t))"
    if "check_parsed env safeParse now v = Inl r" for v
  proof (cases "safeParse messageSchema v")
    case (Inl issues)
    with that zod_cases(2) [OF assms(1) Inl] show ?thesis by (auto simp: check_parsed_def)
  next
    case (Inr d)
    with that zod_cases(1) [OF assms(1) Inr] show ?thesis
      by (auto simp: check_parsed_def split: option.splits if_splits)
  qed
  show ?thesis
  proof (cases raw)
    case (RawValue v)
    with assms(2) parsed [of v] show ?thesis by (auto simp: validateMessage_def)
  next
    case (RawText s)
    show ?thesis
    proof (cases "ve_parse env s")
      case None
      with assms(2) RawText show ?thesis by (auto simp: validateMessage_def)
    next
      case (Some v)
      with assms(2) RawText parsed [of v] show ?thesis
        by (cases "oversize s v") (auto simp: validateMessage_def)
    qed
  qed
qed

text \<open>
  Validated messages carry no command id. The schema of a location update lists its type and payload
  only, so the \<open>commandId\<close> the message handler looks for is always stripped, and every update is
  dispatched under a fresh id.
\<close>
theorem command_ids_are_stripped:
  assumes "zod_ok env safeParse" and "validateMessage env safeParse now raw = Inr d"
  shows "get_prop d ''commandId'' = None"
proof -
  obtain v where "check_parsed env safeParse now v = Inr d"
    using assms(2) by (auto simp: validateMessage_def split: raw_message.splits option.splits)
  then have "safeParse messageSchema v = Inr d"
    by (auto simp: check_parsed_def split: sum.splits option.splits if_splits)
  note z = zod_cases(1) [OF assms(1) this]
  obtain t sh m where vt: "(t, sh) \<in> set variants" "v = JObj m"
    "strip env messageSchema v = strip env (variant t sh) v"
    using conforming_variant z by blast
  have "distinct (map fst (required ''type'' (ZLiteral t) # sh))" "map_of (required ''type'' (ZLiteral t) # sh) ''commandId'' = None"
    using vt(1) by (auto simp: variants_def message_shapes)
  then have "get_prop (strip env (variant t sh) (JObj m)) ''commandId'' = None"
    unfolding variant_def by (subst get_prop_strip) simp_all
  then show ?thesis using z vt by simp
qed

section \<open>Witnesses\<close>

definition ref_parse :: "validator_env \<Rightarrow> safe_parse" where
  "ref_parse env s v = (if conforms env s v then Inr (strip env s v) else Inl [''Invalid input''])"

lemma ref_parse_ok: "zod_ok env (ref_parse env)"
  by (simp add: zod_ok_def ref_parse_def)

definition ack_message :: json where
  "ack_message = JObj [(''type'', JStr ''ack''), (''roomId'', JStr ''r''), (''seq'', JNum ''7''), (''commandId'', JStr ''x'')]"

definition demo_venv :: validator_env where
  "demo_venv = \<lparr>ve_parse = (\<lambda>s. if s = stringify ack_message then Some ack_message else None), ve_number = (\<lambda>s. 7),
     ve_length = length, ve_datetime = (\<lambda>s. True), ve_date = (\<lambda>s. None), ve_skew = Some 30000\<rparr>"

lemma demo_accepts:
  "\<exists>d. validateMessage demo_venv (ref_parse demo_venv) 0 (RawText (stringify ack_message)) = Inr d"
proof -
  have "oversize (stringify ack_message) ack_message = None" by code_simp
  moreover have "conforms demo_venv messageSchema ack_message"
    by (simp add: messageSchema_def variant_def ackSchema_def room_id_def seq_no_def ack_message_def demo_venv_def
        conforms.simps(1-3) in_limits_def)
  moreover have "get_prop (strip demo_venv messageSchema ack_message) ''type'' = Some (JStr ''ack'')"
    by (simp add: messageSchema_def variant_def message_shapes ack_message_def demo_venv_def conforms.simps(1-3) in_limits_def)
  ultimately show ?thesis
    by (simp add: validateMessage_def demo_venv_def [THEN arg_cong, of ve_parse] check_parsed_def ref_parse_def message_timestamp_def)
qed

theorem accepted_messages_are_typed_witness:
  "\<exists>d m. validateMessage demo_venv (ref_parse demo_venv) 0 (RawText (stringify ack_message)) = Inr d
     \<and> decode_message demo_venv d = Some m \<and> message_ok demo_venv m"
  using demo_accepts accepted_messages_are_typed [OF ref_parse_ok] by blast

theorem command_ids_are_stripped_witness:
  "\<exists>d. validateMessage demo_venv (ref_parse demo_venv) 0 (RawText (stringify ack_message)) = Inr d
     \<and> get_prop d ''commandId'' = None"
  using demo_accepts command_ids_are_stripped [OF ref_parse_ok] by blast

theorem rejections_have_reasons_witness:
  "\<exists>r. validateMessage demo_venv (ref_parse demo_venv) 0 (RawValue JNull) = Inl r \<and> rj_code r = VALIDATION_ERROR"
proof -
  have "\<not> conforms demo_venv messageSchema JNull"
    by (simp add: messageSchema_def variant_def)
  then obtain r where r: "validateMessage demo_venv (ref_parse demo_venv) 0 (RawValue JNull) = Inl r"
    by (simp add: validateMessage_def check_parsed_def ref_parse_def)
  with rejections_have_reasons [OF ref_parse_ok r] show ?thesis by blast
qed

end
