(* ===== verification/Auth.thy ===== *)
theory Auth
  imports Json
begin

text \<open>
  \<open>src/auth.js\<close>: \<open>verifyConnection\<close> and the cache of the signing keys.

  \<^item> The token library and the conversion of a key are third-party code: the fields of \<open>jwt_lib\<close>.
  \<^item> A function that awaits is split at its awaits: \<open>getJwks\<close> starts or joins a fetch, and the fetch
    completes or fails later. A caller that waits is told the outcome of the fetch it waits for.
  \<^item> The process environment is \<open>auth_env\<close>, the clock an argument.
\<close>

section \<open>The cache of signing keys\<close>

record jwk =
  jwk_kid :: "string option"
  jwk_material :: json

text \<open>A fetched document, which is a truthy JSON value; \<open>None\<close> when it has no array of keys.\<close>

type_synonym jwks = "jwk list option"

record jwks_state =
  jwksCache :: "jwks option"
  lastFetchTime :: time
  fetchPromise :: bool

definition jwks_init :: jwks_state where
  "jwks_init = \<lparr>jwksCache = None, lastFetchTime = 0, fetchPromise = False\<rparr>"

datatype jwks_answer = Keys jwks | WaitForFetch

text \<open>The answer, whether a fetch is started, and the state.\<close>

definition getJwks :: "int \<Rightarrow> time \<Rightarrow> jwks_state \<Rightarrow> jwks_answer \<times> bool \<times> jwks_state" where
  "getJwks ttl now s =
     (case jwksCache s of
        Some c \<Rightarrow>
          if now - lastFetchTime s < ttl then (Keys c, False, s)
          else if fetchPromise s then (Keys c, False, s)
          else (Keys c, True, s\<lparr>fetchPromise := True\<rparr>)
      | None \<Rightarrow>
          if fetchPromise s then (WaitForFetch, False, s)
          else (WaitForFetch, True, s\<lparr>fetchPromise := True\<rparr>))"

definition fetch_succeeds :: "time \<Rightarrow> jwks \<Rightarrow> jwks_state \<Rightarrow> jwks_state" where
  "fetch_succeeds now data s = s\<lparr>jwksCache := Some data, lastFetchTime := now, fetchPromise := False\<rparr>"

text \<open>A failed fetch gives its waiting callers the stale keys, or throws when there are none.\<close>

definition fetch_fails :: "jwks_state \<Rightarrow> jwks option \<times> jwks_state" where
  "fetch_fails s = (jwksCache s, s\<lparr>fetchPromise := False\<rparr>)"

section \<open>verifyConnection\<close>

record header =
  hd_alg :: "json option"
  hd_kid :: "string option"

record auth_env =
  AUTH_SECRET :: "string option"
  AUTH_JWKS_URI :: "string option"
  AUTH_CLOCK_SKEW_MS :: int
  AUTH_ISSUER :: "string option"
  AUTH_AUDIENCE :: "string option"

datatype auth_key = SecretKey string | PublicKey json

record jwt_options =
  vo_algorithms :: "string list"
  vo_clockToleranceMs :: int
  vo_issuer :: "string option"
  vo_audience :: "string option"

datatype verify_error = TokenExpiredError | NotBeforeError | JsonWebTokenError string | OtherError

record jwt_lib =
  jwt_decode :: "string \<Rightarrow> (header \<times> json) option"
  jwt_verify :: "string \<Rightarrow> auth_key \<Rightarrow> jwt_options \<Rightarrow> verify_error + json"
  createPublicKey :: "json \<Rightarrow> json option"

datatype auth_result = AuthOk json | AuthErr string | AuthThrows

definition set_str :: "string option \<Rightarrow> string option" where
  "set_str x = (case x of Some s \<Rightarrow> if s \<noteq> [] then Some s else None | None \<Rightarrow> None)"

definition lower :: "string \<Rightarrow> string" where
  "lower s = map (\<lambda>c. let n = of_char c :: nat in if 65 \<le> n \<and> n \<le> 90 then char_of (n + 32) else c) s"

definition verify_options :: "auth_env \<Rightarrow> jwt_options" where
  "verify_options env =
     \<lparr>vo_algorithms = [''HS256'', ''RS256'', ''ES256''], vo_clockToleranceMs = AUTH_CLOCK_SKEW_MS env,
      vo_issuer = set_str (AUTH_ISSUER env), vo_audience = set_str (AUTH_AUDIENCE env)\<rparr>"

text \<open>The checks before the first await: an answer, or the decoded token.\<close>

definition pre_checks :: "jwt_lib \<Rightarrow> auth_env \<Rightarrow> string option \<Rightarrow> auth_result + (string \<times> header)" where
  "pre_checks lib env token =
     (if set_str (AUTH_SECRET env) = None \<and> set_str (AUTH_JWKS_URI env) = None
      then Inl (AuthErr ''Server misconfiguration: AUTH_SECRET or AUTH_JWKS_URI is missing'')
      else case set_str token of
        None \<Rightarrow> Inl (AuthErr ''Authentication token is missing'')
      | Some t \<Rightarrow>
          (case jwt_decode lib t of
             None \<Rightarrow> Inl (AuthErr ''Invalid token'')
           | Some (header, payload) \<Rightarrow>
               (case hd_alg header of
                  None \<Rightarrow> Inl (AuthErr ''Invalid token: unsupported algorithm'')
                | Some alg \<Rightarrow>
                    if \<not> truthy alg then Inl (AuthErr ''Invalid token: unsupported algorithm'')
                    else (case alg of
                      JStr a \<Rightarrow>
                        if lower a = ''none'' then Inl (AuthErr ''Invalid token: unsupported algorithm'')
                        else (case set_str (AUTH_ISSUER env) of
                          None \<Rightarrow> Inr (t, header)
                        | Some issuer \<Rightarrow>
                            if get_prop payload ''iss'' \<noteq> Some (JStr issuer)
                            then Inl (AuthErr (''jwt issuer invalid. expected: '' @ issuer))
                            else Inr (t, header))
                    | _ \<Rightarrow> Inl AuthThrows))))"

definition pick_key :: "jwt_lib \<Rightarrow> header \<Rightarrow> jwks \<Rightarrow> auth_result + auth_key" where
  "pick_key lib header keys =
     (case set_str (hd_kid header) of
        None \<Rightarrow> Inl (AuthErr ''Invalid token: missing kid header'')
      | Some kid \<Rightarrow>
          (case keys of
             None \<Rightarrow> Inl (AuthErr ''Invalid token'')
           | Some ks \<Rightarrow>
               (case find (\<lambda>k. jwk_kid k = Some kid) ks of
                  None \<Rightarrow> Inl (AuthErr ''Invalid token: unknown kid'')
                | Some k \<Rightarrow>
                    (case createPublicKey lib (jwk_material k) of
                       None \<Rightarrow> Inl (AuthErr ''Invalid token: unsupported key format'')
                     | Some key \<Rightarrow> Inr (PublicKey key)))))"

definition starts_with :: "string \<Rightarrow> string \<Rightarrow> bool" where
  "starts_with p s \<longleftrightarrow> take (length p) s = p"

definition verify_failure :: "verify_error \<Rightarrow> auth_result" where
  "verify_failure err =
     (case err of
        TokenExpiredError \<Rightarrow> AuthErr ''Token has expired''
      | NotBeforeError \<Rightarrow> AuthErr ''Token not yet valid''
      | JsonWebTokenError m \<Rightarrow>
          if starts_with ''jwt issuer invalid'' m \<or> starts_with ''jwt audience invalid'' m then AuthErr m
          else if m = ''jwt signature is required'' then AuthErr ''Invalid token: unsupported algorithm''
          else AuthErr ''Invalid token''
      | OtherError \<Rightarrow> AuthErr ''Invalid token'')"

text \<open>\<open>payload.sub ?? payload.clientId ?? "anonymous"\<close>\<close>

definition nullish_json :: "json option \<Rightarrow> bool" where
  "nullish_json v \<longleftrightarrow> v = None \<or> v = Some JNull"

definition identity_of :: "json \<Rightarrow> json" where
  "identity_of payload =
     (if \<not> nullish_json (get_prop payload ''sub'') then the (get_prop payload ''sub'')
      else if \<not> nullish_json (get_prop payload ''clientId'') then the (get_prop payload ''clientId'')
      else JStr ''anonymous'')"

definition check_signature :: "jwt_lib \<Rightarrow> auth_env \<Rightarrow> string \<Rightarrow> auth_key \<Rightarrow> auth_result" where
  "check_signature lib env t key =
     (case jwt_verify lib t key (verify_options env) of
        Inl err \<Rightarrow> verify_failure err
      | Inr payload \<Rightarrow> AuthOk (identity_of payload))"

text \<open>
  \<open>keys\<close> is what awaiting \<open>getJwks\<close> gives: the keys, or \<open>None\<close> when it throws. It is read only
  with a JWKS address configured, which takes precedence over the secret.
\<close>

definition verifyConnection :: "jwt_lib \<Rightarrow> auth_env \<Rightarrow> string option \<Rightarrow> jwks option \<Rightarrow> auth_result" where
  "verifyConnection lib env token keys =
     (case pre_checks lib env token of
        Inl r \<Rightarrow> r
      | Inr (t, header) \<Rightarrow>
          (case set_str (AUTH_JWKS_URI env) of
             Some uri \<Rightarrow>
               (case keys of
                  None \<Rightarrow> AuthErr ''Invalid token''
                | Some ks \<Rightarrow>
                    (case pick_key lib header ks of Inl r \<Rightarrow> r | Inr key \<Rightarrow> check_signature lib env t key))
           | None \<Rightarrow>
               (case set_str (AUTH_SECRET env) of
                  Some secret \<Rightarrow> check_signature lib env t (SecretKey secret)
                | None \<Rightarrow> AuthErr ''Invalid token'')))"

section \<open>Runs of the cache\<close>

text \<open>The fetches in flight are counted apart from the flag the code keeps.\<close>

record cache_world =
  cw_state :: jwks_state
  cw_inFlight :: nat

inductive cache_step :: "int \<Rightarrow> cache_world \<Rightarrow> cache_world \<Rightarrow> bool" for ttl where
  cs_get: "getJwks ttl now (cw_state w) = (answer, started, s') \<Longrightarrow>
     cache_step ttl w \<lparr>cw_state = s', cw_inFlight = cw_inFlight w + (if started then 1 else 0)\<rparr>"
| cs_done: "cw_inFlight w = Suc n \<Longrightarrow>
     cache_step ttl w \<lparr>cw_state = fetch_succeeds now data (cw_state w), cw_inFlight = n\<rparr>"
| cs_fail: "cw_inFlight w = Suc n \<Longrightarrow>
     cache_step ttl w \<lparr>cw_state = snd (fetch_fails (cw_state w)), cw_inFlight = n\<rparr>"

inductive cache_reachable :: "int \<Rightarrow> cache_world \<Rightarrow> bool" for ttl where
  cr_init: "cache_reachable ttl \<lparr>cw_state = jwks_init, cw_inFlight = 0\<rparr>"
| cr_step: "cache_reachable ttl w \<Longrightarrow> cache_step ttl w w' \<Longrightarrow> cache_reachable ttl w'"

inductive_cases cache_stepE: "cache_step ttl w w'"

section \<open>Properties\<close>

lemma flag_counts: "cache_reachable ttl w \<Longrightarrow> cw_inFlight w = (if fetchPromise (cw_state w) then 1 else 0)"
proof (induction rule: cache_reachable.induct)
  case (cr_step w w')
  from cr_step(2,3) show ?case
    by cases (auto simp: getJwks_def fetch_succeeds_def fetch_fails_def split: option.splits if_splits)
qed (simp add: jwks_init_def)

definition has_keys :: "cache_world \<Rightarrow> bool" where
  "has_keys w \<longleftrightarrow> jwksCache (cw_state w) \<noteq> None"

lemma step_keeps_keys: "cache_step ttl w w' \<Longrightarrow> has_keys w \<Longrightarrow> has_keys w'"
  by (erule cache_stepE) (auto simp: has_keys_def getJwks_def fetch_succeeds_def fetch_fails_def split: option.splits if_splits)

text \<open>
  The key cache asks the server as little as it can: at most one fetch is in flight at any time, none
  is started while the keys are younger than their lifetime, and once keys were fetched no caller
  waits or fails again, whatever later fetches do.
\<close>
theorem jwks_fetches_coalesce:
  assumes "cache_reachable ttl w" and "getJwks ttl now (cw_state w) = (answer, started, s')"
  shows "cw_inFlight w + (if started then 1 else 0) \<le> 1
    \<and> (started \<longrightarrow> has_keys w \<longrightarrow> ttl \<le> now - lastFetchTime (cw_state w))
    \<and> (has_keys w \<longrightarrow> answer = Keys (the (jwksCache (cw_state w))))
    \<and> (\<forall>w'. (cache_step ttl)\<^sup>*\<^sup>* w w' \<longrightarrow> has_keys w \<longrightarrow> has_keys w')"
proof (intro conjI allI impI)
  show "cw_inFlight w + (if started then 1 else 0) \<le> 1"
    using flag_counts [OF assms(1)] assms(2) by (auto simp: getJwks_def split: option.splits if_splits)
  show "ttl \<le> now - lastFetchTime (cw_state w)" if started "has_keys w"
    using assms(2) that by (auto simp: getJwks_def has_keys_def split: option.splits if_splits)
  show "answer = Keys (the (jwksCache (cw_state w)))" if "has_keys w"
    using assms(2) that by (auto simp: getJwks_def has_keys_def split: option.splits if_splits)
  fix w' assume "(cache_step ttl)\<^sup>*\<^sup>* w w'" "has_keys w"
  then show "has_keys w'" by (induction rule: rtranclp_induct) (auto intro: step_keeps_keys)
qed

lemma pre_checks_Inr:
  assumes "pre_checks lib env token = Inr (t, header)"
  obtains payload a where "token = Some t" "jwt_decode lib t = Some (header, payload)" "hd_alg header = Some (JStr a)"
    "lower a \<noteq> ''none''" "a \<noteq> []" "set_str (AUTH_ISSUER env) \<noteq> None \<Longrightarrow>
       get_prop payload ''iss'' = Some (JStr (the (AUTH_ISSUER env)))"
  using assms by (auto simp: pre_checks_def set_str_def split: if_splits option.splits prod.splits json.splits)

text \<open>
  C24. Nobody connects without a verified signature. A connection is accepted only when the token
  decodes, names an algorithm other than \<open>none\<close> and, where an issuer is configured, comes from it; and
  when the library verifies the token with the configured algorithms, issuer and audience, against
  the key of the token's key id (or the shared secret when no key address is configured). The identity is taken
  from the verified payload.
\<close>
theorem authentication_sound:
  assumes "verifyConnection lib env token keys = AuthOk c"
  shows "\<exists>t header claims a key payload. token = Some t \<and> jwt_decode lib t = Some (header, claims)
    \<and> hd_alg header = Some (JStr a) \<and> lower a \<noteq> ''none''
    \<and> (set_str (AUTH_ISSUER env) \<noteq> None \<longrightarrow> get_prop claims ''iss'' = Some (JStr (the (AUTH_ISSUER env))))
    \<and> jwt_verify lib t key (verify_options env) = Inr payload \<and> c = identity_of payload
    \<and> (case set_str (AUTH_JWKS_URI env) of
         None \<Rightarrow> \<exists>s. set_str (AUTH_SECRET env) = Some s \<and> key = SecretKey s
       | Some uri \<Rightarrow> \<exists>ks k m. keys = Some (Some ks) \<and> k \<in> set ks \<and> jwk_kid k = hd_kid header
           \<and> createPublicKey lib (jwk_material k) = Some m \<and> key = PublicKey m)"
proof -
  obtain t header where pre: "pre_checks lib env token = Inr (t, header)"
    using assms by (auto simp: verifyConnection_def pre_checks_def split: sum.splits if_splits option.splits json.splits)
  obtain key where sig: "check_signature lib env t key = AuthOk c"
    and key: "case set_str (AUTH_JWKS_URI env) of
         None \<Rightarrow> \<exists>s. set_str (AUTH_SECRET env) = Some s \<and> key = SecretKey s
       | Some uri \<Rightarrow> \<exists>ks k m. keys = Some (Some ks) \<and> k \<in> set ks \<and> jwk_kid k = hd_kid header
           \<and> createPublicKey lib (jwk_material k) = Some m \<and> key = PublicKey m"
  proof (cases "set_str (AUTH_JWKS_URI env)")
    case None
    with assms pre that show ?thesis by (auto simp: verifyConnection_def split: option.splits)
  next
    case (Some uri)
    with assms pre obtain ks key where k: "keys = Some ks" "pick_key lib header ks = Inr key" "check_signature lib env t key = AuthOk c"
      by (auto simp: verifyConnection_def pick_key_def split: option.splits sum.splits)
    from k(2) obtain kid l j m where "set_str (hd_kid header) = Some kid" "ks = Some l" "find (\<lambda>k. jwk_kid k = Some kid) l = Some j"
      "createPublicKey lib (jwk_material j) = Some m" "key = PublicKey m"
      by (auto simp: pick_key_def split: option.splits)
    moreover from this(1) have "hd_kid header = Some kid" by (auto simp: set_str_def split: option.splits if_splits)
    moreover have "j \<in> set l \<and> jwk_kid j = Some kid"
      using \<open>find _ l = Some j\<close> by (auto simp: find_Some_iff)
    ultimately show ?thesis using that [OF k(3)] k(1) Some by auto
  qed
  from sig obtain payload where "jwt_verify lib t key (verify_options env) = Inr payload" "c = identity_of payload"
    by (auto simp: check_signature_def verify_failure_def split: sum.splits verify_error.splits if_splits)
  with key show ?thesis by (rule_tac pre_checks_Inr [OF pre]) blast
qed

text \<open>
  Unsigned tokens never pass, even against a library that verifies everything: a token without an
  algorithm, or with \<open>none\<close> in any spelling, is refused before the library is asked.
\<close>
theorem unsigned_tokens_refused:
  assumes "jwt_decode lib t = Some (header, claims)"
    and "hd_alg header = None \<or> (\<exists>a. hd_alg header = Some (JStr a) \<and> (a = [] \<or> lower a = ''none''))"
    and "set_str (AUTH_SECRET env) \<noteq> None \<or> set_str (AUTH_JWKS_URI env) \<noteq> None" and "t \<noteq> []"
  shows "verifyConnection lib env (Some t) keys = AuthErr ''Invalid token: unsupported algorithm''"
  using assms by (auto simp: verifyConnection_def pre_checks_def set_str_def split: option.splits)

section \<open>Witnesses\<close>

definition open_lib :: jwt_lib where
  "open_lib = \<lparr>jwt_decode = (\<lambda>t. if t = ''good'' then Some (\<lparr>hd_alg = Some (JStr ''RS256''), hd_kid = Some ''k1''\<rparr>, JObj [(''sub'', JStr ''v'')])
        else if t = ''bare'' then Some (\<lparr>hd_alg = Some (JStr ''NoNe''), hd_kid = None\<rparr>, JObj []) else None),
     jwt_verify = (\<lambda>t k vo. Inr (JObj [(''sub'', JStr ''v'')])), createPublicKey = Some\<rparr>"

definition jwks_env :: auth_env where
  "jwks_env = \<lparr>AUTH_SECRET = None, AUTH_JWKS_URI = Some ''https://keys'', AUTH_CLOCK_SKEW_MS = 30000, AUTH_ISSUER = None, AUTH_AUDIENCE = None\<rparr>"

definition one_key :: jwks where
  "one_key = Some [\<lparr>jwk_kid = Some ''k0'', jwk_material = JNull\<rparr>, \<lparr>jwk_kid = Some ''k1'', jwk_material = JNum ''1''\<rparr>]"

theorem authentication_sound_witness:
  "verifyConnection open_lib jwks_env (Some ''good'') (Some one_key) = AuthOk (JStr ''v'')
    \<and> (\<exists>t header claims. Some ''good'' = Some t \<and> jwt_decode open_lib t = Some (header, claims))"
proof
  show ok: "verifyConnection open_lib jwks_env (Some ''good'') (Some one_key) = AuthOk (JStr ''v'')" by code_simp
  from authentication_sound [OF ok]
  show "\<exists>t header claims. Some ''good'' = Some t \<and> jwt_decode open_lib t = Some (header, claims)" by blast
qed

theorem unsigned_tokens_refused_witness:
  "verifyConnection open_lib jwks_env (Some ''bare'') None = AuthErr ''Invalid token: unsupported algorithm''"
proof (rule unsigned_tokens_refused [where header = "\<lparr>hd_alg = Some (JStr ''NoNe''), hd_kid = None\<rparr>" and claims = "JObj []"])
  have "lower ''NoNe'' = ''none''" by code_simp
  then show "hd_alg \<lparr>hd_alg = Some (JStr ''NoNe''), hd_kid = None\<rparr> = None
      \<or> (\<exists>a. hd_alg \<lparr>hd_alg = Some (JStr ''NoNe''), hd_kid = None\<rparr> = Some (JStr a) \<and> (a = [] \<or> lower a = ''none''))" by simp
qed (simp_all add: open_lib_def jwks_env_def set_str_def)

definition fetched_world :: cache_world where
  "fetched_world = \<lparr>cw_state = fetch_succeeds 100 one_key (jwks_init\<lparr>fetchPromise := True\<rparr>), cw_inFlight = 0\<rparr>"

lemma fetched_reachable: "cache_reachable 600 fetched_world"
proof -
  have "cache_step 600 \<lparr>cw_state = jwks_init, cw_inFlight = 0\<rparr> \<lparr>cw_state = jwks_init\<lparr>fetchPromise := True\<rparr>, cw_inFlight = 1\<rparr>"
    using cs_get [of 600 0 "\<lparr>cw_state = jwks_init, cw_inFlight = 0\<rparr>" WaitForFetch True] by (simp add: getJwks_def jwks_init_def)
  from cr_step [OF cr_init this] have "cache_reachable 600 \<lparr>cw_state = jwks_init\<lparr>fetchPromise := True\<rparr>, cw_inFlight = 1\<rparr>" .
  from cr_step [OF this cs_done] show ?thesis by (simp add: fetched_world_def)
qed

theorem jwks_fetches_coalesce_witness:
  "fst (getJwks 600 5000 (cw_state fetched_world)) = Keys one_key \<and> fst (snd (getJwks 600 5000 (cw_state fetched_world)))"
proof -
  have g: "getJwks 600 5000 (cw_state fetched_world) = (Keys one_key, True, cw_state fetched_world\<lparr>fetchPromise := True\<rparr>)"
    by (simp add: getJwks_def fetched_world_def fetch_succeeds_def)
  have "has_keys fetched_world" by (simp add: has_keys_def fetched_world_def fetch_succeeds_def)
  with jwks_fetches_coalesce [OF fetched_reachable g] g show ?thesis by simp
qed

end
