(* ===== verification/Gateway.thy ===== *)
theory Gateway
  imports RoomBroadcast RateLimit Commands Sessions Validator Auth
begin

text \<open>
  \<open>src/server.js\<close>, first part: the state of \<open>createServer\<close> and the session handling between the
  modelled components. \<open>GatewayDispatch\<close> and \<open>GatewayMessages\<close> hold the rest.

  \<^item> The connection handler declares \<open>identity\<close> and \<open>ctx\<close> twice, so the module does not load as it
    stands; each second declaration is read as an assignment to the first.
  \<^item> A socket is a number that is not reused. Its connection record stays after it closed, because the
    context of a session outlives the socket in \<open>liveClients\<close> and in pending saves. A context is
    identified by its socket.
  \<^item> A session state is the JSON value that is cached, sealed and loaded. Numbers in it and in the
    messages are integers; the schema also lets fractions pass, these are not modelled.
  \<^item> Clock, heap size, random ids, socket states and the libraries are the fields of \<open>gw_env\<close>.
  \<^item> Log lines are left out.
\<close>

section \<open>Numbers and cookies\<close>

fun digits_value :: "nat \<Rightarrow> string \<Rightarrow> nat option" where
  "digits_value n [] = Some n"
| "digits_value n (c # s) = (if is_digit c then digits_value (10 * n + (of_char c - 48)) s else None)"

definition parse_nat :: "string \<Rightarrow> nat option" where
  "parse_nat s = (if s = [] then None else digits_value 0 s)"

definition parse_int :: "string \<Rightarrow> int option" where
  "parse_int s =
     (if s \<noteq> [] \<and> hd s = CHR ''-'' then map_option (\<lambda>n. - int n) (parse_nat (tl s))
      else map_option int (parse_nat s))"

text \<open>\<open>Number(v)\<close>; \<open>None\<close> is \<open>NaN\<close>.\<close>

fun js_number :: "json \<Rightarrow> int option" where
  "js_number (JNum s) = parse_int s"
| "js_number (JStr s) = (if trim s = [] then Some 0 else parse_int (trim s))"
| "js_number JNull = Some 0"
| "js_number (JBool b) = Some (if b then 1 else 0)"
| "js_number _ = None"

text \<open>\<open>Number(v) || d\<close>\<close>

definition number_or :: "int \<Rightarrow> json option \<Rightarrow> int" where
  "number_or d v =
     (case Option.bind v js_number of Some n \<Rightarrow> if n \<noteq> 0 then n else d | None \<Rightarrow> d)"

definition jnum :: "int \<Rightarrow> json" where
  "jnum n = JNum (int_str n)"

fun find_cookie :: "string \<Rightarrow> string list \<Rightarrow> string option" where
  "find_cookie name [] = None"
| "find_cookie name (pair # ps) =
     (if CHR ''='' \<notin> set pair then find_cookie name ps
      else if trim (takeWhile (\<lambda>c. c \<noteq> CHR ''='') pair) = name
      then Some (trim (tl (dropWhile (\<lambda>c. c \<noteq> CHR ''='') pair)))
      else find_cookie name ps)"

definition readCookie :: "string option \<Rightarrow> string \<Rightarrow> string option" where
  "readCookie header name =
     (case header of None \<Rightarrow> None | Some h \<Rightarrow> find_cookie name (split_on (CHR '';'') h))"

text \<open>The header with the affinity cookie, sent with each upgrade when sessions are on.\<close>

definition affinity_cookie :: "string \<Rightarrow> string \<Rightarrow> string" where
  "affinity_cookie name instanceId =
     ''Set-Cookie: '' @ name @ ''='' @ instanceId @ ''; Path=/; HttpOnly; SameSite=Lax; Max-Age=3600''"

text \<open>\<open>decode\<close> is \<open>jwt.decode\<close>; \<open>None\<close> when it throws or gives \<open>null\<close>.\<close>

definition sessionIdFromToken :: "(string \<Rightarrow> json option) \<Rightarrow> string option \<Rightarrow> string option" where
  "sessionIdFromToken decode token =
     (case token of
        None \<Rightarrow> None
      | Some t \<Rightarrow>
          if t = [] then None
          else (case Option.bind (decode t) (\<lambda>p. get_prop p ''sid'') of
                  Some (JStr sid) \<Rightarrow> if sid \<noteq> [] then Some sid else None
                | _ \<Rightarrow> None))"

section \<open>State\<close>

definition RATE_WINDOW_MS :: int where "RATE_WINDOW_MS = 1000"
definition MAX_LOCAL_SESSIONS :: nat where "MAX_LOCAL_SESSIONS = 10000"
definition MAX_CLOSE_REASON_BYTES :: nat where "MAX_CLOSE_REASON_BYTES = 123"
definition MIGRATE_CLOSE_CODE :: int where "MIGRATE_CLOSE_CODE = 4100"
definition PROTOCOL_VERSION :: int where "PROTOCOL_VERSION = 1"
definition AFFINITY_COOKIE :: string where "AFFINITY_COOKIE = ''GW_AFFINITY''"

record gw_config =
  gc_rooms :: rm_config
  gc_maxMessages :: int
  gc_connLimit :: int
  gc_maxConnsPerIp :: int
  gc_sessions :: "sm_config option"
  gc_sessionTtl :: int
  gc_instanceId :: string
  gc_heartbeatMs :: int
  gc_repo :: repo_config

text \<open>\<open>ge_show\<close> prints a number; \<open>ge_uuid k\<close> and \<open>ge_iv k\<close> are the \<open>k\<close>-th id and IV an operation draws,
  \<open>ge_ivs\<close> the IVs of a flush of all clients.\<close>

record gw_env =
  ge_now :: time
  ge_heap :: int
  ge_uuid :: "nat \<Rightarrow> string"
  ge_open :: "sock \<Rightarrow> bool"
  ge_closing :: "sock \<Rightarrow> bool"
  ge_parse :: "string \<Rightarrow> json option"
  ge_show :: "real \<Rightarrow> string"
  ge_crypto :: crypto
  ge_iv :: "nat \<Rightarrow> bytes"
  ge_ivs :: "clientId \<Rightarrow> bytes"
  ge_fresh :: env
  ge_validator :: validator_env
  ge_safeParse :: safe_parse
  ge_decode :: "string \<Rightarrow> json option"

record ctx =
  cx_clientId :: clientId
  cx_ip :: string
  cx_userAgent :: "string option"
  cx_connectedAt :: time
  cx_lastActivityAt :: time
  cx_ackedSeq :: "(roomId, int) jsmap"
  cx_geofence :: "(roomId, json list) jsmap"
  cx_messageWindow :: "time list"
  cx_frozenState :: "json option"

text \<open>
  How far the connection handler got: it returned before it registered anything, it waits for
  authentication, for the resumption, or it handles messages.
\<close>

datatype stage = Refused | Authenticating | Resuming | Live

record conn =
  cn_ip :: string
  cn_stage :: stage
  cn_identity :: "clientId option"
  cn_ctx :: "ctx option"
  cn_lastPong :: time
  cn_open :: bool

record gw_metrics =
  me_location_update :: int
  me_join_room :: int
  me_leave_room :: int
  me_ack :: int
  me_nack :: int
  me_rejectedConnections :: int
  me_authFailures :: int

text \<open>A dispatched command, and the socket whose location update waits for it.\<close>

datatype task = Record command | Publish command sock EventStore.payload

record gw =
  gw_rooms :: rm
  gw_rate :: windows
  gw_connRate :: windows
  gw_ipCount :: "(string, int) jsmap"
  gw_conns :: "(sock, conn) jsmap"
  gw_live :: "(clientId, sock) jsmap"
  gw_local :: "(clientId, json) jsmap"
  gw_sessions :: sm
  gw_commands :: "world command_handler"
  gw_world :: world
  gw_tasks :: "task list"
  gw_metrics :: gw_metrics
  gw_shuttingDown :: bool

text \<open>What the server sends, closes or stores: the actions of the room manager, and legacy writes.\<close>

datatype gw_out = Out action | SaveLocation clientId roomId json | Ping sock | Terminate sock

definition gw_init :: "gw_config \<Rightarrow> gw" where
  "gw_init cfg = \<lparr>gw_rooms = rm_init, gw_rate = [], gw_connRate = [], gw_ipCount = [], gw_conns = [],
     gw_live = [], gw_local = [], gw_sessions = sm_init,
     gw_commands = subscribe 1 (fst (createEventSourcing (gc_repo cfg))),
     gw_world = snd (createEventSourcing (gc_repo cfg)), gw_tasks = [],
     gw_metrics = \<lparr>me_location_update = 0, me_join_room = 0, me_leave_room = 0, me_ack = 0, me_nack = 0,
       me_rejectedConnections = 0, me_authFailures = 0\<rparr>,
     gw_shuttingDown = False\<rparr>"

definition safeSend :: "gw_env \<Rightarrow> sock \<Rightarrow> json \<Rightarrow> gw_out list" where
  "safeSend env ws m = (if ge_closing env ws then [] else [Out (Send ws (stringify m))])"

definition frame :: "string \<Rightarrow> (string \<times> json) list \<Rightarrow> json" where
  "frame ty payload = JObj [(''type'', JStr ty), (''payload'', JObj payload)]"

definition sendError :: "gw_env \<Rightarrow> sock \<Rightarrow> string \<Rightarrow> string \<Rightarrow> gw_out list" where
  "sendError env ws m code = safeSend env ws (frame ''error'' [(''message'', JStr m), (''code'', JStr code)])"

text \<open>An error frame without a code.\<close>

definition plainError :: "gw_env \<Rightarrow> sock \<Rightarrow> string \<Rightarrow> gw_out list" where
  "plainError env ws m = safeSend env ws (frame ''error'' [(''message'', JStr m)])"

definition ctx_of :: "gw \<Rightarrow> sock \<Rightarrow> ctx option" where
  "ctx_of g s = Option.bind (js_get (gw_conns g) s) cn_ctx"

definition set_ctx :: "sock \<Rightarrow> ctx \<Rightarrow> gw \<Rightarrow> gw" where
  "set_ctx s cx g =
     (case js_get (gw_conns g) s of
        None \<Rightarrow> g
      | Some cn \<Rightarrow> g\<lparr>gw_conns := js_set s (cn\<lparr>cn_ctx := Some cx\<rparr>) (gw_conns g)\<rparr>)"

section \<open>Session state\<close>

definition createContext :: "gw_env \<Rightarrow> clientId \<Rightarrow> string \<Rightarrow> string option \<Rightarrow> ctx" where
  "createContext env c ip userAgent = \<lparr>cx_clientId = c, cx_ip = ip, cx_userAgent = userAgent,
     cx_connectedAt = ge_now env, cx_lastActivityAt = ge_now env, cx_ackedSeq = [], cx_geofence = [],
     cx_messageWindow = [], cx_frozenState = None\<rparr>"

text \<open>\<open>xs.slice(-n)\<close>\<close>

definition slice_last :: "int \<Rightarrow> 'a list \<Rightarrow> 'a list" where
  "slice_last n xs = (if n > 0 then drop (length xs - nat n) xs else drop (nat (- n)) xs)"

definition pruneWindow :: "gw_config \<Rightarrow> time \<Rightarrow> time list \<Rightarrow> time list" where
  "pruneWindow cfg now timestamps =
     (let live = filter (\<lambda>t. t > now - RATE_WINDOW_MS) timestamps
      in if int (length live) > gc_maxMessages cfg then slice_last (gc_maxMessages cfg) live else live)"

definition room_state :: "ctx \<Rightarrow> rm \<Rightarrow> roomId \<Rightarrow> json" where
  "room_state cx rs r = JObj
     [(''roomId'', JStr r),
      (''highestAckedSeq'', jnum (case js_get (cx_ackedSeq cx) r of Some n \<Rightarrow> n | None \<Rightarrow> 0)),
      (''highestReceivedSeq'', jnum (getRoomSeq rs r)),
      (''geofenceInsideSet'', JArr (case js_get (cx_geofence cx) r of Some fs \<Rightarrow> fs | None \<Rightarrow> []))]"

definition captureState :: "gw_config \<Rightarrow> gw_env \<Rightarrow> rm \<Rightarrow> ctx \<Rightarrow> json" where
  "captureState cfg env rs cx =
     (case cx_frozenState cx of
        Some st \<Rightarrow> st
      | None \<Rightarrow> JObj
          [(''clientId'', JStr (cx_clientId cx)),
           (''protocolVersion'', jnum PROTOCOL_VERSION),
           (''authIdentity'', JObj [(''sub'', JStr (cx_clientId cx))]),
           (''rooms'', JArr (map (room_state cx rs) (getClientRooms rs (cx_clientId cx)))),
           (''rateLimitState'', JObj
              [(''messageWindow'', JArr (map jnum (pruneWindow cfg (ge_now env) (cx_messageWindow cx)))),
               (''connectionWindow'', JArr [])]),
           (''metadata'', JObj
              [(''ip'', JStr (cx_ip cx)),
               (''userAgent'', case cx_userAgent cx of Some u \<Rightarrow> JStr u | None \<Rightarrow> JNull),
               (''connectedAt'', jnum (cx_connectedAt cx)),
               (''lastActivityAt'', jnum (cx_lastActivityAt cx))])])"

definition rememberLocal :: "clientId \<Rightarrow> json \<Rightarrow> gw \<Rightarrow> gw" where
  "rememberLocal c st g =
     g\<lparr>gw_local := evict_oldest MAX_LOCAL_SESSIONS (js_set c st (js_delete c (gw_local g)))\<rparr>"

definition readLocal :: "gw_config \<Rightarrow> time \<Rightarrow> clientId \<Rightarrow> gw \<Rightarrow> json option \<times> gw" where
  "readLocal cfg now c g =
     (case js_get (gw_local g) c of
        None \<Rightarrow> (None, g)
      | Some st \<Rightarrow>
          (let lastActivityAt =
                 (case Option.bind (get_prop st ''metadata'') (\<lambda>m. get_prop m ''lastActivityAt'') of
                    Some v \<Rightarrow> (if v = JNull then Some 0 else js_number v) | None \<Rightarrow> Some 0)
           in case lastActivityAt of
                Some t \<Rightarrow>
                  if now - t > gc_sessionTtl cfg then (None, g\<lparr>gw_local := js_delete c (gw_local g)\<rparr>)
                  else (Some st, g)
              | None \<Rightarrow> (Some st, g)))"

text \<open>What the provider of a pending save returns: the state of the context it was made for.\<close>

definition provided :: "gw_config \<Rightarrow> gw_env \<Rightarrow> gw \<Rightarrow> nat \<Rightarrow> json option" where
  "provided cfg env g s = map_option (captureState cfg env (gw_rooms g)) (ctx_of g s)"

definition touchSession :: "gw_config \<Rightarrow> gw_env \<Rightarrow> sock \<Rightarrow> gw \<Rightarrow> gw" where
  "touchSession cfg env s g =
     (case (gc_sessions cfg, ctx_of g s) of
        (Some scfg, Some cx) \<Rightarrow>
          (let cx' = cx\<lparr>cx_lastActivityAt := ge_now env\<rparr>;
               g1 = rememberLocal (cx_clientId cx') (captureState cfg env (gw_rooms g) cx') (set_ctx s cx' g)
           in g1\<lparr>gw_sessions := snd (debouncedSave scfg (ge_now env) (cx_clientId cx') (Some (Provider s)) None
                                      (gw_sessions g1))\<rparr>)
      | _ \<Rightarrow> g)"

section \<open>Resumption\<close>

record restored_room =
  rr_roomId :: roomId
  rr_acked :: int
  rr_received :: int

definition entry_room :: "json \<Rightarrow> roomId option" where
  "entry_room entry = (case get_prop entry ''roomId'' of Some (JStr r) \<Rightarrow> Some r | _ \<Rightarrow> None)"

definition entry_fences :: "json \<Rightarrow> json list" where
  "entry_fences entry = (case get_prop entry ''geofenceInsideSet'' of Some (JArr fs) \<Rightarrow> fs | _ \<Rightarrow> [])"

definition join_failed :: "join_result \<Rightarrow> bool" where
  "join_failed r = (case r of JoinError _ _ \<Rightarrow> True | JoinRefused _ \<Rightarrow> True | _ \<Rightarrow> False)"

fun restore_rooms :: "gw_config \<Rightarrow> gw_env \<Rightarrow> sock \<Rightarrow> json list \<Rightarrow> ctx \<Rightarrow> rm \<Rightarrow> restored_room list \<times> ctx \<times> rm" where
  "restore_rooms cfg env ws [] cx rs = ([], cx, rs)"
| "restore_rooms cfg env ws (entry # entries) cx rs =
     (case entry_room entry of
        None \<Rightarrow> restore_rooms cfg env ws entries cx rs
      | Some r \<Rightarrow>
          (let (res, rs1) = join_member (gc_rooms cfg) (ge_heap env) (cx_clientId cx) r ws rs
           in if join_failed res then restore_rooms cfg env ws entries cx rs1
              else (let acked = number_or 0 (get_prop entry ''highestAckedSeq'');
                        cx1 = cx\<lparr>cx_ackedSeq := js_set r acked (cx_ackedSeq cx),
                                 cx_geofence := js_set r (entry_fences entry) (cx_geofence cx)\<rparr>;
                        (restored, cx2, rs2) = restore_rooms cfg env ws entries cx1 rs1
                    in (\<lparr>rr_roomId = r, rr_acked = acked,
                         rr_received = number_or 0 (get_prop entry ''highestReceivedSeq'')\<rparr> # restored, cx2, rs2))))"

definition state_rooms :: "json \<Rightarrow> json list" where
  "state_rooms st = (case get_prop st ''rooms'' of Some (JArr es) \<Rightarrow> es | _ \<Rightarrow> [])"

text \<open>The timestamps of a saved window; a window that is no array would make the code throw.\<close>

definition state_window :: "json \<Rightarrow> time list" where
  "state_window st =
     (case Option.bind (get_prop st ''rateLimitState'') (\<lambda>l. get_prop l ''messageWindow'') of
        Some (JArr ts) \<Rightarrow> List.map_filter (\<lambda>t. case t of JNum s \<Rightarrow> parse_int s | _ \<Rightarrow> None) ts
      | _ \<Rightarrow> [])"

definition restored_json :: "restored_room \<Rightarrow> json" where
  "restored_json x = JObj [(''roomId'', JStr (rr_roomId x)), (''highestAckedSeq'', jnum (rr_acked x)),
     (''highestReceivedSeq'', jnum (rr_received x))]"

definition current_seqs :: "rm \<Rightarrow> restored_room list \<Rightarrow> (string \<times> json) list" where
  "current_seqs rs xs = fold (\<lambda>x. js_set (rr_roomId x) (jnum (getRoomSeq rs (rr_roomId x)))) xs []"

text \<open>A dispatch that is not awaited becomes a task. The constructors refuse only an empty command id, which
  \<open>uuid\<close> never gives; then there is no task.\<close>

definition later_command :: "es_error + command \<Rightarrow> gw \<Rightarrow> gw" where
  "later_command cmd g = (case cmd of Inr c \<Rightarrow> g\<lparr>gw_tasks := gw_tasks g @ [Record c]\<rparr> | Inl _ \<Rightarrow> g)"

definition resumed_rooms :: "restored_room list \<Rightarrow> resumed list" where
  "resumed_rooms xs = map (\<lambda>x. \<lparr>resumedRoom = Some (rr_roomId x), highestAckedSeq = Some (rr_acked x)\<rparr>) xs"

definition restoreSession :: "gw_config \<Rightarrow> gw_env \<Rightarrow> sock \<Rightarrow> json \<Rightarrow> gw \<Rightarrow> gw_out list \<times> gw" where
  "restoreSession cfg env ws st g =
     (case ctx_of g ws of
        None \<Rightarrow> ([], g)
      | Some cx \<Rightarrow>
          (let (restored, cx1, rs) = restore_rooms cfg env ws (state_rooms st) cx (gw_rooms g);
               window = pruneWindow cfg (ge_now env) (state_window st);
               rate = fold (\<lambda>_ w. snd (rate_check (gc_maxMessages cfg) (ge_now env) w (cx_clientId cx))) window (gw_rate g);
               cx2 = cx1\<lparr>cx_messageWindow := window,
                        cx_connectedAt := number_or (cx_connectedAt cx1)
                          (Option.bind (get_prop st ''metadata'') (\<lambda>m. get_prop m ''connectedAt''))\<rparr>;
               g1 = set_ctx ws cx2 (g\<lparr>gw_rooms := rs, gw_rate := rate\<rparr>);
               out = safeSend env ws (frame ''session_resumed''
                       [(''rooms'', JArr (map restored_json restored)),
                        (''currentSeqPerRoom'', JObj (current_seqs rs restored))]);
               g2 = later_command (ResumeSessionCommand (ge_uuid env 0) (cx_clientId cx) (Some (resumed_rooms restored)) None None) g1
           in (out, touchSession cfg env ws g2)))"

definition record_resumption :: "string \<Rightarrow> gw \<Rightarrow> gw" where
  "record_resumption result g = g\<lparr>gw_sessions := snd (recordResumption result (gw_sessions g))\<rparr>"

text \<open>The sticky-cookie path: the state this instance remembers, when the cookie names it.\<close>

definition local_resume ::
    "gw_config \<Rightarrow> gw_env \<Rightarrow> sock \<Rightarrow> string option \<Rightarrow> ctx \<Rightarrow> gw \<Rightarrow> bool \<times> gw_out list \<times> gw" where
  "local_resume cfg env ws cookieHeader cx g =
     (if readCookie cookieHeader AFFINITY_COOKIE = Some (gc_instanceId cfg)
      then (case readLocal cfg (ge_now env) (cx_clientId cx) g of
              (Some st, g1) \<Rightarrow> (True, restoreSession cfg env ws st (record_resumption ''success'' g1))
            | (None, g1) \<Rightarrow> (False, [], record_resumption ''new_session'' g1))
      else (False, [], record_resumption ''new_session'' g))"

text \<open>The first result is the flag the promise resolves to.\<close>

definition resumeSession ::
    "gw_config \<Rightarrow> gw_env \<Rightarrow> sock \<Rightarrow> string option \<Rightarrow> string option \<Rightarrow> string option \<Rightarrow> gw \<Rightarrow> bool \<times> gw_out list \<times> gw" where
  "resumeSession cfg env ws sessionParam token cookieHeader g =
     (case (gc_sessions cfg, ctx_of g ws) of
        (Some scfg, Some cx) \<Rightarrow>
          (let sessionId = (case sessionParam of
                              Some i \<Rightarrow> i
                            | None \<Rightarrow> (case sessionIdFromToken (ge_decode env) token of Some i \<Rightarrow> i | None \<Rightarrow> []))
           in if sessionId = [] then local_resume cfg env ws cookieHeader cx g
              else (case load (ge_crypto env) scfg (ge_now env) sessionId False (gw_sessions g) of
                      (None, sm) \<Rightarrow> (False, [], g\<lparr>gw_sessions := sm\<rparr>)
                    | (Some st, sm) \<Rightarrow>
                        let g1 = g\<lparr>gw_sessions := sm\<rparr>
                        in if state_client st \<noteq> cx_clientId cx
                           then (False, [], record_resumption ''mismatch'' g1)
                           else (True, restoreSession cfg env ws st (record_resumption ''success'' g1))))
      | _ \<Rightarrow> (False, [], g))"

section \<open>Migration and shutdown\<close>

text \<open>\<open>None\<close>: the client is unknown; an error: the save threw.\<close>

definition migrateClient ::
    "gw_config \<Rightarrow> gw_env \<Rightarrow> clientId \<Rightarrow> gw \<Rightarrow> (session_error + string) option \<times> gw_out list \<times> gw" where
  "migrateClient cfg env c g =
     (case gc_sessions cfg of
        None \<Rightarrow> (None, [], g)
      | Some scfg \<Rightarrow>
          (case js_get (gw_live g) c of
             None \<Rightarrow> (None, [], g)
           | Some ws \<Rightarrow>
               (case ctx_of g ws of
                  None \<Rightarrow> (None, [], g)
                | Some cx \<Rightarrow>
                    (let sm1 = snd (flush (ge_crypto env) scfg (ge_now env) (ge_iv env 0) (provided cfg env g) c (gw_sessions g));
                         st = captureState cfg env (gw_rooms g) cx;
                         (res, sm2) = save (ge_crypto env) scfg (ge_now env) (ge_iv env 1) c st sm1;
                         g1 = g\<lparr>gw_sessions := sm2\<rparr>
                     in case res of
                          Inl err \<Rightarrow> (Some (Inl err), [], g1)
                        | Inr blob \<Rightarrow>
                            (Some (Inr blob),
                             if length blob \<le> MAX_CLOSE_REASON_BYTES then [Out (Close ws MIGRATE_CLOSE_CODE blob)]
                             else safeSend env ws (frame ''migrate'' [(''session_id'', JStr blob)])
                                  @ [Out (Close ws MIGRATE_CLOSE_CODE ''migrated'')],
                             rememberLocal c st g1)))))"

fun save_live ::
    "gw_config \<Rightarrow> gw_env \<Rightarrow> sm_config \<Rightarrow> sock list \<Rightarrow> gw \<Rightarrow> (clientId, string) jsmap \<Rightarrow> (clientId, string) jsmap \<times> gw" where
  "save_live cfg env scfg [] g blobs = (blobs, g)"
| "save_live cfg env scfg (ws # wss) g blobs =
     (case ctx_of g ws of
        None \<Rightarrow> save_live cfg env scfg wss g blobs
      | Some cx \<Rightarrow>
          (let st = captureState cfg env (gw_rooms g) cx;
               g1 = rememberLocal (cx_clientId cx) st g;
               (res, sm) = save (ge_crypto env) scfg (ge_now env) (ge_iv env (length wss)) (cx_clientId cx) st (gw_sessions g1)
           in save_live cfg env scfg wss (g1\<lparr>gw_sessions := sm\<rparr>)
                (case res of Inr blob \<Rightarrow> js_set (cx_clientId cx) blob blobs | Inl _ \<Rightarrow> blobs)))"

definition saveAllSessions :: "gw_config \<Rightarrow> gw_env \<Rightarrow> gw \<Rightarrow> (clientId, string) jsmap \<times> gw" where
  "saveAllSessions cfg env g =
     (case gc_sessions cfg of
        None \<Rightarrow> ([], g)
      | Some scfg \<Rightarrow>
          (let sm = snd (flushAll (ge_crypto env) scfg (ge_now env) (ge_ivs env) (provided cfg env g) (gw_sessions g));
               g1 = g\<lparr>gw_sessions := sm\<rparr>
           in save_live cfg env scfg (map snd (gw_live g1)) g1 []))"

end
