(* ===== verification/GatewayDispatch.thy ===== *)
theory GatewayDispatch
  imports Gateway
begin

text \<open>
  \<open>src/server.js\<close>, second part: the reaction to committed events and the life of a connection;
  \<open>GatewayMessages\<close> has the messages and the HTTP routes.

  \<^item> An \<open>await\<close> ends a step. Frames wait for the resumption, so they are handled in the stage \<open>Live\<close>;
    the frames a socket sends before its authentication are pushed on a queue nothing reads.
  \<^item> \<open>commands.dispatch\<close> is a task that runs later; of the handlers that await it only the one for
    locations goes on afterwards.
  \<^item> A handler that runs is not interrupted by another one here; \<open>EventMachine\<close> interleaves them.
\<close>

section \<open>Committed events\<close>

text \<open>The payload of a location update as an object; the other fields of the record are absent.\<close>

definition location_json :: "(real \<Rightarrow> string) \<Rightarrow> EventStore.payload \<Rightarrow> (string \<times> json) list" where
  "location_json show p =
     List.map_filter (\<lambda>(k, v). map_option (\<lambda>x. (k, JNum (show x))) v)
       [(''latitude'', p_latitude p), (''longitude'', p_longitude p), (''altitude'', p_altitude p),
        (''accuracy'', p_accuracy p), (''speed'', p_speed p)] @ p_rest p"

definition location_frame :: "gw_env \<Rightarrow> clientId \<Rightarrow> EventStore.payload \<Rightarrow> json" where
  "location_frame env c p =
     frame ''location_update'' (fold (\<lambda>(k, v). js_set k v) (location_json (ge_show env) p) [(''clientId'', JStr c)])"

fun deliver_rooms :: "gw_config \<Rightarrow> gw_env \<Rightarrow> clientId \<Rightarrow> EventStore.payload \<Rightarrow> roomId list \<Rightarrow> rm \<Rightarrow> gw_out list \<times> rm" where
  "deliver_rooms cfg env c p [] rs = ([], rs)"
| "deliver_rooms cfg env c p (r # rest) rs =
     (let (acts, rs1) = broadcast_room (gc_rooms cfg) (ge_now env) (ge_uuid env (length rest)) (ge_parse env)
                          (ge_open env) r (MJson (location_frame env c p)) (Some c) rs;
          (outs, rs2) = deliver_rooms cfg env c p rest rs1
      in (map Out acts @ SaveLocation c r (JObj (location_json (ge_show env) p)) # outs, rs2))"

definition deliverLocationUpdate :: "gw_config \<Rightarrow> gw_env \<Rightarrow> clientId \<Rightarrow> EventStore.payload \<Rightarrow> gw \<Rightarrow> gw_out list \<times> gw" where
  "deliverLocationUpdate cfg env c p g =
     (let (outs, rs) = deliver_rooms cfg env c p (getClientRooms (gw_rooms g) c) (gw_rooms g)
      in (outs, g\<lparr>gw_rooms := rs\<rparr>))"

text \<open>The context of a live client, its room and its fence, when an event names all three.\<close>

definition fence_event :: "gw_config \<Rightarrow> event \<Rightarrow> gw \<Rightarrow> (sock \<times> ctx \<times> roomId \<times> string) option" where
  "fence_event cfg e g =
     (case (gc_sessions cfg, js_get (gw_live g) (aggregateId e)) of
        (Some _, Some ws) \<Rightarrow>
          (case (ctx_of g ws, p_roomId (body e), p_fenceId (body e)) of
             (Some cx, Some r, Some f) \<Rightarrow> if r \<noteq> [] \<and> f \<noteq> [] then Some (ws, cx, r, f) else None
           | _ \<Rightarrow> None)
      | _ \<Rightarrow> None)"

definition fences_at :: "ctx \<Rightarrow> roomId \<Rightarrow> json list" where
  "fences_at cx r = (case js_get (cx_geofence cx) r of Some fs \<Rightarrow> fs | None \<Rightarrow> [])"

definition fence_entered :: "gw_config \<Rightarrow> gw_env \<Rightarrow> event \<Rightarrow> gw \<Rightarrow> gw" where
  "fence_entered cfg env e g =
     (case fence_event cfg e g of
        None \<Rightarrow> g
      | Some (ws, cx, r, f) \<Rightarrow>
          if JStr f \<notin> set (fences_at cx r)
          then touchSession cfg env ws
                 (set_ctx ws (cx\<lparr>cx_geofence := js_set r (fences_at cx r @ [JStr f]) (cx_geofence cx)\<rparr>) g)
          else g)"

definition fence_exited :: "gw_config \<Rightarrow> gw_env \<Rightarrow> event \<Rightarrow> gw \<Rightarrow> gw" where
  "fence_exited cfg env e g =
     (case fence_event cfg e g of
        None \<Rightarrow> g
      | Some (ws, cx, r, f) \<Rightarrow>
          if JStr f \<in> set (fences_at cx r)
          then touchSession cfg env ws
                 (set_ctx ws (cx\<lparr>cx_geofence := js_set r (removeAll (JStr f) (fences_at cx r)) (cx_geofence cx)\<rparr>) g)
          else g)"

fun on_events :: "gw_config \<Rightarrow> gw_env \<Rightarrow> event list \<Rightarrow> gw \<Rightarrow> gw_out list \<times> gw" where
  "on_events cfg env [] g = ([], g)"
| "on_events cfg env (e # es) g =
     (let base = baseEventType (eventType e);
          (outs, g1) =
            (if base = ''location_update'' then deliverLocationUpdate cfg env (aggregateId e) (body e) g
             else if base = ''geofence_entered'' then ([], fence_entered cfg env e g)
             else if base = ''geofence_exited'' then ([], fence_exited cfg env e g)
             else ([], g));
          (outs', g2) = on_events cfg env es g1
      in (outs @ outs', g2))"

text \<open>A dispatch up to the return of its promise, with the notification of this subscriber.\<close>

definition run_command :: "gw_config \<Rightarrow> gw_env \<Rightarrow> command \<Rightarrow> gw \<Rightarrow> (es_error + event list) \<times> gw_out list \<times> gw" where
  "run_command cfg env cmd g =
     (let (res, ch, w, calls) = dispatch (ge_fresh env) cmd (gw_commands g) (gw_world g);
          g1 = g\<lparr>gw_commands := ch, gw_world := w\<rparr>
      in (res, on_events cfg env (concat (map snd (filter (\<lambda>call. fst call = 1) calls))) g1))"

definition identity_of_sock :: "gw \<Rightarrow> sock \<Rightarrow> clientId" where
  "identity_of_sock g s = (case Option.bind (js_get (gw_conns g) s) cn_identity of Some c \<Rightarrow> c | None \<Rightarrow> [])"

definition run_task :: "gw_config \<Rightarrow> gw_env \<Rightarrow> task \<Rightarrow> gw \<Rightarrow> gw_out list \<times> gw" where
  "run_task cfg env t g =
     (case t of
        Record cmd \<Rightarrow> snd (run_command cfg env cmd g)
      | Publish cmd s p \<Rightarrow>
          (case run_command cfg env cmd g of
             (Inr evs, outs, g1) \<Rightarrow> (outs, touchSession cfg env s g1)
           | (Inl err, outs, g1) \<Rightarrow>
               (let (outs', g2) = deliverLocationUpdate cfg env (identity_of_sock g1 s) p g1
                in (outs @ outs', touchSession cfg env s g2))))"

text \<open>
  The fan-out of the predictive engine, past the room manager: no sequence number, no replay. Nothing
  calls it: no location reaches the engine, whose state stays empty and is left out of \<open>gw\<close>.
\<close>

definition broadcastPredictiveEvent :: "gw_env \<Rightarrow> roomId \<Rightarrow> json \<Rightarrow> clientId option \<Rightarrow> gw \<Rightarrow> gw_out list" where
  "broadcastPredictiveEvent env r m ex g =
     concat (map (\<lambda>(s, cn).
       case cn_identity cn of
         None \<Rightarrow> []
       | Some i \<Rightarrow>
           if \<not> cn_open cn \<or> i = [] \<or> ex = Some i \<or> r \<notin> set (getClientRooms (gw_rooms g) i) then []
           else safeSend env s m) (gw_conns g))"

section \<open>The life of a connection\<close>

definition metric :: "(gw_metrics \<Rightarrow> gw_metrics) \<Rightarrow> gw \<Rightarrow> gw" where
  "metric f g = g\<lparr>gw_metrics := f (gw_metrics g)\<rparr>"

definition ip_count :: "gw \<Rightarrow> string \<Rightarrow> int" where
  "ip_count g ip = (case js_get (gw_ipCount g) ip of Some n \<Rightarrow> n | None \<Rightarrow> 0)"

definition new_conn :: "gw_env \<Rightarrow> string \<Rightarrow> stage \<Rightarrow> conn" where
  "new_conn env ip st = \<lparr>cn_ip = ip, cn_stage = st, cn_identity = None, cn_ctx = None,
     cn_lastPong = ge_now env, cn_open = True\<rparr>"

text \<open>A new socket \<open>s\<close>, up to the first await; \<open>urlOk\<close> tells whether the request URL parses.\<close>

definition on_connection :: "gw_config \<Rightarrow> gw_env \<Rightarrow> sock \<Rightarrow> string \<Rightarrow> bool \<Rightarrow> gw \<Rightarrow> gw_out list \<times> gw" where
  "on_connection cfg env s ip urlOk g =
     (let (ok, w) = conn_check (gc_connLimit cfg) (ge_now env) (gw_connRate g) ip;
          g1 = g\<lparr>gw_connRate := w\<rparr>;
          enter = (\<lambda>st g. g\<lparr>gw_conns := js_set s (new_conn env ip st) (gw_conns g)\<rparr>);
          rejected = metric (\<lambda>m. m\<lparr>me_rejectedConnections := me_rejectedConnections m + 1\<rparr>)
      in if \<not> ok then ([Out (Close s 4029 ''Connection rate limit exceeded'')], enter Refused (rejected g1))
         else if ip_count g1 ip \<ge> gc_maxConnsPerIp cfg
         then ([Out (Close s 4029 ''Too many connections from this IP'')], enter Refused (rejected g1))
         else let g2 = g1\<lparr>gw_ipCount := js_set ip (ip_count g1 ip + 1) (gw_ipCount g1)\<rparr>
              in if \<not> urlOk then ([Out (Close s 4000 ''Invalid request URL'')], enter Refused g2)
                 else ([], enter Authenticating g2))"

text \<open>
  After \<open>verifyConnection\<close>. A client id that is no string is not modelled. With sessions the resumption
  follows, without them the connection is ready.
\<close>

definition on_authenticated :: "gw_config \<Rightarrow> gw_env \<Rightarrow> sock \<Rightarrow> auth_result \<Rightarrow> string option \<Rightarrow> gw \<Rightarrow> gw_out list \<times> gw" where
  "on_authenticated cfg env s res userAgent g =
     (case js_get (gw_conns g) s of
        None \<Rightarrow> ([], g)
      | Some cn \<Rightarrow>
          (case res of
             AuthThrows \<Rightarrow> ([Out (Close s 4001 ''Authentication failed'')], g)
           | AuthErr err \<Rightarrow> ([Out (Close s 4001 err)], metric (\<lambda>m. m\<lparr>me_authFailures := me_authFailures m + 1\<rparr>) g)
           | AuthOk (JStr c) \<Rightarrow>
               (if gc_sessions cfg = None
                then ([], g\<lparr>gw_conns := js_set s (cn\<lparr>cn_identity := Some c, cn_stage := Live\<rparr>) (gw_conns g)\<rparr>)
                else ([], g\<lparr>gw_conns := js_set s (cn\<lparr>cn_identity := Some c, cn_stage := Resuming,
                              cn_ctx := Some (createContext env c (cn_ip cn) userAgent)\<rparr>) (gw_conns g),
                            gw_live := js_set c s (gw_live g)\<rparr>))
           | _ \<Rightarrow> ([], g)))"

definition on_resume ::
    "gw_config \<Rightarrow> gw_env \<Rightarrow> sock \<Rightarrow> string option \<Rightarrow> string option \<Rightarrow> string option \<Rightarrow> gw \<Rightarrow> gw_out list \<times> gw" where
  "on_resume cfg env s sessionParam token cookieHeader g =
     (let (done, outs, g1) = resumeSession cfg env s sessionParam token cookieHeader g
      in (outs, case js_get (gw_conns g1) s of
                  None \<Rightarrow> g1
                | Some cn \<Rightarrow> g1\<lparr>gw_conns := js_set s (cn\<lparr>cn_stage := Live\<rparr>) (gw_conns g1)\<rparr>))"

text \<open>What both close handlers do with the session: freeze the state, cache it, flush the pending save.\<close>

definition freeze_session :: "gw_config \<Rightarrow> gw_env \<Rightarrow> sock \<Rightarrow> clientId \<Rightarrow> gw \<Rightarrow> gw" where
  "freeze_session cfg env s c g =
     (case (gc_sessions cfg, ctx_of g s) of
        (Some scfg, Some cx) \<Rightarrow>
          (let st = captureState cfg env (gw_rooms g) cx;
               g1 = rememberLocal c st (set_ctx s (cx\<lparr>cx_frozenState := Some st\<rparr>) g);
               g2 = (if js_get (gw_live g1) c = Some s then g1\<lparr>gw_live := js_delete c (gw_live g1)\<rparr> else g1)
           in g2\<lparr>gw_sessions := snd (flush (ge_crypto env) scfg (ge_now env) (ge_iv env 0) (provided cfg env g2) c (gw_sessions g2))\<rparr>)
      | _ \<Rightarrow> g)"

definition release_ip :: "string \<Rightarrow> gw \<Rightarrow> gw" where
  "release_ip ip g =
     (let count = (case js_get (gw_ipCount g) ip of Some n \<Rightarrow> n | None \<Rightarrow> 1)
      in g\<lparr>gw_ipCount := (if count \<le> 1 then js_delete ip (gw_ipCount g) else js_set ip (count - 1) (gw_ipCount g)),
           gw_connRate := conn_cleanup ip (gw_connRate g)\<rparr>)"

definition leave_all :: "gw_config \<Rightarrow> clientId \<Rightarrow> gw \<Rightarrow> gw" where
  "leave_all cfg c g =
     g\<lparr>gw_rooms := disconnect_member (gc_rooms cfg) c (gw_rooms g), gw_rate := rate_remove c (gw_rate g)\<rparr>"

text \<open>The handler registered before the authentication.\<close>

definition close_first :: "gw_config \<Rightarrow> gw_env \<Rightarrow> sock \<Rightarrow> conn \<Rightarrow> gw \<Rightarrow> gw" where
  "close_first cfg env s cn g =
     (let g1 = (case cn_identity cn of
                  None \<Rightarrow> g
                | Some c \<Rightarrow> leave_all cfg c (freeze_session cfg env s c g))
      in release_ip (cn_ip cn) g1)"

text \<open>The handler registered after it, which reads the client id of the context.\<close>

definition close_second :: "gw_config \<Rightarrow> gw_env \<Rightarrow> sock \<Rightarrow> conn \<Rightarrow> gw \<Rightarrow> gw" where
  "close_second cfg env s cn g =
     (let g1 = (case ctx_of g s of
                  None \<Rightarrow> g
                | Some cx \<Rightarrow> freeze_session cfg env s (cx_clientId cx) g)
      in release_ip (cn_ip cn) (leave_all cfg (identity_of_sock g1 s) g1))"

text \<open>The close event of a socket, with the handlers that are registered by then.\<close>

definition on_close :: "gw_config \<Rightarrow> gw_env \<Rightarrow> sock \<Rightarrow> gw \<Rightarrow> gw" where
  "on_close cfg env s g =
     (case js_get (gw_conns g) s of
        None \<Rightarrow> g
      | Some cn \<Rightarrow>
          (let g1 = g\<lparr>gw_conns := js_set s (cn\<lparr>cn_open := False\<rparr>) (gw_conns g)\<rparr>
           in case cn_stage cn of
                Refused \<Rightarrow> g1
              | Authenticating \<Rightarrow> close_first cfg env s cn g1
              | _ \<Rightarrow> close_second cfg env s cn (close_first cfg env s cn g1)))"

end
