(* ===== verification/GatewayMessages.thy ===== *)
theory GatewayMessages
  imports GatewayDispatch
begin

text \<open>
  \<open>src/server.js\<close>, third part: the message handler of a connection with its cases, the token refresh,
  the heartbeat and the HTTP end points.
\<close>

section \<open>Messages\<close>

definition int_prop :: "json \<Rightarrow> string \<Rightarrow> int option" where
  "int_prop d k = (case get_prop d k of Some (JNum s) \<Rightarrow> parse_int s | _ \<Rightarrow> None)"

definition location_keys :: "string list" where
  "location_keys = [''latitude'', ''longitude'', ''altitude'', ''accuracy'', ''speed'']"

definition location_payload :: "validator_env \<Rightarrow> json \<Rightarrow> EventStore.payload" where
  "location_payload env d = no_payload
     \<lparr>p_latitude := num_prop env d ''latitude'', p_longitude := num_prop env d ''longitude'',
      p_altitude := num_prop env d ''altitude'', p_accuracy := num_prop env d ''accuracy'',
      p_speed := num_prop env d ''speed'',
      p_rest := (case d of JObj m \<Rightarrow> filter (\<lambda>(k, v). k \<notin> set location_keys) m | _ \<Rightarrow> [])\<rparr>"

definition join_frame :: "join_result \<Rightarrow> json option" where
  "join_frame res =
     (case res of
        JoinError code m \<Rightarrow> Some (frame ''error'' [(''code'', JStr code), (''message'', JStr m)])
      | JoinRefused _ \<Rightarrow> Some (frame ''error'' [(''message'', JStr ''Room is full''), (''code'', JStr ''ROOM_FULL'')])
      | _ \<Rightarrow> None)"

definition on_join :: "gw_config \<Rightarrow> gw_env \<Rightarrow> sock \<Rightarrow> clientId \<Rightarrow> roomId \<Rightarrow> gw \<Rightarrow> gw_out list \<times> gw" where
  "on_join cfg env s c r g =
     (let (res, rs) = join_member (gc_rooms cfg) (ge_heap env) c r s (gw_rooms g);
          g1 = metric (\<lambda>m. m\<lparr>me_join_room := me_join_room m + 1\<rparr>) (g\<lparr>gw_rooms := rs\<rparr>)
      in case join_frame res of
           Some f \<Rightarrow> (safeSend env s f, g1)
         | None \<Rightarrow>
             (safeSend env s (frame ''room_joined'' [(''roomId'', JStr r)]),
              touchSession cfg env s (later_command (JoinRoomCommand (ge_uuid env 0) c r None None) g1)))"

definition on_leave :: "gw_config \<Rightarrow> gw_env \<Rightarrow> sock \<Rightarrow> clientId \<Rightarrow> roomId \<Rightarrow> gw \<Rightarrow> gw_out list \<times> gw" where
  "on_leave cfg env s c r g =
     (let g1 = metric (\<lambda>m. m\<lparr>me_leave_room := me_leave_room m + 1\<rparr>)
                 (g\<lparr>gw_rooms := leave_member (gc_rooms cfg) c r (gw_rooms g)\<rparr>);
          g2 = (case ctx_of g1 s of
                  None \<Rightarrow> g1
                | Some cx \<Rightarrow> set_ctx s (cx\<lparr>cx_ackedSeq := js_delete r (cx_ackedSeq cx),
                                           cx_geofence := js_delete r (cx_geofence cx)\<rparr>) g1)
      in (safeSend env s (frame ''room_left'' [(''roomId'', JStr r)]),
          touchSession cfg env s (later_command (LeaveRoomCommand (ge_uuid env 0) c r None None) g2)))"

definition replay_json :: "replay \<Rightarrow> json" where
  "replay_json x =
     (case x of
        Replay_complete r \<Rightarrow> JObj [(''type'', JStr ''replay_complete''), (''roomId'', JStr r)]
      | Replay r msgs cur \<Rightarrow> JObj [(''type'', JStr ''replay''), (''roomId'', JStr r),
          (''messages'', JArr (map entry_json msgs)), (''currentSeq'', jnum cur)]
      | Replay_gap r oldest cur \<Rightarrow> JObj [(''type'', JStr ''replay_gap''), (''roomId'', JStr r),
          (''fromSeq'', jnum oldest), (''currentSeq'', jnum cur)])"

definition note_acked :: "sock \<Rightarrow> roomId \<Rightarrow> int \<Rightarrow> gw \<Rightarrow> gw" where
  "note_acked s r n g =
     (case ctx_of g s of
        None \<Rightarrow> g
      | Some cx \<Rightarrow> set_ctx s (cx\<lparr>cx_ackedSeq := js_set r n (cx_ackedSeq cx)\<rparr>) g)"

definition on_reconnect ::
    "gw_config \<Rightarrow> gw_env \<Rightarrow> sock \<Rightarrow> clientId \<Rightarrow> roomId \<Rightarrow> int \<Rightarrow> int option \<Rightarrow> gw \<Rightarrow> gw_out list \<times> gw" where
  "on_reconnect cfg env s c r lastSeq highest g =
     (if r \<notin> set (getClientRooms (gw_rooms g) c)
      then (plainError env s ''Must join room before reconnecting'', g)
      else (safeSend env s (replay_json (handleReconnect (gw_rooms g) r lastSeq highest)),
            touchSession cfg env s (note_acked s r lastSeq g)))"

definition on_ack :: "gw_config \<Rightarrow> gw_env \<Rightarrow> sock \<Rightarrow> clientId \<Rightarrow> roomId \<Rightarrow> int \<Rightarrow> gw \<Rightarrow> gw_out list \<times> gw" where
  "on_ack cfg env s c r n g =
     (let g1 = note_acked s r n (metric (\<lambda>m. m\<lparr>me_ack := me_ack m + 1\<rparr>) g);
          g2 = g1\<lparr>gw_rooms := ack_member (gc_rooms cfg) c r n (gw_rooms g1)\<rparr>
      in ([], touchSession cfg env s
                (later_command (AcknowledgeCommand (ge_uuid env 0) c r (Some n) None None None) g2)))"

definition on_nack :: "gw_env \<Rightarrow> clientId \<Rightarrow> roomId \<Rightarrow> int \<Rightarrow> string option \<Rightarrow> gw \<Rightarrow> gw_out list \<times> gw" where
  "on_nack env c r n reason g =
     (let g1 = metric (\<lambda>m. m\<lparr>me_nack := me_nack m + 1\<rparr>) g
      in (map Out (nack_member (ge_open env) c r n (gw_rooms g1)),
          later_command (NegativeAcknowledgeCommand (ge_uuid env 0) c r (Some n) reason None None) g1))"

text \<open>The dispatch is awaited: what follows it is in \<open>run_task\<close>.\<close>

definition on_location :: "gw_env \<Rightarrow> sock \<Rightarrow> clientId \<Rightarrow> json \<Rightarrow> gw \<Rightarrow> gw_out list \<times> gw" where
  "on_location env s c d g =
     (let g1 = metric (\<lambda>m. m\<lparr>me_location_update := me_location_update m + 1\<rparr>) g;
          p = (case get_prop d ''payload'' of Some v \<Rightarrow> location_payload (ge_validator env) v | None \<Rightarrow> no_payload);
          cid = (case get_prop d ''commandId'' of
                   Some (JStr i) \<Rightarrow> if i \<noteq> [] then i else ge_uuid env 0
                 | _ \<Rightarrow> ge_uuid env 0)
      in ([], case PublishLocationCommand cid c p None None of
                Inr cmd \<Rightarrow> g1\<lparr>gw_tasks := gw_tasks g1 @ [Publish cmd s p]\<rparr>
              | Inl err \<Rightarrow> g1))"

text \<open>A token that decodes is verified; \<open>on_refreshed\<close> goes on with the result.\<close>

definition on_token_refresh :: "gw_env \<Rightarrow> sock \<Rightarrow> string \<Rightarrow> gw \<Rightarrow> gw_out list \<times> gw" where
  "on_token_refresh env s token g =
     (if ge_decode env token = None then (plainError env s ''Invalid refresh token'', g) else ([], g))"

definition on_refreshed :: "gw_config \<Rightarrow> gw_env \<Rightarrow> sock \<Rightarrow> auth_result \<Rightarrow> gw \<Rightarrow> gw_out list \<times> gw" where
  "on_refreshed cfg env s res g =
     (case (res, js_get (gw_conns g) s) of
        (AuthErr err, _) \<Rightarrow> (plainError env s err, g)
      | (AuthThrows, _) \<Rightarrow> (plainError env s ''Invalid refresh token'', g)
      | (AuthOk (JStr new), Some cn) \<Rightarrow>
          (let old = identity_of_sock g s;
               g1 = g\<lparr>gw_conns := js_set s (cn\<lparr>cn_identity := Some new\<rparr>) (gw_conns g),
                      gw_rooms := rename_member (gc_rooms cfg) old new (gw_rooms g),
                      gw_rate := rate_remove old (gw_rate g)\<rparr>;
               g2 = (case ctx_of g1 s of
                       None \<Rightarrow> g1
                     | Some cx \<Rightarrow>
                         if old = new then g1
                         else set_ctx s (cx\<lparr>cx_clientId := new\<rparr>)
                                (g1\<lparr>gw_live := js_set new s
                                   (if js_get (gw_live g1) old = Some s then js_delete old (gw_live g1) else gw_live g1)\<rparr>))
           in (safeSend env s (frame ''token_refresh_ok'' [(''clientId'', JStr new)]), touchSession cfg env s g2))
      | _ \<Rightarrow> ([], g))"

definition on_message :: "gw_config \<Rightarrow> gw_env \<Rightarrow> sock \<Rightarrow> clientId \<Rightarrow> json \<Rightarrow> gw \<Rightarrow> gw_out list \<times> gw" where
  "on_message cfg env s c d g =
     (let ty = str_prop d ''type''; r = (case str_prop d ''roomId'' of Some r \<Rightarrow> r | None \<Rightarrow> []) in
      if ty = Some ''join_room'' then on_join cfg env s c r g
      else if ty = Some ''leave_room'' then on_leave cfg env s c r g
      else if ty = Some ''reconnect'' then
        (case int_prop d ''lastSeq'' of
           Some l \<Rightarrow> on_reconnect cfg env s c r l (int_prop d ''highestAckedSeq'') g | None \<Rightarrow> ([], g))
      else if ty = Some ''ack'' then
        (case int_prop d ''seq'' of Some n \<Rightarrow> on_ack cfg env s c r n g | None \<Rightarrow> ([], g))
      else if ty = Some ''nack'' then
        (case int_prop d ''seq'' of Some n \<Rightarrow> on_nack env c r n (str_prop d ''reason'') g | None \<Rightarrow> ([], g))
      else if ty = Some ''token_refresh'' then
        on_token_refresh env s (case str_prop d ''token'' of Some t \<Rightarrow> t | None \<Rightarrow> []) g
      else if ty = Some ''location_update'' then on_location env s c d g
      else ([], g))"

text \<open>A frame of a socket in the stage \<open>Live\<close>; in the other stages no handler acts on it.\<close>

definition on_frame :: "gw_config \<Rightarrow> gw_env \<Rightarrow> sock \<Rightarrow> string \<Rightarrow> gw \<Rightarrow> gw_out list \<times> gw" where
  "on_frame cfg env s raw g =
     (case js_get (gw_conns g) s of
        None \<Rightarrow> ([], g)
      | Some cn \<Rightarrow>
          if cn_stage cn \<noteq> Live then ([], g)
          else (let c = identity_of_sock g s;
                    (ok, w) = rate_check (gc_maxMessages cfg) (ge_now env) (gw_rate g) c;
                    g1 = g\<lparr>gw_rate := w\<rparr>
                in if \<not> ok then (plainError env s ''Rate limit exceeded'', g1)
                   else (let g2 = (case ctx_of g1 s of
                                     None \<Rightarrow> g1
                                   | Some cx \<Rightarrow> set_ctx s (cx\<lparr>cx_messageWindow :=
                                       pruneWindow cfg (ge_now env) (cx_messageWindow cx @ [ge_now env])\<rparr>) g1)
                         in case validateMessage (ge_validator env) (ge_safeParse env) (ge_now env) (RawText raw) of
                              Inl rj \<Rightarrow> (sendError env s (rj_error rj) (rj_code rj), g2)
                            | Inr d \<Rightarrow> on_message cfg env s c d g2)))"

section \<open>Heartbeat\<close>

definition PONG_TIMEOUT_MS :: "gw_config \<Rightarrow> int" where
  "PONG_TIMEOUT_MS cfg = max (gc_heartbeatMs cfg * 2) 1000"

definition on_pong :: "gw_env \<Rightarrow> sock \<Rightarrow> gw \<Rightarrow> gw" where
  "on_pong env s g =
     (case js_get (gw_conns g) s of
        None \<Rightarrow> g
      | Some cn \<Rightarrow>
          if cn_stage cn \<in> {Resuming, Live}
          then g\<lparr>gw_conns := js_set s (cn\<lparr>cn_lastPong := ge_now env\<rparr>) (gw_conns g)\<rparr> else g)"

definition heartbeat_tick :: "gw_config \<Rightarrow> gw_env \<Rightarrow> gw \<Rightarrow> gw_out list" where
  "heartbeat_tick cfg env g =
     map (\<lambda>(s, cn). if ge_now env - cn_lastPong cn > PONG_TIMEOUT_MS cfg then Terminate s else Ping s)
       (filter (\<lambda>(s, cn). cn_open cn) (gw_conns g))"

definition markShuttingDown :: "gw \<Rightarrow> gw" where
  "markShuttingDown g = g\<lparr>gw_shuttingDown := True\<rparr>"

section \<open>HTTP\<close>

text \<open>The path of \<open>MIGRATE_PATH\<close>: the encoded client id.\<close>

definition migrate_path :: "string \<Rightarrow> string option" where
  "migrate_path path =
     (case split_on (CHR ''/'') path of
        [a, b, c, d, e, f] \<Rightarrow>
          if a = [] \<and> b = ''admin'' \<and> c = ''v1'' \<and> d = ''clients'' \<and> e \<noteq> [] \<and> f = ''migrate'' then Some e else None
      | _ \<Rightarrow> None)"

datatype http_reply = Reply int json | Metrics | Migrate clientId | Throws

text \<open>\<open>path\<close> is the path of the request URL if it parses, \<open>decode\<close> is \<open>decodeURIComponent\<close>, which may throw.\<close>

definition route ::
    "(string \<Rightarrow> string option) \<Rightarrow> int \<Rightarrow> string \<Rightarrow> string option \<Rightarrow> gw \<Rightarrow> http_reply" where
  "route decode uptime meth path g =
     (case path of
        None \<Rightarrow> Reply 400 (JObj [(''error'', JStr ''Bad Request'')])
      | Some pathname \<Rightarrow>
          (case (if meth = ''POST'' then migrate_path pathname else None) of
             Some e \<Rightarrow> (case decode e of Some c \<Rightarrow> Migrate c | None \<Rightarrow> Throws)
           | None \<Rightarrow>
               if meth \<noteq> ''GET'' then Reply 405 (JObj [(''error'', JStr ''Method Not Allowed'')])
               else if pathname = ''/health'' then Reply 200 (JObj [(''status'', JStr ''OK'')])
               else if pathname = ''/healthz'' then
                 (if gw_shuttingDown g then Reply 503 (JObj [(''status'', JStr ''shutting down'')])
                  else Reply 200 (JObj [(''status'', JStr ''ok''), (''uptime'', jnum uptime)]))
               else if pathname = ''/readyz'' then
                 (if gw_shuttingDown g
                  then Reply 503 (JObj [(''status'', JStr ''not ready''), (''reason'', JStr ''server is shutting down'')])
                  else Reply 200 (JObj [(''status'', JStr ''ready''),
                         (''connections'', jnum (int (length (filter (\<lambda>(s, cn). cn_open cn) (gw_conns g))))),
                         (''rooms'', jnum (int (roomCount (stats (gw_rooms g)))))]))
               else if pathname = ''/metrics'' then Metrics
               else Reply 404 (JObj [(''error'', JStr ''Not Found'')])))"

text \<open>The answer to a migration request.\<close>

definition migrate_reply :: "(session_error + string) option \<Rightarrow> http_reply" where
  "migrate_reply res =
     (case res of
        None \<Rightarrow> Reply 404 (JObj [(''error'', JStr ''Not Found'')])
      | Some (Inl err) \<Rightarrow> Reply 500 (JObj [(''error'', JStr ''Internal Server Error'')])
      | Some (Inr blob) \<Rightarrow> if blob = [] then Reply 404 (JObj [(''error'', JStr ''Not Found'')])
          else Reply 200 (JObj [(''ok'', JBool True)]))"

definition metric_lines :: "string \<Rightarrow> string \<Rightarrow> (string \<times> int) list \<Rightarrow> string list" where
  "metric_lines name kind samples =
     (''# TYPE '' @ name @ '' '' @ kind) # map (\<lambda>(label, n). name @ label @ '' '' @ int_str n) samples"

definition lbl :: "string \<Rightarrow> string \<Rightarrow> string" where
  "lbl k v = ''{'' @ k @ ''='' @ quote v @ ''}''"

text \<open>The exposition; the append latency, which has three decimals, is passed as its text.\<close>

definition metrics_text :: "gw_config \<Rightarrow> int \<Rightarrow> int \<Rightarrow> int \<Rightarrow> int \<Rightarrow> string \<Rightarrow> gw \<Rightarrow> string list" where
  "metrics_text cfg heapUsed lagMs appends lagEvents appendMs g =
     (let m = gw_metrics g; (c, bytes) = session_metrics (gw_sessions g) in
      metric_lines ''gateway_connections_active'' ''gauge''
        [([], int (length (filter (\<lambda>(s, cn). cn_open cn) (gw_conns g))))]
      @ metric_lines ''gateway_rooms_active'' ''gauge'' [([], int (roomCount (stats (gw_rooms g))))]
      @ metric_lines ''gateway_messages_total'' ''counter''
          [(lbl ''type'' ''location_update'', me_location_update m), (lbl ''type'' ''join_room'', me_join_room m),
           (lbl ''type'' ''leave_room'', me_leave_room m), (lbl ''type'' ''ack'', me_ack m), (lbl ''type'' ''nack'', me_nack m)]
      @ metric_lines ''gateway_rate_limit_rejections_total'' ''counter'' [(lbl ''kind'' ''connection'', me_rejectedConnections m)]
      @ metric_lines ''gateway_auth_failures_total'' ''counter'' [([], me_authFailures m)]
      @ metric_lines ''gateway_heap_used_bytes'' ''gauge'' [([], heapUsed)]
      @ metric_lines ''gateway_event_loop_lag_ms'' ''gauge'' [([], lagMs)]
      @ [''# TYPE event_store_append_duration_ms gauge'', ''event_store_append_duration_ms '' @ appendMs]
      @ metric_lines ''event_store_appends_total'' ''counter'' [([], appends)]
      @ metric_lines ''projection_lag_events'' ''gauge'' [([], lagEvents)]
      @ metric_lines ''snapshot_count'' ''counter'' [([], snapshot_count (w_vehicles (gw_world g)) + snapshot_count (w_rooms (gw_world g)))]
      @ metric_lines ''commands_total'' ''counter'' [([], commands_total (gw_commands g))]
      @ metric_lines ''commands_deduplicated_total'' ''counter'' [([], commands_deduplicated_total (gw_commands g))]
      @ (if gc_sessions cfg = None then []
         else metric_lines ''session_resumption_total'' ''counter''
                [(lbl ''result'' ''success'', c_success c), (lbl ''result'' ''decrypt_failed'', c_decrypt_failed c),
                 (lbl ''result'' ''expired'', c_expired c), (lbl ''result'' ''mismatch'', c_mismatch c),
                 (lbl ''result'' ''new_session'', c_new_session c)]
              @ metric_lines ''session_state_size_bytes'' ''gauge'' [([], bytes)]))"

end
