(* ===== verification/GatewayMachine.thy ===== *)
theory GatewayMachine
  imports GatewayMessages RoomProperties SessionProperties
begin

text \<open>
  The gateway as a state machine: every event of \<open>src/server.js\<close> (a connection, an authentication
  that completes, a resumption, a frame, a refreshed token, a dispatched command that runs, a close, a
  pong, a timer of the session or room manager, a migration, the save at shutdown) is a step, in any
  order and with any clock and library results. \<open>ok\<close> are the client ids the authentication accepts.
  \<open>g_shared\<close> is other instances that write the session store they share. The invariant of the composed
  state is proved for every reachable gateway.
\<close>

declare map_of_eq_Some_iff [simp del] Some_eq_map_of_iff [simp del]

section \<open>The room manager below the gateway\<close>

definition only_members :: "(clientId \<Rightarrow> bool) \<Rightarrow> rm \<Rightarrow> bool" where
  "only_members ok rs \<longleftrightarrow> (\<forall>c r. membership_of rs c r \<noteq> None \<longrightarrow> ok c)"

definition rooms_ok :: "gw_config \<Rightarrow> (clientId \<Rightarrow> bool) \<Rightarrow> rm \<Rightarrow> bool" where
  "rooms_ok cfg ok rs \<longleftrightarrow> rm_reachable (gc_rooms cfg) rs \<and> only_members ok rs"

lemma only_members_same: "same_membership s s' \<Longrightarrow> only_members ok s = only_members ok s'"
  by (simp add: only_members_def same_membershipD(5))

lemma rooms_ok_init: "rooms_ok cfg ok rm_init"
  unfolding rooms_ok_def by (simp add: only_members_def membership_of_def room_of_def) (simp add: rm_init_def)

lemma rooms_ok_inv: "rooms_ok cfg ok rs \<Longrightarrow> valid_config (gc_rooms cfg) \<Longrightarrow> rm_inv (gc_rooms cfg) rs"
  by (simp add: rooms_ok_def rm_reachable_inv)

lemma rooms_ok_step:
  assumes "rooms_ok cfg ok rs" and "rm_step (gc_rooms cfg) rs rs'" and "only_members ok rs'"
  shows "rooms_ok cfg ok rs'"
  using assms reachable_step unfolding rooms_ok_def by blast

lemma rooms_ok_join:
  assumes "rooms_ok cfg ok rs" and "valid_config (gc_rooms cfg)" and "ok c"
  shows "rooms_ok cfg ok (snd (join_member (gc_rooms cfg) h c r ws rs))"
proof -
  have "member_inv rs" "sane (gc_rooms cfg)"
    using rooms_ok_inv [OF assms(1,2)] assms(2) by (auto simp: rm_inv_def valid_config_def)
  then have "same_membership (snd (join_member (gc_rooms cfg) h c r ws rs))
      (if accepted (fst (join_member (gc_rooms cfg) h c r ws rs)) then add_member c r ws rs else rs)"
    using join_member_result by (simp add: member_inv_def)
  moreover have "only_members ok (add_member c r ws rs)"
    using assms(1,3) by (auto simp: rooms_ok_def only_members_def membership_of_def add_member_views split: if_splits)
  ultimately have "only_members ok (snd (join_member (gc_rooms cfg) h c r ws rs))"
    using only_members_same [of "snd (join_member (gc_rooms cfg) h c r ws rs)"] assms(1)
    unfolding rooms_ok_def by (metis (full_types))
  then show ?thesis using assms(1) reachable_join by (simp add: rooms_ok_def)
qed

lemma rooms_ok_leave:
  assumes "rooms_ok cfg ok rs"
  shows "rooms_ok cfg ok (leave_member (gc_rooms cfg) c r rs)"
proof -
  have "only_members ok (leave_member (gc_rooms cfg) c r rs)"
    using assms by (auto simp: rooms_ok_def only_members_def membership_of_def leave_member_views split: if_splits)
  then show ?thesis
    by (intro rooms_ok_step [OF assms s_leave [of _ c r]]) (simp_all add: leave_def)
qed

lemma rooms_ok_disconnect:
  assumes "rooms_ok cfg ok rs" and "valid_config (gc_rooms cfg)"
  shows "rooms_ok cfg ok (disconnect_member (gc_rooms cfg) c rs)"
proof -
  have "member_inv rs" using rooms_ok_inv [OF assms] by (simp add: rm_inv_def)
  then have "only_members ok (disconnect_member (gc_rooms cfg) c rs)"
    using assms(1) by (simp add: rooms_ok_def only_members_def membership_disconnect)
  then show ?thesis
    by (intro rooms_ok_step [OF assms(1) s_disconnect [of _ c]]) (simp_all add: disconnect_def)
qed

lemma rooms_ok_rename:
  assumes "rooms_ok cfg ok rs" and "valid_config (gc_rooms cfg)" and "ok new"
  shows "rooms_ok cfg ok (rename_member (gc_rooms cfg) old new rs)"
proof (cases "old = new")
  case True
  then show ?thesis using assms(1) by (simp add: rename_member_def)
next
  case False
  have "member_inv rs" using rooms_ok_inv [OF assms(1,2)] by (simp add: rm_inv_def)
  then have "only_members ok (rename_member (gc_rooms cfg) old new rs)"
    using assms(1,3) False by (auto simp: rooms_ok_def only_members_def membership_rename)
  then show ?thesis
    by (intro rooms_ok_step [OF assms(1) s_update [of _ old new]]) (simp_all add: updateClientId_def)
qed

lemma broadcast_room_membership:
  "same_membership (snd (broadcast_room cfg now msgId parse ready r m ex s)) s"
proof (cases "fst (isDuplicate cfg now parse r m ex s)")
  case True
  then show ?thesis
    using broadcast_room_state [of cfg now parse r m ex s msgId ready] by (simp add: same_membership_def)
next
  case False
  then show ?thesis
    using broadcast_room_state [of cfg now parse r m ex s msgId ready] record_entry_other(2) isDuplicate_views(4)
      same_membership_trans unfolding delivery_only_def by (metis (full_types))
qed

lemma rooms_ok_broadcast:
  assumes "rooms_ok cfg ok rs"
  shows "rooms_ok cfg ok (snd (broadcast_room (gc_rooms cfg) now msgId parse ready r m ex rs))"
  using assms only_members_same [OF broadcast_room_membership] reachable_broadcast by (simp add: rooms_ok_def)

lemma rooms_ok_quiet:
  assumes "rooms_ok cfg ok rs" and "rm_step (gc_rooms cfg) rs rs'" and "delivery_only rs' rs"
  shows "rooms_ok cfg ok rs'"
  using rooms_ok_step [OF assms(1,2)] assms(1,3) only_members_same
  unfolding delivery_only_def rooms_ok_def by blast

lemma rooms_ok_ack:
  assumes "rooms_ok cfg ok rs"
  shows "rooms_ok cfg ok (ack_member (gc_rooms cfg) c r n rs)"
  by (rule rooms_ok_quiet [OF assms s_ack [of _ c r n]])
    (simp_all add: ack_def ack_member_def setAckState_def delivery_only_def same_membership_def Let_def)

lemma rooms_ok_batch:
  assumes "rooms_ok cfg ok rs"
  shows "rooms_ok cfg ok (snd (processBatch (gc_rooms cfg) ready buffered now room jb rs))"
  by (rule rooms_ok_quiet [OF assms s_batch [of _ ready buffered now room jb _
        "fst (processBatch (gc_rooms cfg) ready buffered now room jb rs)"] processBatch_steps(1)]) simp

lemma rooms_ok_timeout:
  assumes "rooms_ok cfg ok rs"
  shows "rooms_ok cfg ok (snd (slow_timeout_fires ready tid rs))"
  using timeout_quiet [of ready tid rs]
  by (intro rooms_ok_quiet [OF assms s_timeout [of ready tid _ "fst (slow_timeout_fires ready tid rs)"]])
    (simp_all add: quiet_def)

lemmas rooms_ok_ops = rooms_ok_join rooms_ok_leave rooms_ok_disconnect rooms_ok_rename rooms_ok_broadcast
  rooms_ok_ack rooms_ok_batch rooms_ok_timeout

section \<open>The invariant\<close>

definition window_ok :: "gw_config \<Rightarrow> time list \<Rightarrow> bool" where
  "window_ok cfg ts \<longleftrightarrow> (0 < gc_maxMessages cfg \<longrightarrow> int (length ts) \<le> gc_maxMessages cfg)"

definition conn_ok :: "gw_config \<Rightarrow> (clientId \<Rightarrow> bool) \<Rightarrow> conn \<Rightarrow> bool" where
  "conn_ok cfg ok cn \<longleftrightarrow>
     (cn_identity cn = None \<longleftrightarrow> cn_stage cn \<in> {Refused, Authenticating}) \<and>
     (\<forall>c. cn_identity cn = Some c \<longrightarrow> ok c) \<and>
     (\<forall>cx. cn_ctx cn = Some cx \<longrightarrow> cn_identity cn = Some (cx_clientId cx) \<and> window_ok cfg (cx_messageWindow cx))"

definition conns_ok :: "gw_config \<Rightarrow> (clientId \<Rightarrow> bool) \<Rightarrow> (sock, conn) jsmap \<Rightarrow> bool" where
  "conns_ok cfg ok cs \<longleftrightarrow> (\<forall>s cn. js_get cs s = Some cn \<longrightarrow> conn_ok cfg ok cn)"

definition client_of :: "(sock, conn) jsmap \<Rightarrow> sock \<Rightarrow> clientId option" where
  "client_of cs s = map_option cx_clientId (Option.bind (js_get cs s) cn_ctx)"

definition live_ok :: "gw \<Rightarrow> bool" where
  "live_ok g \<longleftrightarrow> (\<forall>c s. js_get (gw_live g) c = Some s \<longrightarrow> client_of (gw_conns g) s = Some c)"

definition pending_ok :: "(sock, conn) jsmap \<Rightarrow> sm \<Rightarrow> bool" where
  "pending_ok cs sm \<longleftrightarrow> wf_map (sm_memory sm) \<and>
     (\<forall>c. js_has (debounceTimers sm) c \<longleftrightarrow> js_has (debounceProviders sm) c) \<and>
     (\<forall>c p. js_get (debounceProviders sm) c = Some p \<longrightarrow> (\<exists>s. p = Provider s \<and> client_of cs s \<noteq> None))"

definition local_ok :: "(clientId, json) jsmap \<Rightarrow> bool" where
  "local_ok m \<longleftrightarrow> wf_map m \<and> length m \<le> MAX_LOCAL_SESSIONS"

definition gw_inv :: "gw_config \<Rightarrow> (clientId \<Rightarrow> bool) \<Rightarrow> gw \<Rightarrow> bool" where
  "gw_inv cfg ok g \<longleftrightarrow> rooms_ok cfg ok (gw_rooms g) \<and> conns_ok cfg ok (gw_conns g) \<and> live_ok g
     \<and> pending_ok (gw_conns g) (gw_sessions g) \<and> local_ok (gw_local g)"

lemma client_of_ctx: "client_of (gw_conns g) s = map_option cx_clientId (ctx_of g s)"
  by (simp add: client_of_def ctx_of_def)

text \<open>Updates of the fields the invariant does not read, and of those it reads one by one.\<close>

lemma gw_inv_fields [simp]:
  "gw_inv cfg ok (g\<lparr>gw_rate := w\<rparr>) = gw_inv cfg ok g"
  "gw_inv cfg ok (g\<lparr>gw_connRate := w\<rparr>) = gw_inv cfg ok g"
  "gw_inv cfg ok (g\<lparr>gw_ipCount := m\<rparr>) = gw_inv cfg ok g"
  "gw_inv cfg ok (g\<lparr>gw_commands := ch\<rparr>) = gw_inv cfg ok g"
  "gw_inv cfg ok (g\<lparr>gw_world := wo\<rparr>) = gw_inv cfg ok g"
  "gw_inv cfg ok (g\<lparr>gw_tasks := ts\<rparr>) = gw_inv cfg ok g"
  "gw_inv cfg ok (g\<lparr>gw_metrics := me\<rparr>) = gw_inv cfg ok g"
  "gw_inv cfg ok (g\<lparr>gw_shuttingDown := b\<rparr>) = gw_inv cfg ok g"
  by (simp_all add: gw_inv_def live_ok_def)

lemma ctx_of_fields [simp]:
  "ctx_of (g\<lparr>gw_rate := w\<rparr>) s = ctx_of g s"
  "ctx_of (g\<lparr>gw_rooms := rs\<rparr>) s = ctx_of g s"
  "ctx_of (g\<lparr>gw_connRate := w\<rparr>) s = ctx_of g s"
  "ctx_of (g\<lparr>gw_ipCount := m\<rparr>) s = ctx_of g s"
  "ctx_of (g\<lparr>gw_commands := ch\<rparr>) s = ctx_of g s"
  "ctx_of (g\<lparr>gw_world := wo\<rparr>) s = ctx_of g s"
  "ctx_of (g\<lparr>gw_tasks := ts\<rparr>) s = ctx_of g s"
  "ctx_of (g\<lparr>gw_metrics := me\<rparr>) s = ctx_of g s"
  "ctx_of (g\<lparr>gw_sessions := sm\<rparr>) s = ctx_of g s"
  "ctx_of (g\<lparr>gw_local := lo\<rparr>) s = ctx_of g s"
  "ctx_of (g\<lparr>gw_live := li\<rparr>) s = ctx_of g s"
  by (simp_all add: ctx_of_def)

lemma gw_inv_rooms: "gw_inv cfg ok g \<Longrightarrow> rooms_ok cfg ok rs \<Longrightarrow> gw_inv cfg ok (g\<lparr>gw_rooms := rs\<rparr>)"
  by (simp add: gw_inv_def live_ok_def)

lemma gw_inv_sessions:
  "gw_inv cfg ok g \<Longrightarrow> pending_ok (gw_conns g) sm \<Longrightarrow> gw_inv cfg ok (g\<lparr>gw_sessions := sm\<rparr>)"
  by (simp add: gw_inv_def live_ok_def)

lemma gw_inv_live_delete: "gw_inv cfg ok g \<Longrightarrow> gw_inv cfg ok (g\<lparr>gw_live := js_delete c (gw_live g)\<rparr>)"
  by (simp add: gw_inv_def live_ok_def)

lemma gw_inv_remember:
  assumes "gw_inv cfg ok g"
  shows "gw_inv cfg ok (rememberLocal c st g)"
proof -
  have "wf_map (js_set c st (js_delete c (gw_local g)))" using assms by (simp add: gw_inv_def local_ok_def)
  then show ?thesis
    using assms by (simp add: gw_inv_def live_ok_def rememberLocal_def local_ok_def length_evict_oldest wf_evict_oldest)
qed

lemma gw_inv_readLocal: "gw_inv cfg ok g \<Longrightarrow> gw_inv cfg ok (snd (readLocal cfg' now c g))"
  using AList.length_delete_le [of c "gw_local g"]
  by (auto simp: readLocal_def gw_inv_def live_ok_def local_ok_def Let_def split: option.split)

text \<open>A connection that is replaced by one with the same identity and client.\<close>

lemma gw_inv_conn:
  assumes "gw_inv cfg ok g" and "js_get (gw_conns g) s = Some cn" and "conn_ok cfg ok cn'"
    and "map_option cx_clientId (cn_ctx cn') = map_option cx_clientId (cn_ctx cn)"
  shows "gw_inv cfg ok (g\<lparr>gw_conns := js_set s cn' (gw_conns g)\<rparr>)"
proof -
  have same: "client_of (js_set s cn' (gw_conns g)) t = client_of (gw_conns g) t" for t
    using assms(2,4) by (simp add: client_of_def)
  show ?thesis using assms(1,3) by (auto simp: gw_inv_def live_ok_def pending_ok_def conns_ok_def same)
qed

lemma gw_inv_conn_ok: "gw_inv cfg ok g \<Longrightarrow> js_get (gw_conns g) s = Some cn \<Longrightarrow> conn_ok cfg ok cn"
  by (simp add: gw_inv_def conns_ok_def)

lemma gw_inv_ctx:
  assumes "gw_inv cfg ok g" and "ctx_of g s = Some cx"
  shows "ok (cx_clientId cx)" and "window_ok cfg (cx_messageWindow cx)" and "identity_of_sock g s = cx_clientId cx"
proof -
  obtain cn where cn: "js_get (gw_conns g) s = Some cn" "cn_ctx cn = Some cx"
    using assms(2) by (auto simp: ctx_of_def bind_eq_Some_conv)
  with gw_inv_conn_ok [OF assms(1) cn(1)] show "ok (cx_clientId cx)" "window_ok cfg (cx_messageWindow cx)"
      "identity_of_sock g s = cx_clientId cx"
    by (auto simp: conn_ok_def identity_of_sock_def)
qed

lemma gw_inv_identity:
  assumes "gw_inv cfg ok g" and "js_get (gw_conns g) s = Some cn" and "cn_stage cn \<in> {Resuming, Live}"
  shows "ok (identity_of_sock g s)"
  using gw_inv_conn_ok [OF assms(1,2)] assms(2,3) by (auto simp: conn_ok_def identity_of_sock_def)

lemma gw_inv_set_ctx:
  assumes "gw_inv cfg ok g" and "ctx_of g s = Some cx" and "cx_clientId cx' = cx_clientId cx"
    and "window_ok cfg (cx_messageWindow cx')"
  shows "gw_inv cfg ok (set_ctx s cx' g)"
proof -
  obtain cn where cn: "js_get (gw_conns g) s = Some cn" "cn_ctx cn = Some cx"
    using assms(2) by (auto simp: ctx_of_def bind_eq_Some_conv)
  from gw_inv_conn_ok [OF assms(1) cn(1)] cn(2) assms(3,4)
  have "conn_ok cfg ok (cn\<lparr>cn_ctx := Some cx'\<rparr>)" by (auto simp: conn_ok_def)
  from gw_inv_conn [OF assms(1) cn(1) this] cn show ?thesis by (simp add: set_ctx_def assms(3))
qed

lemma ctx_of_set_ctx [simp]:
  "ctx_of (set_ctx s cx g) t = (if t = s \<and> js_has (gw_conns g) s then Some cx else ctx_of g t)"
  by (auto simp: set_ctx_def ctx_of_def split: option.split)

lemma set_ctx_fields [simp]:
  "gw_rooms (set_ctx s cx g) = gw_rooms g" "gw_sessions (set_ctx s cx g) = gw_sessions g"
  "gw_live (set_ctx s cx g) = gw_live g" "gw_local (set_ctx s cx g) = gw_local g"
  "gw_rate (set_ctx s cx g) = gw_rate g"
  by (simp_all add: set_ctx_def split: option.split)

lemma rememberLocal_fields [simp]:
  "gw_rooms (rememberLocal c st g) = gw_rooms g" "gw_sessions (rememberLocal c st g) = gw_sessions g"
  "gw_live (rememberLocal c st g) = gw_live g" "gw_conns (rememberLocal c st g) = gw_conns g"
  "gw_rate (rememberLocal c st g) = gw_rate g" "ctx_of (rememberLocal c st g) s = ctx_of g s"
  by (simp_all add: rememberLocal_def)

lemma ctx_of_Some: "ctx_of g s = Some cx \<Longrightarrow> js_has (gw_conns g) s"
  by (auto simp: ctx_of_def bind_eq_Some_conv)

section \<open>Session bookkeeping\<close>

lemma pending_ok_same:
  "sm_memory sm' = sm_memory sm \<Longrightarrow> debounceTimers sm' = debounceTimers sm \<Longrightarrow> debounceProviders sm' = debounceProviders sm \<Longrightarrow>
   pending_ok cs sm' = pending_ok cs sm"
  by (simp add: pending_ok_def)

lemma pending_ok_mono:
  "pending_ok cs sm \<Longrightarrow> (\<And>s. client_of cs s \<noteq> None \<Longrightarrow> client_of cs' s \<noteq> None) \<Longrightarrow> pending_ok cs' sm"
  unfolding pending_ok_def by (metis (no_types))

lemma pending_ok_delete:
  "pending_ok cs sm \<Longrightarrow> wf_map (sm_memory sm') \<Longrightarrow> debounceTimers sm' = js_delete c (debounceTimers sm) \<Longrightarrow>
   debounceProviders sm' = js_delete c (debounceProviders sm) \<Longrightarrow> pending_ok cs sm'"
  by (simp add: pending_ok_def)

lemma pending_ok_debounced:
  assumes "pending_ok cs sm" and "client_of cs s \<noteq> None"
  shows "pending_ok cs (snd (debouncedSave scfg now c (Some (Provider s)) ms sm))"
  using assms by (auto simp: debouncedSave_def cancelDebounce_def pending_ok_def Let_def)

lemma pending_ok_wf: "pending_ok cs sm \<Longrightarrow> wf_map (sm_memory (sm_apply cr scfg op sm))"
  by (rule apply_wf) (simp add: pending_ok_def)

lemma pending_ok_flush:
  assumes "pending_ok cs sm" shows "pending_ok cs (snd (flush cr scfg now iv call c sm))"
  using pending_ok_wf [OF assms, of cr scfg "DoFlush now iv call c"] by (intro pending_ok_delete [OF assms]) simp_all

lemma pending_ok_fires:
  assumes "pending_ok cs sm" shows "pending_ok cs (snd (debounce_fires cr scfg now iv call c sm))"
  using pending_ok_wf [OF assms, of cr scfg "DoFire now iv call c"] by (intro pending_ok_delete [OF assms]) simp_all

lemma pending_ok_flush_list: "pending_ok cs sm \<Longrightarrow> pending_ok cs (snd (flush_list cr scfg now ivs call xs sm))"
  by (induction xs arbitrary: sm) (simp_all add: case_prod_beta Let_def pending_ok_flush)

lemma pending_ok_memory:
  "pending_ok cs sm \<Longrightarrow> wf_map (sm_memory sm') \<Longrightarrow> debounceTimers sm' = debounceTimers sm \<Longrightarrow>
   debounceProviders sm' = debounceProviders sm \<Longrightarrow> pending_ok cs sm'"
  by (simp add: pending_ok_def)

lemma pending_ok_save: 
  assumes "pending_ok cs sm" shows "pending_ok cs (snd (save cr scfg now iv c st sm))"
  using pending_ok_wf [OF assms, of cr scfg "DoSave now iv c st"] by (intro pending_ok_memory [OF assms]) simp_all

lemma pending_ok_load:
  assumes "pending_ok cs sm" shows "pending_ok cs (snd (load cr scfg now blob b sm))"
  using pending_ok_wf [OF assms, of cr scfg "DoLoad now blob b"] by (intro pending_ok_memory [OF assms]) simp_all

lemma pending_ok_record: "pending_ok cs (snd (recordResumption r sm)) = pending_ok cs sm"
  by (rule pending_ok_same) (simp_all add: recordResumption_def count_def)

section \<open>The operations keep the invariant\<close>

lemma touchSession_inv:
  assumes "gw_inv cfg ok g"
  shows "gw_inv cfg ok (touchSession cfg env s g)"
proof (cases "gc_sessions cfg")
  case None
  then show ?thesis using assms by (simp add: touchSession_def)
next
  case (Some scfg)
  show ?thesis
  proof (cases "ctx_of g s")
    case None
    then show ?thesis using assms by (simp add: touchSession_def split: option.split)
  next
    case cx: (Some cx)
    let ?cx = "cx\<lparr>cx_lastActivityAt := ge_now env\<rparr>"
    let ?g = "rememberLocal (cx_clientId ?cx) (captureState cfg env (gw_rooms g) ?cx) (set_ctx s ?cx g)"
    have inv: "gw_inv cfg ok ?g"
      using gw_inv_set_ctx [OF assms cx, of ?cx] gw_inv_ctx(2) [OF assms cx] by (simp add: gw_inv_remember)
    have "client_of (gw_conns ?g) s \<noteq> None" using ctx_of_Some [OF cx] by (simp add: client_of_ctx)
    with inv have "gw_inv cfg ok (?g\<lparr>gw_sessions := snd (debouncedSave scfg (ge_now env) (cx_clientId ?cx)
        (Some (Provider s)) None (gw_sessions ?g))\<rparr>)"
      by (intro gw_inv_sessions pending_ok_debounced) (simp_all add: gw_inv_def)
    then show ?thesis by (simp add: touchSession_def Some cx Let_def)
  qed
qed

lemma later_command_inv: "gw_inv cfg ok (later_command cmd g) = gw_inv cfg ok g"
  by (simp add: later_command_def split: sum.split)

lemma record_resumption_inv: "gw_inv cfg ok g \<Longrightarrow> gw_inv cfg ok (record_resumption r g)"
  unfolding record_resumption_def by (rule gw_inv_sessions) (simp_all add: pending_ok_record gw_inv_def)

lemma metric_inv [simp]: "gw_inv cfg ok (metric f g) = gw_inv cfg ok g"
  by (simp add: metric_def)

lemma note_acked_inv: "gw_inv cfg ok g \<Longrightarrow> gw_inv cfg ok (note_acked s r n g)"
  by (auto simp: note_acked_def gw_inv_ctx(2) split: option.split intro!: gw_inv_set_ctx)

lemma pruneWindow_ok: "window_ok cfg (pruneWindow cfg now ts)"
  by (auto simp: window_ok_def pruneWindow_def Let_def slice_last_def)

lemma restore_rooms_ok:
  assumes "rooms_ok cfg ok rs" and "valid_config (gc_rooms cfg)" and "ok (cx_clientId cx)"
  shows "rooms_ok cfg ok (snd (snd (restore_rooms cfg env ws entries cx rs)))"
  using assms(1,3)
proof (induction entries arbitrary: cx rs)
  case (Cons e entries)
  have "rooms_ok cfg ok (snd (join_member (gc_rooms cfg) (ge_heap env) (cx_clientId cx) r ws rs))" for r
    using Cons.prems assms(2) by (intro rooms_ok_join)
  with Cons show ?case by (simp add: case_prod_beta Let_def split: option.split)
qed simp

lemma restore_rooms_ctx:
  "cx_clientId (fst (snd (restore_rooms cfg env ws entries cx rs))) = cx_clientId cx
   \<and> cx_connectedAt (fst (snd (restore_rooms cfg env ws entries cx rs))) = cx_connectedAt cx
   \<and> cx_frozenState (fst (snd (restore_rooms cfg env ws entries cx rs))) = cx_frozenState cx"
  by (induction entries arbitrary: cx rs) (simp_all add: case_prod_beta Let_def split: option.split)

lemma restoreSession_inv:
  assumes "gw_inv cfg ok g" and "valid_config (gc_rooms cfg)"
  shows "gw_inv cfg ok (snd (restoreSession cfg env ws st g))"
proof (cases "ctx_of g ws")
  case None
  then show ?thesis using assms(1) by (simp add: restoreSession_def)
next
  case (Some cx)
  obtain restored cx1 rs where r: "restore_rooms cfg env ws (state_rooms st) cx (gw_rooms g) = (restored, cx1, rs)"
    by (metis prod_cases3)
  have rs: "rooms_ok cfg ok rs" "cx_clientId cx1 = cx_clientId cx"
    using restore_rooms_ok [where ok = ok, OF _ assms(2), of "gw_rooms g" cx env ws "state_rooms st"]
      restore_rooms_ctx [of cfg env ws "state_rooms st" cx "gw_rooms g"] gw_inv_ctx(1) [OF assms(1) Some] assms(1) r
    by (auto simp: gw_inv_def)
  define cx2 where "cx2 = cx1\<lparr>cx_messageWindow := pruneWindow cfg (ge_now env) (state_window st),
      cx_connectedAt := number_or (cx_connectedAt cx1)
        (Option.bind (get_prop st ''metadata'') (\<lambda>m. get_prop m ''connectedAt''))\<rparr>"
  define g1 where "g1 = g\<lparr>gw_rooms := rs, gw_rate := fold (\<lambda>_ w. snd (rate_check (gc_maxMessages cfg) (ge_now env) w
      (cx_clientId cx))) (pruneWindow cfg (ge_now env) (state_window st)) (gw_rate g)\<rparr>"
  have "gw_inv cfg ok g1" using gw_inv_rooms [OF assms(1) rs(1)] by (simp add: g1_def)
  then have "gw_inv cfg ok (set_ctx ws cx2 g1)"
    by (rule gw_inv_set_ctx [of _ _ _ _ cx]) (simp_all add: g1_def Some cx2_def rs(2) pruneWindow_ok)
  then show ?thesis
    by (simp add: restoreSession_def Some r Let_def g1_def [symmetric] cx2_def [symmetric] touchSession_inv later_command_inv)
qed

lemma resumeSession_inv:
  assumes "gw_inv cfg ok g" and "valid_config (gc_rooms cfg)"
  shows "gw_inv cfg ok (snd (snd (resumeSession cfg env ws sp token cookie g)))"
proof -
  have local: "gw_inv cfg ok (snd (snd (local_resume cfg env ws cookie cx g)))" for cx
  proof -
    obtain o1 g1 where "readLocal cfg (ge_now env) (cx_clientId cx) g = (o1, g1)" by fastforce
    moreover from this have "gw_inv cfg ok g1" using gw_inv_readLocal [OF assms(1)] by (metis snd_conv)
    ultimately show ?thesis
      using assms by (auto simp: local_resume_def record_resumption_inv restoreSession_inv split: option.split)
  qed
  have load: "gw_inv cfg ok (g\<lparr>gw_sessions := snd (load (ge_crypto env) scfg (ge_now env) i b (gw_sessions g))\<rparr>)" for scfg i b
    using assms(1) by (intro gw_inv_sessions) (simp_all add: pending_ok_load gw_inv_def)
  show ?thesis
    using assms(2) local load [of _ _ False]
    by (auto simp: resumeSession_def Let_def assms(1) record_resumption_inv restoreSession_inv
        split: option.split prod.split dest!: arg_cong [where f = snd])
qed

lemma migrateClient_inv:
  assumes "gw_inv cfg ok g"
  shows "gw_inv cfg ok (snd (snd (migrateClient cfg env c g)))"
proof -
  have "gw_inv cfg ok (g\<lparr>gw_sessions := snd (save cr scfg now iv c st
      (snd (flush cr scfg now iv' call c (gw_sessions g))))\<rparr>)" for cr scfg now iv iv' st call
    using assms by (intro gw_inv_sessions) (simp_all add: pending_ok_save pending_ok_flush gw_inv_def)
  then show ?thesis
    by (simp add: migrateClient_def assms case_prod_beta Let_def gw_inv_remember split: option.split sum.split)
qed

lemma save_live_inv: "gw_inv cfg ok g \<Longrightarrow> gw_inv cfg ok (snd (save_live cfg env scfg wss g blobs))"
proof (induction wss arbitrary: g blobs)
  case (Cons ws wss)
  have "gw_inv cfg ok (rememberLocal c st g\<lparr>gw_sessions := snd (save cr scfg now iv c st (gw_sessions g))\<rparr>)"
    for c st cr now iv
    using gw_inv_remember [OF Cons.prems, of c st]
    by (intro gw_inv_sessions) (simp_all add: pending_ok_save gw_inv_def)
  with Cons show ?case by (simp add: case_prod_beta Let_def split: option.split)
qed simp

lemma saveAllSessions_inv:
  assumes "gw_inv cfg ok g"
  shows "gw_inv cfg ok (snd (saveAllSessions cfg env g))"
proof -
  have "gw_inv cfg ok (g\<lparr>gw_sessions := snd (flushAll cr scfg now ivs call (gw_sessions g))\<rparr>)" for cr scfg now ivs call
    using assms by (intro gw_inv_sessions) (simp_all add: flushAll_def pending_ok_flush_list gw_inv_def)
  then show ?thesis by (simp add: saveAllSessions_def assms Let_def save_live_inv split: option.split)
qed

lemma deliver_rooms_ok:
  "rooms_ok cfg ok rs \<Longrightarrow> rooms_ok cfg ok (snd (deliver_rooms cfg env c p rooms rs))"
  by (induction rooms arbitrary: rs) (simp_all add: case_prod_beta Let_def rooms_ok_broadcast)

lemma deliver_inv: "gw_inv cfg ok g \<Longrightarrow> gw_inv cfg ok (snd (deliverLocationUpdate cfg env c p g))"
  by (simp add: deliverLocationUpdate_def case_prod_beta Let_def gw_inv_rooms deliver_rooms_ok gw_inv_def [of _ _ g])

lemma fence_inv:
  assumes "gw_inv cfg ok g"
  shows "gw_inv cfg ok (fence_entered cfg env e g)" and "gw_inv cfg ok (fence_exited cfg env e g)"
proof -
  have ctx: "ctx_of g ws = Some cx" if "fence_event cfg e g = Some (ws, cx, r, f)" for ws cx r f
    using that by (auto simp: fence_event_def split: option.splits if_splits)
  then show "gw_inv cfg ok (fence_entered cfg env e g)" "gw_inv cfg ok (fence_exited cfg env e g)"
    using assms gw_inv_ctx(2) [OF assms]
    by (auto simp: fence_entered_def fence_exited_def split: option.split prod.split
        intro!: touchSession_inv gw_inv_set_ctx [OF assms])
qed

lemma on_events_inv: "gw_inv cfg ok g \<Longrightarrow> gw_inv cfg ok (snd (on_events cfg env es g))"
  by (induction es arbitrary: g) (simp_all add: case_prod_beta Let_def deliver_inv fence_inv)

lemma run_command_inv: "gw_inv cfg ok g \<Longrightarrow> gw_inv cfg ok (snd (snd (run_command cfg env cmd g)))"
  by (simp add: run_command_def case_prod_beta Let_def on_events_inv)

lemma run_task_inv:
  assumes "gw_inv cfg ok g"
  shows "gw_inv cfg ok (snd (run_task cfg env t g))"
proof (cases t)
  case (Record cmd)
  then show ?thesis using run_command_inv [OF assms] by (simp add: run_task_def)
next
  case (Publish cmd s p)
  obtain res outs g1 where r: "run_command cfg env cmd g = (res, outs, g1)" by (metis prod_cases3)
  then have "gw_inv cfg ok g1" using run_command_inv [OF assms] by (metis snd_conv)
  then show ?thesis
    by (cases res) (simp_all add: run_task_def Publish r case_prod_beta Let_def touchSession_inv deliver_inv)
qed

lemma freeze_session_inv:
  assumes "gw_inv cfg ok g"
  shows "gw_inv cfg ok (freeze_session cfg env s c g)"
proof (cases "gc_sessions cfg")
  case None
  then show ?thesis using assms by (simp add: freeze_session_def)
next
  case (Some scfg)
  show ?thesis
  proof (cases "ctx_of g s")
    case None
    then show ?thesis using assms by (simp add: freeze_session_def split: option.split)
  next
    case cx: (Some cx)
    let ?st = "captureState cfg env (gw_rooms g) cx"
    define g1 where "g1 = rememberLocal c ?st (set_ctx s (cx\<lparr>cx_frozenState := Some ?st\<rparr>) g)"
    define g2 where "g2 = (if js_get (gw_live g1) c = Some s then g1\<lparr>gw_live := js_delete c (gw_live g1)\<rparr> else g1)"
    have "gw_inv cfg ok g1" unfolding g1_def
      using gw_inv_ctx(2) [OF assms cx] by (intro gw_inv_remember gw_inv_set_ctx [OF assms cx]) simp_all
    then have inv: "gw_inv cfg ok g2" by (simp add: g2_def gw_inv_live_delete)
    then have "gw_inv cfg ok (g2\<lparr>gw_sessions := snd (flush (ge_crypto env) scfg (ge_now env) (ge_iv env 0)
        (provided cfg env g2) c (gw_sessions g2))\<rparr>)"
      by (intro gw_inv_sessions) (simp_all add: pending_ok_flush gw_inv_def)
    then show ?thesis by (simp only: freeze_session_def Some cx Let_def g2_def g1_def option.case prod.case)
  qed
qed

lemma leave_all_inv: "gw_inv cfg ok g \<Longrightarrow> valid_config (gc_rooms cfg) \<Longrightarrow> gw_inv cfg ok (leave_all cfg c g)"
  by (simp add: leave_all_def gw_inv_rooms rooms_ok_disconnect gw_inv_def [of _ _ g])

lemma release_ip_inv [simp]: "gw_inv cfg ok (release_ip ip g) = gw_inv cfg ok g"
  by (simp add: release_ip_def Let_def)

lemma close_inv:
  assumes "gw_inv cfg ok g" and "valid_config (gc_rooms cfg)"
  shows "gw_inv cfg ok (close_first cfg env s cn g)" and "gw_inv cfg ok (close_second cfg env s cn g)"
  using assms
  by (simp_all add: close_first_def close_second_def Let_def leave_all_inv freeze_session_inv split: option.split)

lemma on_close_inv:
  assumes "gw_inv cfg ok g" and "valid_config (gc_rooms cfg)"
  shows "gw_inv cfg ok (on_close cfg env s g)"
proof (cases "js_get (gw_conns g) s")
  case None
  then show ?thesis using assms(1) by (simp add: on_close_def)
next
  case (Some cn)
  have "conn_ok cfg ok (cn\<lparr>cn_open := False\<rparr>)" using gw_inv_conn_ok [OF assms(1) Some] by (simp add: conn_ok_def)
  from gw_inv_conn [OF assms(1) Some this] assms(2) show ?thesis
    by (simp add: on_close_def Some Let_def close_inv split: stage.split)
qed

lemma on_connection_inv:
  assumes "gw_inv cfg ok g" and "js_get (gw_conns g) s = None"
  shows "gw_inv cfg ok (snd (on_connection cfg env s ip urlOk g))"
proof -
  have "gw_inv cfg ok (g'\<lparr>gw_conns := js_set s (new_conn env ip st) (gw_conns g')\<rparr>)"
    if "gw_inv cfg ok g'" "gw_conns g' = gw_conns g" "st \<in> {Refused, Authenticating}" for g' st
  proof -
    have "client_of (js_set s (new_conn env ip st) (gw_conns g')) t = client_of (gw_conns g') t" for t
      using assms(2) that(2) by (simp add: client_of_def new_conn_def)
    with that show ?thesis
      by (auto simp: gw_inv_def live_ok_def pending_ok_def conns_ok_def conn_ok_def new_conn_def)
  qed
  then show ?thesis using assms(1) by (simp add: on_connection_def case_prod_beta Let_def metric_def)
qed

lemma on_authenticated_inv:
  assumes "gw_inv cfg ok g" and "js_get (gw_conns g) s = Some cn" and "cn_stage cn = Authenticating"
    and "\<forall>c. res = AuthOk (JStr c) \<longrightarrow> ok c"
  shows "gw_inv cfg ok (snd (on_authenticated cfg env s res ua g))"
proof -
  have none: "cn_ctx cn = None" using gw_inv_conn_ok [OF assms(1,2)] assms(3) by (auto simp: conn_ok_def)
  have plain: "gw_inv cfg ok (g\<lparr>gw_conns := js_set s (cn\<lparr>cn_identity := Some c, cn_stage := Live\<rparr>) (gw_conns g)\<rparr>)"
    if "ok c" for c
    using that none by (intro gw_inv_conn [OF assms(1,2)]) (simp_all add: conn_ok_def)
  have entered: "gw_inv cfg ok (g\<lparr>gw_conns := js_set s (cn\<lparr>cn_identity := Some c, cn_stage := Resuming,
      cn_ctx := Some (createContext env c ip ua)\<rparr>) (gw_conns g), gw_live := js_set c s (gw_live g)\<rparr>)"
    if "ok c" for c ip
  proof -
    let ?cs = "js_set s (cn\<lparr>cn_identity := Some c, cn_stage := Resuming, cn_ctx := Some (createContext env c ip ua)\<rparr>)
      (gw_conns g)"
    have "client_of ?cs t = (if t = s then Some c else client_of (gw_conns g) t)"
      and "client_of (gw_conns g) s = None" for t
      using assms(2) none by (simp_all add: client_of_def createContext_def)
    with assms(1) that show ?thesis
      by (fastforce simp: gw_inv_def live_ok_def pending_ok_def conns_ok_def conn_ok_def createContext_def window_ok_def
          split: if_splits)
  qed
  show ?thesis
    using assms(1,4) plain entered by (simp add: on_authenticated_def assms(2) split: auth_result.split json.split)
qed

text \<open>The socket of a connection never changes its stage and identity while its session is restored.\<close>

definition conn_id :: "gw \<Rightarrow> sock \<Rightarrow> (stage \<times> clientId option) option" where
  "conn_id g s = map_option (\<lambda>cn. (cn_stage cn, cn_identity cn)) (js_get (gw_conns g) s)"

lemma conn_id_steps [simp]:
  "conn_id (set_ctx t cx g) s = conn_id g s"
  "conn_id (rememberLocal c st g) s = conn_id g s"
  "conn_id (later_command cmd g) s = conn_id g s"
  "conn_id (record_resumption r g) s = conn_id g s"
  "conn_id (snd (readLocal cfg now c g)) s = conn_id g s"
  "conn_id (g\<lparr>gw_sessions := sm\<rparr>) s = conn_id g s"
  "conn_id (g\<lparr>gw_rooms := rs\<rparr>) s = conn_id g s"
  "conn_id (g\<lparr>gw_rate := w\<rparr>) s = conn_id g s"
  by (auto simp: conn_id_def set_ctx_def rememberLocal_def later_command_def record_resumption_def readLocal_def Let_def
      split: option.split sum.split)

lemma conn_id_touch [simp]: "conn_id (touchSession cfg env t g) s = conn_id g s"
  by (simp add: touchSession_def Let_def split: option.split)

lemma conn_id_restore [simp]: "conn_id (snd (restoreSession cfg env ws st g)) s = conn_id g s"
  by (simp add: restoreSession_def case_prod_beta Let_def split: option.split)

lemma conn_id_resume: "conn_id (snd (snd (resumeSession cfg env ws sp token cookie g))) s = conn_id g s"
proof -
  have "conn_id (snd (snd (local_resume cfg env ws cookie cx g))) s = conn_id g s" for cx
  proof -
    obtain o1 g1 where "readLocal cfg (ge_now env) (cx_clientId cx) g = (o1, g1)" by fastforce
    moreover from this have "conn_id g1 s = conn_id g s" using conn_id_steps(5) by (metis snd_conv)
    ultimately show ?thesis by (simp add: local_resume_def split: option.split)
  qed
  then show ?thesis
    by (auto simp: resumeSession_def Let_def split: option.split prod.split)
qed

lemma on_resume_inv:
  assumes "gw_inv cfg ok g" and "valid_config (gc_rooms cfg)" and "js_get (gw_conns g) s = Some cn"
    and "cn_stage cn = Resuming"
  shows "gw_inv cfg ok (snd (on_resume cfg env s sp token cookie g))"
proof -
  obtain b outs g1 where r: "resumeSession cfg env s sp token cookie g = (b, outs, g1)" by (metis prod_cases3)
  have inv: "gw_inv cfg ok g1" using resumeSession_inv [OF assms(1,2)] r by (metis snd_conv)
  have "conn_id g1 s = Some (Resuming, cn_identity cn)"
    using conn_id_resume [of cfg env s sp token cookie g s] r assms(3,4) by (simp add: conn_id_def)
  then obtain cn1 where cn1: "js_get (gw_conns g1) s = Some cn1" "cn_stage cn1 = Resuming"
    by (auto simp: conn_id_def)
  have "conn_ok cfg ok (cn1\<lparr>cn_stage := Live\<rparr>)" using gw_inv_conn_ok [OF inv cn1(1)] cn1(2) by (auto simp: conn_ok_def)
  then show ?thesis by (simp add: on_resume_def r cn1(1) gw_inv_conn [OF inv cn1(1)])
qed

lemma on_refreshed_inv:
  assumes "gw_inv cfg ok g" and "valid_config (gc_rooms cfg)" and "js_get (gw_conns g) s = Some cn"
    and "cn_stage cn = Live" and "\<forall>c. res = AuthOk (JStr c) \<longrightarrow> ok c"
  shows "gw_inv cfg ok (snd (on_refreshed cfg env s res g))"
proof -
  have "gw_inv cfg ok (snd (on_refreshed cfg env s (AuthOk (JStr new)) g))" if "ok new" for new
  proof -
    let ?old = "identity_of_sock g s"
    let ?rs = "rename_member (gc_rooms cfg) ?old new (gw_rooms g)"
    define g1 where "g1 = g\<lparr>gw_conns := js_set s (cn\<lparr>cn_identity := Some new\<rparr>) (gw_conns g), gw_rooms := ?rs,
        gw_rate := rate_remove ?old (gw_rate g)\<rparr>"
    define g2 where "g2 = (case ctx_of g1 s of
        None \<Rightarrow> g1
      | Some cx \<Rightarrow>
          if ?old = new then g1
          else set_ctx s (cx\<lparr>cx_clientId := new\<rparr>)
                 (g1\<lparr>gw_live := js_set new s
                    (if js_get (gw_live g1) ?old = Some s then js_delete ?old (gw_live g1) else gw_live g1)\<rparr>))"
    note cok = gw_inv_conn_ok [OF assms(1,3)]
    have rs: "rooms_ok cfg ok ?rs" using assms(1,2) that by (intro rooms_ok_rename) (simp_all add: gw_inv_def)
    have id: "identity_of_sock g s = (case cn_identity cn of Some c \<Rightarrow> c | None \<Rightarrow> [])"
      by (simp add: identity_of_sock_def assms(3))
    have ctx1: "ctx_of g1 s = cn_ctx cn" by (simp add: g1_def ctx_of_def)
    have "gw_inv cfg ok g2"
    proof (cases "cn_ctx cn")
      case None
      have "conn_ok cfg ok (cn\<lparr>cn_identity := Some new\<rparr>)" using cok None that assms(4) by (simp add: conn_ok_def)
      from gw_inv_rooms [OF gw_inv_conn [OF assms(1,3) this] rs] None have "gw_inv cfg ok g1"
        by (simp add: g1_def)
      then show ?thesis by (simp add: g2_def ctx1 None)
    next
      case (Some cx)
      then have ident: "cn_identity cn = Some (cx_clientId cx)" and w: "window_ok cfg (cx_messageWindow cx)"
        using cok by (auto simp: conn_ok_def)
      show ?thesis
      proof (cases "?old = new")
        case True
        have "conn_ok cfg ok (cn\<lparr>cn_identity := Some new\<rparr>)"
          using cok Some that assms(4) True ident id by (auto simp: conn_ok_def)
        from gw_inv_rooms [OF gw_inv_conn [OF assms(1,3) this] rs] Some have "gw_inv cfg ok g1"
          by (simp add: g1_def)
        then show ?thesis by (simp add: g2_def ctx1 Some True)
      next
        case False
        let ?cs = "js_set s (cn\<lparr>cn_identity := Some new, cn_ctx := Some (cx\<lparr>cx_clientId := new\<rparr>)\<rparr>) (gw_conns g)"
        have old: "?old = cx_clientId cx" using ident id by simp
        have client: "client_of ?cs t = (if t = s then Some new else client_of (gw_conns g) t)"
          "client_of (gw_conns g) s = Some ?old" for t
          using assms(3) Some old by (simp_all add: client_of_def)
        have "conns_ok cfg ok ?cs"
          using assms(1,4) that w by (auto simp: gw_inv_def conns_ok_def conn_ok_def)
        moreover have "pending_ok ?cs (gw_sessions g)"
        proof (rule pending_ok_mono)
          show "pending_ok (gw_conns g) (gw_sessions g)" using assms(1) by (simp add: gw_inv_def)
          show "client_of ?cs t \<noteq> None" if "client_of (gw_conns g) t \<noteq> None" for t
            unfolding client(1) using that by simp
        qed
        moreover have "client_of ?cs t = Some c"
          if "js_get (js_set new s (if js_get (gw_live g) ?old = Some s then js_delete ?old (gw_live g)
              else gw_live g)) c = Some t" for c t
        proof -
          have live: "js_get (gw_live g) c = Some t \<Longrightarrow> client_of (gw_conns g) t = Some c"
            using assms(1) by (simp add: gw_inv_def live_ok_def)
          show ?thesis unfolding client(1) using that client(2) live by (auto split: if_splits)
        qed
        moreover have "g2 = g1\<lparr>gw_conns := ?cs, gw_live := js_set new s (if js_get (gw_live g) ?old = Some s
            then js_delete ?old (gw_live g) else gw_live g)\<rparr>"
          using False Some by (simp add: g2_def ctx1 set_ctx_def) (simp add: g1_def)
        ultimately show ?thesis
          using assms(1) rs by (simp add: g1_def gw_inv_def live_ok_def)
      qed
    qed
    moreover have "snd (on_refreshed cfg env s (AuthOk (JStr new)) g) = touchSession cfg env s g2"
      unfolding on_refreshed_def g2_def g1_def Let_def by (simp only: assms(3) prod.case auth_result.case json.case option.case snd_conv)
    ultimately show ?thesis by (simp only: touchSession_inv)
  qed
  then show ?thesis
    using assms(1,5) by (simp add: on_refreshed_def assms(3) split: auth_result.split json.split)
qed

lemma on_message_inv:
  assumes "gw_inv cfg ok g" and "valid_config (gc_rooms cfg)" and "ok c"
  shows "gw_inv cfg ok (snd (on_message cfg env s c d g))"
proof -
  have join: "gw_inv cfg ok (g\<lparr>gw_rooms := snd (join_member (gc_rooms cfg) h c r s (gw_rooms g))\<rparr>)" for h r
    using assms by (intro gw_inv_rooms rooms_ok_join) (simp_all add: gw_inv_def)
  have leave: "gw_inv cfg ok (g\<lparr>gw_rooms := leave_member (gc_rooms cfg) c r (gw_rooms g)\<rparr>)" for r
    using assms(1) by (intro gw_inv_rooms rooms_ok_leave) (simp_all add: gw_inv_def)
  have ack: "gw_inv cfg ok (g'\<lparr>gw_rooms := ack_member (gc_rooms cfg) c r n (gw_rooms g')\<rparr>)" if "gw_inv cfg ok g'" for r n g'
    using that by (intro gw_inv_rooms rooms_ok_ack) (simp_all add: gw_inv_def)
  have fences: "gw_inv cfg ok (set_ctx s (cx\<lparr>cx_ackedSeq := a, cx_geofence := f\<rparr>) g')"
    if "gw_inv cfg ok g'" "ctx_of g' s = Some cx" for g' cx a f
    using gw_inv_set_ctx [OF that] gw_inv_ctx(2) [OF that] by simp
  have "gw_inv cfg ok (snd (on_join cfg env s c r g))" for r
    using join [of "ge_heap env" r]
    by (simp add: on_join_def case_prod_beta Let_def touchSession_inv later_command_inv metric_def split: option.split)
  moreover have "gw_inv cfg ok (snd (on_leave cfg env s c r g))" for r
    using leave [of r]
    by (auto simp: on_leave_def Let_def later_command_inv metric_def split: option.split
        intro!: touchSession_inv fences)
  moreover have "gw_inv cfg ok (snd (on_reconnect cfg env s c r l h g))" for r l h
    using assms(1) by (simp add: on_reconnect_def touchSession_inv note_acked_inv)
  moreover have "gw_inv cfg ok (snd (on_ack cfg env s c r n g))" for r n
    using assms(1) by (simp add: on_ack_def Let_def touchSession_inv later_command_inv ack note_acked_inv)
  moreover have "gw_inv cfg ok (snd (on_nack env c r n reason g))" for r n reason
    using assms(1) by (simp add: on_nack_def Let_def later_command_inv)
  moreover have "gw_inv cfg ok (snd (on_location env s c d g))"
    using assms(1) by (simp add: on_location_def Let_def metric_def split: sum.split)
  moreover have "gw_inv cfg ok (snd (on_token_refresh env s t g))" for t
    using assms(1) by (simp add: on_token_refresh_def)
  ultimately show ?thesis using assms(1) by (simp add: on_message_def Let_def split: option.split)
qed

lemma on_frame_inv:
  assumes "gw_inv cfg ok g" and "valid_config (gc_rooms cfg)"
  shows "gw_inv cfg ok (snd (on_frame cfg env s raw g))"
proof (cases "conn_id g s")
  case None
  then show ?thesis using assms(1) by (simp add: on_frame_def conn_id_def)
next
  case (Some p)
  then obtain cn where cn: "js_get (gw_conns g) s = Some cn" by (auto simp: conn_id_def)
  show ?thesis
  proof (cases "cn_stage cn = Live")
    case True
    let ?c = "identity_of_sock g s"
    have ok: "ok ?c" using gw_inv_identity [OF assms(1) cn] True by simp
    have window: "gw_inv cfg ok (case ctx_of g' s of None \<Rightarrow> g'
        | Some cx \<Rightarrow> set_ctx s (cx\<lparr>cx_messageWindow := pruneWindow cfg now (ts cx)\<rparr>) g')" if "gw_inv cfg ok g'" for g' now ts
      using that by (auto split: option.split intro!: gw_inv_set_ctx simp: pruneWindow_ok)
    show ?thesis
      using on_message_inv [where ok = ok, OF window assms(2) ok] assms(1)
      by (simp add: on_frame_def cn True case_prod_beta Let_def window split: sum.split del: ctx_of_fields)
  qed (simp add: on_frame_def cn assms(1))
qed

section \<open>The step relation\<close>

inductive gw_step :: "gw_config \<Rightarrow> (clientId \<Rightarrow> bool) \<Rightarrow> gw \<Rightarrow> gw \<Rightarrow> bool" for cfg ok where
  g_connection: "js_get (gw_conns g) s = None \<Longrightarrow> on_connection cfg env s ip urlOk g = (outs, g') \<Longrightarrow> gw_step cfg ok g g'"
| g_authenticated: "js_get (gw_conns g) s = Some cn \<Longrightarrow> cn_stage cn = Authenticating \<Longrightarrow>
    \<forall>c. res = AuthOk (JStr c) \<longrightarrow> ok c \<Longrightarrow> on_authenticated cfg env s res ua g = (outs, g') \<Longrightarrow> gw_step cfg ok g g'"
| g_resume: "js_get (gw_conns g) s = Some cn \<Longrightarrow> cn_stage cn = Resuming \<Longrightarrow>
    on_resume cfg env s sp token cookie g = (outs, g') \<Longrightarrow> gw_step cfg ok g g'"
| g_frame: "on_frame cfg env s raw g = (outs, g') \<Longrightarrow> gw_step cfg ok g g'"
| g_refreshed: "js_get (gw_conns g) s = Some cn \<Longrightarrow> cn_stage cn = Live \<Longrightarrow>
    \<forall>c. res = AuthOk (JStr c) \<longrightarrow> ok c \<Longrightarrow> on_refreshed cfg env s res g = (outs, g') \<Longrightarrow> gw_step cfg ok g g'"
| g_task: "gw_tasks g = ts @ t # ts' \<Longrightarrow> run_task cfg env t (g\<lparr>gw_tasks := ts @ ts'\<rparr>) = (outs, g') \<Longrightarrow> gw_step cfg ok g g'"
| g_close: "js_get (gw_conns g) s = Some cn \<Longrightarrow> cn_open cn \<Longrightarrow> on_close cfg env s g = g' \<Longrightarrow> gw_step cfg ok g g'"
| g_pong: "on_pong env s g = g' \<Longrightarrow> gw_step cfg ok g g'"
| g_save: "gc_sessions cfg = Some scfg \<Longrightarrow>
    debounce_fires (ge_crypto env) scfg (ge_now env) (ge_iv env 0) (provided cfg env g) c (gw_sessions g) = (r, sm) \<Longrightarrow>
    gw_step cfg ok g (g\<lparr>gw_sessions := sm\<rparr>)"
| g_expire: "mem = mem_sweep now (sm_memory (gw_sessions g)) \<or> mem = mem_timer now k (sm_memory (gw_sessions g)) \<Longrightarrow>
    gw_step cfg ok g (g\<lparr>gw_sessions := (gw_sessions g)\<lparr>sm_memory := mem\<rparr>\<rparr>)"
| g_shared: "wf_map mem \<Longrightarrow>
    gw_step cfg ok g (g\<lparr>gw_sessions := (gw_sessions g)\<lparr>sm_memory := mem\<rparr>\<rparr>)"
| g_batch: "processBatch (gc_rooms cfg) ready buffered now room jb (gw_rooms g) = (acts, rs) \<Longrightarrow>
    gw_step cfg ok g (g\<lparr>gw_rooms := rs\<rparr>)"
| g_slow: "slow_timeout_fires ready tid (gw_rooms g) = (acts, rs) \<Longrightarrow> gw_step cfg ok g (g\<lparr>gw_rooms := rs\<rparr>)"
| g_migrate: "migrateClient cfg env c g = (res, outs, g') \<Longrightarrow> gw_step cfg ok g g'"
| g_saveAll: "saveAllSessions cfg env g = (blobs, g') \<Longrightarrow> gw_step cfg ok g g'"
| g_shutdown: "markShuttingDown g = g' \<Longrightarrow> gw_step cfg ok g g'"

inductive_cases gw_stepE: "gw_step cfg ok g g'"

definition gw_reachable :: "gw_config \<Rightarrow> (clientId \<Rightarrow> bool) \<Rightarrow> gw \<Rightarrow> bool" where
  "gw_reachable cfg ok g \<longleftrightarrow> (gw_step cfg ok)\<^sup>*\<^sup>* (gw_init cfg) g"

lemma gw_init_inv: "gw_inv cfg ok (gw_init cfg)"
  using rooms_ok_init [of cfg ok]
  by (simp add: gw_init_def gw_inv_def conns_ok_def live_ok_def pending_ok_def local_ok_def sm_init_def)

lemma on_pong_inv: "gw_inv cfg ok g \<Longrightarrow> gw_inv cfg ok (on_pong env s g)"
proof (cases "js_get (gw_conns g) s")
  case (Some cn)
  assume inv: "gw_inv cfg ok g"
  have "conn_ok cfg ok (cn\<lparr>cn_lastPong := t\<rparr>)" for t using gw_inv_conn_ok [OF inv Some] by (simp add: conn_ok_def)
  from gw_inv_conn [OF inv Some this] inv show ?thesis by (simp add: on_pong_def Some)
qed (simp add: on_pong_def)

lemma gw_step_inv:
  assumes "gw_step cfg ok g g'" and "valid_config (gc_rooms cfg)" and inv: "gw_inv cfg ok g"
  shows "gw_inv cfg ok g'"
  using assms(1)
proof cases
  case g_connection
  then show ?thesis using on_connection_inv [OF inv] by (metis snd_conv)
next
  case g_authenticated
  then show ?thesis using on_authenticated_inv [OF inv] by (metis snd_conv)
next
  case g_resume
  then show ?thesis using on_resume_inv [OF inv assms(2)] by (metis snd_conv)
next
  case g_frame
  then show ?thesis using on_frame_inv [OF inv assms(2)] by (metis snd_conv)
next
  case g_refreshed
  then show ?thesis using on_refreshed_inv [OF inv assms(2)] by (metis snd_conv)
next
  case (g_task ts t ts' env outs)
  have "gw_inv cfg ok (g\<lparr>gw_tasks := ts @ ts'\<rparr>)" using inv by simp
  from run_task_inv [OF this, of env t] g_task(2) show ?thesis by simp
next
  case g_close
  then show ?thesis using on_close_inv [OF inv assms(2)] by auto
next
  case g_pong
  then show ?thesis using on_pong_inv [OF inv] by auto
next
  case (g_save scfg env c r sm)
  have "pending_ok (gw_conns g) sm"
    using pending_ok_fires [of "gw_conns g" "gw_sessions g"] inv g_save(3) unfolding gw_inv_def by (metis snd_conv)
  then show ?thesis unfolding g_save(1) by (rule gw_inv_sessions [OF inv])
next
  case (g_expire mem now k)
  have pend: "pending_ok (gw_conns g) (gw_sessions g)" using inv by (simp add: gw_inv_def)
  have "wf_map mem" using g_expire(2)
  proof
    assume "mem = mem_sweep now (sm_memory (gw_sessions g))"
    then show ?thesis using pending_ok_wf [OF pend, of cr scfg "DoSweep now" for cr scfg] by simp
  next
    assume "mem = mem_timer now k (sm_memory (gw_sessions g))"
    then show ?thesis using pending_ok_wf [OF pend, of cr scfg "DoTimer now k" for cr scfg] by simp
  qed
  then have "pending_ok (gw_conns g) ((gw_sessions g)\<lparr>sm_memory := mem\<rparr>)"
    by (intro pending_ok_memory [OF pend]) simp_all
  then show ?thesis unfolding g_expire(1) by (rule gw_inv_sessions [OF inv])
next
  case (g_shared mem)
  have pend: "pending_ok (gw_conns g) (gw_sessions g)" using inv by (simp add: gw_inv_def)
  with g_shared(2) have "pending_ok (gw_conns g) ((gw_sessions g)\<lparr>sm_memory := mem\<rparr>)"
    by (intro pending_ok_memory [OF pend]) simp_all
  then show ?thesis unfolding g_shared(1) by (rule gw_inv_sessions [OF inv])
next
  case (g_batch ready buffered now room jb acts rs)
  have "rooms_ok cfg ok rs"
    using rooms_ok_batch [of cfg ok "gw_rooms g" ready buffered now room jb] inv g_batch(2) by (simp add: gw_inv_def)
  then show ?thesis unfolding g_batch(1) by (rule gw_inv_rooms [OF inv])
next
  case (g_slow ready tid acts rs)
  have "rooms_ok cfg ok rs"
    using rooms_ok_timeout [of cfg ok "gw_rooms g" ready tid] inv g_slow(2) by (simp add: gw_inv_def)
  then show ?thesis unfolding g_slow(1) by (rule gw_inv_rooms [OF inv])
next
  case g_migrate
  then show ?thesis using migrateClient_inv [OF inv] by (metis snd_conv)
next
  case g_saveAll
  then show ?thesis using saveAllSessions_inv [OF inv] by (metis snd_conv)
next
  case g_shutdown
  then show ?thesis using inv by (auto simp: markShuttingDown_def)
qed

lemma gw_reachable_inv:
  "gw_reachable cfg ok g \<Longrightarrow> valid_config (gc_rooms cfg) \<Longrightarrow> gw_inv cfg ok g"
  unfolding gw_reachable_def by (induction rule: rtranclp_induct) (auto intro: gw_init_inv gw_step_inv)

lemma gw_reachable_init [simp]: "gw_reachable cfg ok (gw_init cfg)"
  by (simp add: gw_reachable_def)

lemma gw_reachable_step: "gw_reachable cfg ok g \<Longrightarrow> gw_step cfg ok g g' \<Longrightarrow> gw_reachable cfg ok g'"
  unfolding gw_reachable_def by (rule rtranclp.rtrancl_into_rtrancl)

end
