(* ===== verification/GatewayProperties.thy ===== *)
theory GatewayProperties
  imports GatewayMachine MemoryStorageProperties
begin

text \<open>
  What the gateway guarantees across its parts: the invariant of its state, the sessions that move
  between instances, the limits that follow a client, delivery and teardown.
\<close>

declare map_of_eq_Some_iff [simp del] Some_eq_map_of_iff [simp del]

section \<open>Numbers\<close>

lemma digits_value_fold:
  "(\<forall>c\<in>set s. is_digit c) \<Longrightarrow> Gateway.digits_value n s = Some (foldl (\<lambda>a c. 10 * a + (of_char c - 48)) n s)"
  by (induction s arbitrary: n) simp_all

lemma nat_str_nonempty: "nat_str n \<noteq> []"
  by (simp add: nat_str.simps [of n])

lemma nat_str_digits: "c \<in> set (nat_str n) \<Longrightarrow> is_digit c"
  using nat_str_chars [of c n] by (simp add: is_digit_def)

lemma parse_nat_str [simp]: "parse_nat (nat_str n) = Some n"
  using digits_value [of n] by (simp add: parse_nat_def nat_str_nonempty digits_value_fold nat_str_digits)

lemma parse_int_str [simp]: "parse_int (int_str i) = Some i"
proof (cases "i < 0")
  case False
  have "hd (nat_str (nat i)) \<noteq> CHR ''-''"
    using nat_str_chars [of "hd (nat_str (nat i))" "nat i"] nat_str_nonempty [of "nat i"] by auto
  then show ?thesis using False by (simp add: parse_int_def int_str_def)
qed (simp add: parse_int_def int_str_def)

lemma number_or_jnum [simp]: "number_or d (Some (jnum n)) = (if n = 0 then d else n)"
  by (simp add: number_or_def jnum_def)

section \<open>Rooms and sessions\<close>

lemma membership_of_join:
  assumes "wf_rm rs" and "sane cfg"
  shows "membership_of (snd (join_member cfg h c r ws rs)) c' r' =
    (if accepted (fst (join_member cfg h c r ws rs)) \<and> c' = c \<and> r' = r then Some ws else membership_of rs c' r')"
  using same_membershipD(5) [OF join_member_result [OF assms, of h c r ws]]
  by (auto simp: membership_of_def add_member_views)

lemma join_failed_accepted: "join_failed res \<longleftrightarrow> \<not> accepted res"
  by (cases res) (simp_all add: join_failed_def accepted_def)

definition unlimited :: "rm_config \<Rightarrow> bool" where
  "unlimited cfg \<longleftrightarrow> \<not> cbEnabled cfg \<and> maxRoomSize cfg = Infinity \<and> maxRoomsPerClient cfg = Infinity
     \<and> maxMembersPerRoom cfg = Infinity \<and> maxRooms cfg = Infinity"

lemma unlimited_accepts: "unlimited cfg \<Longrightarrow> accepted (fst (join_member cfg h c r ws rs))"
  by (simp add: unlimited_def join_member_def join_rejection_def accepted_def Let_def)

definition acked_at :: "ctx \<Rightarrow> roomId \<Rightarrow> int" where
  "acked_at cx r = (case js_get (cx_ackedSeq cx) r of Some n \<Rightarrow> n | None \<Rightarrow> 0)"

lemma entry_of_room_state [simp]:
  "entry_room (room_state cx rs r) = Some r"
  "entry_fences (room_state cx rs r) = fences_at cx r"
  "get_prop (room_state cx rs r) ''highestAckedSeq'' = Some (jnum (acked_at cx r))"
  "get_prop (room_state cx rs r) ''highestReceivedSeq'' = Some (jnum (getRoomSeq rs r))"
  by (simp_all add: room_state_def entry_room_def entry_fences_def fences_at_def acked_at_def)

text \<open>A restored session only adds memberships of its client.\<close>

lemma restore_membership:
  assumes "rm_inv (gc_rooms cfg) rs" and "valid_config (gc_rooms cfg)"
  shows "let (restored, cx', rs') = restore_rooms cfg env ws entries cx rs
    in rm_inv (gc_rooms cfg) rs' \<and>
       (\<forall>c r. membership_of rs' c r =
          (if c = cx_clientId cx \<and> r \<in> set (map rr_roomId restored) then Some ws else membership_of rs c r))"
  using assms(1)
proof (induction entries arbitrary: cx rs)
  case (Cons e entries)
  show ?case
  proof (cases "entry_room e")
    case None
    with Cons.IH [OF Cons.prems, of cx] show ?thesis by simp
  next
    case (Some r)
    let ?j = "join_member (gc_rooms cfg) (ge_heap env) (cx_clientId cx) r ws rs"
    let ?cx = "cx\<lparr>cx_ackedSeq := js_set r (number_or 0 (get_prop e ''highestAckedSeq'')) (cx_ackedSeq cx),
      cx_geofence := js_set r (entry_fences e) (cx_geofence cx)\<rparr>"
    have inv: "rm_inv (gc_rooms cfg) (snd ?j)" by (rule op_invs(1) [OF assms(2) Cons.prems])
    have wf: "wf_rm rs" "sane (gc_rooms cfg)"
      using Cons.prems assms(2) by (auto simp: rm_inv_def member_inv_def valid_config_def)
    note join = membership_of_join [OF wf, of "ge_heap env" "cx_clientId cx" r ws]
    show ?thesis
    proof (cases "accepted (fst ?j)")
      case True
      obtain xs cx2 rs2 where rest: "restore_rooms cfg env ws entries ?cx (snd ?j) = (xs, cx2, rs2)" by (metis prod_cases3)
      then show ?thesis
        using Cons.IH [OF inv, of ?cx] True by (simp add: Some case_prod_beta Let_def join_failed_accepted join)
    next
      case False
      with Cons.IH [OF inv, of cx] show ?thesis
        by (simp add: Some case_prod_beta Let_def join_failed_accepted join)
    qed
  qed
qed simp

text \<open>What a captured state restores: the rooms that accept the client, with what it had acknowledged.\<close>

lemma restore_captured:
  assumes "rm_inv (gc_rooms cfg) rs" and "valid_config (gc_rooms cfg)"
  shows "let (restored, cx', rs') = restore_rooms cfg env ws (map (room_state cx0 rs0) rooms) cx rs
    in set (map rr_roomId restored) \<subseteq> set rooms \<and> (unlimited (gc_rooms cfg) \<longrightarrow> map rr_roomId restored = rooms) \<and>
       (\<forall>x\<in>set restored. rr_acked x = acked_at cx0 (rr_roomId x) \<and> rr_received x = getRoomSeq rs0 (rr_roomId x)) \<and>
       (\<forall>r\<in>set (map rr_roomId restored). acked_at cx' r = acked_at cx0 r \<and> fences_at cx' r = fences_at cx0 r) \<and>
       (\<forall>r. r \<notin> set (map rr_roomId restored) \<longrightarrow> acked_at cx' r = acked_at cx r \<and> fences_at cx' r = fences_at cx r)"
  using assms(1)
proof (induction rooms arbitrary: cx rs)
  case (Cons r rooms)
  let ?j = "join_member (gc_rooms cfg) (ge_heap env) (cx_clientId cx) r ws rs"
  let ?cx = "cx\<lparr>cx_ackedSeq := js_set r (acked_at cx0 r) (cx_ackedSeq cx),
      cx_geofence := js_set r (fences_at cx0 r) (cx_geofence cx)\<rparr>"
  have inv: "rm_inv (gc_rooms cfg) (snd ?j)" by (rule op_invs(1) [OF assms(2) Cons.prems])
  have new: "acked_at ?cx r' = (if r' = r then acked_at cx0 r else acked_at cx r')"
    "fences_at ?cx r' = (if r' = r then fences_at cx0 r else fences_at cx r')" for r'
    by (simp_all add: acked_at_def fences_at_def)
  have num: "number_or 0 (Some (jnum n)) = n" for n by simp
  show ?case
  proof (cases "accepted (fst ?j)")
    case True
    obtain xs cx2 rs2 where rest: "restore_rooms cfg env ws (map (room_state cx0 rs0) rooms) ?cx (snd ?j) = (xs, cx2, rs2)"
      by (metis prod_cases3)
    with Cons.IH [OF inv, of ?cx] have ih: "rr_roomId ` set xs \<subseteq> set rooms"
      "unlimited (gc_rooms cfg) \<Longrightarrow> map rr_roomId xs = rooms"
      "\<forall>x\<in>set xs. rr_acked x = acked_at cx0 (rr_roomId x) \<and> rr_received x = getRoomSeq rs0 (rr_roomId x)"
      "\<And>q. acked_at cx2 q = (if q \<in> rr_roomId ` set xs then acked_at cx0 q else acked_at ?cx q)"
      "\<And>q. fences_at cx2 q = (if q \<in> rr_roomId ` set xs then fences_at cx0 q else fences_at ?cx q)"
      by (auto simp: Let_def)
    have "restore_rooms cfg env ws (map (room_state cx0 rs0) (r # rooms)) cx rs =
        (\<lparr>rr_roomId = r, rr_acked = acked_at cx0 r, rr_received = getRoomSeq rs0 r\<rparr> # xs, cx2, rs2)"
      using True rest by (simp add: case_prod_beta Let_def join_failed_accepted num del: number_or_jnum)
    then show ?thesis using ih by (auto simp: new)
  next
    case False
    with Cons.IH [OF inv, of cx] unlimited_accepts show ?thesis
      by (auto simp: case_prod_beta Let_def join_failed_accepted)
  qed
qed simp

lemma touchSession_views [simp]:
  "gw_rooms (touchSession cfg env s g) = gw_rooms g" "gw_rate (touchSession cfg env s g) = gw_rate g"
  "gw_ipCount (touchSession cfg env s g) = gw_ipCount g" "gw_live (touchSession cfg env s g) = gw_live g"
  "ctx_of (touchSession cfg env s g) s =
     (if gc_sessions cfg = None then ctx_of g s
      else map_option (\<lambda>cx. cx\<lparr>cx_lastActivityAt := ge_now env\<rparr>) (ctx_of g s))"
proof -
  show "gw_rooms (touchSession cfg env s g) = gw_rooms g" "gw_rate (touchSession cfg env s g) = gw_rate g"
    "gw_ipCount (touchSession cfg env s g) = gw_ipCount g" "gw_live (touchSession cfg env s g) = gw_live g"
    by (simp_all add: touchSession_def rememberLocal_def set_ctx_def Let_def split: option.split)
  show "ctx_of (touchSession cfg env s g) s =
     (if gc_sessions cfg = None then ctx_of g s
      else map_option (\<lambda>cx. cx\<lparr>cx_lastActivityAt := ge_now env\<rparr>) (ctx_of g s))"
    using ctx_of_Some [of g s] by (auto simp: touchSession_def Let_def split: option.split)
qed

lemma later_command_views [simp]:
  "gw_rooms (later_command cmd g) = gw_rooms g" "gw_rate (later_command cmd g) = gw_rate g"
  "gw_ipCount (later_command cmd g) = gw_ipCount g" "gw_live (later_command cmd g) = gw_live g"
  "gw_conns (later_command cmd g) = gw_conns g" "ctx_of (later_command cmd g) s = ctx_of g s"
  by (simp_all add: later_command_def split: sum.split)

lemma restoreSession_views:
  assumes "ctx_of g ws = Some cx" and "restore_rooms cfg env ws (state_rooms st) cx (gw_rooms g) = (restored, cx1, rs)"
    and "gc_sessions cfg = Some scfg" and w: "w = pruneWindow cfg (ge_now env) (state_window st)"
  shows "gw_rooms (snd (restoreSession cfg env ws st g)) = rs"
    and "gw_rate (snd (restoreSession cfg env ws st g)) =
      fold (\<lambda>_ v. snd (rate_check (gc_maxMessages cfg) (ge_now env) v (cx_clientId cx))) w (gw_rate g)"
    and "ctx_of (snd (restoreSession cfg env ws st g)) ws = Some (cx1\<lparr>cx_messageWindow := w,
      cx_connectedAt := number_or (cx_connectedAt cx1)
        (Option.bind (get_prop st ''metadata'') (\<lambda>m. get_prop m ''connectedAt'')),
      cx_lastActivityAt := ge_now env\<rparr>)"
  using ctx_of_Some [OF assms(1)] assms by (simp_all add: restoreSession_def Let_def)

lemma record_resumption_views [simp]:
  "gw_rooms (record_resumption r g) = gw_rooms g" "gw_rate (record_resumption r g) = gw_rate g"
  "ctx_of (record_resumption r g) s = ctx_of g s"
  by (simp_all add: record_resumption_def)

section \<open>Migration\<close>

lemma captured_parts:
  assumes "cx_frozenState cx = None"
  shows "state_rooms (captureState cfg env rs cx) = map (room_state cx rs) (getClientRooms rs (cx_clientId cx))"
    and "state_window (captureState cfg env rs cx) = pruneWindow cfg (ge_now env) (cx_messageWindow cx)"
    and "get_prop (captureState cfg env rs cx) ''clientId'' = Some (JStr (cx_clientId cx))"
  using assms
  by (simp_all add: captureState_def state_rooms_def state_window_def List.map_filter_def jnum_def comp_def)

lemma migrate_saved:
  assumes "migrateClient cfg env c g = (Some (Inr blob), outs, g1)" and "gc_sessions cfg = Some scfg"
    and "js_get (gw_live g) c = Some s" and "ctx_of g s = Some cx"
  shows "save (ge_crypto env) scfg (ge_now env) (ge_iv env 1) c (captureState cfg env (gw_rooms g) cx)
    (snd (flush (ge_crypto env) scfg (ge_now env) (ge_iv env 0) (provided cfg env g) c (gw_sessions g)))
      = (Inr blob, gw_sessions g1)"
  using assms by (auto simp: migrateClient_def Let_def split: prod.splits sum.splits if_splits)

lemma migrated_session_resumes:
  assumes "gw_reachable cfg ok g" and "valid_config (gc_rooms cfg)" and "gc_sessions cfg = Some scfg"
    and "sm_construct (ge_crypto env) src ttl keyId d = Inr (scfg, sm_init)"
    and "crypto_ok (ge_crypto env)" and "length (ge_iv env 1) = 12"
    and "js_get (gw_live g) c = Some s" and "ctx_of g s = Some cx" and "cx_frozenState cx = None"
    and "json_parse (ge_crypto env) (stringify (captureState cfg env (gw_rooms g) cx)) =
      Some (captureState cfg env (gw_rooms g) cx)"
    and "migrateClient cfg env c g = (Some (Inr blob), outs, g1)"
    and "gw_reachable cfg' ok' g'" and "valid_config (gc_rooms cfg')" and "gc_sessions cfg' = Some scfg'"
    and "ge_crypto env' = ge_crypto env"
    and "js_get (sm_keys scfg') (sm_keyId scfg) = js_get (sm_keys scfg) (sm_keyId scfg)"
    and "sm_memory (gw_sessions g') = sm_memory (gw_sessions g1)" and "ge_now env' < ge_now env + sm_ttlMs scfg"
    and "ctx_of g' ws = Some cx'" and "cx_clientId cx' = c"
    and "resumeSession cfg' env' ws (Some blob) token cookie g' = (b, outs', g2)"
  shows "b \<and> (\<exists>joined cx2. set joined \<subseteq> set (getClientRooms (gw_rooms g) c)
    \<and> (unlimited (gc_rooms cfg') \<longrightarrow> joined = getClientRooms (gw_rooms g) c)
    \<and> ctx_of g2 ws = Some cx2
    \<and> (\<forall>r\<in>set joined. acked_at cx2 r = acked_at cx r \<and> fences_at cx2 r = fences_at cx r)
    \<and> cx_messageWindow cx2 = pruneWindow cfg' (ge_now env') (pruneWindow cfg (ge_now env) (cx_messageWindow cx))
    \<and> (\<forall>c' r. membership_of (gw_rooms g2) c' r =
        (if c' = c \<and> r \<in> set joined then Some ws else membership_of (gw_rooms g') c' r)))"
proof -
  let ?st = "captureState cfg env (gw_rooms g) cx"
  note inv = gw_reachable_inv [OF assms(1,2)] and inv' = gw_reachable_inv [OF assms(12,13)]
  have client: "cx_clientId cx = c"
    using inv assms(7,8) by (fastforce simp: gw_inv_def live_ok_def client_of_ctx)
  note cap = captured_parts [OF assms(9), of cfg env "gw_rooms g", unfolded client]
  note saved = migrate_saved [OF assms(11,3,7,8)]
  obtain k where k: "js_get (sm_keys scfg) (sm_keyId scfg) = Some k"
    using parse_has_key [OF construct_inr(6) [OF assms(4)]] construct_inr(1) [OF assms(4)] by auto
  have opens: "open_blob (ge_crypto env) scfg' blob = Some ?st"
    unfolding save_inr(3) [OF saved]
    using open_sealed [OF assms(5,6) _ _ k _ cap(3) assms(10)] construct_inr(1-3) [OF assms(4)] assms(16) k by simp
  have wf: "wf_map (sm_memory (snd (flush (ge_crypto env) scfg (ge_now env) (ge_iv env 0) (provided cfg env g) c
      (gw_sessions g))))" and wf': "wf_map (sm_memory (gw_sessions g'))"
    using pending_ok_flush [of "gw_conns g" "gw_sessions g"] inv inv' by (simp_all add: gw_inv_def pending_ok_def)
  obtain sm where load: "load (ge_crypto env') scfg' (ge_now env') blob False (gw_sessions g') = (Some ?st, sm)"
    using load_live(1) [OF wf' opens, of "ge_now env'" False] SessionProperties.save_live [OF saved wf, of "ge_now env'"]
      state_client_eq [OF cap(3)] assms(15,17,18) by (metis option.distinct(1) prod.collapse)
  let ?g = "record_resumption ''success'' (g'\<lparr>gw_sessions := sm\<rparr>)"
  have res: "b" "snd (restoreSession cfg' env' ws ?st ?g) = g2"
  proof -
    have "blob \<noteq> []" using opens by (auto simp: open_blob_def)
    then have "(b, outs', g2) = (True, restoreSession cfg' env' ws ?st ?g)"
      using assms(14,19-21) load state_client_eq [OF cap(3)] by (simp add: resumeSession_def)
    then show "b" "snd (restoreSession cfg' env' ws ?st ?g) = g2" by (auto dest: arg_cong [where f = snd])
  qed
  obtain restored cx1 rs where rr: "restore_rooms cfg' env' ws (state_rooms ?st) cx' (gw_rooms ?g) = (restored, cx1, rs)"
    by (metis prod_cases3)
  have ctx: "ctx_of ?g ws = Some cx'" using assms(19) by simp
  note views = restoreSession_views [OF ctx rr assms(14) refl, unfolded res(2)]
  have rinv: "rm_inv (gc_rooms cfg') (gw_rooms ?g)"
    using inv' rooms_ok_inv [of cfg' ok' "gw_rooms g'"] assms(13) by (simp add: gw_inv_def)
  have mem: "membership_of rs c' r = (if c' = c \<and> r \<in> set (map rr_roomId restored) then Some ws
      else membership_of (gw_rooms g') c' r)" for c' r
    using restore_membership [OF rinv assms(13), of env' ws "state_rooms ?st" cx'] rr assms(20) by simp
  obtain t where cx2: "ctx_of g2 ws = Some (cx1\<lparr>cx_messageWindow := pruneWindow cfg' (ge_now env') (state_window ?st),
      cx_connectedAt := t, cx_lastActivityAt := ge_now env'\<rparr>)" using views(3) by simp
  have "set (map rr_roomId restored) \<subseteq> set (getClientRooms (gw_rooms g) c) \<and>
      (unlimited (gc_rooms cfg') \<longrightarrow> map rr_roomId restored = getClientRooms (gw_rooms g) c) \<and>
      (\<forall>r\<in>set (map rr_roomId restored). acked_at cx1 r = acked_at cx r \<and> fences_at cx1 r = fences_at cx r)"
    using restore_captured [OF rinv assms(13), of env' ws cx "gw_rooms g" "getClientRooms (gw_rooms g) c" cx']
      rr [unfolded cap(1)] by simp
  with mem cx2 views(1) res(1) cap(2) show ?thesis
    by (intro conjI exI [of _ "map rr_roomId restored"]) (auto simp: acked_at_def fences_at_def)
qed

text \<open>
  C3. A migrated client finds its session on the next instance. The blob that \<open>migrateClient\<close> hands out
  is accepted by an instance that shares the session store and holds the sealing key, for the same
  client: every room that accepts the client (each of them, if the instance sets no limits) has its
  new socket and the sequence number it had acknowledged and its fences, the message window is taken
  over, and no other membership changes.
\<close>
theorem client_migrates:
  assumes "gw_reachable cfg ok g" and "valid_config (gc_rooms cfg)" and "gc_sessions cfg = Some scfg"
    and "sm_construct (ge_crypto env) src ttl keyId d = Inr (scfg, sm_init)"
    and "crypto_ok (ge_crypto env)" and "length (ge_iv env 1) = 12"
    and "js_get (gw_live g) c = Some s" and "ctx_of g s = Some cx" and "cx_frozenState cx = None"
    and "json_parse (ge_crypto env) (stringify (captureState cfg env (gw_rooms g) cx)) =
      Some (captureState cfg env (gw_rooms g) cx)"
    and "migrateClient cfg env c g = (Some (Inr blob), outs, g1)"
    and "gw_reachable cfg' ok' g'" and "valid_config (gc_rooms cfg')" and "gc_sessions cfg' = Some scfg'"
    and "ge_crypto env' = ge_crypto env"
    and "js_get (sm_keys scfg') (sm_keyId scfg) = js_get (sm_keys scfg) (sm_keyId scfg)"
    and "sm_memory (gw_sessions g') = sm_memory (gw_sessions g1)" and "ge_now env' < ge_now env + sm_ttlMs scfg"
    and "ctx_of g' ws = Some cx'" and "cx_clientId cx' = c"
    and "resumeSession cfg' env' ws (Some blob) token cookie g' = (b, outs', g2)"
  shows "b \<and> (\<exists>joined cx2. set joined \<subseteq> set (getClientRooms (gw_rooms g) c)
    \<and> (unlimited (gc_rooms cfg') \<longrightarrow> joined = getClientRooms (gw_rooms g) c)
    \<and> ctx_of g2 ws = Some cx2
    \<and> (\<forall>r\<in>set joined. acked_at cx2 r = acked_at cx r \<and> fences_at cx2 r = fences_at cx r)
    \<and> cx_messageWindow cx2 = pruneWindow cfg' (ge_now env') (pruneWindow cfg (ge_now env) (cx_messageWindow cx))
    \<and> (\<forall>c' r. membership_of (gw_rooms g2) c' r =
        (if c' = c \<and> r \<in> set joined then Some ws else membership_of (gw_rooms g') c' r)))"
  by (rule migrated_session_resumes [OF assms])

section \<open>A gateway that runs\<close>

text \<open>
  Two instances with one session store. On the first, client \<open>c1\<close> connects and joins room \<open>x\<close>.
\<close>

definition gate_session :: json where
  "gate_session = JObj [(''clientId'', JStr ''c1''), (''protocolVersion'', JNum ''1''),
     (''authIdentity'', JObj [(''sub'', JStr ''c1'')]),
     (''rooms'', JArr [JObj [(''roomId'', JStr ''x''), (''highestAckedSeq'', JNum ''0''), (''highestReceivedSeq'', JNum ''0''),
        (''geofenceInsideSet'', JArr [])]]),
     (''rateLimitState'', JObj [(''messageWindow'', JArr [JNum ''50'']), (''connectionWindow'', JArr [])]),
     (''metadata'', JObj [(''ip'', JStr ''ip''), (''userAgent'', JNull), (''connectedAt'', JNum ''50''),
        (''lastActivityAt'', JNum ''50'')])]"

text \<open>The cipher of \<open>SessionProperties\<close>, with a compression that packs this state into one byte.\<close>

definition gate_crypto :: crypto where
  "gate_crypto = toy_crypto\<lparr>
     deflateSync := (\<lambda>p. if p = stringify gate_session then ''g'' else CHR ''z'' # p),
     inflateSync := (\<lambda>b. case b of [] \<Rightarrow> None | c # p \<Rightarrow> Some (if c = CHR ''g'' then stringify gate_session else p)),
     json_parse := (\<lambda>s. if s = stringify gate_session then Some gate_session else None)\<rparr>"

lemma gate_crypto_ok: "crypto_ok gate_crypto"
  using toy_ok by (simp add: crypto_ok_def gate_crypto_def)

definition gate_frames :: "string \<Rightarrow> json option" where
  "gate_frames s =
     (if s = ''join'' then Some (JObj [(''type'', JStr ''join_room''), (''roomId'', JStr ''x'')]) else None)"

definition gate_env :: gw_env where
  "gate_env = \<lparr>ge_now = 50, ge_heap = 0, ge_uuid = (\<lambda>k. CHR ''u'' # nat_str k), ge_open = (\<lambda>_. True),
     ge_closing = (\<lambda>_. False), ge_parse = (\<lambda>_. None), ge_show = (\<lambda>_. ''0''), ge_crypto = gate_crypto,
     ge_iv = (\<lambda>_. demo_iv), ge_ivs = (\<lambda>_. demo_iv), ge_fresh = (\<lambda>k. \<lparr>uuidv7 = replicate (Suc k) CHR ''u'', date_now = 50, date_parse = (\<lambda>_. None)\<rparr>),
     ge_validator = \<lparr>ve_parse = gate_frames, ve_number = (\<lambda>_. 0), ve_length = length, ve_datetime = (\<lambda>_. True),
       ve_date = (\<lambda>_. None), ve_skew = None\<rparr>,
     ge_safeParse = (\<lambda>_ v. Inr v), ge_decode = (\<lambda>_. None)\<rparr>"

definition gate_cfg :: gw_config where
  "gate_cfg = \<lparr>gc_rooms = default_config, gc_maxMessages = 3, gc_connLimit = 10, gc_maxConnsPerIp = 2,
     gc_sessions = Some sess_cfg, gc_sessionTtl = 1000, gc_instanceId = ''gw1'', gc_heartbeatMs = 30000,
     gc_repo = \<lparr>cfg_snapshotEvery = 100, snapshotsEnabled = True\<rparr>\<rparr>"

definition gate_in :: "sock \<Rightarrow> gw \<Rightarrow> gw" where
  "gate_in s g = snd (on_authenticated gate_cfg gate_env s (AuthOk (JStr ''c1'')) None
     (snd (on_connection gate_cfg gate_env s ''ip'' True g)))"

lemmas gate_entry = gate_in_def gate_cfg_def gate_env_def gw_init_def on_connection_def on_authenticated_def
  conn_check_def stamps_def ip_count_def new_conn_def createContext_def sm_init_def

lemmas gate_resume = on_resume_def resumeSession_def sessionIdFromToken_def local_resume_def readCookie_def
  record_resumption_def recordResumption_def count_def

definition gate_ctx :: ctx where
  "gate_ctx = \<lparr>cx_clientId = ''c1'', cx_ip = ''ip'', cx_userAgent = None, cx_connectedAt = 50,
     cx_lastActivityAt = 50, cx_ackedSeq = [], cx_geofence = [], cx_messageWindow = [], cx_frozenState = None\<rparr>"

lemma gate_in_eval:
  assumes "s \<in> {2, 7}"
  shows "js_get (gw_conns (gate_in s (gw_init gate_cfg))) s = Some \<lparr>cn_ip = ''ip'', cn_stage = Resuming,
      cn_identity = Some ''c1'', cn_ctx = Some gate_ctx, cn_lastPong = 50, cn_open = True\<rparr>"
  using assms by (auto simp: gate_entry gate_ctx_def)

definition gate_0 :: gw where
  "gate_0 = snd (on_resume gate_cfg gate_env 2 None None None (gate_in 2 (gw_init gate_cfg)))"

lemma gate_0_eval:
  "js_get (gw_conns gate_0) 2 = Some \<lparr>cn_ip = ''ip'', cn_stage = Live, cn_identity = Some ''c1'',
     cn_ctx = Some gate_ctx, cn_lastPong = 50, cn_open = True\<rparr>"
  "gw_live gate_0 = [(''c1'', 2)]" "gw_rooms gate_0 = rm_init" "gw_rate gate_0 = []"
  by (simp_all add: gate_0_def gate_entry gate_resume ctx_of_def gate_ctx_def)

lemma gate_reachable:
  assumes "ok ''c1''"
  shows "gw_reachable gate_cfg ok (gate_in s (gw_init gate_cfg))" "gw_reachable gate_cfg ok gate_0"
proof -
  have conn: "gw_reachable gate_cfg ok (snd (on_connection gate_cfg gate_env s ''ip'' True (gw_init gate_cfg)))" for s
    by (intro gw_reachable_step [OF gw_reachable_init] g_connection [OF _ prod.collapse [symmetric]]) (simp add: gw_init_def)
  have "gw_reachable gate_cfg ok (gate_in s (gw_init gate_cfg))" for s
    unfolding gate_in_def
    by (rule gw_reachable_step [OF conn [of s]], rule g_authenticated [where cn = "new_conn gate_env ''ip'' Authenticating",
          OF _ _ _ prod.collapse [symmetric]])
      (use assms in \<open>simp_all add: on_connection_def conn_check_def gate_cfg_def gw_init_def ip_count_def new_conn_def stamps_def\<close>)
  then show in_: "gw_reachable gate_cfg ok (gate_in s (gw_init gate_cfg))" for s .
  show "gw_reachable gate_cfg ok gate_0"
    unfolding gate_0_def
    by (intro gw_reachable_step [OF in_ [of 2]] g_resume [OF _ _ prod.collapse [symmetric]]) (auto simp: gate_in_eval)
qed

lemma gate_join_eval:
  "fst (join_member default_config 0 ''c1'' ''x'' 2 rm_init) = JoinOk"
  "getClientRooms (snd (join_member default_config 0 ''c1'' ''x'' 2 rm_init)) ''c1'' = [''x'']"
  "getRoomSeq (snd (join_member default_config 0 ''c1'' ''x'' 2 rm_init)) ''x'' = 0"
  by code_simp+

lemma gate_parse:
  "validateMessage (ge_validator gate_env) (ge_safeParse gate_env) (ge_now gate_env) (RawText ''join'') =
     Inr (JObj [(''type'', JStr ''join_room''), (''roomId'', JStr ''x'')])"
  by (simp add: gate_env_def validateMessage_def check_parsed_def gate_frames_def oversize_def MESSAGE_SIZE_LIMITS_def
      message_timestamp_def)

definition gate_a :: gw where
  "gate_a = snd (on_frame gate_cfg gate_env 2 ''join'' gate_0)"

lemma gate_a_eval:
  "ctx_of gate_a 2 = Some (gate_ctx\<lparr>cx_messageWindow := [50]\<rparr>)" "js_get (gw_live gate_a) ''c1'' = Some 2"
  "getClientRooms (gw_rooms gate_a) ''c1'' = [''x'']" "getRoomSeq (gw_rooms gate_a) ''x'' = 0"
proof -
  let ?g = "set_ctx 2 (gate_ctx\<lparr>cx_messageWindow := [50]\<rparr>) (gate_0\<lparr>gw_rate := [(''c1'', [50])]\<rparr>)"
  have cfg: "gc_maxMessages gate_cfg = 3" "gc_rooms gate_cfg = default_config" "gc_sessions gate_cfg = Some sess_cfg"
    "ge_now gate_env = 50" "ge_heap gate_env = 0"
    by (simp_all add: gate_cfg_def gate_env_def)
  have "rate_check 3 50 [] ''c1'' = (True, [(''c1'', [50])])" by code_simp
  moreover have "pruneWindow gate_cfg 50 ([] @ [50]) = [50]" by code_simp
  moreover have "ctx_of gate_0 2 = Some gate_ctx" by (simp add: ctx_of_def gate_0_eval)
  moreover have "identity_of_sock gate_0 2 = ''c1''" by (simp add: identity_of_sock_def gate_0_eval)
  ultimately have a: "gate_a = snd (on_join gate_cfg gate_env 2 ''c1'' ''x'' ?g)"
    using gate_parse
    by (simp add: gate_a_def on_frame_def gate_0_eval on_message_def str_prop_def cfg Let_def)
       (simp add: gate_ctx_def)
  have g: "ctx_of ?g 2 = Some (gate_ctx\<lparr>cx_messageWindow := [50]\<rparr>)"
    by (simp add: gate_0_eval)
  have frame: "snd (on_join gate_cfg gate_env 2 ''c1'' ''x'' ?g) = touchSession gate_cfg gate_env 2
      (later_command (JoinRoomCommand (ge_uuid gate_env 0) ''c1'' ''x'' None None)
        (metric (\<lambda>m. m\<lparr>me_join_room := me_join_room m + 1\<rparr>)
          (?g\<lparr>gw_rooms := snd (join_member default_config 0 ''c1'' ''x'' 2 rm_init)\<rparr>)))"
    using gate_join_eval(1) by (simp add: on_join_def cfg join_frame_def case_prod_beta Let_def gate_0_eval)
  show "ctx_of gate_a 2 = Some (gate_ctx\<lparr>cx_messageWindow := [50]\<rparr>)" "js_get (gw_live gate_a) ''c1'' = Some 2"
    "getClientRooms (gw_rooms gate_a) ''c1'' = [''x'']" "getRoomSeq (gw_rooms gate_a) ''x'' = 0"
    unfolding a frame using gate_join_eval by (simp_all add: cfg metric_def gate_0_eval gate_ctx_def)
qed

lemma gate_a_reachable: "ok ''c1'' \<Longrightarrow> gw_reachable gate_cfg ok gate_a"
  unfolding gate_a_def
  by (intro gw_reachable_step [OF gate_reachable(2)] g_frame [OF prod.collapse [symmetric]])

definition gate_moved :: "(session_error + string) option \<times> gw_out list \<times> gw" where
  "gate_moved = migrateClient gate_cfg gate_env ''c1'' gate_a"

definition gate_blob :: string where
  "gate_blob = seal_blob gate_crypto sess_cfg demo_iv gate_session"

definition gate_b :: gw where
  "gate_b = (let g = gate_in 7 (gw_init gate_cfg)
    in g\<lparr>gw_sessions := (gw_sessions g)\<lparr>sm_memory := sm_memory (gw_sessions (snd (snd gate_moved)))\<rparr>\<rparr>)"

lemma gate_captured: "captureState gate_cfg gate_env (gw_rooms gate_a) (gate_ctx\<lparr>cx_messageWindow := [50]\<rparr>) = gate_session"
proof -
  have "int_str 0 = ''0''" "int_str 1 = ''1''" "int_str 50 = ''50''" "pruneWindow gate_cfg 50 [50] = [50]" by code_simp+
  then show ?thesis
    by (simp add: captureState_def gate_ctx_def gate_session_def gate_a_eval room_state_def jnum_def PROTOCOL_VERSION_def
        gate_env_def)
qed

lemma gate_moved_eval: "fst gate_moved = Some (Inr gate_blob)"
proof -
  have "seal_blob gate_crypto sess_cfg demo_iv gate_session =
      join_with ''.'' [''v1'', toBase64 toy_crypto demo_iv, toBase64 toy_crypto ''g'', toBase64 toy_crypto (toy_tag (toy_key CHR ''k''))]"
    by (simp add: seal_blob_def gate_crypto_def toy_crypto_def sess_cfg_def Let_def)
  moreover have "length (join_with ''.'' [''v1'', toBase64 toy_crypto demo_iv, toBase64 toy_crypto ''g'',
      toBase64 toy_crypto (toy_tag (toy_key CHR ''k''))]) \<le> 16384"
    by (simp add: toy_crypto_def demo_iv_def toy_tag_def toy_key_def toy_escape_def numeral_nat)
  ultimately have "length gate_blob \<le> 16384" by (simp add: gate_blob_def)
  moreover have "gc_sessions gate_cfg = Some sess_cfg" "ge_crypto gate_env = gate_crypto" "ge_iv gate_env k = demo_iv" for k
    by (simp_all add: gate_cfg_def gate_env_def)
  moreover have "is_object gate_session" by (simp add: is_object_def gate_session_def)
  ultimately show ?thesis
    by (simp add: gate_moved_def migrateClient_def gate_a_eval gate_captured save_def case_prod_beta Let_def gate_blob_def)
qed

lemma gate_b_reachable:
  assumes "ok ''c1''" shows "gw_reachable gate_cfg ok gate_b"
proof -
  have "gw_inv gate_cfg (\<lambda>_. True) (snd (snd gate_moved))"
    unfolding gate_moved_def using gw_reachable_inv [OF gate_a_reachable [of "\<lambda>_. True"]] by (intro migrateClient_inv) (simp add: gate_cfg_def)
  then have "wf_map (sm_memory (gw_sessions (snd (snd gate_moved))))" by (simp add: gw_inv_def pending_ok_def)
  then show ?thesis
    unfolding gate_b_def Let_def by (intro gw_reachable_step [OF gate_reachable(1) [of ok 7, OF assms]] g_shared)
qed

lemma gate_b_eval: "ctx_of gate_b 7 = Some gate_ctx"
  using gate_in_eval [of 7] by (simp add: gate_b_def Let_def ctx_of_def)

theorem client_migrates_witness:
  "membership_of (gw_rooms (snd (snd (resumeSession gate_cfg gate_env 7 (Some gate_blob) None None gate_b)))) ''c1'' ''x'' = Some 7"
proof -
  obtain outs g1 where moved: "migrateClient gate_cfg gate_env ''c1'' gate_a = (Some (Inr gate_blob), outs, g1)"
    and g1: "snd (snd gate_moved) = g1"
    using gate_moved_eval unfolding gate_moved_def by (metis prod.collapse)
  obtain b outs' g2 where res: "resumeSession gate_cfg gate_env 7 (Some gate_blob) None None gate_b = (b, outs', g2)"
    by (metis prod_cases3)
  have con: "sm_construct (ge_crypto gate_env) (KsObject [(''v1'', KvBuffer (toy_key CHR ''k''))]) (Some 1000) ''v1'' (Some 500)
      = Inr (sess_cfg, sm_init)"
    by (simp add: gate_env_def gate_crypto_def sm_construct_def parseKeyMap_def parse_entries_def deriveKey_def toy_crypto_def
        toy_key_def sess_cfg_def)
  have cfg: "gc_sessions gate_cfg = Some sess_cfg" "valid_config (gc_rooms gate_cfg)" "unlimited (gc_rooms gate_cfg)"
    by (simp_all add: gate_cfg_def) (simp add: unlimited_def default_config_def)
  have env: "crypto_ok (ge_crypto gate_env)" "length (ge_iv gate_env 1) = 12"
    "json_parse (ge_crypto gate_env) (stringify gate_session) = Some gate_session"
    by (simp_all add: gate_env_def gate_crypto_ok demo_iv_def) (simp add: gate_crypto_def)
  have "cx_frozenState (gate_ctx\<lparr>cx_messageWindow := [50]\<rparr>) = None" "cx_clientId gate_ctx = ''c1''"
    by (simp_all add: gate_ctx_def)
  have store: "sm_memory (gw_sessions gate_b) = sm_memory (gw_sessions g1)" by (simp add: gate_b_def Let_def g1)
  from client_migrates [OF gate_a_reachable [of "\<lambda>_. True", OF TrueI] cfg(2,1) con env(1,2) gate_a_eval(2,1) \<open>cx_frozenState _ = None\<close> _ moved gate_b_reachable [of "\<lambda>_. True", OF TrueI] cfg(2,1)
      refl refl _ _ gate_b_eval \<open>cx_clientId gate_ctx = ''c1''\<close> res] cfg(3) env(3) store
  show ?thesis by (auto simp: gate_captured gate_a_eval res sess_cfg_def)
qed

end
