(* ===== verification/GatewayOwnership.thy ===== *)
theory GatewayOwnership
  imports GatewayMachine
begin

text \<open>
  Whose sessions the sticky-cookie cache of \<open>src/server.js\<close> holds. The cache of a client id holds a
  state captured for that client id, as long as no token refresh renames a connection whose state is
  already frozen by its close handler (\<open>frozen_kept\<close>). Such a late refresh breaks it: it caches the
  frozen state of the old client id under the new one (\<open>late_refresh_leaks\<close> in \<open>GatewayGuarantees\<close>).
\<close>

declare map_of_eq_Some_iff [simp del] Some_eq_map_of_iff [simp del]

section \<open>The invariant\<close>

definition own_of :: "gw \<Rightarrow> sock \<Rightarrow> (clientId \<times> json option) option" where
  "own_of g s = map_option (\<lambda>cx. (cx_clientId cx, cx_frozenState cx)) (ctx_of g s)"

definition owned :: "gw \<Rightarrow> bool" where
  "owned g \<longleftrightarrow> (\<forall>(c, st)\<in>set (gw_local g). state_client st = c)
     \<and> (\<forall>s c st. own_of g s = Some (c, Some st) \<longrightarrow> state_client st = c)"

text \<open>A step that keeps the client id of every connection whose state is frozen.\<close>

definition frozen_kept :: "gw \<Rightarrow> gw \<Rightarrow> bool" where
  "frozen_kept g g' \<longleftrightarrow> (\<forall>s c st c' f. own_of g s = Some (c, Some st) \<longrightarrow> own_of g' s = Some (c', f) \<longrightarrow> c' = c)"

lemma owned_view: "owned g \<Longrightarrow> gw_local g' = gw_local g \<Longrightarrow> own_of g' = own_of g \<Longrightarrow> owned g'"
  by (simp add: owned_def)

lemma ownedD: "owned g \<Longrightarrow> own_of g s = Some (c, Some st) \<Longrightarrow> state_client st = c"
  by (auto simp: owned_def)

lemma owned_cached: "owned g \<Longrightarrow> js_get (gw_local g) c = Some st \<Longrightarrow> state_client st = c"
  unfolding owned_def using map_of_SomeD by fast

lemma set_js_delete: "set (js_delete k m) \<subseteq> set m"
  by (induction m) auto

lemma set_evict_oldest: "set (evict_oldest cap m) \<subseteq> set m"
proof (induction cap m rule: evict_oldest.induct)
  case (1 cap m)
  show ?case
  proof (cases "cap < length m")
    case True
    then obtain k v r where m: "m = (k, v) # r" by (cases m) auto
    have "set (evict_oldest cap m) = set (evict_oldest cap (js_delete k m))"
      using True by (subst evict_oldest.simps) (simp add: m)
    also have "\<dots> \<subseteq> set m" using 1 [OF True, of "(k, v)" r k v] set_js_delete [of k m] m by simp
    finally show ?thesis .
  qed (simp add: evict_oldest.simps)
qed

lemma owned_remember:
  assumes "owned g" and "state_client st = c"
  shows "owned (rememberLocal c st g)"
proof -
  have "set (js_set c st m) \<subseteq> insert (c, st) (set m)" for m :: "(clientId, json) jsmap" by (induction m) auto
  then have "set (gw_local (rememberLocal c st g)) \<subseteq> insert (c, st) (set (gw_local g))"
    using set_evict_oldest [of MAX_LOCAL_SESSIONS "js_set c st (js_delete c (gw_local g))"] set_js_delete [of c "gw_local g"]
    by (simp add: rememberLocal_def) blast
  moreover have "own_of (rememberLocal c st g) = own_of g" by (simp add: own_of_def fun_eq_iff)
  ultimately show ?thesis using assms unfolding owned_def by (fastforce simp: split_beta)
qed

lemma capture_client:
  "state_client (captureState cfg env rs cx) =
     (case cx_frozenState cx of Some st \<Rightarrow> state_client st | None \<Rightarrow> cx_clientId cx)"
  by (auto simp: captureState_def state_client_def split: option.split)

lemma owned_set_ctx:
  assumes "owned g" and "\<And>st. cx_frozenState cx = Some st \<Longrightarrow> state_client st = cx_clientId cx"
  shows "owned (set_ctx s cx g)"
  using assms by (auto simp: owned_def own_of_def split: if_splits)

lemma owned_ctx: "owned g \<Longrightarrow> ctx_of g s = Some cx \<Longrightarrow> cx_frozenState cx = Some st \<Longrightarrow> state_client st = cx_clientId cx"
  using ownedD [of g s] by (simp add: own_of_def)

section \<open>The operations keep it\<close>

lemma own_of_fields [simp]:
  "own_of (g\<lparr>gw_rate := w\<rparr>) = own_of g" "own_of (g\<lparr>gw_rooms := rs\<rparr>) = own_of g"
  "own_of (g\<lparr>gw_connRate := cr\<rparr>) = own_of g" "own_of (g\<lparr>gw_ipCount := m\<rparr>) = own_of g"
  "own_of (g\<lparr>gw_commands := ch\<rparr>) = own_of g" "own_of (g\<lparr>gw_world := wo\<rparr>) = own_of g"
  "own_of (g\<lparr>gw_tasks := ts\<rparr>) = own_of g" "own_of (g\<lparr>gw_metrics := me\<rparr>) = own_of g"
  "own_of (g\<lparr>gw_sessions := sm\<rparr>) = own_of g" "own_of (g\<lparr>gw_local := lo\<rparr>) = own_of g"
  "own_of (g\<lparr>gw_live := li\<rparr>) = own_of g"
  by (simp_all add: own_of_def fun_eq_iff)

lemma owned_fields [simp]:
  "owned (g\<lparr>gw_rate := w\<rparr>) = owned g" "owned (g\<lparr>gw_rooms := rs\<rparr>) = owned g"
  "owned (g\<lparr>gw_connRate := cr\<rparr>) = owned g" "owned (g\<lparr>gw_ipCount := m\<rparr>) = owned g"
  "owned (g\<lparr>gw_commands := ch\<rparr>) = owned g" "owned (g\<lparr>gw_world := wo\<rparr>) = owned g"
  "owned (g\<lparr>gw_tasks := ts\<rparr>) = owned g" "owned (g\<lparr>gw_metrics := me\<rparr>) = owned g"
  "owned (g\<lparr>gw_sessions := sm\<rparr>) = owned g" "owned (g\<lparr>gw_live := li\<rparr>) = owned g"
  by (simp_all add: owned_def)

lemma owned_bookkeeping [simp]:
  "owned (later_command cmd g) = owned g" "owned (metric f g) = owned g" "owned (record_resumption r g) = owned g"
  "owned (release_ip ip g) = owned g" "owned (leave_all cfg c g) = owned g" "owned (g\<lparr>gw_shuttingDown := b\<rparr>) = owned g"
  by (simp_all add: later_command_def metric_def record_resumption_def release_ip_def leave_all_def Let_def
      owned_def own_of_def ctx_of_def split: sum.split)

lemma owned_touch: "owned g \<Longrightarrow> owned (touchSession cfg env s g)"
  using owned_ctx [of g s]
  by (auto simp: touchSession_def Let_def capture_client split: option.split intro!: owned_remember owned_set_ctx)

lemma owned_readLocal: "owned g \<Longrightarrow> owned (snd (readLocal cfg now c g))"
proof -
  assume o: "owned g"
  then have "owned (g\<lparr>gw_local := js_delete c (gw_local g)\<rparr>)"
    using set_js_delete [of c "gw_local g"] by (auto simp: owned_def)
  with o show ?thesis by (simp add: readLocal_def Let_def split: option.split)
qed

lemma owned_restore:
  assumes "owned g" shows "owned (snd (restoreSession cfg env ws st g))"
proof (cases "ctx_of g ws")
  case None
  with assms show ?thesis by (simp add: restoreSession_def)
next
  case (Some cx)
  obtain restored cx1 rs where r: "restore_rooms cfg env ws (state_rooms st) cx (gw_rooms g) = (restored, cx1, rs)"
    by (metis prod_cases3)
  have "cx_clientId cx1 = cx_clientId cx" "cx_frozenState cx1 = cx_frozenState cx"
    using restore_rooms_ctx [of cfg env ws "state_rooms st" cx "gw_rooms g"] r by simp_all
  with owned_ctx [OF assms Some] assms show ?thesis
    by (auto simp: restoreSession_def Some r Let_def intro!: owned_touch owned_set_ctx)
qed

lemma owned_resume:
  assumes "owned g" shows "owned (snd (snd (resumeSession cfg env ws sp token cookie g)))"
proof -
  have "owned (snd (snd (local_resume cfg env ws cookie cx g)))" for cx
    using owned_readLocal [OF assms, of cfg "ge_now env" "cx_clientId cx"] assms
    by (auto simp: local_resume_def owned_restore split: option.split prod.split)
  then show ?thesis using assms by (auto simp: resumeSession_def Let_def owned_restore split: option.split prod.split)
qed

lemma owned_migrate:
  assumes "gw_inv cfg ok g" and "owned g" shows "owned (snd (snd (migrateClient cfg env c g)))"
proof -
  have "state_client (captureState cfg env (gw_rooms g) cx) = c"
    if "js_get (gw_live g) c = Some s" "ctx_of g s = Some cx" for s cx
    using that assms(1) owned_ctx [OF assms(2) that(2)]
    by (fastforce simp: gw_inv_def live_ok_def client_of_ctx capture_client split: option.split)
  with assms(2) show ?thesis
    by (auto simp: migrateClient_def case_prod_beta Let_def split: option.split sum.split intro!: owned_remember)
qed

lemma owned_save_live: "owned g \<Longrightarrow> owned (snd (save_live cfg env scfg wss g blobs))"
proof (induction wss arbitrary: g blobs)
  case (Cons ws wss)
  have "owned (rememberLocal (cx_clientId cx) (captureState cfg env (gw_rooms g) cx) g)" if "ctx_of g ws = Some cx" for cx
    using owned_ctx [OF Cons.prems that] by (intro owned_remember Cons.prems) (simp add: capture_client split: option.split)
  with Cons show ?case by (simp add: case_prod_beta Let_def split: option.split)
qed simp

lemma owned_saveAll: "owned g \<Longrightarrow> owned (snd (saveAllSessions cfg env g))"
  by (simp add: saveAllSessions_def Let_def owned_save_live split: option.split)

lemma owned_deliver: "owned g \<Longrightarrow> owned (snd (deliverLocationUpdate cfg env c p g))"
  by (simp add: deliverLocationUpdate_def case_prod_beta Let_def)

lemma owned_fence:
  assumes "owned g" shows "owned (fence_entered cfg env e g)" "owned (fence_exited cfg env e g)"
proof -
  have "ctx_of g ws = Some cx" if "fence_event cfg e g = Some (ws, cx, r, f)" for ws cx r f
    using that by (auto simp: fence_event_def split: option.splits if_splits)
  with owned_ctx [OF assms] assms show "owned (fence_entered cfg env e g)" "owned (fence_exited cfg env e g)"
    by (auto simp: fence_entered_def fence_exited_def split: option.split intro!: owned_touch owned_set_ctx)
qed

lemma owned_events: "owned g \<Longrightarrow> owned (snd (on_events cfg env es g))"
  by (induction es arbitrary: g) (simp_all add: case_prod_beta Let_def owned_deliver owned_fence)

lemma owned_command: "owned g \<Longrightarrow> owned (snd (snd (run_command cfg env cmd g)))"
  by (simp add: run_command_def case_prod_beta Let_def owned_events)

lemma owned_task:
  assumes "owned g" shows "owned (snd (run_task cfg env t g))"
proof (cases t)
  case (Publish cmd s p)
  obtain res outs g1 where r: "run_command cfg env cmd g = (res, outs, g1)" by (metis prod_cases3)
  have "owned g1" using owned_command [OF assms, of cfg env cmd] by (simp add: r)
  then show ?thesis by (simp add: run_task_def Publish r case_prod_beta Let_def owned_touch owned_deliver split: sum.split)
qed (simp add: run_task_def owned_command assms)

lemma owned_freeze:
  assumes "owned g" and "\<And>cx. ctx_of g s = Some cx \<Longrightarrow> cx_clientId cx = c"
  shows "owned (freeze_session cfg env s c g)"
proof -
  have "owned (rememberLocal c (captureState cfg env (gw_rooms g) cx)
      (set_ctx s (cx\<lparr>cx_frozenState := Some (captureState cfg env (gw_rooms g) cx)\<rparr>) g))"
    if "ctx_of g s = Some cx" for cx
    using owned_ctx [OF assms(1) that] assms(2) [OF that]
    by (intro owned_remember owned_set_ctx assms(1)) (auto simp: capture_client split: option.splits)
  with assms(1) show ?thesis by (simp add: freeze_session_def Let_def split: option.split)
qed

lemma own_of_freeze: "map_option fst (own_of (freeze_session cfg env s c g) t) = map_option fst (own_of g t)"
  by (auto simp: freeze_session_def Let_def own_of_def rememberLocal_def split: option.split)

lemma own_of_conn: "own_of (g\<lparr>gw_conns := js_set s cn (gw_conns g)\<rparr>) t =
    (if t = s then map_option (\<lambda>cx. (cx_clientId cx, cx_frozenState cx)) (cn_ctx cn) else own_of g t)"
  by (simp add: own_of_def ctx_of_def)

lemma owned_conn:
  assumes "owned g" and "js_get (gw_conns g) s = Some cn" and "cn_ctx cn' = cn_ctx cn"
  shows "owned (g\<lparr>gw_conns := js_set s cn' (gw_conns g)\<rparr>)"
proof (rule owned_view [OF assms(1)])
  show "own_of (g\<lparr>gw_conns := js_set s cn' (gw_conns g)\<rparr>) = own_of g"
    using assms(2,3) by (intro ext) (simp add: own_of_conn, simp add: own_of_def ctx_of_def)
qed simp

lemma owned_fresh:
  assumes "owned g" and "\<And>cx. cn_ctx cn = Some cx \<Longrightarrow> cx_frozenState cx = None"
  shows "owned (g\<lparr>gw_conns := js_set s cn (gw_conns g)\<rparr>)"
  using assms unfolding owned_def own_of_conn by (auto split: if_splits)

lemma owned_close:
  assumes "gw_inv cfg ok g" and "owned g" shows "owned (on_close cfg env s g)"
proof (cases "js_get (gw_conns g) s")
  case None
  with assms(2) show ?thesis by (simp add: on_close_def)
next
  case (Some cn)
  define g1 where "g1 = g\<lparr>gw_conns := js_set s (cn\<lparr>cn_open := False\<rparr>) (gw_conns g)\<rparr>"
  have o: "owned g1" unfolding g1_def by (rule owned_conn [OF assms(2) Some]) simp
  have ctx1: "ctx_of g1 s = cn_ctx cn" by (simp add: g1_def ctx_of_def)
  have "cn_identity cn = Some c \<Longrightarrow> ctx_of g1 s = Some cx \<Longrightarrow> cx_clientId cx = c" for c cx
    using gw_inv_conn_ok [OF assms(1) Some] ctx1 by (simp add: conn_ok_def)
  with o have f: "owned (close_first cfg env s cn g1)"
    by (simp add: close_first_def Let_def owned_freeze split: option.split)
  then have "owned (close_second cfg env s cn (close_first cfg env s cn g1))"
    by (auto simp: close_second_def Let_def split: option.split intro!: owned_freeze)
  with o f show ?thesis by (simp add: on_close_def Some g1_def [symmetric] split: stage.split)
qed

lemma owned_frame:
  assumes "owned g" shows "owned (snd (on_frame cfg env s raw g))"
proof -
  have ctx: "owned (set_ctx s cx' g')" if "owned g'" "ctx_of g' s = Some cx" "cx_clientId cx' = cx_clientId cx"
    "cx_frozenState cx' = cx_frozenState cx" for g' cx cx'
    using owned_ctx [OF that(1,2)] that by (intro owned_set_ctx) simp_all
  have ack: "owned (note_acked s r n g')" if "owned g'" for r n g'
    using that by (auto simp: note_acked_def split: option.split intro!: ctx)
  have "owned (snd (on_message cfg env s c d g'))" if "owned g'" for c d g'
  proof -
    have "owned (snd (on_join cfg env s c r g'))" for r
      using that by (simp add: on_join_def case_prod_beta Let_def owned_touch split: option.split)
    moreover have "owned (snd (on_leave cfg env s c r g'))" for r
      using that by (auto simp: on_leave_def Let_def metric_def split: option.split intro!: owned_touch ctx)
    moreover have "owned (snd (on_reconnect cfg env s c r l h g'))" for r l h
      using that by (simp add: on_reconnect_def owned_touch ack)
    moreover have "owned (snd (on_ack cfg env s c r n g'))" for r n
      using that by (simp add: on_ack_def Let_def owned_touch ack)
    moreover have "owned (snd (on_nack env c r n reason g'))" for r n reason using that by (simp add: on_nack_def Let_def)
    moreover have "owned (snd (on_location env s c d g'))"
      using that by (simp add: on_location_def Let_def split: sum.split)
    moreover have "owned (snd (on_token_refresh env s t g'))" for t using that by (simp add: on_token_refresh_def)
    ultimately show ?thesis using that by (simp add: on_message_def Let_def split: option.split)
  qed
  note msg = this
  have window: "owned (case ctx_of g' s of None \<Rightarrow> g' | Some cx \<Rightarrow> set_ctx s (cx\<lparr>cx_messageWindow := w cx\<rparr>) g')"
    if "owned g'" for g' w
    using that by (auto split: option.split intro!: ctx)
  show ?thesis
  proof (cases "js_get (gw_conns g) s")
    case (Some cn)
    with msg [OF window] window assms show ?thesis
      by (simp add: on_frame_def case_prod_beta Let_def split: sum.split del: ctx_of_fields)
  qed (simp add: on_frame_def assms)
qed

lemma own_of_touch: "own_of (touchSession cfg env t g) = own_of g"
  by (auto simp: touchSession_def Let_def own_of_def fun_eq_iff split: option.split)

lemma owned_refreshed:
  assumes "gw_inv cfg ok g" and "owned g" and "frozen_kept g (snd (on_refreshed cfg env s res g))"
  shows "owned (snd (on_refreshed cfg env s res g))"
proof (cases "\<exists>new cn. res = AuthOk (JStr new) \<and> js_get (gw_conns g) s = Some cn")
  case False
  then have "snd (on_refreshed cfg env s res g) = g"
    by (auto simp: on_refreshed_def split: auth_result.split json.split option.split)
  with assms(2) show ?thesis by simp
next
  case True
  then obtain new cn where res: "res = AuthOk (JStr new)" and cn: "js_get (gw_conns g) s = Some cn" by blast
  let ?old = "identity_of_sock g s"
  define g1 where "g1 = g\<lparr>gw_conns := js_set s (cn\<lparr>cn_identity := Some new\<rparr>) (gw_conns g),
      gw_rooms := rename_member (gc_rooms cfg) ?old new (gw_rooms g), gw_rate := rate_remove ?old (gw_rate g)\<rparr>"
  define g2 where "g2 = (case ctx_of g1 s of
      None \<Rightarrow> g1
    | Some cx \<Rightarrow>
        if ?old = new then g1
        else set_ctx s (cx\<lparr>cx_clientId := new\<rparr>)
               (g1\<lparr>gw_live := js_set new s
                  (if js_get (gw_live g1) ?old = Some s then js_delete ?old (gw_live g1) else gw_live g1)\<rparr>))"
  have eq: "snd (on_refreshed cfg env s res g) = touchSession cfg env s g2"
    unfolding on_refreshed_def g2_def g1_def Let_def
    by (simp only: res cn prod.case auth_result.case json.case option.case snd_conv)
  have o1: "owned g1" unfolding g1_def using owned_conn [OF assms(2) cn, of "cn\<lparr>cn_identity := Some new\<rparr>"] by simp
  have ctx1: "ctx_of g1 s = ctx_of g s" by (simp add: g1_def ctx_of_def cn)
  have "owned g2"
  proof (cases "ctx_of g s")
    case None
    with o1 show ?thesis by (simp add: g2_def ctx1)
  next
    case (Some cx)
    show ?thesis
    proof (cases "?old = new")
      case True
      with o1 show ?thesis by (simp add: g2_def ctx1 Some)
    next
      case False
      have "js_has (gw_conns g1) s" by (simp add: g1_def)
      then have "own_of g2 s = Some (new, cx_frozenState cx)" using False by (simp add: g2_def ctx1 Some own_of_def)
      moreover have "own_of g s = Some (?old, cx_frozenState cx)"
        using gw_inv_ctx(3) [OF assms(1) Some] by (simp add: own_of_def Some)
      ultimately have "cx_frozenState cx = None"
        using assms(3) False unfolding frozen_kept_def eq own_of_touch by (cases "cx_frozenState cx") auto
      then show ?thesis using o1 False by (auto simp: g2_def ctx1 Some intro!: owned_set_ctx)
    qed
  qed
  then show ?thesis unfolding eq by (rule owned_touch)
qed

lemma owned_connection:
  assumes "owned g" shows "owned (snd (on_connection cfg env s ip urlOk g))"
proof -
  have "owned (g'\<lparr>gw_conns := js_set s (new_conn env ip st) cs\<rparr>)" if "owned g'" "cs = gw_conns g'" for g' st cs
    unfolding that(2) by (rule owned_fresh [OF that(1)]) (simp add: new_conn_def)
  note enter = this
  from assms show ?thesis by (auto simp: on_connection_def case_prod_beta Let_def intro!: enter)
qed

lemma owned_authenticated:
  assumes "gw_inv cfg ok g" and "owned g" and "js_get (gw_conns g) s = Some cn" and "cn_stage cn = Authenticating"
  shows "owned (snd (on_authenticated cfg env s res ua g))"
proof -
  have "cn_ctx cn = None" using gw_inv_conn_ok [OF assms(1,3)] assms(4) by (auto simp: conn_ok_def)
  then have fresh: "owned (g\<lparr>gw_conns := js_set s (cn\<lparr>cn_identity := i, cn_stage := st, cn_ctx := x\<rparr>) (gw_conns g)\<rparr>)"
    if "\<And>cx. x = Some cx \<Longrightarrow> cx_frozenState cx = None" for i st x
    using that by (intro owned_fresh assms(2)) simp
  have plain: "owned (g\<lparr>gw_conns := js_set s (cn\<lparr>cn_identity := i, cn_stage := st\<rparr>) (gw_conns g)\<rparr>)" for i st
    using \<open>cn_ctx cn = None\<close> by (intro owned_fresh assms(2)) simp
  have entered: "owned (g\<lparr>gw_conns := js_set s (cn\<lparr>cn_identity := i, cn_stage := st, cn_ctx := Some (createContext env c ip ua)\<rparr>)
      (gw_conns g), gw_live := li\<rparr>)" for i st c ip li
  proof -
    have "owned ((g\<lparr>gw_conns := js_set s (cn\<lparr>cn_identity := i, cn_stage := st, cn_ctx := Some (createContext env c ip ua)\<rparr>)
      (gw_conns g)\<rparr>)\<lparr>gw_live := li\<rparr>)"
      using fresh [where x = "Some (createContext env c ip ua)" and i = i and st = st] by (simp add: createContext_def)
    then show ?thesis by simp
  qed
  show ?thesis using assms(2) plain entered
    by (simp add: on_authenticated_def assms(3) split: auth_result.split json.split)
qed

lemma owned_on_resume:
  assumes "owned g" shows "owned (snd (on_resume cfg env s sp token cookie g))"
proof -
  obtain b outs g1 where r: "resumeSession cfg env s sp token cookie g = (b, outs, g1)" by (metis prod_cases3)
  have "owned g1" using owned_resume [OF assms, of cfg env s sp token cookie] by (simp add: r)
  then show ?thesis by (auto simp: on_resume_def r split: option.split intro: owned_conn)
qed

lemma owned_pong: "owned g \<Longrightarrow> owned (on_pong env s g)"
  by (auto simp: on_pong_def split: option.split intro: owned_conn)

section \<open>Runs\<close>

lemma owned_step:
  assumes "gw_step cfg ok g g'" and "gw_inv cfg ok g" and "owned g" and "frozen_kept g g'"
  shows "owned g'"
  using assms(1)
proof cases
  case g_connection
  then show ?thesis using owned_connection [OF assms(3)] by (metis snd_conv)
next
  case g_authenticated
  then show ?thesis using owned_authenticated [OF assms(2,3)] by (metis snd_conv)
next
  case g_resume
  then show ?thesis using owned_on_resume [OF assms(3)] by (metis snd_conv)
next
  case g_frame
  then show ?thesis using owned_frame [OF assms(3)] by (metis snd_conv)
next
  case g_refreshed
  then show ?thesis using owned_refreshed [OF assms(2,3)] assms(4) by (metis snd_conv)
next
  case (g_task ts t ts' env outs)
  have "owned (g\<lparr>gw_tasks := ts @ ts'\<rparr>)" using assms(3) by simp
  from owned_task [OF this, of cfg env t] g_task(2) show ?thesis by simp
next
  case g_close
  then show ?thesis using owned_close [OF assms(2,3)] by auto
next
  case g_pong
  then show ?thesis using owned_pong [OF assms(3)] by auto
next
  case g_migrate
  then show ?thesis using owned_migrate [OF assms(2,3)] by (metis snd_conv)
next
  case g_saveAll
  then show ?thesis using owned_saveAll [OF assms(3)] by (metis snd_conv)
next
  case g_shutdown
  then show ?thesis using assms(3) by (auto simp: markShuttingDown_def)
qed (use assms(3) in simp_all)

text \<open>Runs in which no late refresh renames a frozen connection.\<close>

definition gw_settled :: "gw_config \<Rightarrow> (clientId \<Rightarrow> bool) \<Rightarrow> gw \<Rightarrow> bool" where
  "gw_settled cfg ok g \<longleftrightarrow> (\<lambda>g g'. gw_step cfg ok g g' \<and> frozen_kept g g')\<^sup>*\<^sup>* (gw_init cfg) g"

lemma gw_settled_reachable: "gw_settled cfg ok g \<Longrightarrow> gw_reachable cfg ok g"
  unfolding gw_settled_def gw_reachable_def by (erule rtranclp_mono [THEN predicate2D, rotated]) blast

lemma gw_settled_step: "gw_settled cfg ok g \<Longrightarrow> gw_step cfg ok g g' \<Longrightarrow> frozen_kept g g' \<Longrightarrow> gw_settled cfg ok g'"
  unfolding gw_settled_def by (rule rtranclp.rtrancl_into_rtrancl) simp_all

lemma gw_settled_init [simp]: "gw_settled cfg ok (gw_init cfg)"
  by (simp add: gw_settled_def)

lemma gw_settled_owned:
  assumes "gw_settled cfg ok g" and "valid_config (gc_rooms cfg)"
  shows "owned g"
proof -
  have "gw_inv cfg ok g \<and> owned g"
    using assms(1) unfolding gw_settled_def
  proof (induction rule: rtranclp_induct)
    case base
    show ?case using gw_init_inv by (simp add: owned_def own_of_def ctx_of_def gw_init_def)
  next
    case (step g g')
    then show ?case using gw_step_inv [OF _ assms(2)] owned_step by blast
  qed
  then show ?thesis ..
qed

text \<open>Nothing is frozen: every step is settled.\<close>

lemma frozen_kept_none: "(\<And>s c f. own_of g s = Some (c, f) \<Longrightarrow> f = None) \<Longrightarrow> frozen_kept g g'"
  unfolding frozen_kept_def by fastforce

end
