(* ===== verification/GatewayGuarantees.thy ===== *)
theory GatewayGuarantees
  imports GatewayProperties GatewayOwnership
begin

text \<open>
  Guarantees of \<open>src/server.js\<close> over the reachable gateways of \<open>GatewayMachine\<close>: who can be in a room,
  what the composed state keeps, whose session a client can resume, what follows it to another
  instance, what a closing socket leaves behind, and where the connection ceiling fails.
\<close>

declare map_of_eq_Some_iff [simp del] Some_eq_map_of_iff [simp del]

section \<open>Membership and authentication\<close>

definition verified :: "jwt_lib \<Rightarrow> auth_env \<Rightarrow> clientId \<Rightarrow> bool" where
  "verified lib aenv c \<longleftrightarrow> (\<exists>token keys. verifyConnection lib aenv token keys = AuthOk (JStr c))"

lemma verify_accepts:
  assumes "verifyConnection lib aenv token keys = AuthOk v"
  shows "\<exists>t key payload. jwt_verify lib t key (verify_options aenv) = Inr payload \<and> v = identity_of payload"
proof -
  obtain t header key where "check_signature lib aenv t key = AuthOk v"
    using assms
    by (auto simp: verifyConnection_def pre_checks_def pick_key_def
        split: sum.splits if_splits option.splits json.splits prod.splits)
  then show ?thesis
    by (auto simp: check_signature_def verify_failure_def split: sum.splits verify_error.splits if_splits)
qed

text \<open>
  C2. Only authenticated identities are ever in a room. Whatever events a gateway went through (joins,
  resumed sessions, refreshed tokens, closes in any order), each client id that is a member of a room
  or is listed with rooms was the verified subject of a token.
\<close>
theorem members_are_verified:
  assumes "gw_reachable cfg (verified lib aenv) g" and "valid_config (gc_rooms cfg)"
    and "membership_of (gw_rooms g) c r \<noteq> None \<or> r \<in> set (getClientRooms (gw_rooms g) c)"
  shows "\<exists>t key payload. jwt_verify lib t key (verify_options aenv) = Inr payload \<and> identity_of payload = JStr c"
proof -
  have rooms: "rooms_ok cfg (verified lib aenv) (gw_rooms g)"
    using gw_reachable_inv [OF assms(1,2)] by (simp add: gw_inv_def)
  have "rm_inv (gc_rooms cfg) (gw_rooms g)" by (rule rooms_ok_inv [OF rooms assms(2)])
  then have "membership_of (gw_rooms g) c r \<noteq> None"
    using assms(3) by (auto simp: rm_inv_def member_inv_def indexed_def membership_of_def getClientRooms_def rooms_of_def)
  then have "verified lib aenv c" using rooms by (auto simp: rooms_ok_def only_members_def)
  then show ?thesis using verify_accepts unfolding verified_def by metis
qed

text \<open>
  C7. The parts of the gateway stay consistent. In every reachable state the room manager is in a state
  of its own machine; a live client leads to the context of its own connection; each pending save is
  armed, has a provider and the provider returns a state; the local cache is bounded; and the message
  window of a context is bounded by the message limit.
\<close>
theorem gateway_consistent:
  assumes "gw_reachable cfg ok g" and "valid_config (gc_rooms cfg)"
  shows "rm_reachable (gc_rooms cfg) (gw_rooms g)
    \<and> (js_get (gw_live g) c = Some s \<longrightarrow> (\<exists>cx. ctx_of g s = Some cx \<and> cx_clientId cx = c))
    \<and> (js_has (debounceTimers (gw_sessions g)) c \<longleftrightarrow> js_has (debounceProviders (gw_sessions g)) c)
    \<and> (js_has (debounceTimers (gw_sessions g)) c \<longrightarrow>
        (\<exists>s st. js_get (debounceProviders (gw_sessions g)) c = Some (Provider s) \<and> provided cfg env g s = Some st))
    \<and> length (gw_local g) \<le> MAX_LOCAL_SESSIONS
    \<and> (ctx_of g s = Some cx \<and> 0 < gc_maxMessages cfg \<longrightarrow> int (length (cx_messageWindow cx)) \<le> gc_maxMessages cfg)"
proof -
  note inv = gw_reachable_inv [OF assms]
  have "pending_ok (gw_conns g) (gw_sessions g)" using inv by (simp add: gw_inv_def)
  then have armed: "js_has (debounceTimers (gw_sessions g)) c \<longleftrightarrow> js_has (debounceProviders (gw_sessions g)) c"
    and provider: "\<And>p. js_get (debounceProviders (gw_sessions g)) c = Some p \<Longrightarrow>
      \<exists>s. p = Provider s \<and> client_of (gw_conns g) s \<noteq> None"
    by (simp_all add: pending_ok_def)
  have "\<exists>s st. js_get (debounceProviders (gw_sessions g)) c = Some (Provider s) \<and> provided cfg env g s = Some st"
    if has: "js_has (debounceTimers (gw_sessions g)) c"
  proof -
    obtain p where p: "js_get (debounceProviders (gw_sessions g)) c = Some p" using has armed by fastforce
    with provider obtain t where "p = Provider t" "client_of (gw_conns g) t \<noteq> None" by blast
    with p show ?thesis by (auto simp: client_of_ctx provided_def)
  qed
  moreover have "js_get (gw_live g) c = Some s \<Longrightarrow> \<exists>cx. ctx_of g s = Some cx \<and> cx_clientId cx = c"
    using inv by (fastforce simp: gw_inv_def live_ok_def client_of_ctx)
  moreover have "ctx_of g s = Some cx \<Longrightarrow> 0 < gc_maxMessages cfg \<Longrightarrow>
      int (length (cx_messageWindow cx)) \<le> gc_maxMessages cfg"
    using gw_inv_ctx(2) [OF inv] by (simp add: window_ok_def)
  moreover have "rm_reachable (gc_rooms cfg) (gw_rooms g)" "length (gw_local g) \<le> MAX_LOCAL_SESSIONS"
    using inv by (simp_all add: gw_inv_def local_ok_def rooms_ok_def)
  ultimately show ?thesis using armed by blast
qed

section \<open>Resumption\<close>

lemma restored_membership:
  assumes "gw_inv cfg ok g" and "valid_config (gc_rooms cfg)" and "gc_sessions cfg = Some scfg"
    and "ctx_of g ws = Some cx" and "c \<noteq> cx_clientId cx"
  shows "membership_of (gw_rooms (snd (restoreSession cfg env ws st (g\<lparr>gw_sessions := sm\<rparr>)))) c = membership_of (gw_rooms g) c"
proof -
  obtain restored cx1 rs where rr: "restore_rooms cfg env ws (state_rooms st) cx (gw_rooms (g\<lparr>gw_sessions := sm\<rparr>)) = (restored, cx1, rs)"
    by (metis prod_cases3)
  have ctx: "ctx_of (g\<lparr>gw_sessions := sm\<rparr>) ws = Some cx" using assms(4) by simp
  have "rm_inv (gc_rooms cfg) (gw_rooms g)"
    using assms(1,2) rooms_ok_inv [of cfg ok "gw_rooms g"] by (simp add: gw_inv_def)
  from restore_membership [OF this assms(2), of env ws "state_rooms st" cx] rr assms(5)
  have "membership_of rs c = membership_of (gw_rooms g) c" by (auto simp: fun_eq_iff)
  then show ?thesis using restoreSession_views(1) [OF ctx rr assms(3) refl] by simp
qed

text \<open>What a resumption restores, and from which state of the gateway.\<close>

lemma load_opens: "load cr scfg now i b sm = (Some st, sm') \<Longrightarrow> open_blob cr scfg i = Some st"
  by (auto simp: load_def load_stored_def Let_def split: option.splits prod.splits)

lemma readLocal_result:
  assumes "readLocal cfg now c g = (r, g1)"
  shows "r = None \<or> r = js_get (gw_local g) c \<and> g1 = g" and "gw_rooms g1 = gw_rooms g" and "gw_conns g1 = gw_conns g"
  using assms by (auto simp: readLocal_def Let_def split: option.splits if_splits)

lemma resume_cases:
  assumes "gc_sessions cfg = Some scfg" and "ctx_of g ws = Some cx"
    and "i = (case sp of Some x \<Rightarrow> x | None \<Rightarrow> case sessionIdFromToken (ge_decode env) token of Some x \<Rightarrow> x | None \<Rightarrow> [])"
    and "resumeSession cfg env ws sp token cookie g = (b, outs, g')"
  shows "if b then (\<exists>st sm. (if i = [] then readCookie cookie AFFINITY_COOKIE = Some (gc_instanceId cfg)
               \<and> js_get (gw_local g) (cx_clientId cx) = Some st
             else open_blob (ge_crypto env) scfg i = Some st \<and> state_client st = cx_clientId cx)
         \<and> (outs, g') = restoreSession cfg env ws st (g\<lparr>gw_sessions := sm\<rparr>))
     else outs = [] \<and> gw_rooms g' = gw_rooms g \<and> gw_conns g' = gw_conns g"
proof (cases "i = []")
  case True
  then have r: "local_resume cfg env ws cookie cx g = (b, outs, g')"
    using assms(4) by (simp add: resumeSession_def assms(1,2) assms(3) [symmetric])
  obtain r1 g1 where "readLocal cfg (ge_now env) (cx_clientId cx) g = (r1, g1)" by fastforce
  with readLocal_result [OF this] r True show ?thesis
    by (auto simp: local_resume_def record_resumption_def split: if_splits option.splits) (metis+)
next
  case False
  obtain r sm where l: "load (ge_crypto env) scfg (ge_now env) i False (gw_sessions g) = (r, sm)" by fastforce
  show ?thesis
  proof (cases r)
    case None
    with assms(4) False show ?thesis by (auto simp: resumeSession_def assms(1,2) assms(3) [symmetric] l)
  next
    case (Some st)
    with assms(4) False load_opens [of "ge_crypto env" scfg "ge_now env" i False "gw_sessions g" st sm] show ?thesis
      by (auto simp: resumeSession_def assms(1,2) assms(3) [symmetric] l record_resumption_def Let_def split: if_splits)
        (metis+)
  qed
qed

text \<open>
  C8. A client resumes its own session only, on each of the three ways a session is named: the
  \<open>session_id\<close> parameter, the session id in the token, and, without an id, the affinity cookie. When a
  session is restored, it is a state of the client id the socket was authenticated as: the state the
  id opens to, or the state this instance cached for that client id, when the cookie names this
  instance. When none is restored, nothing is sent and neither rooms nor connections change. In no
  case does a membership of another client change. The runs are those in which no token refresh
  resolves after the close of its connection under another client id (\<open>late_refresh_leaks\<close>).
\<close>
theorem resumption_is_own:
  assumes "gw_settled cfg ok g" and "valid_config (gc_rooms cfg)" and "gc_sessions cfg = Some scfg"
    and "ctx_of g ws = Some cx"
    and "i = (case sp of Some x \<Rightarrow> x | None \<Rightarrow> case sessionIdFromToken (ge_decode env) token of Some x \<Rightarrow> x | None \<Rightarrow> [])"
    and "resumeSession cfg env ws sp token cookie g = (b, outs, g')"
  shows "(b \<longrightarrow> (\<exists>st sm. state_client st = cx_clientId cx
           \<and> (if i = [] then readCookie cookie AFFINITY_COOKIE = Some (gc_instanceId cfg)
                 \<and> js_get (gw_local g) (cx_clientId cx) = Some st
              else open_blob (ge_crypto env) scfg i = Some st)
           \<and> (outs, g') = restoreSession cfg env ws st (g\<lparr>gw_sessions := sm\<rparr>)))
    \<and> (\<not> b \<longrightarrow> outs = [] \<and> gw_rooms g' = gw_rooms g \<and> gw_conns g' = gw_conns g)
    \<and> (c \<noteq> cx_clientId cx \<longrightarrow> membership_of (gw_rooms g') c = membership_of (gw_rooms g) c)"
proof (cases b)
  case False
  with resume_cases [OF assms(3-6)] show ?thesis by simp
next
  case True
  with resume_cases [OF assms(3-6)] obtain st sm where
    src: "if i = [] then readCookie cookie AFFINITY_COOKIE = Some (gc_instanceId cfg)
        \<and> js_get (gw_local g) (cx_clientId cx) = Some st
      else open_blob (ge_crypto env) scfg i = Some st \<and> state_client st = cx_clientId cx"
    and res: "(outs, g') = restoreSession cfg env ws st (g\<lparr>gw_sessions := sm\<rparr>)" by auto
  note inv = gw_reachable_inv [OF gw_settled_reachable [OF assms(1)] assms(2)]
  have own: "state_client st = cx_clientId cx"
    using src owned_cached [OF gw_settled_owned [OF assms(1,2)]] by (simp split: if_splits)
  have "c \<noteq> cx_clientId cx \<Longrightarrow> membership_of (gw_rooms g') c = membership_of (gw_rooms g) c"
    using restored_membership [OF inv assms(2-4), of c env st sm] res by (metis snd_conv)
  with True src own res show ?thesis by auto
qed

section \<open>The message limit after a migration\<close>

lemma stamps_replay:
  assumes "stamps w c = replicate m now" and "int (m + length xs) \<le> limit"
  shows "stamps (fold (\<lambda>_ v. snd (rate_check limit now v c)) xs w) c = replicate (m + length xs) now"
  using assms
proof (induction xs arbitrary: w m)
  case (Cons x xs)
  have "stamps (snd (rate_check limit now w c)) c = replicate (Suc m) now"
    using Cons.prems rate_check_stamps [of w c limit now] by (simp add: replicate_append_same)
  from Cons.IH [OF this] Cons.prems(2) show ?case by simp
qed simp

text \<open>Calls less than a second after \<open>t0\<close> are all in one window.\<close>

lemma accepted_in_window:
  assumes "sorted (stamps w c)" and "\<forall>t\<in>set (stamps w c). t0 \<le> t \<and> t \<le> t1"
    and "int (length (stamps w c)) \<le> limit"
    and "sorted (t1 # map fst calls)" and "\<forall>call\<in>set calls. t0 \<le> fst call \<and> fst call < t0 + 1000"
  shows "int (length (stamps w c)) + int (length (times_of c (fst (run_checks (rate_check limit) w calls)))) \<le> limit"
  using assms
proof (induction calls arbitrary: w t1)
  case Nil
  then show ?case by (simp add: times_of_def)
next
  case (Cons call calls)
  obtain t k where call: "call = (t, k)" by fastforce
  let ?w = "snd (rate_check limit t w k)" and ?ok = "fst (rate_check limit t w k)"
  have later: "sorted (t # map fst calls)" and le: "t1 \<le> t" and win: "t0 \<le> t" "t < t0 + 1000"
    using Cons.prems(4,5) call by auto
  show ?case
  proof (cases "k = c")
    case False
    then have same: "stamps ?w c = stamps w c" by (simp add: check_stamps_other(1))
    have "int (length (stamps ?w c)) + int (length (times_of c (fst (run_checks (rate_check limit) ?w calls)))) \<le> limit"
      using Cons.prems le by (intro Cons.IH [OF _ _ _ later]) (auto simp: same)
    then show ?thesis using False by (simp add: call case_prod_beta Let_def same times_of_def)
  next
    case True
    have "filter (\<lambda>s. t - 1000 < s) (stamps w c) = stamps w c"
      using Cons.prems(2) win by (auto intro!: filter_True)
    then have own: "?ok \<longleftrightarrow> int (length (stamps w c)) < limit"
      "stamps ?w c = stamps w c @ (if ?ok then [t] else [])"
      using rate_check_stamps [OF Cons.prems(1), of limit t] True by simp_all
    have "int (length (stamps ?w c)) + int (length (times_of c (fst (run_checks (rate_check limit) ?w calls)))) \<le> limit"
      using Cons.prems le win own by (intro Cons.IH [OF _ _ _ later]) (auto simp: sorted_append)
    then show ?thesis using True own(2) by (auto simp: call case_prod_beta Let_def times_of_def)
  qed
qed

text \<open>
  C9. Moving to another instance gives no burst. A session captured on one instance and restored on a
  fresh one takes the message window along: the messages of the last second it brings and those the new
  instance accepts within a second of the resumption are together within the limit, whatever other
  clients send.
\<close>
theorem no_burst_after_migration:
  assumes "ctx_of g ws = Some cx" and "cx_clientId cx = c" and "gc_sessions cfg = Some scfg"
    and "0 < gc_maxMessages cfg" and "stamps (gw_rate g) c = []"
    and "cx_frozenState cx0 = None" and "st = captureState cfg0 env0 rs0 cx0"
    and "sorted (ge_now env # map fst calls)" and "\<forall>call\<in>set calls. fst call < ge_now env + 1000"
    and "run_checks (rate_check (gc_maxMessages cfg)) (gw_rate (snd (restoreSession cfg env ws st g))) calls = (acc, w')"
  shows "int (length (pruneWindow cfg (ge_now env) (pruneWindow cfg0 (ge_now env0) (cx_messageWindow cx0))))
    + int (length (times_of c acc)) \<le> gc_maxMessages cfg"
proof -
  let ?ts = "pruneWindow cfg (ge_now env) (pruneWindow cfg0 (ge_now env0) (cx_messageWindow cx0))"
  obtain restored cx1 rs where rr: "restore_rooms cfg env ws (state_rooms st) cx (gw_rooms g) = (restored, cx1, rs)"
    by (metis prod_cases3)
  have window: "state_window st = pruneWindow cfg0 (ge_now env0) (cx_messageWindow cx0)"
    unfolding assms(7) by (rule captured_parts(2) [OF assms(6)])
  have len: "int (length ?ts) \<le> gc_maxMessages cfg" using pruneWindow_ok assms(4) unfolding window_ok_def by blast
  have "stamps (gw_rate (snd (restoreSession cfg env ws st g))) c = replicate (0 + length ?ts) (ge_now env)"
    unfolding restoreSession_views(2) [OF assms(1) rr assms(3) refl] assms(2) window
    by (rule stamps_replay) (use assms(5) len in simp_all)
  then show ?thesis
    using accepted_in_window [of "gw_rate (snd (restoreSession cfg env ws st g))" c "ge_now env" "ge_now env"
        "gc_maxMessages cfg" calls] len assms(8-10) by force
qed

section \<open>Closing sockets\<close>

lemma evict_oldest_newest:
  assumes "wf_map m" and "0 < cap"
  shows "js_get (evict_oldest cap (js_set k v (js_delete k m))) k = Some v"
proof -
  let ?m = "js_set k v (js_delete k m)"
  have "wf_map ?m" using assms(1) by simp
  moreover have m: "?m = js_delete k m @ [(k, v)]" by (rule js_set_absent) simp
  ultimately obtain xs where xs: "evict_oldest cap ?m = xs @ [(k, v)]"
    using evict_oldest_keeps [of ?m "js_delete k m" k v "[]" cap] assms(2) by auto
  have "wf_map (evict_oldest cap ?m)" using assms(1) by (intro wf_evict_oldest wf_js_set wf_js_delete)
  then show ?thesis unfolding xs by (simp add: map_add_Some_iff map_of_eq_None_iff)
qed

text \<open>
  A refresh that resolves after the close of its connection caches the frozen state, which is the
  old client's, under the new client id.
\<close>

lemma late_refresh_leaks:
  assumes "gc_sessions cfg = Some scfg" and "js_get (gw_conns g) s = Some cn" and "cn_ctx cn = Some cx"
    and "cn_identity cn = Some (cx_clientId cx)" and "cx_frozenState cx = Some st" and "new \<noteq> cx_clientId cx"
    and "wf_map (gw_local g)"
  shows "js_get (gw_local (snd (on_refreshed cfg env s (AuthOk (JStr new)) g))) new = Some st"
proof -
  have "identity_of_sock g s = cx_clientId cx" by (simp add: identity_of_sock_def assms(2,4))
  then have "gw_local (snd (on_refreshed cfg env s (AuthOk (JStr new)) g)) =
      evict_oldest MAX_LOCAL_SESSIONS (js_set new st (js_delete new (gw_local g)))"
    using assms(1-3,5,6)
    by (simp add: on_refreshed_def Let_def ctx_of_def set_ctx_def touchSession_def rememberLocal_def captureState_def)
  then show ?thesis using evict_oldest_newest [OF assms(7)] by (simp add: MAX_LOCAL_SESSIONS_def)
qed

lemma captureState_frozen [simp]: "captureState cfg env rs (cx\<lparr>cx_frozenState := Some st\<rparr>) = st"
  by (simp add: captureState_def)

lemma freeze_session_views:
  assumes "gc_sessions cfg = Some scfg" and "ctx_of g s = Some cx" and "local_ok (gw_local g)"
    and st: "st = captureState cfg env (gw_rooms g) cx" and g': "g' = freeze_session cfg env s c g"
  shows "gw_rooms g' = gw_rooms g" and "gw_rate g' = gw_rate g" and "gw_ipCount g' = gw_ipCount g"
    and "ctx_of g' s = Some (cx\<lparr>cx_frozenState := Some st\<rparr>)" and "js_get (gw_local g') c = Some st"
    and "js_get (gw_live g') c \<noteq> Some s" and "conn_id g' s = conn_id g s" and "local_ok (gw_local g')"
    and "gw_sessions g' = snd (flush (ge_crypto env) scfg (ge_now env) (ge_iv env 0)
      (\<lambda>t. if t = s then Some st else provided cfg env g t) c (gw_sessions g))"
proof -
  define g1 where "g1 = rememberLocal c st (set_ctx s (cx\<lparr>cx_frozenState := Some st\<rparr>) g)"
  define g2 where "g2 = (if js_get (gw_live g1) c = Some s then g1\<lparr>gw_live := js_delete c (gw_live g1)\<rparr> else g1)"
  have eq: "g' = g2\<lparr>gw_sessions := snd (flush (ge_crypto env) scfg (ge_now env) (ge_iv env 0) (provided cfg env g2) c
      (gw_sessions g2))\<rparr>"
    unfolding g' freeze_session_def g2_def g1_def Let_def st assms(1,2) by (simp only: option.case prod.case)
  have wf: "wf_map (js_set c st (js_delete c (gw_local g)))" using assms(3) by (simp add: local_ok_def)
  have ctx: "ctx_of g2 t = (if t = s then Some (cx\<lparr>cx_frozenState := Some st\<rparr>) else ctx_of g t)" for t
    using ctx_of_Some [OF assms(2)] by (simp add: g2_def g1_def)
  have rooms: "gw_rooms g2 = gw_rooms g" by (simp add: g2_def g1_def)
  have "provided cfg env g2 = (\<lambda>t. if t = s then Some st else provided cfg env g t)"
    by (simp add: fun_eq_iff provided_def ctx rooms)
  then show "gw_sessions g' = snd (flush (ge_crypto env) scfg (ge_now env) (ge_iv env 0)
      (\<lambda>t. if t = s then Some st else provided cfg env g t) c (gw_sessions g))"
    by (simp add: eq) (simp add: g2_def g1_def)
  show "gw_rooms g' = gw_rooms g" "gw_rate g' = gw_rate g" "conn_id g' s = conn_id g s"
    by (simp_all add: eq g2_def g1_def rooms conn_id_def) (auto simp: set_ctx_def split: option.split)
  show "gw_ipCount g' = gw_ipCount g"
    by (simp add: eq g2_def g1_def rememberLocal_def set_ctx_def split: option.split)
  show "ctx_of g' s = Some (cx\<lparr>cx_frozenState := Some st\<rparr>)" by (simp add: eq ctx)
  have "gw_local g' = evict_oldest MAX_LOCAL_SESSIONS (js_set c st (js_delete c (gw_local g)))"
    by (simp add: eq g2_def g1_def rememberLocal_def)
  moreover have "0 < MAX_LOCAL_SESSIONS" by (simp add: MAX_LOCAL_SESSIONS_def)
  ultimately show "js_get (gw_local g') c = Some st" "local_ok (gw_local g')"
    using evict_oldest_newest [of "gw_local g"] assms(3) wf_evict_oldest [OF wf] length_evict_oldest [OF wf]
    by (simp_all add: local_ok_def)
  show "js_get (gw_live g') c \<noteq> Some s" by (simp add: eq g2_def g1_def)
qed

lemma leave_release_views [simp]:
  "gw_rooms (leave_all cfg c g) = disconnect_member (gc_rooms cfg) c (gw_rooms g)"
  "gw_rate (leave_all cfg c g) = rate_remove c (gw_rate g)" "ctx_of (leave_all cfg c g) s = ctx_of g s"
  "gw_local (leave_all cfg c g) = gw_local g" "gw_live (leave_all cfg c g) = gw_live g"
  "gw_sessions (leave_all cfg c g) = gw_sessions g" "gw_ipCount (leave_all cfg c g) = gw_ipCount g"
  "gw_conns (leave_all cfg c g) = gw_conns g"
  "gw_rooms (release_ip ip g) = gw_rooms g" "gw_rate (release_ip ip g) = gw_rate g" "ctx_of (release_ip ip g) s = ctx_of g s"
  "gw_local (release_ip ip g) = gw_local g" "gw_live (release_ip ip g) = gw_live g"
  "gw_sessions (release_ip ip g) = gw_sessions g" "gw_conns (release_ip ip g) = gw_conns g"
  by (simp_all add: leave_all_def release_ip_def Let_def ctx_of_def)

lemma identity_conn_id: "identity_of_sock g s = (case conn_id g s of Some (st, Some c) \<Rightarrow> c | _ \<Rightarrow> [])"
  by (auto simp: identity_of_sock_def conn_id_def split: option.split)

lemma flush_twice:
  "sm_memory (snd (flush cr scfg now iv call c (snd (flush cr scfg now' iv' call' c sm)))) =
     sm_memory (snd (flush cr scfg now' iv' call' c sm))"
proof -
  have "pending (snd (flush cr scfg now' iv' call' c sm)) c = None" by (simp add: pending_def)
  then show ?thesis by (simp add: flush_unfold [of cr scfg now iv])
qed

text \<open>The state of an authenticated connection between and after its two close handlers.\<close>

lemma on_close_split:
  assumes "gw_inv cfg ok g" and "js_get (gw_conns g) s = Some cn" and "cn_stage cn \<in> {Resuming, Live}"
    and "cn_ctx cn = Some cx" and "gc_sessions cfg = Some scfg" and st: "st = captureState cfg env (gw_rooms g) cx"
  obtains g1 g2 where "gw_rooms g1 = disconnect_member (gc_rooms cfg) (cx_clientId cx) (gw_rooms g)"
    and "local_ok (gw_local g1)" and "ctx_of g1 s = Some (cx\<lparr>cx_frozenState := Some st\<rparr>)"
    and "identity_of_sock g2 s = cx_clientId cx"
    and "gw_sessions g1 = snd (flush (ge_crypto env) scfg (ge_now env) (ge_iv env 0)
      (\<lambda>t. if t = s then Some st else provided cfg env g t) (cx_clientId cx) (gw_sessions g))"
    and "g2 = freeze_session cfg env s (cx_clientId cx) g1"
    and "on_close cfg env s g = release_ip (cn_ip cn) (leave_all cfg (cx_clientId cx) g2)"
    and "gw_ipCount g1 = gw_ipCount (release_ip (cn_ip cn) g)"
proof -
  define g0 where "g0 = g\<lparr>gw_conns := js_set s (cn\<lparr>cn_open := False\<rparr>) (gw_conns g)\<rparr>"
  define g1 where "g1 = close_first cfg env s cn g0"
  define g2 where "g2 = freeze_session cfg env s (cx_clientId cx) g1"
  have id: "cn_identity cn = Some (cx_clientId cx)"
    using gw_inv_conn_ok [OF assms(1,2)] assms(4) by (simp add: conn_ok_def)
  have g0: "ctx_of g0 t = ctx_of g t" "gw_rooms g0 = gw_rooms g" "gw_local g0 = gw_local g" "gw_sessions g0 = gw_sessions g"
    "gw_ipCount g0 = gw_ipCount g" for t
    using assms(2) by (simp_all add: g0_def ctx_of_def)
  have "ctx_of g s = Some cx" using assms(2,4) by (simp add: ctx_of_def)
  then have ctx0: "ctx_of g0 s = Some cx" by (simp only: g0(1))
  have local0: "local_ok (gw_local g0)" using assms(1) by (simp add: g0 gw_inv_def)
  have st0: "st = captureState cfg env (gw_rooms g0) cx" by (simp add: g0 st)
  note first = freeze_session_views [OF assms(5) ctx0 local0 st0 refl, of "cx_clientId cx"]
  have g1: "g1 = release_ip (cn_ip cn) (leave_all cfg (cx_clientId cx) (freeze_session cfg env s (cx_clientId cx) g0))"
    by (simp add: g1_def close_first_def id Let_def)
  have conn1: "conn_id g1 s = conn_id g0 s" using first(7) by (simp add: g1 conn_id_def)
  have ctx1: "ctx_of g1 s = Some (cx\<lparr>cx_frozenState := Some st\<rparr>)" using first(4) by (simp add: g1)
  have local1: "local_ok (gw_local g1)" using first(8) by (simp add: g1)
  have "st = captureState cfg env (gw_rooms g1) (cx\<lparr>cx_frozenState := Some st\<rparr>)" by simp
  note second = freeze_session_views [OF assms(5) ctx1 local1 this refl, of "cx_clientId cx"]
  have "conn_id g2 s = Some (cn_stage cn, Some (cx_clientId cx))"
    using second(7) conn1 by (simp add: g2_def) (simp add: conn_id_def g0_def id)
  then have ident: "identity_of_sock g2 s = cx_clientId cx" by (simp add: identity_conn_id)
  show thesis
  proof (rule that [of g1 g2])
    show "on_close cfg env s g = release_ip (cn_ip cn) (leave_all cfg (cx_clientId cx) g2)"
      using assms(2,3) ctx1 ident
      by (auto simp: on_close_def Let_def g0_def [symmetric] g1_def [symmetric] close_second_def g2_def [symmetric])
    have "provided cfg env g0 = provided cfg env g" by (simp add: provided_def g0 fun_eq_iff)
    then show "gw_sessions g1 = snd (flush (ge_crypto env) scfg (ge_now env) (ge_iv env 0)
      (\<lambda>t. if t = s then Some st else provided cfg env g t) (cx_clientId cx) (gw_sessions g))"
      using first(9) by (simp add: g1 g0 cong: if_cong)
    show "gw_ipCount g1 = gw_ipCount (release_ip (cn_ip cn) g)"
      using first(3) by (simp add: g1 release_ip_def Let_def g0)
    show "gw_rooms g1 = disconnect_member (gc_rooms cfg) (cx_clientId cx) (gw_rooms g)" by (simp add: g1 first(1) g0)
  qed (use local1 ctx1 ident g2_def in auto)
qed

text \<open>
  C10. A closing socket loses its rooms but not its session. What is cached for the client, what a
  pending save will store and, when one was pending, what the store holds is the state from before the
  teardown, with the rooms the client was in; the client is out of every room on every socket, no
  membership of another client changes, and its rate window and live entry are gone.
\<close>
theorem close_keeps_session:
  assumes "gw_reachable cfg ok g" and "valid_config (gc_rooms cfg)" and "gc_sessions cfg = Some scfg"
    and "js_get (gw_conns g) s = Some cn" and "cn_stage cn \<in> {Resuming, Live}" and "cn_ctx cn = Some cx"
    and "cx_frozenState cx = None" and "c = cx_clientId cx" and "st = captureState cfg env (gw_rooms g) cx"
    and "g' = on_close cfg env s g"
  shows "js_get (gw_local g') c = Some st \<and> provided cfg' env' g' s = Some st
    \<and> (js_get (debounceProviders (gw_sessions g)) c = Some (Provider s) \<and> c \<noteq> []
        \<and> length (seal_blob (ge_crypto env) scfg (ge_iv env 0) st) \<le> 16384 \<longrightarrow>
        mem_live (sm_memory (gw_sessions g')) t (storage_key c) =
          (if t < ge_now env + sm_ttlMs scfg then Some (seal_blob (ge_crypto env) scfg (ge_iv env 0) st) else None))
    \<and> js_get (debounceTimers (gw_sessions g')) c = None \<and> js_get (gw_live g') c \<noteq> Some s
    \<and> (\<forall>c' r. membership_of (gw_rooms g') c' r = (if c' = c then None else membership_of (gw_rooms g) c' r))
    \<and> stamps (gw_rate g') c = []"
proof -
  note inv = gw_reachable_inv [OF assms(1,2)]
  obtain g1 g2 where g1: "gw_rooms g1 = disconnect_member (gc_rooms cfg) c (gw_rooms g)"
    "local_ok (gw_local g1)" "ctx_of g1 s = Some (cx\<lparr>cx_frozenState := Some st\<rparr>)" "identity_of_sock g2 s = c"
    and sess: "gw_sessions g1 = snd (flush (ge_crypto env) scfg (ge_now env) (ge_iv env 0)
      (\<lambda>t. if t = s then Some st else provided cfg env g t) c (gw_sessions g))"
    and g2: "g2 = freeze_session cfg env s c g1" and g': "g' = release_ip (cn_ip cn) (leave_all cfg c g2)"
    and "gw_ipCount g1 = gw_ipCount (release_ip (cn_ip cn) g)"
    by (rule on_close_split [OF inv assms(4,5,6,3,9), folded assms(8,10)])
  have "st = captureState cfg env (gw_rooms g1) (cx\<lparr>cx_frozenState := Some st\<rparr>)" by simp
  note v = freeze_session_views [OF assms(3) g1(3,2) this g2]
  have rinv: "rm_inv (gc_rooms cfg) (gw_rooms g)"
    using inv rooms_ok_inv [of cfg ok "gw_rooms g"] assms(2) by (simp add: gw_inv_def)
  have member: "member_inv (gw_rooms g)" "member_inv (disconnect_member (gc_rooms cfg) c (gw_rooms g))"
    using rinv op_invs(3) [OF assms(2) rinv, of c] unfolding rm_inv_def by blast+
  have "membership_of (gw_rooms g') c' r = (if c' = c then None else membership_of (gw_rooms g) c' r)" for c' r
    by (simp add: g' v(1) g1(1) membership_disconnect [OF member(1)] membership_disconnect [OF member(2)])
  moreover have "provided cfg' env' g' s = Some st" by (simp add: provided_def g' v(4))
  moreover have "js_get (debounceTimers (gw_sessions g')) c = None" by (simp add: g' v(9))
  moreover have "stamps (gw_rate g') c = []" by (simp add: g' rate_remove_def stamps_def)
  moreover have "mem_live (sm_memory (gw_sessions g')) t (storage_key c) =
      (if t < ge_now env + sm_ttlMs scfg then Some (seal_blob (ge_crypto env) scfg (ge_iv env 0) st) else None)"
    if "js_get (debounceProviders (gw_sessions g)) c = Some (Provider s)" "c \<noteq> []"
      "length (seal_blob (ge_crypto env) scfg (ge_iv env 0) st) \<le> 16384"
  proof -
    have pend: "pending_ok (gw_conns g) (gw_sessions g)" using inv by (simp add: gw_inv_def)
    then have wf: "wf_map (sm_memory (gw_sessions g))" by (simp add: pending_ok_def)
    have "js_has (debounceTimers (gw_sessions g)) c" using pend that(1) by (simp add: pending_ok_def)
    then have p: "pending (gw_sessions g) c = Some (Provider s)" using that(1) by (simp add: pending_def)
    have "is_object st" by (simp add: assms(9) captureState_def assms(7) is_object_def)
    then have "sm_memory (gw_sessions g1) = mem_set (ge_now env) (storage_key c)
        (seal_blob (ge_crypto env) scfg (ge_iv env 0) st) (sm_ttlMs scfg) (sm_memory (gw_sessions g))"
      using that(2,3) by (simp add: sess flush_unfold p runSave_def provide_def save_def Let_def)
    moreover have "sm_memory (gw_sessions g') = sm_memory (gw_sessions g1)" by (simp add: g' v(9) sess flush_twice)
    ultimately show ?thesis using wf by (simp add: memory.live_put)
  qed
  ultimately show ?thesis using v(5,6) by (simp add: g')
qed

section \<open>Connection slots\<close>

lemma ip_count_release:
  "ip_count (release_ip ip g) ip' = (if ip' = ip then max 0 (ip_count g ip - 1) else ip_count g ip')"
  by (auto simp: release_ip_def ip_count_def Let_def split: option.split)

lemma freeze_session_slots [simp]:
  "gw_ipCount (freeze_session cfg env s c g) = gw_ipCount g" "gw_connRate (freeze_session cfg env s c g) = gw_connRate g"
  "t \<noteq> s \<Longrightarrow> js_get (gw_conns (freeze_session cfg env s c g)) t = js_get (gw_conns g) t"
  by (auto simp: freeze_session_def Let_def rememberLocal_def set_ctx_def split: option.split)

lemma close_handlers_slots:
  "gw_ipCount (close_first cfg env s cn g) = gw_ipCount (release_ip (cn_ip cn) g)"
  "gw_ipCount (close_second cfg env s cn g) = gw_ipCount (release_ip (cn_ip cn) g)"
  by (simp_all add: close_first_def close_second_def release_ip_def Let_def split: option.split)

lemma close_handlers_ip:
  "ip_count (close_first cfg env s cn g) ip = ip_count (release_ip (cn_ip cn) g) ip"
  "ip_count (close_second cfg env s cn g) ip = ip_count (release_ip (cn_ip cn) g) ip"
  by (simp_all add: ip_count_def close_handlers_slots)

text \<open>What a close event gives back to the address of the socket, and that it frees its rate window.\<close>

lemma on_close_slots:
  assumes "js_get (gw_conns g) s = Some cn"
  shows "ip_count (on_close cfg env s g) ip =
      (if ip = cn_ip cn
       then (case cn_stage cn of Refused \<Rightarrow> ip_count g ip | Authenticating \<Rightarrow> max 0 (ip_count g ip - 1)
             | _ \<Rightarrow> max 0 (ip_count g ip - 2))
       else ip_count g ip)"
    and "cn_stage cn \<noteq> Refused \<Longrightarrow> stamps (gw_connRate (on_close cfg env s g)) (cn_ip cn) = []"
    and "t \<noteq> s \<Longrightarrow> js_get (gw_conns (on_close cfg env s g)) t = js_get (gw_conns g) t"
proof -
  have same: "ip_count (g\<lparr>gw_conns := cs\<rparr>) ip = ip_count g ip" for cs ip by (simp add: ip_count_def)
  show "ip_count (on_close cfg env s g) ip =
      (if ip = cn_ip cn
       then (case cn_stage cn of Refused \<Rightarrow> ip_count g ip | Authenticating \<Rightarrow> max 0 (ip_count g ip - 1)
             | _ \<Rightarrow> max 0 (ip_count g ip - 2))
       else ip_count g ip)"
    using assms
    by (cases "cn_stage cn") (auto simp: on_close_def Let_def close_handlers_ip ip_count_release same)
  show "cn_stage cn \<noteq> Refused \<Longrightarrow> stamps (gw_connRate (on_close cfg env s g)) (cn_ip cn) = []"
    using assms
    by (cases "cn_stage cn")
      (simp_all add: on_close_def close_first_def close_second_def release_ip_def conn_cleanup_def stamps_def Let_def)
  show "js_get (gw_conns (on_close cfg env s g)) t = js_get (gw_conns g) t" if "t \<noteq> s"
    using assms that
    by (cases "cn_stage cn")
      (auto simp: on_close_def close_first_def close_second_def Let_def split: option.split)
qed

lemma on_connection_accepted:
  assumes "stamps (gw_connRate g) ip = replicate k (ge_now env)" and "int k < gc_connLimit cfg"
    and "ip_count g ip < gc_maxConnsPerIp cfg"
  shows "js_get (gw_conns (snd (on_connection cfg env s ip True g))) t =
      (if t = s then Some (new_conn env ip Authenticating) else js_get (gw_conns g) t)"
    and "ip_count (snd (on_connection cfg env s ip True g)) ip = ip_count g ip + 1"
    and "stamps (gw_connRate (snd (on_connection cfg env s ip True g))) ip = replicate (Suc k) (ge_now env)"
proof -
  obtain ok w where c: "conn_check (gc_connLimit cfg) (ge_now env) (gw_connRate g) ip = (ok, w)" by fastforce
  have "sorted (stamps (gw_connRate g) ip)" using assms(1) by simp
  from conn_check_stamps [OF this, of "gc_connLimit cfg" "ge_now env"] assms(1,2) c
  have ok: "ok" and w: "stamps w ip = replicate (Suc k) (ge_now env)" by (simp_all add: replicate_append_same)
  have "ip_count (g\<lparr>gw_connRate := w\<rparr>) ip = ip_count g ip" by (simp add: ip_count_def)
  with c ok w assms(3)
  show "js_get (gw_conns (snd (on_connection cfg env s ip True g))) t =
      (if t = s then Some (new_conn env ip Authenticating) else js_get (gw_conns g) t)"
    "ip_count (snd (on_connection cfg env s ip True g)) ip = ip_count g ip + 1"
    "stamps (gw_connRate (snd (on_connection cfg env s ip True g))) ip = replicate (Suc k) (ge_now env)"
    by (simp_all add: on_connection_def Let_def) (simp add: ip_count_def)
qed

lemma on_authenticated_slots:
  assumes "js_get (gw_conns g) s = Some cn" and "gc_sessions cfg = Some scfg"
  shows "ip_count (snd (on_authenticated cfg env s (AuthOk (JStr c)) ua g)) ip = ip_count g ip"
    and "gw_connRate (snd (on_authenticated cfg env s (AuthOk (JStr c)) ua g)) = gw_connRate g"
    and "\<exists>cn'. js_get (gw_conns (snd (on_authenticated cfg env s (AuthOk (JStr c)) ua g))) s = Some cn'
      \<and> cn_stage cn' = Resuming \<and> cn_open cn' = cn_open cn \<and> cn_ip cn' = cn_ip cn"
    and "t \<noteq> s \<Longrightarrow> js_get (gw_conns (snd (on_authenticated cfg env s (AuthOk (JStr c)) ua g))) t = js_get (gw_conns g) t"
  using assms by (simp_all add: on_authenticated_def ip_count_def)

text \<open>
  C27. What closing gives back. The close event of a socket that was refused returns no connection slot of
  its address, that of a socket still authenticating returns one, and that of an authenticated socket,
  which runs both handlers, returns two. The connections of other sockets stay as they are.
\<close>
theorem authenticated_close_frees_two:
  assumes "js_get (gw_conns g) s = Some cn" and "t \<noteq> s"
  shows "ip_count (on_close cfg env s g) ip =
      (if ip = cn_ip cn
       then (case cn_stage cn of Refused \<Rightarrow> ip_count g ip | Authenticating \<Rightarrow> max 0 (ip_count g ip - 1)
             | _ \<Rightarrow> max 0 (ip_count g ip - 2))
       else ip_count g ip)
    \<and> js_get (gw_conns (on_close cfg env s g)) t = js_get (gw_conns g) t"
  using on_close_slots(1,3) [OF assms(1)] assms(2) by simp

text \<open>
  So the ceiling on connections per address does not hold: with a ceiling of two, an address holds three
  open sockets after two connected, one of them closed and two more connected.
\<close>
theorem connection_ceiling_exceeded:
  "\<exists>g. gw_reachable gate_cfg (\<lambda>_. True) g \<and> gc_maxConnsPerIp gate_cfg = 2
    \<and> list_all (\<lambda>s. \<exists>cn. js_get (gw_conns g) s = Some cn \<and> cn_open cn \<and> cn_ip cn = ''ip'') [3, 4, 5]"
proof -
  let ?connect = "\<lambda>s g. snd (on_connection gate_cfg gate_env s ''ip'' True g)"
  have cfg: "gc_connLimit gate_cfg = 10" "gc_maxConnsPerIp gate_cfg = 2" "gc_sessions gate_cfg = Some sess_cfg"
    by (simp_all add: gate_cfg_def)
  define g1 where "g1 = ?connect 2 (gw_init gate_cfg)"
  define g2 where "g2 = snd (on_authenticated gate_cfg gate_env 2 (AuthOk (JStr ''c1'')) None g1)"
  define g3 where "g3 = ?connect 3 g2"
  define g4 where "g4 = on_close gate_cfg gate_env 2 g3"
  define g5 where "g5 = ?connect 4 g4"
  define g6 where "g6 = ?connect 5 g5"
  have i: "ip_count (gw_init gate_cfg) ''ip'' = 0" "stamps (gw_connRate (gw_init gate_cfg)) ''ip'' = replicate 0 (ge_now gate_env)"
    "js_get (gw_conns (gw_init gate_cfg)) t = None" for t
    by (simp_all add: gw_init_def ip_count_def stamps_def)
  note connect = on_connection_accepted [where cfg = gate_cfg and env = gate_env and ip = "''ip''", unfolded cfg]
  note v1 = connect [OF i(2), where s = 2, folded g1_def]
  have c1: "js_get (gw_conns g1) 2 = Some (new_conn gate_env ''ip'' Authenticating)" "ip_count g1 ''ip'' = 1"
    "stamps (gw_connRate g1) ''ip'' = replicate 1 (ge_now gate_env)"
    using v1 i(1) by simp_all
  note v2 = on_authenticated_slots [OF c1(1) cfg(3), where env = gate_env and c = "''c1''" and ua = None, folded g2_def]
  have c2: "ip_count g2 ''ip'' = 1" "stamps (gw_connRate g2) ''ip'' = replicate 1 (ge_now gate_env)"
    using v2(1) [of "''ip''"] c1(2,3) by (simp_all add: v2(2))
  note v3 = connect [OF c2(2), where s = 3, folded g3_def]
  have c3: "js_get (gw_conns g3) t = (if t = 3 then Some (new_conn gate_env ''ip'' Authenticating) else js_get (gw_conns g2) t)"
    "ip_count g3 ''ip'' = 2" for t
    using v3 c2(1) by simp_all
  obtain cn where cn: "js_get (gw_conns g3) 2 = Some cn" "cn_stage cn = Resuming" "cn_open cn" "cn_ip cn = ''ip''"
    using v2(3) by (auto simp: c3(1) new_conn_def)
  note v4 = on_close_slots [OF cn(1), where cfg = gate_cfg and env = gate_env, folded g4_def]
  have c4: "stamps (gw_connRate g4) ''ip'' = replicate 0 (ge_now gate_env)" "ip_count g4 ''ip'' = 0"
    using v4(2) v4(1) [of "''ip''"] c3(2) cn(2,4) by simp_all
  note v5 = connect [OF c4(1), where s = 4, folded g5_def]
  have c5: "js_get (gw_conns g5) t = (if t = 4 then Some (new_conn gate_env ''ip'' Authenticating) else js_get (gw_conns g4) t)"
    "ip_count g5 ''ip'' = 1" "stamps (gw_connRate g5) ''ip'' = replicate 1 (ge_now gate_env)" for t
    using v5 c4(2) by simp_all
  note v6 = connect [OF c5(3), where s = 5, folded g6_def]
  have c6: "js_get (gw_conns g6) t = (if t = 5 then Some (new_conn gate_env ''ip'' Authenticating) else js_get (gw_conns g5) t)" for t
    using v6(1) c5(2) by simp
  have absent: "js_get (gw_conns g2) t = None" if "t \<noteq> 2" for t using that v2(4) v1(1) i(1,3) by simp
  have r2: "gw_reachable gate_cfg (\<lambda>_. True) g2" using gate_reachable(1) [of "\<lambda>_. True" 2] by (simp add: gate_in_def g2_def g1_def)
  have r3: "gw_reachable gate_cfg (\<lambda>_. True) g3"
    unfolding g3_def by (rule gw_reachable_step [OF r2 g_connection [OF absent prod.collapse [symmetric]]]) simp
  have r4: "gw_reachable gate_cfg (\<lambda>_. True) g4"
    unfolding g4_def by (rule gw_reachable_step [OF r3 g_close [OF cn(1,3) refl]])
  have "gw_reachable gate_cfg (\<lambda>_. True) g5"
    unfolding g5_def
    by (rule gw_reachable_step [OF r4 g_connection [OF _ prod.collapse [symmetric]]]) (simp add: v4(3) c3(1) absent)
  then have "gw_reachable gate_cfg (\<lambda>_. True) g6"
    unfolding g6_def
    by (rule gw_reachable_step [OF _ g_connection [OF _ prod.collapse [symmetric]]]) (simp add: c5(1) v4(3) c3(1) absent)
  moreover have "js_get (gw_conns g6) t = Some (new_conn gate_env ''ip'' Authenticating)" if "t \<in> {3, 4, 5}" for t
    using that by (auto simp: c6 c5(1) v4(3) c3(1))
  ultimately show ?thesis by (intro exI [of _ g6]) (simp add: cfg new_conn_def)
qed

section \<open>Witnesses\<close>

definition gate_lib :: jwt_lib where
  "gate_lib = open_lib\<lparr>jwt_verify := (\<lambda>t k vo. Inr (JObj [(''sub'', JStr ''c1'')]))\<rparr>"

lemma gate_verified: "verified gate_lib jwks_env ''c1''"
proof -
  have "verifyConnection gate_lib jwks_env (Some ''good'') (Some one_key) = AuthOk (JStr ''c1'')" by code_simp
  then show ?thesis unfolding verified_def by blast
qed

lemma gate_valid [simp]: "valid_config (gc_rooms gate_cfg)" "gc_sessions gate_cfg = Some sess_cfg" "gc_maxMessages gate_cfg = 3"
  by (simp_all add: gate_cfg_def)

theorem members_are_verified_witness:
  "\<exists>t key payload. jwt_verify gate_lib t key (verify_options jwks_env) = Inr payload \<and> identity_of payload = JStr ''c1''"
  by (rule members_are_verified [OF gate_a_reachable [of "verified gate_lib jwks_env", OF gate_verified] gate_valid(1),
      of "''c1''" "''x''"])
    (simp add: gate_a_eval)

theorem gateway_consistent_witness:
  "rm_reachable default_config (gw_rooms gate_a) \<and> length (gw_local gate_a) \<le> MAX_LOCAL_SESSIONS
   \<and> int (length [50::int]) \<le> gc_maxMessages gate_cfg"
  using gateway_consistent [OF gate_a_reachable [of "\<lambda>_. True", OF TrueI] gate_valid(1), of "''c1''" 2 gate_env
      "gate_ctx\<lparr>cx_messageWindow := [50]\<rparr>"]
  by (simp add: gate_a_eval gate_cfg_def)

text \<open>An instance whose store holds the session that the blob of \<open>gate_moved\<close> names.\<close>

definition gate_d :: gw where
  "gate_d = (let g = gate_in 7 (gw_init gate_cfg)
    in g\<lparr>gw_sessions := (gw_sessions g)\<lparr>sm_memory :=
        [(storage_key ''c1'', \<lparr>me_value = gate_blob, me_expiresAt = 1050, me_firesAt = 1050\<rparr>)]\<rparr>\<rparr>)"

lemma gate_d_settled:
  assumes "ok ''c1''" shows "gw_settled gate_cfg ok gate_d"
proof -
  let ?g1 = "snd (on_connection gate_cfg gate_env 7 ''ip'' True (gw_init gate_cfg))"
  have kept0: "frozen_kept (gw_init gate_cfg) g" for g
    by (rule frozen_kept_none) (simp add: own_of_def ctx_of_def gw_init_def)
  have kept1: "frozen_kept ?g1 g" for g
    by (rule frozen_kept_none) (simp add: own_of_def ctx_of_def gate_entry split: if_splits)
  have kept2: "frozen_kept (gate_in 7 (gw_init gate_cfg)) g" for g
    by (rule frozen_kept_none) (auto simp: own_of_def ctx_of_def gate_entry split: if_splits)
  have "gw_settled gate_cfg ok ?g1"
    by (rule gw_settled_step [OF gw_settled_init g_connection [OF _ prod.collapse [symmetric]] kept0]) (simp add: gw_init_def)
  then have "gw_settled gate_cfg ok (gate_in 7 (gw_init gate_cfg))"
    unfolding gate_in_def
    by (rule gw_settled_step [OF _ g_authenticated [where cn = "new_conn gate_env ''ip'' Authenticating", OF _ _ _ prod.collapse [symmetric]] kept1])
      (use assms in \<open>simp_all add: on_connection_def conn_check_def gate_cfg_def gw_init_def ip_count_def new_conn_def stamps_def\<close>)
  then show ?thesis
    unfolding gate_d_def Let_def by (rule gw_settled_step [OF _ g_shared kept2]) simp
qed

lemma gate_d_resumes: "fst (resumeSession gate_cfg gate_env 7 (Some gate_blob) None None gate_d)"
proof -
  have "open_blob gate_crypto sess_cfg gate_blob = Some gate_session"
    unfolding gate_blob_def
    by (rule open_sealed [OF gate_crypto_ok, where k = "toy_key CHR ''k''" and c = "''c1''"])
      (simp_all add: demo_iv_def sess_cfg_def gate_session_def gate_crypto_def)
  moreover have "state_client gate_session = ''c1''" by (simp add: state_client_def gate_session_def)
  moreover have "gate_blob \<noteq> []" by (simp add: gate_blob_def seal_blob_def sess_cfg_def Let_def case_prod_beta)
  moreover have "gc_sessions gate_cfg = Some sess_cfg" "ge_crypto gate_env = gate_crypto" "ge_now gate_env = 50"
    by (simp_all add: gate_cfg_def gate_env_def)
  moreover have "ctx_of gate_d 7 = Some gate_ctx" using gate_in_eval [of 7] by (simp add: gate_d_def Let_def ctx_of_def)
  ultimately show ?thesis
    by (simp add: resumeSession_def load_def load_stored_def mem_get_def gate_d_def Let_def gate_ctx_def)
qed

theorem resumption_is_own_witness:
  "\<exists>st sm. state_client st = ''c1'' \<and> open_blob gate_crypto sess_cfg gate_blob = Some st
     \<and> snd (resumeSession gate_cfg gate_env 7 (Some gate_blob) None None gate_d)
         = restoreSession gate_cfg gate_env 7 st (gate_d\<lparr>gw_sessions := sm\<rparr>)"
proof -
  obtain b outs g' where r: "resumeSession gate_cfg gate_env 7 (Some gate_blob) None None gate_d = (b, outs, g')"
    by (metis prod_cases3)
  have ctx: "ctx_of gate_d 7 = Some gate_ctx" using gate_in_eval [of 7] by (simp add: gate_d_def Let_def ctx_of_def)
  have "gate_blob \<noteq> []" by (simp add: gate_blob_def seal_blob_def sess_cfg_def Let_def case_prod_beta)
  moreover have "b" using gate_d_resumes by (simp add: r)
  moreover have "ge_crypto gate_env = gate_crypto" by (simp add: gate_env_def)
  ultimately show ?thesis
    using resumption_is_own [OF gate_d_settled [of "\<lambda>_. True", OF TrueI] gate_valid(1,2) ctx _ r, of gate_blob "''c1''"]
    by (simp add: r gate_ctx_def)
qed

theorem no_burst_after_migration_witness:
  "int (length (pruneWindow gate_cfg 50 (pruneWindow gate_cfg 50 [50])))
     + int (length (times_of ''c1'' (fst (run_checks (rate_check 3)
         (gw_rate (snd (restoreSession gate_cfg gate_env 7 gate_session gate_b)))
         [(60, ''c1''), (70, ''c1''), (80, ''c1'')])))) \<le> 3"
proof -
  have rate: "gw_rate gate_b = []" by (simp add: gate_b_def Let_def gate_entry)
  have env: "ge_now gate_env = 50" by (simp add: gate_env_def)
  have st: "gate_session = captureState gate_cfg gate_env (gw_rooms gate_a) (gate_ctx\<lparr>cx_messageWindow := [50]\<rparr>)"
    by (simp add: gate_captured)
  show ?thesis
    using no_burst_after_migration [OF gate_b_eval _ gate_valid(2) _ _ _ st _ _ prod.collapse [symmetric],
        where c = "''c1''" and calls = "[(60, ''c1''), (70, ''c1''), (80, ''c1'')]" and env = gate_env]
    by (simp add: rate env gate_ctx_def stamps_Nil)
qed

theorem close_keeps_session_witness:
  "js_get (gw_local (on_close gate_cfg gate_env 2 gate_0)) ''c1'' =
     Some (captureState gate_cfg gate_env (gw_rooms gate_0) gate_ctx)"
  using close_keeps_session [OF gate_reachable(2) [of "\<lambda>_. True", OF TrueI] gate_valid(1,2) gate_0_eval(1) _ _ _ refl refl refl, where cx = gate_ctx and env = gate_env]
  by (simp add: gate_ctx_def)

theorem authenticated_close_frees_two_witness:
  "ip_count (on_close gate_cfg gate_env 2 gate_0) ''ip'' = max 0 (ip_count gate_0 ''ip'' - 2)"
  using authenticated_close_frees_two [OF gate_0_eval(1), of 3 gate_cfg gate_env "''ip''"] by simp

end
