(* ===== verification/GatewayTraffic.thy ===== *)
theory GatewayTraffic
  imports GatewayGuarantees
begin

text \<open>
  What \<open>src/server.js\<close> sends: the fan-out of a committed location, the cookie it hands out and reads
  back, the sockets the heartbeat ends; and what a refreshed token and a late resumption do.
\<close>

declare map_of_eq_Some_iff [simp del] Some_eq_map_of_iff [simp del]

section \<open>Delivery\<close>














section \<open>The affinity cookie\<close>

lemma find_cookie_pair:
  assumes "CHR ''='' \<notin> set n" and "set sp \<subseteq> {CHR '' ''}"
  shows "find_cookie name ((sp @ n @ ''='' @ v) # ps) = (if trim n = name then Some (trim v) else find_cookie name ps)"
proof -
  have "dropWhile is_space (sp @ n) = dropWhile is_space n"
    using assms(2) by (induction sp) (auto simp: is_space_def)
  then have "trim (sp @ n) = trim n" by (simp add: trim_def)
  moreover have "CHR ''='' \<notin> set (sp @ n)" using assms by auto
  then have "takeWhile (\<lambda>c. c \<noteq> CHR ''='') ((sp @ n) @ ''='' @ v) = sp @ n"
    "tl (dropWhile (\<lambda>c. c \<noteq> CHR ''='') ((sp @ n) @ ''='' @ v)) = v"
    by (induction "sp @ n" arbitrary: sp n) (auto simp: takeWhile_append dropWhile_append)
  ultimately show ?thesis by simp
qed

text \<open>A \<open>Cookie\<close> header with the given names and values.\<close>

definition cookie_header :: "(string \<times> string) list \<Rightarrow> string" where
  "cookie_header cs = join_with ''; '' (map (\<lambda>(n, v). n @ ''='' @ v) cs)"

definition cookie_pair :: "string \<times> string \<Rightarrow> bool" where
  "cookie_pair = (\<lambda>(n, v). CHR ''='' \<notin> set n \<and> CHR '';'' \<notin> set n \<and> CHR '';'' \<notin> set v \<and> trim n = n \<and> trim v = v)"

lemma split_cookies:
  assumes "\<forall>p\<in>set ((n, v) # cs). cookie_pair p"
  shows "split_on (CHR '';'') (cookie_header ((n, v) # cs)) =
    (n @ ''='' @ v) # map (\<lambda>(n, v). '' '' @ n @ ''='' @ v) cs"
  using assms
proof (induction cs arbitrary: n v)
  case Nil
  then show ?case by (simp add: cookie_header_def cookie_pair_def split_on_plain del: split_on.simps)
next
  case (Cons p cs)
  obtain n' v' where p: "p = (n', v')" by fastforce
  have sep: "CHR '';'' \<notin> set (n @ ''='' @ v)" using Cons.prems by (simp add: cookie_pair_def)
  have "cookie_header ((n, v) # p # cs) = (n @ ''='' @ v) @ CHR '';'' # CHR '' '' # cookie_header (p # cs)"
    by (simp add: cookie_header_def p)
  moreover have "split_on (CHR '';'') (CHR '' '' # cookie_header (p # cs)) =
      ('' '' @ n' @ ''='' @ v') # map (\<lambda>(n, v). '' '' @ n @ ''='' @ v) cs"
    using Cons.IH [of n' v'] Cons.prems p by simp
  ultimately show ?case using split_on_append [OF sep] by (simp add: p)
qed

lemma find_cookies:
  "\<forall>p\<in>set cs. cookie_pair p \<Longrightarrow> find_cookie name (map (\<lambda>(n, v). '' '' @ n @ ''='' @ v) cs) = map_of cs name"
proof (induction cs)
  case (Cons p cs)
  obtain n v where p: "p = (n, v)" by fastforce
  with Cons find_cookie_pair [of n "'' ''" name v] show ?case by (simp add: cookie_pair_def)
qed simp

text \<open>
  A cookie header is read back: \<open>readCookie\<close> finds the first value the header gives to a name, and
  nothing for a name it does not hold, when names and values are as the cookie syntax has them, without
  separators and outer blanks. So an instance recognises the affinity cookie it set.
\<close>
theorem cookies_read_back:
  assumes "\<forall>p\<in>set cs. cookie_pair p"
  shows "readCookie (Some (cookie_header cs)) name = map_of cs name"
proof (cases cs)
  case Nil
  then show ?thesis by (simp add: readCookie_def cookie_header_def)
next
  case (Cons p rest)
  obtain n v where p: "p = (n, v)" by fastforce
  have "cookie_pair (n, v)" and rest: "\<forall>p\<in>set rest. cookie_pair p" using assms Cons p by auto
  then show ?thesis
    using split_cookies [of n v rest] assms find_cookie_pair [of n "[]" name v] find_cookies [OF rest]
    by (simp add: readCookie_def Cons p cookie_pair_def del: find_cookie.simps)
qed

theorem cookies_read_back_witness:
  "readCookie (Some (cookie_header [(''lang'', ''de''), (AFFINITY_COOKIE, ''gw1'')])) AFFINITY_COOKIE = Some ''gw1''"
  using cookies_read_back [of "[(''lang'', ''de''), (AFFINITY_COOKIE, ''gw1'')]" AFFINITY_COOKIE]
  by (simp add: cookie_pair_def AFFINITY_COOKIE_def trim_def is_space_def)

section \<open>Refreshed tokens\<close>

text \<open>No frame changes how far a connection is, or whose it is.\<close>

lemma on_message_id: "conn_id (snd (on_message cfg env t c d g)) s = conn_id g s"
proof -
  have metric: "conn_id (metric f g) s = conn_id g s" for f g by (simp add: metric_def conn_id_def)
  have acked: "conn_id (note_acked t r n g) s = conn_id g s" for r n g by (simp add: note_acked_def split: option.split)
  have "conn_id (snd (on_join cfg env t c r g)) s = conn_id g s" for r
    by (simp add: on_join_def case_prod_beta Let_def metric split: option.split)
  moreover have "conn_id (snd (on_leave cfg env t c r g)) s = conn_id g s" for r
    by (simp add: on_leave_def Let_def metric split: option.split)
  moreover have "conn_id (snd (on_reconnect cfg env t c r l h g)) s = conn_id g s" for r l h
    by (simp add: on_reconnect_def acked)
  moreover have "conn_id (snd (on_ack cfg env t c r n g)) s = conn_id g s" for r n
    by (simp add: on_ack_def Let_def metric acked)
  moreover have "conn_id (snd (on_nack env c r n x g)) s = conn_id g s" for r n x
    by (simp add: on_nack_def Let_def metric)
  moreover have "conn_id (snd (on_location env t c d g)) s = conn_id g s"
    by (simp add: on_location_def Let_def metric_def conn_id_def split: sum.split)
  moreover have "conn_id (snd (on_token_refresh env t x g)) s = conn_id g s" for x
    by (simp add: on_token_refresh_def)
  ultimately show ?thesis by (simp add: on_message_def Let_def split: option.split)
qed

lemma on_frame_id: "conn_id (snd (on_frame cfg env t raw g)) s = conn_id g s"
  by (auto simp: on_frame_def case_prod_beta Let_def on_message_id split: option.split sum.split)

text \<open>
  A refreshed token moves the client. Its rooms, with their sockets, go from the old identity to the
  new one, and so does the live entry; the rate window of the old identity is dropped, also when the new
  token names the same client.
\<close>
theorem refresh_moves_client:
  assumes "gw_reachable cfg ok g" and "valid_config (gc_rooms cfg)" and "js_get (gw_conns g) s = Some cn"
    and "cn_stage cn = Live" and "old = identity_of_sock g s" and "on_refreshed cfg env s (AuthOk (JStr new)) g = (outs, g')"
  shows "membership_of (gw_rooms g') c r =
      (if old = new then membership_of (gw_rooms g) c r
       else if c = old then None
       else if c = new \<and> membership_of (gw_rooms g) old r \<noteq> None then membership_of (gw_rooms g) old r
       else membership_of (gw_rooms g) c r)
    \<and> stamps (gw_rate g') old = []
    \<and> (cn_ctx cn \<noteq> None \<and> old \<noteq> new \<longrightarrow> js_get (gw_live g') new = Some s \<and> js_get (gw_live g') old \<noteq> Some s)"
proof -
  have "member_inv (gw_rooms g)"
    using gw_reachable_inv [OF assms(1,2)] rooms_ok_inv [of cfg ok "gw_rooms g"] assms(2) by (simp add: gw_inv_def rm_inv_def)
  then have "membership_of (rename_member (gc_rooms cfg) old new (gw_rooms g)) c r =
      (if old = new then membership_of (gw_rooms g) c r
       else if c = old then None
       else if c = new \<and> membership_of (gw_rooms g) old r \<noteq> None then membership_of (gw_rooms g) old r
       else membership_of (gw_rooms g) c r)"
    by (cases "old = new") (simp_all add: membership_rename rename_member_def [of _ new new])
  moreover have "gw_rooms g' = rename_member (gc_rooms cfg) old new (gw_rooms g)"
    "gw_rate g' = rate_remove old (gw_rate g)"
    using assms(3,6)
    by (auto simp: on_refreshed_def Let_def assms(5) split: option.splits if_splits)
  moreover have "js_get (gw_live g') new = Some s \<and> js_get (gw_live g') old \<noteq> Some s" if "cn_ctx cn \<noteq> None" "old \<noteq> new"
    using assms(3,6) that
    by (auto simp: on_refreshed_def Let_def assms(5) ctx_of_def split: option.splits if_splits)
  ultimately show ?thesis by (simp add: rate_remove_def stamps_def)
qed

section \<open>Joins on the demo instance\<close>

lemma gate_join_rooms:
  assumes "js_get (gw_conns g) s = Some cn" and "cn_stage cn = Live" and "cn_identity cn = Some c" and "stamps (gw_rate g) c = []"
  shows "gw_rooms (snd (on_frame gate_cfg gate_env s ''join'' g)) = snd (join_member default_config 0 c ''x'' s (gw_rooms g))"
    "d \<noteq> c \<Longrightarrow> stamps (gw_rate (snd (on_frame gate_cfg gate_env s ''join'' g))) d = stamps (gw_rate g) d"
proof -
  have "identity_of_sock g s = c" using assms(1,3) by (simp add: identity_of_sock_def)
  moreover have "fst (rate_check 3 (ge_now gate_env) (gw_rate g) c)" using assms(4) by (simp add: rate_check_def Let_def)
  ultimately show "gw_rooms (snd (on_frame gate_cfg gate_env s ''join'' g)) = snd (join_member default_config 0 c ''x'' s (gw_rooms g))"
    "d \<noteq> c \<Longrightarrow> stamps (gw_rate (snd (on_frame gate_cfg gate_env s ''join'' g))) d = stamps (gw_rate g) d"
    using assms(1,2) gate_parse
    by (simp_all add: on_frame_def on_message_def str_prop_def on_join_def case_prod_beta Let_def gate_cfg_def split: option.splits)
       (simp_all add: gate_env_def metric_def rate_check_def Let_def stamps_def)
qed

theorem refresh_moves_client_witness:
  "membership_of (gw_rooms (snd (on_refreshed gate_cfg gate_env 2 (AuthOk (JStr ''c2'')) gate_a))) ''c2'' ''x''
     = membership_of (gw_rooms gate_a) ''c1'' ''x''"
proof -
  have "conn_id gate_a 2 = Some (Live, Some ''c1'')"
    using on_frame_id by (simp add: gate_a_def conn_id_def gate_0_eval)
  then obtain cn where cn: "js_get (gw_conns gate_a) 2 = Some cn" "cn_stage cn = Live" "cn_identity cn = Some ''c1''"
    by (auto simp: conn_id_def)
  then have id: "identity_of_sock gate_a 2 = ''c1''" by (simp add: identity_of_sock_def)
  have "gw_rooms gate_a = snd (join_member default_config 0 ''c1'' ''x'' 2 rm_init)"
    unfolding gate_a_def by (subst gate_join_rooms(1) [OF gate_0_eval(1)]) (simp_all add: gate_0_eval stamps_Nil)
  moreover have "membership_of (snd (join_member default_config 0 ''c1'' ''x'' 2 rm_init)) ''c1'' ''x'' = Some 2" by code_simp
  ultimately have "membership_of (gw_rooms gate_a) ''c1'' ''x'' \<noteq> None" by simp
  with refresh_moves_client [OF gate_a_reachable [of "\<lambda>_. True", OF TrueI] gate_valid(1) cn(1,2) refl prod.collapse [symmetric],
      of gate_env "''c2''" "''c2''" "''x''"]
  show ?thesis by (simp add: id)
qed











end
