(* ===== verification/Startup.thy ===== *)
theory Startup
  imports GatewayDispatch MemoryStorage
begin

text \<open>
  How the process is put together and taken down: the configuration of \<open>src/index.js\<close>, the storage
  adapters of \<open>src/storage.js\<close>, the factory and the contract checks of \<open>src/storage/\<close>, and the graceful
  shutdown. The environment is an argument \<open>env\<close>; \<open>None\<close> as a number is \<open>NaN\<close>.
\<close>

section \<open>Numbers of the environment\<close>

text \<open>\<open>parseInt(s, 10)\<close>: the digits after white space and a sign, as far as they go.\<close>

definition parseInt :: "string \<Rightarrow> int option" where
  "parseInt s =
     (let t = trim s;
          signed = (t \<noteq> [] \<and> (hd t = CHR ''-'' \<or> hd t = CHR ''+''));
          n = map_option int (parse_nat (takeWhile is_digit (if signed then tl t else t)))
      in if signed \<and> hd t = CHR ''-'' then map_option uminus n else n)"

definition int_env :: "(string \<Rightarrow> string option) \<Rightarrow> string \<Rightarrow> string \<Rightarrow> int option" where
  "int_env env name d = parseInt (case env name of Some s \<Rightarrow> s | None \<Rightarrow> d)"

section \<open>Configuration\<close>

record start_config =
  st_port :: "int option"
  st_heartbeatMs :: "int option"
  st_maxPayloadBytes :: "int option"
  st_encryptionKey :: "string option"
  st_sessionTtlMs :: "int option option"
  st_instanceId :: "string option"

definition set_env :: "(string \<Rightarrow> string option) \<Rightarrow> string \<Rightarrow> string option" where
  "set_env env name = (case env name of Some s \<Rightarrow> if s \<noteq> [] then Some s else None | None \<Rightarrow> None)"

definition parseConfig :: "(string \<Rightarrow> string option) \<Rightarrow> start_config" where
  "parseConfig env = \<lparr>st_port = int_env env ''PORT'' ''8080'', st_heartbeatMs = int_env env ''WS_HEARTBEAT_MS'' ''30000'',
     st_maxPayloadBytes = int_env env ''MAX_PAYLOAD_BYTES'' ''1024'', st_encryptionKey = set_env env ''SESSION_ENCRYPTION_KEY'',
     st_sessionTtlMs = map_option parseInt (set_env env ''SESSION_TTL_MS''), st_instanceId = set_env env ''INSTANCE_ID''\<rparr>"

definition below_one :: "int option \<Rightarrow> bool" where
  "below_one x = (case x of None \<Rightarrow> True | Some n \<Rightarrow> n < 1)"

text \<open>The name of the first variable refused; the process then exits with 1.\<close>

definition refused_variable :: "start_config \<Rightarrow> string option" where
  "refused_variable c =
     (if below_one (st_port c) \<or> (case st_port c of Some p \<Rightarrow> p > 65535 | None \<Rightarrow> True) then Some ''PORT''
      else if below_one (st_heartbeatMs c) then Some ''WS_HEARTBEAT_MS''
      else if below_one (st_maxPayloadBytes c) then Some ''MAX_PAYLOAD_BYTES''
      else (case st_sessionTtlMs c of
              Some ttl \<Rightarrow> if below_one ttl then Some ''SESSION_TTL_MS'' else None
            | None \<Rightarrow> None))"

section \<open>The adapters of the server\<close>

datatype simple_store = NullAdapter | PostgresStore string

definition first_of :: "'a option \<Rightarrow> 'a option \<Rightarrow> 'a option \<Rightarrow> 'a option" where
  "first_of x y z = or_else x (or_else y z)"

definition createSimpleStore :: "string option \<Rightarrow> string option \<Rightarrow> (string \<Rightarrow> string option) \<Rightarrow> simple_store" where
  "createSimpleStore url connectionString env =
     (case first_of url connectionString (env ''DATABASE_URL'') of
        Some s \<Rightarrow> if s \<noteq> [] then PostgresStore s else NullAdapter
      | None \<Rightarrow> NullAdapter)"

record location_row =
  lo_client_id :: string
  lo_room_id :: string
  lo_latitude :: real
  lo_longitude :: real
  lo_altitude :: "real option"
  lo_accuracy :: "real option"
  lo_speed :: "real option"
  lo_recorded_at :: json

text \<open>The row of a location; the insert fails without a coordinate. \<open>now_iso\<close> is the current time as text.\<close>

definition saveLocation :: "string \<Rightarrow> simple_store \<Rightarrow> clientId \<Rightarrow> roomId \<Rightarrow> EventStore.payload \<Rightarrow> location_row list \<Rightarrow> location_row list option" where
  "saveLocation now_iso st c r p rows =
     (case st of
        NullAdapter \<Rightarrow> Some rows
      | PostgresStore _ \<Rightarrow>
          (let recordedAt = (case js_get (p_rest p) ''timestamp'' of
                               None \<Rightarrow> JStr now_iso | Some JNull \<Rightarrow> JStr now_iso | Some v \<Rightarrow> v)
           in case (p_latitude p, p_longitude p) of
                (Some lat, Some lon) \<Rightarrow>
                  Some (rows @ [\<lparr>lo_client_id = c, lo_room_id = r, lo_latitude = lat, lo_longitude = lon, lo_altitude = p_altitude p,
                                 lo_accuracy = p_accuracy p, lo_speed = p_speed p, lo_recorded_at = recordedAt\<rparr>])
              | _ \<Rightarrow> None))"

section \<open>The storage factory\<close>

record storage_settings =
  ss_connectionString :: string
  ss_poolSize :: "int option"
  ss_batchSize :: "int option"
  ss_flushIntervalMs :: "int option"
  ss_maxBufferSize :: "int option"
  ss_rawDays :: "int option"
  ss_minuteDays :: "int option"
  ss_hourDays :: "int option"
  ss_dayDays :: "int option"
  ss_compactionIntervalMs :: "int option"
  ss_compactionBatchSize :: "int option"
  ss_timescale :: bool

record factory_config =
  fc_adapter :: "string option"
  fc_connectionString :: "string option"
  fc_numbers :: "string \<Rightarrow> int option"
  fc_timescale :: "bool option"

datatype storage_kind = PostgresKind storage_settings | MemoryKind | NoneKind

definition lower_char :: "char \<Rightarrow> char" where
  "lower_char c = (let n = of_char c :: nat in if 65 \<le> n \<and> n \<le> 90 then char_of (n + 32) else c)"

text \<open>\<open>config.x ?? parseInt(process.env.X ?? d, 10)\<close>\<close>

definition number_setting :: "factory_config \<Rightarrow> (string \<Rightarrow> string option) \<Rightarrow> string \<Rightarrow> string \<Rightarrow> string \<Rightarrow> int option" where
  "number_setting c env key name d = (case fc_numbers c key of Some n \<Rightarrow> Some n | None \<Rightarrow> int_env env name d)"

definition storage_settings_of :: "factory_config \<Rightarrow> (string \<Rightarrow> string option) \<Rightarrow> string \<Rightarrow> storage_settings" where
  "storage_settings_of c env s =
     \<lparr>ss_connectionString = s,
      ss_poolSize = number_setting c env ''poolSize'' ''STORAGE_POOL_SIZE'' ''10'',
      ss_batchSize = number_setting c env ''batchSize'' ''STORAGE_BATCH_SIZE'' ''100'',
      ss_flushIntervalMs = number_setting c env ''flushIntervalMs'' ''STORAGE_FLUSH_INTERVAL_MS'' ''1000'',
      ss_maxBufferSize = number_setting c env ''maxBufferSize'' ''STORAGE_MAX_BUFFER_SIZE'' ''10000'',
      ss_rawDays = number_setting c env ''rawRetentionDays'' ''STORAGE_RAW_RETENTION_DAYS'' ''7'',
      ss_minuteDays = number_setting c env ''downsample1mRetentionDays'' ''STORAGE_1M_RETENTION_DAYS'' ''90'',
      ss_hourDays = number_setting c env ''downsample1hRetentionDays'' ''STORAGE_1H_RETENTION_DAYS'' ''365'',
      ss_dayDays = number_setting c env ''aggregate1dRetentionDays'' ''STORAGE_1D_RETENTION_DAYS'' ''2555'',
      ss_compactionIntervalMs = number_setting c env ''compactionIntervalMs'' ''STORAGE_COMPACTION_INTERVAL_MS'' ''300000'',
      ss_compactionBatchSize = number_setting c env ''compactionBatchSize'' ''STORAGE_COMPACTION_BATCH_SIZE'' ''10000'',
      ss_timescale = (case fc_timescale c of Some b \<Rightarrow> b | None \<Rightarrow> env ''TIMESCALEDB_ENABLED'' = Some ''true'')\<rparr>"

text \<open>The contract checks: every required method has to be a function.\<close>

definition required_methods :: "string list" where
  "required_methods = [''writeBatch'', ''queryRoom'', ''querySpatial'', ''getLatest'', ''close'', ''compact'', ''getCompactionStatus'']"

definition assertStorageAdapter :: "(string \<Rightarrow> bool) \<Rightarrow> string option" where
  "assertStorageAdapter is_function =
     (let missing = filter (\<lambda>m. \<not> is_function m) required_methods
      in if missing \<noteq> [] then Some (''StorageAdapter is missing required method(s): '' @ join_with '', '' missing) else None)"

definition assertEventStore :: "(string \<Rightarrow> bool) \<Rightarrow> string option" where
  "assertEventStore is_function =
     (let missing = filter (\<lambda>m. \<not> is_function m)
            [''append'', ''getEvents'', ''getEventsByCorrelation'', ''getSnapshot'', ''saveSnapshot'', ''close'']
      in if missing \<noteq> [] then Some (''EventStore is missing required method(s): '' @ join_with '', '' missing) else None)"

text \<open>The public methods of the three classes.\<close>

definition class_methods :: "storage_kind \<Rightarrow> string list" where
  "class_methods k =
     [''writeBatch'', ''queryRoom'', ''querySpatial'', ''getLatest'', ''close'', ''compact'', ''getCompactionStatus'']
     @ (case k of PostgresKind _ \<Rightarrow> [''stopCompactionScheduler'', ''runCompaction''] | MemoryKind \<Rightarrow> [''clear''] | NoneKind \<Rightarrow> [])"

definition createStorageAdapter :: "factory_config \<Rightarrow> (string \<Rightarrow> string option) \<Rightarrow> string + storage_kind" where
  "createStorageAdapter c env =
     (let adapterName = map lower_char (case first_of (fc_adapter c) (env ''STORAGE_ADAPTER'') None of Some n \<Rightarrow> n | None \<Rightarrow> ''memory'');
          checked = (\<lambda>k. case assertStorageAdapter (\<lambda>m. m \<in> set (class_methods k)) of Some e \<Rightarrow> Inl e | None \<Rightarrow> Inr k)
      in if adapterName = ''postgres'' then
           (case first_of (fc_connectionString c) (env ''DATABASE_URL'') None of
              Some s \<Rightarrow>
                if s \<noteq> [] then checked (PostgresKind (storage_settings_of c env s))
                else Inl ''STORAGE_ADAPTER=postgres requires DATABASE_URL (or config.connectionString) to be set''
            | None \<Rightarrow> Inl ''STORAGE_ADAPTER=postgres requires DATABASE_URL (or config.connectionString) to be set'')
         else if adapterName = ''memory'' then checked MemoryKind
         else if adapterName = ''none'' then checked NoneKind
         else Inl (''Unknown storage adapter: '' @ quote adapterName @ ''. Valid values are '' @ quote ''postgres'' @ '', ''
                   @ quote ''memory'' @ '', '' @ quote ''none'' @ ''.''))"

text \<open>The adapter that discards every write.\<close>

definition none_writeBatch :: "loc_event list \<Rightarrow> unit" where
  "none_writeBatch es = ()"

definition none_queryRoom :: "string \<Rightarrow> query \<Rightarrow> loc_event list" where
  "none_queryRoom r q = []"

definition none_querySpatial :: "bounds \<Rightarrow> int option \<Rightarrow> loc_event list" where
  "none_querySpatial b l = []"

definition none_getLatest :: "string \<Rightarrow> loc_event option" where
  "none_getLatest r = None"

definition none_compact :: "compact_args \<Rightarrow> compaction_result" where
  "none_compact args = \<lparr>cr_rawDeleted = 0, cr_downsample1m = 0, cr_aggregate1h = 0, cr_aggregate1d = 0\<rparr>"

definition none_status :: "time option \<times> time option \<times> tier_status list" where
  "none_status = (None, None, map (\<lambda>n. \<lparr>ts_name = n, ts_rows = 0, ts_sizeBytes = 0, ts_oldest = None, ts_newest = None\<rparr>)
     [''raw'', ''1m'', ''1h'', ''1d''])"

section \<open>Shutdown\<close>

text \<open>A client of the server: its state, its send buffer, the notices it was sent and its close code.\<close>

record drain_client =
  dc_id :: string
  dc_open :: bool
  dc_buffered :: int
  dc_notices :: "string option list"
  dc_code :: "int option"

text \<open>\<open>sd_poll\<close> is the deadline of the poll, \<open>sd_force\<close> the armed exit timer.\<close>

record shutdown_state =
  sd_clients :: "drain_client list"
  sd_poll :: "time option"
  sd_force :: bool
  sd_exit :: "int option"

definition begin_shutdown :: "drain_client list \<Rightarrow> shutdown_state" where
  "begin_shutdown cs = \<lparr>sd_clients = cs, sd_poll = None, sd_force = True, sd_exit = None\<rparr>"

text \<open>\<open>blobs\<close> are the saved sessions, \<open>None\<close> without a session manager or after a failed save.\<close>

definition notify_client :: "(string, string) jsmap option \<Rightarrow> (string \<Rightarrow> bool) \<Rightarrow> drain_client \<Rightarrow> drain_client" where
  "notify_client blobs send_fails c =
     (if send_fails (dc_id c) then c
      else let sessionId = Option.bind blobs (\<lambda>m. js_get m (dc_id c))
           in c\<lparr>dc_notices := dc_notices c @ [case sessionId of Some s \<Rightarrow> if s \<noteq> [] then Some s else None | None \<Rightarrow> None]\<rparr>)"

definition notifyClients :: "(string, string) jsmap option \<Rightarrow> (string \<Rightarrow> bool) \<Rightarrow> shutdown_state \<Rightarrow> shutdown_state" where
  "notifyClients blobs send_fails s = s\<lparr>sd_clients := map (notify_client blobs send_fails) (sd_clients s)\<rparr>"

definition closeConnections :: "shutdown_state \<Rightarrow> shutdown_state" where
  "closeConnections s = s\<lparr>sd_clients := map (\<lambda>c. if dc_open c then c\<lparr>dc_open := False, dc_code := Some 1001\<rparr> else c) (sd_clients s)\<rparr>"

definition start_drain :: "time \<Rightarrow> shutdown_state \<Rightarrow> shutdown_state" where
  "start_drain now s = (if sd_clients s = [] then closeConnections s else s\<lparr>sd_poll := Some (now + 3500)\<rparr>)"

definition drain_poll :: "time \<Rightarrow> shutdown_state \<Rightarrow> shutdown_state" where
  "drain_poll now s =
     (case sd_poll s of
        None \<Rightarrow> s
      | Some deadline \<Rightarrow>
          let allDrained = (\<forall>c\<in>set (sd_clients s). \<not> (dc_open c \<and> dc_buffered c > 0))
          in if allDrained \<or> now \<ge> deadline then closeConnections (s\<lparr>sd_poll := None\<rparr>) else s)"

definition force_exit :: "shutdown_state \<Rightarrow> shutdown_state" where
  "force_exit s = (if sd_force s then s\<lparr>sd_exit := Some 1\<rparr> else s)"

text \<open>The callback of \<open>wss.close\<close>, when no connection is left.\<close>

definition server_closed :: "shutdown_state \<Rightarrow> shutdown_state" where
  "server_closed s = (if sd_clients s = [] then s\<lparr>sd_force := False, sd_exit := Some 0\<rparr> else s)"

text \<open>What can happen until the process exits: the timers, and the clients' own moves.\<close>

inductive shutdown_step :: "shutdown_state \<Rightarrow> shutdown_state \<Rightarrow> bool" where
  sd_notify: "sd_exit s = None \<Longrightarrow> shutdown_step s (notifyClients blobs fails s)"
| sd_start: "sd_exit s = None \<Longrightarrow> shutdown_step s (start_drain now s)"
| sd_tick: "sd_exit s = None \<Longrightarrow> shutdown_step s (drain_poll now s)"
| sd_kill: "sd_exit s = None \<Longrightarrow> shutdown_step s (force_exit s)"
| sd_done: "sd_exit s = None \<Longrightarrow> shutdown_step s (server_closed s)"
| sd_gone: "sd_exit s = None \<Longrightarrow> shutdown_step s (s\<lparr>sd_clients := filter (\<lambda>c. dc_id c \<noteq> i) (sd_clients s)\<rparr>)"
| sd_sent: "sd_exit s = None \<Longrightarrow>
    shutdown_step s (s\<lparr>sd_clients := map (\<lambda>c. if dc_id c = i then c\<lparr>dc_buffered := n\<rparr> else c) (sd_clients s)\<rparr>)"

inductive_cases shutdown_stepE: "shutdown_step s s'"

section \<open>What start-up and shutdown guarantee\<close>

lemma accepted_config:
  assumes "refused_variable (parseConfig env) = None"
  shows "\<exists>port heartbeat bytes. st_port (parseConfig env) = Some port \<and> 1 \<le> port \<and> port \<le> 65535
    \<and> st_heartbeatMs (parseConfig env) = Some heartbeat \<and> 1 \<le> heartbeat
    \<and> st_maxPayloadBytes (parseConfig env) = Some bytes \<and> 1 \<le> bytes"
  using assms by (auto simp: refused_variable_def below_one_def split: if_splits option.splits)

lemma default_numbers: "parseInt ''8080'' = Some 8080" "parseInt ''30000'' = Some 30000" "parseInt ''1024'' = Some 1024"
  by (simp_all add: parseInt_def trim_def is_space_def is_digit_def parse_nat_def)

lemma default_config: "refused_variable (parseConfig (\<lambda>_. None)) = None"
  by (simp add: refused_variable_def parseConfig_def int_env_def set_env_def below_one_def default_numbers)

text \<open>What the factory builds passes the contract check: it fails only for a missing URL or an unknown name.\<close>

lemma classes_conform: "assertStorageAdapter (\<lambda>m. m \<in> set (class_methods k)) = None"
  by (simp add: assertStorageAdapter_def required_methods_def class_methods_def)

lemma factory_fails:
  "isl (createStorageAdapter c env) \<longleftrightarrow>
     (let name = map lower_char (case first_of (fc_adapter c) (env ''STORAGE_ADAPTER'') None of Some n \<Rightarrow> n | None \<Rightarrow> ''memory'');
          url = first_of (fc_connectionString c) (env ''DATABASE_URL'') None
      in name \<noteq> ''memory'' \<and> name \<noteq> ''none'' \<and> (name = ''postgres'' \<longrightarrow> url = None \<or> url = Some []))"
  by (auto simp: createStorageAdapter_def classes_conform Let_def split: option.split)

text \<open>A client is closed by a step only when no open client has anything left to send, or at the deadline.\<close>

lemma closes_when_drained:
  assumes "shutdown_step s s'" and "c' \<in> set (sd_clients s')" and "dc_code c' \<noteq> None"
    and "\<forall>c\<in>set (sd_clients s). dc_id c = dc_id c' \<longrightarrow> dc_code c = None"
  shows "\<exists>deadline. sd_poll s = Some deadline \<and> sd_poll s' = None \<and> dc_code c' = Some 1001"
  using assms(1)
proof cases
  case (sd_tick now)
  then show ?thesis
    using assms(2-) by (auto simp: drain_poll_def closeConnections_def Let_def split: option.splits if_splits)
qed (use assms(2-) in \<open>auto simp: notifyClients_def notify_client_def start_drain_def closeConnections_def force_exit_def
    server_closed_def Let_def split: if_splits\<close>)

text \<open>The process exits with 0 only when every connection is gone, and once.\<close>

lemma exit_code:
  assumes "shutdown_step s s'" and "sd_exit s' = Some n"
  shows "(n = 0 \<and> sd_clients s' = []) \<or> (n = 1 \<and> sd_force s)"
  using assms by (cases) (auto simp: notifyClients_def start_drain_def closeConnections_def drain_poll_def force_exit_def
      server_closed_def Let_def split: if_splits option.splits)

end
