(* ===== verification/Spec2Isabelle.thy ===== *)
theory Spec2Isabelle
  imports RoomProperties RegionProperties RateLimit CommandProperties ProjectionProperties SqlSinkProperties
    PgEventProperties SessionProperties MemoryStorageProperties PgStorageProperties
    PredictorProperties ValidatorProperties Auth GatewayProperties GatewayGuarantees GatewayTraffic Startup
begin

text \<open>
  \<^bold>\<open>Verification of the real-time spatial tracking gateway.\<close>

  The gateway accepts WebSocket connections from tracked devices, authenticates them, keeps them in rooms,
  and forwards the positions they publish to the rooms, to an event store and to a database.

  \<^bold>\<open>The program\<close> (\<open>src/\<close>) \<^bold>\<open>and the theories\<close>

  \<^item> \<open>server.js\<close>: the connection handler, the message handler, resumption, migration, the heartbeat, the HTTP
    end points. It calls everything below. \<open>Gateway\<close> (state, contexts, resumption, sockets),
    \<open>GatewayDispatch\<close> (delivery of committed events, commands), \<open>GatewayMessages\<close> (the cases of the message
    handler), \<open>GatewayMachine\<close> (a step relation of the whole server over the models of its parts and the
    invariant of its reachable states), \<open>GatewayOwnership\<close> (whose states its session cache holds),
    \<open>GatewayProperties\<close>, \<open>GatewayGuarantees\<close>, \<open>GatewayTraffic\<close>.
  \<^item> \<open>room-manager.js\<close>: rooms, sequence numbers, replay buffers, deduplication, acknowledgements, flow
    control, circuit breaker. \<open>RoomManager\<close> (state), \<open>RoomMembership\<close> (join, leave, disconnect, rename),
    \<open>RoomBroadcast\<close> and \<open>RoomDelivery\<close> (broadcast, replay, acknowledgement, resend), \<open>RoomMachine\<close> (the
    operations as steps, the invariant), \<open>RoomProperties\<close>.
  \<^item> \<open>multi-region.js\<close>: \<open>Clocks\<close> (hybrid logical and vector clocks), \<open>Crdt\<close> (ORSet), \<open>Rga\<close>
    (RGASequence), \<open>Lww\<close> (LWWMap, LWWElementSet), \<open>MultiRegion\<close> (MultiRegionCoordinator),
    \<open>RegionProperties\<close>.
  \<^item> \<open>event-sourcing.js\<close>: \<open>EventStore\<close> (events, InMemoryEventStore), \<open>Aggregates\<close> (the aggregates and
    AggregateRepository), \<open>Commands\<close> (commands, handlers, CommandHandler), \<open>Projections\<close> (ProjectionManager,
    the projections, MemoryProjectionSink), \<open>PgEventStore\<close> (PostgresEventStore), \<open>SqlSink\<close>
    (SqlProjectionSink); \<open>EventMachine\<close> and \<open>HandlerRuns\<close> (the steps and invariant of the write side),
    \<open>EventProperties\<close>, \<open>CommandProperties\<close>, \<open>ProjectionProperties\<close>, \<open>PgEventProperties\<close>,
    \<open>SqlSinkProperties\<close>.
  \<^item> \<open>session-manager.js\<close>: \<open>Sessions\<close>, \<open>SessionProperties\<close>.
  \<^item> \<open>storage/\<close>: \<open>MemoryStorage\<close> and \<open>MemoryStorageProperties\<close> (MemoryAdapter); for PostgresAdapter
    \<open>PgPipeline\<close> (buffer, flushes, close) with \<open>PgPipelineProperties\<close>, and \<open>PgCompaction\<close> (tables,
    compaction, queries) with \<open>PgCompactionProperties\<close>, and \<open>PgStorageProperties\<close> for both. \<open>PgRows\<close> holds
    what both PostgreSQL models share: the order in which a statement visits its rows.
  \<^item> \<open>predictor.js\<close>: \<open>Kalman\<close> and \<open>KalmanProperties\<close> (filter, geodesy), \<open>Predictor\<close> and
    \<open>PredictorProperties\<close> (the engine).
  \<^item> \<open>validator.js\<close>: \<open>Validator\<close>, \<open>ValidatorProperties\<close>. \<open>auth.js\<close>: \<open>Auth\<close>. \<open>rate-limiter.js\<close>,
    \<open>conn-rate-limiter.js\<close>: \<open>RateLimit\<close>.
  \<^item> \<open>index.js\<close>, \<open>storage.js\<close>, \<open>storage/index.js\<close>, \<open>storage/adapter.js\<close>: \<open>Startup\<close> (configuration, factories,
    contract checks, graceful shutdown).
  \<^item> \<open>Prelude\<close> holds the model of \<open>Map\<close> and \<open>Set\<close> (lists of keys in the order of insertion) and the shared
    lemmas, \<open>Json\<close> the values of \<open>JSON\<close> and their text.

  \<^bold>\<open>How the code is modelled\<close>

  \<^item> An object with fields is a record, an operation a function from the state before to the result and the
    state after, in the order of the source. A throw is the \<open>Inl\<close> of a sum. A frame sent, a row
    saved or a socket closed is a value of the result, in the order they happen.
  \<^item> An operation with an \<open>await\<close> is split there: the parts are steps, and the step relations
    (\<open>GatewayMachine\<close>, \<open>EventMachine\<close>, \<open>RoomMachine\<close>, \<open>PgPipeline\<close>, \<open>Startup\<close>, the schedules of
    \<open>PgEventStore\<close>) interleave them. Where an await only reaches the in-memory store it is atomic; each
    theory says so.
  \<^item> Times, sequence numbers and counters are integers: the program stays below 2 to the 53. Coordinates,
    speeds and covariances are exact reals; floating-point rounding is not modelled.
  \<^item> The clock, random ids, \<open>Date.parse\<close>, the token library, AES-GCM, deflate, SHA-256, the transport between
    regions and the answer of a socket to a send are arguments. What a property needs of them is a
    hypothesis of it, and its witness gives functions that satisfy it.
  \<^item> The SQL of the two PostgreSQL classes is a function on tables with the documented meaning of the
    statement; a statement may also fail. Rows that tie under \<open>ORDER BY\<close> come in any order: the order of a
    scan is an argument, and a property holds for every scan. The initialisation of \<open>PostgresEventStore\<close>
    passes a parameter to a \<open>DO\<close> block, which PostgreSQL refuses, so that every operation of the class
    fails (\<open>never_initialised\<close>); what is shown of its statements and transactions is about these, not about
    the class as it starts.

  \<^bold>\<open>What the lemmas show\<close>

  \<^item> Rooms: an invariant of all reachable states ties the membership of a room to the rooms of a client;
    replay after a reconnect is exactly what was missed, for as long as the ring buffer reaches; the buffer
    stays contiguous.
  \<^item> Regions: quorums intersect; operations from peers commute; the clocks, sets and sequences are
    lattices or converge.
  \<^item> Event sourcing: a snapshot never changes what an aggregate is; concurrent saves do not lose an
    update; the membership view agrees with the streams except for session resumptions, which no
    projection handles. The append transaction of \<open>PostgresEventStore\<close> finds the version conflicts of the
    in-memory store, and differs from it in column limits and duplicate ids; \<open>SqlProjectionSink\<close>
    simulates the memory sink for events in order. The races outside these bounds are stated too.
  \<^item> Sessions: what is saved is restored while its TTL runs, for a TTL below \<open>2^31\<close> milliseconds; after a
    delete or the TTL nothing resumes until the client is saved again.
  \<^item> Storage: compaction conserves counts and extents; the PostgreSQL pipeline accounts for each event,
    keeps the order, and a flush left to itself drains it; compaction there deletes what expired, all of it
    where its statements succeed, and nothing else, and minutes are exact. Pipeline and tables together
    (\<open>PgStorageProperties\<close>) answer raw queries as the memory adapter does, up to the order of events with
    one timestamp.
  \<^item> Predictor: covariances stay positive semidefinite. Validator: accepted messages have their types.
    Auth: an accepted token was verified.
  \<^item> Gateway: room members are verified identities, a resumed session is the client's own however
    it is named, as long as no token refresh resolves after its connection closed; a migrated client is in
    its rooms on the other instance; a position reaches exactly the members of its rooms, but for the rooms
    deduplication skips.

  \<^bold>\<open>Interfaces\<close>

  The contracts several parts share are locales, each interpreted on the model: \<open>membership\<close> (rooms),
  \<open>replica\<close> (merging, for ORSet, RGASequence and LWWElementSet), \<open>event_log\<close> (appending under an expected
  version), \<open>aggregate_class\<close> (replay and snapshots, for the three aggregates), \<open>projection_sink\<close> (room
  members, for both sinks), \<open>window_limiter\<close> and \<open>swept_limiter\<close> (both rate limiters), \<open>expiring_store\<close> and
  \<open>swept_store\<close> (the session store and its sweep), \<open>grouping\<close> (the tiers of the memory adapter).

  \<^bold>\<open>Bounds and fuel\<close>

  Recursion is structural or on a decreasing measure. The traversal of \<open>Rga\<close> has fuel, and is shown to
  return for as many steps as there are nodes. The loop of a flush is a sequence of steps, one for each
  insert, and is shown to end for a positive batch size.

  \<^bold>\<open>Not modelled\<close>

  \<^item> \<open>logger.js\<close> and every call of it: text for people.
  \<^item> The listening sockets, the event-loop lag sample, \<open>unref\<close>, signal handlers and measured durations: they
    only touch the runtime.
  \<^item> The class \<open>StorageAdapter\<close>, whose methods all throw, and the index definitions and generated ids of
    the tables: no operation reads them.
  \<^item> The refresh of TimescaleDB views: it changes views of an extension that no query of the program reads.
  \<^item> Values of a wrong type where the validator has already refused them.
\<close>

end
